(* ===== verification/Prelude.thy ===== *)
theory Prelude
  imports Main "HOL-Library.Word" "HOL-Library.AList" "HOL-Library.Multiset"
begin

text \<open>
  Vocabulary shared by every component of the model.
  \<^item> Machine integers: \<open>uint8\<close> ... \<open>uint64\<close> of the Go code are words of that width.
  \<^item> Errors: the opaque \<open>error\<close> values of the Go code are the values of \<open>go_error\<close>.
    A run-time panic is the constructor \<open>Panic\<close>: nothing in the program recovers one, so it
    propagates like a returned error.
  \<^item> Actions: a method that mutates its receiver and returns an \<open>error\<close> is a function
    from the state to the new state and \<open>Some\<close> error or \<open>None\<close> (Go's \<open>nil\<close>).
    \<open>seq_acts\<close> is the chain \<open>if err := ...; err != nil { return err }\<close> of the source.
  \<^item> External calls: a state that talks to the broker, a socket or a file extends the record
    \<open>env\<close>, whose \<open>outcomes\<close> says which of the coming calls fail (the empty list: none).
    Theorems quantify over it, so they hold for every pattern of failures.
  \<^item> Go maps are association lists with distinct keys. The order of the list stands for the
    order in which the runtime iterates the map, which Go leaves open: a property that holds
    for all lists holds for all iteration orders.
\<close>

named_theorems act_simps "evaluation of actions"
named_theorems pres_intros "introduction rules for invariants of actions"

section \<open>Types\<close>

type_synonym u8 = "8 word"
type_synonym u16 = "16 word"
type_synonym u32 = "32 word"
type_synonym u64 = "64 word"
type_synonym i32 = "32 word" \<comment> \<open>read with \<open>sint\<close>\<close>

datatype go_error =
    ErrSend              \<comment> \<open>publishing to the broker failed\<close>
  | ErrWrite             \<comment> \<open>a file operation failed\<close>
  | ErrScan              \<comment> \<open>\<open>bufio.Scanner\<close>: token too long\<close>
  | ErrItemTooLarge      \<comment> \<open>\<open>item exceeds max batch size\<close>\<close>
  | ErrParse             \<comment> \<open>a \<open>strconv\<close>, \<open>time\<close>, \<open>csv\<close> or JSON parse error\<close>
  | ErrUnknownKind string \<comment> \<open>unknown checkpoint change kind\<close>
  | ErrClosed            \<comment> \<open>\<open>ErrConnectionClosed\<close>\<close>
  | ErrNoAck             \<comment> \<open>\<open>ErrMessageNotReceivedAck\<close>\<close>
  | ErrInvalidType       \<comment> \<open>\<open>ErrInvalidMessageType\<close>\<close>
  | ErrRuntime           \<comment> \<open>a docker command failed\<close>
  | ErrOther string
  | Panic                \<comment> \<open>run-time panic\<close>

section \<open>Actions\<close>

type_synonym 's act = "'s \<Rightarrow> 's \<times> go_error option"

definition ok :: "'s act" where
  [act_simps]: "ok s = (s, None)"

definition fail :: "go_error \<Rightarrow> 's act" where
  [act_simps]: "fail e s = (s, Some e)"

definition upd :: "('s \<Rightarrow> 's) \<Rightarrow> 's act" where
  [act_simps]: "upd f s = (f s, None)"

definition then_act :: "'s act \<Rightarrow> 's act \<Rightarrow> 's act" where
  "then_act a b s = (case a s of (s', None) \<Rightarrow> b s' | (s', Some e) \<Rightarrow> (s', Some e))"

fun seq_acts :: "'s act list \<Rightarrow> 's act" where
  "seq_acts [] = ok"
| "seq_acts (a # as) = then_act a (seq_acts as)"

definition for_each :: "('a \<Rightarrow> 's act) \<Rightarrow> 'a list \<Rightarrow> 's act" where
  "for_each f xs = seq_acts (map f xs)"

text \<open>An error that the caller logs and drops.\<close>

definition ignore_err :: "'s act \<Rightarrow> 's act" where
  [act_simps]: "ignore_err a s = (fst (a s), None)"

text \<open>An action of a part of the state.\<close>

definition zoom :: "('s \<Rightarrow> 't) \<Rightarrow> ('t \<Rightarrow> 's \<Rightarrow> 's) \<Rightarrow> 't act \<Rightarrow> 's act" where
  "zoom getp putp a s = (case a (getp s) of (t, e) \<Rightarrow> (putp t s, e))"

lemma then_act_None [act_simps]: "a s = (s', None) \<Longrightarrow> then_act a b s = b s'"
  by (simp add: then_act_def)

lemma then_act_Some [act_simps]: "a s = (s', Some e) \<Longrightarrow> then_act a b s = (s', Some e)"
  by (simp add: then_act_def)

lemma for_each_Nil [simp]: "for_each f [] = ok"
  by (simp add: for_each_def)

lemma for_each_Cons [simp]: "for_each f (x # xs) = then_act (f x) (for_each f xs)"
  by (simp add: for_each_def)

lemma then_act_ok_left [simp]: "then_act ok b = b"
  by (rule ext) (simp add: then_act_def ok_def)

lemma then_act_ok_right [simp]: "then_act a ok = a"
  by (rule ext) (simp add: then_act_def ok_def split: prod.split option.split)

lemma then_act_assoc: "then_act (then_act a b) c = then_act a (then_act b c)"
  by (rule ext) (simp add: then_act_def split: prod.split option.split)

lemma seq_acts_append: "seq_acts (as @ bs) = then_act (seq_acts as) (seq_acts bs)"
  by (induction as) (simp_all add: then_act_assoc)

lemma for_each_append: "for_each f (xs @ ys) = then_act (for_each f xs) (for_each f ys)"
  by (simp add: for_each_def seq_acts_append)

lemma then_act_upd [simp]: "then_act (upd f) b s = b (f s)"
  by (simp add: then_act_def upd_def)

text \<open>The two ways a chain of two actions can go.\<close>

lemma then_act_cases:
  obtains (stop) e where "snd (a s) = Some e" "then_act a b s = a s"
  | (go) "snd (a s) = None" "then_act a b s = b (fst (a s))"
  by (cases "a s"; cases "snd (a s)") (auto simp: then_act_def)

text \<open>A loop whose every round succeeds and adds one element to what the invariant describes.\<close>

lemma for_each_collects:
  assumes "\<And>x s zs. x \<in> set xs \<Longrightarrow> I s zs \<Longrightarrow> \<exists>s'. f x s = (s', None) \<and> I s' (zs @ [g x])" "I s zs"
  shows "\<exists>s'. for_each f xs s = (s', None) \<and> I s' (zs @ map g xs)"
  using assms
proof (induction xs arbitrary: s zs)
  case Nil
  then show ?case by (simp add: ok_def)
next
  case (Cons x xs)
  obtain s1 where "f x s = (s1, None)" "I s1 (zs @ [g x])" using Cons.prems by force
  then show ?case using Cons.IH [of s1 "zs @ [g x]"] Cons.prems(1) by (force simp: then_act_def)
qed

subsection \<open>Invariants of actions\<close>

definition preserves :: "('s \<Rightarrow> bool) \<Rightarrow> 's act \<Rightarrow> bool" where
  "preserves P a \<longleftrightarrow> (\<forall>s. P s \<longrightarrow> P (fst (a s)))"

lemma preservesI: "(\<And>s. P s \<Longrightarrow> P (fst (a s))) \<Longrightarrow> preserves P a"
  by (simp add: preserves_def)

lemma preservesD: "preserves P a \<Longrightarrow> P s \<Longrightarrow> P (fst (a s))"
  by (simp add: preserves_def)

lemma preserves_ok [pres_intros, simp]: "preserves P ok"
  by (simp add: preserves_def ok_def)

lemma preserves_fail [pres_intros, simp]: "preserves P (fail e)"
  by (simp add: preserves_def fail_def)

lemma preserves_upd [pres_intros]: "(\<And>s. P s \<Longrightarrow> P (f s)) \<Longrightarrow> preserves P (upd f)"
  by (simp add: preserves_def upd_def)

lemma preserves_then [pres_intros]:
  "preserves P a \<Longrightarrow> preserves P b \<Longrightarrow> preserves P (then_act a b)"
  by (simp add: preserves_def then_act_def split: prod.split option.split) (metis fst_conv)

lemma preserves_seq [pres_intros]:
  "(\<And>a. a \<in> set as \<Longrightarrow> preserves P a) \<Longrightarrow> preserves P (seq_acts as)"
  by (induction as) (auto intro: preserves_then)

lemma preserves_for_each [pres_intros]:
  "(\<And>x. x \<in> set xs \<Longrightarrow> preserves P (f x)) \<Longrightarrow> preserves P (for_each f xs)"
  by (auto simp: for_each_def intro!: preserves_seq)

lemma preserves_ignore [pres_intros]: "preserves P a \<Longrightarrow> preserves P (ignore_err a)"
  by (simp add: preserves_def ignore_err_def)

text \<open>An action whose text depends on the state it starts in.\<close>

lemma preserves_read:
  "(\<And>t. preserves P (a t)) \<Longrightarrow> preserves P (\<lambda>s. a s s)"
  by (simp add: preserves_def)

subsection \<open>Triples\<close>

text \<open>
  From \<open>P\<close> the action ends in \<open>Q\<close> when it returns no error and in \<open>R\<close> when it returns one.
\<close>

definition triple :: "('s \<Rightarrow> bool) \<Rightarrow> 's act \<Rightarrow> ('s \<Rightarrow> bool) \<Rightarrow> ('s \<Rightarrow> bool) \<Rightarrow> bool" where
  "triple P a Q R \<longleftrightarrow> (\<forall>s. P s \<longrightarrow> (if snd (a s) = None then Q (fst (a s)) else R (fst (a s))))"

named_theorems triple_intros "rules for triples of actions"

lemma tripleD: "triple P a Q R \<Longrightarrow> P s \<Longrightarrow> (if snd (a s) = None then Q (fst (a s)) else R (fst (a s)))"
  by (simp add: triple_def)

lemma triple_then [triple_intros]: "triple P a Q R \<Longrightarrow> triple Q b S R \<Longrightarrow> triple P (then_act a b) S R"
  by (simp add: triple_def then_act_def split: prod.split option.split)
     (metis fst_conv option.distinct(1) snd_conv)

lemma triple_seq_Nil [triple_intros]: "(\<And>s. P s \<Longrightarrow> Q s) \<Longrightarrow> triple P (seq_acts []) Q R"
  by (simp add: triple_def ok_def)

lemma triple_seq_Cons [triple_intros]:
  "triple P a Q R \<Longrightarrow> triple Q (seq_acts as) S R \<Longrightarrow> triple P (seq_acts (a # as)) S R"
  by (simp add: triple_then)

lemma triple_ok [triple_intros]: "(\<And>s. P s \<Longrightarrow> Q s) \<Longrightarrow> triple P ok Q R"
  by (simp add: triple_def ok_def)

lemma triple_upd [triple_intros]: "(\<And>s. P s \<Longrightarrow> Q (f s)) \<Longrightarrow> triple P (upd f) Q R"
  by (simp add: triple_def upd_def)

lemma triple_preserves: "preserves P a \<Longrightarrow> (\<And>s. P s \<Longrightarrow> R s) \<Longrightarrow> triple P a P R"
  by (simp add: triple_def preserves_def)

lemma triple_same: "triple P a P P \<longleftrightarrow> preserves P a"
  by (simp add: triple_def preserves_def)

section \<open>External calls\<close>

record env =
  outcomes :: "bool list" \<comment> \<open>whether each coming external call succeeds\<close>

text \<open>
  One external call: it fails with the given error and no effect, or succeeds with the effect.
\<close>

definition call :: "('z env_scheme \<Rightarrow> 'z env_scheme) \<Rightarrow> go_error \<Rightarrow> 'z env_scheme act" where
  "call eff err s =
     (case outcomes s of
        [] \<Rightarrow> (eff s, None)
      | True # bs \<Rightarrow> (eff (s\<lparr>outcomes := bs\<rparr>), None)
      | False # bs \<Rightarrow> (s\<lparr>outcomes := bs\<rparr>, Some err))"

text \<open>A state in which no external call will fail.\<close>

definition no_faults :: "'z env_scheme \<Rightarrow> bool" where
  "no_faults s \<longleftrightarrow> outcomes s = []"

lemma call_no_faults [act_simps]: "outcomes s = [] \<Longrightarrow> call eff err s = (eff s, None)"
  by (simp add: call_def)

lemma call_result:
  obtains (fails) bs where "call eff err s = (s\<lparr>outcomes := bs\<rparr>, Some err)"
  | (succeeds) bs where "call eff err s = (eff (s\<lparr>outcomes := bs\<rparr>), None)"
proof (cases "outcomes s")
  case Nil
  then have "call eff err s = (eff (s\<lparr>outcomes := []\<rparr>), None)"
    by (simp add: call_def) (metis env.surjective env.update_convs(1) env.select_convs(1))
  then show ?thesis by (rule succeeds)
next
  case (Cons b bs)
  then show ?thesis by (cases b) (auto simp: call_def intro: fails succeeds)
qed

lemma preserves_call [pres_intros]:
  assumes "\<And>s bs. P s \<Longrightarrow> P (s\<lparr>outcomes := bs\<rparr>)" and "\<And>s. P s \<Longrightarrow> P (eff s)"
  shows "preserves P (call eff err)"
proof (rule preservesI)
  fix s
  assume "P s"
  then show "P (fst (call eff err s))"
    by (cases rule: call_result [of eff err s]) (simp_all add: assms)
qed

section \<open>Go maps\<close>

type_synonym ('k, 'v) gomap = "('k \<times> 'v) list"

abbreviation mget :: "('k, 'v) gomap \<Rightarrow> 'k \<Rightarrow> 'v option" where
  "mget m k \<equiv> map_of m k"

abbreviation mput :: "'k \<Rightarrow> 'v \<Rightarrow> ('k, 'v) gomap \<Rightarrow> ('k, 'v) gomap" where
  "mput k v m \<equiv> AList.update k v m"

abbreviation mdel :: "'k \<Rightarrow> ('k, 'v) gomap \<Rightarrow> ('k, 'v) gomap" where
  "mdel k m \<equiv> AList.delete k m"

abbreviation mkeys :: "('k, 'v) gomap \<Rightarrow> 'k list" where
  "mkeys m \<equiv> map fst m"

text \<open>Reading a missing key of a Go map gives the zero value of the element type.\<close>

definition mget0 :: "'v \<Rightarrow> ('k, 'v) gomap \<Rightarrow> 'k \<Rightarrow> 'v" where
  "mget0 z m k = (case map_of m k of None \<Rightarrow> z | Some v \<Rightarrow> v)"

definition mhas :: "('k, 'v) gomap \<Rightarrow> 'k \<Rightarrow> bool" where
  "mhas m k \<longleftrightarrow> map_of m k \<noteq> None"

definition wf_map :: "('k, 'v) gomap \<Rightarrow> bool" where
  "wf_map m \<longleftrightarrow> distinct (mkeys m)"

lemma mget_mput: "mget (mput k v m) k' = (if k' = k then Some v else mget m k')"
  by (simp add: update_conv')

lemma mget_mdel: "mget (mdel k m) k' = (if k' = k then None else mget m k')"
  by (simp add: delete_conv')

lemma mget0_mput: "mget0 z (mput k v m) k' = (if k' = k then v else mget0 z m k')"
  by (simp add: mget0_def mget_mput)

lemma mget0_mdel: "mget0 z (mdel k m) k' = (if k' = k then z else mget0 z m k')"
  by (simp add: mget0_def mget_mdel)

lemma mget0_Nil [simp]: "mget0 z [] k = z"
  by (simp add: mget0_def)

lemma mhas_iff_keys: "mhas m k \<longleftrightarrow> k \<in> set (mkeys m)"
  by (auto simp: mhas_def map_of_eq_None_iff)

lemma mhas_mput [simp]: "mhas (mput k v m) k' \<longleftrightarrow> k' = k \<or> mhas m k'"
  by (simp add: mhas_def mget_mput)

lemma mhas_mdel [simp]: "mhas (mdel k m) k' \<longleftrightarrow> k' \<noteq> k \<and> mhas m k'"
  by (simp add: mhas_def mget_mdel)

lemma mhas_Nil [simp]: "\<not> mhas [] k"
  by (simp add: mhas_def)

lemma wf_map_Nil [simp]: "wf_map []"
  by (simp add: wf_map_def)

lemma wf_map_mput [simp]: "wf_map m \<Longrightarrow> wf_map (mput k v m)"
  by (simp add: wf_map_def distinct_update)

lemma wf_map_mdel [simp]: "wf_map m \<Longrightarrow> wf_map (mdel k m)"
  by (simp add: wf_map_def distinct_delete)

lemma set_keys_mput: "set (mkeys (mput k v m)) = insert k (set (mkeys m))"
  by (induction m) auto

lemma mput_fresh: "k \<notin> set (mkeys m) \<Longrightarrow> mput k v m = m @ [(k, v)]"
  by (induction m) auto

lemma mput_same: "mget m k = Some v \<Longrightarrow> mput k v m = m"
  by (induction m) auto

lemma length_mput: "length (mput k v m) = (if mhas m k then length m else Suc (length m))"
  by (induction m) (auto simp: mhas_def)

lemma map_of_in_wf: "wf_map m \<Longrightarrow> (k, v) \<in> set m \<longleftrightarrow> mget m k = Some v"
  by (simp add: wf_map_def)

text \<open>Two maps with the same entries, whatever their iteration orders.\<close>

lemma map_of_mset_eq:
  assumes "mset m = mset m'" and "wf_map m"
  shows "map_of m = map_of m'"
proof -
  have "mset (mkeys m) = mset (mkeys m')"
    using assms(1) by (metis mset_map)
  then have d: "distinct (mkeys m')"
    using assms(2) by (metis mset_eq_imp_distinct_iff wf_map_def)
  have e: "set m = set m'"
    using assms(1) by (rule mset_eq_setD)
  have "map_of m k = Some v \<longleftrightarrow> map_of m' k = Some v" for k v
    using assms(2) by (simp add: wf_map_def map_of_eq_Some_iff [OF d] e map_of_eq_Some_iff)
  then show ?thesis
    by (intro ext) (metis option.exhaust)
qed

subsection \<open>Maps of maps\<close>

text \<open>Go's \<open>map[K1]map[K2]V\<close>, whose inner maps are created on the first write.\<close>

definition wf_nested :: "('k, ('j, 'v) gomap) gomap \<Rightarrow> bool" where
  "wf_nested m \<longleftrightarrow> wf_map m \<and> (\<forall>e \<in> set m. wf_map (snd e))"

definition nput :: "'k \<Rightarrow> 'j \<Rightarrow> 'v \<Rightarrow> ('k, ('j, 'v) gomap) gomap \<Rightarrow> ('k, ('j, 'v) gomap) gomap" where
  "nput k j v m = mput k (mput j v (mget0 [] m k)) m"

definition entries :: "('k, ('j, 'v) gomap) gomap \<Rightarrow> ('j \<times> 'v) list" where
  "entries m = concat (map snd m)"

lemma wf_nested_Nil [simp]: "wf_nested []"
  by (simp add: wf_nested_def)

lemma set_mput_subset: "set (mput k v m) \<subseteq> insert (k, v) (set m)"
  by (induction m) auto

lemma wf_nested_get: "wf_nested m \<Longrightarrow> wf_map (mget0 [] m k)"
  by (fastforce simp: wf_nested_def mget0_def split: option.split dest: map_of_SomeD)

lemma wf_nested_put: "wf_nested m \<Longrightarrow> wf_map v \<Longrightarrow> wf_nested (mput k v m)"
  using set_mput_subset [of k v m] by (fastforce simp: wf_nested_def)

lemma wf_nested_nput [simp]: "wf_nested m \<Longrightarrow> wf_nested (nput k j v m)"
  by (simp add: nput_def wf_nested_put wf_nested_get)

lemma wf_nested_mdel [simp]: "wf_nested m \<Longrightarrow> wf_nested (mdel k m)"
proof -
  assume "wf_nested m"
  moreover have "set (mdel k m) \<subseteq> set m" by (auto simp: AList.delete_eq)
  ultimately show ?thesis by (auto simp: wf_nested_def)
qed

lemma set_mput_wf: "wf_map m \<Longrightarrow> set (mput k v m) = insert (k, v) {e \<in> set m. fst e \<noteq> k}"
proof (induction m)
  case (Cons e m)
  then show ?case by (cases e) (force simp: wf_map_def)
qed (simp add: wf_map_def)

lemma set_mput_agree:
  "wf_map m \<Longrightarrow> (\<And>v'. (k, v') \<in> set m \<Longrightarrow> v' = v) \<Longrightarrow> set (mput k v m) = insert (k, v) (set m)"
  by (auto simp: set_mput_wf)

text \<open>The entries after a nested write, when every entry for the inner key agrees with it.\<close>

lemma set_entries_mput:
  "wf_map m \<Longrightarrow> set (entries (mput k es m)) = set es \<union> (\<Union>e \<in> {e \<in> set m. fst e \<noteq> k}. set (snd e))"
  by (simp add: entries_def set_mput_wf)

lemma set_entries_get:
  "wf_map m \<Longrightarrow> set (entries m) = set (mget0 [] m k) \<union> (\<Union>e \<in> {e \<in> set m. fst e \<noteq> k}. set (snd e))"
proof (cases "mget m k")
  case None
  assume "wf_map m"
  from None have "\<forall>e \<in> set m. fst e \<noteq> k" by (metis map_of_eq_None_iff image_eqI)
  then show ?thesis using None by (auto simp: entries_def mget0_def)
next
  case (Some es)
  assume "wf_map m"
  with Some have "{e \<in> set m. fst e = k} = {(k, es)}"
    by (auto simp: wf_map_def dest: map_of_SomeD) (metis map_of_is_SomeI option.inject)
  then have "set m = {(k, es)} \<union> {e \<in> set m. fst e \<noteq> k}"
    by blast
  then have "set (entries m) = (\<Union>e \<in> {(k, es)} \<union> {e \<in> set m. fst e \<noteq> k}. set (snd e))"
    by (metis entries_def set_concat list.set_map image_image)
  with Some show ?thesis by (simp add: mget0_def)
qed

lemma set_entries_nput:
  assumes "wf_nested m" "\<And>v'. (j, v') \<in> set (entries m) \<Longrightarrow> v' = v"
  shows "set (entries (nput k j v m)) = insert (j, v) (set (entries m))"
proof -
  have m: "wf_map m" using assms(1) by (simp add: wf_nested_def)
  have "set (mput j v (mget0 [] m k)) = insert (j, v) (set (mget0 [] m k))"
    using assms(2) set_entries_get [OF m, of k]
    by (auto simp: set_mput_wf wf_nested_get [OF assms(1)])
  then show ?thesis
    by (simp add: nput_def set_entries_mput [OF m] set_entries_get [OF m, of k])
qed

end
