(* ===== verification/GoStrings.thy ===== *)
theory GoStrings
  imports Prelude
begin

text \<open>
  The functions of Go's \<open>strconv\<close>, \<open>strings\<close>, \<open>fmt\<close> and \<open>bufio\<close> that the program uses, on
  strings of bytes: decimal and hexadecimal formatting and parsing, \<open>strings.Split\<close> on one
  byte, \<open>strings.IndexByte\<close>, and the line scanner with its token limit. They are library code:
  the map has no entry for them. The lemmas are their round trips.
\<close>

section \<open>Characters\<close>

abbreviation NL :: char where "NL \<equiv> CHR 0x0A"
abbreviation CR :: char where "CR \<equiv> CHR 0x0D"
abbreviation SP :: char where "SP \<equiv> CHR '' ''"
abbreviation BAR :: char where "BAR \<equiv> CHR ''|''"
abbreviation DASH :: char where "DASH \<equiv> CHR ''-''"
abbreviation COMMA :: char where "COMMA \<equiv> CHR '',''"

definition byte :: "char \<Rightarrow> nat" where
  "byte c = of_char c"

definition digit_char :: "nat \<Rightarrow> char" where
  "digit_char d = char_of (48 + d)"

definition is_digit :: "char \<Rightarrow> bool" where
  "is_digit c \<longleftrightarrow> 48 \<le> byte c \<and> byte c \<le> 57"

definition digit_val :: "char \<Rightarrow> nat" where
  "digit_val c = byte c - 48"

lemma byte_digit_char: "d < 10 \<Longrightarrow> byte (digit_char d) = 48 + d"
  by (simp add: byte_def digit_char_def)

lemma is_digit_digit_char: "d < 10 \<Longrightarrow> is_digit (digit_char d)"
  by (simp add: is_digit_def byte_digit_char)

lemma digit_val_digit_char: "d < 10 \<Longrightarrow> digit_val (digit_char d) = d"
  by (simp add: digit_val_def byte_digit_char)

section \<open>Numbers in a base\<close>

definition base_value :: "nat \<Rightarrow> (char \<Rightarrow> nat) \<Rightarrow> string \<Rightarrow> nat" where
  "base_value b f s = foldl (\<lambda>acc c. acc * b + f c) 0 s"

lemma base_value_Nil [simp]: "base_value b f [] = 0"
  by (simp add: base_value_def)

lemma base_value_snoc [simp]: "base_value b f (s @ [c]) = base_value b f s * b + f c"
  by (simp add: base_value_def)

subsection \<open>Decimal\<close>

fun show_nat :: "nat \<Rightarrow> string" where
  "show_nat n = (if n < 10 then [digit_char n] else show_nat (n div 10) @ [digit_char (n mod 10)])"

declare show_nat.simps [simp del]

definition show_int :: "int \<Rightarrow> string" where
  "show_int i = (if i < 0 then DASH # show_nat (nat (- i)) else show_nat (nat i))"

lemma show_nat_nonempty [simp]: "show_nat n \<noteq> []"
  by (subst show_nat.simps) simp

lemma show_nat_digits: "c \<in> set (show_nat n) \<Longrightarrow> is_digit c"
proof (induction n rule: show_nat.induct)
  case (1 n)
  then show ?case
    by (cases "n < 10") (auto simp: show_nat.simps [of n] is_digit_digit_char)
qed

lemma value_show_nat: "base_value 10 digit_val (show_nat n) = n"
proof (induction n rule: show_nat.induct)
  case (1 n)
  show ?case
  proof (cases "n < 10")
    case True
    then show ?thesis
      by (simp add: show_nat.simps [of n] base_value_def digit_val_digit_char)
  next
    case False
    with 1 show ?thesis
      by (simp add: show_nat.simps [of n] digit_val_digit_char)
  qed
qed

lemma show_nat_inject [simp]: "show_nat m = show_nat n \<longleftrightarrow> m = n"
  by (metis value_show_nat)

text \<open>A character that is no digit does not occur in a printed number.\<close>

lemma nondigit_notin_show_nat: "\<not> is_digit c \<Longrightarrow> c \<notin> set (show_nat n)"
  using show_nat_digits by blast

lemma not_is_digit [simp]:
  "\<not> is_digit BAR" "\<not> is_digit NL" "\<not> is_digit SP" "\<not> is_digit DASH" "\<not> is_digit COMMA"
  "\<not> is_digit CR"
  by (simp_all add: is_digit_def byte_def)

definition parse_nat :: "string \<Rightarrow> nat option" where
  "parse_nat s = (if s \<noteq> [] \<and> list_all is_digit s then Some (base_value 10 digit_val s) else None)"

lemma parse_show_nat [simp]: "parse_nat (show_nat n) = Some n"
  by (auto simp: parse_nat_def value_show_nat list_all_iff dest: show_nat_digits)

text \<open>\<open>strconv.ParseUint(s, 10, 64)\<close>\<close>

definition parse_uint64 :: "string \<Rightarrow> u64 option" where
  "parse_uint64 s = (case parse_nat s of
      None \<Rightarrow> None
    | Some n \<Rightarrow> if n < 2 ^ 64 then Some (word_of_nat n) else None)"

definition show_u64 :: "u64 \<Rightarrow> string" where
  "show_u64 w = show_nat (unat w)"

lemma unat_u64_bound: "unat (w :: u64) < 2 ^ 64"
proof -
  have "unat w < 2 ^ LENGTH(64)" by (rule unsigned_less)
  then show ?thesis by simp
qed

lemma parse_show_u64 [simp]: "parse_uint64 (show_u64 w) = Some w"
  using unat_u64_bound [of w] by (simp add: parse_uint64_def show_u64_def)

text \<open>\<open>strconv.Atoi\<close>: an optional sign, digits, and the range of a 64-bit \<open>int\<close>.\<close>

definition atoi :: "string \<Rightarrow> int option" where
  "atoi s =
     (let (neg, body) =
        (case s of [] \<Rightarrow> (False, [])
         | c # cs \<Rightarrow> if c = DASH then (True, cs) else if c = CHR ''+'' then (False, cs) else (False, s))
      in case parse_nat body of
           None \<Rightarrow> None
         | Some n \<Rightarrow>
             let i = (if neg then - int n else int n)
             in if - (2 ^ 63) \<le> i \<and> i < 2 ^ 63 then Some i else None)"

lemma atoi_show_nat:
  assumes "int n < 2 ^ 63"
  shows "atoi (show_nat n) = Some (int n)"
proof (cases "show_nat n")
  case Nil
  then show ?thesis by simp
next
  case (Cons c cs)
  have "is_digit c" using show_nat_digits [of c n] Cons by simp
  then have "c \<noteq> DASH" "c \<noteq> CHR ''+''" by (auto simp: is_digit_def byte_def)
  with Cons have "atoi (show_nat n) =
      (case parse_nat (show_nat n) of None \<Rightarrow> None
       | Some k \<Rightarrow> if - (2 ^ 63) \<le> int k \<and> int k < 2 ^ 63 then Some (int k) else None)"
    by (auto simp: atoi_def simp del: parse_show_nat split: option.splits)
  also have "\<dots> = Some (int n)"
    using assms by simp
  finally show ?thesis .
qed

lemma atoi_show_int:
  assumes "- (2 ^ 63) \<le> i" "i < 2 ^ 63"
  shows "atoi (show_int i) = Some i"
proof (cases "i < 0")
  case True
  then show ?thesis
    using assms by (simp add: show_int_def atoi_def Let_def)
next
  case False
  then show ?thesis
    using assms atoi_show_nat [of "nat i"] by (simp add: show_int_def)
qed

subsection \<open>Hexadecimal\<close>

fun fixed_digits :: "nat \<Rightarrow> nat \<Rightarrow> nat \<Rightarrow> nat list" where
  "fixed_digits b 0 n = []"
| "fixed_digits b (Suc k) n = fixed_digits b k (n div b) @ [n mod b]"

definition hex_char :: "nat \<Rightarrow> char" where
  "hex_char d = char_of (if d < 10 then 48 + d else 87 + d)"

definition is_hex :: "char \<Rightarrow> bool" where
  "is_hex c \<longleftrightarrow> is_digit c \<or> (97 \<le> byte c \<and> byte c \<le> 102) \<or> (65 \<le> byte c \<and> byte c \<le> 70)"

definition hex_val :: "char \<Rightarrow> nat" where
  "hex_val c = (if is_digit c then byte c - 48 else if 97 \<le> byte c then byte c - 87 else byte c - 55)"

text \<open>\<open>%08x\<close> of a 32-bit value, and \<open>strconv.ParseUint(s, 16, 32)\<close>.\<close>

definition show_hex8 :: "nat \<Rightarrow> string" where
  "show_hex8 n = map hex_char (fixed_digits 16 8 n)"

definition parse_hex32 :: "string \<Rightarrow> u32 option" where
  "parse_hex32 s =
     (if s \<noteq> [] \<and> list_all is_hex s \<and> base_value 16 hex_val s < 2 ^ 32
      then Some (word_of_nat (base_value 16 hex_val s)) else None)"

lemma hex_char_props: "d < 16 \<Longrightarrow> is_hex (hex_char d) \<and> hex_val (hex_char d) = d"
  by (auto simp: is_hex_def hex_val_def is_digit_def hex_char_def byte_def)

lemma length_fixed_digits [simp]: "length (fixed_digits b k n) = k"
  by (induction k arbitrary: n) simp_all

lemma fixed_digits_less: "0 < b \<Longrightarrow> d \<in> set (fixed_digits b k n) \<Longrightarrow> d < b"
  by (induction k arbitrary: n) auto

lemma length_show_hex8 [simp]: "length (show_hex8 n) = 8"
  by (simp add: show_hex8_def)

lemma value_fixed_digits:
  "base_value 16 hex_val (map hex_char (fixed_digits 16 k n)) = n mod 16 ^ k"
proof (induction k arbitrary: n)
  case 0
  then show ?case by simp
next
  case (Suc k)
  have "(n div 16 mod 16 ^ k) * 16 + n mod 16 = n mod (16 * 16 ^ k)"
    by (simp add: mod_mult2_eq)
  with Suc show ?case
    by (simp add: hex_char_props)
qed

lemma show_hex8_hex: "c \<in> set (show_hex8 n) \<Longrightarrow> is_hex c"
  by (auto simp: show_hex8_def hex_char_props dest: fixed_digits_less [rotated])

lemma not_is_hex [simp]: "\<not> is_hex SP" "\<not> is_hex NL"
  by (simp_all add: is_hex_def is_digit_def byte_def)

lemma parse_show_hex8: "n < 2 ^ 32 \<Longrightarrow> parse_hex32 (show_hex8 n) = Some (word_of_nat n)"
proof -
  assume n: "n < 2 ^ 32"
  have "show_hex8 n \<noteq> []"
    using length_show_hex8 [of n] by fastforce
  moreover have "list_all is_hex (show_hex8 n)"
    by (simp add: list_all_iff show_hex8_hex)
  moreover have "base_value 16 hex_val (show_hex8 n) = n"
    using value_fixed_digits [of 8 n] n by (simp add: show_hex8_def)
  ultimately show ?thesis
    using n by (simp add: parse_hex32_def)
qed

section \<open>Splitting\<close>

text \<open>\<open>strings.Split(s, sep)\<close> for a separator of one byte.\<close>

fun split_on :: "char \<Rightarrow> string \<Rightarrow> string list" where
  "split_on sep [] = [[]]"
| "split_on sep (c # s) =
     (if c = sep then [] # split_on sep s
      else case split_on sep s of [] \<Rightarrow> [[c]] | l # ls \<Rightarrow> (c # l) # ls)"

lemma split_on_nonempty [simp]: "split_on sep s \<noteq> []"
  by (induction s) (auto split: list.splits)

lemma split_on_field: "sep \<notin> set a \<Longrightarrow> split_on sep (a @ sep # b) = a # split_on sep b"
  by (induction a) auto

lemma split_on_last: "sep \<notin> set a \<Longrightarrow> split_on sep a = [a]"
  by (induction a) auto

lemma length_split_on: "length (split_on sep s) = Suc (count_list s sep)"
  by (induction s) (auto split: list.splits)

text \<open>\<open>strings.IndexByte\<close>: the position of the first occurrence, or \<open>-1\<close>.\<close>

definition index_byte :: "string \<Rightarrow> char \<Rightarrow> int" where
  "index_byte s c = (let n = length (takeWhile (\<lambda>x. x \<noteq> c) s) in if n < length s then int n else -1)"

lemma takeWhile_upto: "c \<notin> set a \<Longrightarrow> takeWhile (\<lambda>x. x \<noteq> c) (a @ c # b) = a"
  by (induction a) auto

lemma index_byte_found: "c \<notin> set a \<Longrightarrow> index_byte (a @ c # b) c = int (length a)"
  by (simp add: index_byte_def takeWhile_upto)

lemma index_byte_missing:
  assumes "c \<notin> set a"
  shows "index_byte a c = -1"
proof -
  have "takeWhile (\<lambda>x. x \<noteq> c) a = a"
    using assms by (induction a) auto
  then show ?thesis by (simp only: index_byte_def Let_def) simp
qed

section \<open>The line scanner\<close>

text \<open>
  \<open>bufio.Scanner\<close> with \<open>ScanLines\<close>: lines end at a newline, one trailing carriage return is
  dropped, an empty rest at the end of the file is no line, and a line that does not fit the
  buffer stops the scan with an error.
\<close>

fun raw_lines :: "string \<Rightarrow> string list" where
  "raw_lines [] = []"
| "raw_lines (c # s) =
     (if c = NL then [] # raw_lines s
      else case raw_lines s of [] \<Rightarrow> [[c]] | l # ls \<Rightarrow> (c # l) # ls)"

definition drop_cr :: "string \<Rightarrow> string" where
  "drop_cr l = (if l \<noteq> [] \<and> last l = CR then butlast l else l)"

definition scan_lines :: "nat \<Rightarrow> string \<Rightarrow> string list \<times> go_error option" where
  "scan_lines limit s =
     (let ls = raw_lines s; good = takeWhile (\<lambda>l. length l < limit) ls
      in (map drop_cr good, if length good < length ls then Some ErrScan else None))"

lemma raw_lines_line: "NL \<notin> set l \<Longrightarrow> raw_lines (l @ NL # s) = l # raw_lines s"
  by (induction l) auto

lemma raw_lines_rest: "NL \<notin> set l \<Longrightarrow> l \<noteq> [] \<Longrightarrow> raw_lines l = [l]"
proof (induction l)
  case (Cons c l)
  then show ?case by (cases l) auto
qed simp

lemma raw_lines_file:
  assumes "\<forall>l \<in> set ls. NL \<notin> set l"
  shows "raw_lines (concat (map (\<lambda>l. l @ [NL]) ls) @ s) = ls @ raw_lines s"
  using assms by (induction ls) (simp_all add: raw_lines_line)

lemma drop_cr_id: "CR \<notin> set l \<Longrightarrow> drop_cr l = l"
  by (metis drop_cr_def last_in_set)

text \<open>A file of short lines without control characters is read back line by line.\<close>

lemma scan_lines_file:
  assumes "\<forall>l \<in> set ls. NL \<notin> set l \<and> CR \<notin> set l \<and> length l < limit"
  shows "scan_lines limit (concat (map (\<lambda>l. l @ [NL]) ls)) = (ls, None)"
proof -
  have "raw_lines (concat (map (\<lambda>l. l @ [NL]) ls)) = ls"
    using raw_lines_file [of ls "[]"] assms by simp
  moreover have "takeWhile (\<lambda>l. length l < limit) ls = ls"
    using assms by (induction ls) auto
  moreover have "map drop_cr ls = ls"
    using assms by (simp add: map_idI drop_cr_id)
  ultimately show ?thesis
    by (simp only: scan_lines_def Let_def) simp
qed

section \<open>Bytes\<close>

text \<open>\<open>[]byte(s)\<close> and \<open>string(b)\<close>: a character of the model is a byte.\<close>

definition bytes :: "string \<Rightarrow> u8 list" where
  "bytes s = map (\<lambda>c. word_of_nat (byte c)) s"

definition unbytes :: "u8 list \<Rightarrow> string" where
  "unbytes bs = map (\<lambda>b. char_of (unat b)) bs"

lemma length_bytes [simp]: "length (bytes s) = length s"
  by (simp add: bytes_def)

lemma unbytes_bytes [simp]: "unbytes (bytes s) = s"
proof -
  have "char_of (unat (word_of_nat (byte c) :: u8)) = c" for c
    using nat_of_char_less_256 [of c] by (simp add: byte_def unsigned_of_nat take_bit_nat_eq_self)
  then show ?thesis by (simp add: bytes_def unbytes_def comp_def)
qed

end
