(* ===== verification/Messages.thy ===== *)
theory Messages
  imports GoStrings
begin

text \<open>
  The messages the workers exchange (the generated types of \<open>protomessages\<close>, of which only the
  fields matter here), their batches (\<open>protowrappers\<close>), and the conversions between a batch and the
  envelope that travels (\<open>protoinserters\<close>, \<open>protoextractors\<close>, \<open>protomessages/serializer.go\<close>).
  A message body is the envelope itself: \<open>proto.Unmarshal\<close> inverts \<open>proto.Marshal\<close>.

  A \<open>float64\<close> is the word of its IEEE bits; its comparisons are defined here and its arithmetic is a parameter of the definitions that
  use it. A timestamp is the number of nanoseconds since the epoch. An \<open>int32\<close> is a word read
  with \<open>sint\<close>.
\<close>

type_synonym f64 = "64 word"

text \<open>The operations of \<open>float64\<close> and of \<open>strconv\<close> on it that the program uses.\<close>

record float_ops =
  f_add :: "f64 \<Rightarrow> f64 \<Rightarrow> f64"
  f_mul :: "f64 \<Rightarrow> f64 \<Rightarrow> f64"
  f_div :: "f64 \<Rightarrow> f64 \<Rightarrow> f64"
  f_of_int :: "int \<Rightarrow> f64"
  f_parse :: "string \<Rightarrow> f64 option"
  f_show2 :: "f64 \<Rightarrow> string" \<comment> \<open>\<open>%.2f\<close>\<close>
  f_show6 :: "f64 \<Rightarrow> string" \<comment> \<open>\<open>%f\<close>\<close>

text \<open>
  Comparisons read the bits: the sign bit and the magnitude; an exponent of ones stands for the
  infinities and the NaNs, which compare false with everything. Both zeros have the key zero.
\<close>

definition f_magnitude :: "f64 \<Rightarrow> nat" where
  "f_magnitude w = unat w mod 2 ^ 63"

definition f_key :: "f64 \<Rightarrow> int" where
  "f_key w = (if 2 ^ 63 \<le> unat w then - int (f_magnitude w) else int (f_magnitude w))"

definition f_is_nan :: "f64 \<Rightarrow> bool" where
  "f_is_nan w \<longleftrightarrow> 0x7ff0000000000000 < f_magnitude w"

definition f_finite :: "f64 \<Rightarrow> bool" where
  "f_finite w \<longleftrightarrow> f_magnitude w < 0x7ff0000000000000"

definition f_less :: "f64 \<Rightarrow> f64 \<Rightarrow> bool" where
  "f_less a b \<longleftrightarrow> \<not> f_is_nan a \<and> \<not> f_is_nan b \<and> f_key a < f_key b"

definition f_less_eq :: "f64 \<Rightarrow> f64 \<Rightarrow> bool" where
  "f_less_eq a b \<longleftrightarrow> \<not> f_is_nan a \<and> \<not> f_is_nan b \<and> f_key a \<le> f_key b"

lemma f_less_total: "\<not> f_is_nan a \<Longrightarrow> \<not> f_is_nan b \<Longrightarrow> \<not> f_less a b \<longleftrightarrow> f_less_eq b a"
  by (auto simp: f_less_def f_less_eq_def)

lemma f_less_eq_trans: "f_less_eq a b \<Longrightarrow> f_less_eq b c \<Longrightarrow> f_less_eq a c"
  by (auto simp: f_less_eq_def)

lemma f_less_irrefl [simp]: "\<not> f_less a a"
  by (simp add: f_less_def)

section \<open>Items\<close>

record account =
  bank :: i32
  account_name :: string

record transaction =
  tx_client :: string
  tx_time :: int
  tx_from_bank :: i32
  tx_to_bank :: i32
  tx_account :: string
  tx_to_account :: string
  tx_currency :: string
  tx_amount :: string
  tx_format :: string

record microtransaction =
  micro_account :: string
  micro_to_account :: string
  micro_amount :: f64

record period_item =
  pf_time :: int
  pf_from_bank :: i32
  pf_to_bank :: i32
  pf_account :: string
  pf_to_account :: string
  pf_amount :: string
  pf_format :: string

record to_convert =
  tc_time :: int
  tc_amount :: string
  tc_currency :: string
  tc_format :: string

record type_filtered =
  tf_amount :: string
  tf_currency :: string
  tf_time :: int

datatype maxbank_payload = BankMetadata string | TransferSummary string string | NoPayload

record maxbank_item =
  mb_from_bank :: i32
  mb_payload :: maxbank_payload

record maxbank_result =
  mr_bank_name :: string
  mr_account :: string
  mr_amount :: string

datatype avg_period = PeriodUnspecified | PeriodFirst | PeriodSecond

record avg_transaction =
  av_account :: string
  av_amount :: string
  av_format :: string
  av_period :: avg_period

record avg_result =
  ar_account :: string
  ar_amount :: string

record scatter_gather =
  sg_from_bank :: i32
  sg_to_bank :: i32
  sg_account :: string
  sg_to_account :: string

record grouped_accounts =
  base_account :: account
  related_accounts :: "account list"

record intermediary_pair =
  intermediary :: account
  pair_account :: account

record suspicious_path =
  origin :: account
  destination :: account
  intermediary_count :: u32

record converted_amount =
  converted :: f64

record micro_payment_result =
  payment_count :: int \<comment> \<open>\<open>int64\<close>\<close>

section \<open>The envelope\<close>

datatype message_type =
    MT_EOF | MT_CLEANUP | MT_TRANSACTION_BATCH | MT_TO_CONVERT_TRANSACTION_BATCH | MT_SUSPICIOUS_PATH_BATCH
  | MT_SUSPICIOUS_ACCOUNT_BATCH | MT_MAXBANK_BATCH | MT_TO_CONVERT_PERIOD_FILTERED_BATCH
  | MT_TO_CONVERT_TYPE_FILTERED_PAYMENT_BATCH | MT_CONVERTED_AMOUNT_BATCH | MT_MICROTRANSACTION_BATCH
  | MT_PERIOD_FILTER_BATCH | MT_AVGBYTYPE_TRANSACTION_BATCH | MT_AVGBYTYPE_RESULT_BATCH
  | MT_SCATTERGATHER_BATCH | MT_GROUPED_ACCOUNTS_BATCH | MT_INTERMEDIARYPAIR_BATCH
  | MT_MAX_BANK_RESULT_BATCH | MT_CONVERTED_MICRO_PAYMENT_RESULT_BATCH | MT_HEARTBEAT
  | MT_COORDINATOR_ELECTION | MT_COORDINATOR_OK | MT_COORDINATOR_HEARTBEAT | MT_OTHER nat

text \<open>
  The one-of of the envelope. A repeated field of a batch is the list of its items; an item that
  is a nil pointer in the sender's slice is \<open>None\<close>.
\<close>

datatype inner_message =
    NoInner
  | EofMessage u64
  | Transactions "transaction list"
  | ToConvertBatch "to_convert list"
  | MaxBankBatch "maxbank_item list"
  | ToConvertPeriodFilteredBatch "to_convert list"
  | ToConvertTypeFilteredPaymentBatch "type_filtered list"
  | ConvertedAmountBatch "converted_amount list"
  | MicrotransactionsBatch "microtransaction option list"
  | PeriodFilterBatch "period_item list"
  | AvgbytypeTransactionBatch "avg_transaction list"
  | ScattergatherBatch "scatter_gather list"
  | IntermediarypairBatch "intermediary_pair list"
  | MaxBankResultBatch "maxbank_result list"
  | GroupedAccountsBatch "grouped_accounts list"
  | AvgbytypeResultBatch "avg_result list"
  | SuspiciouspathBatch "suspicious_path list"
  | SuspiciousaccountBatch "account list"
  | ConvertedmicropaymentresultBatch "micro_payment_result list"
  | HeartbeatMsg string          \<comment> \<open>\<open>ContainerName\<close>\<close>
  | CoordinatorElection i32      \<comment> \<open>\<open>SenderId\<close>\<close>
  | CoordinatorOk i32            \<comment> \<open>\<open>SenderId\<close>\<close>
  | CoordinatorHeartbeat i32     \<comment> \<open>\<open>LeaderId\<close>\<close>

record money_laundry =
  ml_client :: string
  ml_type :: message_type
  ml_batch_id :: string
  ml_inner :: inner_message

definition proto_message :: "string \<Rightarrow> message_type \<Rightarrow> inner_message \<Rightarrow> string \<Rightarrow> money_laundry" where
  "proto_message cid t inner bid = \<lparr>ml_client = cid, ml_type = t, ml_batch_id = bid, ml_inner = inner\<rparr>"

section \<open>Wrapping\<close>

text \<open>
  The wrappers that only put a list into a batch message are the identity, as the batch is its list.
  Three of them convert the transactions the gateway received.
\<close>

definition wrap_items :: "'a list \<Rightarrow> 'a list" where
  "wrap_items items = items"

definition to_microtransaction :: "float_ops \<Rightarrow> transaction \<Rightarrow> microtransaction option" where
  "to_microtransaction F t =
     (case f_parse F (tx_amount t) of
        None \<Rightarrow> None
      | Some a \<Rightarrow> Some \<lparr>micro_account = tx_account t, micro_to_account = tx_to_account t, micro_amount = a\<rparr>)"

definition wrap_transaction_to_microtransaction_batch ::
  "float_ops \<Rightarrow> transaction list \<Rightarrow> microtransaction option list" where
  "wrap_transaction_to_microtransaction_batch F ts = map (to_microtransaction F) ts"

definition wrap_transaction_to_maxbank_batch :: "transaction list \<Rightarrow> maxbank_item list" where
  "wrap_transaction_to_maxbank_batch ts =
     map (\<lambda>t. \<lparr>mb_from_bank = tx_from_bank t, mb_payload = TransferSummary (tx_account t) (tx_amount t)\<rparr>) ts"

definition wrap_transaction_to_period_filter_batch :: "transaction list \<Rightarrow> period_item list" where
  "wrap_transaction_to_period_filter_batch ts =
     map (\<lambda>t. \<lparr>pf_time = tx_time t, pf_from_bank = tx_from_bank t, pf_to_bank = tx_to_bank t,
               pf_account = tx_account t, pf_to_account = tx_to_account t, pf_amount = tx_amount t,
               pf_format = tx_format t\<rparr>) ts"

section \<open>Inserting\<close>

definition insert_converted_amount_batch where
  "insert_converted_amount_batch cid bid xs = proto_message cid MT_CONVERTED_AMOUNT_BATCH (ConvertedAmountBatch xs) bid"
definition insert_microtransaction_batch where
  "insert_microtransaction_batch cid bid xs = proto_message cid MT_MICROTRANSACTION_BATCH (MicrotransactionsBatch xs) bid"
definition insert_period_filter_batch where
  "insert_period_filter_batch cid bid xs = proto_message cid MT_PERIOD_FILTER_BATCH (PeriodFilterBatch xs) bid"
definition insert_maxbank_batch where
  "insert_maxbank_batch cid bid xs = proto_message cid MT_MAXBANK_BATCH (MaxBankBatch xs) bid"
definition insert_maxbank_result_batch where
  "insert_maxbank_result_batch cid bid xs = proto_message cid MT_MAX_BANK_RESULT_BATCH (MaxBankResultBatch xs) bid"
definition insert_avg_by_type_transaction_batch where
  "insert_avg_by_type_transaction_batch cid bid xs =
     proto_message cid MT_AVGBYTYPE_TRANSACTION_BATCH (AvgbytypeTransactionBatch xs) bid"
definition insert_avg_by_type_result_batch where
  "insert_avg_by_type_result_batch cid bid xs =
     proto_message cid MT_AVGBYTYPE_RESULT_BATCH (AvgbytypeResultBatch xs) bid"
definition insert_suspicious_path_batch where
  "insert_suspicious_path_batch cid bid xs = proto_message cid MT_SUSPICIOUS_PATH_BATCH (SuspiciouspathBatch xs) bid"
definition insert_to_convert_period_filtered_batch where
  "insert_to_convert_period_filtered_batch cid bid xs =
     proto_message cid MT_TO_CONVERT_PERIOD_FILTERED_BATCH (ToConvertPeriodFilteredBatch xs) bid"
definition insert_to_convert_type_filtered_payment_batch where
  "insert_to_convert_type_filtered_payment_batch cid bid xs =
     proto_message cid MT_TO_CONVERT_TYPE_FILTERED_PAYMENT_BATCH (ToConvertTypeFilteredPaymentBatch xs) bid"
definition insert_scatter_gather_batch where
  "insert_scatter_gather_batch cid bid xs = proto_message cid MT_SCATTERGATHER_BATCH (ScattergatherBatch xs) bid"
definition insert_grouped_accounts_batch where
  "insert_grouped_accounts_batch cid bid xs =
     proto_message cid MT_GROUPED_ACCOUNTS_BATCH (GroupedAccountsBatch xs) bid"
definition insert_intermediary_pair_batch where
  "insert_intermediary_pair_batch cid bid xs =
     proto_message cid MT_INTERMEDIARYPAIR_BATCH (IntermediarypairBatch xs) bid"
definition insert_suspicious_account_batch where
  "insert_suspicious_account_batch cid bid xs =
     proto_message cid MT_SUSPICIOUS_ACCOUNT_BATCH (SuspiciousaccountBatch xs) bid"
definition insert_converted_micropayment_result_batch where
  "insert_converted_micropayment_result_batch cid bid xs =
     proto_message cid MT_CONVERTED_MICRO_PAYMENT_RESULT_BATCH (ConvertedmicropaymentresultBatch xs) bid"

section \<open>Extracting\<close>

text \<open>The getter of another member of the one-of gives nil, whose items are the empty list.\<close>

fun get_eof_total :: "money_laundry \<Rightarrow> u64" where
  "get_eof_total m = (case ml_inner m of EofMessage n \<Rightarrow> n | _ \<Rightarrow> 0)"
fun get_election_sender :: "money_laundry \<Rightarrow> i32" where
  "get_election_sender m = (case ml_inner m of CoordinatorElection i \<Rightarrow> i | _ \<Rightarrow> 0)"
fun get_ok_sender :: "money_laundry \<Rightarrow> i32" where
  "get_ok_sender m = (case ml_inner m of CoordinatorOk i \<Rightarrow> i | _ \<Rightarrow> 0)"
fun get_heartbeat_leader :: "money_laundry \<Rightarrow> i32" where
  "get_heartbeat_leader m = (case ml_inner m of CoordinatorHeartbeat i \<Rightarrow> i | _ \<Rightarrow> 0)"
fun get_heartbeat :: "money_laundry \<Rightarrow> string option" where
  "get_heartbeat m = (case ml_inner m of HeartbeatMsg c \<Rightarrow> Some c | _ \<Rightarrow> None)"
fun get_transaction_batch_items :: "money_laundry \<Rightarrow> transaction list" where
  "get_transaction_batch_items m = (case ml_inner m of Transactions xs \<Rightarrow> xs | _ \<Rightarrow> [])"
fun get_to_convert_transaction_batch_items :: "money_laundry \<Rightarrow> to_convert list" where
  "get_to_convert_transaction_batch_items m = (case ml_inner m of ToConvertBatch xs \<Rightarrow> xs | _ \<Rightarrow> [])"
fun get_period_filter_batch_items :: "money_laundry \<Rightarrow> period_item list" where
  "get_period_filter_batch_items m = (case ml_inner m of PeriodFilterBatch xs \<Rightarrow> xs | _ \<Rightarrow> [])"
fun get_converted_amount_batch_items :: "money_laundry \<Rightarrow> converted_amount list" where
  "get_converted_amount_batch_items m = (case ml_inner m of ConvertedAmountBatch xs \<Rightarrow> xs | _ \<Rightarrow> [])"
fun get_maxbank_batch_items :: "money_laundry \<Rightarrow> maxbank_item list" where
  "get_maxbank_batch_items m = (case ml_inner m of MaxBankBatch xs \<Rightarrow> xs | _ \<Rightarrow> [])"
fun get_microtransaction_batch_items :: "money_laundry \<Rightarrow> microtransaction option list" where
  "get_microtransaction_batch_items m = (case ml_inner m of MicrotransactionsBatch xs \<Rightarrow> xs | _ \<Rightarrow> [])"
fun get_avg_by_type_transaction_batch_items :: "money_laundry \<Rightarrow> avg_transaction list" where
  "get_avg_by_type_transaction_batch_items m = (case ml_inner m of AvgbytypeTransactionBatch xs \<Rightarrow> xs | _ \<Rightarrow> [])"
fun get_to_convert_period_filtered_items :: "money_laundry \<Rightarrow> to_convert list" where
  "get_to_convert_period_filtered_items m = (case ml_inner m of ToConvertPeriodFilteredBatch xs \<Rightarrow> xs | _ \<Rightarrow> [])"
fun get_to_convert_type_filtered_payment_items :: "money_laundry \<Rightarrow> type_filtered list" where
  "get_to_convert_type_filtered_payment_items m =
     (case ml_inner m of ToConvertTypeFilteredPaymentBatch xs \<Rightarrow> xs | _ \<Rightarrow> [])"
fun get_scatter_gather_batch_items :: "money_laundry \<Rightarrow> scatter_gather list" where
  "get_scatter_gather_batch_items m = (case ml_inner m of ScattergatherBatch xs \<Rightarrow> xs | _ \<Rightarrow> [])"
fun get_grouped_accounts_batch_items :: "money_laundry \<Rightarrow> grouped_accounts list" where
  "get_grouped_accounts_batch_items m = (case ml_inner m of GroupedAccountsBatch xs \<Rightarrow> xs | _ \<Rightarrow> [])"
fun get_maxbank_result_batch_items :: "money_laundry \<Rightarrow> maxbank_result list" where
  "get_maxbank_result_batch_items m = (case ml_inner m of MaxBankResultBatch xs \<Rightarrow> xs | _ \<Rightarrow> [])"
fun get_avg_by_type_result_batch_items :: "money_laundry \<Rightarrow> avg_result list" where
  "get_avg_by_type_result_batch_items m = (case ml_inner m of AvgbytypeResultBatch xs \<Rightarrow> xs | _ \<Rightarrow> [])"
fun get_suspicious_path_batch_items :: "money_laundry \<Rightarrow> suspicious_path list" where
  "get_suspicious_path_batch_items m = (case ml_inner m of SuspiciouspathBatch xs \<Rightarrow> xs | _ \<Rightarrow> [])"
fun get_intermediary_pair_batch_items :: "money_laundry \<Rightarrow> intermediary_pair list" where
  "get_intermediary_pair_batch_items m = (case ml_inner m of IntermediarypairBatch xs \<Rightarrow> xs | _ \<Rightarrow> [])"

section \<open>A stage reads what the previous stage wrote\<close>

text \<open>
  The interface between two stages: the serializer of the sender and the message type and the
  extractor of the receiver.
\<close>

locale stage_link =
  fixes serialize :: "string \<Rightarrow> string \<Rightarrow> 'a list \<Rightarrow> money_laundry"
    and target :: message_type
    and items_of :: "money_laundry \<Rightarrow> 'a list"
  assumes link_type: "ml_type (serialize cid bid xs) = target"
    and link_client: "ml_client (serialize cid bid xs) = cid"
    and link_batch: "ml_batch_id (serialize cid bid xs) = bid"
    and link_items: "items_of (serialize cid bid xs) = xs"
    and link_data: "target \<noteq> MT_EOF \<and> target \<noteq> MT_CLEANUP"

lemmas insert_defs = insert_converted_amount_batch_def insert_microtransaction_batch_def
  insert_period_filter_batch_def insert_maxbank_batch_def insert_maxbank_result_batch_def
  insert_avg_by_type_transaction_batch_def insert_avg_by_type_result_batch_def
  insert_suspicious_path_batch_def insert_to_convert_period_filtered_batch_def
  insert_to_convert_type_filtered_payment_batch_def insert_scatter_gather_batch_def
  insert_grouped_accounts_batch_def insert_intermediary_pair_batch_def
  insert_suspicious_account_batch_def insert_converted_micropayment_result_batch_def proto_message_def

interpretation converted_amounts: stage_link insert_converted_amount_batch MT_CONVERTED_AMOUNT_BATCH get_converted_amount_batch_items
  by unfold_locales (simp_all add: insert_defs)
interpretation microtransactions: stage_link insert_microtransaction_batch MT_MICROTRANSACTION_BATCH get_microtransaction_batch_items
  by unfold_locales (simp_all add: insert_defs)
interpretation period_filters: stage_link insert_period_filter_batch MT_PERIOD_FILTER_BATCH get_period_filter_batch_items
  by unfold_locales (simp_all add: insert_defs)
interpretation maxbanks: stage_link insert_maxbank_batch MT_MAXBANK_BATCH get_maxbank_batch_items
  by unfold_locales (simp_all add: insert_defs)
interpretation maxbank_results: stage_link insert_maxbank_result_batch MT_MAX_BANK_RESULT_BATCH get_maxbank_result_batch_items
  by unfold_locales (simp_all add: insert_defs)
interpretation avg_transactions: stage_link insert_avg_by_type_transaction_batch MT_AVGBYTYPE_TRANSACTION_BATCH get_avg_by_type_transaction_batch_items
  by unfold_locales (simp_all add: insert_defs)
interpretation avg_results: stage_link insert_avg_by_type_result_batch MT_AVGBYTYPE_RESULT_BATCH get_avg_by_type_result_batch_items
  by unfold_locales (simp_all add: insert_defs)
interpretation suspicious_paths: stage_link insert_suspicious_path_batch MT_SUSPICIOUS_PATH_BATCH get_suspicious_path_batch_items
  by unfold_locales (simp_all add: insert_defs)
interpretation period_filtereds: stage_link insert_to_convert_period_filtered_batch MT_TO_CONVERT_PERIOD_FILTERED_BATCH get_to_convert_period_filtered_items
  by unfold_locales (simp_all add: insert_defs)
interpretation type_filtereds: stage_link insert_to_convert_type_filtered_payment_batch MT_TO_CONVERT_TYPE_FILTERED_PAYMENT_BATCH get_to_convert_type_filtered_payment_items
  by unfold_locales (simp_all add: insert_defs)
interpretation scatter_gathers: stage_link insert_scatter_gather_batch MT_SCATTERGATHER_BATCH get_scatter_gather_batch_items
  by unfold_locales (simp_all add: insert_defs)
interpretation grouped_accounts: stage_link insert_grouped_accounts_batch MT_GROUPED_ACCOUNTS_BATCH get_grouped_accounts_batch_items
  by unfold_locales (simp_all add: insert_defs)
interpretation intermediary_pairs: stage_link insert_intermediary_pair_batch MT_INTERMEDIARYPAIR_BATCH get_intermediary_pair_batch_items
  by unfold_locales (simp_all add: insert_defs)

end
