(* ===== verification/Batch.thy ===== *)
theory Batch
  imports GoStrings
begin

text \<open>
  \<open>internal/common/batch\<close>: the weighted batch (\<open>batch.go\<close>) and the batcher that flushes it
  through a callback and numbers what it flushes (\<open>Batcher.go\<close>). The callback \<open>onFlush\<close> acts on
  its owner's state \<open>'w\<close> and is an argument of \<open>Add\<close> and \<open>Flush\<close>. The sizer and the
  wrapper are fields, as in the code. Weights are Go \<open>int\<close>s; a batch is bounded by memory, so
  they do not wrap and are mathematical integers here. \<open>uuid.New\<close> is the argument \<open>new_uuid\<close>.
\<close>

section \<open>Batch\<close>

definition defaultBatchSize :: int where
  "defaultBatchSize = 8192"

definition DefaultBatchId :: string where
  "DefaultBatchId = []"

record ('t, 'v) batch =
  baseID :: string
  subID :: string
  maxWeight :: int
  currentWeight :: int
  batchItems :: "'t list"
  sizer :: "'t \<Rightarrow> int"
  wrapper :: "'t list \<Rightarrow> 'v"

definition new_batch :: "int \<Rightarrow> ('t \<Rightarrow> int) \<Rightarrow> ('t list \<Rightarrow> 'v) \<Rightarrow> ('t, 'v) batch" where
  "new_batch mw sz wr =
     \<lparr>baseID = [], subID = [], maxWeight = (if mw \<le> 0 then defaultBatchSize else mw),
      currentWeight = 0, batchItems = [], sizer = sz, wrapper = wr\<rparr>"

text \<open>An item that is alone too heavy is still accepted by an empty batch.\<close>

definition try_add :: "'t \<Rightarrow> ('t, 'v) batch \<Rightarrow> ('t, 'v) batch \<times> bool" where
  "try_add item b =
     (let w = sizer b item
      in if currentWeight b + w > maxWeight b \<and> length (batchItems b) > 0 then (b, False)
         else (b\<lparr>batchItems := batchItems b @ [item], currentWeight := currentWeight b + w\<rparr>, True))"

definition batch_clear :: "('t, 'v) batch \<Rightarrow> ('t, 'v) batch" where
  "batch_clear b = b\<lparr>batchItems := [], currentWeight := 0\<rparr>"

definition batch_flush :: "('t, 'v) batch \<Rightarrow> 'v \<times> ('t, 'v) batch" where
  "batch_flush b = (wrapper b (batchItems b), batch_clear b)"

definition is_empty_batch :: "('t, 'v) batch \<Rightarrow> bool" where
  "is_empty_batch b \<longleftrightarrow> currentWeight b = 0"

section \<open>Batcher\<close>

record ('t, 'v) batcher =
  batch :: "('t, 'v) batch"
  batchFlushed :: u64

type_synonym ('v, 'w) on_flush = "'v \<Rightarrow> string \<Rightarrow> 'w act"

definition new_batcher :: "('t, 'v) batch \<Rightarrow> ('t, 'v) batcher" where
  "new_batcher b = \<lparr>batch = b, batchFlushed = 0\<rparr>"

definition sub_id :: "string \<Rightarrow> u64 \<Rightarrow> string" where
  "sub_id base n = base @ DASH # show_u64 n"

definition set_new_batch_id :: "string \<Rightarrow> string \<Rightarrow> ('t, 'v) batcher \<Rightarrow> ('t, 'v) batcher" where
  "set_new_batch_id new_uuid batchID s =
     (let bid = (if DefaultBatchId = batchID then new_uuid else batchID)
      in if bid = baseID (batch s) then s
         else s\<lparr>batch := (batch s)\<lparr>baseID := bid, subID := sub_id bid 0\<rparr>, batchFlushed := 0\<rparr>)"

definition batcher_add ::
  "('v, 'w) on_flush \<Rightarrow> 't \<Rightarrow> (('t, 'v) batcher \<times> 'w) act" where
  "batcher_add onFlush item = (\<lambda>(s, w).
     case try_add item (batch s) of
       (b, True) \<Rightarrow> ((s\<lparr>batch := b\<rparr>, w), None)
     | (b, False) \<Rightarrow>
         (case batch_flush b of (v, b1) \<Rightarrow>
            (case onFlush v (subID b1) w of
               (w', Some e) \<Rightarrow> ((s\<lparr>batch := b1\<rparr>, w'), Some e)
             | (w', None) \<Rightarrow>
                 (case try_add item b1 of
                    (b2, False) \<Rightarrow> ((s\<lparr>batch := b2\<rparr>, w'), Some ErrItemTooLarge)
                  | (b2, True) \<Rightarrow>
                      (let n = batchFlushed s + 1
                       in ((s\<lparr>batch := b2\<lparr>subID := sub_id (baseID b2) n\<rparr>, batchFlushed := n\<rparr>, w'),
                           None))))))"

definition batcher_flush :: "('v, 'w) on_flush \<Rightarrow> (('t, 'v) batcher \<times> 'w) act" where
  "batcher_flush onFlush = (\<lambda>(s, w).
     if is_empty_batch (batch s) then ((s, w), None)
     else case batch_flush (batch s) of (v, b1) \<Rightarrow>
       (case onFlush v (subID b1) w of (w', e) \<Rightarrow> ((s\<lparr>batch := b1\<rparr>, w'), e)))"

text \<open>An invariant of the callback's owner is kept by the batcher.\<close>

lemma preserves_batcher_add [pres_intros]:
  assumes "\<And>v i. preserves P (f v i)"
  shows "preserves (\<lambda>(s, w). P w) (batcher_add f x)"
proof (rule preservesI)
  fix sw :: "('c, 'a) batcher \<times> 'b"
  assume "case sw of (s, w) \<Rightarrow> P w"
  moreover obtain s w where sw: "sw = (s, w)" by fastforce
  ultimately have "P (fst (f v i w))" for v i using assms by (simp add: preserves_def)
  moreover have "snd (fst (batcher_add f x (s, w))) = w \<or>
      (\<exists>v i. snd (fst (batcher_add f x (s, w))) = fst (f v i w))"
    by (auto simp: batcher_add_def batch_flush_def Let_def split: prod.split option.split bool.split)
      (metis fst_conv)+
  ultimately show "case fst (batcher_add f x sw) of (s, w) \<Rightarrow> P w"
    using \<open>case sw of (s, w) \<Rightarrow> P w\<close> by (auto simp: sw case_prod_unfold)
qed

lemma preserves_batcher_flush [pres_intros]:
  assumes "\<And>v i. preserves P (f v i)"
  shows "preserves (\<lambda>(s, w). P w) (batcher_flush f)"
proof (rule preservesI)
  fix sw :: "('c, 'a) batcher \<times> 'b"
  assume w: "case sw of (s, w) \<Rightarrow> P w"
  obtain s w where sw: "sw = (s, w)" by fastforce
  then have "P (fst (f v i w))" for v i using assms w by (simp add: preserves_def)
  then show "case fst (batcher_flush f sw) of (s, w) \<Rightarrow> P w"
    using w by (simp add: sw batcher_flush_def batch_flush_def case_prod_unfold)
qed

section \<open>The invariant of a batch\<close>

definition items_weight :: "('t \<Rightarrow> int) \<Rightarrow> 't list \<Rightarrow> int" where
  "items_weight sz xs = sum_list (map sz xs)"

text \<open>
  The weight is the sum of the weights of the items, and only a batch of one item may exceed
  the limit.
\<close>

definition batch_ok :: "('t, 'v) batch \<Rightarrow> bool" where
  "batch_ok b \<longleftrightarrow>
     currentWeight b = items_weight (sizer b) (batchItems b) \<and>
     (currentWeight b \<le> maxWeight b \<or> length (batchItems b) \<le> 1)"

lemma items_weight_simps [simp]:
  "items_weight sz [] = 0"
  "items_weight sz (x # xs) = sz x + items_weight sz xs"
  "items_weight sz (xs @ ys) = items_weight sz xs + items_weight sz ys"
  by (simp_all add: items_weight_def)

lemma items_weight_pos: "(\<And>x. x \<in> set xs \<Longrightarrow> 0 < sz x) \<Longrightarrow> xs \<noteq> [] \<Longrightarrow> 0 < items_weight sz xs"
proof (induction xs)
  case (Cons x xs)
  then show ?case by (cases xs) (auto intro: add_pos_pos)
qed simp

lemma new_batch_ok: "batch_ok (new_batch mw sz wr)"
  by (simp add: batch_ok_def new_batch_def defaultBatchSize_def)

lemma batch_ok_clear: "batch_ok (batch_clear b)"
  by (simp add: batch_ok_def batch_clear_def)

lemma try_add_ok:
  assumes "batch_ok b" "try_add x b = (b', r)"
  shows "batch_ok b'"
  using assms by (auto simp: try_add_def batch_ok_def Let_def split: if_splits)

lemma try_add_True:
  "try_add x b = (b', True) \<Longrightarrow>
     b' = b\<lparr>batchItems := batchItems b @ [x], currentWeight := currentWeight b + sizer b x\<rparr>"
  by (auto simp: try_add_def Let_def split: if_splits)

lemma try_add_False: "try_add x b = (b', False) \<Longrightarrow> b' = b \<and> batchItems b \<noteq> []"
  by (auto simp: try_add_def Let_def split: if_splits)

text \<open>A cleared batch accepts every item: the error \<open>item exceeds max batch size\<close> is unreachable.\<close>

lemma try_add_cleared:
  "try_add x (batch_clear b) = (b\<lparr>batchItems := [x], currentWeight := sizer b x\<rparr>, True)"
  by (simp add: try_add_def batch_clear_def Let_def)

lemma batcher_add_stays:
  "try_add x (batch s) = (b, True) \<Longrightarrow> batcher_add f x (s, w) = ((s\<lparr>batch := b\<rparr>, w), None)"
  by (simp add: batcher_add_def)

lemma batcher_add_flushes:
  assumes "try_add x (batch s) = (b, False)"
  shows "batcher_add f x (s, w) =
    (let b0 = batch s; (w', e) = f (wrapper b0 (batchItems b0)) (subID b0) w
     in case e of
          Some err \<Rightarrow> ((s\<lparr>batch := batch_clear b0\<rparr>, w'), Some err)
        | None \<Rightarrow>
            ((s\<lparr>batch := b0\<lparr>batchItems := [x], currentWeight := sizer b0 x,
                           subID := sub_id (baseID b0) (batchFlushed s + 1)\<rparr>,
               batchFlushed := batchFlushed s + 1\<rparr>, w'), None))"
proof -
  have b: "b = batch s" using try_add_False [OF assms] by simp
  have sub: "subID (batch_clear (batch s)) = subID (batch s)"
    by (simp add: batch_clear_def)
  show ?thesis
    using assms unfolding b
    by (simp add: batcher_add_def batch_flush_def try_add_cleared sub Let_def
        split: prod.split option.split)
qed

lemma batcher_add_batch_ok:
  assumes "batch_ok (batch s)"
  shows "batch_ok (batch (fst (fst (batcher_add f x (s, w)))))"
proof (cases "try_add x (batch s)")
  case (Pair b r)
  show ?thesis
  proof (cases r)
    case True
    with Pair assms show ?thesis
      by (simp add: batcher_add_stays try_add_ok)
  next
    case False
    with Pair show ?thesis
      by (auto simp: batcher_add_flushes Let_def batch_clear_def batch_ok_def
          split: prod.split option.split)
  qed
qed

lemma batcher_add_config:
  "sizer (batch (fst (fst (batcher_add f x (s, w))))) = sizer (batch s) \<and>
   wrapper (batch (fst (fst (batcher_add f x (s, w))))) = wrapper (batch s)"
proof (cases "try_add x (batch s)")
  case (Pair b r)
  show ?thesis
  proof (cases r)
    case True
    with Pair show ?thesis by (auto simp: batcher_add_stays dest: try_add_True)
  next
    case False
    with Pair show ?thesis
      by (auto simp: batcher_add_flushes Let_def batch_clear_def split: prod.split option.split)
  qed
qed

lemma batcher_flush_config:
  "sizer (batch (fst (fst (batcher_flush f (s, w))))) = sizer (batch s) \<and>
   wrapper (batch (fst (fst (batcher_flush f (s, w))))) = wrapper (batch s) \<and>
   (batch_ok (batch s) \<longrightarrow> batch_ok (batch (fst (fst (batcher_flush f (s, w))))))"
  by (auto simp: batcher_flush_def batch_flush_def batch_clear_def batch_ok_def case_prod_unfold)

text \<open>Every error of \<open>Add\<close> is an error of the callback.\<close>

lemma batcher_add_error:
  assumes "snd (batcher_add f x (s, w)) = Some e"
  shows "snd (f (wrapper (batch s) (batchItems (batch s))) (subID (batch s)) w) = Some e"
proof (cases "try_add x (batch s)")
  case (Pair b r)
  with assms show ?thesis
    by (cases r) (auto simp: batcher_add_stays batcher_add_flushes Let_def
        split: prod.splits option.splits)
qed

section \<open>Greedy chunking, the specification of the batcher\<close>

text \<open>
  Items are kept in order and cut into chunks: a chunk ends when the next item would take it
  over the limit.
\<close>

fun greedy :: "('t \<Rightarrow> int) \<Rightarrow> int \<Rightarrow> 't list \<Rightarrow> 't list \<Rightarrow> 't list list \<times> 't list" where
  "greedy sz mx cur [] = ([], cur)"
| "greedy sz mx cur (x # xs) =
     (if items_weight sz cur + sz x > mx \<and> cur \<noteq> []
      then (case greedy sz mx [x] xs of (cs, r) \<Rightarrow> (cur # cs, r))
      else greedy sz mx (cur @ [x]) xs)"

lemma greedy_concat: "greedy sz mx cur xs = (cs, r) \<Longrightarrow> concat cs @ r = cur @ xs"
  by (induction sz mx cur xs arbitrary: cs r rule: greedy.induct)
     (auto split: if_splits prod.splits)

lemma greedy_nonempty:
  "greedy sz mx cur xs = (cs, r) \<Longrightarrow> cur \<noteq> [] \<Longrightarrow> r \<noteq> [] \<and> [] \<notin> set cs"
proof (induction sz mx cur xs arbitrary: cs r rule: greedy.induct)
  case (1 sz mx cur)
  then show ?case by simp
next
  case (2 sz mx cur x xs)
  show ?case
  proof (cases "items_weight sz cur + sz x > mx \<and> cur \<noteq> []")
    case True
    obtain cs' r' where g: "greedy sz mx [x] xs = (cs', r')" by fastforce
    with 2 True have "r' \<noteq> [] \<and> [] \<notin> set cs'" by simp
    with 2 True g show ?thesis by auto
  next
    case False
    with 2 show ?thesis by simp
  qed
qed

lemma greedy_weight:
  assumes "greedy sz mx cur xs = (cs, r)"
    and "items_weight sz cur \<le> mx \<or> length cur \<le> 1"
    and "c \<in> set (cs @ [r])"
  shows "items_weight sz c \<le> mx \<or> length c \<le> 1"
  using assms
proof (induction sz mx cur xs arbitrary: cs r rule: greedy.induct)
  case (1 sz mx cur)
  then show ?case by simp
next
  case (2 sz mx cur x xs)
  show ?case
  proof (cases "items_weight sz cur + sz x > mx \<and> cur \<noteq> []")
    case True
    with 2 show ?thesis by (auto split: prod.splits)
  next
    case False
    with 2 have "items_weight sz (cur @ [x]) \<le> mx \<or> length (cur @ [x]) \<le> 1"
      by (cases cur) auto
    with 2 False show ?thesis by auto
  qed
qed

text \<open>A cut of a list: non-empty pieces, over the limit only when they are single items.\<close>

definition is_cut :: "('t \<Rightarrow> int) \<Rightarrow> int \<Rightarrow> 't list \<Rightarrow> 't list list \<Rightarrow> bool" where
  "is_cut sz mx xs chunks \<longleftrightarrow> concat chunks = xs \<and> [] \<notin> set chunks \<and>
     (\<forall>c \<in> set chunks. items_weight sz c \<le> mx \<or> length c \<le> 1)"

lemma greedy_is_cut:
  assumes "greedy sz mx [] xs = (cs, r)" "xs \<noteq> []"
  shows "is_cut sz mx xs (cs @ [r])"
proof -
  obtain x xs' where "xs = x # xs'" using assms(2) by (cases xs) auto
  then have "greedy sz mx [x] xs' = (cs, r)" using assms(1) by simp
  then have "[] \<notin> set (cs @ [r])" using greedy_nonempty by fastforce
  then show ?thesis
    using greedy_concat [OF assms(1)] greedy_weight [OF assms(1)] by (simp add: is_cut_def)
qed

text \<open>
  The identifiers of consecutive chunks: the current one first, then the base with a running number.
\<close>

fun chunk_ids :: "string \<Rightarrow> string \<Rightarrow> u64 \<Rightarrow> 'v list \<Rightarrow> (string \<times> 'v) list" where
  "chunk_ids i base n [] = []"
| "chunk_ids i base n (v # vs) = (i, v) # chunk_ids (sub_id base (n + 1)) base (n + 1) vs"

abbreviation labelled :: "string \<Rightarrow> u64 \<Rightarrow> 'v list \<Rightarrow> (string \<times> 'v) list" where
  "labelled base n vs \<equiv> chunk_ids (sub_id base n) base n vs"

definition chunk_id :: "string \<Rightarrow> string \<Rightarrow> u64 \<Rightarrow> nat \<Rightarrow> string" where
  "chunk_id i base n k = (if k = 0 then i else sub_id base (n + of_nat k))"

lemma map_snd_chunk_ids [simp]: "map snd (chunk_ids i base n vs) = vs"
  by (induction i base n vs rule: chunk_ids.induct) simp_all

lemma chunk_id_0 [simp]: "chunk_id i base n 0 = i"
  by (simp add: chunk_id_def)

lemma chunk_id_Suc: "chunk_id i base n (Suc k) = chunk_id (sub_id base (1 + n)) base (1 + n) k"
  by (simp add: chunk_id_def ac_simps)

lemma chunk_ids_snoc:
  "chunk_ids i base n (vs @ [v]) = chunk_ids i base n vs @ [(chunk_id i base n (length vs), v)]"
proof (induction i base n vs rule: chunk_ids.induct)
  case (2 i base n w vs)
  then show ?case by (auto simp: chunk_id_def ac_simps)
qed (simp add: chunk_id_def)

lemma chunk_ids_map: "chunk_ids i base n (map f vs) = map (\<lambda>(j, v). (j, f v)) (chunk_ids i base n vs)"
  by (induction i base n vs rule: chunk_ids.induct) simp_all

definition well_labelled :: "('t, 'v) batcher \<Rightarrow> bool" where
  "well_labelled s \<longleftrightarrow> subID (batch s) = sub_id (baseID (batch s)) (batchFlushed s)"

definition same_setup :: "('t, 'v) batcher \<Rightarrow> ('t, 'v) batcher \<Rightarrow> bool" where
  "same_setup s' s \<longleftrightarrow> baseID (batch s') = baseID (batch s) \<and> sizer (batch s') = sizer (batch s) \<and>
     wrapper (batch s') = wrapper (batch s) \<and> maxWeight (batch s') = maxWeight (batch s)"

lemma well_labelled_chunk_id:
  "well_labelled s \<Longrightarrow> chunk_id (subID (batch s)) (baseID (batch s)) (batchFlushed s) k =
    sub_id (baseID (batch s)) (batchFlushed s + of_nat k)"
  by (simp add: chunk_id_def well_labelled_def)

lemma set_new_batch_id_labelled:
  "well_labelled s \<or> baseID (batch s) \<noteq> (if DefaultBatchId = bid then u else bid) \<Longrightarrow>
   well_labelled (set_new_batch_id u bid s)"
  by (auto simp: well_labelled_def set_new_batch_id_def Let_def)

lemma set_new_batch_id_ok [simp]: "batch_ok (batch (set_new_batch_id u bid s)) = batch_ok (batch s)"
  by (simp add: set_new_batch_id_def batch_ok_def Let_def)

section \<open>What a batcher promises over a working callback\<close>

text \<open>
  The interface of the callback: while it is \<open>ready\<close> it accepts what it is given, and
  \<open>delivered\<close> reads back what it accepted, in order: \<open>entry i v\<close> for a chunk \<open>v\<close> with the
  identifier \<open>i\<close>.
\<close>

locale flush_sink =
  fixes onFlush :: "('v, 'w) on_flush"
    and entry :: "string \<Rightarrow> 'v \<Rightarrow> 'x"
    and delivered :: "'w \<Rightarrow> 'x list"
    and ready :: "'w \<Rightarrow> bool"
  assumes sink_accepts: "ready w \<Longrightarrow> snd (onFlush v i w) = None"
    and sink_ready: "ready w \<Longrightarrow> ready (fst (onFlush v i w))"
    and sink_delivers: "ready w \<Longrightarrow> delivered (fst (onFlush v i w)) = delivered w @ [entry i v]"
begin

lemma sink_step:
  assumes "ready w"
  obtains w' where "onFlush v i w = (w', None)" "ready w'" "delivered w' = delivered w @ [entry i v]"
  using sink_accepts [OF assms, of v i] sink_ready [OF assms, of v i]
    sink_delivers [OF assms, of v i] by (metis prod.collapse)

text \<open>Adding items one by one flushes exactly the chunks of the greedy specification.\<close>

lemma adds:
  assumes "ready w" "batch_ok (batch s)"
    and "greedy (sizer (batch s)) (maxWeight (batch s)) (batchItems (batch s)) xs = (cs, r)"
  shows "\<exists>s' w'. for_each (batcher_add onFlush) xs (s, w) = ((s', w'), None) \<and> ready w' \<and>
      delivered w' = delivered w @ map (case_prod entry)
        (chunk_ids (subID (batch s)) (baseID (batch s)) (batchFlushed s) (map (wrapper (batch s)) cs)) \<and>
      batchItems (batch s') = r \<and> batch_ok (batch s') \<and>
      subID (batch s') = chunk_id (subID (batch s)) (baseID (batch s)) (batchFlushed s) (length cs) \<and>
      batchFlushed s' = batchFlushed s + of_nat (length cs) \<and>
      baseID (batch s') = baseID (batch s) \<and> sizer (batch s') = sizer (batch s) \<and>
      wrapper (batch s') = wrapper (batch s) \<and> maxWeight (batch s') = maxWeight (batch s)"
  using assms
proof (induction xs arbitrary: s w cs r)
  case Nil
  then show ?case by (auto simp: ok_def chunk_id_def)
next
  case (Cons x xs)
  let ?b = "batch s"
  let ?heavy = "items_weight (sizer ?b) (batchItems ?b) + sizer ?b x > maxWeight ?b \<and> batchItems ?b \<noteq> []"
  show ?case
  proof (cases ?heavy)
    case True
    then have t: "try_add x ?b = (?b, False)"
      using Cons.prems(2) by (simp add: try_add_def batch_ok_def Let_def)
    obtain w1 where w1: "onFlush (wrapper ?b (batchItems ?b)) (subID ?b) w = (w1, None)"
      "ready w1" "delivered w1 = delivered w @ [entry (subID ?b) (wrapper ?b (batchItems ?b))]"
      using sink_step [OF Cons.prems(1)] by blast
    define s1 where "s1 = s\<lparr>batch := ?b\<lparr>batchItems := [x], currentWeight := sizer ?b x,
        subID := sub_id (baseID ?b) (batchFlushed s + 1)\<rparr>, batchFlushed := batchFlushed s + 1\<rparr>"
    have step: "batcher_add onFlush x (s, w) = ((s1, w1), None)"
      by (simp add: batcher_add_flushes [OF t] w1 s1_def Let_def)
    obtain cs' where g: "greedy (sizer ?b) (maxWeight ?b) [x] xs = (cs', r)"
      "cs = batchItems ?b # cs'"
      using Cons.prems(3) True by (auto split: prod.splits)
    have s1: "batch_ok (batch s1)" "batchItems (batch s1) = [x]"
      "subID (batch s1) = sub_id (baseID ?b) (batchFlushed s + 1)"
      "sizer (batch s1) = sizer ?b" "maxWeight (batch s1) = maxWeight ?b"
      "wrapper (batch s1) = wrapper ?b" "baseID (batch s1) = baseID ?b"
      "batchFlushed s1 = batchFlushed s + 1"
      by (simp_all add: s1_def batch_ok_def)
    have "greedy (sizer (batch s1)) (maxWeight (batch s1)) (batchItems (batch s1)) xs = (cs', r)"
      using g(1) s1 by simp
    from Cons.IH [OF w1(2) s1(1) this] step show ?thesis
      using w1(3) unfolding g(2) by (simp add: then_act_def s1 ac_simps chunk_id_Suc)
  next
    case False
    define b1 where "b1 = ?b\<lparr>batchItems := batchItems ?b @ [x], currentWeight := currentWeight ?b + sizer ?b x\<rparr>"
    have t: "try_add x ?b = (b1, True)"
      using False Cons.prems(2) by (auto simp: try_add_def batch_ok_def b1_def Let_def)
    have ok1: "batch_ok (batch (s\<lparr>batch := b1\<rparr>))"
      using try_add_ok [OF Cons.prems(2) t] by simp
    have g: "greedy (sizer (batch (s\<lparr>batch := b1\<rparr>))) (maxWeight (batch (s\<lparr>batch := b1\<rparr>)))
        (batchItems (batch (s\<lparr>batch := b1\<rparr>))) xs = (cs, r)"
      using Cons.prems(3) False by (auto simp: b1_def)
    have step: "batcher_add onFlush x (s, w) = ((s\<lparr>batch := b1\<rparr>, w), None)"
      by (rule batcher_add_stays [OF t])
    from Cons.IH [OF Cons.prems(1) ok1 g] step show ?thesis
      by (auto simp: then_act_def b1_def)
  qed
qed

text \<open>A flush hands over what is left, provided it has a weight.\<close>

lemma flush_nonempty:
  assumes "ready w" "currentWeight (batch s) \<noteq> 0"
  shows "\<exists>w'. batcher_flush onFlush (s, w) = ((s\<lparr>batch := batch_clear (batch s)\<rparr>, w'), None) \<and>
      ready w' \<and>
      delivered w' = delivered w @ [entry (subID (batch s)) (wrapper (batch s) (batchItems (batch s)))]"
proof -
  obtain w1 where "onFlush (wrapper (batch s) (batchItems (batch s))) (subID (batch s)) w = (w1, None)"
    "ready w1" "delivered w1 = delivered w @ [entry (subID (batch s)) (wrapper (batch s) (batchItems (batch s)))]"
    using sink_step [OF assms(1)] by blast
  moreover have "subID (batch_clear (batch s)) = subID (batch s)"
    by (simp add: batch_clear_def)
  ultimately show ?thesis
    using assms(2) by (simp add: batcher_flush_def is_empty_batch_def batch_flush_def)
qed

text \<open>
  Adding a list of items of positive weight to an empty batcher and flushing it delivers the
  chunks of the greedy cut, numbered from the current number, and leaves the batcher empty.
\<close>

lemma add_all_flush:
  assumes "ready w" "batch_ok (batch s)" "batchItems (batch s) = []"
    and "xs \<noteq> []" "\<And>x. x \<in> set xs \<Longrightarrow> 0 < sizer (batch s) x"
    and "greedy (sizer (batch s)) (maxWeight (batch s)) [] xs = (cs, r)"
  shows "\<exists>s' w'. then_act (for_each (batcher_add onFlush) xs) (batcher_flush onFlush) (s, w)
        = ((s', w'), None) \<and> ready w' \<and> batchItems (batch s') = [] \<and> batch_ok (batch s') \<and>
      delivered w' = delivered w @ map (case_prod entry)
        (chunk_ids (subID (batch s)) (baseID (batch s)) (batchFlushed s) (map (wrapper (batch s)) (cs @ [r]))) \<and>
      subID (batch s') = chunk_id (subID (batch s)) (baseID (batch s)) (batchFlushed s) (length cs) \<and>
      batchFlushed s' = batchFlushed s + of_nat (length cs) \<and> same_setup s' s"
proof -
  obtain s1 w1 where 1: "for_each (batcher_add onFlush) xs (s, w) = ((s1, w1), None)" "ready w1"
    "delivered w1 = delivered w @ map (case_prod entry)
        (chunk_ids (subID (batch s)) (baseID (batch s)) (batchFlushed s) (map (wrapper (batch s)) cs))"
    "batchItems (batch s1) = r" "batch_ok (batch s1)"
    "subID (batch s1) = chunk_id (subID (batch s)) (baseID (batch s)) (batchFlushed s) (length cs)"
    "batchFlushed s1 = batchFlushed s + of_nat (length cs)"
    "baseID (batch s1) = baseID (batch s)" "sizer (batch s1) = sizer (batch s)"
    "wrapper (batch s1) = wrapper (batch s)" "maxWeight (batch s1) = maxWeight (batch s)"
    using adds [OF assms(1,2), of xs cs r] assms(3,6) by auto
  have sub: "set r \<subseteq> set xs"
    using greedy_concat [OF assms(6)] by (metis append_Nil set_append sup.cobounded2)
  have "r \<noteq> []"
  proof (cases xs)
    case (Cons x xs')
    then have "greedy (sizer (batch s)) (maxWeight (batch s)) [x] xs' = (cs, r)"
      using assms(6) by simp
    then show ?thesis using greedy_nonempty by blast
  qed (use assms(4) in simp)
  then have "currentWeight (batch s1) \<noteq> 0"
    using 1(4,5,9) assms(5) sub items_weight_pos [of r "sizer (batch s)"]
    by (metis batch_ok_def less_irrefl subsetD)
  from flush_nonempty [OF 1(2) this] obtain w2 where 2:
    "batcher_flush onFlush (s1, w1) = ((s1\<lparr>batch := batch_clear (batch s1)\<rparr>, w2), None)"
    "ready w2" "delivered w2 = delivered w1 @ [entry (subID (batch s1)) (wrapper (batch s1) r)]"
    using 1(4) by auto
  show ?thesis
    using 1 2 by (simp add: then_act_def chunk_ids_snoc batch_ok_clear batch_clear_def same_setup_def)
      (simp add: batch_ok_def)
qed

lemma add_all_flush_cut:
  assumes "ready w" "batch_ok (batch s)" "batchItems (batch s) = []"
    and "xs \<noteq> []" "\<forall>x \<in> set xs. 0 < sizer (batch s) x"
  shows "\<exists>s' w' chunks. is_cut (sizer (batch s)) (maxWeight (batch s)) xs chunks \<and>
      then_act (for_each (batcher_add onFlush) xs) (batcher_flush onFlush) (s, w) = ((s', w'), None) \<and>
      ready w' \<and> batchItems (batch s') = [] \<and>
      delivered w' = delivered w @ map (case_prod entry)
        (chunk_ids (subID (batch s)) (baseID (batch s)) (batchFlushed s) (map (wrapper (batch s)) chunks)) \<and>
      subID (batch s') = chunk_id (subID (batch s)) (baseID (batch s)) (batchFlushed s) (length chunks - 1) \<and>
      batchFlushed s' = batchFlushed s + of_nat (length chunks - 1) \<and> same_setup s' s \<and> batch_ok (batch s')"
proof -
  obtain cs r where g: "greedy (sizer (batch s)) (maxWeight (batch s)) [] xs = (cs, r)" by fastforce
  from add_all_flush [OF assms(1-4) _ g] assms(5) obtain s' w' where
    "then_act (for_each (batcher_add onFlush) xs) (batcher_flush onFlush) (s, w) = ((s', w'), None)"
    "ready w'" "batchItems (batch s') = []" "batch_ok (batch s')"
    "delivered w' = delivered w @ map (case_prod entry)
      (chunk_ids (subID (batch s)) (baseID (batch s)) (batchFlushed s) (map (wrapper (batch s)) (cs @ [r])))"
    "subID (batch s') = chunk_id (subID (batch s)) (baseID (batch s)) (batchFlushed s) (length cs)"
    "batchFlushed s' = batchFlushed s + of_nat (length cs)" "same_setup s' s"
    by blast
  with greedy_is_cut [OF g assms(4)] show ?thesis
    by (intro exI [of _ s'] exI [of _ w'] exI [of _ "cs @ [r]"]) simp
qed

text \<open>One item: what was delivered and what is held are together one item longer.\<close>

lemma add_one:
  assumes "ready w" "batch_ok (batch s)"
  shows "\<exists>s' w' cs. batcher_add onFlush x (s, w) = ((s', w'), None) \<and> ready w' \<and> batch_ok (batch s') \<and> same_setup s' s \<and>
      delivered w' = delivered w @ map (\<lambda>(i, items). entry i (wrapper (batch s) items)) cs \<and>
      concat (map snd cs) @ batchItems (batch s') = batchItems (batch s) @ [x]"
proof -
  obtain cs r where g: "greedy (sizer (batch s)) (maxWeight (batch s)) (batchItems (batch s)) [x] = (cs, r)" by fastforce
  let ?ids = "chunk_ids (subID (batch s)) (baseID (batch s)) (batchFlushed s) cs"
  obtain s' w' where "for_each (batcher_add onFlush) [x] (s, w) = ((s', w'), None)" "ready w'" "batch_ok (batch s')"
    "delivered w' = delivered w @ map (case_prod entry)
        (chunk_ids (subID (batch s)) (baseID (batch s)) (batchFlushed s) (map (wrapper (batch s)) cs))"
    "batchItems (batch s') = r" "same_setup s' s"
    using adds [OF assms g] by (auto simp: same_setup_def)
  moreover have "concat (map snd ?ids) @ r = batchItems (batch s) @ [x]" using greedy_concat [OF g] by simp
  ultimately show ?thesis
    by (intro exI [of _ s'] exI [of _ w'] exI [of _ ?ids]) (simp add: chunk_ids_map comp_def case_prod_unfold)
qed

lemma flush_all:
  assumes "ready w" "batch_ok (batch s)" "\<forall>x \<in> set (batchItems (batch s)). 0 < sizer (batch s) x"
  shows "\<exists>s' w' cs. batcher_flush onFlush (s, w) = ((s', w'), None) \<and> ready w' \<and> batch_ok (batch s') \<and> same_setup s' s \<and>
      delivered w' = delivered w @ map (\<lambda>(i, items). entry i (wrapper (batch s) items)) cs \<and>
      concat (map snd cs) = batchItems (batch s) \<and> batchItems (batch s') = []"
proof (cases "currentWeight (batch s) = 0")
  case True
  then have "batchItems (batch s) = []"
    using assms(2,3) items_weight_pos [of "batchItems (batch s)" "sizer (batch s)"] by (force simp: batch_ok_def)
  then show ?thesis using True assms
    by (intro exI [of _ s] exI [of _ w] exI [of _ "[]"]) (simp add: batcher_flush_def is_empty_batch_def same_setup_def)
next
  case False
  from flush_nonempty [OF assms(1) this] obtain w' where
    "batcher_flush onFlush (s, w) = ((s\<lparr>batch := batch_clear (batch s)\<rparr>, w'), None)" "ready w'"
    "delivered w' = delivered w @ [entry (subID (batch s)) (wrapper (batch s) (batchItems (batch s)))]" by blast
  then show ?thesis
    by (intro exI [of _ "s\<lparr>batch := batch_clear (batch s)\<rparr>"] exI [of _ w'] exI [of _ "[(subID (batch s), batchItems (batch s))]"])
      (simp add: batch_ok_clear same_setup_def, simp add: batch_clear_def)
qed

end

section \<open>A callback that only records\<close>

definition record_flush :: "('v, (string \<times> 'v) list) on_flush" where
  "record_flush v i out = (out @ [(i, v)], None)"

interpretation recorder: flush_sink record_flush Pair "\<lambda>out. out" "\<lambda>_. True"
  by unfold_locales (simp_all add: record_flush_def)

section \<open>What any callback is told\<close>

text \<open>
  A batcher decides what to flush without looking at the callback, until the callback fails. So a run with any
  callback is the run with the recording one, played back.
\<close>

definition tell :: "('v, 'w) on_flush \<Rightarrow> (string \<times> 'v) list \<Rightarrow> 'w act" where
  "tell f calls = for_each (\<lambda>(i, v). f v i) calls"

definition follows :: "('v, 'w) on_flush \<Rightarrow> ('b \<times> 'w) act \<Rightarrow> ('b \<times> (string \<times> 'v) list) act \<Rightarrow> bool" where
  "follows f a r \<longleftrightarrow> (\<forall>s ps. \<exists>s1 calls. r (s, ps) = ((s1, ps @ calls), None) \<and>
     (\<forall>w. \<exists>s2. a (s, w) = ((s2, fst (tell f calls w)), snd (tell f calls w)) \<and> (snd (tell f calls w) = None \<longrightarrow> s2 = s1)))"

lemma tell_append: "tell f (as @ bs) = then_act (tell f as) (tell f bs)"
  by (simp add: tell_def for_each_append)

lemma follows_then:
  assumes "follows f a r" "follows f b q"
  shows "follows f (then_act a b) (then_act r q)"
  unfolding follows_def
proof (intro allI)
  fix s ps
  obtain s1 c1 where 1: "r (s, ps) = ((s1, ps @ c1), None)"
    "\<And>w. \<exists>s2. a (s, w) = ((s2, fst (tell f c1 w)), snd (tell f c1 w)) \<and> (snd (tell f c1 w) = None \<longrightarrow> s2 = s1)"
    using assms(1) unfolding follows_def by blast
  obtain s3 c2 where 2: "q (s1, ps @ c1) = ((s3, (ps @ c1) @ c2), None)"
    "\<And>w. \<exists>s2. b (s1, w) = ((s2, fst (tell f c2 w)), snd (tell f c2 w)) \<and> (snd (tell f c2 w) = None \<longrightarrow> s2 = s3)"
    using assms(2) unfolding follows_def by blast
  have "\<exists>s2. then_act a b (s, w) = ((s2, fst (tell f (c1 @ c2) w)), snd (tell f (c1 @ c2) w)) \<and>
      (snd (tell f (c1 @ c2) w) = None \<longrightarrow> s2 = s3)" for w
  proof (cases "snd (tell f c1 w)")
    case None
    then have "then_act a b (s, w) = b (s1, fst (tell f c1 w))" "tell f (c1 @ c2) w = tell f c2 (fst (tell f c1 w))"
      using 1(2) [of w] by (auto simp: then_act_def tell_append split: prod.split)
    then show ?thesis using 2(2) by simp
  next
    case (Some e)
    then show ?thesis using 1(2) [of w] by (auto simp: then_act_def tell_append split: prod.split)
  qed
  then show "\<exists>s1 calls. then_act r q (s, ps) = ((s1, ps @ calls), None) \<and> (\<forall>w. \<exists>s2. then_act a b (s, w) =
      ((s2, fst (tell f calls w)), snd (tell f calls w)) \<and> (snd (tell f calls w) = None \<longrightarrow> s2 = s1))"
    using 1(1) 2(1) by (intro exI [of _ s3] exI [of _ "c1 @ c2"]) (simp add: then_act_def)
qed

lemma follows_ok: "follows f ok ok"
  by (auto simp: follows_def ok_def tell_def)

lemma follows_add:
  fixes f :: "('v, 'w) on_flush" and x :: 't
  shows "follows f (batcher_add f x) (batcher_add record_flush x)"
  unfolding follows_def
proof (intro allI)
  fix s :: "('t, 'v) batcher" and ps
  obtain b ok where t: "try_add x (batch s) = (b, ok)" by fastforce
  show "\<exists>s1 calls. batcher_add record_flush x (s, ps) = ((s1, ps @ calls), None) \<and> (\<forall>w. \<exists>s2. batcher_add f x (s, w) =
      ((s2, fst (tell f calls w)), snd (tell f calls w)) \<and> (snd (tell f calls w) = None \<longrightarrow> s2 = s1))"
  proof (cases ok)
    case True
    with t show ?thesis by (intro exI [of _ "s\<lparr>batch := b\<rparr>"] exI [of _ "[]"]) (simp add: batcher_add_stays tell_def ok_def)
  next
    case False
    let ?call = "(subID (batch s), wrapper (batch s) (batchItems (batch s)))"
    have tell: "tell f [?call] w = f (snd ?call) (fst ?call) w" for w by (simp add: tell_def)
    show ?thesis using t False
      by (intro exI [of _ "s\<lparr>batch := (batch s)\<lparr>batchItems := [x], currentWeight := sizer (batch s) x,
            subID := sub_id (baseID (batch s)) (batchFlushed s + 1)\<rparr>, batchFlushed := batchFlushed s + 1\<rparr>"] exI [of _ "[?call]"])
        (auto simp: batcher_add_flushes record_flush_def tell Let_def split: prod.split option.split)
  qed
qed

lemma follows_flush:
  fixes f :: "('v, 'w) on_flush"
  shows "follows f (batcher_flush f :: (('t, 'v) batcher \<times> 'w) act) (batcher_flush record_flush)"
  unfolding follows_def
proof (intro allI)
  fix s :: "('t, 'v) batcher" and ps
  show "\<exists>s1 calls. batcher_flush record_flush (s, ps) = ((s1, ps @ calls), None) \<and> (\<forall>w. \<exists>s2. batcher_flush f (s, w) =
      ((s2, fst (tell f calls w)), snd (tell f calls w)) \<and> (snd (tell f calls w) = None \<longrightarrow> s2 = s1))"
  proof (cases "is_empty_batch (batch s)")
    case True
    then show ?thesis by (intro exI [of _ s] exI [of _ "[]"]) (simp add: batcher_flush_def tell_def ok_def)
  next
    case False
    have "subID (batch_clear (batch s)) = subID (batch s)" by (simp add: batch_clear_def)
    then show ?thesis using False
      by (intro exI [of _ "s\<lparr>batch := batch_clear (batch s)\<rparr>"] exI [of _ "[(subID (batch s), wrapper (batch s) (batchItems (batch s)))]"])
        (simp add: batcher_flush_def batch_flush_def record_flush_def tell_def split: prod.split)
  qed
qed

lemma follows_adds: "follows f (for_each (batcher_add f) xs) (for_each (batcher_add record_flush) xs)"
  by (induction xs) (simp_all add: follows_ok follows_then follows_add)

lemma run_follows:
  assumes "then_act (for_each (batcher_add record_flush) xs) (batcher_flush record_flush) (s, []) = ((s1, calls), None)"
  shows "\<exists>s2. then_act (for_each (batcher_add f) xs) (batcher_flush f) (s, w) = ((s2, fst (tell f calls w)), snd (tell f calls w))"
proof -
  obtain s3 cs where "then_act (for_each (batcher_add record_flush) xs) (batcher_flush record_flush) (s, []) = ((s3, [] @ cs), None)"
    "\<And>w. \<exists>s2. then_act (for_each (batcher_add f) xs) (batcher_flush f) (s, w) = ((s2, fst (tell f cs w)), snd (tell f cs w))"
    using follows_then [OF follows_adds [of f xs] follows_flush [of f]] unfolding follows_def by blast
  then show ?thesis using assms by simp
qed

section \<open>Properties\<close>

text \<open>
  C25. A batcher loses, reorders and duplicates nothing: adding the items \<open>xs\<close>, each of positive
  weight, one by one to an empty batcher and flushing it hands the callback the wrapped chunks of a
  cut of \<open>xs\<close> into non-empty pieces, with the identifiers \<open>base-n\<close>, \<open>base-(n+1)\<close> and so on; only a
  chunk of a single item is heavier than the limit; and the batcher is empty afterwards.
\<close>

theorem batcher_delivers_a_cut:
  assumes "well_labelled s" "batch_ok (batch s)" "batchItems (batch s) = []"
    and "xs \<noteq> []" "\<forall>x \<in> set xs. 0 < sizer (batch s) x"
  shows "\<exists>s' chunks.
    then_act (for_each (batcher_add record_flush) xs) (batcher_flush record_flush) (s, []) =
      ((s', labelled (baseID (batch s)) (batchFlushed s) (map (wrapper (batch s)) chunks)), None) \<and>
    concat chunks = xs \<and> [] \<notin> set chunks \<and> batchItems (batch s') = [] \<and>
    (\<forall>c \<in> set chunks. items_weight (sizer (batch s)) c \<le> maxWeight (batch s) \<or> length c \<le> 1)"
proof -
  have "map (case_prod Pair) ps = ps" for ps :: "(string \<times> 'v) list"
    by (induction ps) auto
  then show ?thesis
    using recorder.add_all_flush_cut [OF TrueI assms(2-5), of "[]"] assms(1)
    by (auto simp: well_labelled_def is_cut_def)
qed

theorem batcher_delivers_a_cut_witness:
  "\<exists>s' chunks.
    then_act (for_each (batcher_add record_flush) [3, 4, 9, 1, 2]) (batcher_flush record_flush)
      (set_new_batch_id ''u'' ''b'' (new_batcher (new_batch 8 (\<lambda>x::int. x) (\<lambda>xs. xs))), []) =
      ((s', labelled ''b'' 0 chunks), None) \<and>
    concat chunks = [3, 4, 9, 1, 2] \<and> [] \<notin> set chunks \<and> batchItems (batch s') = [] \<and>
    (\<forall>c \<in> set chunks. items_weight (\<lambda>x. x) c \<le> 8 \<or> length c \<le> 1)"
  using batcher_delivers_a_cut [of "set_new_batch_id ''u'' ''b'' (new_batcher (new_batch 8 (\<lambda>x::int. x) (\<lambda>xs. xs)))"
      "[3, 4, 9, 1, 2]"]
  by (simp add: set_new_batch_id_def new_batcher_def new_batch_def DefaultBatchId_def well_labelled_def
      batch_ok_def Let_def)

text \<open>
  A batch that is delivered again to the same batcher does not get the identifiers it had: the
  batcher keeps its running number while the base identifier stays the same, and a flush does not
  advance it. The first run labels its chunks \<open>base-n ... base-m\<close>, and the second run labels the
  same chunks from \<open>base-m\<close> on, so the identifier \<open>base-m\<close> stands for the last chunk and for the
  first one, and a receiver that ignores repeated identifiers takes the others twice.
\<close>

theorem repeated_batch_changes_ids:
  assumes "well_labelled s" "batch_ok (batch s)" "batchItems (batch s) = []"
    and "xs \<noteq> []" "\<forall>x \<in> set xs. 0 < sizer (batch s) x"
    and "batchID = baseID (batch s)" "batchID \<noteq> DefaultBatchId"
    and "greedy (sizer (batch s)) (maxWeight (batch s)) [] xs = (cs, r)"
  shows "\<exists>s' s''.
    then_act (for_each (batcher_add record_flush) xs) (batcher_flush record_flush) (s, []) =
      ((s', labelled batchID (batchFlushed s) (map (wrapper (batch s)) (cs @ [r]))), None) \<and>
    then_act (for_each (batcher_add record_flush) xs) (batcher_flush record_flush)
      (set_new_batch_id u batchID s', []) =
      ((s'', labelled batchID (batchFlushed s + of_nat (length cs)) (map (wrapper (batch s)) (cs @ [r]))), None)"
proof -
  have pairs: "map (case_prod Pair) ps = ps" for ps :: "(string \<times> 'v) list" by (induction ps) auto
  have pos: "\<And>x. x \<in> set xs \<Longrightarrow> 0 < sizer (batch s) x" using assms(5) by simp
  from recorder.add_all_flush [OF TrueI assms(2-4) pos assms(8), of "[]"] assms(1,6) obtain s' where 1:
    "then_act (for_each (batcher_add record_flush) xs) (batcher_flush record_flush) (s, []) =
      ((s', labelled batchID (batchFlushed s) (map (wrapper (batch s)) (cs @ [r]))), None)"
    "batchItems (batch s') = []" "batch_ok (batch s')"
    "subID (batch s') = sub_id batchID (batchFlushed s + of_nat (length cs))"
    "batchFlushed s' = batchFlushed s + of_nat (length cs)" "same_setup s' s"
    unfolding pairs well_labelled_chunk_id [OF assms(1)] by (auto simp: well_labelled_def)
  have id: "set_new_batch_id u batchID s' = s'"
    using 1(6) assms(6,7) by (simp add: set_new_batch_id_def same_setup_def Let_def)
  have g': "greedy (sizer (batch s')) (maxWeight (batch s')) [] xs = (cs, r)"
    using assms(8) 1(6) by (simp add: same_setup_def)
  have pos': "\<And>x. x \<in> set xs \<Longrightarrow> 0 < sizer (batch s') x" using pos 1(6) by (simp add: same_setup_def)
  from recorder.add_all_flush [OF TrueI 1(3,2) assms(4) pos' g', of "[]"] obtain s'' where
    "then_act (for_each (batcher_add record_flush) xs) (batcher_flush record_flush) (s', []) =
      ((s'', labelled batchID (batchFlushed s + of_nat (length cs)) (map (wrapper (batch s)) (cs @ [r]))), None)"
    unfolding pairs using 1(4,5,6) assms(6) by (auto simp: same_setup_def)
  with 1(1) id show ?thesis by metis
qed

theorem repeated_batch_changes_ids_witness:
  "\<exists>s' s''.
    then_act (for_each (batcher_add record_flush) [3, 4, 9]) (batcher_flush record_flush)
      (set_new_batch_id ''u'' ''b'' (new_batcher (new_batch 8 (\<lambda>x::int. x) (\<lambda>xs. xs))), []) =
      ((s', [(sub_id ''b'' 0, [3, 4]), (sub_id ''b'' 1, [9])]), None) \<and>
    then_act (for_each (batcher_add record_flush) [3, 4, 9]) (batcher_flush record_flush)
      (set_new_batch_id ''u'' ''b'' s', []) = ((s'', [(sub_id ''b'' 1, [3, 4]), (sub_id ''b'' 2, [9])]), None)"
  using repeated_batch_changes_ids [of "set_new_batch_id ''u'' ''b'' (new_batcher (new_batch 8 (\<lambda>x::int. x) (\<lambda>xs. xs)))"
      "[3, 4, 9]" "''b''" "[[3, 4]]" "[9]" "''u''"]
  by (simp add: set_new_batch_id_def new_batcher_def new_batch_def DefaultBatchId_def well_labelled_def
      batch_ok_def Let_def)

end
