(* ===== verification/Sender.thy ===== *)
theory Sender
  imports Messages Batch
begin

text \<open>
  \<open>internal/workers/sender\<close>: how a worker's results leave it. A single sender keeps one batcher per
  client and publishes full batches to its output; with a key resolver it publishes each client's
  batches under that client's key. A routed sender keeps one batcher per client and route. A multi
  sender repeats every call on each of its senders.

  The output is the middleware of the worker (\<open>internal/common/inner/middleware\<close>): \<open>sent\<close> lists what
  the broker accepted with the routing key, in order, and \<open>outcomes\<close> decides which publications and
  serializations fail. \<open>Send\<close> publishes once per key of the exchange; a queue is an output with the
  one key that names it.
\<close>

section \<open>Output\<close>

record middleware = env +
  keys :: "string list"
  sent :: "(string \<times> money_laundry) list"

definition publish :: "string \<Rightarrow> money_laundry \<Rightarrow> middleware act" where
  "publish key msg = call (\<lambda>o'. o'\<lparr>sent := sent o' @ [(key, msg)]\<rparr>) ErrSend"

definition send_all :: "money_laundry \<Rightarrow> middleware act" where
  "send_all msg o' = for_each (\<lambda>key. publish key msg) (keys o') o'"

definition marshal_error :: go_error where
  "marshal_error = ErrOther ''error marshalling money laundry''"

definition namespaced_id :: "string \<Rightarrow> string \<Rightarrow> string" where
  "namespaced_id i namespace = i @ DASH # namespace"

lemma namespaced_id_not_default: "namespaced_id i n \<noteq> DefaultBatchId"
  by (simp add: namespaced_id_def DefaultBatchId_def)

definition cleanup_msg :: "string \<Rightarrow> money_laundry" where
  "cleanup_msg cid = proto_message cid MT_CLEANUP NoInner []"

definition eof_message :: "string \<Rightarrow> u64 \<Rightarrow> string \<Rightarrow> money_laundry" where
  "eof_message cid n eof = proto_message cid MT_EOF (EofMessage n) eof"

section \<open>Single sender\<close>

text \<open>
  \<open>keyResolver\<close> is \<open>None\<close> in a sender made by \<open>NewSingleSender\<close> and the resolver in one made by
  \<open>NewDynamicKeySender\<close>; it decides how the field \<open>publish\<close> of the code is set.
\<close>

record ('t, 'v) single_sender =
  namespace :: string
  out :: middleware
  s_wrapper :: "'t list \<Rightarrow> 'v"
  s_sizer :: "'t \<Rightarrow> int"
  batchers :: "(string, ('t, 'v) batcher) gomap"
  serializer :: "string \<Rightarrow> string \<Rightarrow> 'v \<Rightarrow> money_laundry"
  s_maxWeight :: int
  keyResolver :: "(string \<Rightarrow> string) option"

definition new_single_sender ::
  "middleware \<Rightarrow> ('t list \<Rightarrow> 'v) \<Rightarrow> ('t \<Rightarrow> int) \<Rightarrow> int \<Rightarrow> (string \<Rightarrow> string \<Rightarrow> 'v \<Rightarrow> money_laundry) \<Rightarrow> string \<Rightarrow>
   ('t, 'v) single_sender" where
  "new_single_sender o' wr sz mw ser ns =
     \<lparr>namespace = ns, out = o', s_wrapper = wr, s_sizer = sz, batchers = [], serializer = ser,
      s_maxWeight = mw, keyResolver = None\<rparr>"

definition new_dynamic_key_sender ::
  "middleware \<Rightarrow> (string \<Rightarrow> string) \<Rightarrow> ('t list \<Rightarrow> 'v) \<Rightarrow> ('t \<Rightarrow> int) \<Rightarrow> int \<Rightarrow>
   (string \<Rightarrow> string \<Rightarrow> 'v \<Rightarrow> money_laundry) \<Rightarrow> string \<Rightarrow> ('t, 'v) single_sender" where
  "new_dynamic_key_sender o' res wr sz mw ser ns =
     (new_single_sender o' wr sz mw ser ns)\<lparr>keyResolver := Some res\<rparr>"

definition on_output :: "middleware act \<Rightarrow> ('t, 'v) single_sender act" where
  "on_output = zoom out (\<lambda>o' s. s\<lparr>out := o'\<rparr>)"

definition single_publish :: "string \<Rightarrow> money_laundry \<Rightarrow> ('t, 'v) single_sender act" where
  "single_publish cid msg s =
     on_output (case keyResolver s of None \<Rightarrow> send_all msg | Some r \<Rightarrow> publish (r cid) msg) s"

definition flush_batch :: "string \<Rightarrow> ('v, ('t, 'v) single_sender) on_flush" where
  "flush_batch cid v bid s =
     seq_acts [on_output (call id marshal_error), single_publish cid (serializer s cid bid v)] s"

definition fresh_batcher :: "('t, 'v) single_sender \<Rightarrow> ('t, 'v) batcher" where
  "fresh_batcher s = new_batcher (new_batch (s_maxWeight s) (s_sizer s) (s_wrapper s))"

definition batcher_of :: "('t, 'v) single_sender \<Rightarrow> string \<Rightarrow> ('t, 'v) batcher" where
  "batcher_of s cid = (case mget (batchers s) cid of Some b \<Rightarrow> b | None \<Rightarrow> fresh_batcher s)"

definition single_add :: "string \<Rightarrow> 't \<Rightarrow> string \<Rightarrow> ('t, 'v) single_sender act" where
  "single_add cid item bid s =
     (let b1 = set_new_batch_id [] (namespaced_id bid (namespace s)) (batcher_of s cid)
      in case batcher_add (flush_batch cid) item (b1, s) of
           ((b2, s'), e) \<Rightarrow> (s'\<lparr>batchers := mput cid b2 (batchers s')\<rparr>, e))"

definition single_flush :: "string \<Rightarrow> ('t, 'v) single_sender act" where
  "single_flush cid s =
     (case mget (batchers s) cid of
        None \<Rightarrow> (s, None)
      | Some b \<Rightarrow>
          (case batcher_flush (flush_batch cid) (b, s) of
             ((b', s'), e) \<Rightarrow> (s'\<lparr>batchers := mput cid b' (batchers s')\<rparr>, e)))"

definition single_cleanup :: "string \<Rightarrow> ('t, 'v) single_sender act" where
  "single_cleanup cid = seq_acts
     [on_output (call id marshal_error), single_publish cid (cleanup_msg cid),
      upd (\<lambda>s. s\<lparr>batchers := mdel cid (batchers s)\<rparr>)]"

definition single_send_eof :: "string \<Rightarrow> u64 \<Rightarrow> string \<Rightarrow> ('t, 'v) single_sender act" where
  "single_send_eof cid n eof s = seq_acts
     [on_output (call id marshal_error),
      single_publish cid (eof_message cid n (namespaced_id eof (namespace s)))] s"

definition single_close :: "('t, 'v) single_sender act" where
  "single_close s = then_act (for_each (\<lambda>cid. ignore_err (single_cleanup cid)) (mkeys (batchers s)))
     (on_output (call id ErrClosed)) s"

section \<open>Routed sender\<close>

record 't routed_item =
  Route :: string
  Item :: 't

text \<open>Each batcher comes with the client and the route its callback captured when it was made.\<close>

record ('t, 'v) routed_sender =
  r_namespace :: string
  r_exchange :: middleware
  r_wrapper :: "'t list \<Rightarrow> 'v"
  r_sizer :: "'t \<Rightarrow> int"
  r_batchers :: "(string, string \<times> string \<times> ('t, 'v) batcher) gomap"
  r_serializer :: "string \<Rightarrow> string \<Rightarrow> 'v \<Rightarrow> money_laundry"
  r_maxWeight :: int

definition new_routed_sender ::
  "middleware \<Rightarrow> ('t list \<Rightarrow> 'v) \<Rightarrow> ('t \<Rightarrow> int) \<Rightarrow> int \<Rightarrow> (string \<Rightarrow> string \<Rightarrow> 'v \<Rightarrow> money_laundry) \<Rightarrow> string \<Rightarrow>
   ('t, 'v) routed_sender" where
  "new_routed_sender o' wr sz mw ser ns =
     \<lparr>r_namespace = ns, r_exchange = o', r_wrapper = wr, r_sizer = sz, r_batchers = [],
      r_serializer = ser, r_maxWeight = mw\<rparr>"

definition batcher_key :: "string \<Rightarrow> string \<Rightarrow> string" where
  "batcher_key cid route = cid @ CHR 0x00 # route"

definition batcher_client_id :: "string \<Rightarrow> string" where
  "batcher_client_id key = takeWhile (\<lambda>c. c \<noteq> CHR 0x00) key"

definition on_exchange :: "middleware act \<Rightarrow> ('t, 'v) routed_sender act" where
  "on_exchange = zoom r_exchange (\<lambda>o' s. s\<lparr>r_exchange := o'\<rparr>)"

definition routed_flush_batch :: "string \<Rightarrow> string \<Rightarrow> ('v, ('t, 'v) routed_sender) on_flush" where
  "routed_flush_batch cid route v bid s =
     on_exchange (seq_acts [call id marshal_error, publish route (r_serializer s cid bid v)]) s"

definition routed_add :: "string \<Rightarrow> 't routed_item \<Rightarrow> string \<Rightarrow> ('t, 'v) routed_sender act" where
  "routed_add cid item bid s =
     (let key = batcher_key cid (Route item);
          (c0, r0, b0) = (case mget (r_batchers s) key of
             Some e \<Rightarrow> e
           | None \<Rightarrow> (cid, Route item, new_batcher (new_batch (r_maxWeight s) (r_sizer s) (r_wrapper s))));
          b1 = set_new_batch_id [] (namespaced_id bid (r_namespace s @ DASH # Route item)) b0
      in case batcher_add (routed_flush_batch c0 r0) (Item item) (b1, s) of
           ((b2, s'), e) \<Rightarrow> (s'\<lparr>r_batchers := mput key (c0, r0, b2) (r_batchers s')\<rparr>, e))"

definition routed_flush_one :: "string \<Rightarrow> string \<Rightarrow> ('t, 'v) routed_sender act" where
  "routed_flush_one cid key s =
     (if batcher_client_id key \<noteq> cid then (s, None)
      else case mget (r_batchers s) key of
             None \<Rightarrow> (s, None)
           | Some (c0, r0, b) \<Rightarrow>
               (case batcher_flush (routed_flush_batch c0 r0) (b, s) of
                  ((b', s'), e) \<Rightarrow> (s'\<lparr>r_batchers := mput key (c0, r0, b') (r_batchers s')\<rparr>, e)))"

definition routed_flush :: "string \<Rightarrow> ('t, 'v) routed_sender act" where
  "routed_flush cid s = for_each (routed_flush_one cid) (mkeys (r_batchers s)) s"

definition routed_cleanup :: "string \<Rightarrow> ('t, 'v) routed_sender act" where
  "routed_cleanup cid = seq_acts
     [on_exchange (call id marshal_error), on_exchange (send_all (cleanup_msg cid)),
      upd (\<lambda>s. s\<lparr>r_batchers := filter (\<lambda>e. batcher_client_id (fst e) \<noteq> cid) (r_batchers s)\<rparr>)]"

definition routed_send_eof :: "string \<Rightarrow> u64 \<Rightarrow> string \<Rightarrow> ('t, 'v) routed_sender act" where
  "routed_send_eof cid n eof s = seq_acts
     [on_exchange (call id marshal_error),
      on_exchange (send_all (eof_message cid n (namespaced_id eof (r_namespace s))))] s"

text \<open>\<open>Close\<close> passes the keys of the batchers, not the clients, to \<open>Cleanup\<close>.\<close>

definition routed_close :: "('t, 'v) routed_sender act" where
  "routed_close s = then_act (for_each (\<lambda>key. ignore_err (routed_cleanup key)) (mkeys (r_batchers s)))
     (on_exchange (call id ErrClosed)) s"

section \<open>The interface, and the multi sender\<close>

record ('s, 't) sender_ops =
  sender_add :: "string \<Rightarrow> 't \<Rightarrow> string \<Rightarrow> 's act"
  sender_flush :: "string \<Rightarrow> 's act"
  sender_cleanup :: "string \<Rightarrow> 's act"
  sender_eof :: "string \<Rightarrow> u64 \<Rightarrow> string \<Rightarrow> 's act"
  sender_close :: "'s act"

definition single_ops :: "(('t, 'v) single_sender, 't) sender_ops" where
  "single_ops = \<lparr>sender_add = single_add, sender_flush = single_flush, sender_cleanup = single_cleanup,
     sender_eof = single_send_eof, sender_close = single_close\<rparr>"

definition routed_ops :: "(('t, 'v) routed_sender, 't routed_item) sender_ops" where
  "routed_ops = \<lparr>sender_add = routed_add, sender_flush = routed_flush, sender_cleanup = routed_cleanup,
     sender_eof = routed_send_eof, sender_close = routed_close\<rparr>"

text \<open>The call on each sender in turn, up to the first error.\<close>

fun on_each :: "(('s, 't) sender_ops \<Rightarrow> 's act) \<Rightarrow> ((('s, 't) sender_ops) \<times> 's) list act" where
  "on_each f [] = ([], None)"
| "on_each f ((ops, s) # ss) =
     (case f ops s of
        (s', Some e) \<Rightarrow> ((ops, s') # ss, Some e)
      | (s', None) \<Rightarrow> (case on_each f ss of (ss', e) \<Rightarrow> ((ops, s') # ss', e)))"

definition multi_ops :: "((('s, 't) sender_ops \<times> 's) list, 't) sender_ops" where
  "multi_ops = \<lparr>sender_add = \<lambda>cid item bid. on_each (\<lambda>ops. sender_add ops cid item bid),
     sender_flush = \<lambda>cid. on_each (\<lambda>ops. sender_flush ops cid),
     sender_cleanup = \<lambda>cid. on_each (\<lambda>ops. sender_cleanup ops cid),
     sender_eof = \<lambda>cid n eof. on_each (\<lambda>ops. sender_eof ops cid n eof),
     sender_close = on_each sender_close\<rparr>"

section \<open>What an engine may expect of a sender\<close>

text \<open>
  A view of a sender selects some of the items (\<open>sel\<close>): those for one client, say, or for one client
  and one route. \<open>arrived\<close> reads them off what was sent and \<open>waiting\<close> off the batchers. While it is
  \<open>ready\<close>, an item added is waiting or has arrived behind the earlier ones, and after a flush of the
  view's client (\<open>owner\<close>) none of the view is waiting. Client identifiers are \<open>valid\<close> ones.
\<close>

locale sender_view =
  fixes ops :: "('s, 't) sender_ops"
    and sel :: "string \<Rightarrow> 't \<Rightarrow> 'y list"
    and arrived waiting :: "'s \<Rightarrow> 'y list"
    and owner :: string
    and valid :: "string \<Rightarrow> bool"
    and ready :: "'s \<Rightarrow> bool"
  assumes add_view: "ready s \<Longrightarrow> valid cid \<Longrightarrow> \<exists>s'. sender_add ops cid x bid s = (s', None) \<and> ready s' \<and>
      arrived s' @ waiting s' = arrived s @ waiting s @ sel cid x"
    and flush_view: "ready s \<Longrightarrow> valid cid \<Longrightarrow> \<exists>s'. sender_flush ops cid s = (s', None) \<and> ready s' \<and>
      arrived s' @ waiting s' = arrived s @ waiting s \<and> (cid = owner \<longrightarrow> waiting s' = [])"
    and eof_view: "ready s \<Longrightarrow> valid cid \<Longrightarrow> \<exists>s'. sender_eof ops cid n eof s = (s', None) \<and> ready s' \<and>
      arrived s' = arrived s \<and> waiting s' = waiting s"
    and owner_valid: "ready s \<Longrightarrow> valid owner"
begin

lemma adds_view:
  "ready s \<Longrightarrow> valid cid \<Longrightarrow> \<exists>s'. for_each (\<lambda>x. sender_add ops cid x bid) xs s = (s', None) \<and> ready s' \<and>
     arrived s' @ waiting s' = arrived s @ waiting s @ concat (map (sel cid) xs)"
proof (induction xs arbitrary: s)
  case (Cons x xs)
  obtain s1 where s1: "sender_add ops cid x bid s = (s1, None)" "ready s1"
    "arrived s1 @ waiting s1 = arrived s @ waiting s @ sel cid x"
    using add_view [OF Cons.prems] by blast
  then show ?case
    using Cons.IH [OF s1(2) Cons.prems(2)] by (auto simp: then_act_def)
qed (auto simp: ok_def)

text \<open>Adding a list and flushing delivers the list, behind whatever was there.\<close>

lemma adds_flush_view:
  assumes "ready s" "waiting s = []"
  shows "\<exists>s'. then_act (for_each (\<lambda>x. sender_add ops owner x bid) xs) (sender_flush ops owner) s = (s', None) \<and>
    ready s' \<and> waiting s' = [] \<and> arrived s' = arrived s @ concat (map (sel owner) xs)"
proof -
  have v: "valid owner" by (rule owner_valid [OF assms(1)])
  obtain s1 where s1: "for_each (\<lambda>x. sender_add ops owner x bid) xs s = (s1, None)" "ready s1"
    "arrived s1 @ waiting s1 = arrived s @ concat (map (sel owner) xs)"
    using adds_view [OF assms(1) v, of bid xs] assms(2) by auto
  then show ?thesis
    using flush_view [OF s1(2) v] by (auto simp: then_act_def)
qed

end

section \<open>Publishing that works\<close>

definition received :: "string \<Rightarrow> middleware \<Rightarrow> money_laundry list" where
  "received k o' = map snd (filter (\<lambda>m. fst m = k) (sent o'))"

lemma publish_works:
  "outcomes o' = [] \<Longrightarrow> publish k msg o' = (o'\<lparr>sent := sent o' @ [(k, msg)]\<rparr>, None)"
  by (simp add: publish_def call_no_faults)

lemma publish_each_works:
  "outcomes o' = [] \<Longrightarrow> for_each (\<lambda>k. publish k msg) ks o' =
     (o'\<lparr>sent := sent o' @ map (\<lambda>k. (k, msg)) ks\<rparr>, None)"
  by (induction ks arbitrary: o') (simp_all add: ok_def then_act_def publish_works)

lemma send_all_works:
  "outcomes o' = [] \<Longrightarrow> send_all msg o' = (o'\<lparr>sent := sent o' @ map (\<lambda>k. (k, msg)) (keys o')\<rparr>, None)"
  by (simp add: send_all_def publish_each_works)

lemma filter_sent: "distinct ks \<Longrightarrow> k \<in> set ks \<Longrightarrow> filter (\<lambda>m. fst m = k) (map (\<lambda>k. (k, msg)) ks) = [(k, msg)]"
  by (induction ks) (auto simp: filter_empty_conv)

section \<open>The single sender as a view\<close>

text \<open>The keys under which a client's messages go, and the sender without its output.\<close>

definition dest :: "('t, 'v) single_sender \<Rightarrow> string \<Rightarrow> string list" where
  "dest s cid = (case keyResolver s of None \<Rightarrow> keys (out s) | Some r \<Rightarrow> [r cid])"

definition frame :: "('t, 'v) single_sender \<Rightarrow> ('t, 'v) single_sender" where
  "frame s = s\<lparr>out := (out s)\<lparr>sent := []\<rparr>\<rparr>"

lemma frame_sent [simp]: "frame (s\<lparr>out := (out s)\<lparr>sent := x\<rparr>\<rparr>) = frame s"
  by (simp add: frame_def)

lemma frame_eqD:
  assumes "frame s = frame t"
  shows "dest s = dest t" "outcomes (out s) = outcomes (out t)" "batchers s = batchers t"
    "serializer s = serializer t" "s_sizer s = s_sizer t" "s_wrapper s = s_wrapper t"
    "namespace s = namespace t" "s_maxWeight s = s_maxWeight t"
proof -
  have "out (frame s) = (out s)\<lparr>sent := []\<rparr>" "out (frame t) = (out t)\<lparr>sent := []\<rparr>"
    by (simp_all add: frame_def)
  then have o': "keys (out s) = keys (out t)" "outcomes (out s) = outcomes (out t)"
    using assms by (cases "out s"; cases "out t"; simp)+
  have r: "keyResolver s = keyResolver t" "batchers s = batchers t"
    "serializer s = serializer t" "s_sizer s = s_sizer t" "s_wrapper s = s_wrapper t"
    "namespace s = namespace t" "s_maxWeight s = s_maxWeight t"
    using assms by (cases s; cases t; simp add: frame_def)+
  show "dest s = dest t" unfolding dest_def o'(1) r(1) ..
  show "outcomes (out s) = outcomes (out t)" by (rule o')
  show "batchers s = batchers t" "serializer s = serializer t" "s_sizer s = s_sizer t"
    "s_wrapper s = s_wrapper t" "namespace s = namespace t" "s_maxWeight s = s_maxWeight t"
    by (rule r)+
qed

lemma flush_batch_works:
  assumes "outcomes (out s) = []"
  shows "flush_batch cid v bid s =
    (s\<lparr>out := (out s)\<lparr>sent := sent (out s) @ map (\<lambda>k. (k, serializer s cid bid v)) (dest s cid)\<rparr>\<rparr>, None)"
  using assms
  by (auto simp: flush_batch_def on_output_def zoom_def then_act_def call_no_faults single_publish_def
      send_all_works publish_works dest_def split: option.splits)

definition sends_for :: "('t, 'v) single_sender \<Rightarrow> string \<Rightarrow> string \<Rightarrow> ('t, 'v) single_sender \<Rightarrow> bool" where
  "sends_for f cid k s \<longleftrightarrow> frame s = frame f \<and> outcomes (out f) = [] \<and> distinct (dest f cid) \<and> k \<in> set (dest f cid)"

interpretation single_sink: flush_sink "flush_batch cid" "serializer f cid" "\<lambda>s. received k (out s)" "sends_for f cid k"
  for cid k and f :: "('t, 'v) single_sender"
proof unfold_locales
  fix s :: "('t, 'v) single_sender" and v i
  assume "sends_for f cid k s"
  then have s: "frame s = frame f" "outcomes (out s) = []" "distinct (dest s cid)" "k \<in> set (dest s cid)"
    "serializer s = serializer f"
    using frame_eqD [of s f] by (simp_all add: sends_for_def)
  show "snd (flush_batch cid v i s) = None" by (simp add: flush_batch_works s)
  show "sends_for f cid k (fst (flush_batch cid v i s))"
    using \<open>sends_for f cid k s\<close> by (simp add: flush_batch_works s sends_for_def)
  show "received k (out (fst (flush_batch cid v i s))) = received k (out s) @ [serializer f cid i v]"
    using s by (simp add: flush_batch_works received_def filter_sent)
qed


section \<open>Views of a single sender\<close>

definition waiting_items :: "string \<Rightarrow> ('t, 'v) single_sender \<Rightarrow> 't list" where
  "waiting_items cid s = batchItems (batch (batcher_of s cid))"

definition good_batcher :: "('t, 'v) single_sender \<Rightarrow> ('t, 'v) batcher \<Rightarrow> bool" where
  "good_batcher s b \<longleftrightarrow> batch_ok (batch b) \<and> sizer (batch b) = s_sizer s \<and> wrapper (batch b) = s_wrapper s"

definition working :: "('t, 'v) single_sender \<Rightarrow> bool" where
  "working s \<longleftrightarrow> outcomes (out s) = [] \<and> (\<forall>x. 0 < s_sizer s x) \<and> (\<forall>cid. good_batcher s (batcher_of s cid))"

lemma fresh_good [simp]: "good_batcher s (fresh_batcher s)"
  by (simp add: good_batcher_def fresh_batcher_def new_batcher_def new_batch_ok)
     (simp add: new_batch_def)

lemma fresh_items [simp]: "batchItems (batch (fresh_batcher s)) = []"
  by (simp add: fresh_batcher_def new_batcher_def new_batch_def)

lemma new_single_sender_working:
  "outcomes o' = [] \<Longrightarrow> \<forall>x. 0 < sz x \<Longrightarrow> working (new_single_sender o' wr sz mw ser ns)"
  by (simp add: working_def batcher_of_def new_single_sender_def)

lemma set_id_good [simp]: "good_batcher s (set_new_batch_id u i b) = good_batcher s b"
  by (simp add: good_batcher_def set_new_batch_id_def Let_def batch_ok_def)

lemma set_id_items [simp]: "batchItems (batch (set_new_batch_id u i b)) = batchItems (batch b)"
  by (simp add: set_new_batch_id_def Let_def)

text \<open>What one \<open>Add\<close> does to a working sender, for the client itself.\<close>

lemma greedy_one:
  "greedy sz mx cur [x] = ((if items_weight sz cur + sz x > mx \<and> cur \<noteq> [] then ([cur], [x]) else ([], cur @ [x])))"
  by simp

lemma single_add_result:
  assumes "working s" "distinct (dest s cid)" "k \<in> set (dest s cid)"
  shows "\<exists>s' b' cs. single_add cid x bid s = (s', None) \<and>
    frame s' = (frame s)\<lparr>batchers := mput cid b' (batchers s)\<rparr> \<and> good_batcher s b' \<and>
    concat (map snd cs) @ batchItems (batch b') = waiting_items cid s @ [x] \<and>
    received k (out s') = received k (out s) @ map (\<lambda>(i, items). serializer s cid i (s_wrapper s items)) cs"
proof -
  let ?b1 = "set_new_batch_id [] (namespaced_id bid (namespace s)) (batcher_of s cid)"
  have g: "good_batcher s ?b1" using assms(1) by (simp add: working_def)
  have r: "sends_for s cid k s" using assms by (simp add: sends_for_def working_def)
  obtain cs rest where gr: "greedy (sizer (batch ?b1)) (maxWeight (batch ?b1)) (batchItems (batch ?b1)) [x] = (cs, rest)"
    by fastforce
  let ?ids = "chunk_ids (subID (batch ?b1)) (baseID (batch ?b1)) (batchFlushed ?b1)"
  obtain b2 s' where a: "batcher_add (flush_batch cid) x (?b1, s) = ((b2, s'), None)" "sends_for s cid k s'"
    "received k (out s') = received k (out s) @ map (case_prod (serializer s cid)) (?ids (map (s_wrapper s) cs))"
    "batchItems (batch b2) = rest" "batch_ok (batch b2)" "sizer (batch b2) = s_sizer s" "wrapper (batch b2) = s_wrapper s"
    using single_sink.adds [OF r _ gr] g by (auto simp: good_batcher_def)
  have cut: "concat cs @ rest = waiting_items cid s @ [x]"
    using greedy_concat [OF gr] by (simp add: waiting_items_def)
  have ids: "\<exists>cs'. map snd cs' = cs \<and> map (case_prod (serializer s cid)) (chunk_ids i base n (map (s_wrapper s) cs)) =
      map (\<lambda>(i, items). serializer s cid i (s_wrapper s items)) cs'" for i base n
  proof (induction cs arbitrary: i n)
    case (Cons c cs)
    from Cons [of "sub_id base (n + 1)" "n + 1"] obtain cs' where "map snd cs' = cs"
      "map (case_prod (serializer s cid)) (chunk_ids (sub_id base (n + 1)) base (n + 1) (map (s_wrapper s) cs)) =
       map (\<lambda>(i, items). serializer s cid i (s_wrapper s items)) cs'" by blast
    then show ?case by (intro exI [of _ "(i, c) # cs'"]) simp
  qed simp
  then obtain cs' where cs': "map snd cs' = cs"
    "received k (out s') = received k (out s) @ map (\<lambda>(i, items). serializer s cid i (s_wrapper s items)) cs'"
    using a(3) by metis
  have fr: "frame s' = frame s" using a(2) by (simp add: sends_for_def)
  then have "batchers s' = batchers s" using frame_eqD by blast
  then have "single_add cid x bid s = (s'\<lparr>batchers := mput cid b2 (batchers s)\<rparr>, None)"
    using a(1) by (simp add: single_add_def Let_def)
  moreover have "frame (s'\<lparr>batchers := m\<rparr>) = (frame s')\<lparr>batchers := m\<rparr>" for m by (simp add: frame_def)
  moreover have "good_batcher s b2" using a by (simp add: good_batcher_def)
  ultimately show ?thesis
    using a(4) cs' cut fr by (intro exI [of _ "s'\<lparr>batchers := mput cid b2 (batchers s)\<rparr>"] exI [of _ b2] exI [of _ cs']) simp
qed


text \<open>What is sent for one client leaves what is received for another alone.\<close>

definition received_of :: "string \<Rightarrow> string \<Rightarrow> middleware \<Rightarrow> money_laundry list" where
  "received_of cid k o' = filter (\<lambda>m. ml_client m = cid) (received k o')"

lemma quiet_flush_other:
  assumes "\<And>i v. ml_client (serializer f cid i v) = cid" "cid \<noteq> c0" "outcomes (out f) = []"
  shows "preserves (\<lambda>s. frame s = frame f \<and> received_of c0 k (out s) = A) (flush_batch cid v i)"
proof (rule preservesI)
  fix s :: "('b, 'a) single_sender"
  assume s: "frame s = frame f \<and> received_of c0 k (out s) = A"
  then have "outcomes (out s) = []" "serializer s = serializer f" using assms(3) frame_eqD [of s f] by simp_all
  moreover have "filter (\<lambda>m. ml_client m = c0) (map snd (filter (\<lambda>m. fst m = k) (map (\<lambda>k. (k, serializer f cid i v)) ks))) = []"
    for ks using assms(1,2) by (induction ks) auto
  ultimately show "frame (fst (flush_batch cid v i s)) = frame f \<and>
      received_of c0 k (out (fst (flush_batch cid v i s))) = A"
    using s by (simp add: flush_batch_works received_of_def received_def)
qed

lemma flush_never_fails: "outcomes (out s) = [] \<Longrightarrow> snd (flush_batch cid v i s) = None"
  by (simp add: flush_batch_works)

lemma single_add_other:
  assumes "working s" "cid \<noteq> c0" "\<And>i v. ml_client (serializer s cid i v) = cid"
  shows "\<exists>s' b'. single_add cid x bid s = (s', None) \<and>
    frame s' = (frame s)\<lparr>batchers := mput cid b' (batchers s)\<rparr> \<and> good_batcher s b' \<and>
    received_of c0 k (out s') = received_of c0 k (out s)"
proof -
  have o': "outcomes (out s) = []" using assms(1) by (simp add: working_def)
  let ?b1 = "set_new_batch_id [] (namespaced_id bid (namespace s)) (batcher_of s cid)"
  have g: "good_batcher s ?b1" using assms(1) by (simp add: working_def)
  obtain b2 s1 e where a: "batcher_add (flush_batch cid) x (?b1, s) = ((b2, s1), e)" by (metis surj_pair)
  have e: "e = None"
    using batcher_add_error [of "flush_batch cid" x ?b1 s] flush_never_fails [OF o'] a
    by (cases e) auto
  have p: "preserves (\<lambda>(b, s'). frame s' = frame s \<and> received_of c0 k (out s') = received_of c0 k (out s))
      (batcher_add (flush_batch cid) x)"
    by (rule preserves_batcher_add) (rule quiet_flush_other [OF assms(3,2) o'])
  from preservesD [OF p, of "(?b1, s)"] a
  have fs: "frame s1 = frame s \<and> received_of c0 k (out s1) = received_of c0 k (out s)"
    by simp
  moreover from fs have "batchers s1 = batchers s" using frame_eqD by blast
  moreover have "frame (s1\<lparr>batchers := m\<rparr>) = (frame s1)\<lparr>batchers := m\<rparr>" for m by (simp add: frame_def)
  moreover have "good_batcher s b2"
    using g batcher_add_config [of "flush_batch cid" x ?b1 s] batcher_add_batch_ok [of ?b1 "flush_batch cid" x s] a
    by (simp add: good_batcher_def)
  ultimately show ?thesis
    using a e fs by (intro exI [of _ "s1\<lparr>batchers := mput cid b2 (batchers s1)\<rparr>"] exI [of _ b2]) (simp add: single_add_def Let_def)
qed

lemma single_flush_other:
  assumes "working s" "cid \<noteq> c0" "\<And>i v. ml_client (serializer s cid i v) = cid"
  shows "\<exists>s' m. single_flush cid s = (s', None) \<and> frame s' = (frame s)\<lparr>batchers := m\<rparr> \<and>
    (m = batchers s \<or> (\<exists>b'. m = mput cid b' (batchers s) \<and> good_batcher s b')) \<and>
    received_of c0 k (out s') = received_of c0 k (out s)"
proof (cases "mget (batchers s) cid")
  case None
  moreover have "frame s = (frame s)\<lparr>batchers := batchers s\<rparr>" by (cases s) (simp add: frame_def)
  ultimately show ?thesis by (intro exI [of _ s] exI [of _ "batchers s"]) (simp add: single_flush_def)
next
  case (Some b)
  have o': "outcomes (out s) = []" using assms(1) by (simp add: working_def)
  have g: "good_batcher s b" using assms(1) Some by (auto simp: working_def batcher_of_def split: option.splits)
  obtain b2 s1 e where a: "batcher_flush (flush_batch cid) (b, s) = ((b2, s1), e)" by (metis surj_pair)
  have e: "e = None"
    using a flush_never_fails [OF o', of cid] by (auto simp: batcher_flush_def case_prod_unfold split: if_splits)
  have p: "preserves (\<lambda>(b, s'). frame s' = frame s \<and> received_of c0 k (out s') = received_of c0 k (out s))
      (batcher_flush (flush_batch cid))"
    by (rule preserves_batcher_flush) (rule quiet_flush_other [OF assms(3,2) o'])
  from preservesD [OF p, of "(b, s)"] a
  have fs: "frame s1 = frame s \<and> received_of c0 k (out s1) = received_of c0 k (out s)"
    by simp
  moreover from fs have "batchers s1 = batchers s" using frame_eqD by blast
  moreover have "frame (s1\<lparr>batchers := m\<rparr>) = (frame s1)\<lparr>batchers := m\<rparr>" for m by (simp add: frame_def)
  moreover have "good_batcher s b2"
    using g batcher_flush_config [of "flush_batch cid" b s] a by (simp add: good_batcher_def)
  ultimately show ?thesis
    using a e fs Some by (intro exI [of _ "s1\<lparr>batchers := mput cid b2 (batchers s1)\<rparr>"] exI [of _ "mput cid b2 (batchers s)"]) (auto simp: single_flush_def)
qed

lemma single_flush_own:
  assumes "working s" "distinct (dest s cid)" "k \<in> set (dest s cid)"
  shows "\<exists>s' m cs. single_flush cid s = (s', None) \<and> frame s' = (frame s)\<lparr>batchers := m\<rparr> \<and>
    (m = batchers s \<and> mget m cid = None \<or> (\<exists>b'. m = mput cid b' (batchers s) \<and> good_batcher s b' \<and> batchItems (batch b') = [])) \<and>
    concat (map snd cs) = waiting_items cid s \<and>
    received k (out s') = received k (out s) @ map (\<lambda>(i, items). serializer s cid i (s_wrapper s items)) cs"
proof (cases "mget (batchers s) cid")
  case None
  moreover have "frame s = (frame s)\<lparr>batchers := batchers s\<rparr>" by (cases s) (simp add: frame_def)
  ultimately show ?thesis
    by (intro exI [of _ s] exI [of _ "batchers s"] exI [of _ "[]"]) (simp add: single_flush_def waiting_items_def batcher_of_def)
next
  case (Some b)
  have g: "good_batcher s b" using assms(1) Some by (auto simp: working_def batcher_of_def split: option.splits)
  have w: "waiting_items cid s = batchItems (batch b)" using Some by (simp add: waiting_items_def batcher_of_def)
  have r: "sends_for s cid k s" using assms by (simp add: sends_for_def working_def)
  have fb: "frame (t\<lparr>batchers := m\<rparr>) = (frame t)\<lparr>batchers := m\<rparr>" for m and t :: "('a, 'b) single_sender"
    by (simp add: frame_def)
  show ?thesis
  proof (cases "batchItems (batch b) = []")
    case True
    then have "currentWeight (batch b) = 0" using g by (simp add: good_batcher_def batch_ok_def)
    then have "single_flush cid s = (s\<lparr>batchers := mput cid b (batchers s)\<rparr>, None)"
      using Some by (simp add: single_flush_def batcher_flush_def is_empty_batch_def)
    then show ?thesis
      using True g w fb by (intro exI [of _ "s\<lparr>batchers := mput cid b (batchers s)\<rparr>"] exI [of _ "mput cid b (batchers s)"] exI [of _ "[]"]) auto
  next
    case False
    have pos: "0 < s_sizer s x" for x using assms(1) by (simp add: working_def)
    have "0 < items_weight (sizer (batch b)) (batchItems (batch b))"
      using g by (intro items_weight_pos [OF _ False]) (simp add: good_batcher_def pos)
    then have "currentWeight (batch b) \<noteq> 0" using g by (simp add: good_batcher_def batch_ok_def)
    from single_sink.flush_nonempty [OF r this] obtain s1 where s1:
      "batcher_flush (flush_batch cid) (b, s) = ((b\<lparr>batch := batch_clear (batch b)\<rparr>, s1), None)" "sends_for s cid k s1"
      "received k (out s1) = received k (out s) @ [serializer s cid (subID (batch b)) (wrapper (batch b) (batchItems (batch b)))]"
      by blast
    let ?b2 = "b\<lparr>batch := batch_clear (batch b)\<rparr>"
    have fr: "frame s1 = frame s" using s1(2) by (simp add: sends_for_def)
    then have "batchers s1 = batchers s" using frame_eqD by blast
    moreover have "good_batcher s ?b2" using g by (simp add: good_batcher_def batch_ok_clear) (simp add: batch_clear_def)
    moreover have "batchItems (batch ?b2) = []" by (simp add: batch_clear_def)
    ultimately show ?thesis
      using s1 Some w fr fb g
      by (intro exI [of _ "s1\<lparr>batchers := mput cid ?b2 (batchers s1)\<rparr>"] exI [of _ "mput cid ?b2 (batchers s)"]
          exI [of _ "[(subID (batch b), batchItems (batch b))]"])
        (auto simp: single_flush_def good_batcher_def)
  qed
qed


definition single_ready ::
  "(string \<Rightarrow> string \<Rightarrow> 't list \<Rightarrow> money_laundry) \<Rightarrow> string \<Rightarrow> string \<Rightarrow> ('t, 't list) single_sender \<Rightarrow> bool" where
  "single_ready ser c0 k s \<longleftrightarrow> working s \<and> serializer s = ser \<and> s_wrapper s = (\<lambda>xs. xs) \<and>
     distinct (dest s c0) \<and> k \<in> set (dest s c0)"

definition arrived_items ::
  "message_type \<Rightarrow> (money_laundry \<Rightarrow> 't list) \<Rightarrow> string \<Rightarrow> string \<Rightarrow> ('t, 'v) single_sender \<Rightarrow> 't list" where
  "arrived_items mt its c0 k s = concat (map its (filter (\<lambda>m. ml_type m = mt) (received_of c0 k (out s))))"

lemma frame_batchers:
  assumes "frame s' = (frame s)\<lparr>batchers := m\<rparr>"
  shows "batchers s' = m" "dest s' = dest s" "outcomes (out s') = outcomes (out s)" "serializer s' = serializer s"
    "s_sizer s' = s_sizer s" "s_wrapper s' = s_wrapper s" "s_maxWeight s' = s_maxWeight s"
proof -
  have f: "frame s' = frame (s\<lparr>batchers := m\<rparr>)" using assms by (simp add: frame_def)
  have d: "dest (s\<lparr>batchers := m\<rparr>) = dest s" by (rule ext) (simp add: dest_def split: option.split)
  show "batchers s' = m" "dest s' = dest s" "outcomes (out s') = outcomes (out s)" "serializer s' = serializer s"
    "s_sizer s' = s_sizer s" "s_wrapper s' = s_wrapper s" "s_maxWeight s' = s_maxWeight s"
    using frame_eqD [OF f] d by simp_all
qed

lemma batcher_of_update:
  assumes "frame s' = (frame s)\<lparr>batchers := mput cid b' (batchers s)\<rparr>"
  shows "batcher_of s' c = (if c = cid then b' else batcher_of s c)"
  using frame_batchers [OF assms] by (simp add: batcher_of_def mget_mput fresh_batcher_def split: option.split)

lemma batcher_of_same: "frame s' = (frame s)\<lparr>batchers := batchers s\<rparr> \<Longrightarrow> batcher_of s' = batcher_of s"
  using frame_batchers [where s' = s' and s = s and m = "batchers s"] by (intro ext) (simp add: batcher_of_def fresh_batcher_def split: option.split)

lemma single_ready_update:
  assumes "single_ready ser c0 k s" "frame s' = (frame s)\<lparr>batchers := m\<rparr>"
    and "m = batchers s \<or> (\<exists>b'. m = mput cid b' (batchers s) \<and> good_batcher s b')"
  shows "single_ready ser c0 k s'"
proof -
  have "good_batcher s' b = good_batcher s b" for b
    using frame_batchers [OF assms(2)] by (simp add: good_batcher_def)
  moreover have "good_batcher s (batcher_of s' c)" for c
    using assms batcher_of_update [where s' = s' and s = s and cid = cid] batcher_of_same [where s' = s' and s = s]
    by (auto simp: single_ready_def working_def)
  ultimately show ?thesis
    using assms(1) frame_batchers [OF assms(2)] by (simp add: single_ready_def working_def)
qed

text \<open>The EOF goes to the same keys; it is no data message.\<close>

lemma single_send_eof_works:
  assumes "outcomes (out s) = []"
  shows "single_send_eof cid n eof s =
    (s\<lparr>out := (out s)\<lparr>sent := sent (out s) @
       map (\<lambda>k. (k, eof_message cid n (namespaced_id eof (namespace s)))) (dest s cid)\<rparr>\<rparr>, None)"
  using assms
  by (auto simp: single_send_eof_def on_output_def zoom_def then_act_def call_no_faults single_publish_def
      send_all_works publish_works dest_def split: option.splits)

context stage_link
begin

lemma arrived_chunks:
  "concat (map items_of (filter (\<lambda>m. ml_type m = target) (filter (\<lambda>m. ml_client m = c)
     (map (\<lambda>(i, items). serialize c i items) cs)))) = concat (map snd cs)"
proof (induction cs)
  case (Cons e cs)
  obtain i xs where e: "e = (i, xs)" by fastforce
  show ?case unfolding e list.map prod.case using Cons by (simp add: link_type link_client link_items)
qed simp

end

sublocale stage_link \<subseteq> single: sender_view single_ops "\<lambda>cid x. if cid = c0 then [x] else []"
  "arrived_items target items_of c0 k" "waiting_items c0" c0 "\<lambda>_. True" "single_ready serialize c0 k"
  for c0 k
proof unfold_locales
  fix s :: "('a, 'a list) single_sender" and cid x bid
  assume r: "single_ready serialize c0 k s"
  then have w: "working s" "distinct (dest s c0)" "k \<in> set (dest s c0)" "serializer s = serialize"
    "s_wrapper s = (\<lambda>xs. xs)" by (simp_all add: single_ready_def)
  show "\<exists>s'. sender_add single_ops cid x bid s = (s', None) \<and> single_ready serialize c0 k s' \<and>
      arrived_items target items_of c0 k s' @ waiting_items c0 s' =
      arrived_items target items_of c0 k s @ waiting_items c0 s @ (if cid = c0 then [x] else [])"
  proof (cases "cid = c0")
    case True
    from single_add_result [OF w(1-3), of x bid] obtain s' b' cs where s':
      "single_add c0 x bid s = (s', None)" "frame s' = (frame s)\<lparr>batchers := mput c0 b' (batchers s)\<rparr>"
      "good_batcher s b'" "concat (map snd cs) @ batchItems (batch b') = waiting_items c0 s @ [x]"
      "received k (out s') = received k (out s) @ map (\<lambda>(i, items). serializer s c0 i (s_wrapper s items)) cs"
      by blast
    have "single_ready serialize c0 k s'" using single_ready_update [OF r s'(2)] s'(3) by blast
    moreover have "waiting_items c0 s' = batchItems (batch b')"
      using batcher_of_update [OF s'(2)] by (simp add: waiting_items_def)
    moreover have "arrived_items target items_of c0 k s' = arrived_items target items_of c0 k s @ concat (map snd cs)"
      using s'(5) arrived_chunks [of c0 cs] by (simp add: arrived_items_def received_of_def w)
    ultimately show ?thesis using s'(1,4) True by (intro exI [of _ s']) (simp add: single_ops_def)
  next
    case False
    have cl: "ml_client (serializer s cid i v) = cid" for i v by (simp add: w link_client)
    from single_add_other [OF w(1) False cl, of x bid k] obtain s' b' where s':
      "single_add cid x bid s = (s', None)" "frame s' = (frame s)\<lparr>batchers := mput cid b' (batchers s)\<rparr>"
      "good_batcher s b'" "received_of c0 k (out s') = received_of c0 k (out s)" by blast
    have "single_ready serialize c0 k s'" using single_ready_update [OF r s'(2)] s'(3) by blast
    moreover have "waiting_items c0 s' = waiting_items c0 s"
      using batcher_of_update [OF s'(2)] False by (simp add: waiting_items_def)
    ultimately show ?thesis
      using s'(1,4) False by (intro exI [of _ s']) (simp add: single_ops_def arrived_items_def)
  qed
next
  fix s :: "('a, 'a list) single_sender" and cid
  assume r: "single_ready serialize c0 k s"
  then have w: "working s" "distinct (dest s c0)" "k \<in> set (dest s c0)" "serializer s = serialize"
    "s_wrapper s = (\<lambda>xs. xs)" by (simp_all add: single_ready_def)
  show "\<exists>s'. sender_flush single_ops cid s = (s', None) \<and> single_ready serialize c0 k s' \<and>
      arrived_items target items_of c0 k s' @ waiting_items c0 s' =
      arrived_items target items_of c0 k s @ waiting_items c0 s \<and> (cid = c0 \<longrightarrow> waiting_items c0 s' = [])"
  proof (cases "cid = c0")
    case True
    from single_flush_own [OF w(1-3)] obtain s' m cs where s':
      "single_flush c0 s = (s', None)" "frame s' = (frame s)\<lparr>batchers := m\<rparr>"
      "m = batchers s \<and> mget m c0 = None \<or> (\<exists>b'. m = mput c0 b' (batchers s) \<and> good_batcher s b' \<and> batchItems (batch b') = [])"
      "concat (map snd cs) = waiting_items c0 s"
      "received k (out s') = received k (out s) @ map (\<lambda>(i, items). serializer s c0 i (s_wrapper s items)) cs"
      by blast
    have "single_ready serialize c0 k s'" using single_ready_update [OF r s'(2)] s'(3) by blast
    moreover have "waiting_items c0 s' = []"
      using s'(3) frame_batchers [OF s'(2)]
      by (auto simp: waiting_items_def batcher_of_def mget_mput)
    moreover have "arrived_items target items_of c0 k s' = arrived_items target items_of c0 k s @ concat (map snd cs)"
      using s'(5) arrived_chunks [of c0 cs] by (simp add: arrived_items_def received_of_def w)
    ultimately show ?thesis using s'(1,4) True by (intro exI [of _ s']) (simp add: single_ops_def)
  next
    case False
    have cl: "ml_client (serializer s cid i v) = cid" for i v by (simp add: w link_client)
    from single_flush_other [OF w(1) False cl, of k] obtain s' m where s':
      "single_flush cid s = (s', None)" "frame s' = (frame s)\<lparr>batchers := m\<rparr>"
      "m = batchers s \<or> (\<exists>b'. m = mput cid b' (batchers s) \<and> good_batcher s b')"
      "received_of c0 k (out s') = received_of c0 k (out s)" by blast
    have "single_ready serialize c0 k s'" using single_ready_update [OF r s'(2) s'(3)] .
    moreover have "waiting_items c0 s' = waiting_items c0 s"
      using s'(2,3) batcher_of_update [where s' = s' and s = s and cid = cid] batcher_of_same [where s' = s' and s = s] False
      by (auto simp: waiting_items_def)
    ultimately show ?thesis
      using s'(1,4) False by (intro exI [of _ s']) (simp add: single_ops_def arrived_items_def)
  qed
next
  fix s :: "('a, 'a list) single_sender" and cid n eof
  assume r: "single_ready serialize c0 k s"
  let ?s' = "s\<lparr>out := (out s)\<lparr>sent := sent (out s) @
       map (\<lambda>k. (k, eof_message cid n (namespaced_id eof (namespace s)))) (dest s cid)\<rparr>\<rparr>"
  have e: "single_send_eof cid n eof s = (?s', None)"
    using r by (intro single_send_eof_works) (simp add: single_ready_def working_def)
  have f: "frame ?s' = (frame s)\<lparr>batchers := batchers s\<rparr>" by (cases s) (simp add: frame_def)
  have "arrived_items target items_of c0 k ?s' = arrived_items target items_of c0 k s"
    using link_data by (simp add: arrived_items_def received_of_def received_def)
      (auto simp: eof_message_def proto_message_def)
  moreover have "waiting_items c0 ?s' = waiting_items c0 s"
    using batcher_of_same [OF f] by (simp add: waiting_items_def)
  moreover have "single_ready serialize c0 k ?s'" using single_ready_update [OF r f] by simp
  ultimately show "\<exists>s'. sender_eof single_ops cid n eof s = (s', None) \<and> single_ready serialize c0 k s' \<and>
      arrived_items target items_of c0 k s' = arrived_items target items_of c0 k s \<and>
      waiting_items c0 s' = waiting_items c0 s"
    using e by (intro exI [of _ ?s']) (simp add: single_ops_def)
qed simp

section \<open>Properties\<close>

text \<open>
  A stage receives what the previous stage sent. A worker whose output works adds the items \<open>xs\<close>
  of one batch for a client and flushes; the next stage, which reads the queue \<open>k\<close> among those the
  output publishes to, then finds behind the items it had for this client exactly \<open>xs\<close>, in order,
  none lost and none twice, however the batches were cut. (Shown for the period filter's output;
  every link of the pipeline that is interpreted in \<open>Messages\<close> satisfies it.)
\<close>

theorem next_stage_receives_the_items:
  assumes "outcomes (out s) = []" "keyResolver s = None" "distinct (keys (out s))" "k \<in> set (keys (out s))"
    and "serializer s = insert_scatter_gather_batch" "s_wrapper s = (\<lambda>xs. xs)" "\<forall>x. 0 < s_sizer s x"
    and "\<forall>c. good_batcher s (batcher_of s c)" "waiting_items cid s = []"
  shows "\<exists>s'. then_act (for_each (\<lambda>x. single_add cid x bid) xs) (single_flush cid) s = (s', None) \<and>
    waiting_items cid s' = [] \<and>
    concat (map get_scatter_gather_batch_items
      (filter (\<lambda>m. ml_type m = MT_SCATTERGATHER_BATCH) (received_of cid k (out s')))) =
    concat (map get_scatter_gather_batch_items
      (filter (\<lambda>m. ml_type m = MT_SCATTERGATHER_BATCH) (received_of cid k (out s)))) @ xs"
proof -
  have r: "single_ready insert_scatter_gather_batch cid k s"
    using assms by (simp add: single_ready_def working_def dest_def)
  show ?thesis
    using scatter_gathers.single.adds_flush_view [OF r assms(9), of bid xs]
    by (auto simp: single_ops_def arrived_items_def)
qed

theorem next_stage_receives_the_items_witness:
  "\<exists>s'. then_act (for_each (\<lambda>x. single_add ''c'' x ''b'')
        [\<lparr>sg_from_bank = 1, sg_to_bank = 2, sg_account = ''x'', sg_to_account = ''y''\<rparr>]) (single_flush ''c'')
      (new_single_sender \<lparr>outcomes = [], keys = [''q''], sent = []\<rparr> (\<lambda>xs. xs) (\<lambda>_. 5) 8
        insert_scatter_gather_batch ''n'') = (s', None) \<and>
    concat (map get_scatter_gather_batch_items
      (filter (\<lambda>m. ml_type m = MT_SCATTERGATHER_BATCH) (received_of ''c'' ''q'' (out s')))) =
      [\<lparr>sg_from_bank = 1, sg_to_bank = 2, sg_account = ''x'', sg_to_account = ''y''\<rparr>]"
  using next_stage_receives_the_items [of "new_single_sender \<lparr>outcomes = [], keys = [''q''], sent = []\<rparr> (\<lambda>xs. xs) (\<lambda>_. 5) 8
        insert_scatter_gather_batch ''n''" "''q''" "''c''" "''b''"
        "[\<lparr>sg_from_bank = 1, sg_to_bank = 2, sg_account = ''x'', sg_to_account = ''y''\<rparr>]"]
  by (auto simp: new_single_sender_def batcher_of_def waiting_items_def received_of_def received_def)

end
