(* ===== verification/ClientState.thy ===== *)
theory ClientState
  imports GoStrings "HOL-Library.Char_ord" "HOL-Library.List_Lexorder"
begin

text \<open>
  \<open>internal/workers/coordinator/clientState.go\<close>: what one worker knows about the batches and
  the EOFs of one client. \<open>ownBatches\<close> are the batches this worker processed, \<open>peerBatches\<close>
  those its peers reported, and likewise for the EOFs. The totals count every batch identifier
  once, wherever it was seen; the EOF barrier is open when enough different EOFs are known and
  the processed total has reached the expected total. All counters are \<open>uint64\<close> and wrap.
\<close>

section \<open>State\<close>

record batch_record =
  BatchID :: string
  Processed :: u64
  Survivors :: u64

record client_state =
  ownBatches :: "(string, batch_record) gomap"
  peerBatches :: "(int, (string, batch_record) gomap) gomap"
  ownEOFs :: "(string, u64) gomap"
  peerEOFs :: "(int, (string, u64) gomap) gomap"
  lastEOFID :: string
  flushed :: bool

definition new_client_state :: client_state where
  "new_client_state = \<lparr>ownBatches = [], peerBatches = [], ownEOFs = [], peerEOFs = [],
     lastEOFID = [], flushed = False\<rparr>"

section \<open>Operations\<close>

definition has_own_batch :: "string \<Rightarrow> client_state \<Rightarrow> bool" where
  "has_own_batch bid cs \<longleftrightarrow> mhas (ownBatches cs) bid"

definition add_own_batch :: "batch_record \<Rightarrow> client_state \<Rightarrow> client_state" where
  "add_own_batch r cs = cs\<lparr>ownBatches := mput (BatchID r) r (ownBatches cs)\<rparr>"

definition add_peer_batch :: "int \<Rightarrow> batch_record \<Rightarrow> client_state \<Rightarrow> client_state" where
  "add_peer_batch peer r cs =
     cs\<lparr>peerBatches := nput peer (BatchID r) r (peerBatches cs)\<rparr>"

definition has_own_eof :: "string \<Rightarrow> client_state \<Rightarrow> bool" where
  "has_own_eof eof cs \<longleftrightarrow> mhas (ownEOFs cs) eof"

definition has_peer_eof :: "int \<Rightarrow> string \<Rightarrow> client_state \<Rightarrow> bool" where
  "has_peer_eof peer eof cs \<longleftrightarrow> mhas (mget0 [] (peerEOFs cs) peer) eof"

definition all_eof_ids :: "client_state \<Rightarrow> string list" where
  "all_eof_ids cs = mkeys (ownEOFs cs) @ concat (map (\<lambda>(peer, es). mkeys es) (peerEOFs cs))"

text \<open>
  \<open>getLastEOFID\<close> sorts the identifiers and takes the last one. \<open>sort.Strings\<close> compares strings
  by their bytes, which is the lexicographic order of \<open>List_Lexorder\<close> over \<open>Char_ord\<close>. It is
  called only after an EOF was added, so the list it indexes is not empty.
\<close>

definition get_last_eof_id :: "client_state \<Rightarrow> client_state" where
  "get_last_eof_id cs = cs\<lparr>lastEOFID := last (sort (all_eof_ids cs))\<rparr>"

definition add_own_eof :: "string \<Rightarrow> u64 \<Rightarrow> client_state \<Rightarrow> client_state" where
  "add_own_eof eof n cs = get_last_eof_id (cs\<lparr>ownEOFs := mput eof n (ownEOFs cs)\<rparr>)"

definition add_peer_eof :: "int \<Rightarrow> string \<Rightarrow> u64 \<Rightarrow> client_state \<Rightarrow> client_state" where
  "add_peer_eof peer eof n cs =
     get_last_eof_id (cs\<lparr>peerEOFs := nput peer eof n (peerEOFs cs)\<rparr>)"

text \<open>
  \<open>totals\<close>: one pass over the own batches, which are all counted, and one over the batches of
  each peer, which are counted unless their identifier was counted before.
\<close>

type_synonym count_acc = "string set \<times> u64 \<times> u64"

definition count_own :: "string \<times> batch_record \<Rightarrow> count_acc \<Rightarrow> count_acc" where
  "count_own = (\<lambda>(bid, r) (counted, p, s). (insert bid counted, p + Processed r, s + Survivors r))"

definition count_peer :: "string \<times> batch_record \<Rightarrow> count_acc \<Rightarrow> count_acc" where
  "count_peer = (\<lambda>(bid, r) (counted, p, s).
     if bid \<in> counted then (counted, p, s)
     else (insert bid counted, p + Processed r, s + Survivors r))"

definition totals :: "client_state \<Rightarrow> u64 \<times> u64" where
  "totals cs =
     (let acc1 = fold count_own (ownBatches cs) ({}, 0, 0);
          acc2 = fold (\<lambda>(peer, bs) acc. fold count_peer bs acc) (peerBatches cs) acc1
      in snd acc2)"

definition merge_eof :: "string \<times> u64 \<Rightarrow> (string, u64) gomap \<Rightarrow> (string, u64) gomap" where
  "merge_eof = (\<lambda>(eof, n) counted. if mhas counted eof then counted else mput eof n counted)"

definition counted_eofs :: "client_state \<Rightarrow> (string, u64) gomap" where
  "counted_eofs cs = fold (\<lambda>(peer, es) acc. fold merge_eof es acc) (peerEOFs cs)
     (fold (\<lambda>(eof, n) acc. mput eof n acc) (ownEOFs cs) [])"

definition eof_totals :: "client_state \<Rightarrow> u32 \<times> u64" where
  "eof_totals cs =
     (let counted = counted_eofs cs
      in (word_of_nat (length counted), fold (\<lambda>(eof, n) t. t + n) counted 0))"

definition has_all_eofs :: "u32 \<Rightarrow> client_state \<Rightarrow> bool" where
  "has_all_eofs expected cs \<longleftrightarrow> fst (eof_totals cs) \<ge> expected"

definition is_ready_to_flush :: "u32 \<Rightarrow> client_state \<Rightarrow> bool" where
  "is_ready_to_flush expected cs \<longleftrightarrow>
     \<not> flushed cs \<and> has_all_eofs expected cs \<and> fst (totals cs) \<ge> snd (eof_totals cs)"

section \<open>Well-formed states\<close>

definition wf_client :: "client_state \<Rightarrow> bool" where
  "wf_client cs \<longleftrightarrow>
     wf_map (ownBatches cs) \<and> wf_nested (peerBatches cs) \<and>
     wf_map (ownEOFs cs) \<and> wf_nested (peerEOFs cs)"

lemma wf_new_client_state [simp]: "wf_client new_client_state"
  by (simp add: wf_client_def new_client_state_def)

lemma wf_add_own_batch [intro]: "wf_client cs \<Longrightarrow> wf_client (add_own_batch r cs)"
  by (simp add: wf_client_def add_own_batch_def)

lemma wf_add_peer_batch [intro]: "wf_client cs \<Longrightarrow> wf_client (add_peer_batch p r cs)"
  by (simp add: wf_client_def add_peer_batch_def)

lemma wf_add_own_eof [intro]: "wf_client cs \<Longrightarrow> wf_client (add_own_eof e n cs)"
  by (simp add: wf_client_def add_own_eof_def get_last_eof_id_def)

lemma wf_add_peer_eof [intro]: "wf_client cs \<Longrightarrow> wf_client (add_peer_eof p e n cs)"
  by (simp add: wf_client_def add_peer_eof_def get_last_eof_id_def)

section \<open>The totals as sums over the known batches\<close>

text \<open>
  Every report of a batch, own reports first; \<open>known\<close> is what the state takes a batch
  identifier to stand for.
\<close>

definition reports :: "client_state \<Rightarrow> (string \<times> batch_record) list" where
  "reports cs = ownBatches cs @ entries (peerBatches cs)"

definition known :: "client_state \<Rightarrow> string \<rightharpoonup> batch_record" where
  "known cs = map_of (reports cs)"

definition sum_known :: "('r \<Rightarrow> u64) \<Rightarrow> (string \<rightharpoonup> 'r) \<Rightarrow> u64" where
  "sum_known f m = (\<Sum>b \<in> dom m. f (the (m b)))"

lemma fold_nested: "fold (\<lambda>(p, bs) acc. fold f bs acc) m acc = fold f (entries m) acc"
  by (induction m arbitrary: acc) (auto simp: entries_def)

lemma fold_count_peer:
  "fold count_peer es (C, p, s) =
     (C \<union> fst ` set es,
      p + (\<Sum>b \<in> fst ` set es - C. Processed (the (map_of es b))),
      s + (\<Sum>b \<in> fst ` set es - C. Survivors (the (map_of es b))))"
proof (induction es arbitrary: C p s)
  case Nil
  then show ?case by simp
next
  case (Cons e es)
  obtain b r where e: "e = (b, r)" by fastforce
  have same: "(\<Sum>x \<in> fst ` set es - insert b C. f (the (map_of ((b, r) # es) x))) =
      (\<Sum>x \<in> fst ` set es - insert b C. f (the (map_of es x)))" for f :: "batch_record \<Rightarrow> u64"
    by (rule sum.cong) auto
  show ?case
  proof (cases "b \<in> C")
    case True
    then have "fst ` set (e # es) - C = fst ` set es - insert b C" "insert b C = C"
      "C \<union> fst ` set (e # es) = C \<union> fst ` set es"
      by (auto simp: e)
    moreover have "fold count_peer (e # es) (C, p, s) = fold count_peer es (C, p, s)"
      using True by (simp add: e count_peer_def)
    ultimately show ?thesis
      using same Cons by (simp add: e)
  next
    case False
    then have d: "fst ` set (e # es) - C = insert b (fst ` set es - insert b C)"
      by (auto simp: e)
    have "fold count_peer (e # es) (C, p, s) =
        fold count_peer es (insert b C, p + Processed r, s + Survivors r)"
      using False by (simp add: e count_peer_def)
    with d same Cons show ?thesis
      by (simp add: e ac_simps)
  qed
qed

lemma fold_count_own:
  assumes "distinct (map fst es)" "fst ` set es \<inter> C = {}"
  shows "fold count_own es (C, p, s) = fold count_peer es (C, p, s)"
  using assms
proof (induction es arbitrary: C p s)
  case (Cons e es)
  obtain b r where e: "e = (b, r)" by fastforce
  have "fst ` set es \<inter> insert b C = {}"
    using Cons.prems by (auto simp: e)
  then show ?case
    using Cons by (simp add: e count_own_def count_peer_def)
qed simp

text \<open>The refinement: the two passes of \<open>totals\<close> compute the sums over the known batches.\<close>

lemma totals_known:
  assumes "wf_client cs"
  shows "totals cs = (sum_known Processed (known cs), sum_known Survivors (known cs))"
proof -
  have "fold count_own (ownBatches cs) ({}, 0, 0) = fold count_peer (ownBatches cs) ({}, 0, 0)"
    using assms by (intro fold_count_own) (simp_all add: wf_client_def wf_map_def)
  then have "totals cs = snd (fold count_peer (reports cs) ({}, 0, 0))"
    by (simp add: totals_def fold_nested reports_def)
  also have "\<dots> = (sum_known Processed (known cs), sum_known Survivors (known cs))"
    by (simp add: fold_count_peer sum_known_def known_def dom_map_of_conv_image_fst)
  finally show ?thesis .
qed

section \<open>The EOF totals as sums over the known EOFs\<close>

definition eof_reports :: "client_state \<Rightarrow> (string \<times> u64) list" where
  "eof_reports cs = ownEOFs cs @ entries (peerEOFs cs)"

definition known_eofs :: "client_state \<Rightarrow> string \<rightharpoonup> u64" where
  "known_eofs cs = map_of (eof_reports cs)"

lemma fold_merge_eof:
  "wf_map acc \<Longrightarrow> wf_map (fold merge_eof es acc) \<and>
     map_of (fold merge_eof es acc) = map_of es ++ map_of acc"
proof (induction es arbitrary: acc)
  case (Cons e es)
  obtain x n where e: "e = (x, n)" by fastforce
  show ?case
    using Cons by (auto simp: e merge_eof_def mhas_def map_add_def mget_mput fun_eq_iff split: option.splits)
qed simp

lemma fold_mput:
  "wf_map acc \<Longrightarrow> distinct (map fst es) \<Longrightarrow>
     wf_map (fold (\<lambda>(x, n) acc. mput x n acc) es acc) \<and>
     map_of (fold (\<lambda>(x, n) acc. mput x n acc) es acc) = map_of acc ++ map_of es"
proof (induction es arbitrary: acc)
  case (Cons e es)
  obtain x n where e: "e = (x, n)" by fastforce
  have "map_of es x = None"
    using Cons.prems(2) by (simp add: e map_of_eq_None_iff)
  then show ?case
    using Cons by (auto simp: e map_add_def mget_mput fun_eq_iff split: option.splits)
qed simp

lemma counted_eofs_known:
  assumes "wf_client cs"
  shows "wf_map (counted_eofs cs) \<and> map_of (counted_eofs cs) = known_eofs cs"
proof -
  let ?own = "fold (\<lambda>(eof, n) acc. mput eof n acc) (ownEOFs cs) []"
  have "wf_map ?own" "map_of ?own = map_of (ownEOFs cs)"
    using fold_mput [of "[]" "ownEOFs cs"] assms by (auto simp: wf_client_def wf_map_def)
  then show ?thesis
    using fold_merge_eof [of ?own "entries (peerEOFs cs)"]
    by (simp add: counted_eofs_def fold_nested known_eofs_def eof_reports_def)
qed

lemma fold_plus: "fold (\<lambda>(x, n) t. t + n) es t = t + sum_list (map snd es)" for t :: u64
  by (induction es arbitrary: t) (auto simp: ac_simps)

lemma sum_list_wf: "wf_map m \<Longrightarrow> sum_list (map snd m) = sum_known (\<lambda>n. n) (map_of m)" for m :: "(string, u64) gomap"
proof (induction m)
  case (Cons e m)
  obtain x n where e: "e = (x, n)" by fastforce
  have x: "x \<notin> dom (map_of m)" and m: "wf_map m"
    using Cons.prems by (auto simp: e wf_map_def dom_map_of_conv_image_fst)
  have "sum_known (\<lambda>n. n) (map_of (e # m)) = n + (\<Sum>b \<in> dom (map_of m). the (map_of (e # m) b))"
    using x by (simp add: sum_known_def e finite_dom_map_of)
  also have "(\<Sum>b \<in> dom (map_of m). the (map_of (e # m) b)) = sum_known (\<lambda>n. n) (map_of m)"
    unfolding sum_known_def using x by (intro sum.cong) (auto simp: e)
  finally show ?case
    using Cons.IH [OF m] by (simp add: e)
qed (simp add: sum_known_def)

lemma eof_totals_known:
  assumes "wf_client cs"
  shows "eof_totals cs = (of_nat (card (dom (known_eofs cs))), sum_known (\<lambda>n. n) (known_eofs cs))"
proof -
  have w: "wf_map (counted_eofs cs)" and k: "map_of (counted_eofs cs) = known_eofs cs"
    using counted_eofs_known [OF assms] by auto
  have "length (counted_eofs cs) = card (fst ` set (counted_eofs cs))"
    using w by (metis wf_map_def distinct_card length_map list.set_map)
  also have "fst ` set (counted_eofs cs) = dom (known_eofs cs)"
    by (simp add: k [symmetric] dom_map_of_conv_image_fst)
  finally show ?thesis
    using w k by (simp add: eof_totals_def Let_def fold_plus sum_list_wf)
qed

section \<open>Learning facts in any order, any number of times\<close>

text \<open>
  What a worker learns about a client: a batch it processed, a batch or an EOF a peer reported,
  an EOF it received. \<open>learn\<close> is the operation the coordinator applies for each.
\<close>

datatype fact =
    OwnBatch batch_record
  | PeerBatch int batch_record
  | OwnEOF string u64
  | PeerEOF int string u64

fun learn :: "fact \<Rightarrow> client_state \<Rightarrow> client_state" where
  "learn (OwnBatch r) cs = add_own_batch r cs"
| "learn (PeerBatch p r) cs = add_peer_batch p r cs"
| "learn (OwnEOF e n) cs = add_own_eof e n cs"
| "learn (PeerEOF p e n) cs = add_peer_eof p e n cs"

definition learn_all :: "fact list \<Rightarrow> client_state" where
  "learn_all xs = fold learn xs new_client_state"

fun fact_batches :: "fact \<Rightarrow> string set" where
  "fact_batches (OwnBatch r) = {BatchID r}"
| "fact_batches (PeerBatch p r) = {BatchID r}"
| "fact_batches _ = {}"

fun fact_eofs :: "fact \<Rightarrow> string set" where
  "fact_eofs (OwnEOF e n) = {e}"
| "fact_eofs (PeerEOF p e n) = {e}"
| "fact_eofs _ = {}"

text \<open>
  Facts agree with a truth when every batch and every EOF is always reported with the same
  contents: \<open>B\<close> gives the record of a batch, \<open>E\<close> the expected total of an EOF.
\<close>

fun true_fact :: "(string \<Rightarrow> batch_record) \<Rightarrow> (string \<Rightarrow> u64) \<Rightarrow> fact \<Rightarrow> bool" where
  "true_fact B E (OwnBatch r) = (r = B (BatchID r))"
| "true_fact B E (PeerBatch p r) = (r = B (BatchID r))"
| "true_fact B E (OwnEOF e n) = (n = E e)"
| "true_fact B E (PeerEOF p e n) = (n = E e)"

definition batch_ids :: "fact list \<Rightarrow> string set" where
  "batch_ids xs = (\<Union>x \<in> set xs. fact_batches x)"

definition eof_ids :: "fact list \<Rightarrow> string set" where
  "eof_ids xs = (\<Union>x \<in> set xs. fact_eofs x)"

text \<open>The state after the facts holds exactly the reports of their identifiers.\<close>

definition holds_exactly ::
  "(string \<Rightarrow> batch_record) \<Rightarrow> (string \<Rightarrow> u64) \<Rightarrow> string set \<Rightarrow> string set \<Rightarrow> client_state \<Rightarrow> bool" where
  "holds_exactly B E bs es cs \<longleftrightarrow>
     wf_client cs \<and> set (reports cs) = (\<lambda>b. (b, B b)) ` bs \<and>
     set (eof_reports cs) = (\<lambda>e. (e, E e)) ` es"

lemma all_eof_ids_reports: "all_eof_ids cs = map fst (eof_reports cs)"
  by (simp add: all_eof_ids_def eof_reports_def entries_def map_concat comp_def case_prod_unfold)

lemma sorted_le_last: "sorted xs \<Longrightarrow> x \<in> set xs \<Longrightarrow> x \<le> last xs"
  by (induction xs) (auto split: if_splits)

lemma last_sort_Max: "xs \<noteq> [] \<Longrightarrow> last (sort xs) = Max (set xs)" for xs :: "string list"
proof -
  assume ne: "xs \<noteq> []"
  then have "sort xs \<noteq> []" by (metis set_empty set_sort)
  then have "last (sort xs) \<in> set xs" by (metis last_in_set set_sort)
  then show ?thesis
    using sorted_le_last [OF sorted_sort, of _ xs] by (intro Max_eqI [symmetric]) auto
qed

lemma lastEOFID_get_last:
  "eof_reports cs \<noteq> [] \<Longrightarrow> lastEOFID (get_last_eof_id cs) = Max (fst ` set (eof_reports cs))"
  using last_sort_Max [of "all_eof_ids cs"]
  by (simp add: get_last_eof_id_def all_eof_ids_reports)

lemma holds_exactly_learn:
  assumes "holds_exactly B E bs es cs" "true_fact B E x"
  shows "holds_exactly B E (bs \<union> fact_batches x) (es \<union> fact_eofs x) (learn x cs)"
proof -
  have wf: "wf_map (ownBatches cs)" "wf_nested (peerBatches cs)" "wf_map (ownEOFs cs)" "wf_nested (peerEOFs cs)"
    and R: "set (ownBatches cs) \<union> set (entries (peerBatches cs)) = (\<lambda>b. (b, B b)) ` bs"
    and S: "set (ownEOFs cs) \<union> set (entries (peerEOFs cs)) = (\<lambda>e. (e, E e)) ` es"
    using assms(1) by (simp_all add: holds_exactly_def wf_client_def reports_def eof_reports_def)
  have agree: "v = B b" if "(b, v) \<in> set (ownBatches cs) \<or> (b, v) \<in> set (entries (peerBatches cs))" for b v
    using that R by auto
  have agree': "v = E e" if "(e, v) \<in> set (ownEOFs cs) \<or> (e, v) \<in> set (entries (peerEOFs cs))" for e v
    using that S by auto
  have wf': "wf_client (learn x cs)"
    using assms(1) by (cases x) (auto simp: holds_exactly_def)
  show ?thesis
  proof (cases x)
    case (OwnBatch r)
    then have rB: "r = B (BatchID r)" using assms(2) by simp
    have "set (mput (BatchID r) r (ownBatches cs)) = insert (BatchID r, r) (set (ownBatches cs))"
      by (rule set_mput_agree [OF wf(1)]) (metis agree rB)
    with OwnBatch assms(2) R S wf' show ?thesis
      by (auto simp: holds_exactly_def reports_def eof_reports_def add_own_batch_def)
  next
    case (PeerBatch p r)
    then have rB: "r = B (BatchID r)" using assms(2) by simp
    have "set (entries (nput p (BatchID r) r (peerBatches cs))) =
        insert (BatchID r, r) (set (entries (peerBatches cs)))"
      by (rule set_entries_nput [OF wf(2)]) (metis agree rB)
    with PeerBatch assms(2) R S wf' show ?thesis
      by (auto simp: holds_exactly_def reports_def eof_reports_def add_peer_batch_def)
  next
    case (OwnEOF e n)
    then have "set (mput e n (ownEOFs cs)) = insert (e, n) (set (ownEOFs cs))"
      using assms(2) agree' by (intro set_mput_agree wf) auto
    with OwnEOF assms(2) R S wf' show ?thesis
      by (auto simp: holds_exactly_def reports_def eof_reports_def add_own_eof_def get_last_eof_id_def)
  next
    case (PeerEOF p e n)
    then have "set (entries (nput p e n (peerEOFs cs))) = insert (e, n) (set (entries (peerEOFs cs)))"
      using assms(2) agree' by (intro set_entries_nput wf) auto
    with PeerEOF assms(2) R S wf' show ?thesis
      by (auto simp: holds_exactly_def reports_def eof_reports_def add_peer_eof_def get_last_eof_id_def)
  qed
qed

lemma holds_exactly_learn_all:
  assumes "\<forall>x \<in> set xs. true_fact B E x"
  shows "holds_exactly B E (batch_ids xs) (eof_ids xs) (learn_all xs)"
  using assms
proof (induction xs rule: rev_induct)
  case Nil
  then show ?case
    by (simp add: holds_exactly_def learn_all_def batch_ids_def eof_ids_def new_client_state_def
        reports_def eof_reports_def entries_def wf_client_def)
next
  case (snoc x xs)
  then have "holds_exactly B E (batch_ids xs) (eof_ids xs) (learn_all xs)"
    by simp
  from holds_exactly_learn [OF this, of x] snoc.prems show ?case
    by (simp add: learn_all_def batch_ids_def eof_ids_def Un_commute)
qed

text \<open>The same with the identifier of the last EOF; it is what every operation keeps.\<close>

definition good_with ::
  "(string \<Rightarrow> batch_record) \<Rightarrow> (string \<Rightarrow> u64) \<Rightarrow> string set \<Rightarrow> string set \<Rightarrow> client_state \<Rightarrow> bool" where
  "good_with B E bs es cs \<longleftrightarrow>
     holds_exactly B E bs es cs \<and> (es \<noteq> {} \<longrightarrow> lastEOFID cs = Max es)"

lemma good_with_learn:
  assumes "good_with B E bs es cs" "true_fact B E x"
  shows "good_with B E (bs \<union> fact_batches x) (es \<union> fact_eofs x) (learn x cs)"
proof -
  have h: "holds_exactly B E (bs \<union> fact_batches x) (es \<union> fact_eofs x) (learn x cs)"
    using holds_exactly_learn assms by (simp add: good_with_def)
  then have e: "fst ` set (eof_reports (learn x cs)) = es \<union> fact_eofs x"
    by (simp add: holds_exactly_def image_image)
  show ?thesis
  proof (cases "fact_eofs x = {}")
    case True
    then have "lastEOFID (learn x cs) = lastEOFID cs"
      by (cases x) (simp_all add: add_own_batch_def add_peer_batch_def)
    with True h assms(1) show ?thesis by (simp add: good_with_def)
  next
    case False
    then obtain cs' where c: "learn x cs = get_last_eof_id cs'"
      by (cases x) (auto simp: add_own_eof_def add_peer_eof_def)
    then have "eof_reports (learn x cs) = eof_reports cs'"
      by (simp add: get_last_eof_id_def eof_reports_def)
    with e c False have "lastEOFID (learn x cs) = Max (es \<union> fact_eofs x)"
      using lastEOFID_get_last [of cs'] by force
    with h show ?thesis by (simp add: good_with_def)
  qed
qed

lemma good_with_new [simp]: "good_with B E {} {} new_client_state"
  by (simp add: good_with_def holds_exactly_def new_client_state_def reports_def eof_reports_def
      entries_def wf_client_def)

lemma good_with_flushed [simp]: "good_with B E bs es (cs\<lparr>flushed := f\<rparr>) = good_with B E bs es cs"
  by (simp add: good_with_def holds_exactly_def wf_client_def reports_def eof_reports_def)

lemma good_with_learn_all:
  "\<forall>x \<in> set xs. true_fact B E x \<Longrightarrow> good_with B E (batch_ids xs) (eof_ids xs) (learn_all xs)"
proof (induction xs rule: rev_induct)
  case (snoc x xs)
  then show ?case
    using good_with_learn [of B E "batch_ids xs" "eof_ids xs" "learn_all xs" x]
    by (simp add: learn_all_def batch_ids_def eof_ids_def Un_commute)
qed (simp add: learn_all_def batch_ids_def eof_ids_def)

lemma known_exactly:
  assumes "set es = (\<lambda>b. (b, B b)) ` bs"
  shows "map_of es = (\<lambda>b. if b \<in> bs then Some (B b) else None)"
proof
  fix b
  show "map_of es b = (if b \<in> bs then Some (B b) else None)"
  proof (cases "map_of es b")
    case None
    then have "b \<notin> fst ` set es" by (simp add: map_of_eq_None_iff)
    with assms None show ?thesis by (simp add: image_image)
  next
    case (Some v)
    then have "(b, v) \<in> set es" by (rule map_of_SomeD)
    with assms Some show ?thesis by auto
  qed
qed

lemma dom_exactly [simp]: "dom (\<lambda>b. if b \<in> bs then Some (B b) else None) = bs"
  by (auto simp: dom_def)

lemma holds_exactly_totals:
  assumes "holds_exactly B E bs es cs"
  shows "totals cs = (\<Sum>b \<in> bs. Processed (B b), \<Sum>b \<in> bs. Survivors (B b))"
    and "eof_totals cs = (of_nat (card es), \<Sum>e \<in> es. E e)"
proof -
  have wf: "wf_client cs" and "known cs = (\<lambda>b. if b \<in> bs then Some (B b) else None)"
    and "known_eofs cs = (\<lambda>e. if e \<in> es then Some (E e) else None)"
    using assms known_exactly [of "reports cs" B bs] known_exactly [of "eof_reports cs" E es]
    by (simp_all add: holds_exactly_def known_def known_eofs_def)
  then show "totals cs = (\<Sum>b \<in> bs. Processed (B b), \<Sum>b \<in> bs. Survivors (B b))"
    and "eof_totals cs = (of_nat (card es), \<Sum>e \<in> es. E e)"
    by (simp_all add: totals_known eof_totals_known sum_known_def)
qed

section \<open>Properties\<close>

text \<open>
  C22. Deduplication. Whatever the order in which a worker learns its batches and its peers'
  reports, however often each is repeated and whoever reports it, \<open>totals\<close> counts every batch
  identifier exactly once (sums of \<open>uint64\<close>, so modulo \<open>2 ^ 64\<close>), as long as a batch is
  always reported with the same counts.
\<close>

theorem totals_count_each_batch_once:
  assumes "\<forall>x \<in> set xs. true_fact B E x"
  shows "totals (learn_all xs) =
    (\<Sum>b \<in> batch_ids xs. Processed (B b), \<Sum>b \<in> batch_ids xs. Survivors (B b))"
  by (rule holds_exactly_totals(1) [OF holds_exactly_learn_all [OF assms]])

theorem totals_count_each_batch_once_witness:
  "totals (learn_all [PeerBatch 1 \<lparr>BatchID = ''a'', Processed = 5, Survivors = 2\<rparr>,
       OwnBatch \<lparr>BatchID = ''b'', Processed = 7, Survivors = 1\<rparr>,
       PeerBatch 2 \<lparr>BatchID = ''a'', Processed = 5, Survivors = 2\<rparr>]) = (12, 3)"
proof -
  let ?B = "\<lambda>b. if b = ''a'' then \<lparr>BatchID = ''a'', Processed = 5, Survivors = 2\<rparr>
      else \<lparr>BatchID = ''b'', Processed = 7, Survivors = 1\<rparr>"
  let ?xs = "[PeerBatch 1 \<lparr>BatchID = ''a'', Processed = 5, Survivors = 2\<rparr>,
       OwnBatch \<lparr>BatchID = ''b'', Processed = 7, Survivors = 1\<rparr>,
       PeerBatch 2 \<lparr>BatchID = ''a'', Processed = 5, Survivors = 2\<rparr>]"
  have h: "\<forall>x \<in> set ?xs. true_fact ?B (\<lambda>_. 0) x" by simp
  have ids: "batch_ids ?xs = {''a'', ''b''}" by (auto simp: batch_ids_def)
  show ?thesis
    using totals_count_each_batch_once [OF h] ids by simp
qed

text \<open>
  The barrier is a function of the facts. A worker that has not flushed is ready exactly when
  it knows at least the expected number of different EOFs and the batches it knows of add up to
  the sum of the EOFs' expected totals; so two workers that know the same facts, in any order and
  multiplicity and from whichever source, take the same decision.
\<close>

theorem barrier_depends_on_facts_only:
  assumes "\<forall>x \<in> set xs. true_fact B E x"
  shows "is_ready_to_flush n (learn_all xs) \<longleftrightarrow>
    n \<le> of_nat (card (eof_ids xs)) \<and>
    (\<Sum>e \<in> eof_ids xs. E e) \<le> (\<Sum>b \<in> batch_ids xs. Processed (B b))"
proof -
  have "flushed (learn x cs) = flushed cs" for x cs
    by (cases x) (simp_all add: add_own_batch_def add_peer_batch_def add_own_eof_def
        add_peer_eof_def get_last_eof_id_def)
  then have "flushed (learn_all xs) = False"
    unfolding learn_all_def by (induction xs rule: rev_induct) (simp_all add: new_client_state_def)
  then show ?thesis
    using holds_exactly_totals [OF holds_exactly_learn_all [OF assms]]
    by (simp add: is_ready_to_flush_def has_all_eofs_def)
qed

theorem barrier_depends_on_facts_only_witness:
  "is_ready_to_flush 1 (learn_all [OwnEOF ''e'' 5, PeerEOF 3 ''e'' 5,
       PeerBatch 1 \<lparr>BatchID = ''a'', Processed = 5, Survivors = 2\<rparr>])"
proof -
  let ?B = "\<lambda>b. \<lparr>BatchID = ''a'', Processed = 5, Survivors = 2\<rparr>"
  let ?xs = "[OwnEOF ''e'' 5, PeerEOF 3 ''e'' 5,
       PeerBatch 1 \<lparr>BatchID = ''a'', Processed = 5, Survivors = 2\<rparr>]"
  have h: "\<forall>x \<in> set ?xs. true_fact ?B (\<lambda>_. 5) x" by simp
  show ?thesis
    using barrier_depends_on_facts_only [OF h, of 1] by (simp add: eof_ids_def batch_ids_def)
qed

text \<open>
  The identifier of the final EOF. After any sequence of facts with at least one EOF,
  \<open>lastEOFID\<close> is the greatest EOF identifier known, in byte order, so it does not depend on the
  order of arrival and is the same on every worker that knows the same EOFs.
\<close>

theorem last_eof_id_is_greatest:
  assumes "\<forall>x \<in> set xs. true_fact B E x" and "eof_ids xs \<noteq> {}"
  shows "lastEOFID (learn_all xs) = Max (eof_ids xs)"
  using good_with_learn_all [OF assms(1)] assms(2) by (simp add: good_with_def)

theorem last_eof_id_is_greatest_witness:
  "lastEOFID (learn_all [OwnEOF ''b'' 5, PeerEOF 3 ''a'' 5]) = Max {''b'', ''a''}"
proof -
  have h: "\<forall>x \<in> set [OwnEOF ''b'' 5, PeerEOF 3 ''a'' 5]. true_fact undefined (\<lambda>_. 5) x"
    "eof_ids [OwnEOF ''b'' 5, PeerEOF 3 ''a'' 5] \<noteq> {}"
    by (simp_all add: eof_ids_def)
  show ?thesis
    using last_eof_id_is_greatest [OF h] by (simp add: eof_ids_def)
qed

end
