(* ===== verification/BatchStorage.thy ===== *)
theory BatchStorage
  imports ClientState
begin

text \<open>
  \<open>internal/workers/coordinator/batchstorage.go\<close>: the three append-only files in which a
  coordinator keeps its own batches, its own EOFs and the clients it has flushed. A file is the
  string of its bytes. A write appends one line or fails and appends nothing; a failed write makes
  the file's \<open>bufio.Writer\<close> return its error for ever (\<open>batchBad\<close> and its companions).
  \<open>NewBatchStorage\<close> opens the files and \<open>Close\<close> closes them: they have no definition.
\<close>

section \<open>State\<close>

definition batchColumns :: nat where
  "batchColumns = 4"

text \<open>\<open>bufio.MaxScanTokenSize\<close>\<close>

definition maxScanToken :: nat where
  "maxScanToken = 65536"

record storage = env +
  batchFile :: string
  eofFile :: string
  flushedFile :: string
  batchBad :: bool
  eofBad :: bool
  flushedBad :: bool

definition empty_storage :: storage where
  "empty_storage = \<lparr>outcomes = [], batchFile = [], eofFile = [], flushedFile = [],
     batchBad = False, eofBad = False, flushedBad = False\<rparr>"

section \<open>Lines\<close>

definition batch_line :: "string \<Rightarrow> batch_record \<Rightarrow> string" where
  "batch_line cid r =
     cid @ BAR # BatchID r @ BAR # show_u64 (Processed r) @ BAR # show_u64 (Survivors r)"

definition eof_line :: "string \<Rightarrow> string \<Rightarrow> u64 \<Rightarrow> string" where
  "eof_line cid eof n = cid @ BAR # eof @ BAR # show_u64 n"

definition flushed_line :: "string \<Rightarrow> string" where
  "flushed_line cid = cid @ BAR # ''flushed''"

definition parse_batch_line :: "string \<Rightarrow> (string \<times> batch_record) option" where
  "parse_batch_line line =
     (let parts = split_on BAR line
      in if length parts \<noteq> batchColumns then None
         else case parse_uint64 (parts ! 2) of
                None \<Rightarrow> None
              | Some processed \<Rightarrow>
                  (case parse_uint64 (parts ! 3) of
                     None \<Rightarrow> None
                   | Some survivors \<Rightarrow>
                       Some (parts ! 0, \<lparr>BatchID = parts ! 1, Processed = processed, Survivors = survivors\<rparr>)))"

definition parse_eof_line :: "string \<Rightarrow> (string \<times> string \<times> u64) option" where
  "parse_eof_line line =
     (let parts = split_on BAR line
      in if length parts \<noteq> 3 then None
         else case parse_uint64 (parts ! 2) of
                None \<Rightarrow> None
              | Some n \<Rightarrow> Some (parts ! 0, parts ! 1, n))"

definition parse_flushed_line :: "string \<Rightarrow> string option" where
  "parse_flushed_line line =
     (let parts = split_on BAR line in if length parts \<noteq> 2 then None else Some (parts ! 0))"

section \<open>Loading\<close>

text \<open>Lines that do not parse are skipped; a line that is too long ends the scan with an error.\<close>

definition batch_map :: "string list \<Rightarrow> (string, (string, batch_record) gomap) gomap" where
  "batch_map ls =
     fold (\<lambda>l m. case parse_batch_line l of None \<Rightarrow> m | Some (c, r) \<Rightarrow> nput c (BatchID r) r m) ls []"

definition eof_map :: "string list \<Rightarrow> (string, (string, u64) gomap) gomap" where
  "eof_map ls =
     fold (\<lambda>l m. case parse_eof_line l of None \<Rightarrow> m | Some (c, e, n) \<Rightarrow> nput c e n m) ls []"

definition flushed_map :: "string list \<Rightarrow> (string, bool) gomap" where
  "flushed_map ls =
     fold (\<lambda>l m. case parse_flushed_line l of None \<Rightarrow> m | Some c \<Rightarrow> mput c True m) ls []"

type_synonym ('s, 'a) query = "'s \<Rightarrow> 's \<times> (go_error + 'a)"

text \<open>\<open>Seek\<close> can fail, then the scan; the map is returned with the scanner's error.\<close>

definition load_file :: "(storage \<Rightarrow> string) \<Rightarrow> (string list \<Rightarrow> 'm) \<Rightarrow> (storage, 'm) query" where
  "load_file file mk s =
     (case call id ErrWrite s of
        (s', Some e) \<Rightarrow> (s', Inl e)
      | (s', None) \<Rightarrow>
          (case scan_lines maxScanToken (file s') of
             (ls, None) \<Rightarrow> (s', Inr (mk ls))
           | (ls, Some e) \<Rightarrow> (s', Inl e)))"

definition load_batches :: "(storage, (string, (string, batch_record) gomap) gomap) query" where
  "load_batches = load_file batchFile batch_map"

definition load_eofs :: "(storage, (string, (string, u64) gomap) gomap) query" where
  "load_eofs = load_file eofFile eof_map"

definition load_flushed :: "(storage, (string, bool) gomap) query" where
  "load_flushed = load_file flushedFile flushed_map"

section \<open>Writing\<close>

text \<open>A write through a \<open>bufio.Writer\<close> that is flushed at once.\<close>

definition buffered :: "(storage \<Rightarrow> bool) \<Rightarrow> (storage \<Rightarrow> storage) \<Rightarrow> (storage \<Rightarrow> storage) \<Rightarrow> storage act" where
  "buffered bad spoil app s =
     (if bad s then (s, Some ErrWrite)
      else case call app ErrWrite s of
             (s', None) \<Rightarrow> (s', None)
           | (s', Some e) \<Rightarrow> (spoil s', Some e))"

definition write_batch :: "string \<Rightarrow> batch_record \<Rightarrow> storage act" where
  "write_batch cid r =
     buffered batchBad (\<lambda>s. s\<lparr>batchBad := True\<rparr>)
       (\<lambda>s. s\<lparr>batchFile := batchFile s @ batch_line cid r @ [NL]\<rparr>)"

definition write_eof :: "string \<Rightarrow> string \<Rightarrow> u64 \<Rightarrow> storage act" where
  "write_eof cid eof n =
     buffered eofBad (\<lambda>s. s\<lparr>eofBad := True\<rparr>)
       (\<lambda>s. s\<lparr>eofFile := eofFile s @ eof_line cid eof n @ [NL]\<rparr>)"

definition write_flushed :: "string \<Rightarrow> storage act" where
  "write_flushed cid =
     buffered flushedBad (\<lambda>s. s\<lparr>flushedBad := True\<rparr>)
       (\<lambda>s. s\<lparr>flushedFile := flushedFile s @ flushed_line cid @ [NL]\<rparr>)"

text \<open>\<open>Flush\<close> of a writer with nothing buffered only reports an earlier error.\<close>

definition flush_writer :: "(storage \<Rightarrow> bool) \<Rightarrow> storage act" where
  "flush_writer bad s = (if bad s then (s, Some ErrWrite) else (s, None))"

text \<open>\<open>Seek\<close> to the start and \<open>Truncate(0)\<close>, each a call that can fail.\<close>

definition truncate_file :: "(storage \<Rightarrow> storage) \<Rightarrow> storage act" where
  "truncate_file wipe = seq_acts [call id ErrWrite, call wipe ErrWrite]"

definition rewrite_batches :: "(string, (string, batch_record) gomap) gomap \<Rightarrow> storage act" where
  "rewrite_batches m = for_each (\<lambda>(c, bs). for_each (\<lambda>(b, r). write_batch c r) bs) m"

definition rewrite_eofs :: "(string, (string, u64) gomap) gomap \<Rightarrow> storage act" where
  "rewrite_eofs m = for_each (\<lambda>(c, es). for_each (\<lambda>(e, n). write_eof c e n) es) m"

text \<open>
  \<open>ClearClient\<close> reads both files, drops the client from the maps, and writes what is left over
  the emptied files. The file of flushed clients is not touched.
\<close>

definition storage_clear_client :: "string \<Rightarrow> storage act" where
  "storage_clear_client cid =
     seq_acts [flush_writer batchBad, flush_writer eofBad,
       (\<lambda>s. case load_batches s of
           (s1, Inl e) \<Rightarrow> (s1, Some e)
         | (s1, Inr batches) \<Rightarrow>
             (case load_eofs s1 of
                (s2, Inl e) \<Rightarrow> (s2, Some e)
              | (s2, Inr eofs) \<Rightarrow>
                  seq_acts
                    [truncate_file (\<lambda>s. s\<lparr>batchFile := []\<rparr>), flush_writer batchBad,
                     rewrite_batches (mdel cid batches),
                     truncate_file (\<lambda>s. s\<lparr>eofFile := []\<rparr>), flush_writer eofBad,
                     rewrite_eofs (mdel cid eofs)] s2))]"


section \<open>What a log holds\<close>

text \<open>
  An identifier that can stand in a line: the separator and the line ends do not occur in it.
\<close>

definition clean :: "string \<Rightarrow> bool" where
  "clean s \<longleftrightarrow> BAR \<notin> set s \<and> NL \<notin> set s \<and> CR \<notin> set s"

definition log_file :: "string list \<Rightarrow> string" where
  "log_file ls = concat (map (\<lambda>l. l @ [NL]) ls)"

definition batch_index :: "(string \<times> batch_record) list \<Rightarrow> (string, (string, batch_record) gomap) gomap" where
  "batch_index xs = fold (\<lambda>(c, r). nput c (BatchID r) r) xs []"

definition eof_index :: "(string \<times> string \<times> u64) list \<Rightarrow> (string, (string, u64) gomap) gomap" where
  "eof_index xs = fold (\<lambda>(c, e, n). nput c e n) xs []"

definition flushed_index :: "string list \<Rightarrow> (string, bool) gomap" where
  "flushed_index xs = fold (\<lambda>c. mput c True) xs []"

definition batch_entry_ok :: "string \<times> batch_record \<Rightarrow> bool" where
  "batch_entry_ok = (\<lambda>(c, r). clean c \<and> clean (BatchID r) \<and> length (batch_line c r) < maxScanToken)"

definition eof_entry_ok :: "string \<times> string \<times> u64 \<Rightarrow> bool" where
  "eof_entry_ok = (\<lambda>(c, e, n). clean c \<and> clean e \<and> length (eof_line c e n) < maxScanToken)"

definition flushed_entry_ok :: "string \<Rightarrow> bool" where
  "flushed_entry_ok c \<longleftrightarrow> clean c \<and> length (flushed_line c) < maxScanToken"

text \<open>The three files hold these records, written in this order.\<close>

definition holds_log ::
  "(string \<times> batch_record) list \<Rightarrow> (string \<times> string \<times> u64) list \<Rightarrow> string list \<Rightarrow> storage \<Rightarrow> bool" where
  "holds_log bs es fs s \<longleftrightarrow>
     batchFile s = log_file (map (\<lambda>(c, r). batch_line c r) bs) \<and>
     eofFile s = log_file (map (\<lambda>(c, e, n). eof_line c e n) es) \<and>
     flushedFile s = log_file (map flushed_line fs) \<and>
     list_all batch_entry_ok bs \<and> list_all eof_entry_ok es \<and> list_all flushed_entry_ok fs"

lemma log_file_simps [simp]:
  "log_file [] = []" "log_file (l # ls) = l @ NL # log_file ls"
  "log_file (ls @ ls') = log_file ls @ log_file ls'"
  by (simp_all add: log_file_def)

lemma show_u64_clean [simp]: "clean (show_u64 n)"
  by (simp add: clean_def show_u64_def nondigit_notin_show_nat)

lemma cleanD: "clean s \<Longrightarrow> BAR \<notin> set s" "clean s \<Longrightarrow> NL \<notin> set s" "clean s \<Longrightarrow> CR \<notin> set s"
  by (simp_all add: clean_def)

lemmas clean_u64 = cleanD [OF show_u64_clean]

lemma parse_batch_line [simp]:
  assumes "clean c" "clean (BatchID r)"
  shows "parse_batch_line (batch_line c r) = Some (c, r)"
  using assms
  by (simp add: parse_batch_line_def batch_line_def split_on_field split_on_last cleanD clean_u64
      batchColumns_def numeral_2_eq_2 numeral_3_eq_3)

lemma parse_eof_line [simp]:
  "clean c \<Longrightarrow> clean e \<Longrightarrow> parse_eof_line (eof_line c e n) = Some (c, e, n)"
  by (simp add: parse_eof_line_def eof_line_def split_on_field split_on_last cleanD clean_u64
      numeral_2_eq_2)

lemma parse_flushed_line [simp]: "clean c \<Longrightarrow> parse_flushed_line (flushed_line c) = Some c"
  by (simp add: parse_flushed_line_def flushed_line_def split_on_field cleanD)

lemma scan_log:
  assumes "list_all P xs"
    and "\<And>x. P x \<Longrightarrow> NL \<notin> set (f x) \<and> CR \<notin> set (f x) \<and> length (f x) < limit"
  shows "scan_lines limit (log_file (map f xs)) = (map f xs, None)"
  unfolding log_file_def using assms by (intro scan_lines_file) (auto simp: list_all_iff)

lemma batch_line_scans: "batch_entry_ok (c, r) \<Longrightarrow>
    NL \<notin> set (batch_line c r) \<and> CR \<notin> set (batch_line c r) \<and> length (batch_line c r) < maxScanToken"
  by (simp add: batch_entry_ok_def batch_line_def cleanD clean_u64)

lemma eof_line_scans: "eof_entry_ok (c, e, n) \<Longrightarrow>
    NL \<notin> set (eof_line c e n) \<and> CR \<notin> set (eof_line c e n) \<and> length (eof_line c e n) < maxScanToken"
  by (simp add: eof_entry_ok_def eof_line_def cleanD clean_u64)

lemma flushed_line_scans: "flushed_entry_ok c \<Longrightarrow>
    NL \<notin> set (flushed_line c) \<and> CR \<notin> set (flushed_line c) \<and> length (flushed_line c) < maxScanToken"
  by (auto simp: flushed_entry_ok_def flushed_line_def cleanD)

lemma batch_map_log: "list_all batch_entry_ok xs \<Longrightarrow>
    batch_map (map (\<lambda>(c, r). batch_line c r) xs) = batch_index xs"
proof -
  assume a: "list_all batch_entry_ok xs"
  have "fold (\<lambda>l m. case parse_batch_line l of None \<Rightarrow> m | Some (c, r) \<Rightarrow> nput c (BatchID r) r m)
      (map (\<lambda>(c, r). batch_line c r) xs) m = fold (\<lambda>(c, r). nput c (BatchID r) r) xs m" for m
    using a by (induction xs arbitrary: m) (auto simp: batch_entry_ok_def)
  then show ?thesis by (simp add: batch_map_def batch_index_def)
qed

lemma eof_map_log: "list_all eof_entry_ok xs \<Longrightarrow>
    eof_map (map (\<lambda>(c, e, n). eof_line c e n) xs) = eof_index xs"
proof -
  assume a: "list_all eof_entry_ok xs"
  have "fold (\<lambda>l m. case parse_eof_line l of None \<Rightarrow> m | Some (c, e, n) \<Rightarrow> nput c e n m)
      (map (\<lambda>(c, e, n). eof_line c e n) xs) m = fold (\<lambda>(c, e, n). nput c e n) xs m" for m
    using a by (induction xs arbitrary: m) (auto simp: eof_entry_ok_def)
  then show ?thesis by (simp add: eof_map_def eof_index_def)
qed

lemma flushed_map_log: "list_all flushed_entry_ok xs \<Longrightarrow>
    flushed_map (map flushed_line xs) = flushed_index xs"
proof -
  assume a: "list_all flushed_entry_ok xs"
  have "fold (\<lambda>l m. case parse_flushed_line l of None \<Rightarrow> m | Some c \<Rightarrow> mput c True m)
      (map flushed_line xs) m = fold (\<lambda>c. mput c True) xs m" for m
    using a by (induction xs arbitrary: m) (auto simp: flushed_entry_ok_def)
  then show ?thesis by (simp add: flushed_map_def flushed_index_def)
qed

lemma load_file_no_faults:
  assumes "outcomes s = []"
  shows "load_file file mk s = (case scan_lines maxScanToken (file s) of
      (ls, None) \<Rightarrow> (s, Inr (mk ls)) | (ls, Some e) \<Rightarrow> (s, Inl e))"
  by (simp add: load_file_def call_no_faults assms)

lemma load_log:
  assumes "holds_log bs es fs s" "outcomes s = []"
  shows "load_batches s = (s, Inr (batch_index bs))"
    and "load_eofs s = (s, Inr (eof_index es))"
    and "load_flushed s = (s, Inr (flushed_index fs))"
proof -
  have "scan_lines maxScanToken (batchFile s) = (map (\<lambda>(c, r). batch_line c r) bs, None)"
    using assms(1) unfolding holds_log_def by (auto intro!: scan_log batch_line_scans)
  then show "load_batches s = (s, Inr (batch_index bs))"
    using assms by (simp add: load_batches_def load_file_no_faults batch_map_log holds_log_def)
  have "scan_lines maxScanToken (eofFile s) = (map (\<lambda>(c, e, n). eof_line c e n) es, None)"
    using assms(1) unfolding holds_log_def by (auto intro!: scan_log eof_line_scans)
  then show "load_eofs s = (s, Inr (eof_index es))"
    using assms by (simp add: load_eofs_def load_file_no_faults eof_map_log holds_log_def)
  have "scan_lines maxScanToken (flushedFile s) = (map flushed_line fs, None)"
    using assms(1) unfolding holds_log_def by (auto intro!: scan_log flushed_line_scans)
  then show "load_flushed s = (s, Inr (flushed_index fs))"
    using assms by (simp add: load_flushed_def load_file_no_faults flushed_map_log holds_log_def)
qed


section \<open>Writing keeps a log\<close>

lemma holds_log_outcomes [simp]: "holds_log bs es fs (s\<lparr>outcomes := x\<rparr>) = holds_log bs es fs s"
  by (simp add: holds_log_def)

lemma buffered_result:
  obtains (bad) "bad s" "buffered bad spoil app s = (s, Some ErrWrite)"
  | (fails) os where "buffered bad spoil app s = (spoil (s\<lparr>outcomes := os\<rparr>), Some ErrWrite)"
  | (succeeds) os where "buffered bad spoil app s = (app (s\<lparr>outcomes := os\<rparr>), None)"
proof (cases "bad s")
  case False
  then show ?thesis
    using fails succeeds by (cases rule: call_result [of app ErrWrite s]) (auto simp: buffered_def)
qed (simp add: buffered_def bad)

text \<open>A write appends its record when it returns no error, and changes no file otherwise.\<close>

lemma write_batch_log:
  assumes "holds_log bs es fs s" "batch_entry_ok (c, r)" "write_batch c r s = (s', e)"
  shows "holds_log (if e = None then bs @ [(c, r)] else bs) es fs s'"
  using assms unfolding write_batch_def
  by (cases rule: buffered_result [of batchBad s "\<lambda>s. s\<lparr>batchBad := True\<rparr>"
        "\<lambda>s. s\<lparr>batchFile := batchFile s @ batch_line c r @ [NL]\<rparr>"])
     (auto simp: holds_log_def)

lemma write_eof_log:
  assumes "holds_log bs es fs s" "eof_entry_ok (c, i, n)" "write_eof c i n s = (s', e)"
  shows "holds_log bs (if e = None then es @ [(c, i, n)] else es) fs s'"
  using assms unfolding write_eof_def
  by (cases rule: buffered_result [of eofBad s "\<lambda>s. s\<lparr>eofBad := True\<rparr>"
        "\<lambda>s. s\<lparr>eofFile := eofFile s @ eof_line c i n @ [NL]\<rparr>"])
     (auto simp: holds_log_def)

lemma write_flushed_log:
  assumes "holds_log bs es fs s" "flushed_entry_ok c" "write_flushed c s = (s', e)"
  shows "holds_log bs es (if e = None then fs @ [c] else fs) s'"
  using assms unfolding write_flushed_def
  by (cases rule: buffered_result [of flushedBad s "\<lambda>s. s\<lparr>flushedBad := True\<rparr>"
        "\<lambda>s. s\<lparr>flushedFile := flushedFile s @ flushed_line c @ [NL]\<rparr>"])
     (auto simp: holds_log_def)

text \<open>Storage that works: no call will fail and no writer has failed.\<close>

definition healthy :: "storage \<Rightarrow> bool" where
  "healthy s \<longleftrightarrow> outcomes s = [] \<and> \<not> batchBad s \<and> \<not> eofBad s \<and> \<not> flushedBad s"

lemma write_healthy:
  assumes "healthy s"
  shows "write_batch c r s = (s\<lparr>batchFile := batchFile s @ log_file [batch_line c r]\<rparr>, None)"
    and "write_eof c i n s = (s\<lparr>eofFile := eofFile s @ log_file [eof_line c i n]\<rparr>, None)"
    and "write_flushed c s = (s\<lparr>flushedFile := flushedFile s @ log_file [flushed_line c]\<rparr>, None)"
  using assms
  by (simp_all add: healthy_def write_batch_def write_eof_def write_flushed_def buffered_def
      call_no_faults)

section \<open>Indexes of nested keys\<close>

definition index_of :: "('k \<times> 'j \<times> 'v) list \<Rightarrow> ('k, ('j, 'v) gomap) gomap" where
  "index_of xs = fold (\<lambda>(c, j, v). nput c j v) xs []"

definition flat :: "('k, ('j, 'v) gomap) gomap \<Rightarrow> ('k \<times> 'j \<times> 'v) list" where
  "flat m = concat (map (\<lambda>(c, js). map (\<lambda>(j, v). (c, j, v)) js) m)"

definition full :: "('k, ('j, 'v) gomap) gomap \<Rightarrow> bool" where
  "full m \<longleftrightarrow> wf_nested m \<and> (\<forall>e \<in> set m. snd e \<noteq> [])"

lemma flat_simps [simp]: "flat [] = []" "flat ((c, js) # m) = map (\<lambda>(j, v). (c, j, v)) js @ flat m"
  by (simp_all add: flat_def)

lemma in_flat: "(c, j, v) \<in> set (flat m) \<longleftrightarrow> (\<exists>js. (c, js) \<in> set m \<and> (j, v) \<in> set js)"
  by (auto simp: flat_def)

lemma mput_last: "k \<notin> set (mkeys m) \<Longrightarrow> mput k v (m @ [(k, w)]) = m @ [(k, v)]"
  by (induction m) auto

lemma mget0_last: "k \<notin> set (mkeys m) \<Longrightarrow> mget0 z (m @ [(k, w)]) k = w"
  by (simp add: mget0_def map_of_eq_None_iff [THEN iffD2] map_add_def)

lemma fold_nput_last:
  assumes "k \<notin> set (mkeys m)" "distinct (mkeys (js @ js'))"
  shows "fold (\<lambda>(c, j, v). nput c j v) (map (\<lambda>(j, v). (k, j, v)) js') (m @ [(k, js)]) =
    m @ [(k, js @ js')]"
  using assms
proof (induction js' arbitrary: js)
  case (Cons e js')
  obtain j v where e: "e = (j, v)" by fastforce
  have "mput j v js = js @ [(j, v)]"
    using Cons.prems(2) by (intro mput_fresh) (auto simp: e)
  then have "nput k j v (m @ [(k, js)]) = m @ [(k, js @ [(j, v)])]"
    using Cons.prems(1) by (simp add: nput_def mput_last mget0_last)
  moreover have "distinct (mkeys ((js @ [(j, v)]) @ js'))"
    using Cons.prems(2) by (simp add: e)
  ultimately show ?case
    using Cons.IH [of "js @ [(j, v)]"] Cons.prems(1) by (simp add: e)
qed simp

lemma fold_nput_fresh:
  assumes "k \<notin> set (mkeys m)" "distinct (mkeys js)" "js \<noteq> []"
  shows "fold (\<lambda>(c, j, v). nput c j v) (map (\<lambda>(j, v). (k, j, v)) js) m = m @ [(k, js)]"
proof (cases js)
  case (Cons e js')
  obtain j v where e: "e = (j, v)" by fastforce
  have "mget0 [] m k = []"
    using assms(1) by (simp add: mget0_def map_of_eq_None_iff [THEN iffD2])
  then have "nput k j v m = m @ [(k, [(j, v)])]"
    using assms(1) by (simp add: nput_def mput_fresh)
  then show ?thesis
    using fold_nput_last [OF assms(1), of "[(j, v)]" js'] assms(2) by (simp add: Cons e)
qed (use assms(3) in simp)

lemma fold_nput_flat:
  assumes "distinct (mkeys (m @ m'))" "full m'"
  shows "fold (\<lambda>(c, j, v). nput c j v) (flat m') m = m @ m'"
  using assms
proof (induction m' arbitrary: m)
  case (Cons e m')
  obtain c js where e: "e = (c, js)" by fastforce
  have "fold (\<lambda>(c, j, v). nput c j v) (map (\<lambda>(j, v). (c, j, v)) js) m = m @ [(c, js)]"
    using Cons.prems by (intro fold_nput_fresh) (auto simp: e full_def wf_nested_def wf_map_def)
  moreover have "full m'" "distinct (mkeys ((m @ [(c, js)]) @ m'))"
    using Cons.prems by (auto simp: e full_def wf_nested_def wf_map_def)
  ultimately show ?case
    using Cons.IH [of "m @ [(c, js)]"] by (simp add: e)
qed simp

lemma index_flat: "full m \<Longrightarrow> index_of (flat m) = m"
  using fold_nput_flat [of "[]" m] by (simp add: index_of_def full_def wf_nested_def wf_map_def)

lemma full_nput: "full m \<Longrightarrow> full (nput c j v m)"
proof -
  assume a: "full m"
  have "mput j v js \<noteq> []" for js by (induction js) auto
  then show ?thesis
    using a set_mput_subset [of c "mput j v (mget0 [] m c)" m] by (auto simp: full_def nput_def wf_nested_put wf_nested_get)
qed

lemma full_mdel: "full m \<Longrightarrow> full (mdel c m)"
  by (auto simp: full_def AList.delete_eq) (metis AList.delete_eq wf_nested_mdel)

lemma full_index: "full (index_of xs)"
proof -
  have "full m \<Longrightarrow> full (fold (\<lambda>(c, j, v). nput c j v) xs m)" for m
    by (induction xs arbitrary: m) (auto intro: full_nput)
  moreover have "full []" by (simp add: full_def)
  ultimately show ?thesis by (simp add: index_of_def)
qed

lemma flat_nput_subset: "set (flat (nput c j v m)) \<subseteq> insert (c, j, v) (set (flat m))"
proof
  fix x
  assume "x \<in> set (flat (nput c j v m))"
  then obtain c' j' v' js where x: "x = (c', j', v')" "(c', js) \<in> set (nput c j v m)" "(j', v') \<in> set js"
    by (metis in_flat prod_cases3)
  show "x \<in> insert (c, j, v) (set (flat m))"
  proof (cases "(c', js) \<in> set m")
    case True
    then have "x \<in> set (flat m)" using x(1,3) in_flat by fast
    then show ?thesis by simp
  next
    case False
    then have "c' = c" "js = mput j v (mget0 [] m c)"
      using x(2) set_mput_subset [of c "mput j v (mget0 [] m c)" m] by (auto simp: nput_def)
    then have "(j', v') = (j, v) \<or> (j', v') \<in> set (mget0 [] m c)"
      using x(3) set_mput_subset [of j v "mget0 [] m c"] by auto
    then show ?thesis
      using x(1) \<open>c' = c\<close>
      by (auto simp: mget0_def in_flat split: option.splits dest!: map_of_SomeD [OF sym] map_of_SomeD)
  qed
qed

lemma flat_index_subset: "set (flat (index_of xs)) \<subseteq> set xs"
proof -
  have "set (flat (fold (\<lambda>(c, j, v). nput c j v) xs m)) \<subseteq> set xs \<union> set (flat m)" for m
  proof (induction xs arbitrary: m)
    case (Cons x xs)
    obtain c j v where x: "x = (c, j, v)" by (metis prod_cases3)
    show ?case using Cons [of "nput c j v m"] flat_nput_subset [of c j v m] by (auto simp: x)
  qed simp
  from this [of "[]"] show ?thesis by (simp add: index_of_def)
qed

lemma flat_mdel_subset: "set (flat (mdel c m)) \<subseteq> set (flat m)"
  by (auto simp: flat_def AList.delete_eq)


section \<open>Clearing a client\<close>

lemma batch_index_index: "batch_index xs = index_of (map (\<lambda>(c, r). (c, BatchID r, r)) xs)"
proof -
  have "fold (\<lambda>(c, r). nput c (BatchID r) r) xs m =
      fold (\<lambda>(c, j, v). nput c j v) (map (\<lambda>(c, r). (c, BatchID r, r)) xs) m" for m
    by (induction xs arbitrary: m) auto
  then show ?thesis by (simp add: batch_index_def index_of_def)
qed

lemma eof_index_index: "eof_index xs = index_of xs"
  by (simp add: eof_index_def index_of_def)

text \<open>What \<open>ClearClient\<close> writes back, in the order of its nested loops.\<close>

definition batch_pairs :: "(string, (string, batch_record) gomap) gomap \<Rightarrow> (string \<times> batch_record) list" where
  "batch_pairs m = map (\<lambda>(c, j, r). (c, r)) (flat m)"

lemma for_each_flat:
  "for_each (\<lambda>(c, js). for_each (\<lambda>(j, v). f c j v) js) m = for_each (\<lambda>(c, j, v). f c j v) (flat m)"
proof (induction m)
  case (Cons e m)
  obtain c js where e: "e = (c, js)" by fastforce
  have "for_each (\<lambda>(c, j, v). f c j v) (map (\<lambda>(j, v). (c, j, v)) js) = for_each (\<lambda>(j, v). f c j v) js"
    by (simp add: for_each_def comp_def case_prod_unfold)
  with Cons show ?case by (simp add: e for_each_append)
qed (simp add: flat_def)

lemma healthy_batchFile [simp]: "healthy (s\<lparr>batchFile := x\<rparr>) = healthy s"
  and healthy_eofFile [simp]: "healthy (s\<lparr>eofFile := x\<rparr>) = healthy s"
  by (simp_all add: healthy_def)

lemma rewrite_batches_healthy:
  assumes "healthy s"
  shows "rewrite_batches m s =
    (s\<lparr>batchFile := batchFile s @ log_file (map (\<lambda>(c, r). batch_line c r) (batch_pairs m))\<rparr>, None)"
proof -
  have "for_each (\<lambda>(c, j, r). write_batch c r) xs s =
      (s\<lparr>batchFile := batchFile s @ log_file (map (\<lambda>(c, j, r). batch_line c r) xs)\<rparr>, None)" for xs
    using assms
  proof (induction xs arbitrary: s)
    case (Cons x xs)
    obtain c j r where x: "x = (c, j, r)" by (metis prod_cases3)
    show ?case
      using Cons.prems Cons.IH [of "s\<lparr>batchFile := batchFile s @ log_file [batch_line c r]\<rparr>"]
      by (simp add: x write_healthy then_act_def)
  qed (simp add: ok_def)
  moreover have "rewrite_batches m = for_each (\<lambda>(c, j, r). write_batch c r) (flat m)"
    unfolding rewrite_batches_def by (rule for_each_flat)
  moreover have "map (\<lambda>(c, r). batch_line c r) (batch_pairs m) = map (\<lambda>(c, j, r). batch_line c r) (flat m)"
    by (simp add: batch_pairs_def comp_def case_prod_unfold)
  ultimately show ?thesis by simp
qed

lemma rewrite_eofs_healthy:
  assumes "healthy s"
  shows "rewrite_eofs m s =
    (s\<lparr>eofFile := eofFile s @ log_file (map (\<lambda>(c, e, n). eof_line c e n) (flat m))\<rparr>, None)"
proof -
  have "for_each (\<lambda>(c, e, n). write_eof c e n) xs s =
      (s\<lparr>eofFile := eofFile s @ log_file (map (\<lambda>(c, e, n). eof_line c e n) xs)\<rparr>, None)" for xs
    using assms
  proof (induction xs arbitrary: s)
    case (Cons x xs)
    obtain c e n where x: "x = (c, e, n)" by (metis prod_cases3)
    show ?case
      using Cons.prems Cons.IH [of "s\<lparr>eofFile := eofFile s @ log_file [eof_line c e n]\<rparr>"]
      by (simp add: x write_healthy then_act_def)
  qed (simp add: ok_def)
  then show ?thesis
    by (simp add: rewrite_eofs_def for_each_flat comp_def)
qed

lemma batch_pairs_index:
  "batch_index (batch_pairs (mdel c (batch_index xs))) = mdel c (batch_index xs)"
  "set (batch_pairs (mdel c (batch_index xs))) \<subseteq> set xs"
proof -
  let ?m = "mdel c (batch_index xs)"
  have f: "full ?m" by (simp add: batch_index_index full_mdel full_index)
  have sub: "set (flat ?m) \<subseteq> (\<lambda>(c, r). (c, BatchID r, r)) ` set xs"
    using flat_mdel_subset [of c "batch_index xs"]
      flat_index_subset [of "map (\<lambda>(c, r). (c, BatchID r, r)) xs"]
    by (simp add: batch_index_index)
  then have "map (\<lambda>(c, r). (c, BatchID r, r)) (batch_pairs ?m) = flat ?m"
    unfolding batch_pairs_def by (auto simp: comp_def intro!: map_idI)
  then show "batch_index (batch_pairs ?m) = ?m"
    using f by (simp add: batch_index_index [of "batch_pairs ?m"] index_flat)
  show "set (batch_pairs ?m) \<subseteq> set xs"
    using sub by (auto simp: batch_pairs_def)
qed

lemma storage_clear_client_healthy:
  assumes "healthy s" "holds_log bs es fs s"
    and "bs' = batch_pairs (mdel cid (batch_index bs))" and "es' = flat (mdel cid (eof_index es))"
  shows "storage_clear_client cid s =
    (s\<lparr>batchFile := log_file (map (\<lambda>(c, r). batch_line c r) bs'),
       eofFile := log_file (map (\<lambda>(c, e, n). eof_line c e n) es')\<rparr>, None)"
proof -
  have f: "outcomes s = []" "\<not> batchBad s" "\<not> eofBad s"
    using assms(1) by (simp_all add: healthy_def)
  show ?thesis
    using assms(1)
    by (simp add: storage_clear_client_def load_log [OF assms(2) f(1)] f flush_writer_def then_act_def
        truncate_file_def call_no_faults ok_def rewrite_batches_healthy rewrite_eofs_healthy assms(3,4))
qed

section \<open>Properties\<close>



text \<open>
  \<open>ClearClient\<close> on working storage removes exactly the given client: read back, the batches and
  the EOFs are those of before without the client's entry, every other client's entry unchanged.
  The record of flushed clients is not changed.
\<close>

theorem storage_clear_client_exact:
  assumes "healthy s" "holds_log bs es fs s"
  shows "\<exists>s'. storage_clear_client cid s = (s', None) \<and>
    load_batches s' = (s', Inr (mdel cid (batch_index bs))) \<and>
    load_eofs s' = (s', Inr (mdel cid (eof_index es))) \<and>
    load_flushed s' = (s', Inr (flushed_index fs))"
proof -
  let ?bs = "batch_pairs (mdel cid (batch_index bs))" and ?es = "flat (mdel cid (eof_index es))"
  let ?s = "s\<lparr>batchFile := log_file (map (\<lambda>(c, r). batch_line c r) ?bs),
       eofFile := log_file (map (\<lambda>(c, e, n). eof_line c e n) ?es)\<rparr>"
  have "set ?es \<subseteq> set es"
    using flat_mdel_subset [of cid "index_of es"] flat_index_subset [of es] by (auto simp: eof_index_index)
  then have "holds_log ?bs ?es fs ?s"
    using assms(2) batch_pairs_index(2) [of cid bs]
    by (auto simp: holds_log_def list_all_iff)
  moreover have "eof_index ?es = mdel cid (eof_index es)"
    by (simp add: eof_index_index index_flat full_mdel full_index)
  moreover have "outcomes ?s = []" using assms(1) by (simp add: healthy_def)
  ultimately show ?thesis
    using load_log [of ?bs ?es fs ?s] batch_pairs_index(1) [of cid bs]
      storage_clear_client_healthy [OF assms refl refl, of cid] by simp
qed

theorem storage_clear_client_exact_witness:
  "\<exists>s'. storage_clear_client ''a''
      (empty_storage\<lparr>eofFile := log_file (map (\<lambda>(c, e, n). eof_line c e n) [(''a'', ''e'', 5), (''b'', ''f'', 6)])\<rparr>) =
      (s', None) \<and>
    load_batches s' = (s', Inr []) \<and> load_eofs s' = (s', Inr [(''b'', [(''f'', 6)])]) \<and>
    load_flushed s' = (s', Inr [])"
proof -
  let ?es = "[(''a'', ''e'', 5), (''b'', ''f'', 6)] :: (string \<times> string \<times> u64) list"
  let ?s = "empty_storage\<lparr>eofFile := log_file (map (\<lambda>(c, e, n). eof_line c e n) ?es)\<rparr>"
  have h: "healthy ?s" by (simp add: healthy_def empty_storage_def)
  have l: "holds_log [] ?es [] ?s"
    by (simp add: holds_log_def eof_entry_ok_def empty_storage_def clean_def eof_line_def
        show_u64_def show_nat.simps maxScanToken_def)
  have i: "mdel ''a'' (batch_index []) = []" "flushed_index [] = []"
    "mdel ''a'' (eof_index ?es) = [(''b'', [(''f'', 6)])]"
    by (simp_all add: batch_index_def eof_index_def flushed_index_def nput_def mget0_def)
  show ?thesis
    using storage_clear_client_exact [OF h l, of "''a''"] unfolding i .
qed

text \<open>
  \<open>ClearClient\<close> is not atomic: the file is truncated before the other clients' records are
  written back, so when the first write after the truncation fails, the recorded batches of every
  client are gone from the disk, also of the clients that were not being cleared.
\<close>

theorem storage_clear_client_loses_others:
  assumes "holds_log bs es fs s" "\<not> batchBad s" "\<not> eofBad s"
    and "outcomes s = [True, True, True, True, False]"
    and "c \<noteq> cid" "mget (batch_index bs) c \<noteq> None"
  shows "\<exists>s'. storage_clear_client cid s = (s', Some ErrWrite) \<and> batchFile s' = []"
proof -
  let ?m = "mdel cid (batch_index bs)"
  have "full ?m" by (simp add: batch_index_index full_mdel full_index)
  moreover have "mget ?m c \<noteq> None" using assms(5,6) by (simp add: mget_mdel)
  ultimately have "flat ?m \<noteq> []"
    by (cases ?m) (auto simp: full_def flat_def)
  then obtain x xs where "flat ?m = x # xs" by (cases "flat ?m") auto
  moreover obtain d j r where "x = (d, j, r)" by (metis prod_cases3)
  ultimately have f: "rewrite_batches ?m =
      then_act (write_batch d r) (for_each (\<lambda>(c, j, r). write_batch c r) xs)"
    by (simp add: rewrite_batches_def for_each_flat)
  have "load_batches s = (s\<lparr>outcomes := [True, True, True, False]\<rparr>, Inr (batch_index bs))"
    using load_log(1) [of bs es fs "s\<lparr>outcomes := []\<rparr>"] assms(1,4)
    by (simp add: load_batches_def load_file_def call_def split: prod.splits option.splits)
  moreover have "load_eofs (s\<lparr>outcomes := [True, True, True, False]\<rparr>) =
      (s\<lparr>outcomes := [True, True, False]\<rparr>, Inr (eof_index es))"
    using load_log(2) [of bs es fs "s\<lparr>outcomes := []\<rparr>"] assms(1)
    by (simp add: load_eofs_def load_file_def call_def split: prod.splits option.splits)
  ultimately show ?thesis
    using assms(2,3)
    by (simp add: storage_clear_client_def flush_writer_def then_act_def truncate_file_def call_def f
        write_batch_def buffered_def ok_def)
qed

theorem storage_clear_client_loses_others_witness:
  "\<exists>s'. storage_clear_client ''a''
      (empty_storage\<lparr>batchFile := log_file [batch_line ''b'' \<lparr>BatchID = ''y'', Processed = 2, Survivors = 1\<rparr>],
        outcomes := [True, True, True, True, False]\<rparr>) = (s', Some ErrWrite) \<and> batchFile s' = []"
proof (rule storage_clear_client_loses_others)
  show "holds_log [(''b'', \<lparr>BatchID = ''y'', Processed = 2, Survivors = 1\<rparr>)] [] []
      (empty_storage\<lparr>batchFile := log_file [batch_line ''b'' \<lparr>BatchID = ''y'', Processed = 2, Survivors = 1\<rparr>],
        outcomes := [True, True, True, True, False]\<rparr>)"
    by (simp add: holds_log_def batch_entry_ok_def empty_storage_def clean_def batch_line_def
        show_u64_def show_nat.simps maxScanToken_def)
  show "mget (batch_index [(''b'', \<lparr>BatchID = ''y'', Processed = 2, Survivors = 1\<rparr>)]) ''b'' \<noteq> None"
    by (simp add: batch_index_def nput_def)
qed (simp_all add: empty_storage_def)

end
