(* ===== verification/EOFCoordinator.thy ===== *)
theory EOFCoordinator
  imports Batch BatchStorage
begin

text \<open>
  \<open>internal/workers/coordinator/eofcoordinator.go\<close> and \<open>coordinator.go\<close>: the coordination of the
  EOF of a client among the replicas of a worker. A replica counts the batches it processed and
  tells its peers about its EOFs and, once it knows all EOFs of the client, about its batches; the
  flush handler runs when the barrier of \<open>ClientState\<close> opens.

  The mutex makes every method one atomic step, so a method is an action and an interleaving of
  goroutines and deliveries is a list of events. The exchange is the list of what the broker
  accepted, each message with its routing key; \<open>outcomes\<close> decides which sends fail. The flush
  handler is a field, as in the code, and acts on its owner's state \<open>host\<close>. \<open>infoSize\<close> stands for
  \<open>proto.Size\<close> on a \<open>BatchInformation\<close>, which is generated code.
\<close>

section \<open>Messages\<close>

datatype coordination_type = WakeUp | EOFArrived | BatchInformation | Cleanup | UnknownType

record batch_information =
  infoBatchID :: string
  ProcessedCount :: u64
  SurvivorCount :: u64

record coordination_msg =
  Type :: coordination_type
  ClientId :: string
  SenderId :: u32
  EofID :: string
  ExpectedTotal :: u64
  Information :: "batch_information list"

definition transform_batch_to_proto :: "batch_record \<Rightarrow> batch_information" where
  "transform_batch_to_proto r =
     \<lparr>infoBatchID = BatchID r, ProcessedCount = Processed r, SurvivorCount = Survivors r\<rparr>"

definition record_of_information :: "batch_information \<Rightarrow> batch_record" where
  "record_of_information i =
     \<lparr>BatchID = infoBatchID i, Processed = ProcessedCount i, Survivors = SurvivorCount i\<rparr>"

lemma record_of_transform [simp]: "record_of_information (transform_batch_to_proto r) = r"
  by (simp add: record_of_information_def transform_batch_to_proto_def)

section \<open>State\<close>

record 'e coord = env +
  workerID :: int
  workerName :: string
  expectedEOFs :: u32
  publishKeys :: "string list"
  exchange :: "(string \<times> coordination_msg) list"
  storage :: storage
  flushHandler :: "string \<Rightarrow> u64 \<Rightarrow> string \<Rightarrow> 'e act"
  clients :: "(string, client_state) gomap"
  innerBatchWeight :: int
  cleanedClients :: "(string, bool) gomap"
  infoSize :: "batch_information \<Rightarrow> int"
  host :: 'e

definition sender_id :: "'e coord \<Rightarrow> u32" where
  "sender_id c = word_of_int (workerID c)"

definition on_storage :: "storage act \<Rightarrow> 'e coord act" where
  "on_storage = zoom storage (\<lambda>t c. c\<lparr>storage := t\<rparr>)"

definition get_client_state :: "string \<Rightarrow> 'e coord \<Rightarrow> 'e coord \<times> client_state" where
  "get_client_state cid c =
     (case mget (clients c) cid of
        Some st \<Rightarrow> (c, st)
      | None \<Rightarrow> (c\<lparr>clients := mput cid new_client_state (clients c)\<rparr>, new_client_state))"

definition put_client_state :: "string \<Rightarrow> client_state \<Rightarrow> 'e coord \<Rightarrow> 'e coord" where
  "put_client_state cid st c = c\<lparr>clients := mput cid st (clients c)\<rparr>"

definition is_cleaned :: "string \<Rightarrow> 'e coord \<Rightarrow> bool" where
  "is_cleaned cid c \<longleftrightarrow> mget0 False (cleanedClients c) cid"

section \<open>Sending\<close>

definition serialize_error :: go_error where
  "serialize_error = ErrOther ''serialize''"

definition send_with_key :: "string \<Rightarrow> coordination_msg \<Rightarrow> 'e coord act" where
  "send_with_key key msg = call (\<lambda>c. c\<lparr>exchange := exchange c @ [(key, msg)]\<rparr>) ErrSend"

definition serialize_and_send :: "string \<Rightarrow> coordination_msg \<Rightarrow> 'e coord act" where
  "serialize_and_send key msg = then_act (call id serialize_error) (send_with_key key msg)"

definition broadcast :: "coordination_msg \<Rightarrow> 'e coord act" where
  "broadcast msg = then_act (call id serialize_error)
     (\<lambda>c. for_each (\<lambda>key. send_with_key key msg) (publishKeys c) c)"

definition batch_msg :: "string \<Rightarrow> u32 \<Rightarrow> batch_information list \<Rightarrow> coordination_msg" where
  "batch_msg cid sender items =
     \<lparr>Type = BatchInformation, ClientId = cid, SenderId = sender, EofID = [], ExpectedTotal = 0,
      Information = items\<rparr>"

definition eof_msg :: "string \<Rightarrow> u32 \<Rightarrow> string \<Rightarrow> u64 \<Rightarrow> coordination_msg" where
  "eof_msg cid sender eof n =
     \<lparr>Type = EOFArrived, ClientId = cid, SenderId = sender, EofID = eof, ExpectedTotal = n,
      Information = []\<rparr>"

definition wake_up_notification :: "'e coord act" where
  "wake_up_notification c = broadcast
     \<lparr>Type = WakeUp, ClientId = [], SenderId = sender_id c, EofID = [], ExpectedTotal = 0,
      Information = []\<rparr> c"

definition broadcast_cleanup :: "string \<Rightarrow> 'e coord act" where
  "broadcast_cleanup cid c = broadcast
     \<lparr>Type = Cleanup, ClientId = cid, SenderId = sender_id c, EofID = [], ExpectedTotal = 0,
      Information = []\<rparr> c"

definition broadcast_batch :: "batch_information list \<Rightarrow> string \<Rightarrow> 'e coord act" where
  "broadcast_batch items cid c = broadcast (batch_msg cid (sender_id c) items) c"

definition broadcast_eof :: "string \<Rightarrow> string \<Rightarrow> u64 \<Rightarrow> 'e coord act" where
  "broadcast_eof cid eof n c = broadcast (eof_msg cid (sender_id c) eof n) c"

definition send_eof :: "string \<Rightarrow> string \<Rightarrow> string \<Rightarrow> u64 \<Rightarrow> 'e coord act" where
  "send_eof key cid eof n c = serialize_and_send key (eof_msg cid (sender_id c) eof n) c"

definition response_to_wake_up :: "batch_information list \<Rightarrow> string \<Rightarrow> string \<Rightarrow> 'e coord act" where
  "response_to_wake_up items cid key c =
     serialize_and_send key (batch_msg cid (sender_id c) items) c"

text \<open>
  The loop over the own batches, through a fresh batcher of the configured weight whose callback
  sends what it is given: \<open>broadcastOwnBatches\<close> and the answer to a wake-up share it.
\<close>

definition info_batcher :: "'e coord \<Rightarrow> (batch_information, batch_information list) batcher" where
  "info_batcher c = new_batcher (new_batch (innerBatchWeight c) (infoSize c) (\<lambda>items. items))"

definition send_own_batches ::
  "(batch_information list, 'e coord) on_flush \<Rightarrow> client_state \<Rightarrow> 'e coord act" where
  "send_own_batches onFlush st c =
     (case then_act
         (for_each (batcher_add onFlush) (map (\<lambda>(bid, r). transform_batch_to_proto r) (ownBatches st)))
         (batcher_flush onFlush) (info_batcher c, c)
      of ((b, c'), e) \<Rightarrow> (c', e))"

definition broadcast_own_batches :: "string \<Rightarrow> client_state \<Rightarrow> 'e coord act" where
  "broadcast_own_batches cid = send_own_batches (\<lambda>items batchID. broadcast_batch items cid)"

section \<open>Operations\<close>

definition try_flush :: "string \<Rightarrow> 'e coord act" where
  "try_flush cid c0 =
     (case get_client_state cid c0 of (c, st) \<Rightarrow>
        if \<not> is_ready_to_flush (expectedEOFs c) st then (c, None)
        else case flushHandler c cid (snd (totals st)) (lastEOFID st) (host c) of
               (h, Some e) \<Rightarrow> (c\<lparr>host := h\<rparr>, Some e)
             | (h, None) \<Rightarrow>
                 on_storage (write_flushed cid)
                   (put_client_state cid (st\<lparr>flushed := True\<rparr>) (c\<lparr>host := h\<rparr>)))"

definition has_seen_batch :: "string \<Rightarrow> string \<Rightarrow> 'e coord \<Rightarrow> 'e coord \<times> bool" where
  "has_seen_batch cid bid c0 =
     (case get_client_state cid c0 of (c, st) \<Rightarrow> (c, has_own_batch bid st))"

definition reached_eof_amount :: "string \<Rightarrow> 'e coord \<Rightarrow> 'e coord \<times> bool" where
  "reached_eof_amount cid c0 =
     (case get_client_state cid c0 of (c, st) \<Rightarrow> (c, has_all_eofs (expectedEOFs c) st))"

definition is_leader :: "'e coord \<Rightarrow> bool" where
  "is_leader c \<longleftrightarrow> workerID c = 0"

definition record_batch :: "string \<Rightarrow> string \<Rightarrow> u64 \<Rightarrow> u64 \<Rightarrow> 'e coord act" where
  "record_batch cid bid processed survivors c0 =
     (case get_client_state cid c0 of (c, st) \<Rightarrow>
        if has_own_batch bid st then (c, None)
        else
          let r = \<lparr>BatchID = bid, Processed = processed, Survivors = survivors\<rparr>
          in seq_acts
               [if has_all_eofs (expectedEOFs c) st
                then broadcast_batch [transform_batch_to_proto r] cid else ok,
                on_storage (write_batch cid r),
                upd (put_client_state cid (add_own_batch r st)),
                try_flush cid] c)"

definition handle_local_eof :: "string \<Rightarrow> u64 \<Rightarrow> string \<Rightarrow> 'e coord act" where
  "handle_local_eof cid expectedTotal eof c0 =
     (case get_client_state cid c0 of (c, st) \<Rightarrow>
        if has_own_eof eof st then (c, None)
        else
          let st' = add_own_eof eof expectedTotal st
          in seq_acts
               [on_storage (write_eof cid eof expectedTotal),
                upd (put_client_state cid st'),
                broadcast_eof cid eof expectedTotal,
                if has_all_eofs (expectedEOFs c) st' then broadcast_own_batches cid st' else ok,
                try_flush cid] c)"

definition handle_remote_eof :: "coordination_msg \<Rightarrow> 'e coord act" where
  "handle_remote_eof msg c0 =
     (let cid = ClientId msg; eof = EofID msg; peer = int (unat (SenderId msg))
      in case get_client_state cid c0 of (c, st) \<Rightarrow>
        if is_cleaned cid c then (c, None)
        else if has_peer_eof peer eof st then (c, None)
        else
          let st' = add_peer_eof peer eof (ExpectedTotal msg) st
          in seq_acts
               [upd (put_client_state cid st'),
                if has_all_eofs (expectedEOFs c) st' then broadcast_own_batches cid st' else ok,
                try_flush cid] c)"

definition add_information :: "int \<Rightarrow> batch_information \<Rightarrow> client_state \<Rightarrow> client_state" where
  "add_information peer i st =
     (if has_own_batch (infoBatchID i) st then st
      else add_peer_batch peer (record_of_information i) st)"

definition handle_remote_batch :: "coordination_msg \<Rightarrow> 'e coord act" where
  "handle_remote_batch msg c0 =
     (let cid = ClientId msg; peer = int (unat (SenderId msg))
      in if is_cleaned cid c0 then (c0, None)
         else case get_client_state cid c0 of (c, st) \<Rightarrow>
           try_flush cid (put_client_state cid (fold (add_information peer) (Information msg) st) c))"

definition clear_client :: "string \<Rightarrow> 'e coord act" where
  "clear_client cid c =
     on_storage (storage_clear_client cid)
       (c\<lparr>cleanedClients := mput cid True (cleanedClients c), clients := mdel cid (clients c)\<rparr>)"

text \<open>The error of \<open>ClearClient\<close> is dropped here.\<close>

definition handle_remote_cleanup :: "coordination_msg \<Rightarrow> 'e coord act" where
  "handle_remote_cleanup msg c =
     (if is_cleaned (ClientId msg) c then (c, None)
      else ignore_err (clear_client (ClientId msg)) c)"

definition peer_key :: "string \<Rightarrow> int \<Rightarrow> string" where
  "peer_key name i = name @ CHR ''.'' # show_int i"

definition wake_up_client :: "string \<Rightarrow> string \<times> client_state \<Rightarrow> 'e coord act" where
  "wake_up_client key = (\<lambda>(cid, st) c.
     then_act (for_each (\<lambda>(eof, n). send_eof key cid eof n) (ownEOFs st))
       (if \<not> has_all_eofs (expectedEOFs c) st then ok
        else send_own_batches (\<lambda>items batchID. response_to_wake_up items cid key) st) c)"

definition handle_wake_up :: "coordination_msg \<Rightarrow> 'e coord act" where
  "handle_wake_up msg c =
     for_each (wake_up_client (peer_key (workerName c) (int (unat (SenderId msg))))) (clients c) c"

text \<open>A delivery from the broker ends in an \<open>ack\<close> or in a \<open>nack\<close>, which requeues it.\<close>

datatype delivery = Ack | Nack

fun dispatch :: "coordination_msg \<Rightarrow> 'e coord act" where
  "dispatch msg =
     (case Type msg of
        WakeUp \<Rightarrow> handle_wake_up msg
      | EOFArrived \<Rightarrow> handle_remote_eof msg
      | BatchInformation \<Rightarrow> handle_remote_batch msg
      | Cleanup \<Rightarrow> handle_remote_cleanup msg
      | UnknownType \<Rightarrow> ok)"

text \<open>\<open>None\<close> is a message that does not deserialize.\<close>

definition handle_coordination_message ::
  "coordination_msg option \<Rightarrow> 'e coord \<Rightarrow> 'e coord \<times> delivery" where
  "handle_coordination_message m c =
     (case m of
        None \<Rightarrow> (c, Nack)
      | Some msg \<Rightarrow> (case dispatch msg c of (c', e) \<Rightarrow> (c', if e = None then Ack else Nack)))"

section \<open>Starting\<close>

text \<open>
  \<open>restoreFromStorage\<close> in the loop order of the code: the batches, the EOFs, the flushed clients.
\<close>

definition restore_batches :: "string \<times> (string, batch_record) gomap \<Rightarrow> 'e coord \<Rightarrow> 'e coord" where
  "restore_batches = (\<lambda>(cid, bs) c0.
     case get_client_state cid c0 of (c, st) \<Rightarrow>
       put_client_state cid (fold (\<lambda>(bid, r). add_own_batch r) bs st) c)"

definition restore_eofs :: "string \<times> (string, u64) gomap \<Rightarrow> 'e coord \<Rightarrow> 'e coord" where
  "restore_eofs = (\<lambda>(cid, es) c0.
     case get_client_state cid c0 of (c, st) \<Rightarrow>
       put_client_state cid (fold (\<lambda>(eof, n). add_own_eof eof n) es st) c)"

definition restore_flushed :: "string \<times> bool \<Rightarrow> 'e coord \<Rightarrow> 'e coord" where
  "restore_flushed = (\<lambda>(cid, b) c0.
     case get_client_state cid c0 of (c, st) \<Rightarrow> put_client_state cid (st\<lparr>flushed := True\<rparr>) c)"

definition restore_from_storage :: "'e coord act" where
  "restore_from_storage c =
     (case load_batches (storage c) of
        (t1, Inl e) \<Rightarrow> (c\<lparr>storage := t1\<rparr>, Some e)
      | (t1, Inr batches) \<Rightarrow>
          (case load_eofs t1 of
             (t2, Inl e) \<Rightarrow> (c\<lparr>storage := t2\<rparr>, Some e)
           | (t2, Inr eofs) \<Rightarrow>
               (case load_flushed t2 of
                  (t3, Inl e) \<Rightarrow> (c\<lparr>storage := t3\<rparr>, Some e)
                | (t3, Inr fl) \<Rightarrow>
                    (fold restore_flushed fl (fold restore_eofs eofs (fold restore_batches batches
                       (c\<lparr>storage := t3\<rparr>))), None))))"

definition defaultExpectedEOFs :: int where
  "defaultExpectedEOFs = 1"

record 'e coord_config =
  PeersExchangeName :: string
  WorkerID :: int
  WorkerCount :: int
  ExpectedEOFs :: int
  FlushHandler :: "string \<Rightarrow> u64 \<Rightarrow> string \<Rightarrow> 'e act"
  MaxBatchWeight :: int

definition peer_keys :: "string \<Rightarrow> int \<Rightarrow> int \<Rightarrow> string list" where
  "peer_keys name worker workers =
     map (peer_key name) (filter (\<lambda>i. i \<noteq> worker) [0 .. workers - 1])"

text \<open>
  \<open>NewEOFCoordinator\<close> over the storage a previous run left. \<open>make\<close> with a negative capacity
  panics, so a worker count below one does. Creating and setting up the exchange are external.
\<close>

definition new_eof_coordinator ::
  "'e coord_config \<Rightarrow> (batch_information \<Rightarrow> int) \<Rightarrow> bool list \<Rightarrow> storage \<Rightarrow> 'e \<Rightarrow>
   'e coord \<times> go_error option" where
  "new_eof_coordinator cfg isize os st h =
     (let c = \<lparr>outcomes = os, workerID = WorkerID cfg, workerName = PeersExchangeName cfg,
               expectedEOFs = word_of_int
                 (if ExpectedEOFs cfg = 0 then defaultExpectedEOFs else ExpectedEOFs cfg),
               publishKeys = peer_keys (PeersExchangeName cfg) (WorkerID cfg) (WorkerCount cfg),
               exchange = [], storage = st, flushHandler = FlushHandler cfg, clients = [],
               innerBatchWeight = MaxBatchWeight cfg, cleanedClients = [], infoSize = isize, host = h\<rparr>
      in seq_acts
           [call id (ErrOther ''exchange''),
            if WorkerCount cfg - 1 < 0 then fail Panic else ok,
            call id (ErrOther ''storage''),
            call id (ErrOther ''setup''),
            restore_from_storage] c)"

end
