(* ===== verification/CoordinatorBarrier.thy ===== *)
theory CoordinatorBarrier
  imports EOFCoordinator
begin

text \<open>
  What the coordinator guarantees about its flush handler: it succeeds at most once per client,
  only when the barrier is open, and with the survivors of every batch counted once. The proofs go
  through one locale, \<open>coord_invariant\<close>, which reduces an invariant of all operations to the few
  primitive changes they are made of.
\<close>

section \<open>Sends and file writes change neither the clients nor the host\<close>

definition core :: "'e coord \<Rightarrow> 'e coord" where
  "core c = c\<lparr>outcomes := [], exchange := [], storage := empty_storage\<rparr>"

lemma core_updates [simp]:
  "core (c\<lparr>outcomes := x\<rparr>) = core c" "core (c\<lparr>exchange := y\<rparr>) = core c"
  "core (c\<lparr>storage := z\<rparr>) = core c"
  by (simp_all add: core_def)

lemma storage_outcomes [simp]: "storage (c\<lparr>outcomes := x\<rparr>) = storage c"
  by (cases c) simp

lemma core_eqD:
  assumes "core c = core d"
  shows "clients c = clients d" "host c = host d" "expectedEOFs c = expectedEOFs d"
    "flushHandler c = flushHandler d" "cleanedClients c = cleanedClients d" "workerID c = workerID d"
    "workerName c = workerName d" "publishKeys c = publishKeys d"
    "innerBatchWeight c = innerBatchWeight d" "infoSize c = infoSize d"
  using assms by (cases c; cases d; simp add: core_def)+

definition quiet :: "'e coord act \<Rightarrow> bool" where
  "quiet a \<longleftrightarrow> (\<forall>k t. preserves (\<lambda>c. core c = k \<and> storage c = t) a)"

lemma quietI: "(\<And>k t. preserves (\<lambda>c. core c = k \<and> storage c = t) a) \<Longrightarrow> quiet a"
  by (simp add: quiet_def)

lemma quietD: "quiet a \<Longrightarrow> core (fst (a c)) = core c \<and> storage (fst (a c)) = storage c"
  by (simp add: quiet_def preserves_def)

lemma quiet_then [intro]: "quiet a \<Longrightarrow> quiet b \<Longrightarrow> quiet (then_act a b)"
  by (simp add: quiet_def preserves_then)

lemma quiet_for_each [intro]: "(\<And>x. x \<in> set xs \<Longrightarrow> quiet (f x)) \<Longrightarrow> quiet (for_each f xs)"
  by (simp add: quiet_def preserves_for_each)

lemma quiet_ok [simp, intro]: "quiet ok"
  by (simp add: quiet_def)

lemma quiet_read [intro]: "(\<And>d. quiet (f d)) \<Longrightarrow> quiet (\<lambda>c. f c c)"
  by (simp add: quiet_def preserves_def)

lemma quiet_call: "(\<And>c. core (eff c) = core c \<and> storage (eff c) = storage c) \<Longrightarrow> quiet (call eff err)"
  by (intro quietI preserves_call) auto

lemma quiet_send [simp, intro]: "quiet (send_with_key key msg)"
  unfolding send_with_key_def by (intro quiet_call) simp

lemma quiet_serialize [simp, intro]: "quiet (call id err)"
  by (intro quiet_call) simp

lemma quiet_broadcast [simp, intro]: "quiet (broadcast msg)"
  unfolding broadcast_def by (intro quiet_then quiet_serialize
      quiet_read [of "\<lambda>d. for_each (\<lambda>key. send_with_key key msg) (publishKeys d)"] quiet_for_each) simp

lemma quiet_broadcast_batch [simp, intro]: "quiet (broadcast_batch items cid)"
  unfolding broadcast_batch_def
  by (intro quiet_read [of "\<lambda>d. broadcast (batch_msg cid (sender_id d) items)"]) simp

lemma quiet_broadcast_eof [simp, intro]: "quiet (broadcast_eof cid eof n)"
  unfolding broadcast_eof_def
  by (intro quiet_read [of "\<lambda>d. broadcast (eof_msg cid (sender_id d) eof n)"]) simp

lemma quiet_send_eof [simp, intro]: "quiet (send_eof key cid eof n)"
  unfolding send_eof_def serialize_and_send_def
  by (intro quiet_read [of "\<lambda>d. then_act (call id serialize_error) (send_with_key key (eof_msg cid (sender_id d) eof n))"]
      quiet_then) simp_all

lemma quiet_response [simp, intro]: "quiet (response_to_wake_up items cid key)"
  unfolding response_to_wake_up_def serialize_and_send_def
  by (intro quiet_read [of "\<lambda>d. then_act (call id serialize_error) (send_with_key key (batch_msg cid (sender_id d) items))"]
      quiet_then) simp_all

lemma quiet_send_own:
  assumes "\<And>items i. quiet (f items i)"
  shows "quiet (send_own_batches f st)"
proof (rule quietI, rule preservesI)
  fix k t and c :: "'a coord"
  assume c: "core c = k \<and> storage c = t"
  let ?a = "then_act (for_each (batcher_add f) (map (\<lambda>(bid, r). transform_batch_to_proto r) (ownBatches st)))
      (batcher_flush f)"
  have "preserves (\<lambda>(s, w). core w = k \<and> storage w = t) ?a"
    using assms by (intro pres_intros) (simp_all add: quiet_def)
  from preservesD [OF this, of "(info_batcher c, c)"] c
  have "core (snd (fst (?a (info_batcher c, c)))) = k \<and> storage (snd (fst (?a (info_batcher c, c)))) = t"
    by (cases "fst (?a (info_batcher c, c))") simp
  then show "core (fst (send_own_batches f st c)) = k \<and> storage (fst (send_own_batches f st c)) = t"
    unfolding send_own_batches_def by (auto split: prod.split)
qed

lemma quiet_broadcast_own [simp, intro]: "quiet (broadcast_own_batches cid st)"
  unfolding broadcast_own_batches_def by (rule quiet_send_own) simp

lemma quiet_wake_up_client [simp, intro]: "quiet (wake_up_client key e)"
proof -
  obtain cid st where e: "e = (cid, st)" by fastforce
  have "quiet (then_act (for_each (\<lambda>(eof, n). send_eof key cid eof n) (ownEOFs st))
       (if \<not> has_all_eofs (expectedEOFs d) st then ok
        else send_own_batches (\<lambda>items batchID. response_to_wake_up items cid key) st))" for d :: "'a coord"
    by (auto intro!: quiet_then quiet_for_each quiet_send_own)
  from quiet_read [of "\<lambda>d. then_act (for_each (\<lambda>(eof, n). send_eof key cid eof n) (ownEOFs st))
       (if \<not> has_all_eofs (expectedEOFs d) st then ok
        else send_own_batches (\<lambda>items batchID. response_to_wake_up items cid key) st)", OF this]
  show ?thesis by (simp add: e wake_up_client_def)
qed

lemma quiet_handle_wake_up [simp, intro]: "quiet (handle_wake_up msg)"
  unfolding handle_wake_up_def
  by (intro quiet_read [of "\<lambda>d. for_each (wake_up_client (peer_key (workerName d)
      (int (unat (SenderId msg))))) (clients d)"] quiet_for_each) simp

text \<open>A file write is not quiet, but it leaves the core alone.\<close>

definition keeps_core :: "'e coord act \<Rightarrow> bool" where
  "keeps_core a \<longleftrightarrow> (\<forall>c. core (fst (a c)) = core c)"

lemma keeps_coreD: "keeps_core a \<Longrightarrow> core (fst (a c)) = core c"
  by (simp add: keeps_core_def)

lemma keeps_core_quiet [simp, intro]: "quiet a \<Longrightarrow> keeps_core a"
  using quietD by (auto simp: keeps_core_def)

lemma keeps_core_on_storage [simp, intro]: "keeps_core (on_storage a)"
  by (simp add: keeps_core_def on_storage_def zoom_def case_prod_unfold)

section \<open>Events\<close>

text \<open>
  What can happen to a coordinator between its start and its end: a call of the engine, a delivery
  of the exchange. The error of a call is the engine's business; here only the state counts.
\<close>

datatype coord_event =
    Record string string u64 u64
  | LocalEOF string u64 string
  | Deliver "coordination_msg option"
  | WakeUpPeers
  | SeenQuery string string
  | EOFQuery string
  | CleanupPeers string
  | ClearClient string

fun coord_step :: "coord_event \<Rightarrow> 'e coord \<Rightarrow> 'e coord" where
  "coord_step (Record cid bid p s) c = fst (record_batch cid bid p s c)"
| "coord_step (LocalEOF cid n eof) c = fst (handle_local_eof cid n eof c)"
| "coord_step (Deliver m) c = fst (handle_coordination_message m c)"
| "coord_step WakeUpPeers c = fst (wake_up_notification c)"
| "coord_step (SeenQuery cid bid) c = fst (has_seen_batch cid bid c)"
| "coord_step (EOFQuery cid) c = fst (reached_eof_amount cid c)"
| "coord_step (CleanupPeers cid) c = fst (broadcast_cleanup cid c)"
| "coord_step (ClearClient cid) c = fst (clear_client cid c)"

definition coord_run :: "coord_event list \<Rightarrow> 'e coord \<Rightarrow> 'e coord" where
  "coord_run evs c = fold coord_step evs c"

text \<open>The facts an event brings about a client, and whether it clears one.\<close>

fun msg_facts :: "coordination_msg \<Rightarrow> (string \<times> fact) list" where
  "msg_facts m =
     (case Type m of
        EOFArrived \<Rightarrow> [(ClientId m, PeerEOF (int (unat (SenderId m))) (EofID m) (ExpectedTotal m))]
      | BatchInformation \<Rightarrow>
          map (\<lambda>i. (ClientId m, PeerBatch (int (unat (SenderId m))) (record_of_information i))) (Information m)
      | _ \<Rightarrow> [])"

fun event_facts :: "coord_event \<Rightarrow> (string \<times> fact) list" where
  "event_facts (Record cid bid p s) = [(cid, OwnBatch \<lparr>BatchID = bid, Processed = p, Survivors = s\<rparr>)]"
| "event_facts (LocalEOF cid n eof) = [(cid, OwnEOF eof n)]"
| "event_facts (Deliver (Some m)) = msg_facts m"
| "event_facts _ = []"

fun clears :: "coord_event \<Rightarrow> bool" where
  "clears (ClearClient cid) = True"
| "clears (Deliver (Some m)) = (Type m = Cleanup)"
| "clears _ = False"

section \<open>Invariants of all operations\<close>

locale coord_invariant =
  fixes I :: "'e coord \<Rightarrow> bool"
    and allowed :: "string \<Rightarrow> fact \<Rightarrow> bool"
    and clearing :: bool
  assumes frame: "core c' = core c \<Longrightarrow> I c \<Longrightarrow> I c'"
    and opens: "I c \<Longrightarrow> mget (clients c) cid = None \<Longrightarrow> I (put_client_state cid new_client_state c)"
    and learns: "I c \<Longrightarrow> mget (clients c) cid = Some st \<Longrightarrow> allowed cid x \<Longrightarrow>
      I (put_client_state cid (learn x st) c)"
    and flushes: "I c \<Longrightarrow> mget (clients c) cid = Some st \<Longrightarrow> is_ready_to_flush (expectedEOFs c) st \<Longrightarrow>
      flushHandler c cid (snd (totals st)) (lastEOFID st) (host c) = (h, e) \<Longrightarrow>
      I (if e = None then put_client_state cid (st\<lparr>flushed := True\<rparr>) (c\<lparr>host := h\<rparr>) else c\<lparr>host := h\<rparr>)"
    and forgets: "I c \<Longrightarrow> clearing \<Longrightarrow>
      I (c\<lparr>cleanedClients := mput cid True (cleanedClients c), clients := mdel cid (clients c)\<rparr>)"
begin

lemma keeps: "keeps_core a \<Longrightarrow> preserves I a"
  by (rule preservesI) (metis frame keeps_coreD)

lemma get_state:
  assumes "I c" "get_client_state cid c = (c', st)"
  shows "I c' \<and> mget (clients c') cid = Some st"
  using assms opens [of c cid]
  by (auto simp: get_client_state_def put_client_state_def mget_mput split: option.splits)

lemma try_flush: "preserves I (try_flush cid)"
proof (rule preservesI)
  fix c0
  assume "I c0"
  obtain c st where g: "get_client_state cid c0 = (c, st)" by fastforce
  then have c: "I c" "mget (clients c) cid = Some st" using get_state [OF \<open>I c0\<close> g] by auto
  obtain h e where h: "flushHandler c cid (snd (totals st)) (lastEOFID st) (host c) = (h, e)" by fastforce
  show "I (fst (try_flush cid c0))"
  proof (cases "is_ready_to_flush (expectedEOFs c) st")
    case True
    from flushes [OF c this h] g h True show ?thesis
      by (cases e) (auto simp: try_flush_def intro: preservesD [OF keeps [OF keeps_core_on_storage]])
  qed (use g c in \<open>simp add: try_flush_def\<close>)
qed

lemma keeps_state: "keeps_core a \<Longrightarrow>
    preserves (\<lambda>c. I c \<and> mget (clients c) cid = Some st) a"
  by (rule preservesI) (metis frame keeps_coreD core_eqD(1))

lemma learn_state:
  assumes "allowed cid x"
  shows "triple (\<lambda>c. I c \<and> mget (clients c) cid = Some st) (upd (put_client_state cid (learn x st)))
     (\<lambda>c. I c \<and> mget (clients c) cid = Some (learn x st)) I"
  by (rule triple_upd) (use assms learns in \<open>auto simp: put_client_state_def mget_mput\<close>)

lemma keeps_step: "keeps_core a \<Longrightarrow>
    triple (\<lambda>c. I c \<and> mget (clients c) cid = Some st) a (\<lambda>c. I c \<and> mget (clients c) cid = Some st) I"
  by (rule triple_preserves [OF keeps_state]) auto

lemma last_flush: "triple (\<lambda>c. I c \<and> mget (clients c) cid = Some st) (try_flush cid) I I"
  using try_flush by (auto simp: triple_def preserves_def)

lemma record_batch:
  assumes "allowed cid (OwnBatch \<lparr>BatchID = bid, Processed = p, Survivors = s\<rparr>)"
  shows "preserves I (record_batch cid bid p s)"
proof (rule preservesI)
  fix c0
  assume "I c0"
  obtain c st where g: "get_client_state cid c0 = (c, st)" by fastforce
  then have c: "I c \<and> mget (clients c) cid = Some st" using get_state [OF \<open>I c0\<close> g] by auto
  let ?r = "\<lparr>BatchID = bid, Processed = p, Survivors = s\<rparr>"
  have "triple (\<lambda>c. I c \<and> mget (clients c) cid = Some st)
      (seq_acts
         [if has_all_eofs (expectedEOFs c) st then broadcast_batch [transform_batch_to_proto ?r] cid else ok,
          on_storage (write_batch cid ?r), upd (put_client_state cid (learn (OwnBatch ?r) st)), try_flush cid]) I I"
    by (rule triple_seq_Cons, rule keeps_step, simp,
        rule triple_seq_Cons, rule keeps_step, simp,
        rule triple_seq_Cons, rule learn_state [OF assms],
        rule triple_seq_Cons, rule last_flush, rule triple_seq_Nil, assumption)
  from tripleD [OF this c] g c show "I (fst (record_batch cid bid p s c0))"
    by (simp add: record_batch_def Let_def split: if_splits)
qed

lemma handle_local_eof:
  assumes "allowed cid (OwnEOF eof n)"
  shows "preserves I (handle_local_eof cid n eof)"
proof (rule preservesI)
  fix c0
  assume "I c0"
  obtain c st where g: "get_client_state cid c0 = (c, st)" by fastforce
  then have c: "I c \<and> mget (clients c) cid = Some st" using get_state [OF \<open>I c0\<close> g] by auto
  let ?st = "learn (OwnEOF eof n) st"
  have "triple (\<lambda>c. I c \<and> mget (clients c) cid = Some st)
      (seq_acts
         [on_storage (write_eof cid eof n), upd (put_client_state cid ?st), broadcast_eof cid eof n,
          if has_all_eofs (expectedEOFs c) ?st then broadcast_own_batches cid ?st else ok, try_flush cid]) I I"
    by (rule triple_seq_Cons, rule keeps_step, simp,
        rule triple_seq_Cons, rule learn_state [OF assms],
        rule triple_seq_Cons, rule keeps_step, simp,
        rule triple_seq_Cons, rule keeps_step, simp,
        rule triple_seq_Cons, rule last_flush, rule triple_seq_Nil, assumption)
  from tripleD [OF this c] g c show "I (fst (handle_local_eof cid n eof c0))"
    by (simp add: handle_local_eof_def Let_def split: if_splits)
qed

lemma handle_remote_eof:
  assumes "allowed (ClientId m) (PeerEOF (int (unat (SenderId m))) (EofID m) (ExpectedTotal m))"
  shows "preserves I (handle_remote_eof m)"
proof (rule preservesI)
  fix c0
  assume "I c0"
  let ?cid = "ClientId m"
  obtain c st where g: "get_client_state ?cid c0 = (c, st)" by fastforce
  then have c: "I c \<and> mget (clients c) ?cid = Some st" using get_state [OF \<open>I c0\<close> g] by auto
  let ?st = "learn (PeerEOF (int (unat (SenderId m))) (EofID m) (ExpectedTotal m)) st"
  have "triple (\<lambda>c. I c \<and> mget (clients c) ?cid = Some st)
      (seq_acts
         [upd (put_client_state ?cid ?st),
          if has_all_eofs (expectedEOFs c) ?st then broadcast_own_batches ?cid ?st else ok, try_flush ?cid]) I I"
    by (rule triple_seq_Cons, rule learn_state [OF assms],
        rule triple_seq_Cons, rule keeps_step, simp,
        rule triple_seq_Cons, rule last_flush, rule triple_seq_Nil, assumption)
  from tripleD [OF this c] g c show "I (fst (handle_remote_eof m c0))"
    by (simp add: handle_remote_eof_def Let_def split: if_splits)
qed

lemma add_informations:
  assumes "I c" "mget (clients c) cid = Some st"
    and "\<forall>i \<in> set is. allowed cid (PeerBatch p (record_of_information i))"
  shows "I (put_client_state cid (fold (add_information p) is st) c)"
  using assms
proof (induction "is" arbitrary: c st)
  case Nil
  then show ?case by (simp add: put_client_state_def mput_same)
next
  case (Cons i "is")
  let ?st = "add_information p i st"
  have "I (put_client_state cid ?st c)"
    using Cons.prems learns [of c cid st "PeerBatch p (record_of_information i)"]
    by (auto simp: add_information_def put_client_state_def mput_same)
  then have "I (put_client_state cid (fold (add_information p) is ?st) (put_client_state cid ?st c))"
    using Cons.prems by (intro Cons.IH) (auto simp: put_client_state_def mget_mput)
  moreover have "put_client_state cid x (put_client_state cid ?st c) = put_client_state cid x c" for x
    by (simp add: put_client_state_def)
  ultimately show ?case by simp
qed

lemma handle_remote_batch:
  assumes "\<forall>i \<in> set (Information m). allowed (ClientId m) (PeerBatch (int (unat (SenderId m))) (record_of_information i))"
  shows "preserves I (handle_remote_batch m)"
proof (rule preservesI)
  fix c0
  assume "I c0"
  let ?cid = "ClientId m"
  obtain c st where g: "get_client_state ?cid c0 = (c, st)" by fastforce
  then have "I c" "mget (clients c) ?cid = Some st" using get_state [OF \<open>I c0\<close> g] by auto
  from preservesD [OF try_flush add_informations [OF this assms]] \<open>I c0\<close> g
  show "I (fst (handle_remote_batch m c0))"
    by (simp add: handle_remote_batch_def Let_def)
qed

lemma clear_client: "clearing \<Longrightarrow> preserves I (clear_client cid)"
  by (rule preservesI)
     (auto simp: clear_client_def intro: preservesD [OF keeps [OF keeps_core_on_storage]] forgets)

lemma coord_step:
  assumes "I c" "\<forall>(cid, x) \<in> set (event_facts ev). allowed cid x" "clears ev \<longrightarrow> clearing"
  shows "I (coord_step ev c)"
proof (cases ev)
  case (Deliver m)
  show ?thesis
  proof (cases m)
    case (Some msg)
    have "I (fst (dispatch msg c))"
    proof (cases "Type msg")
      case WakeUp
      then show ?thesis using preservesD [OF keeps [OF keeps_core_quiet [OF quiet_handle_wake_up]] assms(1)] by simp
    next
      case EOFArrived
      with assms(2) have "preserves I (handle_remote_eof msg)"
        by (intro handle_remote_eof) (simp add: Deliver Some)
      with EOFArrived assms(1) show ?thesis by (simp add: preserves_def)
    next
      case BatchInformation
      with assms(2) have "preserves I (handle_remote_batch msg)"
        by (intro handle_remote_batch) (simp add: Deliver Some)
      with BatchInformation assms(1) show ?thesis by (simp add: preserves_def)
    next
      case Cleanup
      then have "preserves I (clear_client (ClientId msg))"
        using assms(3) by (intro clear_client) (simp add: Deliver Some)
      then show ?thesis using Cleanup assms(1) by (simp add: handle_remote_cleanup_def preserves_def ignore_err_def)
    next
      case UnknownType
      then show ?thesis using assms(1) by (simp add: ok_def)
    qed
    then show ?thesis
      by (auto simp: Deliver Some handle_coordination_message_def split: prod.split simp del: dispatch.simps)
  qed (simp add: Deliver assms(1) handle_coordination_message_def)
next
  case WakeUpPeers
  then show ?thesis
    using assms(1) preservesD [OF keeps [OF keeps_core_quiet [OF quiet_broadcast]]] by (simp add: wake_up_notification_def)
next
  case (CleanupPeers cid)
  then show ?thesis
    using assms(1) preservesD [OF keeps [OF keeps_core_quiet [OF quiet_broadcast]]] by (simp add: broadcast_cleanup_def)
next
  case (ClearClient cid)
  then show ?thesis using assms clear_client by (auto dest: preservesD)
next
  case (SeenQuery cid bid)
  then show ?thesis
    using assms(1) get_state [of c cid] by (cases "get_client_state cid c") (simp add: has_seen_batch_def)
next
  case (EOFQuery cid)
  then show ?thesis
    using assms(1) get_state [of c cid] by (cases "get_client_state cid c") (simp add: reached_eof_amount_def)
qed (use assms in \<open>auto intro: preservesD [OF record_batch] preservesD [OF handle_local_eof]\<close>)

lemma coord_run:
  assumes "I c" "\<forall>ev \<in> set evs. (\<forall>(cid, x) \<in> set (event_facts ev). allowed cid x) \<and> (clears ev \<longrightarrow> clearing)"
  shows "I (coord_run evs c)"
  using assms unfolding coord_run_def
  by (induction evs arbitrary: c) (auto intro!: coord_step simp del: event_facts.simps clears.simps)

end


section \<open>Flushing once, and with the right count\<close>

text \<open>
  A handler that counts its successes: the host is paired with the list of the completed flushes.
\<close>

type_synonym flush_log = "(string \<times> u64 \<times> string) list"

definition counted :: "(string \<Rightarrow> u64 \<Rightarrow> string \<Rightarrow> 'e act) \<Rightarrow> string \<Rightarrow> u64 \<Rightarrow> string \<Rightarrow> ('e \<times> flush_log) act" where
  "counted H cid n eof = (\<lambda>(h, log).
     case H cid n eof h of
       (h', None) \<Rightarrow> ((h', log @ [(cid, n, eof)]), None)
     | (h', Some e) \<Rightarrow> ((h', log), Some e))"

definition flush_once_inv :: "(string \<Rightarrow> u64 \<Rightarrow> string \<Rightarrow> 'e act) \<Rightarrow> ('e \<times> flush_log) coord \<Rightarrow> bool" where
  "flush_once_inv H c \<longleftrightarrow> flushHandler c = counted H \<and> distinct (map fst (snd (host c))) \<and>
     (\<forall>cid \<in> fst ` set (snd (host c)). \<exists>st. mget (clients c) cid = Some st \<and> flushed st)"

lemma flushed_learn [simp]: "flushed (learn x st) = flushed st"
  by (cases x) (simp_all add: add_own_batch_def add_peer_batch_def add_own_eof_def add_peer_eof_def
      get_last_eof_id_def)

lemma put_client_state_sel [simp]:
  "clients (put_client_state cid st c) = mput cid st (clients c)"
  "host (put_client_state cid st c) = host c"
  "flushHandler (put_client_state cid st c) = flushHandler c"
  "expectedEOFs (put_client_state cid st c) = expectedEOFs c"
  by (simp_all add: put_client_state_def)

interpretation flush_once: coord_invariant "flush_once_inv H" "\<lambda>_ _. True" False for H
proof unfold_locales
  fix c c' :: "('a \<times> flush_log) coord"
  assume "core c' = core c" "flush_once_inv H c"
  then show "flush_once_inv H c'" using core_eqD [of c' c] by (simp add: flush_once_inv_def)
next
  fix c :: "('a \<times> flush_log) coord" and cid
  assume "flush_once_inv H c" "mget (clients c) cid = None"
  then show "flush_once_inv H (put_client_state cid new_client_state c)"
    by (fastforce simp: flush_once_inv_def mget_mput)
next
  fix c :: "('a \<times> flush_log) coord" and cid st x
  assume "flush_once_inv H c" "mget (clients c) cid = Some st"
  then show "flush_once_inv H (put_client_state cid (learn x st) c)"
    by (fastforce simp: flush_once_inv_def mget_mput)
next
  fix c :: "('a \<times> flush_log) coord" and cid st h e
  assume I: "flush_once_inv H c" and st: "mget (clients c) cid = Some st"
    and r: "is_ready_to_flush (expectedEOFs c) st"
    and f: "flushHandler c cid (snd (totals st)) (lastEOFID st) (host c) = (h, e)"
  have new: "cid \<notin> fst ` set (snd (host c))"
    using I st r by (auto simp: flush_once_inv_def is_ready_to_flush_def)
  obtain h0 log where hc: "host c = (h0, log)" by fastforce
  show "flush_once_inv H (if e = None then put_client_state cid (st\<lparr>flushed := True\<rparr>) (c\<lparr>host := h\<rparr>)
      else c\<lparr>host := h\<rparr>)"
    using I f new hc
    by (auto simp: flush_once_inv_def counted_def mget_mput split: prod.splits option.splits)
qed (simp_all add: flush_once_inv_def)

text \<open>
  The log of a run whose facts are true: each completed flush had enough EOFs and batches, counted
  every survivor once, and was labelled with the greatest EOF identifier.
\<close>

definition true_flush ::
  "(string \<Rightarrow> string \<Rightarrow> batch_record) \<Rightarrow> (string \<Rightarrow> string \<Rightarrow> u64) \<Rightarrow> u32 \<Rightarrow> string \<times> u64 \<times> string \<Rightarrow> bool" where
  "true_flush B E expected = (\<lambda>(cid, n, eof).
     \<exists>bs es. finite bs \<and> finite es \<and> es \<noteq> {} \<and> expected \<le> of_nat (card es) \<and>
       (\<Sum>e \<in> es. E cid e) \<le> (\<Sum>b \<in> bs. Processed (B cid b)) \<and>
       n = (\<Sum>b \<in> bs. Survivors (B cid b)) \<and> eof = Max es)"

definition true_flush_inv ::
  "(string \<Rightarrow> string \<Rightarrow> batch_record) \<Rightarrow> (string \<Rightarrow> string \<Rightarrow> u64) \<Rightarrow> u32 \<Rightarrow>
   (string \<Rightarrow> u64 \<Rightarrow> string \<Rightarrow> 'e act) \<Rightarrow> ('e \<times> flush_log) coord \<Rightarrow> bool" where
  "true_flush_inv B E expected H c \<longleftrightarrow>
     flushHandler c = counted H \<and> expectedEOFs c = expected \<and> 0 < expected \<and>
     (\<forall>cid st. mget (clients c) cid = Some st \<longrightarrow> (\<exists>bs es. good_with (B cid) (E cid) bs es st)) \<and>
     (\<forall>x \<in> set (snd (host c)). true_flush B E expected x)"

lemma good_with_finite:
  assumes "good_with B E bs es st"
  shows "finite bs" "finite es"
proof -
  have "fst ` set (reports st) = bs" "fst ` set (eof_reports st) = es"
    using assms by (simp_all add: good_with_def holds_exactly_def image_image)
  then show "finite bs" "finite es" by (metis finite_imageI finite_set)+
qed

lemma ready_true_flush:
  assumes "good_with (B cid) (E cid) bs es st" "is_ready_to_flush expected st" "0 < expected"
  shows "true_flush B E expected (cid, snd (totals st), lastEOFID st)"
proof -
  have h: "holds_exactly (B cid) (E cid) bs es st" using assms(1) by (simp add: good_with_def)
  have r: "expected \<le> of_nat (card es)" "(\<Sum>e \<in> es. E cid e) \<le> (\<Sum>b \<in> bs. Processed (B cid b))"
    using assms(2) holds_exactly_totals [OF h] by (simp_all add: is_ready_to_flush_def has_all_eofs_def)
  then have "es \<noteq> {}" using assms(3) by auto
  moreover have "lastEOFID st = Max es"
    using assms(1) \<open>es \<noteq> {}\<close> by (simp add: good_with_def)
  ultimately show ?thesis
    using good_with_finite [OF assms(1)] r holds_exactly_totals [OF h]
    unfolding true_flush_def prod.case
    by (intro exI [of _ bs] exI [of _ es] conjI) simp_all
qed

interpretation true_flush: coord_invariant "true_flush_inv B E expected H"
  "\<lambda>cid x. true_fact (B cid) (E cid) x" True for B E expected H
proof unfold_locales
  fix c c' :: "('a \<times> flush_log) coord"
  assume "core c' = core c" "true_flush_inv B E expected H c"
  then show "true_flush_inv B E expected H c'" using core_eqD [of c' c] by (simp add: true_flush_inv_def)
next
  fix c :: "('a \<times> flush_log) coord" and cid
  assume "true_flush_inv B E expected H c"
  then show "true_flush_inv B E expected H (put_client_state cid new_client_state c)"
    using good_with_new [of "B cid" "E cid"]
    by (auto simp: true_flush_inv_def mget_mput simp del: good_with_new)
next
  fix c :: "('a \<times> flush_log) coord" and cid st x
  assume "true_flush_inv B E expected H c" "mget (clients c) cid = Some st" "true_fact (B cid) (E cid) x"
  then show "true_flush_inv B E expected H (put_client_state cid (learn x st) c)"
    using good_with_learn [of "B cid" "E cid" _ _ st x] by (fastforce simp: true_flush_inv_def mget_mput)
next
  fix c :: "('a \<times> flush_log) coord" and cid st h e
  assume I: "true_flush_inv B E expected H c" and st: "mget (clients c) cid = Some st"
    and r: "is_ready_to_flush (expectedEOFs c) st"
    and f: "flushHandler c cid (snd (totals st)) (lastEOFID st) (host c) = (h, e)"
  obtain h0 log where hc: "host c = (h0, log)" by fastforce
  obtain bs es where g: "good_with (B cid) (E cid) bs es st" using I st unfolding true_flush_inv_def by blast
  then have "true_flush B E expected (cid, snd (totals st), lastEOFID st)"
    using ready_true_flush r I by (metis true_flush_inv_def)
  then show "true_flush_inv B E expected H
      (if e = None then put_client_state cid (st\<lparr>flushed := True\<rparr>) (c\<lparr>host := h\<rparr>) else c\<lparr>host := h\<rparr>)"
    using I f g hc
    by (auto simp: true_flush_inv_def counted_def mget_mput split: prod.splits option.splits)
next
  fix c :: "('a \<times> flush_log) coord" and cid
  assume "true_flush_inv B E expected H c"
  then show "true_flush_inv B E expected H
      (c\<lparr>cleanedClients := mput cid True (cleanedClients c), clients := mdel cid (clients c)\<rparr>)"
    by (auto simp: true_flush_inv_def mget_mdel)
qed


section \<open>Reaching the peers\<close>

text \<open>What the broker delivers to the queue bound to one key.\<close>

definition inbox :: "string \<Rightarrow> 'e coord \<Rightarrow> coordination_msg list" where
  "inbox k c = map snd (filter (\<lambda>m. fst m = k) (exchange c))"

lemma send_with_key_works:
  "outcomes c = [] \<Longrightarrow> send_with_key k msg c = (c\<lparr>exchange := exchange c @ [(k, msg)]\<rparr>, None)"
  by (simp add: send_with_key_def call_no_faults)

lemma sends_work:
  "outcomes c = [] \<Longrightarrow> for_each (\<lambda>k. send_with_key k msg) ks c =
     (c\<lparr>exchange := exchange c @ map (\<lambda>k. (k, msg)) ks\<rparr>, None)"
  by (induction ks arbitrary: c) (simp_all add: ok_def then_act_def send_with_key_works)

lemma broadcast_works:
  "outcomes c = [] \<Longrightarrow> broadcast msg c =
     (c\<lparr>exchange := exchange c @ map (\<lambda>k. (k, msg)) (publishKeys c)\<rparr>, None)"
  by (simp add: broadcast_def then_act_def call_no_faults sends_work)

lemma filter_key: "distinct ks \<Longrightarrow> k \<in> set ks \<Longrightarrow> filter (\<lambda>m. fst m = k) (map (\<lambda>k. (k, m)) ks) = [(k, m)]"
  by (induction ks) (auto simp: filter_empty_conv)

definition can_reach :: "string \<Rightarrow> u32 \<Rightarrow> 'e coord \<Rightarrow> bool" where
  "can_reach k w c \<longleftrightarrow> outcomes c = [] \<and> k \<in> set (publishKeys c) \<and> distinct (publishKeys c) \<and> sender_id c = w"

text \<open>Broadcasting a chunk is a sink for batches: each peer's queue receives every chunk once.\<close>

interpretation peer_sink: flush_sink "\<lambda>items i. broadcast_batch items cid" "\<lambda>i items. batch_msg cid w items"
  "inbox k" "can_reach k w" for cid w k
  by unfold_locales
    (simp_all add: can_reach_def broadcast_batch_def broadcast_works inbox_def filter_key sender_id_def)

lemma show_int_inject: "show_int i = show_int j \<Longrightarrow> 0 \<le> i \<Longrightarrow> 0 \<le> j \<Longrightarrow> i = j"
  by (simp add: show_int_def)

lemma peer_keys_distinct: "distinct (peer_keys name w n)"
  unfolding peer_keys_def
  by (auto simp: distinct_map inj_on_def peer_key_def dest: show_int_inject)

lemma in_peer_keys: "0 \<le> p \<Longrightarrow> p < n \<Longrightarrow> p \<noteq> w \<Longrightarrow> peer_key name p \<in> set (peer_keys name w n)"
  by (auto simp: peer_keys_def)


lemma send_own_batches_cut:
  assumes "can_reach k w c" "ownBatches st \<noteq> []" "\<forall>i. 0 < infoSize c i"
  shows "\<exists>c' chunks. broadcast_own_batches cid st c = (c', None) \<and>
    inbox k c' = inbox k c @ map (batch_msg cid w) chunks \<and>
    is_cut (infoSize c) (maxWeight (batch (info_batcher c)))
      (map (\<lambda>(b, r). transform_batch_to_proto r) (ownBatches st)) chunks"
proof -
  let ?xs = "map (\<lambda>(b, r). transform_batch_to_proto r) (ownBatches st)"
  let ?s = "info_batcher c"
  have b: "batch_ok (batch ?s)" "batchItems (batch ?s) = []" "sizer (batch ?s) = infoSize c"
    "wrapper (batch ?s) = (\<lambda>xs. xs)"
    by (simp_all add: info_batcher_def new_batcher_def new_batch_ok) (simp_all add: new_batch_def)
  have ne: "?xs \<noteq> []" using assms(2) by simp
  have pos: "\<forall>x \<in> set ?xs. 0 < sizer (batch ?s) x" using assms(3) b by simp
  have entries: "map (case_prod (\<lambda>i items. batch_msg cid w items)) ps = map (batch_msg cid w) (map snd ps)"
    for ps :: "(string \<times> batch_information list) list"
    by (induction ps) auto
  obtain s' c' chunks where r: "is_cut (infoSize c) (maxWeight (batch ?s)) ?xs chunks"
    "then_act (for_each (batcher_add (\<lambda>items i. broadcast_batch items cid)) ?xs)
       (batcher_flush (\<lambda>items i. broadcast_batch items cid)) (?s, c) = ((s', c'), None)"
    "inbox k c' = inbox k c @ map (batch_msg cid w) chunks"
    using peer_sink.add_all_flush_cut [OF assms(1) b(1,2) ne pos, of cid] b
    by (auto simp: entries)
  then have "broadcast_own_batches cid st c = (c', None)"
    by (simp add: broadcast_own_batches_def send_own_batches_def)
  with r show ?thesis by blast
qed

section \<open>Properties\<close>

text \<open>
  C13. At most one flush. In every run of a coordinator that does not clear clients, whatever the
  order of the calls of the engine and of the deliveries, whichever sends, file operations and
  flush attempts fail, and however often messages are repeated, the flush handler succeeds at most
  once for each client.
\<close>

theorem coordinator_flushes_once:
  assumes "flushHandler c = counted H" "snd (host c) = []" "\<forall>ev \<in> set evs. \<not> clears ev"
  shows "distinct (map fst (snd (host (coord_run evs c))))"
proof -
  have "flush_once_inv H c" using assms by (simp add: flush_once_inv_def)
  from flush_once.coord_run [OF this, of evs] assms(3) show ?thesis
    by (auto simp: flush_once_inv_def)
qed

text \<open>
  C12. A flush is complete. In every run of a coordinator, if the messages and calls report each batch
  and each EOF of a client with its true contents, then every completed flush of a client came
  after the expected number of different EOFs, when the batches known add up to at least the total
  the EOFs announced; it passed on the sum of the survivors with each batch counted once, whoever
  reported it, and the greatest EOF identifier (sums of \<open>uint64\<close>).
\<close>

theorem coordinator_flush_is_complete:
  assumes "flushHandler c = counted H" "snd (host c) = []" "clients c = []" "0 < expectedEOFs c"
    and "\<forall>ev \<in> set evs. \<forall>(cid, x) \<in> set (event_facts ev). true_fact (B cid) (E cid) x"
    and "(cid, n, eof) \<in> set (snd (host (coord_run evs c)))"
  shows "\<exists>bs es. finite bs \<and> finite es \<and> es \<noteq> {} \<and> expectedEOFs c \<le> of_nat (card es) \<and>
       (\<Sum>e \<in> es. E cid e) \<le> (\<Sum>b \<in> bs. Processed (B cid b)) \<and>
       n = (\<Sum>b \<in> bs. Survivors (B cid b)) \<and> eof = Max es"
proof -
  have "true_flush_inv B E (expectedEOFs c) H c" using assms(1-4) by (simp add: true_flush_inv_def)
  from true_flush.coord_run [OF this, of evs] assms(5,6) show ?thesis
    by (fastforce simp: true_flush_inv_def true_flush_def)
qed


text \<open>
  A failed EOF is not retried. Once an EOF is recorded on disk, an error of \<open>HandleLocalEOF\<close>
  (of a broadcast, or of the flush handler) makes the engine requeue the EOF, but the
  redelivered EOF is taken for a duplicate and acknowledged without doing anything: neither the
  broadcast nor the flush is attempted again.
\<close>

theorem failed_local_eof_is_not_retried:
  assumes "handle_local_eof cid n eof c = (c1, Some e)"
    and "snd (write_eof cid eof n (storage c)) = None"
  shows "handle_local_eof cid m eof c1 = (c1, None)"
proof -
  obtain c0 st where g: "get_client_state cid c = (c0, st)" by fastforce
  let ?st = "add_own_eof eof n st"
  have s: "storage c0 = storage c"
    using g by (auto simp: get_client_state_def split: option.splits)
  let ?known = "\<lambda>c. \<exists>st. mget (clients c) cid = Some st \<and> has_own_eof eof st"
  obtain c2 where w: "on_storage (write_eof cid eof n) c0 = (c2, None)"
    using assms(2) s by (cases "write_eof cid eof n (storage c)") (auto simp: on_storage_def zoom_def)
  have k: "preserves ?known a" if "keeps_core a" for a :: "'a coord act"
    using that core_eqD(1) [OF keeps_coreD [OF that]] by (auto simp: preserves_def)
  have t: "preserves ?known (try_flush cid :: 'a coord act)"
  proof (rule preservesI)
    fix d :: "'a coord"
    assume "?known d"
    then obtain st where d: "mget (clients d) cid = Some st" "has_own_eof eof st" by blast
    then have "?known (put_client_state cid (st\<lparr>flushed := True\<rparr>) (d\<lparr>host := h\<rparr>))" for h
      by (simp add: mget_mput has_own_eof_def)
    then have "?known (fst (on_storage (write_flushed cid) (put_client_state cid (st\<lparr>flushed := True\<rparr>) (d\<lparr>host := h\<rparr>))))" for h
      by (rule preservesD [OF k [OF keeps_core_on_storage]])
    with d show "?known (fst (try_flush cid d))"
      by (auto simp: try_flush_def get_client_state_def split: prod.split option.split)
  qed
  have e: "\<not> has_own_eof eof st"
    using assms(1) g by (auto simp: handle_local_eof_def split: if_splits)
  let ?rest = "seq_acts [broadcast_eof cid eof n,
      if has_all_eofs (expectedEOFs c0) ?st then broadcast_own_batches cid ?st else ok, try_flush cid] :: 'a coord act"
  have "handle_local_eof cid n eof c = ?rest (put_client_state cid ?st c2)"
    using g e by (simp add: handle_local_eof_def Let_def then_act_None [of "on_storage (write_eof cid eof n)", OF w])
  then have c1: "c1 = fst (?rest (put_client_state cid ?st c2))" unfolding assms(1) by (metis fst_conv)
  have put: "?known (put_client_state cid ?st c2)"
    by (simp add: mget_mput has_own_eof_def add_own_eof_def get_last_eof_id_def)
  have "preserves ?known ?rest"
    by (rule preserves_seq) (use k [OF keeps_core_quiet [OF quiet_broadcast_eof]] k [OF keeps_core_quiet [OF quiet_broadcast_own]] t in auto)
  from preservesD [OF this put] have "?known c1" unfolding c1 .
  then show ?thesis by (auto simp: handle_local_eof_def get_client_state_def)
qed


section \<open>Witnesses\<close>

text \<open>A coordinator with one peer, whose handler records every call and never fails.\<close>

definition sample_coord :: "(unit \<times> flush_log) coord" where
  "sample_coord = \<lparr>outcomes = [], workerID = 0, workerName = ''w'', expectedEOFs = 1,
     publishKeys = peer_keys ''w'' 0 2, exchange = [], storage = empty_storage,
     flushHandler = counted (\<lambda>cid n eof h. (h, None)), clients = [], innerBatchWeight = 0,
     cleanedClients = [], infoSize = (\<lambda>_. 10), host = ((), [])\<rparr>"

definition sample_events :: "coord_event list" where
  "sample_events = [Record ''c'' ''a'' 5 2, LocalEOF ''c'' 5 ''e'', LocalEOF ''c'' 5 ''e'',
     Record ''c'' ''b'' 1 1]"

theorem coordinator_flushes_once_witness:
  "distinct (map fst (snd (host (coord_run sample_events sample_coord))))"
  by (rule coordinator_flushes_once [of _ "\<lambda>cid n eof h. (h, None)"])
     (simp_all add: sample_coord_def sample_events_def)

lemma sample_run: "snd (host (coord_run [LocalEOF ''c'' 0 ''e''] sample_coord)) = [(''c'', 0, ''e'')]"
proof -
  have "healthy empty_storage" by (simp add: healthy_def empty_storage_def)
  then show ?thesis
    by (simp add: coord_run_def handle_local_eof_def sample_coord_def get_client_state_def Let_def
        has_own_eof_def new_client_state_def then_act_def on_storage_def zoom_def write_healthy upd_def
        broadcast_eof_def broadcast_works add_own_eof_def get_last_eof_id_def all_eof_ids_def
        has_all_eofs_def eof_totals_def counted_eofs_def merge_eof_def mget_mput broadcast_own_batches_def
        send_own_batches_def info_batcher_def ok_def batcher_flush_def is_empty_batch_def new_batcher_def
        new_batch_def try_flush_def put_client_state_def is_ready_to_flush_def totals_def counted_def)
qed

theorem coordinator_flush_is_complete_witness:
  "\<exists>bs es. finite bs \<and> finite es \<and> es \<noteq> {} \<and> (1 :: u32) \<le> of_nat (card es) \<and>
     (\<Sum>e \<in> es. (0 :: u64)) \<le> (\<Sum>b \<in> bs. 0) \<and> (0 :: u64) = (\<Sum>b \<in> bs. 0) \<and> ''e'' = Max es"
proof -
  have "expectedEOFs sample_coord = 1" by (simp add: sample_coord_def)
  moreover have "\<exists>bs es. finite bs \<and> finite es \<and> es \<noteq> {} \<and> expectedEOFs sample_coord \<le> of_nat (card es) \<and>
     (\<Sum>e \<in> es. (\<lambda>_ _. 0) ''c'' e) \<le>
       (\<Sum>b \<in> bs. Processed ((\<lambda>_ b. \<lparr>BatchID = b, Processed = 0, Survivors = 0\<rparr>) ''c'' b)) \<and>
     0 = (\<Sum>b \<in> bs. Survivors ((\<lambda>_ b. \<lparr>BatchID = b, Processed = 0, Survivors = 0\<rparr>) ''c'' b)) \<and> ''e'' = Max es"
    by (rule coordinator_flush_is_complete [of _ "\<lambda>cid n eof h. (h, None)" "[LocalEOF ''c'' 0 ''e'']"])
      (use sample_run in \<open>simp_all add: sample_coord_def\<close>)
  ultimately show ?thesis by auto
qed


text \<open>A handler that fails once: the flush of the client is lost.\<close>

theorem failed_local_eof_is_not_retried_witness:
  "\<exists>c1. handle_local_eof ''c'' 0 ''e'' (sample_coord\<lparr>flushHandler := \<lambda>cid n eof h. (h, Some ErrSend)\<rparr>) =
      (c1, Some ErrSend) \<and>
    handle_local_eof ''c'' 0 ''e'' c1 = (c1, None)"
proof -
  let ?c = "sample_coord\<lparr>flushHandler := \<lambda>cid n eof h. (h, Some ErrSend)\<rparr>"
  have h: "healthy empty_storage" by (simp add: healthy_def empty_storage_def)
  then have "snd (handle_local_eof ''c'' 0 ''e'' ?c) = Some ErrSend"
    by (simp add: handle_local_eof_def sample_coord_def get_client_state_def Let_def
        has_own_eof_def new_client_state_def then_act_def on_storage_def zoom_def write_healthy upd_def
        broadcast_eof_def broadcast_works add_own_eof_def get_last_eof_id_def all_eof_ids_def
        has_all_eofs_def eof_totals_def counted_eofs_def merge_eof_def mget_mput broadcast_own_batches_def
        send_own_batches_def info_batcher_def ok_def batcher_flush_def is_empty_batch_def new_batcher_def
        new_batch_def try_flush_def put_client_state_def is_ready_to_flush_def totals_def counted_def)
  then obtain c1 where c1: "handle_local_eof ''c'' 0 ''e'' ?c = (c1, Some ErrSend)"
    by (metis prod.collapse)
  moreover have "snd (write_eof ''c'' ''e'' 0 (storage ?c)) = None"
    by (simp add: sample_coord_def write_healthy [OF h])
  ultimately show ?thesis using failed_local_eof_is_not_retried [OF c1] by blast
qed

end
