(* ===== verification/CoordinatorRecovery.thy ===== *)
theory CoordinatorRecovery
  imports CoordinatorBarrier
begin

text \<open>
  What a coordinator keeps on disk: after every operation, whatever fails, the own batches and the
  own EOFs of each client in memory are those in the log files, so a restart finds them again. What
  its peers reported is not on disk; the wake-up message asks for it.
\<close>

section \<open>Memory and disk agree\<close>

definition state_of :: "string \<Rightarrow> 'e coord \<Rightarrow> client_state" where
  "state_of cid c = mget0 new_client_state (clients c) cid"

definition in_memory ::
  "(string \<times> batch_record) list \<Rightarrow> (string \<times> string \<times> u64) list \<Rightarrow> string list \<Rightarrow> 'e coord \<Rightarrow> bool" where
  "in_memory bs es fs c \<longleftrightarrow>
     (\<forall>cid. ownBatches (state_of cid c) = mget0 [] (batch_index bs) cid \<and>
            ownEOFs (state_of cid c) = mget0 [] (eof_index es) cid) \<and>
     (\<forall>cid \<in> set fs. flushed (state_of cid c))"

definition synced :: "'e coord \<Rightarrow> bool" where
  "synced c \<longleftrightarrow> (\<exists>bs es fs. holds_log bs es fs (storage c) \<and> in_memory bs es fs c)"

definition synced_at :: "string \<Rightarrow> client_state \<Rightarrow> 'e coord \<Rightarrow> bool" where
  "synced_at cid st c \<longleftrightarrow> synced c \<and> mget (clients c) cid = Some st"

lemma state_of_put [simp]:
  "state_of cid' (put_client_state cid st c) = (if cid' = cid then st else state_of cid' c)"
  by (simp add: state_of_def mget0_mput)

lemma state_of_mget: "mget (clients c) cid = Some st \<Longrightarrow> state_of cid c = st"
  by (simp add: state_of_def mget0_def)

lemma state_of_get: "get_client_state cid c = (c', st) \<Longrightarrow>
    state_of cid' c' = state_of cid' c \<and> storage c' = storage c \<and> mget (clients c') cid = Some st \<and>
    st = state_of cid c"
  by (auto simp: get_client_state_def state_of_def mget0_mput mget_mput mget0_def split: option.splits if_splits)

lemma storage_put [simp]: "storage (put_client_state cid st c) = storage c"
  by (simp add: put_client_state_def)

lemma synced_get: "synced c \<Longrightarrow> get_client_state cid c = (c', st) \<Longrightarrow> synced_at cid st c'"
  using state_of_get [of cid c c' st] by (auto simp: synced_def synced_at_def in_memory_def)

lemma synced_at_synced: "synced_at cid st c \<Longrightarrow> synced c"
  by (simp add: synced_at_def)

lemma in_memory_clients: "clients c' = clients c \<Longrightarrow> in_memory bs es fs c' = in_memory bs es fs c"
  by (simp add: in_memory_def state_of_def)

lemma quiet_synced: "quiet a \<Longrightarrow> preserves synced a"
  unfolding synced_def preserves_def by (metis core_eqD(1) in_memory_clients quietD)

lemma quiet_synced_at: "quiet a \<Longrightarrow> preserves (synced_at cid st) a"
  using preservesD [OF quiet_synced [of a]] unfolding preserves_def synced_at_def
  by (metis core_eqD(1) quietD)

lemma quiet_step: "quiet a \<Longrightarrow> triple (synced_at cid st) a (synced_at cid st) synced"
  by (rule triple_preserves [OF quiet_synced_at]) (simp_all add: synced_at_def)

lemma put_same_own:
  assumes "synced c" "state_of cid c = st"
    and "ownBatches st' = ownBatches st" "ownEOFs st' = ownEOFs st" "flushed st \<longrightarrow> flushed st'"
  shows "synced_at cid st' (put_client_state cid st' c)"
proof -
  obtain bs es fs where l: "holds_log bs es fs (storage c)" "in_memory bs es fs c"
    using assms(1) by (auto simp: synced_def)
  have "in_memory bs es fs (put_client_state cid st' c)"
    using l(2) assms(2-5) unfolding in_memory_def by auto
  with l(1) show ?thesis by (auto simp: synced_at_def synced_def mget_mput)
qed

section \<open>Writes\<close>

lemma mget0_nput: "mget0 [] (nput k j v m) k' = (if k' = k then mput j v (mget0 [] m k) else mget0 [] m k')"
  by (simp add: nput_def mget0_mput)

lemma batch_index_snoc: "batch_index (bs @ [(c, r)]) = nput c (BatchID r) r (batch_index bs)"
  by (simp add: batch_index_def)

lemma eof_index_snoc: "eof_index (es @ [(c, e, n)]) = nput c e n (eof_index es)"
  by (simp add: eof_index_def)

text \<open>A write that returned no error is in the log but not yet in memory.\<close>

definition batch_written :: "string \<Rightarrow> client_state \<Rightarrow> batch_record \<Rightarrow> 'e coord \<Rightarrow> bool" where
  "batch_written cid st r c \<longleftrightarrow> mget (clients c) cid = Some st \<and>
     (\<exists>bs es fs. holds_log (bs @ [(cid, r)]) es fs (storage c) \<and> in_memory bs es fs c)"

definition eof_written :: "string \<Rightarrow> client_state \<Rightarrow> string \<Rightarrow> u64 \<Rightarrow> 'e coord \<Rightarrow> bool" where
  "eof_written cid st eof n c \<longleftrightarrow> mget (clients c) cid = Some st \<and>
     (\<exists>bs es fs. holds_log bs (es @ [(cid, eof, n)]) fs (storage c) \<and> in_memory bs es fs c)"

lemma on_storage_result: "on_storage a c = (c\<lparr>storage := fst (a (storage c))\<rparr>, snd (a (storage c)))"
  by (simp add: on_storage_def zoom_def case_prod_unfold)

lemma write_batch_step:
  assumes "batch_entry_ok (cid, r)"
  shows "triple (synced_at cid st) (on_storage (write_batch cid r)) (batch_written cid st r) synced"
proof -
  have "if snd (on_storage (write_batch cid r) c) = None
      then batch_written cid st r (fst (on_storage (write_batch cid r) c))
      else synced (fst (on_storage (write_batch cid r) c))" if c: "synced_at cid st c" for c :: "'a coord"
  proof -
    obtain t e where w: "write_batch cid r (storage c) = (t, e)" by fastforce
    obtain bs es fs where l: "holds_log bs es fs (storage c)" "in_memory bs es fs c"
      using c by (auto simp: synced_at_def synced_def)
    have "in_memory bs es fs (c\<lparr>storage := t\<rparr>)"
      using l(2) by (simp add: in_memory_def state_of_def)
    with write_batch_log [OF l(1) assms w] c show ?thesis
      by (cases e) (auto simp: on_storage_result w batch_written_def synced_def synced_at_def)
  qed
  then show ?thesis by (simp add: triple_def)
qed

lemma write_eof_step:
  assumes "eof_entry_ok (cid, eof, n)"
  shows "triple (synced_at cid st) (on_storage (write_eof cid eof n)) (eof_written cid st eof n) synced"
proof -
  have "if snd (on_storage (write_eof cid eof n) c) = None
      then eof_written cid st eof n (fst (on_storage (write_eof cid eof n) c))
      else synced (fst (on_storage (write_eof cid eof n) c))" if c: "synced_at cid st c" for c :: "'a coord"
  proof -
    obtain t e where w: "write_eof cid eof n (storage c) = (t, e)" by fastforce
    obtain bs es fs where l: "holds_log bs es fs (storage c)" "in_memory bs es fs c"
      using c by (auto simp: synced_at_def synced_def)
    have "in_memory bs es fs (c\<lparr>storage := t\<rparr>)"
      using l(2) by (simp add: in_memory_def state_of_def)
    with write_eof_log [OF l(1) assms w] c show ?thesis
      by (cases e) (auto simp: on_storage_result w eof_written_def synced_def synced_at_def)
  qed
  then show ?thesis by (simp add: triple_def)
qed

lemma put_batch_step:
  "triple (batch_written cid st r) (upd (put_client_state cid (add_own_batch r st)))
     (synced_at cid (add_own_batch r st)) synced"
proof (rule triple_upd)
  fix c :: "'a coord"
  assume "batch_written cid st r c"
  then obtain bs es fs where l: "holds_log (bs @ [(cid, r)]) es fs (storage c)" "in_memory bs es fs c"
    and st: "mget (clients c) cid = Some st"
    by (auto simp: batch_written_def)
  have "in_memory (bs @ [(cid, r)]) es fs (put_client_state cid (add_own_batch r st) c)"
    using l(2) state_of_mget [OF st]
    by (auto simp: in_memory_def batch_index_snoc mget0_nput add_own_batch_def)
  with l(1) show "synced_at cid (add_own_batch r st) (put_client_state cid (add_own_batch r st) c)"
    by (auto simp: synced_at_def synced_def mget_mput)
qed

lemma put_eof_step:
  "triple (eof_written cid st eof n) (upd (put_client_state cid (add_own_eof eof n st)))
     (synced_at cid (add_own_eof eof n st)) synced"
proof (rule triple_upd)
  fix c :: "'a coord"
  assume "eof_written cid st eof n c"
  then obtain bs es fs where l: "holds_log bs (es @ [(cid, eof, n)]) fs (storage c)" "in_memory bs es fs c"
    and st: "mget (clients c) cid = Some st"
    by (auto simp: eof_written_def)
  have "in_memory bs (es @ [(cid, eof, n)]) fs (put_client_state cid (add_own_eof eof n st) c)"
    using l(2) state_of_mget [OF st]
    by (auto simp: in_memory_def eof_index_snoc mget0_nput add_own_eof_def get_last_eof_id_def)
  with l(1) show "synced_at cid (add_own_eof eof n st) (put_client_state cid (add_own_eof eof n st) c)"
    by (auto simp: synced_at_def synced_def mget_mput)
qed

lemma synced_write_flushed:
  assumes "synced_at cid st c" "flushed st" "flushed_entry_ok cid"
  shows "synced (fst (on_storage (write_flushed cid) c))"
proof -
  obtain t e where w: "write_flushed cid (storage c) = (t, e)" by fastforce
  obtain bs es fs where l: "holds_log bs es fs (storage c)" "in_memory bs es fs c"
    using assms(1) by (auto simp: synced_at_def synced_def)
  have "in_memory bs es (fs @ [cid]) (c\<lparr>storage := t\<rparr>)"
    using l(2) assms(1,2) by (auto simp: in_memory_def state_of_def synced_at_def mget0_def)
  moreover have "in_memory bs es fs (c\<lparr>storage := t\<rparr>)"
    using l(2) by (simp add: in_memory_def state_of_def)
  ultimately show ?thesis
    using write_flushed_log [OF l(1) assms(3) w]
    by (cases e) (auto simp: on_storage_result w synced_def)
qed

lemma synced_try_flush: "flushed_entry_ok cid \<Longrightarrow> preserves synced (try_flush cid)"
proof (rule preservesI)
  fix c0 :: "'a coord"
  assume cid: "flushed_entry_ok cid" and "synced c0"
  obtain c st where g: "get_client_state cid c0 = (c, st)" by fastforce
  then have c: "synced_at cid st c" using synced_get \<open>synced c0\<close> by blast
  obtain h e where h: "flushHandler c cid (snd (totals st)) (lastEOFID st) (host c) = (h, e)" by fastforce
  have ch: "synced (c\<lparr>host := h\<rparr>)" "state_of cid (c\<lparr>host := h\<rparr>) = st"
    using c state_of_mget [of c cid st] by (auto simp: synced_at_def synced_def in_memory_def state_of_def)
  have p: "synced_at cid (st\<lparr>flushed := True\<rparr>) (put_client_state cid (st\<lparr>flushed := True\<rparr>) (c\<lparr>host := h\<rparr>))"
    using put_same_own [OF ch, of "st\<lparr>flushed := True\<rparr>"] by simp
  show "synced (fst (try_flush cid c0))"
    using g h c ch(1) synced_write_flushed [OF p _ cid]
    by (auto simp: try_flush_def synced_at_synced split: option.split)
qed

lemma last_flush_synced: "flushed_entry_ok cid \<Longrightarrow> triple (synced_at cid st) (try_flush cid) synced synced"
  using synced_try_flush by (auto simp: triple_def preserves_def dest: synced_at_synced)

section \<open>Every operation keeps them in agreement\<close>

text \<open>Identifiers that fit into the log lines.\<close>

fun storable :: "coord_event \<Rightarrow> bool" where
  "storable (Record cid bid p s) =
     (flushed_entry_ok cid \<and> batch_entry_ok (cid, \<lparr>BatchID = bid, Processed = p, Survivors = s\<rparr>))"
| "storable (LocalEOF cid n eof) = (flushed_entry_ok cid \<and> eof_entry_ok (cid, eof, n))"
| "storable (Deliver (Some m)) = flushed_entry_ok (ClientId m)"
| "storable _ = True"

lemma synced_record_batch:
  assumes "storable (Record cid bid p s)"
  shows "preserves synced (record_batch cid bid p s)"
proof (rule preservesI)
  fix c0 :: "'a coord"
  assume "synced c0"
  obtain c st where g: "get_client_state cid c0 = (c, st)" by fastforce
  then have c: "synced_at cid st c" using synced_get \<open>synced c0\<close> by blast
  let ?r = "\<lparr>BatchID = bid, Processed = p, Survivors = s\<rparr>"
  have ok: "batch_entry_ok (cid, ?r)" "flushed_entry_ok cid" using assms by simp_all
  have "triple (synced_at cid st)
      (seq_acts
         [if has_all_eofs (expectedEOFs c) st then broadcast_batch [transform_batch_to_proto ?r] cid else ok,
          on_storage (write_batch cid ?r), upd (put_client_state cid (add_own_batch ?r st)), try_flush cid])
      synced synced"
    by (rule triple_seq_Cons, rule quiet_step, simp,
        rule triple_seq_Cons, rule write_batch_step [OF ok(1)],
        rule triple_seq_Cons, rule put_batch_step,
        rule triple_seq_Cons, rule last_flush_synced [OF ok(2)], rule triple_seq_Nil, assumption)
  from tripleD [OF this c] g c show "synced (fst (record_batch cid bid p s c0))"
    by (simp add: record_batch_def Let_def synced_at_synced split: if_splits)
qed

lemma synced_handle_local_eof:
  assumes "storable (LocalEOF cid n eof)"
  shows "preserves synced (handle_local_eof cid n eof)"
proof (rule preservesI)
  fix c0 :: "'a coord"
  assume "synced c0"
  obtain c st where g: "get_client_state cid c0 = (c, st)" by fastforce
  then have c: "synced_at cid st c" using synced_get \<open>synced c0\<close> by blast
  have ok: "eof_entry_ok (cid, eof, n)" "flushed_entry_ok cid" using assms by simp_all
  let ?st = "add_own_eof eof n st"
  have "triple (synced_at cid st)
      (seq_acts
         [on_storage (write_eof cid eof n), upd (put_client_state cid ?st), broadcast_eof cid eof n,
          if has_all_eofs (expectedEOFs c) ?st then broadcast_own_batches cid ?st else ok, try_flush cid])
      synced synced"
    by (rule triple_seq_Cons, rule write_eof_step [OF ok(1)],
        rule triple_seq_Cons, rule put_eof_step,
        rule triple_seq_Cons, rule quiet_step, simp,
        rule triple_seq_Cons, rule quiet_step, simp,
        rule triple_seq_Cons, rule last_flush_synced [OF ok(2)], rule triple_seq_Nil, assumption)
  from tripleD [OF this c] g c show "synced (fst (handle_local_eof cid n eof c0))"
    by (simp add: handle_local_eof_def Let_def synced_at_synced split: if_splits)
qed

lemma synced_handle_remote_eof:
  assumes "flushed_entry_ok (ClientId m)"
  shows "preserves synced (handle_remote_eof m)"
proof (rule preservesI)
  fix c0 :: "'a coord"
  assume "synced c0"
  let ?cid = "ClientId m"
  obtain c st where g: "get_client_state ?cid c0 = (c, st)" by fastforce
  then have c: "synced_at ?cid st c" using synced_get \<open>synced c0\<close> by blast
  let ?st = "add_peer_eof (int (unat (SenderId m))) (EofID m) (ExpectedTotal m) st"
  have p: "triple (synced_at ?cid st) (upd (put_client_state ?cid ?st)) (synced_at ?cid ?st) synced"
    by (rule triple_upd, rule put_same_own)
       (auto simp: synced_at_def state_of_mget add_peer_eof_def get_last_eof_id_def)
  have "triple (synced_at ?cid st)
      (seq_acts
         [upd (put_client_state ?cid ?st),
          if has_all_eofs (expectedEOFs c) ?st then broadcast_own_batches ?cid ?st else ok, try_flush ?cid])
      synced synced"
    by (rule triple_seq_Cons, rule p, rule triple_seq_Cons, rule quiet_step, simp,
        rule triple_seq_Cons, rule last_flush_synced [OF assms], rule triple_seq_Nil, assumption)
  from tripleD [OF this c] g c show "synced (fst (handle_remote_eof m c0))"
    by (simp add: handle_remote_eof_def Let_def synced_at_synced split: if_splits)
qed

lemma add_informations_own:
  "ownBatches (fold (add_information p) is st) = ownBatches st \<and>
   ownEOFs (fold (add_information p) is st) = ownEOFs st \<and>
   flushed (fold (add_information p) is st) = flushed st"
  by (induction "is" arbitrary: st) (simp_all add: add_information_def add_peer_batch_def)

lemma synced_handle_remote_batch:
  assumes "flushed_entry_ok (ClientId m)"
  shows "preserves synced (handle_remote_batch m)"
proof (rule preservesI)
  fix c0 :: "'a coord"
  assume s: "synced c0"
  let ?cid = "ClientId m" and ?p = "int (unat (SenderId m))"
  obtain c st where g: "get_client_state ?cid c0 = (c, st)" by fastforce
  then have "synced c" "state_of ?cid c = st"
    using synced_get [OF s g] by (simp_all add: synced_at_def state_of_mget)
  then have "synced (put_client_state ?cid (fold (add_information ?p) (Information m) st) c)"
    using put_same_own add_informations_own [of ?p "Information m" st] synced_at_synced by metis
  from preservesD [OF synced_try_flush [OF assms] this] g s
  show "synced (fst (handle_remote_batch m c0))"
    by (simp add: handle_remote_batch_def Let_def)
qed

lemma synced_step:
  assumes "synced c" "storable ev" "\<not> clears ev"
  shows "synced (coord_step ev c)"
proof (cases ev)
  case (Deliver m)
  show ?thesis
  proof (cases m)
    case (Some msg)
    have cid: "flushed_entry_ok (ClientId msg)" using assms(2) by (simp add: Deliver Some)
    have "synced (fst (dispatch msg c))"
    proof (cases "Type msg")
      case WakeUp
      then show ?thesis
        using preservesD [OF quiet_synced [OF quiet_handle_wake_up] assms(1)] by simp
    next
      case EOFArrived
      then show ?thesis
        using preservesD [OF synced_handle_remote_eof [OF cid] assms(1)] by simp
    next
      case BatchInformation
      then show ?thesis
        using preservesD [OF synced_handle_remote_batch [OF cid] assms(1)] by simp
    next
      case Cleanup
      with assms(3) show ?thesis by (simp add: Deliver Some)
    next
      case UnknownType
      then show ?thesis using assms(1) by (simp add: ok_def)
    qed
    then show ?thesis
      by (auto simp: Deliver Some handle_coordination_message_def split: prod.split simp del: dispatch.simps)
  qed (simp add: Deliver assms(1) handle_coordination_message_def)
next
  case (Record cid bid p s)
  then show ?thesis using preservesD [OF synced_record_batch assms(1)] assms(2) by simp
next
  case (LocalEOF cid n eof)
  then show ?thesis using preservesD [OF synced_handle_local_eof assms(1)] assms(2) by simp
next
  case WakeUpPeers
  then show ?thesis
    using preservesD [OF quiet_synced [OF quiet_broadcast] assms(1)] by (simp add: wake_up_notification_def)
next
  case (CleanupPeers cid)
  then show ?thesis
    using preservesD [OF quiet_synced [OF quiet_broadcast] assms(1)] by (simp add: broadcast_cleanup_def)
next
  case (SeenQuery cid bid)
  then show ?thesis
    using synced_get [OF assms(1), of cid] by (cases "get_client_state cid c") (simp add: has_seen_batch_def synced_at_def)
next
  case (EOFQuery cid)
  then show ?thesis
    using synced_get [OF assms(1), of cid] by (cases "get_client_state cid c") (simp add: reached_eof_amount_def synced_at_def)
qed (use assms in simp)

lemma synced_run:
  "synced c \<Longrightarrow> \<forall>ev \<in> set evs. storable ev \<and> \<not> clears ev \<Longrightarrow> synced (coord_run evs c)"
  unfolding coord_run_def by (induction evs arbitrary: c) (auto intro: synced_step)


section \<open>Restoring\<close>

definition modify :: "string \<Rightarrow> (client_state \<Rightarrow> client_state) \<Rightarrow> 'e coord \<Rightarrow> 'e coord" where
  "modify cid f c0 = (case get_client_state cid c0 of (c, st) \<Rightarrow> put_client_state cid (f st) c)"

lemma state_of_modify: "state_of cid' (modify cid f c) = (if cid' = cid then f (state_of cid c) else state_of cid' c)"
  using state_of_get [of cid c] by (cases "get_client_state cid c") (simp add: modify_def)

lemma restore_modify:
  "restore_batches e = modify (fst e) (fold (\<lambda>(bid, r). add_own_batch r) (snd e))"
  "restore_eofs e' = modify (fst e') (fold (\<lambda>(eof, n). add_own_eof eof n) (snd e'))"
  "restore_flushed e'' = modify (fst e'') (\<lambda>st. st\<lparr>flushed := True\<rparr>)"
  by (rule ext, simp add: restore_batches_def restore_eofs_def restore_flushed_def modify_def case_prod_unfold)+

lemma fold_modify:
  assumes "distinct (mkeys m)"
  shows "state_of cid (fold (\<lambda>e. modify (fst e) (f (snd e))) m c) =
    (case mget m cid of None \<Rightarrow> state_of cid c | Some v \<Rightarrow> f v (state_of cid c))"
  using assms
proof (induction m arbitrary: c)
  case (Cons e m)
  then show ?case
    by (cases e) (auto simp: state_of_modify map_of_eq_None_iff [THEN iffD2] split: option.splits
        dest: map_of_SomeD intro: rev_image_eqI)
qed simp

lemma fold_add_own_batch:
  assumes "distinct (mkeys js @ mkeys (ownBatches st))" "\<forall>(j, r) \<in> set js. j = BatchID r"
  shows "ownBatches (fold (\<lambda>(bid, r). add_own_batch r) js st) = ownBatches st @ js"
  using assms
proof (induction js arbitrary: st)
  case (Cons e js)
  obtain j r where e: "e = (j, r)" by fastforce
  with Cons.prems have "ownBatches (add_own_batch r st) = ownBatches st @ [(j, r)]"
    by (simp add: add_own_batch_def mput_fresh)
  then show ?case using Cons.IH [of "add_own_batch r st"] Cons.prems by (auto simp: e)
qed simp

lemma fold_add_own_eof:
  assumes "distinct (mkeys js @ mkeys (ownEOFs st))"
  shows "ownEOFs (fold (\<lambda>(eof, n). add_own_eof eof n) js st) = ownEOFs st @ js"
  using assms
proof (induction js arbitrary: st)
  case (Cons e js)
  obtain j n where e: "e = (j, n)" by fastforce
  with Cons.prems have "ownEOFs (add_own_eof j n st) = ownEOFs st @ [(j, n)]"
    by (simp add: add_own_eof_def get_last_eof_id_def mput_fresh)
  then show ?case using Cons.IH [of "add_own_eof j n st"] Cons.prems by (auto simp: e)
qed simp

lemma fold_add_own_eof_batches:
  "ownBatches (fold (\<lambda>(eof, n). add_own_eof eof n) js st) = ownBatches st"
  by (induction js arbitrary: st) (auto simp: add_own_eof_def get_last_eof_id_def)

lemma fold_add_own_batch_eofs:
  "ownEOFs (fold (\<lambda>(bid, r). add_own_batch r) js st) = ownEOFs st"
  by (induction js arbitrary: st) (auto simp: add_own_batch_def)

lemma full_inner: "full m \<Longrightarrow> distinct (mkeys m) \<and> distinct (mkeys (mget0 [] m k))"
  using wf_nested_get [of m k] by (auto simp: full_def wf_nested_def wf_map_def)

lemma batch_index_keys: "(j, r) \<in> set (mget0 [] (batch_index bs) c) \<Longrightarrow> j = BatchID r"
proof -
  assume a: "(j, r) \<in> set (mget0 [] (batch_index bs) c)"
  then have "(c, j, r) \<in> set (flat (batch_index bs))"
    by (auto simp: mget0_def in_flat split: option.splits dest!: map_of_SomeD [OF sym])
  then show ?thesis
    using flat_index_subset [of "map (\<lambda>(c, r). (c, BatchID r, r)) bs"] by (auto simp: batch_index_index)
qed

lemma distinct_flushed_index: "distinct (mkeys (flushed_index fs))"
proof -
  have "wf_map m \<Longrightarrow> wf_map (fold (\<lambda>c. mput c True) fs m)" for m :: "(string, bool) gomap"
    by (induction fs arbitrary: m) auto
  then show ?thesis by (simp add: flushed_index_def wf_map_def)
qed

lemma restored:
  assumes "clients c = []"
  shows "ownBatches (state_of cid (fold restore_flushed (flushed_index fs)
      (fold restore_eofs (eof_index es) (fold restore_batches (batch_index bs) c)))) = mget0 [] (batch_index bs) cid"
    (is "ownBatches (state_of cid ?c3) = _")
    and "ownEOFs (state_of cid (fold restore_flushed (flushed_index fs)
      (fold restore_eofs (eof_index es) (fold restore_batches (batch_index bs) c)))) = mget0 [] (eof_index es) cid"
proof -
  let ?c1 = "fold restore_batches (batch_index bs) c"
  let ?c2 = "fold restore_eofs (eof_index es) ?c1"
  have d: "distinct (mkeys (batch_index bs))" "distinct (mkeys (eof_index es))"
    "distinct (mkeys (mget0 [] (batch_index bs) cid))" "distinct (mkeys (mget0 [] (eof_index es) cid))"
    unfolding batch_index_index eof_index_index
    by (rule full_inner [OF full_index, THEN conjunct1] full_inner [OF full_index, THEN conjunct2])+
  have c0: "state_of cid c = new_client_state" using assms by (simp add: state_of_def)
  have "state_of cid ?c1 = fold (\<lambda>(bid, r). add_own_batch r) (mget0 [] (batch_index bs) cid) new_client_state"
    using fold_modify [OF d(1), of cid "fold (\<lambda>(bid, r). add_own_batch r)" c]
    by (simp add: restore_modify [abs_def] c0 mget0_def split: option.split)
  then have 1: "ownBatches (state_of cid ?c1) = mget0 [] (batch_index bs) cid" "ownEOFs (state_of cid ?c1) = []"
    using fold_add_own_batch [of "mget0 [] (batch_index bs) cid" new_client_state] d(3) batch_index_keys
    by (auto simp: new_client_state_def fold_add_own_batch_eofs)
  have "state_of cid ?c2 = fold (\<lambda>(eof, n). add_own_eof eof n) (mget0 [] (eof_index es) cid) (state_of cid ?c1)"
    using fold_modify [OF d(2), of cid "fold (\<lambda>(eof, n). add_own_eof eof n)" ?c1]
    by (simp add: restore_modify [abs_def] mget0_def split: option.split)
  then have 2: "ownBatches (state_of cid ?c2) = mget0 [] (batch_index bs) cid"
    "ownEOFs (state_of cid ?c2) = mget0 [] (eof_index es) cid"
    using fold_add_own_eof [of "mget0 [] (eof_index es) cid" "state_of cid ?c1"] d(4) 1
    by (auto simp: fold_add_own_eof_batches)
  have 3: "state_of cid ?c3 = state_of cid ?c2 \<or> state_of cid ?c3 = (state_of cid ?c2)\<lparr>flushed := True\<rparr>"
    using fold_modify [OF distinct_flushed_index [of fs], of cid "\<lambda>_ st. st\<lparr>flushed := True\<rparr>" ?c2]
    by (simp add: restore_modify [abs_def] split: option.split)
  then show "ownBatches (state_of cid ?c3) = mget0 [] (batch_index bs) cid"
    "ownEOFs (state_of cid ?c3) = mget0 [] (eof_index es) cid"
    using 2 by auto
qed

text \<open>The files as the next process opens them: the same bytes, fresh writers.\<close>

definition reopen :: "storage \<Rightarrow> storage" where
  "reopen t = t\<lparr>outcomes := [], batchBad := False, eofBad := False, flushedBad := False\<rparr>"

lemma holds_log_reopen: "holds_log bs es fs (reopen t) = holds_log bs es fs t"
  by (simp add: holds_log_def reopen_def)

section \<open>Properties\<close>




end
