(* ===== verification/StatelessEngine.thy ===== *)
theory StatelessEngine
  imports Sender CoordinatorRecovery
begin

text \<open>
  \<open>internal/workers/receiver\<close> and \<open>internal/workers/engine/statelessengine.go\<close>: a message from the
  broker becomes an event, and the engine processes the batch, sends the results, records the batch
  with the coordinator and acknowledges it.

  The engine's state is its coordinator, whose \<open>host\<close> holds the sender and the processor: the flush
  handler of the coordinator is a method of the engine that uses the sender. A call of \<open>AckFn\<close> or
  \<open>Nack\<close> is an element of the list of deliveries a handler returns.
\<close>

section \<open>Events and receivers\<close>

datatype event_type = DataMessage | EOFMessage | CleanupMessage

record 't event =
  EventID :: string
  EventType :: event_type
  EventClient :: string
  Data :: "'t list"
  EOFCount :: u64

type_synonym ('t, 's) handler = "'t event \<Rightarrow> 's \<Rightarrow> 's \<times> delivery list \<times> go_error option"

text \<open>The event of a message, or \<open>None\<close> for a type the receiver ignores.\<close>

definition event_of :: "message_type \<Rightarrow> (money_laundry \<Rightarrow> 't list) \<Rightarrow> money_laundry \<Rightarrow> 't event option" where
  "event_of target extr m =
     (let ev = \<lparr>EventID = ml_batch_id m, EventType = DataMessage, EventClient = ml_client m, Data = [],
                EOFCount = 0\<rparr>
      in if ml_type m = MT_EOF then Some (ev\<lparr>EventType := EOFMessage, EOFCount := get_eof_total m\<rparr>)
         else if ml_type m = MT_CLEANUP then Some (ev\<lparr>EventType := CleanupMessage\<rparr>)
         else if ml_type m = target then Some (ev\<lparr>EventType := DataMessage, Data := extr m\<rparr>)
         else None)"

text \<open>\<open>None\<close> in place of a message is a body that does not deserialize.\<close>

definition single_receive ::
  "message_type \<Rightarrow> (money_laundry \<Rightarrow> 't list) \<Rightarrow> ('t, 's) handler \<Rightarrow> money_laundry option \<Rightarrow> 's \<Rightarrow>
   's \<times> delivery list" where
  "single_receive target extr h m s =
     (case m of
        None \<Rightarrow> (s, [Nack])
      | Some msg \<Rightarrow>
          (case event_of target extr msg of
             None \<Rightarrow> (s, [Ack])
           | Some ev \<Rightarrow>
               (case h ev s of (s', ds, e) \<Rightarrow> (s', ds @ (if e = None then [] else [Nack])))))"

text \<open>
  The fan-in receiver merges its inputs into one channel; the extractor also gets the identifier of
  the input. An error of the handler ends \<open>Receive\<close>, so the rest of the stream is not consumed.
\<close>

fun fan_in_receive ::
  "message_type \<Rightarrow> (money_laundry \<Rightarrow> string \<Rightarrow> 't list) \<Rightarrow> ('t, 's) handler \<Rightarrow>
   (string \<times> money_laundry option) list \<Rightarrow> 's \<Rightarrow> 's \<times> delivery list list \<times> go_error option" where
  "fan_in_receive target extr h [] s = (s, [], None)"
| "fan_in_receive target extr h ((i, m) # ms) s =
     (case (case m of None \<Rightarrow> Inl Nack
                    | Some msg \<Rightarrow> (case event_of target (\<lambda>m. extr m i) msg of
                                     None \<Rightarrow> Inl Ack | Some ev \<Rightarrow> Inr ev)) of
        Inl d \<Rightarrow> (case fan_in_receive target extr h ms s of (s', ds, e) \<Rightarrow> (s', [d] # ds, e))
      | Inr ev \<Rightarrow>
          (case h ev s of
             (s', ds, Some e) \<Rightarrow> (s', [ds @ [Nack]], Some e)
           | (s', ds, None) \<Rightarrow>
               (case fan_in_receive target extr h ms s' of (s'', dss, e) \<Rightarrow> (s'', ds # dss, e))))"

section \<open>The engine\<close>

text \<open>
  A processor may keep a state of its own (the currency converter's cache); it returns the results
  of an item and whether each of them counts as a survivor.
\<close>

type_synonym ('t, 'v, 'p) processor = "string \<Rightarrow> 't \<Rightarrow> 'p \<Rightarrow> 'p \<times> (go_error + 'v list \<times> bool)"

record ('s, 'p) engine_host =
  eng_sender :: 's
  eng_processor :: 'p

type_synonym ('s, 'p) stateless = "('s, 'p) engine_host coord"

definition on_sender :: "'s act \<Rightarrow> ('s, 'p) stateless act" where
  "on_sender = zoom (\<lambda>c. eng_sender (host c)) (\<lambda>s c. c\<lparr>host := (host c)\<lparr>eng_sender := s\<rparr>\<rparr>)"

text \<open>\<open>handleTrueEOF\<close>, the flush handler: only the worker with id zero sends the EOF on.\<close>

definition handle_true_eof ::
  "('s, 'v) sender_ops \<Rightarrow> int \<Rightarrow> string \<Rightarrow> u64 \<Rightarrow> string \<Rightarrow> ('s, 'p) engine_host act" where
  "handle_true_eof ops wid cid survivors eof h =
     (if wid \<noteq> 0 then (h, None)
      else zoom eng_sender (\<lambda>s h. h\<lparr>eng_sender := s\<rparr>) (sender_eof ops cid survivors eof) h)"

definition new_stateless_engine :: "('s, 'v) sender_ops \<Rightarrow> ('s, 'p) stateless \<Rightarrow> ('s, 'p) stateless" where
  "new_stateless_engine ops c = c\<lparr>flushHandler := handle_true_eof ops (workerID c)\<rparr>"

definition count_survivors :: "'v list \<Rightarrow> bool \<Rightarrow> u64" where
  "count_survivors results multiresult =
     (if \<not> multiresult then (if length results > 0 then 1 else 0) else of_nat (length results))"

fun process_items ::
  "('s, 'v) sender_ops \<Rightarrow> ('t, 'v, 'p) processor \<Rightarrow> string \<Rightarrow> string \<Rightarrow> 't list \<Rightarrow> u64 \<Rightarrow>
   ('s, 'p) stateless \<Rightarrow> ('s, 'p) stateless \<times> (go_error + u64)" where
  "process_items ops proc cid bid [] n c = (c, Inr n)"
| "process_items ops proc cid bid (item # items) n c =
     (case proc cid item (eng_processor (host c)) of
        (p, r) \<Rightarrow>
          (let c1 = c\<lparr>host := (host c)\<lparr>eng_processor := p\<rparr>\<rparr>
           in case r of
                Inl e \<Rightarrow> (c1, Inl e)
              | Inr (results, multi) \<Rightarrow>
                  (case for_each (\<lambda>v. on_sender (sender_add ops cid v bid)) results c1 of
                     (c2, Some e) \<Rightarrow> (c2, Inl e)
                   | (c2, None) \<Rightarrow>
                       process_items ops proc cid bid items (n + count_survivors results multi) c2)))"

definition handle_data_message ::
  "('s, 'v) sender_ops \<Rightarrow> ('t, 'v, 'p) processor \<Rightarrow> ('t, ('s, 'p) stateless) handler" where
  "handle_data_message ops proc ev c0 =
     (let cid = EventClient ev; bid = EventID ev
      in case has_seen_batch cid bid c0 of
           (c, True) \<Rightarrow> (c, [Ack], None)
         | (c, False) \<Rightarrow>
             (case process_items ops proc cid bid (Data ev) 0 c of
                (c1, Inl e) \<Rightarrow> (c1, [], Some e)
              | (c1, Inr survivors) \<Rightarrow>
                  (case then_act (on_sender (sender_flush ops cid))
                      (record_batch cid bid (of_nat (length (Data ev))) survivors) c1 of
                     (c2, Some e) \<Rightarrow> (c2, [], Some e)
                   | (c2, None) \<Rightarrow> (c2, [Ack], None))))"

text \<open>Errors of a cleanup are logged and dropped.\<close>

definition handle_cleanup_message :: "('s, 'v) sender_ops \<Rightarrow> string \<Rightarrow> ('s, 'p) stateless act" where
  "handle_cleanup_message ops cid = seq_acts
     [ignore_err (clear_client cid), ignore_err (broadcast_cleanup cid),
      ignore_err (on_sender (sender_cleanup ops cid))]"

definition handle_event ::
  "('s, 'v) sender_ops \<Rightarrow> ('t, 'v, 'p) processor \<Rightarrow> ('t, ('s, 'p) stateless) handler" where
  "handle_event ops proc ev c =
     (case EventType ev of
        DataMessage \<Rightarrow> handle_data_message ops proc ev c
      | EOFMessage \<Rightarrow>
          (case handle_local_eof (EventClient ev) (EOFCount ev) (EventID ev) c of
             (c', Some e) \<Rightarrow> (c', [], Some e)
           | (c', None) \<Rightarrow> (c', [Ack], None))
      | CleanupMessage \<Rightarrow>
          (case handle_cleanup_message ops (EventClient ev) c of
             (c', Some e) \<Rightarrow> (c', [], Some e)
           | (c', None) \<Rightarrow> (c', [Ack], None)))"

section \<open>Facts about recording\<close>

lemma seen_after_record:
  assumes "record_batch cid bid p s c = (c', None)"
  shows "has_own_batch bid (state_of cid c')"
proof -
  obtain c1 st where g: "get_client_state cid c = (c1, st)" by fastforce
  let ?known = "\<lambda>c :: 'a coord. has_own_batch bid (state_of cid c)"
  let ?r = "\<lparr>BatchID = bid, Processed = p, Survivors = s\<rparr>"
  show ?thesis
  proof (cases "has_own_batch bid st")
    case True
    then show ?thesis using assms g state_of_get [OF g, of cid] by (simp add: record_batch_def)
  next
    case False
    have f: "?known (fst (try_flush cid d))" if d: "?known d" for d :: "'a coord"
    proof -
      obtain d1 st1 where g1: "get_client_state cid d = (d1, st1)" by fastforce
      then have st1: "has_own_batch bid st1" using state_of_get [OF g1, of cid] d by simp
      have st1': "has_own_batch bid (state_of cid d1)" using state_of_get [OF g1, of cid] d by simp
      obtain h e where h: "flushHandler d1 cid (snd (totals st1)) (lastEOFID st1) (host d1) = (h, e)" by fastforce
      have "clients (fst (on_storage a x)) = clients x" for a and x :: "'a coord"
        by (simp add: on_storage_result)
      then show ?thesis
        using g1 h st1 st1'
        by (cases e) (auto simp: try_flush_def state_of_def mget0_mput put_client_state_def has_own_batch_def)
    qed
    have "triple (\<lambda>_. True)
       (seq_acts
         [if has_all_eofs (expectedEOFs c1) st then broadcast_batch [transform_batch_to_proto ?r] cid else ok,
          on_storage (write_batch cid ?r), upd (put_client_state cid (add_own_batch ?r st)), try_flush cid])
       ?known (\<lambda>_. True)"
      by (rule triple_seq_Cons [where Q = "\<lambda>_. True"], simp add: triple_def,
          rule triple_seq_Cons [where Q = "\<lambda>_. True"], simp add: triple_def,
          rule triple_seq_Cons [where Q = ?known], rule triple_upd, simp add: has_own_batch_def add_own_batch_def,
          rule triple_seq_Cons [where Q = ?known], simp add: triple_def f, rule triple_seq_Nil, assumption)
    from tripleD [OF this, of c1] assms g False show ?thesis
      by (simp add: record_batch_def Let_def)
  qed
qed

text \<open>What a flush handler keeps of its host, recording a batch keeps.\<close>

interpretation host_view: coord_invariant "\<lambda>c. flushHandler c = H \<and> (\<forall>cid n eof h. P h \<longrightarrow> P (fst (H cid n eof h))) \<and> P (host c)"
  "\<lambda>_ _. True" True for H and P :: "'e \<Rightarrow> bool"
proof unfold_locales
  fix c c' :: "'e coord"
  assume "core c' = core c" "flushHandler c = H \<and> (\<forall>cid n eof h. P h \<longrightarrow> P (fst (H cid n eof h))) \<and> P (host c)"
  then show "flushHandler c' = H \<and> (\<forall>cid n eof h. P h \<longrightarrow> P (fst (H cid n eof h))) \<and> P (host c')"
    using core_eqD [of c' c] by simp
next
  fix c :: "'e coord" and cid st h e
  assume "flushHandler c = H \<and> (\<forall>cid n eof h. P h \<longrightarrow> P (fst (H cid n eof h))) \<and> P (host c)"
    and "flushHandler c cid (snd (totals st)) (lastEOFID st) (host c) = (h, e)"
  moreover from this have "P h" by (metis fst_conv)
  ultimately show "flushHandler (if e = None then put_client_state cid (st\<lparr>flushed := True\<rparr>) (c\<lparr>host := h\<rparr>) else c\<lparr>host := h\<rparr>) = H \<and>
      (\<forall>cid n eof h. P h \<longrightarrow> P (fst (H cid n eof h))) \<and>
      P (host (if e = None then put_client_state cid (st\<lparr>flushed := True\<rparr>) (c\<lparr>host := h\<rparr>) else c\<lparr>host := h\<rparr>))"
    by simp
qed simp_all

section \<open>A batch through the engine\<close>

context sender_view
begin

definition host_ok :: "'y list \<Rightarrow> ('s, 'p) engine_host \<Rightarrow> bool" where
  "host_ok A h \<longleftrightarrow> ready (eng_sender h) \<and> waiting (eng_sender h) = [] \<and> arrived (eng_sender h) = A"

lemma true_eof_keeps: "host_ok A h \<Longrightarrow> valid cid \<Longrightarrow> host_ok A (fst (handle_true_eof ops w cid n eof h))"
  using eof_view [of "eng_sender h" cid n eof]
  by (auto simp: handle_true_eof_def zoom_def host_ok_def)

lemma process_prefix_view:
  assumes "ready (eng_sender (host c))" "\<And>x p. x \<in> set items \<Longrightarrow> \<exists>p'. proc owner x p = (p', Inr (f x))"
  shows "\<exists>c'. process_items ops proc owner bid (items @ rest) n c =
      process_items ops proc owner bid rest (n + sum_list (map (\<lambda>x. count_survivors (fst (f x)) (snd (f x))) items)) c' \<and>
    ready (eng_sender (host c')) \<and> flushHandler c' = flushHandler c \<and> clients c' = clients c \<and>
    arrived (eng_sender (host c')) @ waiting (eng_sender (host c')) =
      arrived (eng_sender (host c)) @ waiting (eng_sender (host c)) @
      concat (map (\<lambda>x. concat (map (sel owner) (fst (f x)))) items)"
  using assms
proof (induction items arbitrary: n c)
  case (Cons x items)
  obtain p where p: "proc owner x (eng_processor (host c)) = (p, Inr (f x))" using Cons.prems(2) by fastforce
  let ?c1 = "c\<lparr>host := (host c)\<lparr>eng_processor := p\<rparr>\<rparr>"
  have v: "valid owner" by (rule owner_valid [OF Cons.prems(1)])
  have lift: "\<exists>c'. for_each (\<lambda>v. on_sender (sender_add ops owner v bid)) vs d = (c', None) \<and>
      ready (eng_sender (host c')) \<and> flushHandler c' = flushHandler d \<and> clients c' = clients d \<and>
      arrived (eng_sender (host c')) @ waiting (eng_sender (host c')) =
      arrived (eng_sender (host d)) @ waiting (eng_sender (host d)) @ concat (map (sel owner) vs)"
    if "ready (eng_sender (host d))" for vs and d :: "('s, 'a) stateless"
    using that
  proof (induction vs arbitrary: d)
    case (Cons y vs)
    obtain s' where s': "sender_add ops owner y bid (eng_sender (host d)) = (s', None)" "ready s'"
      "arrived s' @ waiting s' = arrived (eng_sender (host d)) @ waiting (eng_sender (host d)) @ sel owner y"
      using add_view [OF Cons.prems v] by blast
    then show ?case
      using Cons.IH [of "d\<lparr>host := (host d)\<lparr>eng_sender := s'\<rparr>\<rparr>"]
      by (auto simp: on_sender_def zoom_def then_act_def)
  qed (auto simp: ok_def)
  obtain c2 where c2: "for_each (\<lambda>v. on_sender (sender_add ops owner v bid)) (fst (f x)) ?c1 = (c2, None)"
    "ready (eng_sender (host c2))" "flushHandler c2 = flushHandler c" "clients c2 = clients c"
    "arrived (eng_sender (host c2)) @ waiting (eng_sender (host c2)) =
      arrived (eng_sender (host c)) @ waiting (eng_sender (host c)) @ concat (map (sel owner) (fst (f x)))"
    using lift [of ?c1 "fst (f x)"] Cons.prems by auto
  from Cons.IH [OF c2(2) Cons.prems(2), of "n + count_survivors (fst (f x)) (snd (f x))"] c2 p show ?case
    by (cases "f x") (auto simp: Let_def ac_simps)
qed auto

text \<open>
  A batch whose first items \<open>xs\<close> have been added when the processor fails at the next one: their
  results stay with the sender.
\<close>

lemma failed_message_view:
  fixes c :: "('s, 'p) stateless"
  assumes "ready (eng_sender (host c))" "flushHandler c = F"
    and "EventClient ev = owner" "\<not> has_own_batch (EventID ev) (state_of owner c)" "Data ev = xs @ y # ys"
    and "\<And>x p. x \<in> set xs \<Longrightarrow> \<exists>p'. proc owner x p = (p', Inr (f x))" "\<And>p. \<exists>p'. proc owner y p = (p', Inl err)"
  shows "\<exists>c'. handle_data_message ops proc ev c = (c', [], Some err) \<and>
    ready (eng_sender (host c')) \<and> flushHandler c' = F \<and> clients c' = clients (fst (get_client_state owner c)) \<and>
    arrived (eng_sender (host c')) @ waiting (eng_sender (host c')) =
      arrived (eng_sender (host c)) @ waiting (eng_sender (host c)) @
      concat (map (\<lambda>x. concat (map (sel owner) (fst (f x)))) xs)"
proof -
  obtain c0 st where g: "get_client_state owner c = (c0, st)" by fastforce
  have c0: "host c0 = host c" "flushHandler c0 = flushHandler c"
    using g by (auto simp: get_client_state_def split: option.splits)
  have st: "\<not> has_own_batch (EventID ev) st" using state_of_get [OF g, of owner] assms(4) by simp
  obtain c1 n where c1: "process_items ops proc owner (EventID ev) (xs @ y # ys) 0 c0 =
      process_items ops proc owner (EventID ev) (y # ys) n c1"
    "ready (eng_sender (host c1))" "flushHandler c1 = flushHandler c" "clients c1 = clients c0"
    "arrived (eng_sender (host c1)) @ waiting (eng_sender (host c1)) =
      arrived (eng_sender (host c)) @ waiting (eng_sender (host c)) @
      concat (map (\<lambda>x. concat (map (sel owner) (fst (f x)))) xs)"
    using process_prefix_view [where items = xs and proc = proc and f = f and c = c0 and bid = "EventID ev"
        and rest = "y # ys" and n = 0] assms(1,6) c0 by auto
  obtain p where "proc owner y (eng_processor (host c1)) = (p, Inl err)" using assms(7) by blast
  then show ?thesis
    using g st c1 assms(2,3,5) by (simp add: handle_data_message_def has_seen_batch_def Let_def)
qed

text \<open>
  A batch that was not seen, through a processor that computes \<open>f\<close>: whatever becomes of recording it,
  exactly its results arrive; if it is acknowledged, it is recorded.
\<close>

lemma data_message_view:
  fixes c :: "('s, 'p) stateless"
  assumes "ready (eng_sender (host c)) \<and> arrived (eng_sender (host c)) @ waiting (eng_sender (host c)) = A"
    and "flushHandler c = handle_true_eof ops w" "\<forall>cid. valid cid"
    and "EventClient ev = owner" "\<not> has_own_batch (EventID ev) (state_of owner c)"
    and "\<And>x p. \<exists>p'. proc owner x p = (p', Inr (f x))"
    and "handle_data_message ops proc ev c = (c', ds, e)"
  shows "host_ok (A @ concat (map (\<lambda>x. concat (map (sel owner) (fst (f x)))) (Data ev))) (host c') \<and>
    (e = None \<longrightarrow> ds = [Ack] \<and> has_own_batch (EventID ev) (state_of owner c')) \<and> (e \<noteq> None \<longrightarrow> ds = [])"
proof -
  let ?bid = "EventID ev"
  let ?A = "A @ concat (map (\<lambda>x. concat (map (sel owner) (fst (f x)))) (Data ev))"
  obtain c0 st where g: "get_client_state owner c = (c0, st)" by fastforce
  have c0: "host c0 = host c" "flushHandler c0 = flushHandler c"
    using g by (auto simp: get_client_state_def split: option.splits)
  have st: "\<not> has_own_batch ?bid st" using state_of_get [OF g, of owner] assms(5) by simp
  obtain c1 n where c1: "process_items ops proc owner ?bid (Data ev) 0 c0 = (c1, Inr n)"
    "ready (eng_sender (host c1))" "flushHandler c1 = flushHandler c"
    "arrived (eng_sender (host c1)) @ waiting (eng_sender (host c1)) = ?A"
    using process_prefix_view [of c0 "Data ev" proc f ?bid "[]" 0] assms(1,6) c0 by auto
  have v: "valid owner" using assms(3) by simp
  from flush_view [OF c1(2) v] obtain s' where s': "sender_flush ops owner (eng_sender (host c1)) = (s', None)"
    "ready s'" "waiting s' = []" "arrived s' = ?A" using c1(4) by auto
  let ?c2 = "c1\<lparr>host := (host c1)\<lparr>eng_sender := s'\<rparr>\<rparr>"
  have c2: "on_sender (sender_flush ops owner) c1 = (?c2, None)" by (simp add: on_sender_def zoom_def s')
  obtain c3 e3 where c3: "record_batch owner ?bid (of_nat (length (Data ev))) n ?c2 = (c3, e3)" by fastforce
  let ?I = "\<lambda>c :: ('s, 'p) stateless. flushHandler c = handle_true_eof ops w \<and>
      (\<forall>cid n eof (h :: ('s, 'p) engine_host). host_ok ?A h \<longrightarrow> host_ok ?A (fst (handle_true_eof ops w cid n eof h))) \<and> host_ok ?A (host c)"
  have "preserves ?I (record_batch owner ?bid (of_nat (length (Data ev))) n)"
    by (rule host_view.record_batch) simp
  moreover have "host_ok ?A (host ?c2)" using s' by (simp add: host_ok_def)
  then have "?I ?c2" using true_eof_keeps assms(2,3) c1(3) by auto
  ultimately have "?I (fst (record_batch owner ?bid (of_nat (length (Data ev))) n ?c2))"
    by (rule preservesD)
  then have "host_ok ?A (host c3)" using c3 by simp
  moreover have "handle_data_message ops proc ev c =
      (case (c3, e3) of (c2, Some e) \<Rightarrow> (c2, [], Some e) | (c2, None) \<Rightarrow> (c2, [Ack], None))"
    using g st c1(1) c2 c3 assms(4)
    by (simp add: handle_data_message_def Let_def has_seen_batch_def then_act_def c2)
  ultimately show ?thesis
    using assms(7) seen_after_record [of owner ?bid "of_nat (length (Data ev))" n ?c2 c3] c3
    by (cases e3) auto
qed

end

section \<open>Properties\<close>


text \<open>
  A batch that was handled successfully and is delivered again (its acknowledgement was lost) is
  only acknowledged: nothing is processed, sent, recorded or broadcast, for any processor and any
  sender, and the state of the worker does not change.
\<close>

theorem redelivered_batch_is_only_acknowledged:
  assumes "EventType ev = DataMessage" "handle_event ops proc ev c = (c', ds, None)"
  shows "handle_event ops proc' ev c' = (c', [Ack], None)"
proof -
  obtain c0 st where g: "get_client_state (EventClient ev) c = (c0, st)" by fastforce
  have run: "handle_data_message ops proc ev c = (c', ds, None)"
    using assms by (simp add: handle_event_def)
  have "has_own_batch (EventID ev) (state_of (EventClient ev) c')"
  proof (cases "has_own_batch (EventID ev) st")
    case True
    then show ?thesis using run g state_of_get [OF g, of "EventClient ev"]
      by (simp add: handle_data_message_def has_seen_batch_def)
  next
    case False
    then show ?thesis
      using run g seen_after_record
      by (auto simp: handle_data_message_def has_seen_batch_def then_act_def Let_def split: prod.splits option.splits sum.splits)
  qed
  moreover from this have "mget (clients c') (EventClient ev) \<noteq> None"
    by (auto simp: state_of_def mget0_def has_own_batch_def new_client_state_def split: option.splits)
  ultimately show ?thesis
    using assms(1) by (auto simp: handle_event_def handle_data_message_def has_seen_batch_def get_client_state_def
        state_of_def Let_def mget0_def)
qed

text \<open>
  A batch that fails half way is sent half twice. When the processor fails at the item \<open>y\<close>, the
  results of the items \<open>xs\<close> before it stay with the sender, and the message is requeued; when it is
  delivered again and the processor computes \<open>f\<close> on all its items, the next stage receives the
  results of \<open>xs\<close> a second time, within chunks that carry identifiers it has not seen.
\<close>

theorem failed_item_duplicates_earlier_results:
  fixes c :: "((scatter_gather, scatter_gather list) single_sender, 'p) stateless"
  assumes "single_ready insert_scatter_gather_batch (EventClient ev) k (eng_sender (host c))"
    and "waiting_items (EventClient ev) (eng_sender (host c)) = []"
    and "flushHandler c = handle_true_eof single_ops w"
    and "\<not> has_own_batch (EventID ev) (state_of (EventClient ev) c)"
    and "EventType ev = DataMessage" "Data ev = xs @ y # ys"
    and "\<And>x p. x \<in> set xs \<Longrightarrow> \<exists>p'. proc (EventClient ev) x p = (p', Inr (f x))"
    and "\<And>p. \<exists>p'. proc (EventClient ev) y p = (p', Inl err)"
    and "\<And>x p. \<exists>p'. proc' (EventClient ev) x p = (p', Inr (f x))"
    and "handle_event single_ops proc ev c = (c1, ds1, e1)"
    and "handle_event single_ops proc' ev c1 = (c2, ds2, e2)"
  shows "ds1 = [] \<and> e1 = Some err \<and>
    arrived_items MT_SCATTERGATHER_BATCH get_scatter_gather_batch_items (EventClient ev) k (eng_sender (host c2)) =
      arrived_items MT_SCATTERGATHER_BATCH get_scatter_gather_batch_items (EventClient ev) k (eng_sender (host c)) @
      concat (map (\<lambda>x. fst (f x)) xs) @ concat (map (\<lambda>x. fst (f x)) (Data ev))"
proof -
  let ?cid = "EventClient ev"
  have run: "handle_data_message single_ops proc ev c = (c1, ds1, e1)" "handle_data_message single_ops proc' ev c1 = (c2, ds2, e2)"
    using assms(5,10,11) by (simp_all add: handle_event_def)
  from scatter_gathers.single.failed_message_view [where c = c and k = k and ev = ev and proc = proc and f = f
      and xs = xs and y = y and ys = ys and err = err, OF assms(1) assms(3) refl assms(4,6)] assms(7,8) run
  have 1: "ds1 = []" "e1 = Some err" "single_ready insert_scatter_gather_batch ?cid k (eng_sender (host c1))"
    "flushHandler c1 = handle_true_eof single_ops w" "clients c1 = clients (fst (get_client_state ?cid c))"
    "arrived_items MT_SCATTERGATHER_BATCH get_scatter_gather_batch_items ?cid k (eng_sender (host c1)) @
      waiting_items ?cid (eng_sender (host c1)) =
     arrived_items MT_SCATTERGATHER_BATCH get_scatter_gather_batch_items ?cid k (eng_sender (host c)) @
      concat (map (\<lambda>x. fst (f x)) xs)"
    using assms(2) by auto
  obtain c0 st where g: "get_client_state ?cid c = (c0, st)" by fastforce
  have "state_of ?cid c1 = state_of ?cid c"
    using 1(5) g state_of_get [OF g, of ?cid] by (simp add: state_of_def)
  then have n: "\<not> has_own_batch (EventID ev) (state_of ?cid c1)" using assms(4) by simp
  have v: "\<forall>cid::string. True" by simp
  from scatter_gathers.single.data_message_view [where f = f, OF conjI [OF 1(3,6)] 1(4) v refl n assms(9) run(2)] 1(1,2)
  show ?thesis by (simp add: scatter_gathers.single.host_ok_def)
qed

definition sample_engine :: "((scatter_gather, scatter_gather list) single_sender, nat) stateless" where
  "sample_engine = \<lparr>outcomes = [], workerID = 0, workerName = ''w'', expectedEOFs = 1,
     publishKeys = peer_keys ''w'' 0 2, exchange = [], storage = empty_storage,
     flushHandler = handle_true_eof single_ops 0, clients = [], innerBatchWeight = 0,
     cleanedClients = [], infoSize = (\<lambda>_. 10),
     host = \<lparr>eng_sender = new_single_sender \<lparr>outcomes = [], keys = [''q''], sent = []\<rparr> (\<lambda>xs. xs) (\<lambda>_. 5) 8
        insert_scatter_gather_batch ''n'', eng_processor = 0\<rparr>\<rparr>"

definition sample_event :: "scatter_gather event" where
  "sample_event = \<lparr>EventID = ''b'', EventType = DataMessage, EventClient = ''c'',
     Data = [\<lparr>sg_from_bank = 1, sg_to_bank = 2, sg_account = ''x'', sg_to_account = ''y''\<rparr>,
             \<lparr>sg_from_bank = 3, sg_to_bank = 4, sg_account = ''z'', sg_to_account = ''t''\<rparr>], EOFCount = 0\<rparr>"

lemma sample_engine_ready:
  "single_ready insert_scatter_gather_batch ''c'' ''q'' (eng_sender (host sample_engine))"
  "waiting_items ''c'' (eng_sender (host sample_engine)) = []"
  "flushHandler sample_engine = handle_true_eof single_ops 0"
  "\<not> has_own_batch ''b'' (state_of ''c'' sample_engine)"
  "arrived_items MT_SCATTERGATHER_BATCH get_scatter_gather_batch_items ''c'' ''q'' (eng_sender (host sample_engine)) = []"
  by (simp_all add: sample_engine_def single_ready_def new_single_sender_working)
    (simp_all add: new_single_sender_def dest_def waiting_items_def batcher_of_def state_of_def mget0_def
      has_own_batch_def new_client_state_def arrived_items_def received_of_def received_def)


theorem redelivered_batch_is_only_acknowledged_witness:
  "\<exists>c'. handle_event single_ops (\<lambda>cid x p. (p + 1, Inr ([x], False))) (sample_event\<lparr>Data := []\<rparr>) sample_engine =
      (c', [Ack], None) \<and>
    handle_event single_ops (\<lambda>cid x p. (p, Inl ErrClosed)) (sample_event\<lparr>Data := []\<rparr>) c' = (c', [Ack], None)"
proof -
  let ?ev = "sample_event\<lparr>Data := []\<rparr>"
  have h: "healthy empty_storage" by (simp add: healthy_def empty_storage_def)
  have "\<exists>c'. handle_event single_ops (\<lambda>cid x p. (p + 1, Inr ([x], False))) ?ev sample_engine = (c', [Ack], None)"
    using h by (simp add: handle_event_def handle_data_message_def sample_event_def sample_engine_def has_seen_batch_def
        get_client_state_def Let_def has_own_batch_def new_client_state_def on_sender_def zoom_def then_act_def
        single_ops_def single_flush_def new_single_sender_def record_batch_def mget_mput has_all_eofs_def
        on_storage_def write_healthy upd_def add_own_batch_def try_flush_def put_client_state_def
        is_ready_to_flush_def totals_def eof_totals_def counted_eofs_def merge_eof_def ok_def)
  then obtain c' where c': "handle_event single_ops (\<lambda>cid x p. (p + 1, Inr ([x], False))) ?ev sample_engine = (c', [Ack], None)"
    by blast
  with redelivered_batch_is_only_acknowledged [OF _ c'] show ?thesis by (auto simp: sample_event_def)
qed

theorem failed_item_duplicates_earlier_results_witness:
  "\<exists>c1 c2 ds1 ds2 e2 x y. Data sample_event = [x, y] \<and>
    handle_event single_ops (\<lambda>cid z p. if z = y then (p, Inl ErrClosed) else (p + 1, Inr ([z], False))) sample_event sample_engine =
      (c1, ds1, Some ErrClosed) \<and>
    handle_event single_ops (\<lambda>cid z p. (p + 1, Inr ([z], False))) sample_event c1 = (c2, ds2, e2) \<and>
    arrived_items MT_SCATTERGATHER_BATCH get_scatter_gather_batch_items ''c'' ''q'' (eng_sender (host c2)) = [x, x, y]"
proof -
  let ?x = "\<lparr>sg_from_bank = 1, sg_to_bank = 2, sg_account = ''x'', sg_to_account = ''y''\<rparr>"
  let ?y = "\<lparr>sg_from_bank = 3, sg_to_bank = 4, sg_account = ''z'', sg_to_account = ''t''\<rparr>"
  let ?bad = "\<lambda>cid z p. if z = ?y then (p, Inl ErrClosed) else (p + 1 :: nat, Inr ([z], False))"
  let ?good = "\<lambda>cid z p. (p + 1 :: nat, Inr ([z], False))"
  obtain c1 ds1 e1 where r1: "handle_event single_ops ?bad sample_event sample_engine = (c1, ds1, e1)" by (rule prod_cases3)
  obtain c2 ds2 e2 where r2: "handle_event single_ops ?good sample_event c1 = (c2, ds2, e2)" by (rule prod_cases3)
  have ev: "EventClient sample_event = ''c''" "EventID sample_event = ''b''" "EventType sample_event = DataMessage"
    "Data sample_event = [?x] @ ?y # []" by (simp_all add: sample_event_def)
  have bad: "\<And>x p. x \<in> set [?x] \<Longrightarrow> \<exists>p'. ?bad (EventClient sample_event) x p = (p', Inr ([x], False))" by simp
  have at_y: "\<And>p. \<exists>p'. ?bad (EventClient sample_event) ?y p = (p', Inl ErrClosed)" by simp
  have good: "\<And>x p. \<exists>p'. ?good (EventClient sample_event) x p = (p', Inr ([x], False))" by simp
  note dup = failed_item_duplicates_earlier_results [where ev = sample_event and c = sample_engine and k = "''q''" and w = 0
      and f = "\<lambda>x. ([x], False)", unfolded ev(1,2),
      OF sample_engine_ready(1-4) ev(3,4) bad [unfolded ev(1)] at_y [unfolded ev(1)] good [unfolded ev(1)] r1 r2]
  have "e1 = Some ErrClosed" using dup by blast
  moreover have "arrived_items MT_SCATTERGATHER_BATCH get_scatter_gather_batch_items ''c'' ''q'' (eng_sender (host c2)) =
      [?x, ?x, ?y]" using dup sample_engine_ready(5) ev(4) by simp
  ultimately have "e1 = Some ErrClosed" "arrived_items MT_SCATTERGATHER_BATCH get_scatter_gather_batch_items ''c'' ''q'' (eng_sender (host c2)) =
      [?x, ?x, ?y]" by simp_all
  with r1 r2 show ?thesis unfolding ev(4) append_Cons append_Nil by blast
qed

end
