(* ===== verification/Routers.thy ===== *)
theory Routers
  imports StatelessEngine
begin

text \<open>
  \<open>internal/workers/processor/routers\<close>: the processors that give every item the routing key of the
  worker that will handle it. All of them hash a key of the item with 32-bit FNV-1a
  (\<open>hash/fnv.New32a\<close>) and take the route at the hash modulo the number of routes; with no route the
  modulus is a division by zero, a panic. What matters to the stages behind them is that equal keys
  get equal routes, so that one worker sees everything about a key.
\<close>

section \<open>The hash\<close>

definition fnv_offset :: u32 where "fnv_offset = 2166136261"
definition fnv_prime :: u32 where "fnv_prime = 16777619"

definition fnv_step :: "u8 \<Rightarrow> u32 \<Rightarrow> u32" where
  "fnv_step b h = (xor h (ucast b)) * fnv_prime"

definition fnv32a :: "u8 list \<Rightarrow> u32" where
  "fnv32a bs = fold fnv_step bs fnv_offset"

text \<open>The published test vectors of FNV-1a.\<close>

lemma fnv32a_vectors:
  "fnv32a (bytes []) = 0x811c9dc5" "fnv32a (bytes ''a'') = 0xe40c292c" "fnv32a (bytes ''foobar'') = 0xbf9cf968"
  by (simp_all add: fnv32a_def fnv_step_def bytes_def byte_def fnv_offset_def fnv_prime_def)

definition select_route :: "string list \<Rightarrow> u8 list \<Rightarrow> go_error + string" where
  "select_route routes key =
     (let n = word_of_nat (length routes) :: u32
      in if n = 0 then Inl Panic else Inr (routes ! unat (fnv32a key mod n)))"

text \<open>The routes a worker is configured with: at least one, and their number fits in 32 bits.\<close>

definition good_routes :: "string list \<Rightarrow> bool" where
  "good_routes routes \<longleftrightarrow> routes \<noteq> [] \<and> length routes < 2 ^ 32"

definition route_of :: "string list \<Rightarrow> u8 list \<Rightarrow> string" where
  "route_of routes key = routes ! (unat (fnv32a key) mod length routes)"

lemma select_route_good [simp]:
  assumes "good_routes routes"
  shows "select_route routes key = Inr (route_of routes key)"
proof -
  have n: "unat (word_of_nat (length routes) :: u32) = length routes"
    using assms by (simp add: good_routes_def unsigned_of_nat take_bit_nat_eq_self)
  then have "(word_of_nat (length routes) :: u32) \<noteq> 0" using assms by (auto simp: good_routes_def)
  then show ?thesis by (simp add: select_route_def route_of_def unat_mod n)
qed

lemma route_of_in_range: "good_routes routes \<Longrightarrow> route_of routes key \<in> set routes"
  by (simp add: route_of_def good_routes_def)

lemma select_route_empty [simp]: "select_route [] key = Inl Panic"
  by (simp add: select_route_def)

section \<open>The routers\<close>

text \<open>\<open>RouterProcessor\<close>: one routed item, by the key that its selector gives.\<close>

definition route_one :: "string list \<Rightarrow> u8 list \<Rightarrow> 't \<Rightarrow> go_error + 't routed_item list \<times> bool" where
  "route_one routes key item =
     (case select_route routes key of
        Inl e \<Rightarrow> Inl e
      | Inr r \<Rightarrow> Inr ([\<lparr>Route = r, Item = item\<rparr>], False))"

definition router_process :: "string list \<Rightarrow> ('t \<Rightarrow> string) \<Rightarrow> ('t, 't routed_item, 'p) processor" where
  "router_process routes keySelector cid item p = (p, route_one routes (bytes (keySelector item)) item)"

text \<open>The four bytes of a bank number, the low byte first.\<close>

definition bank_bytes :: "i32 \<Rightarrow> u8 list" where
  "bank_bytes b = map (\<lambda>i. ucast (signed_drop_bit i b)) [0, 8, 16, 24]"

definition maxbank_router :: "string list \<Rightarrow> (maxbank_item, maxbank_item routed_item, 'p) processor" where
  "maxbank_router routes cid item p = (p, route_one routes (bank_bytes (mb_from_bank item)) item)"

text \<open>The key of an account, \<open>%d-%s\<close>.\<close>

definition account_key :: "i32 \<Rightarrow> string \<Rightarrow> u8 list" where
  "account_key b name = bytes (show_int (sint b) @ DASH # name)"

text \<open>Both the worker of the origin and the worker of the destination get the item; it counts once.\<close>

definition origin_destination_router ::
  "string list \<Rightarrow> string list \<Rightarrow> (scatter_gather, scatter_gather routed_item, 'p) processor" where
  "origin_destination_router oroutes droutes cid item p =
     (p, case select_route oroutes (account_key (sg_from_bank item) (sg_account item)) of
           Inl e \<Rightarrow> Inl e
         | Inr o' \<Rightarrow>
             (case select_route droutes (account_key (sg_to_bank item) (sg_to_account item)) of
                Inl e \<Rightarrow> Inl e
              | Inr d \<Rightarrow> Inr ([\<lparr>Route = o', Item = item\<rparr>, \<lparr>Route = d, Item = item\<rparr>], False)))"

text \<open>A group becomes one pair per related account, each to the worker of that account; every pair counts.\<close>

fun intermediary_pairs :: "string list \<Rightarrow> account \<Rightarrow> account list \<Rightarrow> go_error + intermediary_pair routed_item list" where
  "intermediary_pairs routes base [] = Inr []"
| "intermediary_pairs routes base (a # as) =
     (case select_route routes (account_key (bank a) (account_name a)) of
        Inl e \<Rightarrow> Inl e
      | Inr r \<Rightarrow>
          (case intermediary_pairs routes base as of
             Inl e \<Rightarrow> Inl e
           | Inr ps \<Rightarrow> Inr (\<lparr>Route = r, Item = \<lparr>intermediary = a, pair_account = base\<rparr>\<rparr> # ps)))"

definition intermediary_router :: "string list \<Rightarrow> (grouped_accounts, intermediary_pair routed_item, 'p) processor" where
  "intermediary_router routes cid item p =
     (p, case intermediary_pairs routes (base_account item) (related_accounts item) of
           Inl e \<Rightarrow> Inl e
         | Inr ps \<Rightarrow> Inr (ps, True))"

section \<open>The routers in front of the joins\<close>

definition avg_join_router :: "string list \<Rightarrow> (avg_result, avg_result routed_item, 'p) processor" where
  "avg_join_router routes cid item p = (p, route_one routes (bytes (ar_account item)) item)"

definition converted_join_router :: "float_ops \<Rightarrow> string list \<Rightarrow> (converted_amount, converted_amount routed_item, 'p) processor" where
  "converted_join_router F routes cid item p = (p, route_one routes (bytes (f_show2 F (converted item))) item)"

definition maxbank_join_router :: "string list \<Rightarrow> (maxbank_result, maxbank_result routed_item, 'p) processor" where
  "maxbank_join_router routes cid item p = (p, route_one routes (bytes (mr_bank_name item)) item)"

definition micro_join_router :: "string list \<Rightarrow> (microtransaction, microtransaction routed_item, 'p) processor" where
  "micro_join_router routes cid item p = (p, route_one routes (bytes (micro_account item)) item)"

definition path_join_router :: "string list \<Rightarrow> (suspicious_path, suspicious_path routed_item, 'p) processor" where
  "path_join_router routes cid item p =
     (p, route_one routes (account_key (bank (origin item)) (account_name (origin item))) item)"

section \<open>The routes the builders make\<close>

text \<open>\<open>exchange.0\<close>, \<open>exchange.1\<close>, ... for the workers of the next stage (\<open>internal/factory\<close>).\<close>

definition numbered_routes :: "string \<Rightarrow> nat \<Rightarrow> string list" where
  "numbered_routes ex n = map (\<lambda>i. ex @ CHR ''.'' # show_nat i) [0..<n]"

definition origin_routes :: "nat \<Rightarrow> string list" where
  "origin_routes n = numbered_routes ''origin'' n"

definition destination_routes :: "nat \<Rightarrow> string list" where
  "destination_routes n = numbered_routes ''destination'' n"

lemma numbered_routes_good: "0 < n \<Longrightarrow> n < 2 ^ 32 \<Longrightarrow> good_routes (numbered_routes ex n)"
  by (simp add: good_routes_def numbered_routes_def)

lemma numbered_routes_distinct: "distinct (numbered_routes ex n)"
  by (auto simp: numbered_routes_def distinct_map inj_on_def)

lemma origin_not_destination: "set (origin_routes n) \<inter> set (destination_routes m) = {}"
  by (auto simp: origin_routes_def destination_routes_def numbered_routes_def)

section \<open>What a stage of routers sends, and what a worker receives\<close>

text \<open>The routed items of a batch of items, and the ones of them with a worker's key.\<close>

definition routed_items :: "('t, 'v routed_item, unit) processor \<Rightarrow> string \<Rightarrow> 't list \<Rightarrow> 'v routed_item list" where
  "routed_items proc cid items =
     concat (map (\<lambda>x. case snd (proc cid x ()) of Inl e \<Rightarrow> [] | Inr (rs, multi) \<Rightarrow> rs) items)"

definition arriving :: "string \<Rightarrow> 't routed_item list \<Rightarrow> 't list" where
  "arriving r rs = map Item (filter (\<lambda>x. Route x = r) rs)"

lemma routed_items_Nil [simp]: "routed_items proc cid [] = []"
  by (simp add: routed_items_def)

lemma routed_items_append [simp]: "routed_items proc cid (xs @ ys) = routed_items proc cid xs @ routed_items proc cid ys"
  by (simp add: routed_items_def)

lemma arriving_append [simp]: "arriving r (xs @ ys) = arriving r xs @ arriving r ys"
  by (simp add: arriving_def)

lemma arriving_Nil [simp]: "arriving r [] = []"
  by (simp add: arriving_def)

lemma arriving_Cons [simp]: "arriving r (x # xs) = (if Route x = r then Item x # arriving r xs else arriving r xs)"
  by (simp add: arriving_def)

lemma routed_items_Cons:
  "routed_items proc cid (x # xs) = (case snd (proc cid x ()) of Inl e \<Rightarrow> [] | Inr (rs, multi) \<Rightarrow> rs) @ routed_items proc cid xs"
  by (simp add: routed_items_def)

text \<open>A worker behind a router of single items receives the items of its keys, in order.\<close>

definition routes_by :: "('t, 't routed_item, unit) processor \<Rightarrow> string list \<Rightarrow> ('t \<Rightarrow> u8 list) \<Rightarrow> bool" where
  "routes_by proc routes key \<longleftrightarrow> (\<forall>cid x. proc cid x () = ((), Inr ([\<lparr>Route = route_of routes (key x), Item = x\<rparr>], False)))"

lemma arriving_routes_by:
  "routes_by proc routes key \<Longrightarrow> arriving r (routed_items proc cid items) = filter (\<lambda>x. route_of routes (key x) = r) items"
  by (induction items) (simp_all add: routed_items_Cons routes_by_def)

lemma single_routers:
  assumes "good_routes routes"
  shows "routes_by (router_process routes sel) routes (\<lambda>x. bytes (sel x))"
    "routes_by (maxbank_router routes) routes (\<lambda>x. bank_bytes (mb_from_bank x))"
    "routes_by (avg_join_router routes) routes (\<lambda>x. bytes (ar_account x))"
    "routes_by (converted_join_router F routes) routes (\<lambda>x. bytes (f_show2 F (converted x)))"
    "routes_by (maxbank_join_router routes) routes (\<lambda>x. bytes (mr_bank_name x))"
    "routes_by (micro_join_router routes) routes (\<lambda>x. bytes (micro_account x))"
    "routes_by (path_join_router routes) routes (\<lambda>x. account_key (bank (origin x)) (account_name (origin x)))"
  using assms by (simp_all add: routes_by_def router_process_def maxbank_router_def avg_join_router_def
    converted_join_router_def maxbank_join_router_def micro_join_router_def path_join_router_def route_one_def)

lemma arriving_origin:
  assumes "good_routes os" "good_routes ds" "set os \<inter> set ds = {}" "r \<in> set os"
  shows "arriving r (routed_items (origin_destination_router os ds) cid items) =
      filter (\<lambda>x. route_of os (account_key (sg_from_bank x) (sg_account x)) = r) items"
proof -
  have "route_of ds k \<noteq> r" for k using assms route_of_in_range [OF assms(2)] by blast
  then show ?thesis using assms
    by (induction items) (simp_all add: routed_items_Cons origin_destination_router_def)
qed

lemma arriving_destination:
  assumes "good_routes os" "good_routes ds" "set os \<inter> set ds = {}" "r \<in> set ds"
  shows "arriving r (routed_items (origin_destination_router os ds) cid items) =
      filter (\<lambda>x. route_of ds (account_key (sg_to_bank x) (sg_to_account x)) = r) items"
proof -
  have "route_of os k \<noteq> r" for k using assms route_of_in_range [OF assms(1)] by blast
  then show ?thesis using assms
    by (induction items) (simp_all add: routed_items_Cons origin_destination_router_def)
qed

text \<open>What the intermediary router sends to a worker.\<close>

lemma intermediary_pairs_good:
  assumes "good_routes routes"
  shows "intermediary_pairs routes base as =
    Inr (map (\<lambda>a. \<lparr>Route = route_of routes (account_key (bank a) (account_name a)),
                   Item = \<lparr>intermediary = a, pair_account = base\<rparr>\<rparr>) as)"
  using assms by (induction as) simp_all

lemma arriving_intermediary:
  assumes "good_routes routes"
  shows "set (arriving r (routed_items (intermediary_router routes) cid gs)) =
    {\<lparr>intermediary = a, pair_account = base_account g\<rparr> |a g. g \<in> set gs \<and> a \<in> set (related_accounts g) \<and>
       route_of routes (account_key (bank a) (account_name a)) = r}"
proof (induction gs)
  case (Cons g gs)
  have "routed_items (intermediary_router routes) cid (g # gs) =
      map (\<lambda>a. \<lparr>Route = route_of routes (account_key (bank a) (account_name a)),
                Item = \<lparr>intermediary = a, pair_account = base_account g\<rparr>\<rparr>) (related_accounts g) @
      routed_items (intermediary_router routes) cid gs"
    by (simp add: routed_items_Cons intermediary_router_def intermediary_pairs_good [OF assms])
  moreover have "set (arriving r (map (\<lambda>a. \<lparr>Route = route_of routes (account_key (bank a) (account_name a)),
                Item = \<lparr>intermediary = a, pair_account = b\<rparr>\<rparr>) as)) =
      {\<lparr>intermediary = a, pair_account = b\<rparr> |a. a \<in> set as \<and> route_of routes (account_key (bank a) (account_name a)) = r}" for b as
    by (induction as) auto
  ultimately show ?case using Cons.IH by auto
qed simp

text \<open>A stateful worker after the items that arrived.\<close>

definition run_process :: "('t \<Rightarrow> 'p act) \<Rightarrow> 't list \<Rightarrow> 'p \<Rightarrow> 'p" where
  "run_process f items p = fst (for_each f items p)"

lemma for_each_map: "for_each f (map g xs) = for_each (\<lambda>x. f (g x)) xs"
  by (simp add: for_each_def comp_def)

end
