(* ===== verification/CheckpointLog.thy ===== *)
theory CheckpointLog
  imports GoStrings "HOL-Library.Sublist"
begin

unbundle bit_operations_syntax

text \<open>
  The checkpoint log of \<open>internal/workers/checkpoint\<close>: the entries of \<open>checkpoint.go\<close>, the line
  format of \<open>appendLogEntry\<close> (length, CRC-32, JSON), its parser \<open>parseLogLine\<close>, and the reading
  loop of \<open>loadClientState\<close>.

  \<open>encoding/json\<close> is a parameter: \<open>marshal_entry\<close> is \<open>json.Marshal\<close>, which can fail, and
  \<open>unmarshal_entry\<close> is \<open>json.Unmarshal\<close> into an entry. The value of a change is the value its JSON
  stands for, or \<open>None\<close> for bytes that do not unmarshal into the structure its kind asks for.
\<close>

record 'v change =
  Kind :: string
  Key :: string
  Value :: "'v option"

record 'v log_entry =
  Seq :: u64
  Batches :: "string list"
  Changes :: "'v change list"
  ProcessedCounts :: "u64 list"

record 'v codec =
  marshal_entry :: "'v log_entry \<Rightarrow> string option"
  unmarshal_entry :: "string \<Rightarrow> 'v log_entry option"

section \<open>CRC-32\<close>

text \<open>\<open>crc32.ChecksumIEEE\<close>: reflected polynomial \<open>0xedb88320\<close>, initial value and final mask of ones.\<close>

definition crc_bit :: "u32 \<Rightarrow> u32" where
  "crc_bit c = (if bit c 0 then drop_bit 1 c XOR 0xedb88320 else drop_bit 1 c)"

definition crc_byte :: "u32 \<Rightarrow> char \<Rightarrow> u32" where
  "crc_byte c b = (crc_bit ^^ 8) (c XOR of_nat (byte b))"

definition checksum_ieee :: "string \<Rightarrow> u32" where
  "checksum_ieee s = NOT (foldl crc_byte 0xffffffff s)"

section \<open>Lines\<close>

definition log_line :: "string \<Rightarrow> string" where
  "log_line data = show_nat (length data) @ SP # show_hex8 (unat (checksum_ieee data)) @ SP # data"

text \<open>The third result of \<open>parseLogLine\<close>, an error, is always nil.\<close>

definition parse_log_line :: "'v codec \<Rightarrow> string \<Rightarrow> 'v log_entry option" where
  "parse_log_line C line =
     (let firstSpace = index_byte line SP
      in if firstSpace \<le> 0 then None
         else
           let rest = drop (nat firstSpace + 1) line; secondSpace = index_byte rest SP
           in if secondSpace \<le> 0 then None
              else
                (case atoi (take (nat firstSpace) line) of
                   None \<Rightarrow> None
                 | Some n \<Rightarrow>
                     if n < 0 then None
                     else
                       (case parse_hex32 (take (nat secondSpace) rest) of
                          None \<Rightarrow> None
                        | Some crc \<Rightarrow>
                            (let jsonData = drop (nat secondSpace + 1) rest
                             in if int (length jsonData) \<noteq> n then None
                                else if crc \<noteq> checksum_ieee jsonData then None
                                else unmarshal_entry C jsonData))))"

section \<open>Reading\<close>

definition maxLogToken :: nat where
  "maxLogToken = 128 * 1024 * 1024"

text \<open>The entries up to the first corrupt line, and whether there was one.\<close>

fun replay_lines :: "'v codec \<Rightarrow> string list \<Rightarrow> 'v log_entry list \<times> bool" where
  "replay_lines C [] = ([], False)"
| "replay_lines C (l # ls) =
     (case parse_log_line C l of
        None \<Rightarrow> ([], True)
      | Some e \<Rightarrow> (case replay_lines C ls of (es, b) \<Rightarrow> (e # es, b)))"

text \<open>The scanner's error counts only when the loop has read up to it.\<close>

definition read_log :: "'v codec \<Rightarrow> string \<Rightarrow> 'v log_entry list \<times> go_error option" where
  "read_log C file =
     (case scan_lines maxLogToken file of
        (ls, err) \<Rightarrow>
          (case replay_lines C ls of (es, corrupt) \<Rightarrow> (es, if corrupt then None else err)))"

section \<open>Facts about lines\<close>

text \<open>
  What \<open>encoding/json\<close> documents for an entry: the output is not empty, has no raw control
  characters, and unmarshals to the entry. The line must fit the scanner's buffer.
\<close>

definition encodes :: "'v codec \<Rightarrow> 'v log_entry \<Rightarrow> string \<Rightarrow> bool" where
  "encodes C e d \<longleftrightarrow> marshal_entry C e = Some d \<and> unmarshal_entry C d = Some e \<and> d \<noteq> [] \<and>
     NL \<notin> set d \<and> CR \<notin> set d \<and> length (log_line d) < maxLogToken"

lemma SP_notin_show_nat [simp]: "SP \<notin> set (show_nat n)"
  by (rule nondigit_notin_show_nat) simp

lemma SP_notin_hex [simp]: "SP \<notin> set (show_hex8 n)" "NL \<notin> set (show_hex8 n)"
  using show_hex8_hex not_is_hex by blast+

lemma CR_notin_hex [simp]: "CR \<notin> set (show_hex8 n)"
proof -
  have "\<not> is_hex CR" by (simp add: is_hex_def is_digit_def byte_def)
  then show ?thesis using show_hex8_hex by blast
qed

lemma show_hex8_not_Nil [simp]: "show_hex8 n \<noteq> []"
  using length_show_hex8 [of n] by fastforce

text \<open>A line with both fields complete is judged by its data.\<close>

lemma parse_fields:
  assumes "int n < 2 ^ 63"
  shows "parse_log_line C (show_nat n @ SP # show_hex8 (unat (c :: u32)) @ SP # data) =
    (if length data = n \<and> checksum_ieee data = c then unmarshal_entry C data else None)"
proof -
  have "unat c < 2 ^ LENGTH(32)" by (rule unsigned_less)
  then have "unat c < 2 ^ 32" by simp
  then have h: "parse_hex32 (show_hex8 (unat c)) = Some c" by (simp add: parse_show_hex8)
  show ?thesis
    by (simp add: parse_log_line_def Let_def index_byte_found atoi_show_nat [OF assms] h)
qed

lemma parse_log_line_encoded: "encodes C e d \<Longrightarrow> parse_log_line C (log_line d) = Some e"
proof -
  assume e: "encodes C e d"
  then have "int (length d) < 2 ^ 63"
    by (simp add: encodes_def log_line_def maxLogToken_def)
  from parse_fields [OF this, of C "checksum_ieee d" d] e show ?thesis by (simp add: log_line_def encodes_def)
qed

lemma prefix_append_cases:
  assumes "prefix p (a @ b)"
  obtains (inside) "prefix p a" "p \<noteq> a" | (beyond) q where "p = a @ q" "prefix q b"
proof (cases "p = a")
  case True
  then show ?thesis using beyond [of "[]"] by simp
next
  case False
  then show ?thesis using assms inside beyond by (auto simp: prefix_append)
qed

text \<open>A line of which some bytes at the end are missing is rejected.\<close>

lemma parse_torn:
  assumes "encodes C e d" "strict_prefix p (log_line d)"
  shows "parse_log_line C p = None"
proof -
  let ?n = "show_nat (length d)" and ?h = "show_hex8 (unat (checksum_ieee d))"
  have len: "int (length d) < 2 ^ 63"
    using assms(1) by (simp add: encodes_def log_line_def maxLogToken_def)
  have p: "prefix p (?n @ SP # ?h @ SP # d)" "p \<noteq> ?n @ SP # ?h @ SP # d"
    using assms(2) by (simp_all add: log_line_def strict_prefix_def)
  have missing: "parse_log_line C q = None" if "SP \<notin> set q" for q
    using that by (simp add: parse_log_line_def index_byte_missing Let_def)
  have one: "parse_log_line C (?n @ SP # q) = None" if "SP \<notin> set q" for q
    using that by (simp add: parse_log_line_def index_byte_found index_byte_missing Let_def)
  from p(1) show ?thesis
  proof (cases rule: prefix_append_cases)
    case inside
    then have "SP \<notin> set p" using set_mono_prefix SP_notin_show_nat by blast
    then show ?thesis by (rule missing)
  next
    case (beyond q)
    show ?thesis
    proof (cases q)
      case Nil
      then show ?thesis using beyond(1) missing [of ?n] by simp
    next
      case (Cons c q')
      then have q': "c = SP" "prefix q' (?h @ SP # d)" using beyond(2) by auto
      from q'(2) show ?thesis
      proof (cases rule: prefix_append_cases)
        case inside
        then have "SP \<notin> set q'" using set_mono_prefix SP_notin_hex by blast
        then show ?thesis using one [of q'] beyond(1) Cons q'(1) by simp
      next
        case inner: (beyond r)
        show ?thesis
        proof (cases r)
          case Nil
          then show ?thesis using one [of ?h] beyond(1) Cons q'(1) inner(1) by simp
        next
          case c2: (Cons c2 r')
          then have r': "c2 = SP" "prefix r' d" using inner(2) by auto
          have eq: "p = ?n @ SP # ?h @ SP # r'" using beyond(1) Cons q'(1) inner(1) c2 r'(1) by simp
          then have "r' \<noteq> d" using p(2) by blast
          then have "length r' \<noteq> length d" using r'(2) by (metis not_equal_is_parallel parallel_def prefix_order.refl)
          then show ?thesis unfolding eq parse_fields [OF len] by simp
        qed
      qed
    qed
  qed
qed

section \<open>Files\<close>

definition entry_file :: "string list \<Rightarrow> string" where
  "entry_file ds = concat (map (\<lambda>d. log_line d @ [NL]) ds)"

lemma entry_file_simps [simp]:
  "entry_file [] = []" "entry_file (d # ds) = log_line d @ NL # entry_file ds"
  "entry_file (ds @ ds') = entry_file ds @ entry_file ds'"
  by (simp_all add: entry_file_def)

lemma NL_notin_show_nat [simp]: "NL \<notin> set (show_nat n)" "CR \<notin> set (show_nat n)"
  using nondigit_notin_show_nat [of NL] nondigit_notin_show_nat [of CR] by (simp_all add: is_digit_def byte_def)

lemma encoded_line:
  assumes "encodes C e d"
  shows "NL \<notin> set (log_line d)" "CR \<notin> set (log_line d)" "length (log_line d) < maxLogToken"
  using assms by (auto simp: encodes_def log_line_def)

text \<open>Complete lines are read, whatever follows them.\<close>

lemma scan_lines_prefix:
  assumes "\<forall>l \<in> set ls. NL \<notin> set l \<and> CR \<notin> set l \<and> length l < limit"
  shows "scan_lines limit (concat (map (\<lambda>l. l @ [NL]) ls) @ s) =
    (ls @ fst (scan_lines limit s), snd (scan_lines limit s))"
proof -
  have "raw_lines (concat (map (\<lambda>l. l @ [NL]) ls) @ s) = ls @ raw_lines s"
    using raw_lines_file [of ls s] assms by simp
  moreover have "takeWhile (\<lambda>l. length l < limit) (ls @ r) = ls @ takeWhile (\<lambda>l. length l < limit) r" for r
    using assms by (induction ls) auto
  moreover have "map drop_cr ls = ls" using assms by (simp add: map_idI drop_cr_id)
  ultimately show ?thesis by (simp only: scan_lines_def Let_def) simp
qed

lemma replay_lines_append:
  assumes "list_all2 (\<lambda>l e. parse_log_line C l = Some e) ls es"
  shows "replay_lines C (ls @ rest) = (es @ fst (replay_lines C rest), snd (replay_lines C rest))"
  using assms
proof (induction ls es rule: list_all2_induct)
  case Nil
  then show ?case by simp
next
  case (Cons l ls e es)
  then show ?case by simp
qed

lemma read_log_append:
  assumes "list_all2 (encodes C) es ds"
  shows "read_log C (entry_file ds @ s) = (es @ fst (read_log C s), snd (read_log C s))"
proof -
  let ?ls = "map log_line ds"
  have "encodes C e d" if "(e, d) \<in> set (zip es ds)" for e d using assms that by (auto simp: list_all2_iff)
  moreover have "\<exists>e. (e, d) \<in> set (zip es ds)" if "d \<in> set ds" for d
    using assms that by (auto simp: list_all2_conv_all_nth set_zip in_set_conv_nth)
  ultimately have "\<forall>l \<in> set ?ls. NL \<notin> set l \<and> CR \<notin> set l \<and> length l < maxLogToken"
    using encoded_line by (auto, blast+)
  from scan_lines_prefix [OF this, of s]
  have scan: "scan_lines maxLogToken (entry_file ds @ s) =
      (?ls @ fst (scan_lines maxLogToken s), snd (scan_lines maxLogToken s))"
    by (simp add: entry_file_def comp_def)
  have "list_all2 (\<lambda>l e. parse_log_line C l = Some e) ?ls es"
    using assms by (auto simp: list_all2_conv_all_nth parse_log_line_encoded)
  from replay_lines_append [OF this, of "fst (scan_lines maxLogToken s)"] show ?thesis
    by (simp add: read_log_def scan case_prod_unfold)
qed

lemma read_log_Nil [simp]: "read_log C [] = ([], None)"
  by (simp add: read_log_def scan_lines_def)

lemma read_log_rest:
  assumes "NL \<notin> set p" "CR \<notin> set p" "length p < maxLogToken" "parse_log_line C p = None"
  shows "read_log C (p @ NL # s) = ([], None)" "read_log C p = ([], None)"
proof -
  have "scan_lines maxLogToken (p @ NL # s) = (p # fst (scan_lines maxLogToken s), snd (scan_lines maxLogToken s))"
    using scan_lines_prefix [of "[p]" maxLogToken s] assms by simp
  then show "read_log C (p @ NL # s) = ([], None)" by (simp add: read_log_def assms)
  show "read_log C p = ([], None)"
  proof (cases "p = []")
    case False
    then show ?thesis using assms by (simp add: read_log_def scan_lines_def raw_lines_rest drop_cr_id)
  qed simp
qed

section \<open>Properties\<close>

text \<open>
  A crash while an entry is appended costs at most that entry. For a log of complete entries
  \<open>es\<close> followed by the bytes \<open>p\<close> of an unfinished append of the entry \<open>e\<close>, the reading loop
  returns exactly \<open>es\<close>, without an error; when only the final newline is missing it returns the
  entry \<open>e\<close> too.
\<close>

theorem log_survives_a_torn_append:
  assumes "list_all2 (encodes C) es ds" "encodes C e d" "strict_prefix p (log_line d @ [NL])"
  shows "read_log C (entry_file ds @ p) = (es @ (if p = log_line d then [e] else []), None)"
proof (cases "p = log_line d")
  case True
  have "read_log C (log_line d) = ([e], None)"
    using encoded_line [OF assms(2)] parse_log_line_encoded [OF assms(2)]
    by (simp add: read_log_def scan_lines_def raw_lines_rest drop_cr_id log_line_def)
  then show ?thesis using True read_log_append [OF assms(1), of p] by simp
next
  case False
  have "prefix p (log_line d @ [NL])" "p \<noteq> log_line d @ [NL]" using assms(3) by (auto simp: strict_prefix_def)
  then have "strict_prefix p (log_line d)" using False by (auto simp: strict_prefix_def)
  then have "NL \<notin> set p" "CR \<notin> set p" "length p < maxLogToken" "parse_log_line C p = None"
    using encoded_line [OF assms(2)] parse_torn [OF assms(2)]
    by (auto dest: set_mono_prefix prefix_length_le simp: strict_prefix_def)
  from read_log_rest(2) [OF this] show ?thesis using False read_log_append [OF assms(1), of p] by simp
qed

definition sample_codec :: "nat codec" where
  "sample_codec =
     \<lparr>marshal_entry = \<lambda>e. if Batches e = [] \<and> Changes e = [] \<and> ProcessedCounts e = [] then Some (show_u64 (Seq e)) else None,
      unmarshal_entry = \<lambda>d. map_option (\<lambda>n. \<lparr>Seq = n, Batches = [], Changes = [], ProcessedCounts = []\<rparr>) (parse_uint64 d)\<rparr>"

definition sample_entry :: "u64 \<Rightarrow> nat log_entry" where
  "sample_entry n = \<lparr>Seq = n, Batches = [], Changes = [], ProcessedCounts = []\<rparr>"

lemma sample_encodes: "length (show_u64 n) < 100 \<Longrightarrow> encodes sample_codec (sample_entry n) (show_u64 n)"
proof -
  assume n: "length (show_u64 n) < 100"
  have "length (show_nat m) \<le> m" if "0 < m" for m
    using that
  proof (induction m rule: show_nat.induct)
    case (1 m)
    show ?case
    proof (cases "m < 10")
      case True
      then show ?thesis using 1(2) by (subst show_nat.simps) simp
    next
      case False
      then have "length (show_nat (m div 10)) \<le> m div 10" using 1 by simp
      then show ?thesis using False by (subst show_nat.simps) simp
    qed
  qed
  moreover have "0 < length (show_u64 n)" by (simp add: show_u64_def)
  ultimately have "length (show_nat (length (show_u64 n))) < 100" using n by (meson le_less_trans)
  then have "length (log_line (show_u64 n)) < maxLogToken" using n by (simp add: log_line_def maxLogToken_def)
  then show ?thesis
    using parse_show_u64 [of n] by (simp add: encodes_def sample_codec_def sample_entry_def) (simp add: show_u64_def)
qed

theorem log_survives_a_torn_append_witness:
  "read_log sample_codec (entry_file [show_u64 1, show_u64 2] @ show_nat 1 @ [SP]) = ([sample_entry 1, sample_entry 2], None)"
proof -
  have s: "show_u64 1 = ''1''" "show_u64 2 = ''2''" "show_u64 3 = ''3''" by (code_simp+)
  have e: "encodes sample_codec (sample_entry n) (show_u64 n)" if "n \<in> {1, 2, 3}" for n
    using that s by (intro sample_encodes) auto
  have p: "strict_prefix (show_nat 1 @ [SP]) (log_line (show_u64 3) @ [NL])" "show_nat 1 @ [SP] \<noteq> log_line (show_u64 3)"
    by (simp_all add: s log_line_def strict_prefix_def)
  show ?thesis
    using log_survives_a_torn_append [of sample_codec "[sample_entry 1, sample_entry 2]" "[show_u64 1, show_u64 2]"
        "sample_entry 3" "show_u64 3" "show_nat 1 @ [SP]"] e p by simp
qed

text \<open>
  The log is appended to without removing a torn line first, so what is written after a torn
  line is lost. When the bytes \<open>p\<close> of an unfinished append are followed by the complete line of the
  entry \<open>e\<close> and any further lines, and the joined line \<open>p @ log_line d\<close> is no valid
  line, the reading loop stops there and reports neither \<open>e\<close> nor the later entries, nor an error.
\<close>

theorem entries_after_a_torn_line_are_lost:
  assumes "list_all2 (encodes C) es ds" "encodes C e d"
    and "strict_prefix p (log_line d0)" "encodes C e0 d0"
    and "parse_log_line C (p @ log_line d) = None" "length p + length (log_line d) < maxLogToken"
  shows "read_log C (entry_file ds @ p @ entry_file (d # ds')) = (es, None)"
proof -
  have "NL \<notin> set p" "CR \<notin> set p"
    using encoded_line [OF assms(4)] assms(3) by (auto dest: set_mono_prefix simp: strict_prefix_def)
  then have "read_log C ((p @ log_line d) @ NL # entry_file ds') = ([], None)"
    using encoded_line [OF assms(2)] assms(5,6) by (intro read_log_rest) auto
  then show ?thesis using read_log_append [OF assms(1), of "p @ entry_file (d # ds')"] by simp
qed

theorem entries_after_a_torn_line_are_lost_witness:
  "read_log sample_codec (entry_file [show_u64 1] @ show_nat 1 @ entry_file [show_u64 2, show_u64 3]) = ([sample_entry 1], None)"
proof -
  have s: "show_u64 1 = ''1''" "show_u64 2 = ''2''" "show_u64 3 = ''3''" "show_nat 1 = ''1''" "show_nat 11 = ''11''"
    by (code_simp+)
  have e: "encodes sample_codec (sample_entry n) (show_u64 n)" if "n \<in> {1, 2, 3}" for n
    using that s by (intro sample_encodes) auto
  have p: "strict_prefix (show_nat 1) (log_line (show_u64 2))" "length (show_nat 1) + length (log_line (show_u64 2)) < maxLogToken"
    by (simp_all add: s [unfolded One_nat_def] log_line_def strict_prefix_def maxLogToken_def)
  have "show_nat 1 @ log_line (show_u64 2) =
      show_nat 11 @ SP # show_hex8 (unat (checksum_ieee (show_u64 2))) @ SP # show_u64 2"
    by (simp add: s s [unfolded One_nat_def] log_line_def)
  then have "parse_log_line sample_codec (show_nat 1 @ log_line (show_u64 2)) = None"
    using parse_fields [of 11 sample_codec "checksum_ieee (show_u64 2)" "show_u64 2"] by (simp add: s)
  then show ?thesis
    using entries_after_a_torn_line_are_lost [of sample_codec "[sample_entry 1]" "[show_u64 1]"
        "sample_entry 2" "show_u64 2" "show_nat 1" "show_u64 2" "sample_entry 2" "[show_u64 3]"] e p
    by simp
qed

end
