(* ===== verification/Checkpoint.thy ===== *)
theory Checkpoint
  imports CheckpointLog CoordinatorRecovery
begin

text \<open>
  \<open>internal/workers/checkpoint/checkpoint_manager.go\<close>: the manager that delays the
  acknowledgements of the broker's messages until the batches and the processor's changes are in
  the client's log, and that replays the logs at start-up.

  The manager calls the coordinator and the processor, which the coordinator's flush handler uses
  too; so its operations act on the state of the whole worker: the coordinator, whose host holds the
  sender and the processor, and the manager. An ack function is the delivery tag it acknowledges,
  and calling it appends the tag to \<open>acked\<close>.
\<close>

section \<open>The processor's interface\<close>

text \<open>
  \<open>StatefulProcessor\<close> and \<open>Checkpointable\<close>. \<open>Finalize\<close> gets the \<open>yield\<close> function, an action of the
  state \<open>'s\<close> of the sender.
\<close>

record ('p, 's, 't, 'v, 'c) proc_ops =
  op_process :: "string \<Rightarrow> 't \<Rightarrow> 'p act"
  op_finalize :: "string \<Rightarrow> ('v \<Rightarrow> 's act) \<Rightarrow> 'p \<times> 's \<Rightarrow> ('p \<times> 's) \<times> (go_error + u64)"
  op_cleanup :: "string \<Rightarrow> 'p act"
  op_clear :: "string \<Rightarrow> 'p act"
  op_drain :: "string \<Rightarrow> 'p \<Rightarrow> 'p \<times> (go_error + 'c change list)"
  op_restore :: "string \<Rightarrow> 'c change list \<Rightarrow> 'p act"
  op_apply :: "string \<Rightarrow> 'c change \<Rightarrow> 'p act"

section \<open>State\<close>

text \<open>
  \<open>logs\<close> are the files \<open>changes.log\<close> of the clients; \<open>tornBytes\<close> is how much of a line a failing
  write leaves behind.
\<close>

record cm = env +
  checkpointEveryBatches :: int
  nextSeq :: "(string, u64) gomap"
  batchCount :: "(string, int) gomap"
  processedBatches :: "(string, (string, bool) gomap) gomap"
  pendingBatches :: "(string, string list) gomap"
  pendingAcks :: "(string, nat list) gomap"
  eofSent :: "(string, bool) gomap"
  finalizeComplete :: "(string, bool) gomap"
  processedCount :: "(string, (string, u64) gomap) gomap"
  logs :: "(string, string) gomap"
  tornBytes :: nat
  acked :: "nat list"

record ('s, 'p) sf_host =
  sf_sender :: 's
  sf_processor :: 'p

record ('s, 'p) worker =
  coordinator :: "('s, 'p) sf_host coord"
  manager :: cm

definition on_manager :: "cm act \<Rightarrow> ('s, 'p) worker act" where
  "on_manager = zoom manager (\<lambda>m w. w\<lparr>manager := m\<rparr>)"

definition on_coordinator :: "('s, 'p) sf_host coord act \<Rightarrow> ('s, 'p) worker act" where
  "on_coordinator = zoom coordinator (\<lambda>c w. w\<lparr>coordinator := c\<rparr>)"

definition processor :: "('s, 'p) worker \<Rightarrow> 'p" where
  "processor w = sf_processor (host (coordinator w))"

definition put_processor :: "'p \<Rightarrow> ('s, 'p) worker \<Rightarrow> ('s, 'p) worker" where
  "put_processor p w =
     w\<lparr>coordinator := (coordinator w)\<lparr>host := (host (coordinator w))\<lparr>sf_processor := p\<rparr>\<rparr>\<rparr>"

definition on_processor :: "'p act \<Rightarrow> ('s, 'p) worker act" where
  "on_processor = zoom processor put_processor"

definition new_checkpoint_manager :: "int \<Rightarrow> bool list \<Rightarrow> (string, string) gomap \<Rightarrow> cm" where
  "new_checkpoint_manager every outs disk =
     \<lparr>outcomes = outs, checkpointEveryBatches = every, nextSeq = [], batchCount = [],
      processedBatches = [], pendingBatches = [], pendingAcks = [], eofSent = [],
      finalizeComplete = [], processedCount = [], logs = disk, tornBytes = 0, acked = []\<rparr>"

section \<open>Batches\<close>

definition ack_all :: "nat list \<Rightarrow> cm act" where
  "ack_all tags = upd (\<lambda>m. m\<lparr>acked := acked m @ tags\<rparr>)"

definition begin_batch :: "string \<Rightarrow> string \<Rightarrow> nat \<Rightarrow> cm \<Rightarrow> cm \<times> bool" where
  "begin_batch cid bid ack m =
     (if mget0 False (mget0 [] (processedBatches m) cid) bid
      then (m\<lparr>acked := acked m @ [ack]\<rparr>, False)
      else (m\<lparr>processedBatches := nput cid bid True (processedBatches m),
              pendingBatches := mput cid (mget0 [] (pendingBatches m) cid @ [bid]) (pendingBatches m),
              pendingAcks := mput cid (mget0 [] (pendingAcks m) cid @ [ack]) (pendingAcks m),
              batchCount := mput cid (mget0 0 (batchCount m) cid + 1) (batchCount m)\<rparr>, True))"

definition abort_batch :: "string \<Rightarrow> cm act" where
  "abort_batch cid = upd (\<lambda>m.
     if mget0 0 (batchCount m) cid > 0
     then m\<lparr>batchCount := mput cid (mget0 0 (batchCount m) cid - 1) (batchCount m)\<rparr> else m)"

definition ack_eof :: "nat \<Rightarrow> cm act" where
  "ack_eof ack = ack_all [ack]"

definition ack_cleanup :: "nat \<Rightarrow> cm act" where
  "ack_cleanup ack = ack_all [ack]"

section \<open>Persisting\<close>

definition log_of :: "string \<Rightarrow> cm \<Rightarrow> string" where
  "log_of cid m = mget0 [] (logs m) cid"

definition append_log :: "string \<Rightarrow> string \<Rightarrow> cm \<Rightarrow> cm" where
  "append_log cid s m = m\<lparr>logs := mput cid (log_of cid m @ s) (logs m)\<rparr>"

text \<open>A write that fails leaves the first bytes of the line.\<close>

definition write_line :: "string \<Rightarrow> string \<Rightarrow> cm act" where
  "write_line cid line m =
     (case call (append_log cid line) ErrWrite m of
        (m', None) \<Rightarrow> (m', None)
      | (m', Some e) \<Rightarrow> (append_log cid (take (tornBytes m') line) m', Some e))"

text \<open>\<open>MkdirAll\<close>, \<open>OpenFile\<close>, \<open>Write\<close>, \<open>Sync\<close>: an error of \<open>Sync\<close> comes after the line is written.\<close>

definition append_log_entry :: "'c codec \<Rightarrow> string \<Rightarrow> 'c log_entry \<Rightarrow> cm act" where
  "append_log_entry C cid entry =
     (case marshal_entry C entry of
        None \<Rightarrow> fail ErrParse
      | Some data \<Rightarrow>
          seq_acts [call id ErrWrite, call (append_log cid []) ErrWrite,
            write_line cid (log_line data @ [NL]), call id ErrWrite])"

definition log_entry_for :: "string \<Rightarrow> 'c change list \<Rightarrow> cm \<Rightarrow> 'c log_entry" where
  "log_entry_for cid changes m =
     (let batches = mget0 [] (pendingBatches m) cid
      in \<lparr>Seq = mget0 0 (nextSeq m) cid, Batches = batches, Changes = changes,
          ProcessedCounts = map (mget0 0 (mget0 [] (processedCount m) cid)) batches\<rparr>)"

text \<open>What happens to the manager once the entry is on disk.\<close>

definition settle :: "string \<Rightarrow> u64 \<Rightarrow> cm \<Rightarrow> cm" where
  "settle cid seq m =
     m\<lparr>nextSeq := mput cid (seq + 1) (nextSeq m), batchCount := mput cid 0 (batchCount m),
       pendingBatches := mput cid [] (pendingBatches m), pendingAcks := mput cid [] (pendingAcks m),
       processedCount := mput cid [] (processedCount m),
       acked := acked m @ mget0 [] (pendingAcks m) cid\<rparr>"

definition persist_and_ack ::
  "('p, 's, 't, 'v, 'c) proc_ops \<Rightarrow> 'c codec \<Rightarrow> string \<Rightarrow> ('s, 'p) worker act" where
  "persist_and_ack ops C cid w =
     (if mget0 0 (batchCount (manager w)) cid = 0 then (w, None)
      else
        (case op_drain ops cid (processor w) of
           (p, Inl e) \<Rightarrow> (put_processor p w, Some e)
         | (p, Inr changes) \<Rightarrow>
             (let w1 = put_processor p w; entry = log_entry_for cid changes (manager w)
              in case on_manager (append_log_entry C cid entry) w1 of
                   (w2, Some e) \<Rightarrow> (fst (on_processor (op_restore ops cid changes) w2), Some e)
                 | (w2, None) \<Rightarrow>
                     then_act
                       (for_each (\<lambda>(bid, n). ignore_err (on_coordinator (record_batch cid bid n 0)))
                          (mget0 [] (processedCount (manager w)) cid))
                       (on_manager (upd (settle cid (Seq entry)))) w2)))"

definition commit_batch ::
  "('p, 's, 't, 'v, 'c) proc_ops \<Rightarrow> 'c codec \<Rightarrow> string \<Rightarrow> string \<Rightarrow> u64 \<Rightarrow> ('s, 'p) worker act" where
  "commit_batch ops C cid bid n w =
     (let m = manager w;
          shouldPersist = mget0 0 (batchCount m) cid \<ge> checkpointEveryBatches m;
          w1 = w\<lparr>manager := m\<lparr>processedCount := nput cid bid n (processedCount m)\<rparr>\<rparr>
      in if shouldPersist then persist_and_ack ops C cid w1
         else
           (case reached_eof_amount cid (coordinator w1) of
              (c, reached) \<Rightarrow>
                if reached then persist_and_ack ops C cid (w1\<lparr>coordinator := c\<rparr>)
                else (w1\<lparr>coordinator := c\<rparr>, None)))"

definition flush_pending_batches ::
  "('p, 's, 't, 'v, 'c) proc_ops \<Rightarrow> 'c codec \<Rightarrow> string \<Rightarrow> ('s, 'p) worker act" where
  "flush_pending_batches ops C cid w =
     (case reached_eof_amount cid (coordinator w) of
        (c, reached) \<Rightarrow>
          if reached then persist_and_ack ops C cid (w\<lparr>coordinator := c\<rparr>)
          else (w\<lparr>coordinator := c\<rparr>, None))"

definition clear_state ::
  "('p, 's, 't, 'v, 'c) proc_ops \<Rightarrow> string \<Rightarrow> ('s, 'p) worker act" where
  "clear_state ops cid = then_act (on_processor (op_clear ops cid))
     (on_manager (\<lambda>m. seq_acts
        [upd (\<lambda>m. m\<lparr>nextSeq := mdel cid (nextSeq m), batchCount := mdel cid (batchCount m),
            processedBatches := mdel cid (processedBatches m),
            pendingBatches := mdel cid (pendingBatches m), pendingAcks := mdel cid (pendingAcks m),
            eofSent := mdel cid (eofSent m), finalizeComplete := mdel cid (finalizeComplete m),
            processedCount := mdel cid (processedCount m)\<rparr>),
         ack_all (mget0 [] (pendingAcks m) cid),
         call (\<lambda>m. m\<lparr>logs := mdel cid (logs m)\<rparr>) ErrWrite] m))"

section \<open>Loading\<close>

definition apply_logged ::
  "('p, 's, 't, 'v, 'c) proc_ops \<Rightarrow> string \<Rightarrow> 'c change \<Rightarrow> ('s, 'p) worker act" where
  "apply_logged ops cid ch =
     (if Kind ch = ''eofSent'' then on_manager (upd (\<lambda>m. m\<lparr>eofSent := mput cid True (eofSent m)\<rparr>))
      else if Kind ch = ''finalizeComplete''
      then on_manager (upd (\<lambda>m. m\<lparr>finalizeComplete := mput cid True (finalizeComplete m)\<rparr>))
      else on_processor (op_apply ops cid ch))"

text \<open>Indexing \<open>ProcessedCounts\<close> out of range panics.\<close>

definition apply_entry ::
  "('p, 's, 't, 'v, 'c) proc_ops \<Rightarrow> string \<Rightarrow> 'c log_entry \<Rightarrow> ('s, 'p) worker act" where
  "apply_entry ops cid e = then_act (for_each (apply_logged ops cid) (Changes e))
     (if length (ProcessedCounts e) < length (Batches e) then fail Panic else ok)"

definition restored_batches :: "'c log_entry list \<Rightarrow> (string \<times> u64) list" where
  "restored_batches es = concat (map (\<lambda>e. zip (Batches e) (ProcessedCounts e)) es)"

text \<open>The manager's maps for the client once its entries are applied.\<close>

definition loaded :: "string \<Rightarrow> 'c log_entry list \<Rightarrow> cm \<Rightarrow> cm" where
  "loaded cid es m =
     m\<lparr>processedBatches :=
         mput cid (fold (\<lambda>b bs. mput b True bs) (concat (map Batches es)) []) (processedBatches m),
       nextSeq := mput cid ((if es = [] then 0 else Seq (last es)) + 1) (nextSeq m),
       batchCount := mput cid 0 (batchCount m), pendingBatches := mput cid [] (pendingBatches m),
       pendingAcks := mput cid [] (pendingAcks m)\<rparr>"

definition load_client_state ::
  "('p, 's, 't, 'v, 'c) proc_ops \<Rightarrow> 'c codec \<Rightarrow> string \<Rightarrow> ('s, 'p) worker act" where
  "load_client_state ops C cid w =
     (case mget (logs (manager w)) cid of
        None \<Rightarrow> (w, None)
      | Some file \<Rightarrow>
          (case read_log C file of
             (es, err) \<Rightarrow>
               seq_acts
                 [on_manager (call id ErrWrite), for_each (apply_entry ops cid) es,
                  (case err of None \<Rightarrow> ok | Some e \<Rightarrow> fail e),
                  for_each (\<lambda>(bid, n). on_coordinator (record_batch cid bid n 0)) (restored_batches es),
                  on_manager (upd (loaded cid es))] w))"

text \<open>The directories are read in the order of their names.\<close>

definition load_state ::
  "('p, 's, 't, 'v, 'c) proc_ops \<Rightarrow> 'c codec \<Rightarrow> ('s, 'p) worker act" where
  "load_state ops C = seq_acts [on_manager (call id ErrWrite), on_manager (call id ErrWrite),
     (\<lambda>w. for_each (load_client_state ops C) (sort (mkeys (logs (manager w)))) w)]"

section \<open>What an append does\<close>

text \<open>The disk after an append, and the rest of the manager.\<close>

definition cm_frame :: "cm \<Rightarrow> cm" where
  "cm_frame m = m\<lparr>outcomes := [], logs := []\<rparr>"

definition appended :: "string \<Rightarrow> string \<Rightarrow> cm \<Rightarrow> cm \<Rightarrow> bool" where
  "appended cid s m m' \<longleftrightarrow> cm_frame m' = cm_frame m \<and> log_of cid m' = log_of cid m @ s"

lemma cm_frame_simps [simp]:
  "cm_frame (m\<lparr>outcomes := bs\<rparr>) = cm_frame m" "cm_frame (append_log cid s m) = cm_frame m"
  "log_of cid (m\<lparr>outcomes := bs\<rparr>) = log_of cid m"
  "log_of cid (append_log cid s m) = log_of cid m @ s"
  by (simp_all add: cm_frame_def append_log_def log_of_def mget0_mput)

lemma appended_refl: "appended cid [] m m"
  by (simp add: appended_def)

lemma appended_outcomes [simp]: "appended cid s m (m'\<lparr>outcomes := bs\<rparr>) \<longleftrightarrow> appended cid s m m'"
  by (simp add: appended_def)

lemma appended_more: "appended cid s m m' \<Longrightarrow> appended cid (s @ t) m (append_log cid t m')"
  by (simp add: appended_def)

lemma appended_call:
  assumes "appended cid s m m'" "call (append_log cid t) err m' = (m'', r)"
  shows "if r = None then appended cid (s @ t) m m'' else appended cid s m m''"
  using assms by (cases rule: call_result [of "append_log cid t" err m']) (auto simp: appended_def)

lemma appended_id:
  assumes "appended cid s m m'" "call id err m' = (m'', r)"
  shows "appended cid s m m''"
  using assms by (cases rule: call_result [of id err m']) auto

lemma appended_fields:
  assumes "appended cid s m m'"
  shows "log_of cid m' = log_of cid m @ s" "nextSeq m' = nextSeq m" "batchCount m' = batchCount m"
    "processedBatches m' = processedBatches m" "pendingBatches m' = pendingBatches m"
    "pendingAcks m' = pendingAcks m" "processedCount m' = processedCount m" "acked m' = acked m"
proof -
  show "log_of cid m' = log_of cid m @ s" using assms by (simp add: appended_def)
  have "cm_frame m' = cm_frame m" using assms by (simp add: appended_def)
  then show "nextSeq m' = nextSeq m" "batchCount m' = batchCount m"
    "processedBatches m' = processedBatches m" "pendingBatches m' = pendingBatches m"
    "pendingAcks m' = pendingAcks m" "processedCount m' = processedCount m" "acked m' = acked m"
    by (cases m; cases m'; simp add: cm_frame_def)+
qed

lemma append_log_entry_result:
  assumes "append_log_entry C cid e m = (m', r)" "marshal_entry C e = Some d"
  shows "if r = None then appended cid (log_line d @ [NL]) m m'
    else \<exists>n. appended cid (take n (log_line d @ [NL])) m m'"
proof -
  let ?line = "log_line d @ [NL]"
  obtain m1 r1 where 1: "call id ErrWrite m = (m1, r1)" by fastforce
  have a1: "appended cid [] m m1" by (rule appended_id [OF appended_refl 1])
  obtain m2 r2 where 2: "call (append_log cid []) ErrWrite m1 = (m2, r2)" by fastforce
  have a2: "appended cid [] m m2" using appended_call [OF a1 2] by (simp split: if_splits)
  obtain m3 r3 where 3: "call (append_log cid ?line) ErrWrite m2 = (m3, r3)" by fastforce
  have a3: "if r3 = None then appended cid ?line m m3 else appended cid [] m m3"
    using appended_call [OF a2 3] by (cases r3) simp_all
  let ?torn = "append_log cid (take (tornBytes m3) ?line) m3"
  have w: "write_line cid ?line m2 = (if r3 = None then m3 else ?torn, r3)"
    using 3 by (cases r3) (simp_all add: write_line_def)
  obtain m4 r4 where 4: "call id ErrWrite m3 = (m4, r4)" by fastforce
  have torn: "appended cid (take (tornBytes m3) ?line) m ?torn" if "r3 \<noteq> None"
    using that a3 appended_more [of cid "[]" m m3] by simp
  have full: "appended cid ?line m m4" if "r3 = None"
    using that a3 appended_id [OF _ 4] by simp
  have none: "\<exists>n. appended cid (take n ?line) m m'" if "appended cid [] m m'"
    using that by (intro exI [of _ 0]) simp
  have all: "\<exists>n. appended cid (take n ?line) m m'" if "appended cid ?line m m'"
    using that by (intro exI [of _ "length ?line"]) simp
  show ?thesis
    using assms 1 2 w 4 a1 a2 torn full none all
    by (cases r1; cases r2; cases r3; cases r4)
      (auto simp: append_log_entry_def then_act_def ok_def simp del: append_assoc)
qed

text \<open>Recording batches with the coordinator leaves the manager alone.\<close>

lemma manager_on_coordinator [simp]: "manager (fst (on_coordinator a w)) = manager w"
  by (simp add: on_coordinator_def zoom_def split: prod.split)

lemma manager_put_processor [simp]: "manager (put_processor p w) = manager w"
  by (simp add: put_processor_def)

lemma manager_on_processor [simp]: "manager (fst (on_processor a w)) = manager w"
  by (simp add: on_processor_def zoom_def split: prod.split)

lemma record_loop:
  "\<exists>w'. for_each (\<lambda>(bid, n). ignore_err (on_coordinator (record_batch cid bid n 0))) bs w = (w', None) \<and>
    manager w' = manager w"
proof (induction bs arbitrary: w)
  case (Cons b bs)
  obtain bid n where b: "b = (bid, n)" by fastforce
  let ?w = "fst (on_coordinator (record_batch cid bid n 0) w)"
  obtain w' where "for_each (\<lambda>(bid, n). ignore_err (on_coordinator (record_batch cid bid n 0))) bs ?w = (w', None)"
    "manager w' = manager w" using Cons [of ?w] by auto
  then show ?case by (intro exI [of _ w']) (simp add: b then_act_def, simp add: ignore_err_def)
qed (simp add: ok_def)

section \<open>Properties\<close>


text \<open>A small worker: the processor counts its items, and the disk fails at the next call.\<close>

definition sample_ops :: "(nat, unit, unit, nat, nat) proc_ops" where
  "sample_ops = \<lparr>op_process = \<lambda>cid _ p. (p + 1, None),
     op_finalize = \<lambda>cid yield (p, s). (case yield p s of (s', None) \<Rightarrow> ((0, s'), Inr 1) | (s', Some e) \<Rightarrow> ((p, s'), Inl e)),
     op_cleanup = \<lambda>cid p. (0, None), op_clear = \<lambda>cid p. (0, None),
     op_drain = \<lambda>cid p. (p, Inr [\<lparr>Kind = ''count'', Key = cid, Value = Some p\<rparr>]),
     op_restore = \<lambda>cid cs p. (p, None),
     op_apply = \<lambda>cid ch p. (case Value ch of None \<Rightarrow> (p, Some ErrParse) | Some n \<Rightarrow> (n, None))\<rparr>"

definition sample_worker :: "cm \<Rightarrow> (unit, nat) worker" where
  "sample_worker m = \<lparr>coordinator = \<lparr>outcomes = [], workerID = 0, workerName = ''w'', expectedEOFs = 1,
     publishKeys = [], exchange = [], storage = empty_storage, flushHandler = (\<lambda>_ _ _ h. (h, None)), clients = [],
     innerBatchWeight = 0, cleanedClients = [], infoSize = (\<lambda>_. 10), host = \<lparr>sf_sender = (), sf_processor = 3\<rparr>\<rparr>,
     manager = m\<rparr>"


end
