(* ===== verification/CheckpointRecovery.thy ===== *)
theory CheckpointRecovery
  imports Checkpoint
begin

text \<open>
  What the checkpoint manager needs of a processor so that a restart brings its state back, as a
  locale: whatever was processed, drained and restored after failed appends, replaying the drained
  changes on a new processor gives the view of the data it had when it was last drained. The theories
  of the processors interpret it. The second part is the restart itself: what \<open>loadClientState\<close>
  makes of a log.
\<close>

section \<open>Histories of a processor\<close>

text \<open>
  A step is an item processed for a client, or a checkpoint of a client, whose append succeeds or not.
  The log maps each client to the changes appended for it.
\<close>

datatype 't proc_step = Process string 't | Persist string bool

fun run_step ::
  "('p, 's, 't, 'v, 'c) proc_ops \<Rightarrow> 't proc_step \<Rightarrow> 'p \<times> (string \<Rightarrow> 'c change list) \<Rightarrow>
   'p \<times> (string \<Rightarrow> 'c change list)" where
  "run_step ops (Process cid x) (p, L) = (fst (op_process ops cid x p), L)"
| "run_step ops (Persist cid works) (p, L) =
     (case op_drain ops cid p of
        (p', Inl e) \<Rightarrow> (p', L)
      | (p', Inr cs) \<Rightarrow>
          if works then (p', L(cid := L cid @ cs)) else (fst (op_restore ops cid cs p'), L))"

definition proc_run ::
  "('p, 's, 't, 'v, 'c) proc_ops \<Rightarrow> 'p \<Rightarrow> 't proc_step list \<Rightarrow> 'p \<times> (string \<Rightarrow> 'c change list)" where
  "proc_run ops p steps = fold (run_step ops) steps (p, \<lambda>_. [])"

text \<open>
  A checkpoint that fails with nothing to restore: some trackers rely on the engine checkpointing only
  after it has processed an item.
\<close>

fun busy_step :: "('p, 's, 't, 'v, 'c) proc_ops \<Rightarrow> 't proc_step \<Rightarrow> 'p \<Rightarrow> bool" where
  "busy_step ops (Process cid x) p = True"
| "busy_step ops (Persist cid works) p = (works \<or> snd (op_drain ops cid p) \<noteq> Inr [])"

fun busy_run ::
  "('p, 's, 't, 'v, 'c) proc_ops \<Rightarrow> 't proc_step list \<Rightarrow> 'p \<times> (string \<Rightarrow> 'c change list) \<Rightarrow> bool" where
  "busy_run ops [] s = True"
| "busy_run ops (st # sts) s = (busy_step ops st (fst s) \<and> busy_run ops sts (run_step ops st s))"

locale busy_checkpointable =
  fixes ops :: "('p, 's, 't, 'v, 'c) proc_ops"
    and fresh :: 'p
    and view :: "string \<Rightarrow> 'p \<Rightarrow> 'w"
    and tracked :: "string \<Rightarrow> 'c change list \<Rightarrow> 'p \<Rightarrow> bool"
  assumes tracked_fresh: "tracked cid [] fresh"
    and tracked_process: "tracked cid L p \<Longrightarrow> tracked cid L (fst (op_process ops cid' x p))"
    and tracked_drain: "tracked cid L p \<Longrightarrow> op_drain ops cid p = (p', Inr cs) \<Longrightarrow>
      tracked cid (L @ cs) p' \<and>
      (\<exists>q. for_each (op_apply ops cid) (L @ cs) fresh = (q, None) \<and> view cid q = view cid p') \<and>
      view cid p' = view cid p"
    and tracked_drain_error: "tracked cid L p \<Longrightarrow> op_drain ops cid p = (p', Inl e) \<Longrightarrow> tracked cid L p'"
    and tracked_drain_other: "tracked cid L p \<Longrightarrow> cid' \<noteq> cid \<Longrightarrow> tracked cid L (fst (op_drain ops cid' p))"
    and tracked_restore: "tracked cid L p \<Longrightarrow> op_drain ops cid p = (p', Inr cs) \<Longrightarrow> cs \<noteq> [] \<Longrightarrow>
      tracked cid L (fst (op_restore ops cid cs p'))"
    and tracked_restore_other: "tracked cid L p \<Longrightarrow> cid' \<noteq> cid \<Longrightarrow>
      tracked cid L (fst (op_restore ops cid' cs p))"
begin

lemma tracked_step:
  assumes "tracked cid (L cid) p" "run_step ops st (p, L) = (p', L')" "busy_step ops st p"
  shows "tracked cid (L' cid) p'"
proof (cases st)
  case (Process c x)
  then show ?thesis using assms tracked_process by auto
next
  case (Persist c works)
  obtain p1 r where d: "op_drain ops c p = (p1, r)" by fastforce
  show ?thesis
  proof (cases "c = cid")
    case True
    then show ?thesis
      using assms Persist d tracked_drain [of cid "L cid" p p1] tracked_drain_error [of cid "L cid" p p1]
        tracked_restore [of cid "L cid" p p1]
      by (auto split: sum.splits if_splits)
  next
    case False
    have "tracked cid (L cid) p1" using tracked_drain_other [OF assms(1), of c] False d by simp
    then show ?thesis
      using assms Persist d False tracked_restore_other [of cid "L cid" p1 c]
      by (auto split: sum.splits if_splits)
  qed
qed

lemma tracked_run:
  "tracked cid (snd s cid) (fst s) \<Longrightarrow> busy_run ops steps s \<Longrightarrow>
    tracked cid (snd (fold (run_step ops) steps s) cid) (fst (fold (run_step ops) steps s))"
proof (induction steps arbitrary: s)
  case (Cons st steps)
  obtain p L p' L' where s: "s = (p, L)" "run_step ops st s = (p', L')" by (metis surj_pair)
  then have "tracked cid (L' cid) p'" using tracked_step [of cid L p st p' L'] Cons.prems by simp
  then show ?case using Cons.IH [of "(p', L')"] Cons.prems s by simp
qed simp

text \<open>After a history that ends with a successful checkpoint, the log gives the view back.\<close>

lemma busy_restart:
  assumes "proc_run ops fresh steps = (p, L)" "busy_run ops steps (fresh, \<lambda>_. [])" "op_drain ops cid p = (p', Inr cs)"
  shows "\<exists>q. for_each (op_apply ops cid) (L cid @ cs) fresh = (q, None) \<and> view cid q = view cid p"
proof -
  have "tracked cid (L cid) p"
    using tracked_run [of cid "(fresh, \<lambda>_. [])" steps] tracked_fresh assms(1,2) by (simp add: proc_run_def)
  then show ?thesis using tracked_drain assms(3) by fastforce
qed

end

locale checkpointable = busy_checkpointable +
  assumes tracked_restore_idle: "tracked cid L p \<Longrightarrow> op_drain ops cid p = (p', Inr []) \<Longrightarrow>
    tracked cid L (fst (op_restore ops cid [] p'))"
begin

lemma tracked_any_step:
  assumes "tracked cid (L cid) p" "run_step ops st (p, L) = (p', L')"
  shows "tracked cid (L' cid) p'"
proof (cases "busy_step ops st p")
  case True
  then show ?thesis using tracked_step assms by blast
next
  case False
  then obtain c p1 where st: "st = Persist c False" "op_drain ops c p = (p1, Inr [])"
    by (cases st; cases "op_drain ops (case st of Persist c w \<Rightarrow> c | _ \<Rightarrow> []) p") auto
  then have e: "p' = fst (op_restore ops c [] p1)" "L' = L" using assms(2) by auto
  show ?thesis
  proof (cases "c = cid")
    case True
    then show ?thesis using e st tracked_restore_idle [of cid "L cid" p p1] assms(1) by simp
  next
    case False
    then have "tracked cid (L cid) p1" using tracked_drain_other [OF assms(1), of c] st by simp
    then show ?thesis using e False tracked_restore_other [of cid "L cid" p1 c] by simp
  qed
qed

lemma tracked_any_run:
  "tracked cid (snd s cid) (fst s) \<Longrightarrow>
    tracked cid (snd (fold (run_step ops) steps s) cid) (fst (fold (run_step ops) steps s))"
proof (induction steps arbitrary: s)
  case (Cons st steps)
  obtain p L p' L' where s: "s = (p, L)" "run_step ops st s = (p', L')" by (metis surj_pair)
  then have "tracked cid (L' cid) p'" using tracked_any_step [of cid L p st p' L'] Cons.prems by simp
  then show ?case using Cons.IH [of "(p', L')"] s by simp
qed simp

lemma restart:
  assumes "proc_run ops fresh steps = (p, L)" "op_drain ops cid p = (p', Inr cs)"
  shows "\<exists>q. for_each (op_apply ops cid) (L cid @ cs) fresh = (q, None) \<and> view cid q = view cid p"
proof -
  have "tracked cid (L cid) p"
    using tracked_any_run [of cid "(fresh, \<lambda>_. [])" steps] tracked_fresh assms(1) by (simp add: proc_run_def)
  then show ?thesis using tracked_drain assms(2) by fastforce
qed

end

section \<open>Loading a log\<close>

lemma then_act_NoneE:
  assumes "then_act a b s = (s', None)"
  obtains t where "a s = (t, None)" "b t = (s', None)"
  using assms by (cases "a s"; cases "snd (a s)") (auto simp: then_act_def)

definition no_markers :: "'c change list \<Rightarrow> bool" where
  "no_markers cs \<longleftrightarrow> (\<forall>c \<in> set cs. Kind c \<noteq> ''eofSent'' \<and> Kind c \<noteq> ''finalizeComplete'')"

lemma processor_put [simp]: "processor (put_processor p w) = p"
  by (simp add: processor_def put_processor_def)

lemma apply_logged_changes:
  assumes "for_each (apply_logged ops cid) cs w = (w', None)" "no_markers cs"
  shows "for_each (op_apply ops cid) cs (processor w) = (processor w', None) \<and> manager w' = manager w"
  using assms
proof (induction cs arbitrary: w)
  case (Cons c cs)
  from Cons.prems(1) obtain w1 where w1: "apply_logged ops cid c w = (w1, None)"
    "for_each (apply_logged ops cid) cs w1 = (w', None)" by (auto elim: then_act_NoneE)
  then have "op_apply ops cid c (processor w) = (processor w1, None)" "manager w1 = manager w"
    using Cons.prems(2)
    by (auto simp: apply_logged_def no_markers_def on_processor_def zoom_def split: prod.splits)
  then show ?case using Cons.IH [OF w1(2)] Cons.prems(2) by (simp add: then_act_def no_markers_def)
qed (simp add: ok_def)

lemma apply_entries:
  assumes "for_each (apply_entry ops cid) es w = (w', None)" "\<forall>e \<in> set es. no_markers (Changes e)"
  shows "for_each (op_apply ops cid) (concat (map Changes es)) (processor w) = (processor w', None) \<and>
    manager w' = manager w"
  using assms
proof (induction es arbitrary: w)
  case (Cons e es)
  from Cons.prems(1) obtain w1 where w1: "apply_entry ops cid e w = (w1, None)"
    "for_each (apply_entry ops cid) es w1 = (w', None)" by (auto elim: then_act_NoneE)
  from w1(1) have "for_each (apply_logged ops cid) (Changes e) w = (w1, None)"
    by (auto simp: apply_entry_def fail_def ok_def elim!: then_act_NoneE split: if_splits)
  from apply_logged_changes [OF this] Cons.prems(2)
  have "for_each (op_apply ops cid) (Changes e) (processor w) = (processor w1, None)" "manager w1 = manager w"
    by simp_all
  then show ?case using Cons.IH [OF w1(2)] Cons.prems(2) by (simp add: for_each_append then_act_def)
qed (simp add: ok_def)

lemma record_restored_manager:
  assumes "for_each (\<lambda>(bid, n). on_coordinator (record_batch cid bid n 0)) bs w = (w', None)"
  shows "manager w' = manager w"
  using assms
proof (induction bs arbitrary: w)
  case (Cons b bs)
  then obtain w1 where "(case b of (bid, n) \<Rightarrow> on_coordinator (record_batch cid bid n 0)) w = (w1, None)"
    "for_each (\<lambda>(bid, n). on_coordinator (record_batch cid bid n 0)) bs w1 = (w', None)"
    by (auto elim: then_act_NoneE)
  moreover obtain bid n where "b = (bid, n)" by fastforce
  ultimately have "manager w1 = manager w" "manager w' = manager w1"
    using manager_on_coordinator [of "record_batch cid bid n 0" w] Cons.IH [of w1] by simp_all
  then show ?case by simp
qed (simp add: ok_def)

lemma mget0_fold_mark: "mget0 False (fold (\<lambda>b bs. mput b True bs) xs m) b \<longleftrightarrow> b \<in> set xs \<or> mget0 False m b"
  by (induction xs arbitrary: m) (auto simp: mget0_mput)



end
