(* ===== verification/Processor.thy ===== *)
theory Processor
  imports CheckpointRecovery Messages
begin

text \<open>
  What the stateful processors share: the loop of \<open>Finalize\<close> over the results, and lemmas on the
  replay of lists of changes.
\<close>

section \<open>Finalizing\<close>

text \<open>
  The loop that all the processors share: yield the results one by one, up to the first error.
\<close>

definition yield_results ::
  "('v \<Rightarrow> 's act) \<Rightarrow> 'v list \<Rightarrow> ('p \<Rightarrow> 'p) \<Rightarrow> ('p \<Rightarrow> 'p) \<Rightarrow> u64 \<Rightarrow> 'p \<times> 's \<Rightarrow> ('p \<times> 's) \<times> (go_error + u64)" where
  "yield_results yield rs failed finished n ps =
     (case for_each yield rs (snd ps) of
        (s, Some e) \<Rightarrow> ((failed (fst ps), s), Inl e)
      | (s, None) \<Rightarrow> ((finished (fst ps), s), Inr n))"

text \<open>A \<open>yield\<close> that records what it is given.\<close>

definition collect :: "'v \<Rightarrow> 'v list act" where
  "collect v s = (s @ [v], None)"

lemma for_each_collect [simp]: "for_each collect vs s = (s @ vs, None)"
  by (induction vs arbitrary: s) (simp_all add: ok_def then_act_def collect_def)

lemma yield_collect [simp]: "yield_results collect rs f g n (p, s) = ((g p, s @ rs), Inr n)"
  by (simp add: yield_results_def)

section \<open>Lists of updates\<close>

text \<open>The entries of one map written into another, one by one.\<close>

definition mputs :: "('k \<times> 'v) list \<Rightarrow> ('k, 'v) gomap \<Rightarrow> ('k, 'v) gomap" where
  "mputs es m = fold (\<lambda>(k, v). mput k v) es m"

lemma mputs_simps [simp]:
  "mputs [] m = m" "mputs (e # es) m = mputs es (mput (fst e) (snd e) m)"
  by (simp_all add: mputs_def case_prod_unfold)

lemma map_of_mputs: "map_of (mputs es m) = map_of m ++ map_of (rev es)"
  by (induction es arbitrary: m) (auto simp: update_conv' map_add_def split: option.split)

lemma map_of_rev_wf: "wf_map m \<Longrightarrow> map_of (rev m) = map_of m"
  by (rule map_of_mset_eq) (simp_all add: wf_map_def rev_map [symmetric])

lemma map_of_mputs_wf: "wf_map es \<Longrightarrow> map_of (mputs es m) = map_of m ++ map_of es"
  by (simp add: map_of_mputs map_of_rev_wf)

lemma wf_mputs [simp]: "wf_map m \<Longrightarrow> wf_map (mputs es m)"
  by (induction es arbitrary: m) simp_all

lemma map_of_mput_add: "map_of (mput k v m) = (map_of m)(k \<mapsto> v)"
  by (rule update_conv')

lemma nput_get: "mget0 [] (nput c j v m) cid = (if cid = c then mput j v (mget0 [] m c) else mget0 [] m cid)"
  by (simp add: nput_def mget0_mput)

lemma for_each_fst_cong:
  assumes "\<And>x p. x \<in> set xs \<Longrightarrow> g (fst (f x p)) = g p"
  shows "g (fst (for_each f xs p)) = g p"
  using assms
proof (induction xs arbitrary: p)
  case (Cons x xs)
  obtain q e where q: "f x p = (q, e)" by fastforce
  have "g q = g p" using Cons.prems [of x p] q by simp
  then show ?case using Cons q by (cases e) (auto simp: then_act_def)
qed (simp add: ok_def)

section \<open>Numbers for the witnesses\<close>

definition sample_floats :: float_ops where
  "sample_floats = \<lparr>f_add = (+), f_mul = (*), f_div = (\<lambda>a b. a div b), f_of_int = of_int,
     f_parse = (\<lambda>s. if s = ''5'' then Some 5 else if s = ''7'' then Some 7 else None),
     f_show2 = (\<lambda>_. []), f_show6 = (\<lambda>_. [])\<rparr>"

lemma sample_numbers [simp]: "\<not> f_is_nan 5" "\<not> f_is_nan 7" "f_finite 5" "f_finite 7" "f_less 5 7" "\<not> f_less 7 5"
  by (simp_all add: f_is_nan_def f_finite_def f_less_def f_key_def f_magnitude_def)

end
