(* ===== verification/Groupers.thy ===== *)
theory Groupers
  imports Processor
begin

text \<open>
  \<open>internal/workers/processor/groupers/origindestination\<close>: for each account of a client the accounts it
  sends to (grouped by origin) or receives from (grouped by destination); at the end of the stream the
  accounts with at least five of them. The two processors have the same store, tracker and
  \<open>Finalize\<close> and differ in which end of a transfer is the base.
\<close>

section \<open>The account store\<close>

type_synonym account_store = "(account, (account, unit) gomap) gomap"

definition store_add :: "account \<Rightarrow> account \<Rightarrow> account_store \<Rightarrow> account_store \<times> bool" where
  "store_add a b s =
     (let s1 = (if mhas s a then s else mput a [] s)
      in if mhas (mget0 [] s1 a) b then (s1, False) else (nput a b () s1, True))"

definition related :: "account_store \<Rightarrow> (account \<times> account) set" where
  "related s = {(a, b). mhas (mget0 [] s a) b}"

lemma related_nput [simp]: "related (nput a b () s) = insert (a, b) (related s)"
  by (auto simp: related_def nput_get split: if_splits)

lemma related_create [simp]: "\<not> mhas s a \<Longrightarrow> related (mput a [] s) = related s"
  by (auto simp: related_def mget_mput mhas_def mget0_def split: option.splits if_splits)

lemma store_add_related:
  "related (fst (store_add a b s)) = insert (a, b) (related s)" "snd (store_add a b s) \<longleftrightarrow> (a, b) \<notin> related s"
proof -
  have "mhas (mget0 [] s1 a) b \<longleftrightarrow> (a, b) \<in> related s" if "s1 = (if mhas s a then s else mput a [] s)" for s1
    using that related_create [of s a] by (auto simp: related_def)
  then show "related (fst (store_add a b s)) = insert (a, b) (related s)" "snd (store_add a b s) \<longleftrightarrow> (a, b) \<notin> related s"
    by (auto simp: store_add_def Let_def insert_absorb)
qed

section \<open>Processors and tracker\<close>

record relation_value =
  rv_base :: account
  rv_related :: account

record grouper =
  accountStores :: "(string, account_store) gomap"
  dirtyRelations :: "(string, (relation_value, unit) gomap) gomap"

definition new_grouper :: grouper where
  "new_grouper = \<lparr>accountStores = [], dirtyRelations = []\<rparr>"

definition get_account_store :: "string \<Rightarrow> grouper \<Rightarrow> account_store" where
  "get_account_store cid p = mget0 [] (accountStores p) cid"

definition put_account_store :: "string \<Rightarrow> account_store \<Rightarrow> grouper \<Rightarrow> grouper" where
  "put_account_store cid s p = p\<lparr>accountStores := mput cid s (accountStores p)\<rparr>"

definition mark_relation_added :: "string \<Rightarrow> account \<Rightarrow> account \<Rightarrow> grouper \<Rightarrow> grouper" where
  "mark_relation_added cid a b p =
     p\<lparr>dirtyRelations := nput cid \<lparr>rv_base = a, rv_related = b\<rparr> () (dirtyRelations p)\<rparr>"

definition add_relation :: "string \<Rightarrow> account \<Rightarrow> account \<Rightarrow> grouper act" where
  "add_relation cid a b p =
     (case store_add a b (get_account_store cid p) of
        (s, added) \<Rightarrow> ((if added then mark_relation_added cid a b else id) (put_account_store cid s p), None))"

definition sg_origin :: "scatter_gather \<Rightarrow> account" where
  "sg_origin x = \<lparr>bank = sg_from_bank x, account_name = sg_account x\<rparr>"

definition sg_destination :: "scatter_gather \<Rightarrow> account" where
  "sg_destination x = \<lparr>bank = sg_to_bank x, account_name = sg_to_account x\<rparr>"

definition by_destination_process :: "string \<Rightarrow> scatter_gather \<Rightarrow> grouper act" where
  "by_destination_process cid x = add_relation cid (sg_destination x) (sg_origin x)"

definition by_origin_process :: "string \<Rightarrow> scatter_gather \<Rightarrow> grouper act" where
  "by_origin_process cid x = add_relation cid (sg_origin x) (sg_destination x)"

definition grouper_clear_client :: "string \<Rightarrow> grouper \<Rightarrow> grouper" where
  "grouper_clear_client cid p =
     p\<lparr>accountStores := mdel cid (accountStores p), dirtyRelations := mdel cid (dirtyRelations p)\<rparr>"

definition groups :: "account_store \<Rightarrow> grouped_accounts list" where
  "groups s =
     map (\<lambda>(a, bs). \<lparr>base_account = a, related_accounts = mkeys bs\<rparr>) (filter (\<lambda>(a, bs). \<not> length bs < 5) s)"

definition by_destination_finalize ::
  "string \<Rightarrow> (grouped_accounts \<Rightarrow> 's act) \<Rightarrow> grouper \<times> 's \<Rightarrow> (grouper \<times> 's) \<times> (go_error + u64)" where
  "by_destination_finalize cid yield ps =
     (let s = get_account_store cid (fst ps); rs = groups s
      in yield_results yield rs (put_account_store cid s) (grouper_clear_client cid) (of_nat (length rs)) ps)"

text \<open>The same code over the other field.\<close>

definition by_origin_finalize ::
  "string \<Rightarrow> (grouped_accounts \<Rightarrow> 's act) \<Rightarrow> grouper \<times> 's \<Rightarrow> (grouper \<times> 's) \<times> (go_error + u64)" where
  "by_origin_finalize = by_destination_finalize"

definition grouper_cleanup :: "string \<Rightarrow> grouper act" where
  "grouper_cleanup cid = upd (grouper_clear_client cid)"

definition relation_key :: "relation_value \<Rightarrow> string" where
  "relation_key v =
     show_int (sint (bank (rv_base v))) @ CHR '':'' # account_name (rv_base v) @ CHR '':'' #
     show_int (sint (bank (rv_related v))) @ CHR '':'' # account_name (rv_related v)"

definition relation_change :: "relation_value \<Rightarrow> relation_value change" where
  "relation_change v = \<lparr>Kind = ''relation'', Key = relation_key v, Value = Some v\<rparr>"

definition grouper_drain :: "string \<Rightarrow> grouper \<Rightarrow> grouper \<times> (go_error + relation_value change list)" where
  "grouper_drain cid p =
     (let rs = mget0 [] (dirtyRelations p) cid
      in if length rs = 0 then (p, Inr [])
         else (p\<lparr>dirtyRelations := mdel cid (dirtyRelations p)\<rparr>, Inr (map relation_change (mkeys rs))))"

definition grouper_restore_one :: "string \<Rightarrow> relation_value change \<Rightarrow> grouper act" where
  "grouper_restore_one cid c =
     (if Kind c = ''relation'' then
        (case Value c of None \<Rightarrow> fail ErrParse
         | Some v \<Rightarrow> upd (mark_relation_added cid (rv_base v) (rv_related v)))
      else ok)"

definition grouper_restore :: "string \<Rightarrow> relation_value change list \<Rightarrow> grouper act" where
  "grouper_restore cid = for_each (grouper_restore_one cid)"

definition grouper_apply :: "string \<Rightarrow> relation_value change \<Rightarrow> grouper act" where
  "grouper_apply cid c p =
     (if Kind c = ''relation'' then
        (case Value c of None \<Rightarrow> (p, Some ErrParse)
         | Some v \<Rightarrow>
             (put_account_store cid (fst (store_add (rv_base v) (rv_related v) (get_account_store cid p))) p, None))
      else (p, Some (ErrUnknownKind (Kind c))))"

definition by_destination_ops :: "(grouper, 's, scatter_gather, grouped_accounts, relation_value) proc_ops" where
  "by_destination_ops = \<lparr>op_process = by_destination_process, op_finalize = by_destination_finalize,
     op_cleanup = grouper_cleanup, op_clear = grouper_cleanup, op_drain = grouper_drain,
     op_restore = grouper_restore, op_apply = grouper_apply\<rparr>"

definition by_origin_ops :: "(grouper, 's, scatter_gather, grouped_accounts, relation_value) proc_ops" where
  "by_origin_ops = \<lparr>op_process = by_origin_process, op_finalize = by_origin_finalize,
     op_cleanup = grouper_cleanup, op_clear = grouper_cleanup, op_drain = grouper_drain,
     op_restore = grouper_restore, op_apply = grouper_apply\<rparr>"

section \<open>Recovery\<close>

definition grouper_view :: "string \<Rightarrow> grouper \<Rightarrow> (account \<times> account) set" where
  "grouper_view cid p = related (get_account_store cid p)"

definition dirty_pairs :: "string \<Rightarrow> grouper \<Rightarrow> (account \<times> account) set" where
  "dirty_pairs cid p = (\<lambda>v. (rv_base v, rv_related v)) ` set (mkeys (mget0 [] (dirtyRelations p) cid))"

definition grouper_tracked :: "string \<Rightarrow> relation_value change list \<Rightarrow> grouper \<Rightarrow> bool" where
  "grouper_tracked cid L p \<longleftrightarrow>
     (\<exists>q. for_each (grouper_apply cid) L new_grouper = (q, None) \<and>
        grouper_view cid p = grouper_view cid q \<union> dirty_pairs cid p)"

lemma grouper_view_put [simp]:
  "grouper_view c (put_account_store cid s p) = (if c = cid then related s else grouper_view c p)"
  "dirty_pairs c (put_account_store cid s p) = dirty_pairs c p"
  by (simp_all add: grouper_view_def dirty_pairs_def get_account_store_def put_account_store_def mget0_mput)

lemma grouper_view_mark [simp]:
  "grouper_view c (mark_relation_added cid a b p) = grouper_view c p"
  "dirty_pairs c (mark_relation_added cid a b p) = (if c = cid then insert (a, b) (dirty_pairs c p) else dirty_pairs c p)"
  by (auto simp: grouper_view_def dirty_pairs_def get_account_store_def mark_relation_added_def nput_get set_keys_mput
      simp del: set_map)

lemma store_add_view: "related (fst (store_add a b (get_account_store cid p))) = insert (a, b) (grouper_view cid p)"
  by (simp add: store_add_related grouper_view_def)

lemma add_relation_tracked:
  assumes "grouper_tracked cid L p"
  shows "grouper_tracked cid L (fst (add_relation cid' a b p))"
proof (cases "store_add a b (get_account_store cid' p)")
  case (Pair s added)
  then have "related s = insert (a, b) (grouper_view cid' p)" "added \<longleftrightarrow> (a, b) \<notin> grouper_view cid' p"
    using store_add_related [of a b "get_account_store cid' p"] by (simp_all add: grouper_view_def)
  then show ?thesis using assms Pair
    by (cases "cid = cid'"; cases added) (auto simp: grouper_tracked_def add_relation_def insert_absorb)
qed

lemma grouper_apply_view:
  "\<exists>p'. for_each (grouper_apply cid) (map relation_change vs) p = (p', None) \<and>
    grouper_view cid p' = grouper_view cid p \<union> (\<lambda>v. (rv_base v, rv_related v)) ` set vs"
proof (induction vs arbitrary: p)
  case (Cons v vs)
  let ?p = "put_account_store cid (fst (store_add (rv_base v) (rv_related v) (get_account_store cid p))) p"
  have "grouper_apply cid (relation_change v) p = (?p, None)" by (simp add: grouper_apply_def relation_change_def)
  then show ?case using Cons [of ?p] by (auto simp: then_act_def store_add_view)
qed (simp add: ok_def)

lemma grouper_restore_view:
  "\<exists>p'. grouper_restore cid (map relation_change vs) p = (p', None) \<and> grouper_view cid p' = grouper_view cid p \<and>
    dirty_pairs cid p' = dirty_pairs cid p \<union> (\<lambda>v. (rv_base v, rv_related v)) ` set vs"
proof (induction vs arbitrary: p)
  case (Cons v vs)
  let ?p = "mark_relation_added cid (rv_base v) (rv_related v) p"
  have "grouper_restore_one cid (relation_change v) p = (?p, None)"
    by (simp add: grouper_restore_one_def relation_change_def upd_def)
  then show ?case using Cons [of ?p] by (auto simp: then_act_def grouper_restore_def)
qed (simp add: ok_def grouper_restore_def)

lemma grouper_drain_parts:
  assumes "grouper_drain cid p = (p', Inr cs)"
  shows "\<exists>vs. cs = map relation_change vs \<and> dirty_pairs cid p = (\<lambda>v. (rv_base v, rv_related v)) ` set vs"
    "dirty_pairs cid p' = {}" "grouper_view c p' = grouper_view c p" "c \<noteq> cid \<Longrightarrow> dirty_pairs c p' = dirty_pairs c p"
proof -
  let ?rs = "mget0 [] (dirtyRelations p) cid"
  have p': "p' = (if ?rs = [] then p else p\<lparr>dirtyRelations := mdel cid (dirtyRelations p)\<rparr>)"
    "cs = map relation_change (mkeys ?rs)"
    using assms by (auto simp: grouper_drain_def Let_def split: if_splits)
  show "\<exists>vs. cs = map relation_change vs \<and> dirty_pairs cid p = (\<lambda>v. (rv_base v, rv_related v)) ` set vs"
    using p'(2) unfolding dirty_pairs_def by blast
  show "dirty_pairs cid p' = {}" by (simp add: p'(1) dirty_pairs_def mget0_mdel)
  show "grouper_view c p' = grouper_view c p" by (simp add: p'(1) grouper_view_def get_account_store_def)
  show "c \<noteq> cid \<Longrightarrow> dirty_pairs c p' = dirty_pairs c p" by (simp add: p'(1) dirty_pairs_def mget0_mdel)
qed

lemma grouper_drain_Inr: "\<exists>p' cs. grouper_drain cid p = (p', Inr cs)"
  by (simp add: grouper_drain_def Let_def)

text \<open>The laws, for any processor that adds relations.\<close>

lemma grouper_drained:
  assumes "grouper_tracked cid L p" "grouper_drain cid p = (p', Inr cs)"
  shows "\<exists>q. for_each (grouper_apply cid) (L @ cs) new_grouper = (q, None) \<and> grouper_view cid q = grouper_view cid p'"
    "grouper_view cid p' = grouper_view cid p" "grouper_tracked cid (L @ cs) p'"
    "grouper_tracked cid L (fst (grouper_restore cid cs p'))"
proof -
  note parts = grouper_drain_parts [OF assms(2)]
  from parts(1) obtain vs where vs: "cs = map relation_change vs"
    "dirty_pairs cid p = (\<lambda>v. (rv_base v, rv_related v)) ` set vs" by blast
  from assms(1) obtain q0 where q0: "for_each (grouper_apply cid) L new_grouper = (q0, None)"
    "grouper_view cid p = grouper_view cid q0 \<union> dirty_pairs cid p" by (auto simp: grouper_tracked_def)
  obtain q where q: "for_each (grouper_apply cid) cs q0 = (q, None)"
    "grouper_view cid q = grouper_view cid q0 \<union> dirty_pairs cid p"
    using grouper_apply_view [of cid vs q0] vs by auto
  show v: "grouper_view cid p' = grouper_view cid p" by (rule parts(3))
  show r: "\<exists>q. for_each (grouper_apply cid) (L @ cs) new_grouper = (q, None) \<and> grouper_view cid q = grouper_view cid p'"
    using q q0 v by (intro exI [of _ q]) (simp add: for_each_append then_act_def)
  show "grouper_tracked cid (L @ cs) p'" using r parts(2) by (auto simp: grouper_tracked_def)
  obtain p2 where "grouper_restore cid cs p' = (p2, None)" "grouper_view cid p2 = grouper_view cid p'"
    "dirty_pairs cid p2 = dirty_pairs cid p"
    using grouper_restore_view [of cid vs p'] vs parts(2) by auto
  then show "grouper_tracked cid L (fst (grouper_restore cid cs p'))"
    using q0 v by (auto simp: grouper_tracked_def)
qed

lemma grouper_others:
  assumes "grouper_tracked cid L p" "cid' \<noteq> cid"
  shows "grouper_tracked cid L (fst (grouper_drain cid' p))" "grouper_tracked cid L (fst (grouper_restore cid' cs p))"
proof -
  obtain p' ds where "grouper_drain cid' p = (p', Inr ds)" using grouper_drain_Inr by blast
  with grouper_drain_parts [OF this] assms show "grouper_tracked cid L (fst (grouper_drain cid' p))"
    by (auto simp: grouper_tracked_def)
  have "grouper_view cid (fst (grouper_restore cid' cs p)) = grouper_view cid p"
    "dirty_pairs cid (fst (grouper_restore cid' cs p)) = dirty_pairs cid p"
    unfolding grouper_restore_def
    by (rule for_each_fst_cong; use assms(2) in \<open>auto simp: grouper_restore_one_def act_simps split: option.split\<close>)+
  then show "grouper_tracked cid L (fst (grouper_restore cid' cs p))" using assms by (simp add: grouper_tracked_def)
qed

lemma grouper_tracked_new [simp]: "grouper_tracked cid [] new_grouper"
  by (simp add: grouper_tracked_def ok_def dirty_pairs_def new_grouper_def)

interpretation by_origin: checkpointable by_origin_ops new_grouper grouper_view grouper_tracked
  by unfold_locales
    (use grouper_drained grouper_others grouper_drain_Inr add_relation_tracked in
      \<open>auto simp: by_origin_ops_def by_origin_process_def, (metis Inl_Inr_False prod.inject)?\<close>)

interpretation by_destination: checkpointable by_destination_ops new_grouper grouper_view grouper_tracked
  by unfold_locales
    (use grouper_drained grouper_others grouper_drain_Inr add_relation_tracked in
      \<open>auto simp: by_destination_ops_def by_destination_process_def, (metis Inl_Inr_False prod.inject)?\<close>)

section \<open>The groups\<close>

text \<open>The specification: one group per base account with at least five partners, with each partner once.\<close>

definition fan_groups :: "(account \<times> account) set \<Rightarrow> grouped_accounts list \<Rightarrow> bool" where
  "fan_groups P out \<longleftrightarrow> distinct (map base_account out) \<and>
     set (map base_account out) = {b. 5 \<le> card {a. (b, a) \<in> P}} \<and>
     (\<forall>g \<in> set out. distinct (related_accounts g) \<and> set (related_accounts g) = {a. (base_account g, a) \<in> P})"

lemma groups_correct:
  assumes "wf_nested s"
  shows "fan_groups (related s) (groups s)"
proof -
  have m: "wf_map s" and inner: "\<And>b m. (b, m) \<in> set s \<Longrightarrow> wf_map m" using assms by (auto simp: wf_nested_def)
  have rel: "{a. (b, a) \<in> related s} = set (mkeys bs)" if "(b, bs) \<in> set s" for b bs
    using that m by (auto simp: related_def mget0_def mhas_iff_keys map_of_in_wf simp del: set_map)
  have card: "card (set (mkeys bs)) = length bs" if "(b, bs) \<in> set s" for b bs
    using inner [OF that] distinct_card [of "mkeys bs"] by (simp add: wf_map_def)
  have none: "{a. (b, a) \<in> related s} = {}" if "b \<notin> set (mkeys s)" for b
    using that by (auto simp: related_def mget0_def map_of_eq_None_iff [THEN iffD2] split: option.splits)
  have bases: "map base_account (groups s) = map fst (filter (\<lambda>(a, bs). \<not> length bs < 5) s)"
    by (simp add: groups_def case_prod_unfold comp_def)
  have "5 \<le> card {a. (b, a) \<in> related s} \<longleftrightarrow> b \<in> set (map base_account (groups s))" for b
  proof (cases "b \<in> set (mkeys s)")
    case True
    then obtain bs where bs: "(b, bs) \<in> set s" by auto
    have uniq: "bs' = bs" if "(b, bs') \<in> set s" for bs' using that bs m by (simp add: map_of_in_wf)
    have "b \<in> set (map base_account (groups s)) \<longleftrightarrow> \<not> length bs < 5"
    proof
      assume "b \<in> set (map base_account (groups s))"
      then obtain bs' where "(b, bs') \<in> set s" "\<not> length bs' < 5" unfolding bases by auto
      then show "\<not> length bs < 5" using uniq by blast
    next
      assume "\<not> length bs < 5"
      then have "(b, bs) \<in> set (filter (\<lambda>(a, bs). \<not> length bs < 5) s)" using bs by simp
      then show "b \<in> set (map base_account (groups s))" unfolding bases by force
    qed
    then show ?thesis unfolding rel [OF bs] card [OF bs] by linarith
  next
    case False
    then show ?thesis unfolding bases using none by auto
  qed
  moreover have "distinct (map base_account (groups s))"
    unfolding bases using m by (simp add: wf_map_def distinct_map_filter)
  moreover have "\<forall>g \<in> set (groups s). distinct (related_accounts g) \<and> set (related_accounts g) = {a. (base_account g, a) \<in> related s}"
    using rel inner by (auto simp: groups_def wf_map_def)
  ultimately show ?thesis unfolding fan_groups_def by blast
qed

lemma add_relations:
  assumes "wf_nested (get_account_store cid p)"
  shows "\<exists>p'. for_each (\<lambda>x. add_relation cid (f x) (g x)) xs p = (p', None) \<and>
    wf_nested (get_account_store cid p') \<and> grouper_view cid p' = grouper_view cid p \<union> (\<lambda>x. (f x, g x)) ` set xs"
  using assms
proof (induction xs arbitrary: p)
  case (Cons x xs)
  obtain s added where a: "store_add (f x) (g x) (get_account_store cid p) = (s, added)" by fastforce
  let ?p = "fst (add_relation cid (f x) (g x) p)"
  have s: "wf_nested s" using a Cons.prems by (auto simp: store_add_def Let_def wf_nested_put split: if_splits)
  have g: "get_account_store cid (put_account_store cid s q) = s" "get_account_store cid (mark_relation_added cid u v q) = get_account_store cid q"
    for q u v by (simp_all add: get_account_store_def put_account_store_def mark_relation_added_def mget0_mput)
  have step: "add_relation cid (f x) (g x) p = (?p, None)" and w: "wf_nested (get_account_store cid ?p)"
    using a s g by (simp_all add: add_relation_def)
  have v: "grouper_view cid ?p = insert (f x, g x) (grouper_view cid p)"
    using store_add_view [of "f x" "g x" cid p] a by (simp add: add_relation_def)
  obtain p' where "for_each (\<lambda>x. add_relation cid (f x) (g x)) xs ?p = (p', None)" "wf_nested (get_account_store cid p')"
    "grouper_view cid p' = grouper_view cid ?p \<union> (\<lambda>x. (f x, g x)) ` set xs" using Cons.IH [OF w] by blast
  then show ?case unfolding for_each_Cons then_act_None [where a = "add_relation cid (f x) (g x)" and s = p, OF step] by (intro exI [of _ p']) (simp add: v)
qed (simp add: ok_def)

section \<open>Properties\<close>

lemma groupers_yield:
  "(\<exists>p p' out. for_each (by_destination_process cid) items new_grouper = (p, None) \<and>
     by_destination_finalize cid collect (p, []) = ((p', out), Inr (of_nat (length out))) \<and>
     fan_groups ((\<lambda>x. (sg_destination x, sg_origin x)) ` set items) out) \<and>
   (\<exists>p p' out. for_each (by_origin_process cid) items new_grouper = (p, None) \<and>
     by_origin_finalize cid collect (p, []) = ((p', out), Inr (of_nat (length out))) \<and>
     fan_groups ((\<lambda>x. (sg_origin x, sg_destination x)) ` set items) out)"
proof -
  have new: "wf_nested (get_account_store cid new_grouper)" "grouper_view cid new_grouper = {}"
    by (simp_all add: get_account_store_def new_grouper_def grouper_view_def related_def)
  have fin: "by_destination_finalize cid collect (p, []) = ((grouper_clear_client cid p, groups (get_account_store cid p)),
      Inr (of_nat (length (groups (get_account_store cid p)))))" for p
    by (simp add: by_destination_finalize_def Let_def)
  have "\<exists>p p' out. for_each (\<lambda>x. add_relation cid (f x) (g x)) items new_grouper = (p, None) \<and>
     by_destination_finalize cid collect (p, []) = ((p', out), Inr (of_nat (length out))) \<and>
     fan_groups ((\<lambda>x. (f x, g x)) ` set items) out" for f g
  proof -
    obtain p where p: "for_each (\<lambda>x. add_relation cid (f x) (g x)) items new_grouper = (p, None)"
      "wf_nested (get_account_store cid p)" "grouper_view cid p = (\<lambda>x. (f x, g x)) ` set items"
      using add_relations [OF new(1), of f g items] new(2) by auto
    then show ?thesis using fin groups_correct [OF p(2)] unfolding grouper_view_def by auto
  qed
  from this [of sg_destination sg_origin] this [of sg_origin sg_destination]
  show ?thesis
    by (simp add: by_destination_process_def [abs_def] by_origin_process_def [abs_def] by_origin_finalize_def)
qed

text \<open>
  C33. The groups at the end of the stream are exact. Whatever transfers of a client were processed, in whatever
  order and however often each, \<open>Finalize\<close> of the processor by destination yields exactly one group for
  each account that received from at least five distinct accounts, with these accounts, each once; and that of the
  processor by origin one for each account that sent to at least five distinct accounts. The number of groups is
  returned.
\<close>

theorem groups_are_exact:
  "(\<exists>p p' out. for_each (by_destination_process cid) items new_grouper = (p, None) \<and>
     by_destination_finalize cid collect (p, []) = ((p', out), Inr (of_nat (length out))) \<and>
     fan_groups ((\<lambda>x. (sg_destination x, sg_origin x)) ` set items) out) \<and>
   (\<exists>p p' out. for_each (by_origin_process cid) items new_grouper = (p, None) \<and>
     by_origin_finalize cid collect (p, []) = ((p', out), Inr (of_nat (length out))) \<and>
     fan_groups ((\<lambda>x. (sg_origin x, sg_destination x)) ` set items) out)"
  by (rule groupers_yield)

text \<open>
  A restart brings the relations back, for both processors: whatever was processed and whichever checkpoints
  succeeded or failed, replaying the client's logged changes and the ones a checkpoint drains gives the set of
  relations the processor holds.
\<close>

theorem grouper_restart_restores:
  "proc_run by_origin_ops new_grouper steps = (p, L) \<Longrightarrow> grouper_drain cid p = (p', Inr cs) \<Longrightarrow>
     \<exists>q. for_each (grouper_apply cid) (L cid @ cs) new_grouper = (q, None) \<and> grouper_view cid q = grouper_view cid p"
  using by_origin.restart [of steps p L cid p' cs] by (simp add: by_origin_ops_def)

theorem grouper_restart_restores_witness:
  "\<exists>p L p' cs q. proc_run (by_origin_ops :: (grouper, unit, scatter_gather, grouped_accounts, relation_value) proc_ops) new_grouper
      [Process ''c'' \<lparr>sg_from_bank = 1, sg_to_bank = 2, sg_account = ''x'', sg_to_account = ''y''\<rparr>, Persist ''c'' True,
       Process ''c'' \<lparr>sg_from_bank = 1, sg_to_bank = 3, sg_account = ''x'', sg_to_account = ''z''\<rparr>, Persist ''c'' False] = (p, L) \<and>
    grouper_drain ''c'' p = (p', Inr cs) \<and>
    for_each (grouper_apply ''c'') (L ''c'' @ cs) new_grouper = (q, None) \<and> grouper_view ''c'' q = grouper_view ''c'' p"
  (is "\<exists>p L p' cs q. proc_run _ _ ?steps = _ \<and> _ p L p' cs q")
proof -
  obtain p L where run: "proc_run (by_origin_ops :: (grouper, unit, scatter_gather, grouped_accounts, relation_value) proc_ops)
      new_grouper ?steps = (p, L)" by fastforce
  obtain p' cs where d: "grouper_drain ''c'' p = (p', Inr cs)" using grouper_drain_Inr by blast
  from grouper_restart_restores [OF run d] run d show ?thesis by blast
qed

end
