(* ===== verification/Aggregator.thy ===== *)
theory Aggregator
  imports Processor
begin

text \<open>
  \<open>internal/workers/processor/aggregators/aggregatebyintermediary\<close>: for each intermediary the accounts
  that send to it (origins) and receive from it (destinations), and for each pair of an origin and a
  destination the number of intermediaries between them, which \<open>store.go\<close> keeps up to date as the
  relations arrive.

  The abstract state of a client is a pair of relations between intermediaries and accounts; the
  store refines it, and the counters are a function of it.
\<close>

section \<open>The store\<close>

type_synonym od_pair = "account \<times> account"

record relations =
  Origins :: "(account, unit) gomap"
  Destinations :: "(account, unit) gomap"

record int_store =
  relationsOf :: "(account, relations) gomap"
  pairs :: "(od_pair, int) gomap"

definition no_relations :: relations where
  "no_relations = \<lparr>Origins = [], Destinations = []\<rparr>"

definition new_int_store :: int_store where
  "new_int_store = \<lparr>relationsOf = [], pairs = []\<rparr>"

text \<open>Counting one more intermediary for each of the pairs, in any order.\<close>

definition bump :: "od_pair list \<Rightarrow> (od_pair, int) gomap \<Rightarrow> (od_pair, int) gomap" where
  "bump ps m = fold (\<lambda>pair m. mput pair (mget0 0 m pair + 1) m) ps m"

definition add_origin :: "account \<Rightarrow> account \<Rightarrow> int_store \<Rightarrow> int_store \<times> bool" where
  "add_origin i x s =
     (let r = mget0 no_relations (relationsOf s) i
      in if mhas (Origins r) x then (\<lparr>relationsOf = mput i r (relationsOf s), pairs = pairs s\<rparr>, False)
         else (\<lparr>relationsOf = mput i (r\<lparr>Origins := mput x () (Origins r)\<rparr>) (relationsOf s),
                pairs = bump (map (Pair x) (mkeys (Destinations r))) (pairs s)\<rparr>, True))"

definition add_destination :: "account \<Rightarrow> account \<Rightarrow> int_store \<Rightarrow> int_store \<times> bool" where
  "add_destination i x s =
     (let r = mget0 no_relations (relationsOf s) i
      in if mhas (Destinations r) x then (\<lparr>relationsOf = mput i r (relationsOf s), pairs = pairs s\<rparr>, False)
         else (\<lparr>relationsOf = mput i (r\<lparr>Destinations := mput x () (Destinations r)\<rparr>) (relationsOf s),
                pairs = bump (map (\<lambda>a. (a, x)) (mkeys (Origins r))) (pairs s)\<rparr>, True))"

section \<open>Abstraction\<close>

definition origin_rel :: "int_store \<Rightarrow> (account \<times> account) set" where
  "origin_rel s = {(i, a). mhas (Origins (mget0 no_relations (relationsOf s) i)) a}"

definition dest_rel :: "int_store \<Rightarrow> (account \<times> account) set" where
  "dest_rel s = {(i, a). mhas (Destinations (mget0 no_relations (relationsOf s) i)) a}"

text \<open>The specification: how many intermediaries lie between two accounts.\<close>

definition between :: "(account \<times> account) set \<Rightarrow> (account \<times> account) set \<Rightarrow> od_pair \<Rightarrow> account set" where
  "between os ds pair = {i. (i, fst pair) \<in> os \<and> (i, snd pair) \<in> ds}"

definition wf_store :: "int_store \<Rightarrow> bool" where
  "wf_store s \<longleftrightarrow> wf_map (relationsOf s) \<and>
     (\<forall>i. wf_map (Origins (mget0 no_relations (relationsOf s) i)) \<and> wf_map (Destinations (mget0 no_relations (relationsOf s) i)))"

text \<open>The counters agree with the relations.\<close>

definition counts :: "(od_pair \<Rightarrow> account set) \<Rightarrow> (od_pair, int) gomap \<Rightarrow> bool" where
  "counts B m \<longleftrightarrow> (\<forall>pair. finite (B pair) \<and> mget m pair = (if B pair = {} then None else Some (int (card (B pair)))))"

definition store_inv :: "int_store \<Rightarrow> bool" where
  "store_inv s \<longleftrightarrow> wf_store s \<and> wf_map (pairs s) \<and> counts (between (origin_rel s) (dest_rel s)) (pairs s)"

lemma bump_get:
  "distinct ps \<Longrightarrow> mget (bump ps m) pair = (if pair \<in> set ps then Some (mget0 0 m pair + 1) else mget m pair)"
proof (induction ps arbitrary: m)
  case (Cons p ps)
  have b: "bump (p # ps) m = bump ps (mput p (mget0 0 m p + 1) m)" by (simp add: bump_def)
  show ?case using Cons by (auto simp: b mget_mput mget0_mput mget0_def)
qed (simp add: bump_def)

lemma wf_bump [simp]: "wf_map m \<Longrightarrow> wf_map (bump ps m)"
  by (induction ps arbitrary: m) (simp_all add: bump_def)

lemma wf_new_store [simp]: "store_inv new_int_store"
  by (simp add: store_inv_def wf_store_def new_int_store_def no_relations_def between_def origin_rel_def counts_def)

lemma rel_new [simp]: "origin_rel new_int_store = {}" "dest_rel new_int_store = {}"
  by (simp_all add: origin_rel_def dest_rel_def new_int_store_def no_relations_def)

lemma counts_bump:
  assumes "counts B m" "distinct ps" "\<And>pair. B' pair = (if pair \<in> set ps then insert i (B pair) else B pair)"
    "\<And>pair. pair \<in> set ps \<Longrightarrow> i \<notin> B pair"
  shows "counts B' (bump ps m)"
  using assms(1,4) by (auto simp: counts_def bump_get [OF assms(2)] assms(3) mget0_def)

lemma wf_store_put:
  "wf_store s \<Longrightarrow> wf_map (Origins r) \<Longrightarrow> wf_map (Destinations r) \<Longrightarrow> wf_store \<lparr>relationsOf = mput i r (relationsOf s), pairs = ps\<rparr>"
  by (auto simp: wf_store_def mget0_mput)

lemma wf_storeD:
  "wf_store s \<Longrightarrow> wf_map (Origins (mget0 no_relations (relationsOf s) i)) \<and> wf_map (Destinations (mget0 no_relations (relationsOf s) i))"
  by (simp add: wf_store_def)

text \<open>The concrete operations refine insertion into the abstract relations.\<close>

lemma add_origin_rel:
  "origin_rel (fst (add_origin i x s)) = insert (i, x) (origin_rel s)" "dest_rel (fst (add_origin i x s)) = dest_rel s"
  "snd (add_origin i x s) \<longleftrightarrow> (i, x) \<notin> origin_rel s"
  by (auto simp: add_origin_def Let_def origin_rel_def dest_rel_def mget0_mput split: if_splits)

lemma add_destination_rel:
  "dest_rel (fst (add_destination i x s)) = insert (i, x) (dest_rel s)" "origin_rel (fst (add_destination i x s)) = origin_rel s"
  "snd (add_destination i x s) \<longleftrightarrow> (i, x) \<notin> dest_rel s"
  by (auto simp: add_destination_def Let_def origin_rel_def dest_rel_def mget0_mput split: if_splits)

lemma add_origin_inv:
  assumes "store_inv s"
  shows "store_inv (fst (add_origin i x s))"
proof -
  let ?r = "mget0 no_relations (relationsOf s) i" and ?s = "fst (add_origin i x s)"
  let ?ps = "if mhas (Origins ?r) x then [] else map (Pair x) (mkeys (Destinations ?r))"
  have inv: "wf_store s" "wf_map (pairs s)" "counts (between (origin_rel s) (dest_rel s)) (pairs s)"
    using assms by (auto simp: store_inv_def)
  note wf = wf_storeD [OF inv(1), of i]
  have s: "wf_store ?s" "pairs ?s = bump ?ps (pairs s)"
    using wf_store_put [OF inv(1)] wf by (auto simp: add_origin_def Let_def bump_def intro: int_store.equality)
  have "distinct ?ps" using wf by (auto simp: wf_map_def distinct_map inj_on_def)
  moreover have ps: "pair \<in> set ?ps \<longleftrightarrow> (i, x) \<notin> origin_rel s \<and> fst pair = x \<and> (i, snd pair) \<in> dest_rel s" for pair
    by (cases pair) (auto simp: dest_rel_def origin_rel_def mhas_iff_keys)
  ultimately have "counts (between (origin_rel ?s) (dest_rel ?s)) (bump ?ps (pairs s))"
    by (intro counts_bump [OF inv(3), where i = i]; unfold ps) (auto simp: between_def add_origin_rel)
  then show ?thesis using s inv(2) by (simp add: store_inv_def)
qed

lemma add_destination_inv:
  assumes "store_inv s"
  shows "store_inv (fst (add_destination i x s))"
proof -
  let ?r = "mget0 no_relations (relationsOf s) i" and ?s = "fst (add_destination i x s)"
  let ?ps = "if mhas (Destinations ?r) x then [] else map (\<lambda>a. (a, x)) (mkeys (Origins ?r))"
  have inv: "wf_store s" "wf_map (pairs s)" "counts (between (origin_rel s) (dest_rel s)) (pairs s)"
    using assms by (auto simp: store_inv_def)
  note wf = wf_storeD [OF inv(1), of i]
  have s: "wf_store ?s" "pairs ?s = bump ?ps (pairs s)"
    using wf_store_put [OF inv(1)] wf by (auto simp: add_destination_def Let_def bump_def)
  have "distinct ?ps" using wf by (auto simp: wf_map_def distinct_map inj_on_def)
  moreover have ps: "pair \<in> set ?ps \<longleftrightarrow> (i, x) \<notin> dest_rel s \<and> snd pair = x \<and> (i, fst pair) \<in> origin_rel s" for pair
    by (cases pair) (auto simp: dest_rel_def origin_rel_def mhas_iff_keys)
  ultimately have "counts (between (origin_rel ?s) (dest_rel ?s)) (bump ?ps (pairs s))"
    by (intro counts_bump [OF inv(3), where i = i]; unfold ps) (auto simp: between_def add_destination_rel)
  then show ?thesis using s inv(2) by (simp add: store_inv_def)
qed

section \<open>The processor and its tracker\<close>

record pair_event =
  event_pair :: intermediary_pair
  is_origin :: bool

text \<open>The extractor tells the two inputs apart by their name.\<close>

definition get_intermediary_pair_events :: "money_laundry \<Rightarrow> string \<Rightarrow> pair_event list" where
  "get_intermediary_pair_events m input =
     map (\<lambda>x. \<lparr>event_pair = x, is_origin = (input = ''origin'')\<rparr>) (get_intermediary_pair_batch_items m)"

record rel_value =
  rel_intermediary :: account
  rel_account :: account

record aggregator =
  int_stores :: "(string, int_store) gomap"
  dirtyOrigins :: "(string, (rel_value, unit) gomap) gomap"
  dirtyDests :: "(string, (rel_value, unit) gomap) gomap"

definition new_aggregator :: aggregator where
  "new_aggregator = \<lparr>int_stores = [], dirtyOrigins = [], dirtyDests = []\<rparr>"

definition get_int_store :: "string \<Rightarrow> aggregator \<Rightarrow> int_store" where
  "get_int_store cid p = mget0 new_int_store (int_stores p) cid"

definition put_int_store :: "string \<Rightarrow> int_store \<Rightarrow> aggregator \<Rightarrow> aggregator" where
  "put_int_store cid s p = p\<lparr>int_stores := mput cid s (int_stores p)\<rparr>"

definition mark_origin_added :: "string \<Rightarrow> account \<Rightarrow> account \<Rightarrow> aggregator \<Rightarrow> aggregator" where
  "mark_origin_added cid i x p =
     p\<lparr>dirtyOrigins := nput cid \<lparr>rel_intermediary = i, rel_account = x\<rparr> () (dirtyOrigins p)\<rparr>"

definition mark_destination_added :: "string \<Rightarrow> account \<Rightarrow> account \<Rightarrow> aggregator \<Rightarrow> aggregator" where
  "mark_destination_added cid i x p =
     p\<lparr>dirtyDests := nput cid \<lparr>rel_intermediary = i, rel_account = x\<rparr> () (dirtyDests p)\<rparr>"

definition aggregator_process :: "string \<Rightarrow> pair_event \<Rightarrow> aggregator act" where
  "aggregator_process cid ev p =
     (let i = intermediary (event_pair ev); x = pair_account (event_pair ev); s = get_int_store cid p
      in if is_origin ev
         then (case add_origin i x s of
                 (s', added) \<Rightarrow> ((if added then mark_origin_added cid i x else id) (put_int_store cid s' p), None))
         else (case add_destination i x s of
                 (s', added) \<Rightarrow> ((if added then mark_destination_added cid i x else id) (put_int_store cid s' p), None)))"

definition aggregator_clear :: "string \<Rightarrow> aggregator \<Rightarrow> aggregator" where
  "aggregator_clear cid p =
     p\<lparr>int_stores := mdel cid (int_stores p), dirtyOrigins := mdel cid (dirtyOrigins p), dirtyDests := mdel cid (dirtyDests p)\<rparr>"

text \<open>One path per counted pair; the count is cut to 32 bits.\<close>

definition suspicious_paths :: "int_store \<Rightarrow> suspicious_path list" where
  "suspicious_paths s =
     map (\<lambda>(pair, n). \<lparr>origin = fst pair, destination = snd pair, intermediary_count = of_int n\<rparr>) (pairs s)"

definition aggregator_finalize ::
  "string \<Rightarrow> (suspicious_path \<Rightarrow> 's act) \<Rightarrow> aggregator \<times> 's \<Rightarrow> (aggregator \<times> 's) \<times> (go_error + u64)" where
  "aggregator_finalize cid yield ps =
     (let rs = suspicious_paths (get_int_store cid (fst ps))
      in yield_results yield rs (aggregator_clear cid) (aggregator_clear cid) (of_nat (length rs)) ps)"

definition aggregator_cleanup :: "string \<Rightarrow> aggregator act" where
  "aggregator_cleanup cid = upd (aggregator_clear cid)"

definition rel_change :: "string \<Rightarrow> rel_value \<Rightarrow> rel_value change" where
  "rel_change kind v =
     \<lparr>Kind = kind,
      Key = show_int (sint (bank (rel_intermediary v))) @ CHR '':'' # account_name (rel_intermediary v) @ CHR '':'' #
        show_int (sint (bank (rel_account v))) @ CHR '':'' # account_name (rel_account v),
      Value = Some v\<rparr>"

definition aggregator_drain :: "string \<Rightarrow> aggregator \<Rightarrow> aggregator \<times> (go_error + rel_value change list)" where
  "aggregator_drain cid p =
     (p\<lparr>dirtyOrigins := mdel cid (dirtyOrigins p), dirtyDests := mdel cid (dirtyDests p)\<rparr>,
      Inr (map (rel_change ''origin'') (mkeys (mget0 [] (dirtyOrigins p) cid)) @
           map (rel_change ''destination'') (mkeys (mget0 [] (dirtyDests p) cid))))"

definition aggregator_restore_one :: "string \<Rightarrow> rel_value change \<Rightarrow> aggregator act" where
  "aggregator_restore_one cid c =
     (case Value c of
        None \<Rightarrow> fail ErrParse
      | Some v \<Rightarrow>
          if Kind c = ''origin'' then upd (mark_origin_added cid (rel_intermediary v) (rel_account v))
          else if Kind c = ''destination'' then upd (mark_destination_added cid (rel_intermediary v) (rel_account v))
          else ok)"

definition aggregator_restore :: "string \<Rightarrow> rel_value change list \<Rightarrow> aggregator act" where
  "aggregator_restore cid = for_each (aggregator_restore_one cid)"

definition aggregator_apply :: "string \<Rightarrow> rel_value change \<Rightarrow> aggregator act" where
  "aggregator_apply cid c p =
     (case Value c of
        None \<Rightarrow> (p, Some ErrParse)
      | Some v \<Rightarrow>
          (let s = get_int_store cid p
           in if Kind c = ''origin'' then
                (put_int_store cid (fst (add_origin (rel_intermediary v) (rel_account v) s)) p, None)
              else if Kind c = ''destination'' then
                (put_int_store cid (fst (add_destination (rel_intermediary v) (rel_account v) s)) p, None)
              else (put_int_store cid s p, Some (ErrUnknownKind (Kind c)))))"

definition aggregator_ops :: "(aggregator, 's, pair_event, suspicious_path, rel_value) proc_ops" where
  "aggregator_ops = \<lparr>op_process = aggregator_process, op_finalize = aggregator_finalize, op_cleanup = aggregator_cleanup,
     op_clear = aggregator_cleanup, op_drain = aggregator_drain, op_restore = aggregator_restore, op_apply = aggregator_apply\<rparr>"

lemma aggregator_ops_simps [simp]:
  "op_process aggregator_ops = aggregator_process" "op_finalize aggregator_ops = aggregator_finalize"
  "op_cleanup aggregator_ops = aggregator_cleanup" "op_clear aggregator_ops = aggregator_cleanup"
  "op_drain aggregator_ops = aggregator_drain" "op_restore aggregator_ops = aggregator_restore"
  "op_apply aggregator_ops = aggregator_apply"
  by (simp_all add: aggregator_ops_def)

section \<open>Recovery\<close>

text \<open>The abstract state of a client, and the part of it that is not in the log yet.\<close>

type_synonym abs_store = "(account \<times> account) set \<times> (account \<times> account) set"

definition abs_of :: "string \<Rightarrow> aggregator \<Rightarrow> abs_store" where
  "abs_of cid p = (origin_rel (get_int_store cid p), dest_rel (get_int_store cid p))"

definition rel_pairs :: "(string, (rel_value, unit) gomap) gomap \<Rightarrow> string \<Rightarrow> (account \<times> account) set" where
  "rel_pairs d cid = (\<lambda>v. (rel_intermediary v, rel_account v)) ` set (mkeys (mget0 [] d cid))"

definition dirty_rels :: "string \<Rightarrow> aggregator \<Rightarrow> abs_store" where
  "dirty_rels cid p = (rel_pairs (dirtyOrigins p) cid, rel_pairs (dirtyDests p) cid)"

definition join_abs :: "abs_store \<Rightarrow> abs_store \<Rightarrow> abs_store" where
  "join_abs a b = (fst a \<union> fst b, snd a \<union> snd b)"

text \<open>What an event, or a logged change, adds to the abstract state.\<close>

definition rel_of :: "bool \<Rightarrow> account \<Rightarrow> account \<Rightarrow> abs_store" where
  "rel_of at_origin i x = (if at_origin then ({(i, x)}, {}) else ({}, {(i, x)}))"

definition aggregator_view :: "string \<Rightarrow> aggregator \<Rightarrow> abs_store \<times> (od_pair \<Rightarrow> int option)" where
  "aggregator_view cid p = (abs_of cid p, mget (pairs (get_int_store cid p)))"

definition aggregator_tracked :: "string \<Rightarrow> rel_value change list \<Rightarrow> aggregator \<Rightarrow> bool" where
  "aggregator_tracked cid L p \<longleftrightarrow> store_inv (get_int_store cid p) \<and>
     (\<exists>q. for_each (aggregator_apply cid) L new_aggregator = (q, None) \<and> store_inv (get_int_store cid q) \<and>
        abs_of cid p = join_abs (abs_of cid q) (dirty_rels cid p))"

lemma get_put_int_store [simp]:
  "get_int_store c (put_int_store cid s p) = (if c = cid then s else get_int_store c p)"
  "dirty_rels c (put_int_store cid s p) = dirty_rels c p"
  "get_int_store c (mark_origin_added cid i x p) = get_int_store c p"
  "get_int_store c (mark_destination_added cid i x p) = get_int_store c p"
  by (simp_all add: get_int_store_def put_int_store_def dirty_rels_def mark_origin_added_def mark_destination_added_def mget0_mput)

lemma dirty_rels_mark [simp]:
  "dirty_rels c (mark_origin_added cid i x p) = (if c = cid then join_abs (dirty_rels c p) (rel_of True i x) else dirty_rels c p)"
  "dirty_rels c (mark_destination_added cid i x p) = (if c = cid then join_abs (dirty_rels c p) (rel_of False i x) else dirty_rels c p)"
  by (auto simp: dirty_rels_def rel_pairs_def mark_origin_added_def mark_destination_added_def nput_get set_keys_mput join_abs_def
    rel_of_def simp del: set_map)

lemma abs_of_put: "abs_of c (put_int_store cid s p) = (if c = cid then (origin_rel s, dest_rel s) else abs_of c p)"
  by (simp add: abs_of_def)

lemma abs_of_marks [simp]:
  "abs_of c (mark_origin_added cid i x p) = abs_of c p" "abs_of c (mark_destination_added cid i x p) = abs_of c p"
  by (simp_all add: abs_of_def)

lemma join_abs_assoc: "join_abs (join_abs a b) c = join_abs a (join_abs b c)"
  by (simp add: join_abs_def Un_assoc)

lemma join_abs_empty [simp]: "join_abs a ({}, {}) = a"
  by (simp add: join_abs_def)

lemma join_abs_absorb: "fst b \<subseteq> fst a \<Longrightarrow> snd b \<subseteq> snd a \<Longrightarrow> join_abs a b = a"
  by (cases a; cases b) (auto simp: join_abs_def)

text \<open>Processing an event is insertion into the abstract state; what is new is marked.\<close>

lemma process_abs:
  assumes "store_inv (get_int_store cid p)"
  obtains p' where "aggregator_process cid ev p = (p', None)" "store_inv (get_int_store cid p')"
    "abs_of cid p' = join_abs (abs_of cid p) (rel_of (is_origin ev) (intermediary (event_pair ev)) (pair_account (event_pair ev)))"
    "dirty_rels cid p' = dirty_rels cid p \<and> abs_of cid p' = abs_of cid p \<or>
     dirty_rels cid p' = join_abs (dirty_rels cid p) (rel_of (is_origin ev) (intermediary (event_pair ev)) (pair_account (event_pair ev)))"
    "\<And>c. c \<noteq> cid \<Longrightarrow> get_int_store c p' = get_int_store c p \<and> dirty_rels c p' = dirty_rels c p"
proof -
  let ?i = "intermediary (event_pair ev)" and ?x = "pair_account (event_pair ev)" and ?s = "get_int_store cid p"
  show ?thesis
  proof (cases "is_origin ev")
    case True
    obtain s' added where s: "add_origin ?i ?x ?s = (s', added)" by fastforce
    then have "store_inv s'" "origin_rel s' = insert (?i, ?x) (origin_rel ?s)" "dest_rel s' = dest_rel ?s"
      "added \<longleftrightarrow> (?i, ?x) \<notin> origin_rel ?s"
      using add_origin_inv [OF assms, of ?i ?x] add_origin_rel [of ?i ?x ?s] by simp_all
    then show ?thesis using True s
      by (intro that [of "(if added then mark_origin_added cid ?i ?x else id) (put_int_store cid s' p)"])
        (auto simp: aggregator_process_def abs_of_put join_abs_def rel_of_def abs_of_def)
  next
    case False
    obtain s' added where s: "add_destination ?i ?x ?s = (s', added)" by fastforce
    then have "store_inv s'" "dest_rel s' = insert (?i, ?x) (dest_rel ?s)" "origin_rel s' = origin_rel ?s"
      "added \<longleftrightarrow> (?i, ?x) \<notin> dest_rel ?s"
      using add_destination_inv [OF assms, of ?i ?x] add_destination_rel [of ?i ?x ?s] by simp_all
    then show ?thesis using False s
      by (intro that [of "(if added then mark_destination_added cid ?i ?x else id) (put_int_store cid s' p)"])
        (auto simp: aggregator_process_def abs_of_put join_abs_def rel_of_def abs_of_def)
  qed
qed

text \<open>The changes a checkpoint drains, as tagged relations, and what they add up to.\<close>

definition tagged_change :: "bool \<times> rel_value \<Rightarrow> rel_value change" where
  "tagged_change e = rel_change (if fst e then ''origin'' else ''destination'') (snd e)"

fun rels_of :: "(bool \<times> rel_value) list \<Rightarrow> abs_store" where
  "rels_of [] = ({}, {})"
| "rels_of (e # es) = join_abs (rel_of (fst e) (rel_intermediary (snd e)) (rel_account (snd e))) (rels_of es)"

lemma rels_of_append: "rels_of (es @ fs) = join_abs (rels_of es) (rels_of fs)"
  by (induction es) (simp_all add: join_abs_assoc, simp add: join_abs_def)

lemma rels_of_tag:
  "rels_of (map (Pair True) vs) = ((\<lambda>v. (rel_intermediary v, rel_account v)) ` set vs, {})"
  "rels_of (map (Pair False) vs) = ({}, (\<lambda>v. (rel_intermediary v, rel_account v)) ` set vs)"
  by (induction vs) (auto simp: join_abs_def rel_of_def)

lemma apply_rels:
  assumes "store_inv (get_int_store cid p)"
  shows "\<exists>q. for_each (aggregator_apply cid) (map tagged_change es) p = (q, None) \<and> store_inv (get_int_store cid q) \<and>
    abs_of cid q = join_abs (abs_of cid p) (rels_of es)"
  using assms
proof (induction es arbitrary: p)
  case (Cons e es)
  let ?i = "rel_intermediary (snd e)" and ?x = "rel_account (snd e)" and ?s = "get_int_store cid p"
  obtain p1 where p1: "aggregator_apply cid (tagged_change e) p = (p1, None)" "store_inv (get_int_store cid p1)"
    "abs_of cid p1 = join_abs (abs_of cid p) (rel_of (fst e) ?i ?x)"
    using add_origin_inv [OF Cons.prems, of ?i ?x] add_destination_inv [OF Cons.prems, of ?i ?x]
    by (cases "fst e") (auto simp: aggregator_apply_def tagged_change_def rel_change_def Let_def abs_of_put rel_of_def
      join_abs_def add_origin_rel add_destination_rel abs_of_def)
  show ?case using Cons.IH [OF p1(2)] p1 by (auto simp: then_act_def join_abs_assoc)
qed (simp add: ok_def)

lemma restore_rels:
  "\<exists>q. aggregator_restore cid (map tagged_change es) p = (q, None) \<and> get_int_store c q = get_int_store c p \<and>
    dirty_rels cid q = join_abs (dirty_rels cid p) (rels_of es)"
proof (induction es arbitrary: p)
  case (Cons e es)
  let ?i = "rel_intermediary (snd e)" and ?x = "rel_account (snd e)"
  obtain p1 where p1: "aggregator_restore_one cid (tagged_change e) p = (p1, None)" "get_int_store c p1 = get_int_store c p"
    "dirty_rels cid p1 = join_abs (dirty_rels cid p) (rel_of (fst e) ?i ?x)"
    by (cases "fst e") (auto simp: aggregator_restore_one_def tagged_change_def rel_change_def upd_def)
  show ?case using Cons.IH [of p1] p1 by (auto simp: then_act_def aggregator_restore_def join_abs_assoc)
qed (simp add: ok_def aggregator_restore_def)

lemma aggregator_drain_parts:
  assumes "aggregator_drain cid p = (p', Inr cs)"
  obtains es where "cs = map tagged_change es" "rels_of es = dirty_rels cid p" "dirty_rels cid p' = ({}, {})"
    "\<And>c. get_int_store c p' = get_int_store c p" "\<And>c. c \<noteq> cid \<Longrightarrow> dirty_rels c p' = dirty_rels c p"
proof
  let ?o = "mkeys (mget0 [] (dirtyOrigins p) cid)" and ?d = "mkeys (mget0 [] (dirtyDests p) cid)"
  let ?es = "map (Pair True) ?o @ map (Pair False) ?d"
  have p': "p' = p\<lparr>dirtyOrigins := mdel cid (dirtyOrigins p), dirtyDests := mdel cid (dirtyDests p)\<rparr>"
    and cs: "cs = map (rel_change ''origin'') ?o @ map (rel_change ''destination'') ?d"
    using assms by (auto simp: aggregator_drain_def)
  show "cs = map tagged_change ?es" by (simp add: cs tagged_change_def comp_def)
  show "rels_of ?es = dirty_rels cid p" unfolding rels_of_append rels_of_tag by (simp add: dirty_rels_def rel_pairs_def join_abs_def)
  show "dirty_rels cid p' = ({}, {})" by (simp add: p' dirty_rels_def rel_pairs_def mget0_mdel)
  show "get_int_store c p' = get_int_store c p" for c by (simp add: p' get_int_store_def)
  show "c \<noteq> cid \<Longrightarrow> dirty_rels c p' = dirty_rels c p" for c by (simp add: p' dirty_rels_def rel_pairs_def mget0_mdel)
qed

lemma same_view:
  assumes "store_inv (get_int_store cid p)" "store_inv (get_int_store cid q)" "abs_of cid p = abs_of cid q"
  shows "aggregator_view cid p = aggregator_view cid q"
  using assms by (auto simp: aggregator_view_def store_inv_def counts_def abs_of_def intro: ext)

lemma aggregator_drained:
  assumes "aggregator_tracked cid L p" "aggregator_drain cid p = (p', Inr cs)"
  shows "\<exists>q. for_each (aggregator_apply cid) (L @ cs) new_aggregator = (q, None) \<and> aggregator_view cid q = aggregator_view cid p'"
    "aggregator_view cid p' = aggregator_view cid p" "aggregator_tracked cid (L @ cs) p'"
    "aggregator_tracked cid L (fst (aggregator_restore cid cs p'))"
proof -
  obtain es where es: "cs = map tagged_change es" "rels_of es = dirty_rels cid p" "dirty_rels cid p' = ({}, {})"
    "\<And>c. get_int_store c p' = get_int_store c p" by (rule aggregator_drain_parts [OF assms(2)]) blast
  obtain q0 where q0: "for_each (aggregator_apply cid) L new_aggregator = (q0, None)" "store_inv (get_int_store cid q0)"
    "abs_of cid p = join_abs (abs_of cid q0) (dirty_rels cid p)" and p: "store_inv (get_int_store cid p)"
    using assms(1) by (auto simp: aggregator_tracked_def)
  obtain q where q: "for_each (aggregator_apply cid) cs q0 = (q, None)" "store_inv (get_int_store cid q)"
    "abs_of cid q = abs_of cid p" using apply_rels [OF q0(2), of es] es q0(3) by auto
  have r: "for_each (aggregator_apply cid) (L @ cs) new_aggregator = (q, None)"
    using q(1) q0(1) by (simp add: for_each_append then_act_def)
  have a: "abs_of cid p' = abs_of cid p" using es(4) by (simp add: abs_of_def)
  show "\<exists>q. for_each (aggregator_apply cid) (L @ cs) new_aggregator = (q, None) \<and> aggregator_view cid q = aggregator_view cid p'"
    using r same_view [OF q(2), of p'] q(3) a p es(4) by auto
  show "aggregator_view cid p' = aggregator_view cid p" using a es(4) by (simp add: aggregator_view_def)
  show "aggregator_tracked cid (L @ cs) p'" using r q a p es(3,4) by (auto simp: aggregator_tracked_def)
  obtain p2 where "aggregator_restore cid cs p' = (p2, None)" "get_int_store cid p2 = get_int_store cid p'"
    "dirty_rels cid p2 = dirty_rels cid p" using restore_rels [of cid es p' cid] es by (auto simp: join_abs_def)
  then show "aggregator_tracked cid L (fst (aggregator_restore cid cs p'))"
    using q0 p es(4) by (auto simp: aggregator_tracked_def abs_of_def)
qed

lemma aggregator_others:
  assumes "aggregator_tracked cid L p" "cid' \<noteq> cid"
  shows "aggregator_tracked cid L (fst (aggregator_drain cid' p))" "aggregator_tracked cid L (fst (aggregator_restore cid' cs p))"
proof -
  show "aggregator_tracked cid L (fst (aggregator_drain cid' p))"
    using assms by (auto simp: aggregator_tracked_def aggregator_drain_def abs_of_def get_int_store_def dirty_rels_def
      rel_pairs_def mget0_mdel)
  have "get_int_store cid (fst (aggregator_restore cid' cs p)) = get_int_store cid p"
    "dirty_rels cid (fst (aggregator_restore cid' cs p)) = dirty_rels cid p"
    unfolding aggregator_restore_def
    by (rule for_each_fst_cong; use assms(2) in \<open>auto simp: aggregator_restore_one_def act_simps split: option.split\<close>)+
  then show "aggregator_tracked cid L (fst (aggregator_restore cid' cs p))"
    using assms by (simp add: aggregator_tracked_def abs_of_def)
qed

lemma get_new_aggregator [simp]: "get_int_store cid new_aggregator = new_int_store" "dirty_rels cid new_aggregator = ({}, {})"
  by (simp_all add: get_int_store_def new_aggregator_def dirty_rels_def rel_pairs_def)

lemma process_tracked:
  assumes "aggregator_tracked cid L p"
  shows "aggregator_tracked cid L (fst (aggregator_process cid' ev p))"
proof (cases "cid' = cid")
  case True
  have inv: "store_inv (get_int_store cid p)" using assms by (simp add: aggregator_tracked_def)
  obtain p' where p': "aggregator_process cid ev p = (p', None)" "store_inv (get_int_store cid p')"
    "abs_of cid p' = join_abs (abs_of cid p) (rel_of (is_origin ev) (intermediary (event_pair ev)) (pair_account (event_pair ev)))"
    "dirty_rels cid p' = dirty_rels cid p \<and> abs_of cid p' = abs_of cid p \<or>
     dirty_rels cid p' = join_abs (dirty_rels cid p) (rel_of (is_origin ev) (intermediary (event_pair ev)) (pair_account (event_pair ev)))"
    by (rule process_abs [OF inv])
  show ?thesis using assms p' True by (auto simp: aggregator_tracked_def join_abs_assoc)
next
  case False
  then have "get_int_store cid (fst (aggregator_process cid' ev p)) = get_int_store cid p"
    "dirty_rels cid (fst (aggregator_process cid' ev p)) = dirty_rels cid p"
    by (auto simp: aggregator_process_def Let_def split: prod.split)
  then show ?thesis using assms by (simp add: aggregator_tracked_def abs_of_def)
qed

interpretation aggregator: checkpointable aggregator_ops new_aggregator aggregator_view aggregator_tracked
proof (unfold_locales, goal_cases)
  case (1 cid)
  show ?case by (auto simp: aggregator_tracked_def ok_def)
next
  case (2 cid L p cid' x)
  then show ?case using process_tracked by simp
next
  case (3 cid L p p' cs)
  then show ?case using aggregator_drained by simp
next
  case (4 cid L p p' e)
  then show ?case by (simp add: aggregator_drain_def)
next
  case (5 cid L p cid')
  then show ?case using aggregator_others by simp
next
  case (6 cid L p p' cs)
  then show ?case using aggregator_drained by simp
next
  case (7 cid L p cid' cs)
  then show ?case using aggregator_others by simp
next
  case (8 cid L p p')
  then show ?case using aggregator_drained by simp
qed

section \<open>Properties\<close>

text \<open>The relations that a sequence of events of a client states.\<close>

definition stated :: "(string \<times> pair_event) list \<Rightarrow> string \<Rightarrow> bool \<Rightarrow> (account \<times> account) set" where
  "stated events cid at_origin =
     {(intermediary (event_pair ev), pair_account (event_pair ev)) |ev. (cid, ev) \<in> set events \<and> is_origin ev = at_origin}"

lemma stated_Cons:
  "(stated (e # es) cid True, stated (e # es) cid False) =
     join_abs (if fst e = cid then rel_of (is_origin (snd e)) (intermediary (event_pair (snd e))) (pair_account (event_pair (snd e)))
               else ({}, {})) (stated es cid True, stated es cid False)"
  by (cases e) (auto simp: stated_def join_abs_def rel_of_def)

lemma process_events:
  assumes "\<And>c. store_inv (get_int_store c p0)"
  shows "\<exists>p. for_each (\<lambda>(c, ev). aggregator_process c ev) events p0 = (p, None) \<and> store_inv (get_int_store cid p) \<and>
    abs_of cid p = join_abs (abs_of cid p0) (stated events cid True, stated events cid False)"
  using assms
proof (induction events arbitrary: p0)
  case (Cons e events)
  obtain c ev where e: "e = (c, ev)" by fastforce
  obtain p1 where p1: "aggregator_process c ev p0 = (p1, None)" "store_inv (get_int_store c p1)"
    "abs_of c p1 = join_abs (abs_of c p0) (rel_of (is_origin ev) (intermediary (event_pair ev)) (pair_account (event_pair ev)))"
    "\<And>d. d \<noteq> c \<Longrightarrow> get_int_store d p1 = get_int_store d p0"
    by (rule process_abs [OF Cons.prems [of c], of ev]) metis
  have "store_inv (get_int_store d p1)" for d using p1(2,4) Cons.prems by (cases "d = c") auto
  then obtain p where p: "for_each (\<lambda>(c, ev). aggregator_process c ev) events p1 = (p, None)" "store_inv (get_int_store cid p)"
    "abs_of cid p = join_abs (abs_of cid p1) (stated events cid True, stated events cid False)" using Cons.IH by blast
  have "abs_of cid p1 = join_abs (abs_of cid p0) (if c = cid then rel_of (is_origin ev) (intermediary (event_pair ev)) (pair_account (event_pair ev)) else ({}, {}))"
    using p1(3,4) by (auto simp: abs_of_def)
  then show ?case using p p1(1) by (intro exI [of _ p]) (simp add: e then_act_def join_abs_assoc stated_Cons del: prod.inject)
qed (simp add: ok_def stated_def)

lemma aggregator_yields:
  "\<exists>p p' out. for_each (\<lambda>(c, ev). aggregator_process c ev) events new_aggregator = (p, None) \<and>
     aggregator_finalize cid collect (p, []) = ((p', out), Inr (of_nat (length out))) \<and>
     distinct (map (\<lambda>x. (origin x, destination x)) out) \<and>
     set out = (\<lambda>pair. \<lparr>origin = fst pair, destination = snd pair,
         intermediary_count = of_nat (card (between (stated events cid True) (stated events cid False) pair))\<rparr>) `
       {pair. between (stated events cid True) (stated events cid False) pair \<noteq> {}}"
proof -
  obtain p where p: "for_each (\<lambda>(c, ev). aggregator_process c ev) events new_aggregator = (p, None)"
    "store_inv (get_int_store cid p)" "abs_of cid p = (stated events cid True, stated events cid False)"
    using process_events [of new_aggregator events cid] by (auto simp: abs_of_def join_abs_def)
  let ?s = "get_int_store cid p" and ?B = "between (stated events cid True) (stated events cid False)"
  have c: "counts ?B (pairs ?s)" using p(2,3) by (simp add: store_inv_def abs_of_def)
  have B: "wf_map (pairs ?s)" "mget (pairs ?s) pair = (if ?B pair = {} then None else Some (int (card (?B pair))))" for pair
    using p(2) c unfolding store_inv_def counts_def by blast+
  have m: "set (pairs ?s) = (\<lambda>pair. (pair, int (card (?B pair)))) ` {pair. ?B pair \<noteq> {}}"
    using map_of_in_wf [OF B(1)] B(2) by (fastforce split: if_splits)
  have "distinct (map (\<lambda>x. (origin x, destination x)) (suspicious_paths ?s))"
    using B(1) by (simp add: suspicious_paths_def case_prod_unfold comp_def wf_map_def)
  moreover have "set (suspicious_paths ?s) = (\<lambda>pair. \<lparr>origin = fst pair, destination = snd pair,
      intermediary_count = of_nat (card (?B pair))\<rparr>) ` {pair. ?B pair \<noteq> {}}"
    unfolding suspicious_paths_def set_map m image_image by simp
  moreover have "aggregator_finalize cid collect (p, []) = ((aggregator_clear cid p, suspicious_paths ?s), Inr (of_nat (length (suspicious_paths ?s))))"
    by (simp add: aggregator_finalize_def Let_def)
  ultimately show ?thesis using p(1) by blast
qed

text \<open>
  C36. The aggregator counts the intermediaries exactly. Whatever relations arrived, from either side, for whatever
  clients, in whatever order and however often each, \<open>Finalize\<close> for a client yields one path for each pair of
  accounts with an intermediary between them, with the number of these intermediaries, and returns the
  number of paths: the counters, kept up as the relations arrive, refine the join of the two relations.
\<close>

theorem aggregator_refines_the_join:
  "\<exists>p p' out. for_each (\<lambda>(c, ev). aggregator_process c ev) events new_aggregator = (p, None) \<and>
     aggregator_finalize cid collect (p, []) = ((p', out), Inr (of_nat (length out))) \<and>
     distinct (map (\<lambda>x. (origin x, destination x)) out) \<and>
     set out = (\<lambda>pair. \<lparr>origin = fst pair, destination = snd pair,
         intermediary_count = of_nat (card (between (stated events cid True) (stated events cid False) pair))\<rparr>) `
       {pair. between (stated events cid True) (stated events cid False) pair \<noteq> {}}"
  by (rule aggregator_yields)

text \<open>
  A restart brings the aggregator back: whatever was processed and whichever checkpoints succeeded or failed, replaying
  the client's logged changes and the ones a checkpoint drains gives the two relations, and the same counters as the
  ones that were kept up in the original order.
\<close>

theorem aggregator_restart_restores:
  "proc_run (aggregator_ops :: (aggregator, 's, pair_event, suspicious_path, rel_value) proc_ops) new_aggregator steps = (p, L) \<Longrightarrow>
   aggregator_drain cid p = (p', Inr cs) \<Longrightarrow>
     \<exists>q. for_each (aggregator_apply cid) (L cid @ cs) new_aggregator = (q, None) \<and> abs_of cid q = abs_of cid p \<and>
       mget (pairs (get_int_store cid q)) = mget (pairs (get_int_store cid p))"
  using aggregator.restart [simplified, of steps p L cid p' cs] by (auto simp: aggregator_view_def)

definition sample_event :: "string \<Rightarrow> bool \<Rightarrow> pair_event" where
  "sample_event acc b = \<lparr>event_pair = \<lparr>intermediary = \<lparr>bank = 1, account_name = ''i''\<rparr>,
     pair_account = \<lparr>bank = 2, account_name = acc\<rparr>\<rparr>, is_origin = b\<rparr>"

theorem aggregator_restart_restores_witness:
  "\<exists>p L p' cs q. proc_run (aggregator_ops :: (aggregator, unit, pair_event, suspicious_path, rel_value) proc_ops) new_aggregator
      [Process ''c'' (sample_event ''x'' True), Persist ''c'' True, Process ''c'' (sample_event ''y'' False), Persist ''c'' False] = (p, L) \<and>
    aggregator_drain ''c'' p = (p', Inr cs) \<and> for_each (aggregator_apply ''c'') (L ''c'' @ cs) new_aggregator = (q, None) \<and>
    mget (pairs (get_int_store ''c'' q)) = mget (pairs (get_int_store ''c'' p))"
  (is "\<exists>p L p' cs q. proc_run _ _ ?steps = _ \<and> _ p L p' cs q")
proof -
  obtain p L where run: "proc_run (aggregator_ops :: (aggregator, unit, pair_event, suspicious_path, rel_value) proc_ops)
      new_aggregator ?steps = (p, L)" by fastforce
  obtain p' cs where d: "aggregator_drain ''c'' p = (p', Inr cs)" by (simp add: aggregator_drain_def)
  from aggregator_restart_restores [OF run d] run d show ?thesis by blast
qed

end
