(* ===== verification/ScatterGatherJoin.thy ===== *)
theory ScatterGatherJoin
  imports Processor
begin

text \<open>
  \<open>internal/workers/processor/joiners/scattergatherjoin\<close>: the last stage of the scatter-gather query.
  \<open>store.go\<close> sums, for each pair of origin and destination, the numbers of intermediaries that the
  replicas of the previous stage report; \<open>Finalize\<close> reports the origins of the pairs with at least
  five. \<open>checkpoint_tracker.go\<close> logs the pairs whose sum differs from the one in its last snapshot, which
  it keeps under a textual key. A sum is a Go \<open>int\<close> of counts of 32 bits, an integer here.
\<close>

section \<open>The processor\<close>

type_synonym od_pair = "account \<times> account"

record path_value =
  pv_origin :: account
  pv_dest :: account
  pv_count :: int

record sg_join =
  sg_stores :: "(string, (od_pair, int) gomap) gomap"
  sg_dirty :: "(string, bool) gomap"
  lastSnapshot :: "(string, (string, int) gomap) gomap"

definition new_sg_join :: sg_join where
  "new_sg_join = \<lparr>sg_stores = [], sg_dirty = [], lastSnapshot = []\<rparr>"

definition get_paths :: "string \<Rightarrow> sg_join \<Rightarrow> (od_pair, int) gomap" where
  "get_paths cid p = mget0 [] (sg_stores p) cid"

definition put_paths :: "string \<Rightarrow> (od_pair, int) gomap \<Rightarrow> sg_join \<Rightarrow> sg_join" where
  "put_paths cid s p = p\<lparr>sg_stores := mput cid s (sg_stores p)\<rparr>"

definition add_path :: "od_pair \<Rightarrow> int \<Rightarrow> (od_pair, int) gomap \<Rightarrow> (od_pair, int) gomap" where
  "add_path pair n s = mput pair (mget0 0 s pair + n) s"

definition set_pair_count :: "string \<Rightarrow> od_pair \<Rightarrow> int \<Rightarrow> sg_join \<Rightarrow> sg_join" where
  "set_pair_count cid pair n p = put_paths cid (mput pair n (get_paths cid p)) p"

definition mark_path_added :: "string \<Rightarrow> sg_join \<Rightarrow> sg_join" where
  "mark_path_added cid p = p\<lparr>sg_dirty := mput cid True (sg_dirty p)\<rparr>"

definition sg_join_process :: "string \<Rightarrow> suspicious_path \<Rightarrow> sg_join act" where
  "sg_join_process cid x = upd (\<lambda>p. mark_path_added cid
     (put_paths cid (add_path (origin x, destination x) (uint (intermediary_count x)) (get_paths cid p)) p))"

definition sg_join_clear_store :: "string \<Rightarrow> sg_join \<Rightarrow> sg_join" where
  "sg_join_clear_store cid p = p\<lparr>sg_stores := mdel cid (sg_stores p)\<rparr>"

text \<open>The pairs with at least five intermediaries, and the map of their origins.\<close>

definition heavy_pairs :: "(od_pair, int) gomap \<Rightarrow> od_pair list" where
  "heavy_pairs s = map fst (filter (\<lambda>(pair, n). \<not> n < 5) s)"

definition suspicious_accounts :: "(od_pair, int) gomap \<Rightarrow> account list" where
  "suspicious_accounts s = remdups (map fst (heavy_pairs s))"

text \<open>\<open>Finalize\<close> yields accounts and returns the number of pairs.\<close>

definition sg_join_finalize ::
  "string \<Rightarrow> (account \<Rightarrow> 's act) \<Rightarrow> sg_join \<times> 's \<Rightarrow> (sg_join \<times> 's) \<times> (go_error + u64)" where
  "sg_join_finalize cid yield ps =
     (let s = get_paths cid (fst ps)
      in yield_results yield (suspicious_accounts s) (sg_join_clear_store cid) (sg_join_clear_store cid)
           (of_nat (length (heavy_pairs s))) ps)"

definition sg_join_cleanup :: "string \<Rightarrow> sg_join act" where
  "sg_join_cleanup cid = upd (sg_join_clear_store cid)"

definition sg_join_clear :: "string \<Rightarrow> sg_join act" where
  "sg_join_clear cid = seq_acts
     [upd (\<lambda>p. p\<lparr>sg_dirty := mdel cid (sg_dirty p), lastSnapshot := mdel cid (lastSnapshot p)\<rparr>), sg_join_cleanup cid]"

section \<open>The tracker\<close>

definition pair_key :: "od_pair \<Rightarrow> string" where
  "pair_key p =
     show_int (sint (bank (fst p))) @ CHR ''|'' # account_name (fst p) @ CHR ''|'' #
     show_int (sint (bank (snd p))) @ CHR ''|'' # account_name (snd p)"

definition no_account :: account where
  "no_account = \<lparr>bank = 0, account_name = []\<rparr>"

definition path_change :: "string \<Rightarrow> od_pair \<times> int \<Rightarrow> path_value change" where
  "path_change cid e = \<lparr>Kind = ''path'', Key = cid @ CHR '':'' # pair_key (fst e),
     Value = Some \<lparr>pv_origin = fst (fst e), pv_dest = snd (fst e), pv_count = snd e\<rparr>\<rparr>"

text \<open>A pair that is in the snapshot only: a count of zero, with no pair.\<close>

definition removal_change :: "string \<Rightarrow> string \<Rightarrow> path_value change" where
  "removal_change cid k = \<lparr>Kind = ''path'', Key = cid @ CHR '':'' # k,
     Value = Some \<lparr>pv_origin = no_account, pv_dest = no_account, pv_count = 0\<rparr>\<rparr>"

definition snapshot_of :: "(od_pair, int) gomap \<Rightarrow> (string, int) gomap" where
  "snapshot_of s = mputs (map (\<lambda>(pair, n). (pair_key pair, n)) s) []"

definition sg_join_drain :: "string \<Rightarrow> sg_join \<Rightarrow> sg_join \<times> (go_error + path_value change list)" where
  "sg_join_drain cid p =
     (if \<not> mget0 False (sg_dirty p) cid then (p, Inr [])
      else
        case mget (sg_stores p) cid of
          None \<Rightarrow> (p, Inr [])
        | Some paths \<Rightarrow>
            (let prev = mget0 [] (lastSnapshot p) cid
             in (p\<lparr>lastSnapshot := mput cid (snapshot_of paths) (lastSnapshot p), sg_dirty := mdel cid (sg_dirty p)\<rparr>,
                 Inr (map (path_change cid) (filter (\<lambda>(pair, n). mget prev (pair_key pair) \<noteq> Some n) paths) @
                      map (removal_change cid) (filter (\<lambda>k. k \<notin> pair_key ` set (mkeys paths)) (mkeys prev))))))"

text \<open>\<open>RestoreChanges\<close> creates the store even for a removal, and leaves the snapshot as it is.\<close>

definition sg_join_restore_one :: "string \<Rightarrow> path_value change \<Rightarrow> sg_join act" where
  "sg_join_restore_one cid c =
     (if Kind c \<noteq> ''path'' then ok
      else
        case Value c of
          None \<Rightarrow> fail ErrParse
        | Some v \<Rightarrow> upd (\<lambda>p.
            if pv_count v = 0 then put_paths cid (get_paths cid p) p
            else mark_path_added cid (set_pair_count cid (pv_origin v, pv_dest v) (pv_count v) p)))"

definition sg_join_restore :: "string \<Rightarrow> path_value change list \<Rightarrow> sg_join act" where
  "sg_join_restore cid = for_each (sg_join_restore_one cid)"

definition sg_join_apply :: "string \<Rightarrow> path_value change \<Rightarrow> sg_join act" where
  "sg_join_apply cid c =
     (if Kind c = ''path'' then
        (case Value c of
           None \<Rightarrow> fail ErrParse
         | Some v \<Rightarrow> upd (\<lambda>p.
             let pair = (pv_origin v, pv_dest v); p1 = set_pair_count cid pair (pv_count v) p
             in p1\<lparr>lastSnapshot := nput cid (pair_key pair) (pv_count v) (lastSnapshot p1)\<rparr>))
      else fail (ErrUnknownKind (Kind c)))"

definition sg_join_ops :: "(sg_join, 's, suspicious_path, account, path_value) proc_ops" where
  "sg_join_ops = \<lparr>op_process = sg_join_process, op_finalize = sg_join_finalize, op_cleanup = sg_join_cleanup,
     op_clear = sg_join_clear, op_drain = sg_join_drain, op_restore = sg_join_restore, op_apply = sg_join_apply\<rparr>"

lemma sg_join_ops_simps [simp]:
  "op_process sg_join_ops = sg_join_process" "op_finalize sg_join_ops = sg_join_finalize"
  "op_cleanup sg_join_ops = sg_join_cleanup" "op_clear sg_join_ops = sg_join_clear"
  "op_drain sg_join_ops = sg_join_drain" "op_restore sg_join_ops = sg_join_restore" "op_apply sg_join_ops = sg_join_apply"
  by (simp_all add: sg_join_ops_def)

section \<open>What is summed\<close>

definition path_sum :: "(string \<times> suspicious_path) list \<Rightarrow> string \<Rightarrow> od_pair \<Rightarrow> int" where
  "path_sum items cid pair =
     sum_list (map (\<lambda>(c, x). if c = cid \<and> (origin x, destination x) = pair then uint (intermediary_count x) else 0) items)"

definition reported :: "(string \<times> suspicious_path) list \<Rightarrow> string \<Rightarrow> od_pair set" where
  "reported items cid = {(origin x, destination x) |x. (cid, x) \<in> set items}"

lemma get_put_paths [simp]:
  "get_paths c (put_paths cid s p) = (if c = cid then s else get_paths c p)"
  "get_paths c (mark_path_added cid p) = get_paths c p"
  by (simp_all add: get_paths_def put_paths_def mark_path_added_def mget0_mput)

lemma paths_processed:
  assumes "wf_map (get_paths cid p0)"
  shows "\<exists>p. for_each (\<lambda>(c, x). sg_join_process c x) items p0 = (p, None) \<and> wf_map (get_paths cid p) \<and>
    (\<forall>pair. mget0 0 (get_paths cid p) pair = mget0 0 (get_paths cid p0) pair + path_sum items cid pair) \<and>
    set (mkeys (get_paths cid p)) = set (mkeys (get_paths cid p0)) \<union> reported items cid"
  using assms
proof (induction items arbitrary: p0)
  case (Cons i items)
  obtain c x where i: "i = (c, x)" by fastforce
  let ?pair = "(origin x, destination x)"
  obtain p1 where s: "sg_join_process c x p0 = (p1, None)"
    and g: "get_paths cid p1 = (if cid = c then add_path ?pair (uint (intermediary_count x)) (get_paths c p0) else get_paths cid p0)"
    by (simp add: sg_join_process_def upd_def)
  have w: "wf_map (get_paths cid p1)" unfolding g using Cons.prems by (cases "cid = c") (simp_all add: add_path_def)
  obtain p where p: "for_each (\<lambda>(c, x). sg_join_process c x) items p1 = (p, None)" "wf_map (get_paths cid p)"
    "\<And>pair. mget0 0 (get_paths cid p) pair = mget0 0 (get_paths cid p1) pair + path_sum items cid pair"
    "set (mkeys (get_paths cid p)) = set (mkeys (get_paths cid p1)) \<union> reported items cid" using Cons.IH [OF w] by blast
  have "reported (i # items) cid = (if c = cid then {?pair} else {}) \<union> reported items cid"
    by (auto simp: i reported_def)
  moreover have "set (mkeys (get_paths cid p1)) = (if c = cid then {?pair} else {}) \<union> set (mkeys (get_paths cid p0))"
    by (auto simp: g add_path_def set_keys_mput simp del: set_map)
  ultimately have k: "set (mkeys (get_paths cid p)) = set (mkeys (get_paths cid p0)) \<union> reported (i # items) cid"
    unfolding p(4) by blast
  have "for_each (\<lambda>(c, x). sg_join_process c x) (i # items) p0 = (p, None)" using s p(1) by (simp add: i then_act_def)
  then show ?case using p(2) k by (intro exI [of _ p]) (auto simp: p(3) g i path_sum_def add_path_def mget0_mput)
qed (simp add: ok_def path_sum_def reported_def)

lemma heavy_pairs_iff:
  assumes "wf_map s"
  shows "pair \<in> set (heavy_pairs s) \<longleftrightarrow> 5 \<le> mget0 0 s pair"
proof -
  have "pair \<in> set (heavy_pairs s) \<longleftrightarrow> (\<exists>n. (pair, n) \<in> set s \<and> 5 \<le> n)" by (force simp: heavy_pairs_def)
  then show ?thesis by (auto simp: map_of_in_wf [OF assms] mget0_def split: option.split)
qed

lemma distinct_heavy_pairs: "wf_map s \<Longrightarrow> distinct (heavy_pairs s)"
  by (simp add: heavy_pairs_def wf_map_def distinct_map_filter)

section \<open>The snapshot\<close>

lemma keys_mputs: "set (mkeys (mputs es m)) = set (mkeys m) \<union> set (mkeys es)"
  by (induction es arbitrary: m) (auto simp: set_keys_mput simp del: set_map)

lemma keys_snapshot: "set (mkeys (snapshot_of s)) = pair_key ` set (mkeys s)"
proof -
  have "map fst (map (\<lambda>(pair, n). (pair_key pair, n)) s) = map pair_key (mkeys s)" by (simp add: case_prod_unfold comp_def)
  then show ?thesis unfolding snapshot_of_def keys_mputs by (metis list.set_map list.simps(8) sup_bot_left empty_set)
qed

lemma snapshot_get:
  assumes "wf_map s" "inj_on pair_key (set (mkeys s))" "(pair, n) \<in> set s"
  shows "mget (snapshot_of s) (pair_key pair) = Some n"
proof -
  let ?es = "map (\<lambda>(pair, n). (pair_key pair, n)) s"
  have k: "mkeys ?es = map pair_key (mkeys s)" by (simp add: case_prod_unfold comp_def)
  have w: "wf_map ?es" unfolding wf_map_def k using assms(1,2) by (metis distinct_map wf_map_def)
  have "(pair_key pair, n) \<in> set ?es" using assms(3) by force
  then show ?thesis using w by (simp add: snapshot_of_def map_of_mputs_wf wf_map_def)
qed

lemma sg_join_drain_Inr: "\<exists>p' cs. sg_join_drain cid p = (p', Inr cs)"
  by (cases "mget (sg_stores p) cid") (auto simp: sg_join_drain_def Let_def)

lemma drain_unchanged:
  assumes "wf_map (get_paths cid p)" "inj_on pair_key (set (mkeys (get_paths cid p)))"
    "mget0 [] (lastSnapshot p) cid = snapshot_of (get_paths cid p)"
  shows "\<exists>p'. sg_join_drain cid p = (p', Inr [])"
proof (cases "mget (sg_stores p) cid")
  case (Some s)
  then have s: "get_paths cid p = s" by (simp add: get_paths_def mget0_def)
  have "filter (\<lambda>(pair, n). mget (snapshot_of s) (pair_key pair) \<noteq> Some n) s = []"
    using snapshot_get assms(1,2) unfolding s by (auto simp: filter_empty_conv)
  moreover have "filter (\<lambda>k. k \<notin> pair_key ` set (mkeys s)) (mkeys (snapshot_of s)) = []"
    using keys_snapshot [of s] by (auto simp: filter_empty_conv)
  ultimately show ?thesis using Some assms(3) by (simp add: sg_join_drain_def s)
qed (simp add: sg_join_drain_def)

lemma restore_same:
  assumes "\<And>e. e \<in> set es \<Longrightarrow> mget (get_paths cid p) (fst e) = Some (snd e)"
  shows "get_paths cid (fst (sg_join_restore cid (map (path_change cid) es) p)) = get_paths cid p \<and>
    lastSnapshot (fst (sg_join_restore cid (map (path_change cid) es) p)) = lastSnapshot p"
  using assms
proof (induction es arbitrary: p)
  case (Cons e es)
  obtain p1 where p1: "sg_join_restore_one cid (path_change cid e) p = (p1, None)" "get_paths cid p1 = get_paths cid p"
    "lastSnapshot p1 = lastSnapshot p"
    using Cons.prems [of e] by (cases "snd e = 0") (auto simp: sg_join_restore_one_def path_change_def upd_def set_pair_count_def
      mput_same put_paths_def mark_path_added_def get_paths_def mget0_mput)
  have "get_paths cid (fst (sg_join_restore cid (map (path_change cid) es) p1)) = get_paths cid p1 \<and>
    lastSnapshot (fst (sg_join_restore cid (map (path_change cid) es) p1)) = lastSnapshot p1"
    using Cons.prems p1(2) by (intro Cons.IH) simp
  then show ?case using p1 by (simp add: sg_join_restore_def then_act_def)
qed (simp add: sg_join_restore_def ok_def)

section \<open>Properties\<close>

lemma path_sum_reported: "0 < path_sum items cid pair \<Longrightarrow> pair \<in> reported items cid"
  by (induction items) (fastforce simp: path_sum_def reported_def split: if_splits)+

lemma sg_join_yields:
  "\<exists>p p' out. for_each (\<lambda>(c, x). sg_join_process c x) items new_sg_join = (p, None) \<and>
     sg_join_finalize cid collect (p, []) = ((p', out), Inr (of_nat (card {pair. 5 \<le> path_sum items cid pair}))) \<and>
     distinct out \<and> set out = fst ` {pair. 5 \<le> path_sum items cid pair}"
proof -
  have new: "get_paths cid new_sg_join = []" by (simp add: get_paths_def new_sg_join_def)
  obtain p where p: "for_each (\<lambda>(c, x). sg_join_process c x) items new_sg_join = (p, None)" "wf_map (get_paths cid p)"
    "\<And>pair. mget0 0 (get_paths cid p) pair = path_sum items cid pair"
    using paths_processed [of cid new_sg_join items] unfolding new by auto
  let ?s = "get_paths cid p"
  have h: "set (heavy_pairs ?s) = {pair. 5 \<le> path_sum items cid pair}" using heavy_pairs_iff [OF p(2)] p(3) by auto
  have n: "length (heavy_pairs ?s) = card {pair. 5 \<le> path_sum items cid pair}"
    using distinct_card [OF distinct_heavy_pairs [OF p(2)]] h by simp
  have "sg_join_finalize cid collect (p, []) = ((sg_join_clear_store cid p, suspicious_accounts ?s), Inr (of_nat (length (heavy_pairs ?s))))"
    by (simp add: sg_join_finalize_def Let_def)
  then show ?thesis using p(1) n h by (intro exI [of _ p] exI [of _ "sg_join_clear_store cid p"] exI [of _ "suspicious_accounts ?s"])
    (simp add: suspicious_accounts_def)
qed

text \<open>
  C37. The scatter-gather query reports exactly the suspicious origins. Whatever paths of whatever clients
  arrived in whatever order, \<open>Finalize\<close> for a client yields each account that has some destination
  with at least five intermediaries, counted over all the reports of the pair, exactly once. The number it
  returns is that of these pairs, which is greater than that of the accounts when an origin has
  several such destinations.
\<close>

theorem scatter_gather_join_exact:
  "\<exists>p p' out. for_each (\<lambda>(c, x). sg_join_process c x) items new_sg_join = (p, None) \<and>
     sg_join_finalize cid collect (p, []) = ((p', out), Inr (of_nat (card {pair. 5 \<le> path_sum items cid pair}))) \<and>
     distinct out \<and> set out = fst ` {pair. 5 \<le> path_sum items cid pair}"
  by (rule sg_join_yields)

lemma sg_fold: "fold (\<lambda>x p. fst (sg_join_process cid x p)) xs p = fst (for_each (\<lambda>(c, x). sg_join_process c x) (map (Pair cid) xs) p)"
  by (induction xs arbitrary: p) (simp_all add: ok_def sg_join_process_def then_act_def upd_def)

lemma sg_fold_snapshot: "lastSnapshot (fold (\<lambda>x p. fst (sg_join_process cid x p)) xs p) = lastSnapshot p"
  by (induction xs arbitrary: p) (simp_all add: sg_join_process_def upd_def mark_path_added_def put_paths_def)

lemma sg_run_process: "fold (run_step sg_join_ops) (map (Process cid) xs) (p, L) = (fold (\<lambda>x p. fst (sg_join_process cid x p)) xs p, L)"
  by (induction xs arbitrary: p) simp_all

text \<open>
  After one failed checkpoint the paths it tried to log are never logged. \<open>DrainChanges\<close> takes its
  snapshot before the entry is on disk and \<open>RestoreChanges\<close> leaves it there, so the next checkpoint, which
  acknowledges the batches, finds no difference: the client's log stays empty while the sums in memory are complete, and
  a restart forgets them. (The premise excludes that two pairs have the same textual key.)
\<close>

theorem failed_path_checkpoint_is_lost:
  "proc_run sg_join_ops new_sg_join (map (Process cid) xs @ [Persist cid False]) = (p, L) \<Longrightarrow>
   inj_on pair_key (reported (map (Pair cid) xs) cid) \<Longrightarrow>
     (\<forall>pair. mget0 0 (get_paths cid p) pair = path_sum (map (Pair cid) xs) cid pair) \<and>
     (\<exists>p'. sg_join_drain cid p = (p', Inr []) \<and>
        for_each (sg_join_apply cid) (L cid @ []) new_sg_join = (new_sg_join, None))"
proof -
  assume run: "proc_run sg_join_ops new_sg_join (map (Process cid) xs @ [Persist cid False]) = (p, L)"
    and inj: "inj_on pair_key (reported (map (Pair cid) xs) cid)"
  have new: "get_paths cid new_sg_join = []" by (simp add: get_paths_def new_sg_join_def)
  define p1 where "p1 = fold (\<lambda>x p. fst (sg_join_process cid x p)) xs new_sg_join"
  have p1: "wf_map (get_paths cid p1)" "\<And>pair. mget0 0 (get_paths cid p1) pair = path_sum (map (Pair cid) xs) cid pair"
    "set (mkeys (get_paths cid p1)) = reported (map (Pair cid) xs) cid" "lastSnapshot p1 = []"
  proof -
    obtain q where q: "for_each (\<lambda>(c, x). sg_join_process c x) (map (Pair cid) xs) new_sg_join = (q, None)" "wf_map (get_paths cid q)"
      "\<forall>pair. mget0 0 (get_paths cid q) pair = mget0 0 (get_paths cid new_sg_join) pair + path_sum (map (Pair cid) xs) cid pair"
      "set (mkeys (get_paths cid q)) = set (mkeys (get_paths cid new_sg_join)) \<union> reported (map (Pair cid) xs) cid"
      using paths_processed [of cid new_sg_join "map (Pair cid) xs"] unfolding new by auto
    have "p1 = q" by (simp add: p1_def sg_fold q(1))
    then show "wf_map (get_paths cid p1)" "mget0 0 (get_paths cid p1) pair = path_sum (map (Pair cid) xs) cid pair"
      "set (mkeys (get_paths cid p1)) = reported (map (Pair cid) xs) cid" for pair
      using q(2-4) unfolding new by (cases pair; simp del: set_map)+
    show "lastSnapshot p1 = []" using sg_fold_snapshot [of cid xs new_sg_join] by (simp add: p1_def new_sg_join_def)
  qed
  obtain p2 cs where d: "sg_join_drain cid p1 = (p2, Inr cs)" using sg_join_drain_Inr by blast
  have pL: "p = fst (sg_join_restore cid cs p2)" "L = (\<lambda>_. [])"
    using run d unfolding proc_run_def fold_append comp_apply sg_run_process p1_def [symmetric] by auto
  let ?goal = "\<lambda>p. get_paths cid p = get_paths cid p1 \<and> (\<exists>p'. sg_join_drain cid p = (p', Inr []))"
  have "?goal p"
  proof (cases "cs = [] \<and> p2 = p1")
    case True
    then show ?thesis using d pL by (auto simp: sg_join_restore_def ok_def)
  next
    case False
    then obtain s where "mget (sg_stores p1) cid = Some s" "mget0 False (sg_dirty p1) cid"
      using d by (cases "mget (sg_stores p1) cid") (auto simp: sg_join_drain_def split: if_splits)
    then have es: "cs = map (path_change cid) s" "get_paths cid p1 = s" "get_paths cid p2 = s"
      "mget0 [] (lastSnapshot p2) cid = snapshot_of s"
      using d p1(4) by (auto simp: sg_join_drain_def Let_def get_paths_def mget0_mput case_prod_unfold) (auto simp: mget0_def)
    have r: "get_paths cid p = get_paths cid p1 \<and> lastSnapshot p = lastSnapshot p2"
      using restore_same [of s cid p2] es p1(1) by (auto simp: pL(1) map_of_in_wf)
    moreover have "mget0 [] (lastSnapshot p2) cid = snapshot_of (get_paths cid p1)" using es by simp
    ultimately show ?thesis using drain_unchanged [of cid p] p1(1,3) inj by simp
  qed
  then show ?thesis using p1(2) pL(2) by (auto simp: ok_def)
qed

definition sample_path :: "string \<Rightarrow> suspicious_path" where
  "sample_path acc = \<lparr>origin = \<lparr>bank = 1, account_name = acc\<rparr>, destination = \<lparr>bank = 2, account_name = ''y''\<rparr>, intermediary_count = 7\<rparr>"

theorem failed_path_checkpoint_is_lost_witness:
  "\<exists>p L p'. proc_run (sg_join_ops :: (sg_join, unit, suspicious_path, account, path_value) proc_ops) new_sg_join
      (map (Process ''c'') [sample_path ''x''] @ [Persist ''c'' False]) = (p, L) \<and>
    mget0 0 (get_paths ''c'' p) (origin (sample_path ''x''), destination (sample_path ''x'')) = 7 \<and>
    sg_join_drain ''c'' p = (p', Inr []) \<and> for_each (sg_join_apply ''c'') (L ''c'' @ []) new_sg_join = (new_sg_join, None)"
proof -
  obtain p L where run: "proc_run (sg_join_ops :: (sg_join, unit, suspicious_path, account, path_value) proc_ops) new_sg_join
      (map (Process ''c'') [sample_path ''x''] @ [Persist ''c'' False]) = (p, L)" by fastforce
  have "inj_on pair_key (reported (map (Pair ''c'') [sample_path ''x'']) ''c'')" by (simp add: reported_def)
  from failed_path_checkpoint_is_lost [OF run this] run show ?thesis by (auto simp: path_sum_def sample_path_def)
qed

end
