(* ===== verification/ScatterGatherPipeline.thy ===== *)
theory ScatterGatherPipeline
  imports Routers Groupers Aggregator ScatterGatherJoin
begin

text \<open>
  The scatter-gather query from end to end: the stages that the builders of \<open>internal/factory\<close> connect,
  with any number of workers in each of them.

    transfers - OriginDestinationRouter - GroupByOrigin, GroupByDestination - IntermediaryRouter -
    AggregateByIntermediary - SuspiciousPathToJoinRouter - ScatterGatherJoin

  Each stage is the model of its processor; between two stages the items of a worker's routing key
  arrive at the worker in an order that the broker decides, the argument \<open>shuffle\<close>.
\<close>

section \<open>The stages\<close>

definition origin_worker :: "string \<Rightarrow> scatter_gather list \<Rightarrow> grouped_accounts list" where
  "origin_worker cid items =
     snd (fst (by_origin_finalize cid collect (run_process (by_origin_process cid) items new_grouper, [])))"

definition destination_worker :: "string \<Rightarrow> scatter_gather list \<Rightarrow> grouped_accounts list" where
  "destination_worker cid items =
     snd (fst (by_destination_finalize cid collect (run_process (by_destination_process cid) items new_grouper, [])))"

definition aggregator_worker :: "string \<Rightarrow> pair_event list \<Rightarrow> suspicious_path list" where
  "aggregator_worker cid events =
     snd (fst (aggregator_finalize cid collect (run_process (aggregator_process cid) events new_aggregator, [])))"

definition join_worker :: "string \<Rightarrow> suspicious_path list \<Rightarrow> account list" where
  "join_worker cid paths =
     snd (fst (sg_join_finalize cid collect (run_process (sg_join_process cid) paths new_sg_join, [])))"

text \<open>The numbers of workers of the four stateful stages, and the names of two exchanges.\<close>

record workers =
  origin_workers :: nat
  destination_workers :: nat
  aggregator_workers :: nat
  join_workers :: nat
  aggregator_exchange :: string
  join_exchange :: string

definition good_workers :: "workers \<Rightarrow> bool" where
  "good_workers w \<longleftrightarrow> (\<forall>n \<in> {origin_workers w, destination_workers w, aggregator_workers w, join_workers w}. 0 < n \<and> n < 2 ^ 32)"

text \<open>The order of delivery: per stage and worker, a rearrangement of what was sent to it.\<close>

record delivery =
  of_transfers :: "string \<Rightarrow> scatter_gather list \<Rightarrow> scatter_gather list"
  of_pairs :: "string \<Rightarrow> pair_event list \<Rightarrow> pair_event list"
  of_paths :: "string \<Rightarrow> suspicious_path list \<Rightarrow> suspicious_path list"

definition rearranges :: "delivery \<Rightarrow> bool" where
  "rearranges d \<longleftrightarrow> (\<forall>r xs. mset (of_transfers d r xs) = mset xs) \<and> (\<forall>r xs. mset (of_pairs d r xs) = mset xs) \<and>
     (\<forall>r xs. mset (of_paths d r xs) = mset xs)"

definition groups_of_origins :: "workers \<Rightarrow> delivery \<Rightarrow> string \<Rightarrow> scatter_gather list \<Rightarrow> grouped_accounts list" where
  "groups_of_origins w d cid txs =
     (let os = origin_routes (origin_workers w); ds = destination_routes (destination_workers w);
          sent = routed_items (origin_destination_router os ds) cid txs
      in concat (map (\<lambda>r. origin_worker cid (of_transfers d r (arriving r sent))) os))"

definition groups_of_destinations :: "workers \<Rightarrow> delivery \<Rightarrow> string \<Rightarrow> scatter_gather list \<Rightarrow> grouped_accounts list" where
  "groups_of_destinations w d cid txs =
     (let os = origin_routes (origin_workers w); ds = destination_routes (destination_workers w);
          sent = routed_items (origin_destination_router os ds) cid txs
      in concat (map (\<lambda>r. destination_worker cid (of_transfers d r (arriving r sent))) ds))"

text \<open>The two inputs of an aggregator are one exchange each; the extractor labels what comes from the first.\<close>

definition aggregator_events :: "string list \<Rightarrow> string \<Rightarrow> grouped_accounts list \<Rightarrow> grouped_accounts list \<Rightarrow> string \<Rightarrow> pair_event list" where
  "aggregator_events as cid og dg r =
     map (\<lambda>x. \<lparr>event_pair = x, is_origin = True\<rparr>) (arriving r (routed_items (intermediary_router as) cid og)) @
     map (\<lambda>x. \<lparr>event_pair = x, is_origin = False\<rparr>) (arriving r (routed_items (intermediary_router as) cid dg))"

definition paths_found :: "workers \<Rightarrow> delivery \<Rightarrow> string \<Rightarrow> scatter_gather list \<Rightarrow> suspicious_path list" where
  "paths_found w d cid txs =
     (let as = numbered_routes (aggregator_exchange w) (aggregator_workers w);
          og = groups_of_origins w d cid txs; dg = groups_of_destinations w d cid txs
      in concat (map (\<lambda>r. aggregator_worker cid (of_pairs d r (aggregator_events as cid og dg r))) as))"

definition scatter_gather_query :: "workers \<Rightarrow> delivery \<Rightarrow> string \<Rightarrow> scatter_gather list \<Rightarrow> account list" where
  "scatter_gather_query w d cid txs =
     (let js = numbered_routes (join_exchange w) (join_workers w);
          sent = routed_items (path_join_router js) cid (paths_found w d cid txs)
      in concat (map (\<lambda>r. join_worker cid (of_paths d r (arriving r sent))) js))"

section \<open>Every worker computes its part\<close>

lemma origin_worker_groups: "fan_groups ((\<lambda>x. (sg_origin x, sg_destination x)) ` set items) (origin_worker cid items)"
proof -
  obtain p p' out where "for_each (by_origin_process cid) items new_grouper = (p, None)"
    "by_origin_finalize cid collect (p, []) = ((p', out), Inr (of_nat (length out)))"
    "fan_groups ((\<lambda>x. (sg_origin x, sg_destination x)) ` set items) out" using groupers_yield [of cid items] by blast
  then show ?thesis by (simp add: origin_worker_def run_process_def)
qed

lemma destination_worker_groups: "fan_groups ((\<lambda>x. (sg_destination x, sg_origin x)) ` set items) (destination_worker cid items)"
proof -
  obtain p p' out where "for_each (by_destination_process cid) items new_grouper = (p, None)"
    "by_destination_finalize cid collect (p, []) = ((p', out), Inr (of_nat (length out)))"
    "fan_groups ((\<lambda>x. (sg_destination x, sg_origin x)) ` set items) out" using groupers_yield [of cid items] by blast
  then show ?thesis by (simp add: destination_worker_def run_process_def)
qed

definition said :: "pair_event list \<Rightarrow> bool \<Rightarrow> (account \<times> account) set" where
  "said events b = (\<lambda>e. (intermediary (event_pair e), pair_account (event_pair e))) ` {e \<in> set events. is_origin e = b}"

lemma aggregator_worker_paths:
  "distinct (map (\<lambda>x. (origin x, destination x)) (aggregator_worker cid events))"
  "set (aggregator_worker cid events) = (\<lambda>pair. \<lparr>origin = fst pair, destination = snd pair,
      intermediary_count = of_nat (card (between (said events True) (said events False) pair))\<rparr>) `
    {pair. between (said events True) (said events False) pair \<noteq> {}}"
proof -
  have st: "stated (map (Pair cid) events) cid b = said events b" for b by (auto simp: stated_def said_def)
  obtain p p' out where "for_each (\<lambda>(c, ev). aggregator_process c ev) (map (Pair cid) events) new_aggregator = (p, None)"
    "aggregator_finalize cid collect (p, []) = ((p', out), Inr (of_nat (length out)))"
    "distinct (map (\<lambda>x. (origin x, destination x)) out)"
    "set out = (\<lambda>pair. \<lparr>origin = fst pair, destination = snd pair,
      intermediary_count = of_nat (card (between (said events True) (said events False) pair))\<rparr>) `
    {pair. between (said events True) (said events False) pair \<noteq> {}}"
    using aggregator_yields [of "map (Pair cid) events" cid] unfolding st by blast
  then show "distinct (map (\<lambda>x. (origin x, destination x)) (aggregator_worker cid events))"
    "set (aggregator_worker cid events) = (\<lambda>pair. \<lparr>origin = fst pair, destination = snd pair,
      intermediary_count = of_nat (card (between (said events True) (said events False) pair))\<rparr>) `
    {pair. between (said events True) (said events False) pair \<noteq> {}}"
    by (simp_all add: aggregator_worker_def run_process_def for_each_map)
qed

text \<open>The sum of the counts of a pair.\<close>

definition count_sum :: "suspicious_path list \<Rightarrow> account \<times> account \<Rightarrow> int" where
  "count_sum paths pair = sum_list (map (\<lambda>x. if (origin x, destination x) = pair then uint (intermediary_count x) else 0) paths)"

lemma join_worker_origins:
  "distinct (join_worker cid paths)" "set (join_worker cid paths) = fst ` {pair. 5 \<le> count_sum paths pair}"
proof -
  have ps: "path_sum (map (Pair cid) paths) cid = count_sum paths"
    by (auto simp: path_sum_def count_sum_def comp_def intro!: ext arg_cong [of _ _ sum_list])
  obtain p p' out n where "for_each (\<lambda>(c, x). sg_join_process c x) (map (Pair cid) paths) new_sg_join = (p, None)"
    "sg_join_finalize cid collect (p, []) = ((p', out), Inr n)"
    "distinct out" "set out = fst ` {pair. 5 \<le> count_sum paths pair}"
    using sg_join_yields [of "map (Pair cid) paths" cid] unfolding ps by blast
  then show "distinct (join_worker cid paths)" "set (join_worker cid paths) = fst ` {pair. 5 \<le> count_sum paths pair}"
    by (simp_all add: join_worker_def run_process_def for_each_map)
qed

section \<open>The workers of a stage together compute the whole\<close>

definition transfers :: "scatter_gather list \<Rightarrow> (account \<times> account) set" where
  "transfers txs = (\<lambda>x. (sg_origin x, sg_destination x)) ` set txs"

text \<open>The pairs of base account and partner for the accounts with at least five partners.\<close>

definition wide :: "(account \<times> account) set \<Rightarrow> (account \<times> account) set" where
  "wide P = {(b, a). (b, a) \<in> P \<and> 5 \<le> card {a. (b, a) \<in> P}}"

definition members :: "grouped_accounts list \<Rightarrow> (account \<times> account) set" where
  "members gs = {(base_account g, a) |g a. g \<in> set gs \<and> a \<in> set (related_accounts g)}"

lemma members_concat: "members (concat (map f rs)) = (\<Union>r \<in> set rs. members (f r))"
  by (auto simp: members_def)

lemma fan_groups_members: "fan_groups P gs \<Longrightarrow> members gs = wide P"
proof -
  assume g: "fan_groups P gs"
  have "(b, a) \<in> members gs \<longleftrightarrow> b \<in> set (map base_account gs) \<and> (b, a) \<in> P" for a b
    using g unfolding fan_groups_def members_def by (auto; force)
  then show ?thesis using g unfolding fan_groups_def wide_def by auto
qed

lemma wide_parts:
  assumes "\<And>b. h b \<in> set rs"
  shows "(\<Union>r \<in> set rs. wide {(b, a). (b, a) \<in> P \<and> h b = r}) = wide P"
proof -
  have "wide {(b, a). (b, a) \<in> P \<and> h b = r} = {(b, a). (b, a) \<in> wide P \<and> h b = r}" for r
    by (auto simp: wide_def)
  then show ?thesis using assms by auto
qed

lemma rearrangesD:
  assumes "rearranges d"
  shows "set (of_transfers d r xs) = set xs" "set (of_pairs d r es) = set es" "mset (of_paths d r ps) = mset ps"
  using assms unfolding rearranges_def by (metis set_mset_mset)+

lemma good_workers_routes:
  assumes "good_workers w"
  shows "good_routes (origin_routes (origin_workers w))" "good_routes (destination_routes (destination_workers w))"
    "good_routes (numbered_routes ex (aggregator_workers w))" "good_routes (numbered_routes ex (join_workers w))"
  using assms by (simp_all add: good_workers_def origin_routes_def destination_routes_def numbered_routes_good)

abbreviation akey :: "account \<Rightarrow> u8 list" where
  "akey a \<equiv> account_key (bank a) (account_name a)"

lemma members_of_origins:
  assumes "good_workers w" "rearranges d"
  shows "members (groups_of_origins w d cid txs) = wide (transfers txs)"
proof -
  let ?os = "origin_routes (origin_workers w)" and ?ds = "destination_routes (destination_workers w)"
  note g = good_workers_routes [OF assms(1)]
  let ?h = "\<lambda>b. route_of ?os (akey b)"
  have part: "(\<lambda>x. (sg_origin x, sg_destination x)) ` set (of_transfers d r (arriving r (routed_items (origin_destination_router ?os ?ds) cid txs))) =
      {(b, a). (b, a) \<in> transfers txs \<and> ?h b = r}" if "r \<in> set ?os" for r
    using rearrangesD(1) [OF assms(2)] arriving_origin [OF g(1,2) origin_not_destination that]
    by (auto simp: transfers_def sg_origin_def)
  have "members (origin_worker cid (of_transfers d r (arriving r (routed_items (origin_destination_router ?os ?ds) cid txs)))) =
      wide {(b, a). (b, a) \<in> transfers txs \<and> ?h b = r}" if "r \<in> set ?os" for r
    using fan_groups_members [OF origin_worker_groups] part [OF that] by metis
  then have "members (groups_of_origins w d cid txs) = (\<Union>r \<in> set ?os. wide {(b, a). (b, a) \<in> transfers txs \<and> ?h b = r})"
    by (simp add: groups_of_origins_def Let_def members_concat)
  also have "\<dots> = wide (transfers txs)" by (rule wide_parts) (rule route_of_in_range [OF g(1)])
  finally show ?thesis .
qed

lemma members_of_destinations:
  assumes "good_workers w" "rearranges d"
  shows "members (groups_of_destinations w d cid txs) = wide ((transfers txs)\<inverse>)"
proof -
  let ?os = "origin_routes (origin_workers w)" and ?ds = "destination_routes (destination_workers w)"
  note g = good_workers_routes [OF assms(1)]
  let ?h = "\<lambda>b. route_of ?ds (akey b)"
  have part: "(\<lambda>x. (sg_destination x, sg_origin x)) ` set (of_transfers d r (arriving r (routed_items (origin_destination_router ?os ?ds) cid txs))) =
      {(b, a). (b, a) \<in> (transfers txs)\<inverse> \<and> ?h b = r}" if "r \<in> set ?ds" for r
    using rearrangesD(1) [OF assms(2)] arriving_destination [OF g(1,2) origin_not_destination that]
    by (auto simp: transfers_def sg_destination_def)
  have "members (destination_worker cid (of_transfers d r (arriving r (routed_items (origin_destination_router ?os ?ds) cid txs)))) =
      wide {(b, a). (b, a) \<in> (transfers txs)\<inverse> \<and> ?h b = r}" if "r \<in> set ?ds" for r
    using fan_groups_members [OF destination_worker_groups] part [OF that] by metis
  then have "members (groups_of_destinations w d cid txs) = (\<Union>r \<in> set ?ds. wide {(b, a). (b, a) \<in> (transfers txs)\<inverse> \<and> ?h b = r})"
    by (simp add: groups_of_destinations_def Let_def members_concat)
  also have "\<dots> = wide ((transfers txs)\<inverse>)" by (rule wide_parts) (rule route_of_in_range [OF g(2)])
  finally show ?thesis .
qed

section \<open>The counts\<close>

lemma count_sum_append [simp]: "count_sum (xs @ ys) pair = count_sum xs pair + count_sum ys pair"
  by (simp add: count_sum_def)

lemma count_sum_concat: "count_sum (concat (map f rs)) pair = sum_list (map (\<lambda>r. count_sum (f r) pair) rs)"
  by (induction rs) (simp_all add: count_sum_def)

lemma count_sum_mset: "mset xs = mset ys \<Longrightarrow> count_sum xs pair = count_sum ys pair"
  unfolding count_sum_def by (simp flip: sum_mset_sum_list)

lemma count_sum_filter:
  "count_sum (filter (\<lambda>x. P (origin x)) xs) pair = (if P (fst pair) then count_sum xs pair else 0)"
  by (induction xs) (auto simp: count_sum_def)

lemma count_sum_distinct:
  assumes "distinct (map (\<lambda>x. (origin x, destination x)) xs)"
    and "set xs = (\<lambda>pair. \<lparr>origin = fst pair, destination = snd pair, intermediary_count = c pair\<rparr>) ` S"
  shows "count_sum xs pair = (if pair \<in> S then uint (c pair) else 0)"
proof -
  let ?f = "\<lambda>pair. \<lparr>origin = fst pair, destination = snd pair, intermediary_count = c pair\<rparr>"
  have inj: "inj_on ?f S" by (auto simp: inj_on_def prod_eq_iff)
  have fin: "finite S" using finite_set [of xs] unfolding assms(2) by (rule finite_imageD [OF _ inj])
  have "count_sum xs pair = (\<Sum>x \<in> set xs. if (origin x, destination x) = pair then uint (intermediary_count x) else 0)"
    unfolding count_sum_def by (rule sum_list_distinct_conv_sum_set) (use assms(1) distinct_map in blast)
  also have "\<dots> = (\<Sum>p \<in> S. if p = pair then uint (c p) else 0)"
    unfolding assms(2) by (simp add: sum.reindex [OF inj] cong: if_cong)
  also have "\<dots> = (if pair \<in> S then uint (c pair) else 0)" by (simp add: fin)
  finally show ?thesis .
qed

text \<open>The intermediaries of a pair, each at the worker that its account is routed to.\<close>

lemma card_parts:
  assumes "finite B" "\<And>m. h m \<in> set rs" "distinct rs"
  shows "sum_list (map (\<lambda>r. card {m \<in> B. h m = r}) rs) = card B"
proof -
  have "sum_list (map (\<lambda>r. card {m \<in> B. h m = r}) rs) = (\<Sum>r \<in> set rs. card {m \<in> B. h m = r})"
    using assms(3) by (simp add: sum_list_distinct_conv_sum_set)
  also have "\<dots> = card (\<Union>r \<in> set rs. {m \<in> B. h m = r})"
    by (rule card_UN_disjoint [symmetric]) (use assms(1) in auto)
  also have "(\<Union>r \<in> set rs. {m \<in> B. h m = r}) = B" using assms(2) by auto
  finally show ?thesis .
qed

lemma said_Nil [simp]: "said [] b = {}"
  by (simp add: said_def)

lemma said_Cons [simp]:
  "said (e # es) b = (if is_origin e = b then insert (intermediary (event_pair e), pair_account (event_pair e)) (said es b) else said es b)"
  by (auto simp: said_def)

lemma said_append [simp]: "said (xs @ ys) b = said xs b \<union> said ys b"
  by (auto simp: said_def)

lemma said_map [simp]:
  "said (map (\<lambda>x. \<lparr>event_pair = x, is_origin = b'\<rparr>) ps) b =
     (if b = b' then (\<lambda>x. (intermediary x, pair_account x)) ` set ps else {})"
  by (induction ps) (auto split: if_splits)

lemma said_set: "set xs = set ys \<Longrightarrow> said xs b = said ys b"
  by (simp add: said_def)

lemma said_events:
  assumes "good_routes as" "set es = set (aggregator_events as cid og dg r)"
  shows "said es True = {(m, b). (b, m) \<in> members og \<and> route_of as (akey m) = r}"
    "said es False = {(m, b). (b, m) \<in> members dg \<and> route_of as (akey m) = r}"
proof -
  have "(\<lambda>x. (intermediary x, pair_account x)) ` set (arriving r (routed_items (intermediary_router as) cid gs)) =
      {(m, b). (b, m) \<in> members gs \<and> route_of as (akey m) = r}" for gs
    unfolding arriving_intermediary [OF assms(1)] members_def by (auto simp: image_iff) force
  then show "said es True = {(m, b). (b, m) \<in> members og \<and> route_of as (akey m) = r}"
    "said es False = {(m, b). (b, m) \<in> members dg \<and> route_of as (akey m) = r}"
    unfolding said_set [OF assms(2)] aggregator_events_def by simp_all
qed

text \<open>The intermediaries of a pair of accounts that are wide enough.\<close>

definition links :: "(account \<times> account) set \<Rightarrow> account \<times> account \<Rightarrow> account set" where
  "links P pair = {m. (fst pair, m) \<in> wide P \<and> (snd pair, m) \<in> wide (P\<inverse>)}"

lemma paths_found_count:
  assumes "good_workers w" "rearranges d" "length txs < 2 ^ 32"
  shows "count_sum (paths_found w d cid txs) pair = int (card (links (transfers txs) pair))"
proof -
  let ?as = "numbered_routes (aggregator_exchange w) (aggregator_workers w)"
  let ?og = "groups_of_origins w d cid txs" and ?dg = "groups_of_destinations w d cid txs"
  let ?B = "links (transfers txs) pair" and ?h = "\<lambda>m. route_of ?as (akey m)"
  note g = good_workers_routes(3) [OF assms(1), of "aggregator_exchange w"]
  have sub: "?B \<subseteq> snd ` transfers txs" and fin: "finite (snd ` transfers txs)"
    by (force simp: links_def wide_def) (simp add: transfers_def)
  have "card (snd ` transfers txs) \<le> length txs"
    unfolding transfers_def image_image by (rule le_trans [OF card_image_le]) (simp_all add: card_length)
  then have B: "finite ?B" "card ?B < 2 ^ 32"
    using assms(3) finite_subset [OF sub fin] card_mono [OF fin sub] by simp_all
  have one: "count_sum (aggregator_worker cid (of_pairs d r (aggregator_events ?as cid ?og ?dg r))) pair =
      int (card {m \<in> ?B. ?h m = r})" for r
  proof -
    let ?es = "of_pairs d r (aggregator_events ?as cid ?og ?dg r)"
    note said = said_events [OF g rearrangesD(2) [OF assms(2)], where cid = cid and og = ?og and dg = ?dg and r = r]
    have bt: "between (said ?es True) (said ?es False) pair = {m \<in> ?B. ?h m = r}"
      unfolding said members_of_origins [OF assms(1,2)] members_of_destinations [OF assms(1,2)]
      by (auto simp: between_def links_def)
    have "card {m \<in> ?B. ?h m = r} \<le> card ?B" by (rule card_mono) (use B(1) in auto)
    then have "card {m \<in> ?B. ?h m = r} < 2 ^ 32" using B(2) by simp
    then have n: "uint (of_nat (card {m \<in> ?B. ?h m = r}) :: u32) = int (card {m \<in> ?B. ?h m = r})"
      by (simp add: uint_nat unsigned_of_nat take_bit_nat_eq_self)
    have e: "card {m \<in> ?B. ?h m = r} = 0" if "{m \<in> ?B. ?h m = r} = {}" unfolding that by simp
    show ?thesis
      unfolding count_sum_distinct [OF aggregator_worker_paths] mem_Collect_eq bt n using e by simp
  qed
  have "count_sum (paths_found w d cid txs) pair = sum_list (map (\<lambda>r. int (card {m \<in> ?B. ?h m = r})) ?as)"
    by (simp add: paths_found_def Let_def count_sum_concat one)
  also have "\<dots> = int (sum_list (map (\<lambda>r. card {m \<in> ?B. ?h m = r}) ?as))" by (simp add: comp_def flip: sum_list_of_nat)
  also have "\<dots> = int (card ?B)"
    by (subst card_parts) (use B(1) route_of_in_range [OF g] numbered_routes_distinct in auto)
  finally show ?thesis .
qed

text \<open>Five links of a pair make both its accounts wide.\<close>

lemma five_links: "finite P \<Longrightarrow> 5 \<le> card (links P (a, b)) \<longleftrightarrow> 5 \<le> card {m. (a, m) \<in> P \<and> (m, b) \<in> P}"
proof -
  assume P: "finite P"
  have fin: "finite {m. (a, m) \<in> P}" "finite {m. (m, b) \<in> P}"
    using finite_subset [of "{m. (a, m) \<in> P}" "snd ` P"] finite_subset [of "{m. (m, b) \<in> P}" "fst ` P"] P by force+
  have sub: "links P (a, b) \<subseteq> {m. (a, m) \<in> P \<and> (m, b) \<in> P}" by (auto simp: links_def wide_def)
  have f: "finite {m. (a, m) \<in> P \<and> (m, b) \<in> P}" using fin(1) by (rule rev_finite_subset) auto
  show ?thesis
  proof
    assume "5 \<le> card (links P (a, b))"
    then show "5 \<le> card {m. (a, m) \<in> P \<and> (m, b) \<in> P}" using card_mono [OF f sub] by linarith
  next
    assume five: "5 \<le> card {m. (a, m) \<in> P \<and> (m, b) \<in> P}"
    have "card {m. (a, m) \<in> P \<and> (m, b) \<in> P} \<le> card {m. (a, m) \<in> P}" by (rule card_mono [OF fin(1)]) auto
    moreover have "card {m. (a, m) \<in> P \<and> (m, b) \<in> P} \<le> card {m. (m, b) \<in> P}" by (rule card_mono [OF fin(2)]) auto
    ultimately have "links P (a, b) = {m. (a, m) \<in> P \<and> (m, b) \<in> P}"
      using five by (auto simp: links_def wide_def)
    then show "5 \<le> card (links P (a, b))" using five by simp
  qed
qed

lemma distinct_by_worker:
  "distinct rs \<Longrightarrow> (\<And>r. distinct (f r)) \<Longrightarrow> (\<And>r x. x \<in> set (f r) \<Longrightarrow> h x = r) \<Longrightarrow> distinct (concat (map f rs))"
proof (induction rs)
  case (Cons r rs)
  have "set (f r) \<inter> set (f r') = {}" if "r' \<in> set rs" for r'
    using Cons.prems(1) that by (auto dest!: Cons.prems(3))
  then show ?case using Cons by auto
qed simp

section \<open>Properties\<close>

text \<open>
  C1. The scatter-gather query is right from end to end. Whatever the numbers of workers and whatever the
  order in which the broker delivers what is sent between the stages, the accounts that the join workers
  together yield for the transfers of a client are exactly the accounts \<open>a\<close> with an account \<open>b\<close> and at least
  five different accounts that \<open>a\<close> sent to and that sent to \<open>b\<close>, and no account is yielded twice. (With
  \<open>2 ^ 32\<close> transfers or more a count could wrap around.)
\<close>

theorem scatter_gather_query_is_exact:
  assumes "good_workers w" "rearranges d" "length txs < 2 ^ 32"
  shows "distinct (scatter_gather_query w d cid txs) \<and>
    set (scatter_gather_query w d cid txs) =
      {a. \<exists>b. 5 \<le> card {m. (a, m) \<in> transfers txs \<and> (m, b) \<in> transfers txs}}"
proof -
  let ?js = "numbered_routes (join_exchange w) (join_workers w)" and ?ps = "paths_found w d cid txs"
  let ?sent = "routed_items (path_join_router ?js) cid ?ps"
  note g = good_workers_routes(4) [OF assms(1), of "join_exchange w"]
  let ?h = "\<lambda>a. route_of ?js (akey a)"
  have fin: "finite (transfers txs)" by (simp add: transfers_def)
  have part: "set (join_worker cid (of_paths d r (arriving r ?sent))) =
      {a. ?h a = r \<and> (\<exists>b. 5 \<le> card {m. (a, m) \<in> transfers txs \<and> (m, b) \<in> transfers txs})}" for r
  proof -
    have "count_sum (of_paths d r (arriving r ?sent)) pair = count_sum (arriving r ?sent) pair" for pair
      by (rule count_sum_mset) (rule rearrangesD(3) [OF assms(2)])
    then have "count_sum (of_paths d r (arriving r ?sent)) pair = (if ?h (fst pair) = r then int (card (links (transfers txs) pair)) else 0)" for pair
      unfolding arriving_routes_by [OF single_routers(7) [OF g]] count_sum_filter [where P = "\<lambda>a. ?h a = r"] paths_found_count [OF assms] by simp
    then show ?thesis unfolding join_worker_origins(2) using five_links [OF fin] by (auto simp: image_iff split: if_splits)
  qed
  have "distinct (scatter_gather_query w d cid txs)"
    unfolding scatter_gather_query_def Let_def
    by (rule distinct_by_worker [where h = ?h, OF numbered_routes_distinct join_worker_origins(1)]) (simp add: part)
  moreover have "set (scatter_gather_query w d cid txs) = {a. \<exists>b. 5 \<le> card {m. (a, m) \<in> transfers txs \<and> (m, b) \<in> transfers txs}}"
    using route_of_in_range [OF g] by (auto simp: scatter_gather_query_def Let_def part)
  ultimately show ?thesis by blast
qed

text \<open>Five intermediaries between ''a'' and ''b'', three workers in each stage, and every worker gets its items backwards.\<close>

definition sample_transfer :: "string \<Rightarrow> string \<Rightarrow> scatter_gather" where
  "sample_transfer a b = \<lparr>sg_from_bank = 1, sg_to_bank = 1, sg_account = a, sg_to_account = b\<rparr>"

definition sample_transfers :: "scatter_gather list" where
  "sample_transfers = concat (map (\<lambda>m. [sample_transfer ''a'' m, sample_transfer m ''b'']) [''1'', ''2'', ''3'', ''4'', ''5''])"

definition three_workers :: workers where
  "three_workers = \<lparr>origin_workers = 3, destination_workers = 3, aggregator_workers = 3, join_workers = 3,
     aggregator_exchange = ''agg'', join_exchange = ''join''\<rparr>"

definition backwards :: delivery where
  "backwards = \<lparr>of_transfers = \<lambda>r. rev, of_pairs = \<lambda>r. rev, of_paths = \<lambda>r. rev\<rparr>"

theorem scatter_gather_query_is_exact_witness:
  "\<lparr>bank = 1, account_name = ''a''\<rparr> \<in> set (scatter_gather_query three_workers backwards ''c'' sample_transfers) \<and>
   \<lparr>bank = 1, account_name = ''1''\<rparr> \<notin> set (scatter_gather_query three_workers backwards ''c'' sample_transfers)"
proof -
  let ?acc = "\<lambda>n. \<lparr>bank = 1, account_name = n\<rparr> :: account"
  have T: "transfers sample_transfers = (\<lambda>m. (?acc ''a'', ?acc m)) ` {''1'', ''2'', ''3'', ''4'', ''5''} \<union>
      (\<lambda>m. (?acc m, ?acc ''b'')) ` {''1'', ''2'', ''3'', ''4'', ''5''}"
    by (auto simp: transfers_def sample_transfers_def sample_transfer_def sg_origin_def sg_destination_def)
  have "{m. (?acc ''a'', m) \<in> transfers sample_transfers \<and> (m, ?acc ''b'') \<in> transfers sample_transfers} = ?acc ` {''1'', ''2'', ''3'', ''4'', ''5''}"
    unfolding T by auto
  moreover have "card (?acc ` {''1'', ''2'', ''3'', ''4'', ''5''}) = 5" by (subst card_image) (auto simp: inj_on_def)
  ultimately have five: "5 \<le> card {m. (?acc ''a'', m) \<in> transfers sample_transfers \<and> (m, ?acc ''b'') \<in> transfers sample_transfers}" by simp
  have empty: "{m. (?acc ''1'', m) \<in> transfers sample_transfers \<and> (m, b) \<in> transfers sample_transfers} = {}" for b
    unfolding T by auto
  have none: "\<not> (\<exists>b. 5 \<le> card {m. (?acc ''1'', m) \<in> transfers sample_transfers \<and> (m, b) \<in> transfers sample_transfers})" unfolding empty by simp
  have "good_workers three_workers" "rearranges backwards" "length sample_transfers < 2 ^ 32"
    by (simp_all add: good_workers_def three_workers_def rearranges_def backwards_def sample_transfers_def)
  then show ?thesis using five none scatter_gather_query_is_exact [of three_workers backwards sample_transfers "''c''"] by blast
qed

end
