(* ===== verification/Filters.thy ===== *)
theory Filters
  imports StatelessEngine
begin

text \<open>
  \<open>internal/workers/processor/filters\<close>: the stateless processors that keep an item, drop it, or keep a
  part of it. A time is its number of nanoseconds since the epoch.
\<close>

section \<open>Periods\<close>

record period =
  StartDate :: int
  EndDate :: int

definition period_contains :: "period \<Rightarrow> int \<Rightarrow> bool" where
  "period_contains p t \<longleftrightarrow> \<not> t < StartDate p \<and> \<not> EndDate p < t"

section \<open>The filters\<close>

text \<open>A processor that computes a list of results from the item alone; one item counts once.\<close>

abbreviation pure_step :: "('t \<Rightarrow> 'v list) \<Rightarrow> ('t, 'v, 'p) processor" where
  "pure_step f cid item p \<equiv> (p, Inr (f item, False))"

definition to_convert_period_filter :: "period \<Rightarrow> (to_convert, to_convert, 'p) processor" where
  "to_convert_period_filter per = pure_step (\<lambda>item.
     if \<not> period_contains per (tc_time item) then []
     else [\<lparr>tc_time = tc_time item, tc_amount = tc_amount item, tc_currency = tc_currency item, tc_format = tc_format item\<rparr>])"

definition scatter_gather_period_filter :: "period \<Rightarrow> (period_item, scatter_gather, 'p) processor" where
  "scatter_gather_period_filter per = pure_step (\<lambda>item.
     if \<not> period_contains per (pf_time item) then []
     else [\<lparr>sg_from_bank = pf_from_bank item, sg_to_bank = pf_to_bank item, sg_account = pf_account item,
            sg_to_account = pf_to_account item\<rparr>])"

definition build_transaction :: "period_item \<Rightarrow> avg_period \<Rightarrow> avg_transaction" where
  "build_transaction item per =
     \<lparr>av_account = pf_account item, av_amount = pf_amount item, av_format = pf_format item, av_period = per\<rparr>"

text \<open>Where the periods overlap the first one wins.\<close>

definition avg_by_type_period_filter :: "period \<Rightarrow> period \<Rightarrow> (period_item, avg_transaction, 'p) processor" where
  "avg_by_type_period_filter p1 p2 = pure_step (\<lambda>item.
     if period_contains p1 (pf_time item) then [build_transaction item PeriodFirst]
     else if period_contains p2 (pf_time item) then [build_transaction item PeriodSecond]
     else [])"

text \<open>\<open>T\<close> is any item with an amount.\<close>

definition amount_filter :: "f64 \<Rightarrow> ('t \<Rightarrow> f64) \<Rightarrow> ('t, 't, 'p) processor" where
  "amount_filter limit amount = pure_step (\<lambda>item. if f_less_eq limit (amount item) then [] else [item])"

definition currency_filter :: "string \<Rightarrow> (transaction, transaction, 'p) processor" where
  "currency_filter c = pure_step (\<lambda>item. if tx_currency item = c then [item] else [])"

definition is_allowed_format :: "string list \<Rightarrow> string \<Rightarrow> bool" where
  "is_allowed_format fs f \<longleftrightarrow> f \<in> set fs"

definition format_filter :: "string list \<Rightarrow> (to_convert, type_filtered, 'p) processor" where
  "format_filter fs = pure_step (\<lambda>item.
     if \<not> is_allowed_format fs (tc_format item) then []
     else [\<lparr>tf_amount = tc_amount item, tf_currency = tc_currency item, tf_time = tc_time item\<rparr>])"

section \<open>A whole batch through a processor\<close>

text \<open>The results of a batch, in order, or the error of the first item that fails.\<close>

fun run_items :: "('t, 'v, 'p) processor \<Rightarrow> string \<Rightarrow> 't list \<Rightarrow> 'p \<Rightarrow> 'p \<times> (go_error + 'v list)" where
  "run_items proc cid [] p = (p, Inr [])"
| "run_items proc cid (x # xs) p =
     (case proc cid x p of
        (p1, Inl e) \<Rightarrow> (p1, Inl e)
      | (p1, Inr (rs, multi)) \<Rightarrow>
          (case run_items proc cid xs p1 of
             (p2, Inl e) \<Rightarrow> (p2, Inl e)
           | (p2, Inr vs) \<Rightarrow> (p2, Inr (rs @ vs))))"

lemma run_pure: "run_items (pure_step f) cid xs p = (p, Inr (concat (map f xs)))"
  by (induction xs arbitrary: p) simp_all

end
