(* ===== verification/StatefulEngine.thy ===== *)
theory StatefulEngine
  imports CheckpointRecovery StatelessEngine
begin

text \<open>
  \<open>internal/workers/engine/statefulengine.go\<close>: the engine of the workers whose processor keeps state
  until the end of the client's stream. The broker's messages are acknowledged by the checkpoint
  manager; an event comes with the delivery tag its \<open>AckFn\<close> acknowledges. A handler that returns an
  error leaves the \<open>Nack\<close> to the receiver.
\<close>

section \<open>The engine\<close>

record ('s, 'p) stateful = "('s, 'p) worker" +
  cleanupMessages :: "(string, bool) gomap"

text \<open>An action of the part the checkpoint manager works on.\<close>

definition base_worker :: "('s, 'p) stateful \<Rightarrow> ('s, 'p) worker" where
  "base_worker e = \<lparr>coordinator = coordinator e, manager = manager e\<rparr>"

definition on_worker :: "('s, 'p) worker act \<Rightarrow> ('s, 'p) stateful act" where
  "on_worker = zoom base_worker (\<lambda>w e. e\<lparr>coordinator := coordinator w, manager := manager w\<rparr>)"

text \<open>\<open>handleTrueEOF\<close>, the flush handler: finalize, flush, send the EOF.\<close>

definition true_eof_id :: "string \<Rightarrow> int \<Rightarrow> string" where
  "true_eof_id eof wid = eof @ DASH # show_int wid"

definition stateful_true_eof ::
  "('p, 's, 't, 'v, 'c) proc_ops \<Rightarrow> ('s, 'v) sender_ops \<Rightarrow> int \<Rightarrow> string \<Rightarrow> u64 \<Rightarrow> string \<Rightarrow>
   ('s, 'p) sf_host act" where
  "stateful_true_eof ops send wid cid survivors eof h =
     (let newEof = true_eof_id eof wid
      in case op_finalize ops cid (\<lambda>v. sender_add send cid v newEof) (sf_processor h, sf_sender h) of
           ((p, s), r) \<Rightarrow>
             (let h1 = h\<lparr>sf_processor := p, sf_sender := s\<rparr>
              in case r of
                   Inl e \<Rightarrow> (h1, Some e)
                 | Inr n \<Rightarrow>
                     zoom sf_sender (\<lambda>s h. h\<lparr>sf_sender := s\<rparr>)
                       (then_act (sender_flush send cid) (sender_eof send cid n newEof)) h1))"

definition new_stateful_engine ::
  "('p, 's, 't, 'v, 'c) proc_ops \<Rightarrow> ('s, 'v) sender_ops \<Rightarrow> int \<Rightarrow> ('s, 'p) worker \<Rightarrow> ('s, 'p) stateful" where
  "new_stateful_engine ops send wid w =
     \<lparr>coordinator = (coordinator w)\<lparr>flushHandler := stateful_true_eof ops send wid\<rparr>,
      manager = manager w, cleanupMessages = []\<rparr>"

text \<open>\<open>Run\<close> loads the state and drops the error.\<close>

definition start ::
  "('p, 's, 't, 'v, 'c) proc_ops \<Rightarrow> 'c codec \<Rightarrow> ('s, 'p) stateful act" where
  "start ops C = ignore_err (on_worker (load_state ops C))"

definition stateful_data_message ::
  "('p, 's, 't, 'v, 'c) proc_ops \<Rightarrow> 'c codec \<Rightarrow> nat \<Rightarrow> 't event \<Rightarrow> ('s, 'p) worker act" where
  "stateful_data_message ops C tag ev w =
     (let cid = EventClient ev; bid = EventID ev
      in case begin_batch cid bid tag (manager w) of
           (m, False) \<Rightarrow> (w\<lparr>manager := m\<rparr>, None)
         | (m, True) \<Rightarrow>
             (case on_processor (for_each (op_process ops cid) (Data ev)) (w\<lparr>manager := m\<rparr>) of
                (w1, Some e) \<Rightarrow> (fst (on_manager (abort_batch cid) w1), Some e)
              | (w1, None) \<Rightarrow> commit_batch ops C cid bid (of_nat (length (Data ev))) w1))"

definition stateful_cleanup ::
  "('p, 's, 't, 'v, 'c) proc_ops \<Rightarrow> ('s, 'v) sender_ops \<Rightarrow> string \<Rightarrow> ('s, 'p) stateful act" where
  "stateful_cleanup ops send cid = seq_acts
     [on_worker (on_processor (op_cleanup ops cid)),
      ignore_err (on_worker (on_coordinator (clear_client cid))),
      ignore_err (on_worker (on_coordinator
        (zoom host (\<lambda>h c. c\<lparr>host := h\<rparr>) (zoom sf_sender (\<lambda>s h. h\<lparr>sf_sender := s\<rparr>) (sender_cleanup send cid))))),
      ignore_err (on_worker (clear_state ops cid)),
      upd (\<lambda>e. e\<lparr>cleanupMessages := mput cid True (cleanupMessages e)\<rparr>)]"

definition stateful_event ::
  "('p, 's, 't, 'v, 'c) proc_ops \<Rightarrow> ('s, 'v) sender_ops \<Rightarrow> 'c codec \<Rightarrow> nat \<Rightarrow> 't event \<Rightarrow>
   ('s, 'p) stateful act" where
  "stateful_event ops send C tag ev e =
     (if mget0 False (cleanupMessages e) (EventClient ev)
      then on_worker (on_manager (ack_all [tag])) e
      else
        case EventType ev of
          DataMessage \<Rightarrow> on_worker (stateful_data_message ops C tag ev) e
        | EOFMessage \<Rightarrow> on_worker (seq_acts
            [on_coordinator (handle_local_eof (EventClient ev) (EOFCount ev) (EventID ev)),
             flush_pending_batches ops C (EventClient ev), on_manager (ack_eof tag)]) e
        | CleanupMessage \<Rightarrow> seq_acts
            [stateful_cleanup ops send (EventClient ev), on_worker (on_manager (ack_cleanup tag))] e)"

section \<open>Properties\<close>

lemma begin_batch_new:
  assumes "begin_batch cid bid tag m = (m', True)"
  shows "mget0 False (mget0 [] (processedBatches m') cid) bid" "acked m' = acked m"
  using assms by (auto simp: begin_batch_def nput_def mget0_mput split: if_splits)

text \<open>
  C35. A batch at which the processor fails is lost. When processing an item of a new batch fails, the
  handler returns the error, so that the receiver requeues the message; but the batch stays marked as
  processed, and when the broker delivers it again it is acknowledged at once: nothing of it is
  processed, whatever the processor would now do, and it is still listed as pending, so the next
  checkpoint records it with the coordinator's count.
\<close>

theorem failed_batch_is_acked_unprocessed:
  assumes "\<not> mget0 False (mget0 [] (processedBatches (manager w)) (EventClient ev)) (EventID ev)"
    and "for_each (op_process ops (EventClient ev)) (Data ev) (processor w) = (p, Some e)"
    and "stateful_data_message ops C tag ev w = (w1, e1)"
  shows "e1 = Some e \<and> processor w1 = p \<and> EventID ev \<in> set (mget0 [] (pendingBatches (manager w1)) (EventClient ev)) \<and>
    stateful_data_message ops' C tag' ev w1 =
      (w1\<lparr>manager := (manager w1)\<lparr>acked := acked (manager w1) @ [tag']\<rparr>\<rparr>, None)"
proof -
  let ?cid = "EventClient ev" and ?bid = "EventID ev"
  obtain m where m: "begin_batch ?cid ?bid tag (manager w) = (m, True)"
    using assms(1) by (simp add: begin_batch_def)
  have pend: "?bid \<in> set (mget0 [] (pendingBatches m) ?cid)"
    using m assms(1) by (auto simp: begin_batch_def mget0_mput)
  have "processor (w\<lparr>manager := m\<rparr>) = processor w" by (simp add: processor_def)
  then have proc: "on_processor (for_each (op_process ops ?cid) (Data ev)) (w\<lparr>manager := m\<rparr>) =
      (put_processor p (w\<lparr>manager := m\<rparr>), Some e)"
    using assms(2) by (simp add: on_processor_def zoom_def)
  let ?w1 = "fst (on_manager (abort_batch ?cid) (put_processor p (w\<lparr>manager := m\<rparr>)))"
  have w1: "w1 = ?w1" "e1 = Some e"
    using assms(3) m proc by (simp_all add: stateful_data_message_def Let_def)
  have mw: "processedBatches (manager w1) = processedBatches m" "pendingBatches (manager w1) = pendingBatches m" "processor w1 = p"
    unfolding w1(1) by (auto simp: on_manager_def zoom_def abort_batch_def upd_def processor_def put_processor_def)
  then have "begin_batch ?cid ?bid tag' (manager w1) = ((manager w1)\<lparr>acked := acked (manager w1) @ [tag']\<rparr>, False)"
    using begin_batch_new(1) [OF m] by (simp add: begin_batch_def)
  then show ?thesis using w1(2) mw pend by (simp add: stateful_data_message_def Let_def)
qed

text \<open>
  After a cleanup nothing of the client is touched any more. Once a cleanup message for a client has been
  handled without an error, every later message of that client, data, EOF or cleanup, is only acknowledged.
\<close>

theorem cleaned_client_is_ignored:
  assumes "stateful_event ops send C tag ev e = (e', None)" "EventType ev = CleanupMessage"
    and "EventClient ev' = EventClient ev"
  shows "stateful_event ops' send' C' tag' ev' e' =
    (e'\<lparr>manager := (manager e')\<lparr>acked := acked (manager e') @ [tag']\<rparr>\<rparr>, None)"
proof -
  have "mget0 False (cleanupMessages e') (EventClient ev)"
  proof (cases "mget0 False (cleanupMessages e) (EventClient ev)")
    case True
    then show ?thesis using assms(1) by (auto simp: stateful_event_def on_worker_def zoom_def split: prod.splits)
  next
    case False
    then obtain e1 where "stateful_cleanup ops send (EventClient ev) e = (e1, None)"
      "on_worker (on_manager (ack_cleanup tag)) e1 = (e', None)"
      using assms(1,2) by (auto simp: stateful_event_def ok_def elim!: then_act_NoneE)
    moreover from this(1) have "mget0 False (cleanupMessages e1) (EventClient ev)"
      by (auto simp: stateful_cleanup_def upd_def ok_def mget0_mput elim!: then_act_NoneE)
    ultimately show ?thesis by (auto simp: on_worker_def zoom_def split: prod.splits)
  qed
  then show ?thesis
    using assms(3) by (simp add: stateful_event_def on_worker_def zoom_def on_manager_def ack_all_def upd_def base_worker_def)
qed

definition sample_event1 :: "event_type \<Rightarrow> unit event" where
  "sample_event1 t = \<lparr>EventID = ''b'', EventType = t, EventClient = ''c'', Data = [(), ()], EOFCount = 0\<rparr>"

theorem failed_batch_is_acked_unprocessed_witness:
  "\<exists>w1. stateful_data_message (sample_ops\<lparr>op_process := \<lambda>_ _ p. (p, Some ErrParse)\<rparr>) sample_codec 1 (sample_event1 DataMessage)
      (sample_worker (new_checkpoint_manager 5 [] [])) = (w1, Some ErrParse) \<and>
    stateful_data_message sample_ops sample_codec 2 (sample_event1 DataMessage) w1 =
      (w1\<lparr>manager := (manager w1)\<lparr>acked := acked (manager w1) @ [2]\<rparr>\<rparr>, None)"
proof -
  let ?ops = "sample_ops\<lparr>op_process := \<lambda>_ _ p. (p, Some ErrParse)\<rparr>"
  let ?w = "sample_worker (new_checkpoint_manager 5 [] [])"
  obtain w1 e1 where run: "stateful_data_message ?ops sample_codec 1 (sample_event1 DataMessage) ?w = (w1, e1)" by fastforce
  have new: "\<not> mget0 False (mget0 [] (processedBatches (manager ?w)) (EventClient (sample_event1 DataMessage)))
      (EventID (sample_event1 DataMessage))"
    by (simp add: sample_worker_def new_checkpoint_manager_def)
  have bad: "for_each (op_process ?ops (EventClient (sample_event1 DataMessage))) (Data (sample_event1 DataMessage)) (processor ?w)
      = (processor ?w, Some ErrParse)"
    by (simp add: sample_event1_def then_act_def)
  show ?thesis
    using failed_batch_is_acked_unprocessed [OF new bad run, of sample_ops 2] run by simp
qed

theorem cleaned_client_is_ignored_witness:
  "\<exists>e'. stateful_event sample_ops \<lparr>sender_add = \<lambda>_ _ _ s. (s, None), sender_flush = \<lambda>_ s. (s, None),
        sender_cleanup = \<lambda>_ s. (s, None), sender_eof = \<lambda>_ _ _ s. (s, None), sender_close = \<lambda>s. (s, None)\<rparr>
      sample_codec 1 (sample_event1 CleanupMessage)
      \<lparr>coordinator = coordinator (sample_worker (new_checkpoint_manager 5 [] [])),
        manager = new_checkpoint_manager 5 [] [], cleanupMessages = []\<rparr> = (e', None) \<and>
    stateful_event sample_ops \<lparr>sender_add = \<lambda>_ _ _ s. (s, None), sender_flush = \<lambda>_ s. (s, None),
        sender_cleanup = \<lambda>_ s. (s, None), sender_eof = \<lambda>_ _ _ s. (s, None), sender_close = \<lambda>s. (s, None)\<rparr>
      sample_codec 2 (sample_event1 DataMessage) e' =
      (e'\<lparr>manager := (manager e')\<lparr>acked := acked (manager e') @ [2]\<rparr>\<rparr>, None)"
  (is "\<exists>e'. stateful_event _ ?send _ _ _ ?e = _ \<and> _ e'")
proof -
  have "snd (stateful_event sample_ops ?send sample_codec 1 (sample_event1 CleanupMessage) ?e) = None"
    by (simp add: stateful_event_def sample_event1_def stateful_cleanup_def on_worker_def zoom_def then_act_def
        on_processor_def sample_ops_def ignore_err_def upd_def ok_def on_manager_def ack_cleanup_def ack_all_def split: prod.split)
  then obtain e' where run: "stateful_event sample_ops ?send sample_codec 1 (sample_event1 CleanupMessage) ?e = (e', None)"
    by (metis prod.collapse)
  from cleaned_client_is_ignored [OF run, of "sample_event1 DataMessage"] run show ?thesis
    by (auto simp: sample_event1_def)
qed

end
