(* ===== verification/Joiners.thy ===== *)
theory Joiners
  imports Processor StatefulEngine
begin

text \<open>
  \<open>internal/workers/processor/joiners\<close> except the join of the scatter-gather paths: the last stateful
  stage of each query, which keeps what the replicas of the previous stage report for a client and
  passes it on at the end of the stream. \<open>conversionjoin\<close> counts; \<open>maxbankjoin\<close>,
  \<open>avgbytypejoin\<close> and \<open>microtransactionjoin\<close> keep the results in the order they came.

  A count is a Go \<open>int\<close> that only grows by one per item, so it is an integer here. The JSON value of a
  change is the structure its tracker writes.
\<close>

section \<open>The join of the conversions\<close>

record conversion_join =
  clientResults :: "(string, int) gomap"
  dirtyCounts :: "(string, bool) gomap"

definition new_conversion_join :: conversion_join where
  "new_conversion_join = \<lparr>clientResults = [], dirtyCounts = []\<rparr>"

definition mark_count_changed :: "string \<Rightarrow> conversion_join \<Rightarrow> conversion_join" where
  "mark_count_changed cid p = p\<lparr>dirtyCounts := mput cid True (dirtyCounts p)\<rparr>"

definition put_count :: "string \<Rightarrow> int \<Rightarrow> conversion_join \<Rightarrow> conversion_join" where
  "put_count cid n p = p\<lparr>clientResults := mput cid n (clientResults p)\<rparr>"

definition conversion_join_process :: "string \<Rightarrow> converted_amount \<Rightarrow> conversion_join act" where
  "conversion_join_process cid x =
     upd (\<lambda>p. mark_count_changed cid (put_count cid (mget0 0 (clientResults p) cid + 1) p))"

definition conversion_join_clear :: "string \<Rightarrow> conversion_join \<Rightarrow> conversion_join" where
  "conversion_join_clear cid p =
     p\<lparr>clientResults := mdel cid (clientResults p), dirtyCounts := mdel cid (dirtyCounts p)\<rparr>"

text \<open>An error of \<open>yield\<close> makes \<open>Finalize\<close> return zero and no error.\<close>

definition conversion_join_finalize ::
  "string \<Rightarrow> (micro_payment_result \<Rightarrow> 's act) \<Rightarrow> conversion_join \<times> 's \<Rightarrow> (conversion_join \<times> 's) \<times> (go_error + u64)" where
  "conversion_join_finalize cid yield ps =
     (case yield \<lparr>payment_count = mget0 0 (clientResults (fst ps)) cid\<rparr> (snd ps) of
        (s, Some e) \<Rightarrow> ((fst ps, s), Inr 0)
      | (s, None) \<Rightarrow> ((conversion_join_clear cid (fst ps), s), Inr 1))"

definition conversion_join_cleanup :: "string \<Rightarrow> conversion_join act" where
  "conversion_join_cleanup cid = upd (conversion_join_clear cid)"

definition conversion_join_drain :: "string \<Rightarrow> conversion_join \<Rightarrow> conversion_join \<times> (go_error + int change list)" where
  "conversion_join_drain cid p =
     (if \<not> mget0 False (dirtyCounts p) cid then (p, Inr [])
      else (p\<lparr>dirtyCounts := mdel cid (dirtyCounts p)\<rparr>,
            Inr [\<lparr>Kind = ''count'', Key = cid, Value = Some (mget0 0 (clientResults p) cid)\<rparr>]))"

definition conversion_join_restore_one :: "string \<Rightarrow> int change \<Rightarrow> conversion_join act" where
  "conversion_join_restore_one cid c =
     (if Kind c = ''count'' then
        (case Value c of None \<Rightarrow> fail ErrParse | Some n \<Rightarrow> upd (\<lambda>p. mark_count_changed cid (put_count cid n p)))
      else ok)"

definition conversion_join_restore :: "string \<Rightarrow> int change list \<Rightarrow> conversion_join act" where
  "conversion_join_restore cid = for_each (conversion_join_restore_one cid)"

definition conversion_join_apply :: "string \<Rightarrow> int change \<Rightarrow> conversion_join act" where
  "conversion_join_apply cid c =
     (if Kind c = ''count'' then (case Value c of None \<Rightarrow> fail ErrParse | Some n \<Rightarrow> upd (put_count cid n))
      else fail (ErrUnknownKind (Kind c)))"

definition conversion_join_ops :: "(conversion_join, 's, converted_amount, micro_payment_result, int) proc_ops" where
  "conversion_join_ops = \<lparr>op_process = conversion_join_process, op_finalize = conversion_join_finalize,
     op_cleanup = conversion_join_cleanup, op_clear = conversion_join_cleanup, op_drain = conversion_join_drain,
     op_restore = conversion_join_restore, op_apply = conversion_join_apply\<rparr>"

lemma conversion_join_ops_simps [simp]:
  "op_process conversion_join_ops = conversion_join_process" "op_finalize conversion_join_ops = conversion_join_finalize"
  "op_cleanup conversion_join_ops = conversion_join_cleanup" "op_clear conversion_join_ops = conversion_join_cleanup"
  "op_drain conversion_join_ops = conversion_join_drain" "op_restore conversion_join_ops = conversion_join_restore" "op_apply conversion_join_ops = conversion_join_apply"
  by (simp_all add: conversion_join_ops_def)

lemmas conversion_join_defs = conversion_join_process_def conversion_join_drain_def
  conversion_join_restore_def conversion_join_restore_one_def conversion_join_apply_def
  put_count_def mark_count_changed_def new_conversion_join_def

definition conversion_count :: "string \<Rightarrow> conversion_join \<Rightarrow> int" where
  "conversion_count cid p = mget0 0 (clientResults p) cid"

definition conversion_tracked :: "string \<Rightarrow> int change list \<Rightarrow> conversion_join \<Rightarrow> bool" where
  "conversion_tracked cid L p \<longleftrightarrow>
     (\<exists>q. for_each (conversion_join_apply cid) L new_conversion_join = (q, None) \<and>
        (mget0 False (dirtyCounts p) cid \<or> conversion_count cid q = conversion_count cid p))"

lemma conversion_restore_others:
  assumes "cid' \<noteq> cid"
  shows "conversion_count cid (fst (conversion_join_restore cid' cs p)) = conversion_count cid p"
    "mget0 False (dirtyCounts (fst (conversion_join_restore cid' cs p))) cid = mget0 False (dirtyCounts p) cid"
  unfolding conversion_join_restore_def
  by (rule for_each_fst_cong; use assms in \<open>auto simp: conversion_join_defs conversion_count_def act_simps mget0_mput
    split: option.split\<close>)+

interpretation conversion_join: checkpointable conversion_join_ops new_conversion_join conversion_count conversion_tracked
proof (unfold_locales, goal_cases)
  case (3 cid L p p' cs)
  then show ?case
    by (auto simp: conversion_join_defs conversion_tracked_def conversion_count_def for_each_append then_act_def
      upd_def ok_def mget0_mput mget0_mdel split: if_splits)
next
  case (6 cid L p p' cs)
  then show ?case
    by (auto simp: conversion_join_defs conversion_tracked_def conversion_count_def act_simps mget0_mput mget0_mdel
      then_act_def split: if_splits)
next
  case (7 cid L p cid' cs)
  then show ?case
    using conversion_restore_others [of cid' cid cs p] by (simp add: conversion_tracked_def)
qed (auto simp: conversion_join_defs conversion_tracked_def conversion_count_def act_simps mget0_mput mget0_mdel
  split: if_splits)

section \<open>Result stores\<close>

text \<open>
  The stores of the other three joiners: the results of each client in the order of arrival. \<open>Add\<close> creates
  the client's store; \<open>defer\<close> clears it when \<open>Finalize\<close> ends, with an error or without.
\<close>

type_synonym 'v result_stores = "(string, 'v list) gomap"

definition add_result :: "string \<Rightarrow> 'v \<Rightarrow> 'v result_stores \<Rightarrow> 'v result_stores" where
  "add_result cid x m = mput cid (mget0 [] m cid @ [x]) m"

definition yield_store ::
  "('v \<Rightarrow> 's act) \<Rightarrow> 'v list \<Rightarrow> ('p \<Rightarrow> 'p) \<Rightarrow> 'p \<times> 's \<Rightarrow> ('p \<times> 's) \<times> (go_error + u64)" where
  "yield_store yield rs clear ps = yield_results yield rs clear clear (of_nat (length rs)) ps"

lemma yield_store_cases:
  "yield_store yield rs clear (p, s) =
     (case for_each yield rs s of
        (s', Some e) \<Rightarrow> ((clear p, s'), Inl e) | (s', None) \<Rightarrow> ((clear p, s'), Inr (of_nat (length rs))))"
  unfolding yield_store_def yield_results_def fst_conv snd_conv ..

lemma add_result_get [simp]:
  "mget0 [] (add_result cid x m) c = (if c = cid then mget0 [] m cid @ [x] else mget0 [] m c)"
  by (simp add: add_result_def mget0_mput)

subsection \<open>MaxBank\<close>

record maxbank_join =
  mbj_stores :: "maxbank_result result_stores"
  mbj_dirty :: "(string, bool) gomap"

definition new_maxbank_join :: maxbank_join where
  "new_maxbank_join = \<lparr>mbj_stores = [], mbj_dirty = []\<rparr>"

definition maxbank_join_add :: "string \<Rightarrow> maxbank_result \<Rightarrow> maxbank_join \<Rightarrow> maxbank_join" where
  "maxbank_join_add cid x p = p\<lparr>mbj_stores := add_result cid x (mbj_stores p)\<rparr>"

definition maxbank_join_mark :: "string \<Rightarrow> maxbank_join \<Rightarrow> maxbank_join" where
  "maxbank_join_mark cid p = p\<lparr>mbj_dirty := mput cid True (mbj_dirty p)\<rparr>"

definition maxbank_join_process :: "string \<Rightarrow> maxbank_result \<Rightarrow> maxbank_join act" where
  "maxbank_join_process cid x = upd (\<lambda>p. maxbank_join_mark cid (maxbank_join_add cid x p))"

definition maxbank_join_clear :: "string \<Rightarrow> maxbank_join \<Rightarrow> maxbank_join" where
  "maxbank_join_clear cid p = p\<lparr>mbj_stores := mdel cid (mbj_stores p), mbj_dirty := mdel cid (mbj_dirty p)\<rparr>"

definition maxbank_join_finalize ::
  "string \<Rightarrow> (maxbank_result \<Rightarrow> 's act) \<Rightarrow> maxbank_join \<times> 's \<Rightarrow> (maxbank_join \<times> 's) \<times> (go_error + u64)" where
  "maxbank_join_finalize cid yield ps =
     yield_store yield (mget0 [] (mbj_stores (fst ps)) cid) (maxbank_join_clear cid) ps"

definition maxbank_join_cleanup :: "string \<Rightarrow> maxbank_join act" where
  "maxbank_join_cleanup cid = upd (maxbank_join_clear cid)"

definition result_change :: "string \<Rightarrow> string \<Rightarrow> nat \<times> 'v \<Rightarrow> 'v change" where
  "result_change kind cid e = \<lparr>Kind = kind, Key = cid @ CHR '':'' # show_nat (fst e), Value = Some (snd e)\<rparr>"

text \<open>Every result of the store is drained, also those of earlier checkpoints.\<close>

definition maxbank_join_drain :: "string \<Rightarrow> maxbank_join \<Rightarrow> maxbank_join \<times> (go_error + maxbank_result change list)" where
  "maxbank_join_drain cid p =
     (if \<not> mget0 False (mbj_dirty p) cid then (p, Inr [])
      else
        case mget (mbj_stores p) cid of
          None \<Rightarrow> (p, Inr [])
        | Some rs \<Rightarrow>
            (p\<lparr>mbj_dirty := mdel cid (mbj_dirty p)\<rparr>, Inr (map (result_change ''result'' cid) (List.enumerate 0 rs))))"

definition maxbank_join_restore_one :: "string \<Rightarrow> maxbank_result change \<Rightarrow> maxbank_join act" where
  "maxbank_join_restore_one cid c =
     (if Kind c = ''result'' then
        (case Value c of None \<Rightarrow> fail ErrParse
         | Some x \<Rightarrow> upd (\<lambda>p. maxbank_join_mark cid (maxbank_join_add cid x p)))
      else ok)"

definition maxbank_join_restore :: "string \<Rightarrow> maxbank_result change list \<Rightarrow> maxbank_join act" where
  "maxbank_join_restore cid = for_each (maxbank_join_restore_one cid)"

definition maxbank_join_apply :: "string \<Rightarrow> maxbank_result change \<Rightarrow> maxbank_join act" where
  "maxbank_join_apply cid c =
     (if Kind c = ''result'' then (case Value c of None \<Rightarrow> fail ErrParse | Some x \<Rightarrow> upd (maxbank_join_add cid x))
      else fail (ErrUnknownKind (Kind c)))"

definition maxbank_join_ops :: "(maxbank_join, 's, maxbank_result, maxbank_result, maxbank_result) proc_ops" where
  "maxbank_join_ops = \<lparr>op_process = maxbank_join_process, op_finalize = maxbank_join_finalize,
     op_cleanup = maxbank_join_cleanup, op_clear = maxbank_join_cleanup, op_drain = maxbank_join_drain,
     op_restore = maxbank_join_restore, op_apply = maxbank_join_apply\<rparr>"

lemma maxbank_join_ops_simps [simp]:
  "op_process maxbank_join_ops = maxbank_join_process" "op_finalize maxbank_join_ops = maxbank_join_finalize"
  "op_cleanup maxbank_join_ops = maxbank_join_cleanup" "op_clear maxbank_join_ops = maxbank_join_cleanup"
  "op_drain maxbank_join_ops = maxbank_join_drain" "op_restore maxbank_join_ops = maxbank_join_restore" "op_apply maxbank_join_ops = maxbank_join_apply"
  by (simp_all add: maxbank_join_ops_def)

subsection \<open>Averages by type\<close>

record avg_join =
  avj_stores :: "avg_result result_stores"
  avj_dirty :: "(string, (string, bool) gomap) gomap"

definition new_avg_join :: avg_join where
  "new_avg_join = \<lparr>avj_stores = [], avj_dirty = []\<rparr>"

definition avg_join_add :: "string \<Rightarrow> avg_result \<Rightarrow> avg_join \<Rightarrow> avg_join" where
  "avg_join_add cid x p = p\<lparr>avj_stores := add_result cid x (avj_stores p)\<rparr>"

definition avg_join_mark :: "string \<Rightarrow> string \<Rightarrow> avg_join \<Rightarrow> avg_join" where
  "avg_join_mark cid acc p = p\<lparr>avj_dirty := nput cid acc True (avj_dirty p)\<rparr>"

definition avg_join_process :: "string \<Rightarrow> avg_result \<Rightarrow> avg_join act" where
  "avg_join_process cid x = upd (\<lambda>p. avg_join_mark cid (ar_account x) (avg_join_add cid x p))"

definition avg_join_clear :: "string \<Rightarrow> avg_join \<Rightarrow> avg_join" where
  "avg_join_clear cid p = p\<lparr>avj_stores := mdel cid (avj_stores p), avj_dirty := mdel cid (avj_dirty p)\<rparr>"

definition avg_join_finalize ::
  "string \<Rightarrow> (avg_result \<Rightarrow> 's act) \<Rightarrow> avg_join \<times> 's \<Rightarrow> (avg_join \<times> 's) \<times> (go_error + u64)" where
  "avg_join_finalize cid yield ps = yield_store yield (mget0 [] (avj_stores (fst ps)) cid) (avg_join_clear cid) ps"

definition avg_join_cleanup :: "string \<Rightarrow> avg_join act" where
  "avg_join_cleanup cid = upd (avg_join_clear cid)"

text \<open>Every result of an account that has a new one is drained.\<close>

definition avg_join_drain :: "string \<Rightarrow> avg_join \<Rightarrow> avg_join \<times> (go_error + avg_result change list)" where
  "avg_join_drain cid p =
     (let rs = mget0 [] (avj_stores p) cid; accounts = mget0 [] (avj_dirty p) cid
      in (p\<lparr>avj_stores := mput cid rs (avj_stores p), avj_dirty := mdel cid (avj_dirty p)\<rparr>,
          Inr (map (\<lambda>r. \<lparr>Kind = ''result'', Key = ar_account r, Value = Some r\<rparr>)
                 (filter (\<lambda>r. mget0 False accounts (ar_account r)) rs))))"

definition avg_join_restore_one :: "string \<Rightarrow> avg_result change \<Rightarrow> avg_join act" where
  "avg_join_restore_one cid c =
     (if Kind c = ''result'' then
        (case Value c of None \<Rightarrow> fail ErrParse
         | Some x \<Rightarrow> upd (\<lambda>p. avg_join_mark cid (ar_account x) (avg_join_add cid x p)))
      else ok)"

definition avg_join_restore :: "string \<Rightarrow> avg_result change list \<Rightarrow> avg_join act" where
  "avg_join_restore cid = for_each (avg_join_restore_one cid)"

definition avg_join_apply :: "string \<Rightarrow> avg_result change \<Rightarrow> avg_join act" where
  "avg_join_apply cid c =
     (if Kind c = ''result'' then (case Value c of None \<Rightarrow> fail ErrParse | Some x \<Rightarrow> upd (avg_join_add cid x))
      else fail (ErrUnknownKind (Kind c)))"

definition avg_join_ops :: "(avg_join, 's, avg_result, avg_result, avg_result) proc_ops" where
  "avg_join_ops = \<lparr>op_process = avg_join_process, op_finalize = avg_join_finalize,
     op_cleanup = avg_join_cleanup, op_clear = avg_join_cleanup, op_drain = avg_join_drain,
     op_restore = avg_join_restore, op_apply = avg_join_apply\<rparr>"

lemma avg_join_ops_simps [simp]:
  "op_process avg_join_ops = avg_join_process" "op_finalize avg_join_ops = avg_join_finalize"
  "op_cleanup avg_join_ops = avg_join_cleanup" "op_clear avg_join_ops = avg_join_cleanup"
  "op_drain avg_join_ops = avg_join_drain" "op_restore avg_join_ops = avg_join_restore" "op_apply avg_join_ops = avg_join_apply"
  by (simp_all add: avg_join_ops_def)

subsection \<open>Microtransactions\<close>

text \<open>
  This tracker logs only the results from \<open>lastCheckpointedIndex\<close> on. A failed checkpoint takes the
  index back to \<open>pendingCheckpointOffset\<close>.
\<close>

record micro_join =
  mtj_stores :: "microtransaction result_stores"
  mtj_dirty :: "(string, bool) gomap"
  lastCheckpointedIndex :: "(string, nat) gomap"
  pendingCheckpointOffset :: "(string, nat) gomap"

definition new_micro_join :: micro_join where
  "new_micro_join = \<lparr>mtj_stores = [], mtj_dirty = [], lastCheckpointedIndex = [], pendingCheckpointOffset = []\<rparr>"

definition micro_join_add :: "string \<Rightarrow> microtransaction \<Rightarrow> micro_join \<Rightarrow> micro_join" where
  "micro_join_add cid x p = p\<lparr>mtj_stores := add_result cid x (mtj_stores p)\<rparr>"

definition micro_join_mark :: "string \<Rightarrow> micro_join \<Rightarrow> micro_join" where
  "micro_join_mark cid p = p\<lparr>mtj_dirty := mput cid True (mtj_dirty p)\<rparr>"

definition micro_join_process :: "string \<Rightarrow> microtransaction \<Rightarrow> micro_join act" where
  "micro_join_process cid x = upd (\<lambda>p. micro_join_mark cid (micro_join_add cid x p))"

definition micro_join_clear :: "string \<Rightarrow> micro_join \<Rightarrow> micro_join" where
  "micro_join_clear cid p =
     p\<lparr>mtj_stores := mdel cid (mtj_stores p), mtj_dirty := mdel cid (mtj_dirty p),
       lastCheckpointedIndex := mdel cid (lastCheckpointedIndex p),
       pendingCheckpointOffset := mdel cid (pendingCheckpointOffset p)\<rparr>"

definition micro_join_finalize ::
  "string \<Rightarrow> (microtransaction \<Rightarrow> 's act) \<Rightarrow> micro_join \<times> 's \<Rightarrow> (micro_join \<times> 's) \<times> (go_error + u64)" where
  "micro_join_finalize cid yield ps = yield_store yield (mget0 [] (mtj_stores (fst ps)) cid) (micro_join_clear cid) ps"

definition micro_join_cleanup :: "string \<Rightarrow> micro_join act" where
  "micro_join_cleanup cid = upd (micro_join_clear cid)"

definition micro_join_drain :: "string \<Rightarrow> micro_join \<Rightarrow> micro_join \<times> (go_error + microtransaction change list)" where
  "micro_join_drain cid p =
     (if \<not> mget0 False (mtj_dirty p) cid then (p, Inr [])
      else
        case mget (mtj_stores p) cid of
          None \<Rightarrow> (p, Inr [])
        | Some rs \<Rightarrow>
            (let start = mget0 0 (lastCheckpointedIndex p) cid; clean = mdel cid (mtj_dirty p)
             in if start \<ge> length rs then (p\<lparr>mtj_dirty := clean\<rparr>, Inr [])
                else if list_all (\<lambda>r. f_finite (micro_amount r)) (drop start rs)
                then (p\<lparr>mtj_dirty := clean, lastCheckpointedIndex := mput cid (length rs) (lastCheckpointedIndex p),
                        pendingCheckpointOffset := mput cid start (pendingCheckpointOffset p)\<rparr>,
                      Inr (map (result_change ''microtransaction'' cid) (List.enumerate start (drop start rs))))
                else (p, Inl ErrParse)))"

definition micro_join_restore :: "string \<Rightarrow> microtransaction change list \<Rightarrow> micro_join act" where
  "micro_join_restore cid cs p =
     (case mget (pendingCheckpointOffset p) cid of
        None \<Rightarrow> (p, None)
      | Some previous \<Rightarrow>
          (p\<lparr>lastCheckpointedIndex := mput cid previous (lastCheckpointedIndex p),
             pendingCheckpointOffset := mdel cid (pendingCheckpointOffset p),
             mtj_dirty := mput cid True (mtj_dirty p)\<rparr>, None))"

definition micro_join_apply :: "string \<Rightarrow> microtransaction change \<Rightarrow> micro_join act" where
  "micro_join_apply cid c =
     (if Kind c = ''microtransaction'' then
        (case Value c of None \<Rightarrow> fail ErrParse
         | Some x \<Rightarrow> upd (\<lambda>p. (micro_join_add cid x p)
             \<lparr>lastCheckpointedIndex := mput cid (mget0 0 (lastCheckpointedIndex p) cid + 1) (lastCheckpointedIndex p)\<rparr>))
      else fail (ErrUnknownKind (Kind c)))"

definition micro_join_ops :: "(micro_join, 's, microtransaction, microtransaction, microtransaction) proc_ops" where
  "micro_join_ops = \<lparr>op_process = micro_join_process, op_finalize = micro_join_finalize,
     op_cleanup = micro_join_cleanup, op_clear = micro_join_cleanup, op_drain = micro_join_drain,
     op_restore = micro_join_restore, op_apply = micro_join_apply\<rparr>"

lemma micro_join_ops_simps [simp]:
  "op_process micro_join_ops = micro_join_process" "op_finalize micro_join_ops = micro_join_finalize"
  "op_cleanup micro_join_ops = micro_join_cleanup" "op_clear micro_join_ops = micro_join_cleanup"
  "op_drain micro_join_ops = micro_join_drain" "op_restore micro_join_ops = micro_join_restore" "op_apply micro_join_ops = micro_join_apply"
  by (simp_all add: micro_join_ops_def)

section \<open>Joining\<close>

text \<open>What \<open>Finalize\<close> does for a client after a sequence of items of any clients.\<close>

definition joined_run ::
  "('p, 's, 'v, 'v, 'c) proc_ops \<Rightarrow> 'p \<Rightarrow> (string \<times> 'v) list \<Rightarrow> string \<Rightarrow> ('v \<Rightarrow> 's act) \<Rightarrow> 's \<Rightarrow>
   ('p \<times> 's) \<times> (go_error + u64)" where
  "joined_run ops fresh items cid yield s =
     op_finalize ops cid yield (fst (for_each (\<lambda>(c, x). op_process ops c x) items fresh), s)"

definition passed_on :: "(string \<times> 'v) list \<Rightarrow> string \<Rightarrow> ('v \<Rightarrow> 's act) \<Rightarrow> 's \<Rightarrow> 's \<Rightarrow> (go_error + u64) \<Rightarrow> bool" where
  "passed_on items cid yield s s' r \<longleftrightarrow>
     (let xs = map snd (filter (\<lambda>i. fst i = cid) items)
      in case for_each yield xs s of (t, Some e) \<Rightarrow> s' = t \<and> r = Inl e | (t, None) \<Rightarrow> s' = t \<and> r = Inr (of_nat (length xs)))"

text \<open>What the three have in common: they keep the results of each client apart, in order.\<close>

locale result_join =
  fixes ops :: "('p, 's, 'v, 'v, 'c) proc_ops"
    and fresh :: 'p
    and results :: "string \<Rightarrow> 'p \<Rightarrow> 'v list"
  assumes results_fresh: "results cid fresh = []"
    and results_process: "\<exists>p'. op_process ops cid x p = (p', None) \<and>
      (\<forall>c. results c p' = (if c = cid then results cid p @ [x] else results c p))"
    and results_finalize: "\<exists>p'. (\<forall>c. results c p' = (if c = cid then [] else results c p)) \<and>
      op_finalize ops cid yield (p, s) =
        (case for_each yield (results cid p) s of
           (s', Some e) \<Rightarrow> ((p', s'), Inl e) | (s', None) \<Rightarrow> ((p', s'), Inr (of_nat (length (results cid p)))))"
begin

lemma process_all:
  "\<exists>p'. for_each (\<lambda>(c, x). op_process ops c x) items p = (p', None) \<and>
     (\<forall>c. results c p' = results c p @ map snd (filter (\<lambda>i. fst i = c) items))"
proof (induction items arbitrary: p)
  case (Cons i items)
  obtain c x where i: "i = (c, x)" by fastforce
  obtain p1 where p1: "op_process ops c x p = (p1, None)"
    "\<And>d. results d p1 = (if d = c then results c p @ [x] else results d p)"
    using results_process [of c x p] by blast
  obtain p' where "for_each (\<lambda>(c, x). op_process ops c x) items p1 = (p', None)"
    "\<And>d. results d p' = results d p1 @ map snd (filter (\<lambda>i. fst i = d) items)" using Cons.IH by blast
  then show ?case using p1 i by (intro exI [of _ p']) (simp add: then_act_def)
qed (simp add: ok_def)

lemma joined:
  "\<exists>p s' r. joined_run ops fresh items cid yield s = ((p, s'), r) \<and> passed_on items cid yield s s' r \<and> results cid p = []"
proof -
  obtain p where p: "for_each (\<lambda>(c, x). op_process ops c x) items fresh = (p, None)"
    "results cid p = map snd (filter (\<lambda>i. fst i = cid) items)"
    using process_all [of items fresh] results_fresh by auto
  obtain p' where p': "\<forall>c. results c p' = (if c = cid then [] else results c p)" "op_finalize ops cid yield (p, s) =
      (case for_each yield (results cid p) s of
         (s', Some e) \<Rightarrow> ((p', s'), Inl e) | (s', None) \<Rightarrow> ((p', s'), Inr (of_nat (length (results cid p)))))"
    using results_finalize [of cid p yield s] by blast
  then have e: "results cid p' = []" by simp
  show ?thesis unfolding joined_run_def p(1) fst_conv p'(2) passed_on_def Let_def p(2) using e
    by (cases "for_each yield (map snd (filter (\<lambda>i. fst i = cid) items)) s"; cases "snd (for_each yield (map snd (filter (\<lambda>i. fst i = cid) items)) s)")
       auto
qed

end

interpretation maxbank_join: result_join maxbank_join_ops new_maxbank_join "\<lambda>cid p. mget0 [] (mbj_stores p) cid"
proof (unfold_locales, goal_cases)
  case (3 cid p yield s)
  show ?case
    by (intro exI [of _ "maxbank_join_clear cid p"]) (simp add: maxbank_join_finalize_def yield_store_cases
       maxbank_join_clear_def mget0_mdel)
qed (simp_all add: new_maxbank_join_def maxbank_join_process_def maxbank_join_mark_def
  maxbank_join_add_def upd_def)

interpretation avg_join: result_join avg_join_ops new_avg_join "\<lambda>cid p. mget0 [] (avj_stores p) cid"
proof (unfold_locales, goal_cases)
  case (3 cid p yield s)
  show ?case
    by (intro exI [of _ "avg_join_clear cid p"]) (simp add: avg_join_finalize_def yield_store_cases
       avg_join_clear_def mget0_mdel)
qed (simp_all add: new_avg_join_def avg_join_process_def avg_join_mark_def avg_join_add_def upd_def)

interpretation micro_join: result_join micro_join_ops new_micro_join "\<lambda>cid p. mget0 [] (mtj_stores p) cid"
proof (unfold_locales, goal_cases)
  case (3 cid p yield s)
  show ?case
    by (intro exI [of _ "micro_join_clear cid p"]) (simp add: micro_join_finalize_def yield_store_cases
       micro_join_clear_def mget0_mdel)
qed (simp_all add: new_micro_join_def micro_join_process_def micro_join_mark_def micro_join_add_def upd_def)

section \<open>Recovery\<close>

text \<open>The microtransactions: what is logged is the first part of the store.\<close>

abbreviation micro_results :: "string \<Rightarrow> micro_join \<Rightarrow> microtransaction list" where
  "micro_results cid p \<equiv> mget0 [] (mtj_stores p) cid"

abbreviation micro_last :: "string \<Rightarrow> micro_join \<Rightarrow> nat" where
  "micro_last cid p \<equiv> mget0 0 (lastCheckpointedIndex p) cid"

definition micro_tracked :: "string \<Rightarrow> microtransaction change list \<Rightarrow> micro_join \<Rightarrow> bool" where
  "micro_tracked cid L p \<longleftrightarrow>
     (\<exists>q. for_each (micro_join_apply cid) L new_micro_join = (q, None) \<and>
        micro_results cid q = take (micro_last cid p) (micro_results cid p)) \<and>
     micro_last cid p \<le> length (micro_results cid p) \<and>
     (micro_last cid p < length (micro_results cid p) \<longrightarrow> mget0 False (mtj_dirty p) cid)"

lemma apply_results:
  "\<exists>q. for_each (micro_join_apply cid) (map (result_change ''microtransaction'' cid) (List.enumerate n rs)) p = (q, None) \<and>
     micro_results cid q = micro_results cid p @ rs"
proof (induction rs arbitrary: n p)
  case (Cons r rs)
  let ?p = "(micro_join_add cid r p)
    \<lparr>lastCheckpointedIndex := mput cid (micro_last cid p + 1) (lastCheckpointedIndex p)\<rparr>"
  have "micro_join_apply cid (result_change ''microtransaction'' cid (n, r)) p = (?p, None)"
    by (simp add: micro_join_apply_def result_change_def upd_def)
  moreover have "micro_results cid ?p = micro_results cid p @ [r]" by (simp add: micro_join_add_def)
  ultimately show ?case using Cons.IH [of "Suc n" ?p] by (auto simp: then_act_def)
qed (simp add: ok_def)

text \<open>The cases of a drain.\<close>

lemma micro_drain_cases:
  assumes "micro_tracked cid L p" "micro_join_drain cid p = (p', r)"
  obtains (idle) "r = Inr []" "mtj_stores p' = mtj_stores p" "lastCheckpointedIndex p' = lastCheckpointedIndex p"
      "micro_last cid p = length (micro_results cid p)"
  | (refused) e where "r = Inl e" "p' = p"
  | (logged) "r = Inr (map (result_change ''microtransaction'' cid)
        (List.enumerate (micro_last cid p) (drop (micro_last cid p) (micro_results cid p))))"
      "mtj_stores p' = mtj_stores p" "micro_last cid p' = length (micro_results cid p)"
      "mget (pendingCheckpointOffset p') cid = Some (micro_last cid p)"
proof (cases "mget (mtj_stores p) cid")
  case None
  have e: "micro_results cid p = []" using None by (simp add: mget0_def)
  have d: "p' = p \<and> r = Inr []" using assms(2) None by (simp add: micro_join_drain_def split: if_splits)
  have "micro_last cid p = length (micro_results cid p)" using assms(1) unfolding micro_tracked_def e by simp
  then show ?thesis using d idle by simp
next
  case (Some rs)
  then have "micro_results cid p = rs" by (simp add: mget0_def)
  then show ?thesis using idle refused logged assms Some
    by (auto simp: micro_join_drain_def micro_tracked_def Let_def mget0_mput mget_mput split: if_splits)
qed

lemma micro_drained:
  assumes "micro_tracked cid L p" "micro_join_drain cid p = (p', Inr cs)"
  shows "micro_tracked cid (L @ cs) p'"
    "\<exists>q. for_each (micro_join_apply cid) (L @ cs) new_micro_join = (q, None) \<and> micro_results cid q = micro_results cid p'"
    "micro_results cid p' = micro_results cid p"
    "cs \<noteq> [] \<Longrightarrow> micro_tracked cid L (fst (micro_join_restore cid cs p'))"
proof -
  obtain q0 where q0: "for_each (micro_join_apply cid) L new_micro_join = (q0, None)"
    "micro_results cid q0 = take (micro_last cid p) (micro_results cid p)" "micro_last cid p \<le> length (micro_results cid p)"
    using assms(1) by (auto simp: micro_tracked_def)
  have "(\<exists>q. for_each (micro_join_apply cid) (L @ cs) new_micro_join = (q, None) \<and> micro_results cid q = micro_results cid p') \<and>
    micro_results cid p' = micro_results cid p \<and> micro_last cid p' = length (micro_results cid p) \<and>
    (cs \<noteq> [] \<longrightarrow> mget (pendingCheckpointOffset p') cid = Some (micro_last cid p))"
    using assms
  proof (cases rule: micro_drain_cases)
    case idle
    then show ?thesis using q0 by simp
  next
    case logged
    obtain q where "for_each (micro_join_apply cid) cs q0 = (q, None)"
      "micro_results cid q = micro_results cid q0 @ drop (micro_last cid p) (micro_results cid p)"
      using apply_results [of cid "micro_last cid p" "drop (micro_last cid p) (micro_results cid p)" q0] logged(1) by auto
    then show ?thesis using logged q0 by (simp add: for_each_append then_act_def)
  qed auto
  then show "\<exists>q. for_each (micro_join_apply cid) (L @ cs) new_micro_join = (q, None) \<and> micro_results cid q = micro_results cid p'"
    "micro_results cid p' = micro_results cid p" "micro_tracked cid (L @ cs) p'"
    "cs \<noteq> [] \<Longrightarrow> micro_tracked cid L (fst (micro_join_restore cid cs p'))"
    using q0 by (auto simp: micro_tracked_def micro_join_restore_def mget0_mput)
qed

lemma micro_others:
  assumes "micro_tracked cid L p" "cid' \<noteq> cid"
  shows "micro_tracked cid L (fst (micro_join_drain cid' p))" "micro_tracked cid L (fst (micro_join_restore cid' cs p))"
  using assms by (auto simp: micro_tracked_def micro_join_drain_def micro_join_restore_def Let_def mget0_mput mget0_mdel
    split: option.split)

interpretation micro_join: busy_checkpointable micro_join_ops new_micro_join micro_results micro_tracked
proof (unfold_locales, goal_cases)
  case (1 cid)
  show ?case by (simp add: micro_tracked_def new_micro_join_def ok_def)
next
  case (2 cid L p cid' x)
  then show ?case
    by (auto simp: micro_tracked_def micro_join_process_def upd_def micro_join_mark_def
      micro_join_add_def mget0_mput)
next
  case (3 cid L p p' cs)
  then show ?case using micro_drained [of cid L p p' cs] by simp
next
  case (4 cid L p p' e)
  then have d: "micro_join_drain cid p = (p', Inl e)" by simp
  show ?case using 4(1) d by (cases rule: micro_drain_cases [OF 4(1) d]) (use 4 in auto)
next
  case (5 cid L p cid')
  then show ?case using micro_others by simp
next
  case (6 cid L p p' cs)
  then show ?case using micro_drained [of cid L p p' cs] by simp
next
  case (7 cid L p cid' cs)
  then show ?case using micro_others by simp
qed

section \<open>Properties\<close>

text \<open>
  The joins of the three result streams pass everything on. Whatever items of whatever clients arrived in
  whatever interleaving, \<open>Finalize\<close> for a client hands its items, each as often as it came and in the
  order of arrival, to \<open>yield\<close>, up to the first error of \<open>yield\<close>, which it returns; else it returns their
  number. Either way the client's store is empty afterwards.
\<close>

theorem joins_pass_results_on:
  "(\<exists>p s' r. joined_run maxbank_join_ops new_maxbank_join items1 cid yield1 s1 = ((p, s'), r) \<and>
     passed_on items1 cid yield1 s1 s' r \<and> mget0 [] (mbj_stores p) cid = []) \<and>
   (\<exists>p s' r. joined_run avg_join_ops new_avg_join items2 cid yield2 s2 = ((p, s'), r) \<and>
     passed_on items2 cid yield2 s2 s' r \<and> mget0 [] (avj_stores p) cid = []) \<and>
   (\<exists>p s' r. joined_run micro_join_ops new_micro_join items3 cid yield3 s3 = ((p, s'), r) \<and>
     passed_on items3 cid yield3 s3 s' r \<and> mget0 [] (mtj_stores p) cid = [])"
  by (intro conjI) (rule maxbank_join.joined avg_join.joined micro_join.joined)+

lemma conversion_counts:
  "\<exists>p. for_each (\<lambda>(c, x). conversion_join_process c x) items p0 = (p, None) \<and>
     (\<forall>c. conversion_count c p = conversion_count c p0 + int (length (filter (\<lambda>i. fst i = c) items)))"
proof (induction items arbitrary: p0)
  case (Cons i items)
  obtain c x where i: "i = (c, x)" by fastforce
  obtain p1 where s: "conversion_join_process c x p0 = (p1, None)"
    and v: "\<And>d. conversion_count d p1 = conversion_count d p0 + (if d = c then 1 else 0)"
    by (simp add: conversion_count_def conversion_join_process_def upd_def mark_count_changed_def put_count_def mget0_mput)
  obtain p where p: "for_each (\<lambda>(c, x). conversion_join_process c x) items p1 = (p, None)"
    "\<And>d. conversion_count d p = conversion_count d p1 + int (length (filter (\<lambda>i. fst i = d) items))"
    using Cons.IH [of p1] by blast
  have "for_each (\<lambda>(c, x). conversion_join_process c x) (i # items) p0 = (p, None)"
    using s p(1) by (simp add: i then_act_def)
  then show ?case by (intro exI [of _ p]) (simp add: p(2) v i)
qed (simp add: ok_def)

text \<open>
  The join of the conversions reports the number of converted amounts of the client, whatever the
  other clients did in between, as one result. When handing it over fails, the error is lost: the flush handler of
  the stage goes on to flush and to announce the end of the stream with a count of zero, so that the
  client's result never arrives.
\<close>

theorem conversion_join_reports_the_count:
  "\<exists>p. for_each (\<lambda>(c, x). conversion_join_process c x) items new_conversion_join = (p, None) \<and>
     (let n = int (length (filter (\<lambda>i. fst i = cid) items)); eof' = true_eof_id eof wid
      in case sender_add send cid \<lparr>payment_count = n\<rparr> eof' s of
           (s', None) \<Rightarrow>
             stateful_true_eof conversion_join_ops send wid cid m eof \<lparr>sf_sender = s, sf_processor = p\<rparr> =
               zoom sf_sender (\<lambda>s h. h\<lparr>sf_sender := s\<rparr>) (then_act (sender_flush send cid) (sender_eof send cid 1 eof'))
                 \<lparr>sf_sender = s', sf_processor = conversion_join_clear cid p\<rparr>
         | (s', Some e) \<Rightarrow>
             stateful_true_eof conversion_join_ops send wid cid m eof \<lparr>sf_sender = s, sf_processor = p\<rparr> =
               zoom sf_sender (\<lambda>s h. h\<lparr>sf_sender := s\<rparr>) (then_act (sender_flush send cid) (sender_eof send cid 0 eof'))
                 \<lparr>sf_sender = s', sf_processor = p\<rparr>)"
proof -
  obtain p where p: "for_each (\<lambda>(c, x). conversion_join_process c x) items new_conversion_join = (p, None)"
    "conversion_count cid p = int (length (filter (\<lambda>i. fst i = cid) items))"
    using conversion_counts [of items new_conversion_join] by (auto simp: conversion_count_def new_conversion_join_def)
  then have "mget0 0 (clientResults p) cid = int (length (filter (\<lambda>i. fst i = cid) items))" by (simp add: conversion_count_def)
  then show ?thesis using p(1)
    by (intro exI [of _ p]) (auto simp: Let_def stateful_true_eof_def conversion_join_finalize_def
      split: prod.split option.split)
qed

text \<open>
  A restart of the joins of the conversions and of the microtransactions brings the results back,
  for the latter provided that every failed checkpoint had something to log: the log of the client and the changes a
  checkpoint drains, replayed, give the count or the list of results, each once and in order.
\<close>

theorem joins_restart_restores:
  "proc_run conversion_join_ops new_conversion_join steps1 = (p1, L1) \<Longrightarrow> conversion_join_drain cid p1 = (p1', Inr cs1) \<Longrightarrow>
   proc_run (micro_join_ops :: (micro_join, 's, microtransaction, microtransaction, microtransaction) proc_ops) new_micro_join steps2 = (p2, L2) \<Longrightarrow>
   busy_run (micro_join_ops :: (micro_join, 's, microtransaction, microtransaction, microtransaction) proc_ops) steps2 (new_micro_join, \<lambda>_. []) \<Longrightarrow>
   micro_join_drain cid p2 = (p2', Inr cs2) \<Longrightarrow>
     (\<exists>q. for_each (conversion_join_apply cid) (L1 cid @ cs1) new_conversion_join = (q, None) \<and>
        conversion_count cid q = conversion_count cid p1) \<and>
     (\<exists>q. for_each (micro_join_apply cid) (L2 cid @ cs2) new_micro_join = (q, None) \<and> micro_results cid q = micro_results cid p2)"
  by (intro conjI, rule conversion_join.restart [simplified], assumption+,
      rule micro_join.busy_restart [simplified], assumption+)

lemma run_process: "fold (run_step ops) (map (Process cid) xs) (p, L) = (fold (\<lambda>x p. fst (op_process ops cid x p)) xs p, L)"
  by (induction xs arbitrary: p) simp_all

lemma maxbank_join_fold:
  "mget0 [] (mbj_stores (fold (\<lambda>x p. fst (maxbank_join_process cid x p)) xs p)) cid = mget0 [] (mbj_stores p) cid @ xs"
  "mget0 False (mbj_dirty (fold (\<lambda>x p. fst (maxbank_join_process cid x p)) xs p)) cid = (xs \<noteq> [] \<or> mget0 False (mbj_dirty p) cid)"
  by (induction xs arbitrary: p)
    (simp_all add: maxbank_join_process_def upd_def maxbank_join_mark_def maxbank_join_add_def mget0_mput)

lemma avg_join_fold:
  "mget0 [] (avj_stores (fold (\<lambda>x p. fst (avg_join_process cid x p)) xs p)) cid = mget0 [] (avj_stores p) cid @ xs"
  "mget0 False (mget0 [] (avj_dirty (fold (\<lambda>x p. fst (avg_join_process cid x p)) xs p)) cid) acc =
     (acc \<in> ar_account ` set xs \<or> mget0 False (mget0 [] (avj_dirty p) cid) acc)"
  by (induction xs arbitrary: p)
    (auto simp: avg_join_process_def upd_def avg_join_mark_def avg_join_add_def nput_get mget0_mput)

lemma maxbank_join_drain_all:
  assumes "mget0 False (mbj_dirty p) cid" "mget0 [] (mbj_stores p) cid \<noteq> []"
  shows "maxbank_join_drain cid p = (p\<lparr>mbj_dirty := mdel cid (mbj_dirty p)\<rparr>,
    Inr (map (result_change ''result'' cid) (List.enumerate 0 (mget0 [] (mbj_stores p) cid))))"
  using assms by (auto simp: maxbank_join_drain_def mget0_def split: option.splits)

lemma maxbank_join_replay:
  "\<exists>q. for_each (maxbank_join_apply cid) (map (result_change ''result'' cid) (List.enumerate n rs)) p = (q, None) \<and>
     mget0 [] (mbj_stores q) cid = mget0 [] (mbj_stores p) cid @ rs"
proof (induction rs arbitrary: n p)
  case (Cons r rs)
  have "maxbank_join_apply cid (result_change ''result'' cid (n, r)) p = (maxbank_join_add cid r p, None)"
    by (simp add: maxbank_join_apply_def result_change_def upd_def)
  then show ?case using Cons.IH [of "Suc n" "maxbank_join_add cid r p"]
    by (auto simp: then_act_def maxbank_join_add_def)
qed (simp add: ok_def)

lemma maxbank_join_again:
  "mget0 [] (mbj_stores (fst (maxbank_join_restore cid (map (result_change ''result'' cid) (List.enumerate n rs)) p))) cid =
     mget0 [] (mbj_stores p) cid @ rs"
proof (induction rs arbitrary: n p)
  case (Cons r rs)
  let ?p = "maxbank_join_mark cid (maxbank_join_add cid r p)"
  have "maxbank_join_restore_one cid (result_change ''result'' cid (n, r)) p = (?p, None)"
    by (simp add: maxbank_join_restore_one_def result_change_def upd_def)
  then show ?case using Cons.IH [of "Suc n" ?p]
    by (simp add: maxbank_join_restore_def then_act_def maxbank_join_add_def maxbank_join_mark_def)
qed (simp add: maxbank_join_restore_def ok_def)

lemma avg_join_again:
  "mget0 [] (avj_stores (fst (avg_join_restore cid (map (\<lambda>r. \<lparr>Kind = ''result'', Key = ar_account r, Value = Some r\<rparr>) rs) p))) cid =
     mget0 [] (avj_stores p) cid @ rs"
proof (induction rs arbitrary: p)
  case (Cons r rs)
  let ?p = "avg_join_mark cid (ar_account r) (avg_join_add cid r p)"
  have "avg_join_restore_one cid \<lparr>Kind = ''result'', Key = ar_account r, Value = Some r\<rparr> p = (?p, None)"
    by (simp add: avg_join_restore_one_def upd_def)
  then show ?case using Cons.IH [of ?p]
    by (simp add: avg_join_restore_def then_act_def avg_join_add_def avg_join_mark_def)
qed (simp add: avg_join_restore_def ok_def)

text \<open>
  The join of the bank maxima repeats results after a restart. Its second checkpoint of a client logs
  all results again, not only the new ones, so replaying the log gives the results of the first checkpoint twice.
\<close>

theorem maxbank_join_restart_duplicates:
  "xs \<noteq> [] \<Longrightarrow> ys \<noteq> [] \<Longrightarrow>
   proc_run maxbank_join_ops new_maxbank_join (map (Process cid) xs @ [Persist cid True] @ map (Process cid) ys) = (p, L) \<Longrightarrow>
   maxbank_join_drain cid p = (p', Inr cs) \<Longrightarrow>
     mget0 [] (mbj_stores p) cid = xs @ ys \<and>
     (\<exists>q. for_each (maxbank_join_apply cid) (L cid @ cs) new_maxbank_join = (q, None) \<and>
        mget0 [] (mbj_stores q) cid = xs @ xs @ ys)"
proof -
  assume ne: "xs \<noteq> []" "ys \<noteq> []"
    and run: "proc_run maxbank_join_ops new_maxbank_join (map (Process cid) xs @ [Persist cid True] @ map (Process cid) ys) = (p, L)"
    and d: "maxbank_join_drain cid p = (p', Inr cs)"
  let ?fold = "fold (\<lambda>x p. fst (maxbank_join_process cid x p))"
  let ?cs = "\<lambda>rs. map (result_change ''result'' cid) (List.enumerate 0 rs)"
  let ?p1 = "?fold xs new_maxbank_join"
  have p1: "mget0 [] (mbj_stores ?p1) cid = xs" "mget0 False (mbj_dirty ?p1) cid"
    using ne by (simp_all add: maxbank_join_fold new_maxbank_join_def)
  let ?p2 = "?p1\<lparr>mbj_dirty := mdel cid (mbj_dirty ?p1)\<rparr>"
  have r: "maxbank_join_drain cid ?p1 = (?p2, Inr (?cs xs))" using maxbank_join_drain_all [of ?p1 cid] p1 ne by simp
  have "p = ?fold ys ?p2 \<and> L = (\<lambda>_. [])(cid := ?cs xs)"
    using run r by (simp add: proc_run_def run_process)
  then have p: "p = ?fold ys ?p2" "L = (\<lambda>_. [])(cid := ?cs xs)" by blast+
  then have v: "mget0 [] (mbj_stores p) cid = xs @ ys" "mget0 False (mbj_dirty p) cid"
    using ne p1 by (simp_all add: maxbank_join_fold)
  then have "L cid @ cs = ?cs xs @ ?cs (xs @ ys)" using maxbank_join_drain_all [of p cid] ne d p(2) by simp
  moreover obtain q1 where q1: "for_each (maxbank_join_apply cid) (?cs xs) new_maxbank_join = (q1, None)"
    "mget0 [] (mbj_stores q1) cid = xs"
    using maxbank_join_replay [of cid 0 xs new_maxbank_join] by (auto simp: new_maxbank_join_def)
  moreover obtain q where "for_each (maxbank_join_apply cid) (?cs (xs @ ys)) q1 = (q, None)"
    "mget0 [] (mbj_stores q) cid = mget0 [] (mbj_stores q1) cid @ (xs @ ys)"
    using maxbank_join_replay [of cid 0 "xs @ ys" q1] by blast
  ultimately show ?thesis using v(1) by (auto simp: for_each_append then_act_def simp del: map_append)
qed

text \<open>
  A failed checkpoint doubles the results of the joins of the bank maxima and of the averages:
  \<open>RestoreChanges\<close> adds the drained results to the store, which still holds them.
\<close>

theorem failed_checkpoint_duplicates_results:
  "xs \<noteq> [] \<Longrightarrow>
   proc_run maxbank_join_ops new_maxbank_join (map (Process cid) xs @ [Persist cid False]) = (p1, L1) \<Longrightarrow>
   proc_run avg_join_ops new_avg_join (map (Process cid) ys @ [Persist cid False]) = (p2, L2) \<Longrightarrow>
     mget0 [] (mbj_stores p1) cid = xs @ xs \<and> mget0 [] (avj_stores p2) cid = ys @ ys"
proof
  assume ne: "xs \<noteq> []" and run: "proc_run maxbank_join_ops new_maxbank_join (map (Process cid) xs @ [Persist cid False]) = (p1, L1)"
  let ?p = "fold (\<lambda>x p. fst (maxbank_join_process cid x p)) xs new_maxbank_join"
  have p: "mget0 [] (mbj_stores ?p) cid = xs" "mget0 False (mbj_dirty ?p) cid"
    using ne by (simp_all add: maxbank_join_fold new_maxbank_join_def)
  show "mget0 [] (mbj_stores p1) cid = xs @ xs"
    using run maxbank_join_drain_all [of ?p cid] p ne maxbank_join_again [of cid 0 xs "?p\<lparr>mbj_dirty := mdel cid (mbj_dirty ?p)\<rparr>"]
    by (auto simp: proc_run_def run_process maxbank_join_ops_def)
next
  assume run: "proc_run avg_join_ops new_avg_join (map (Process cid) ys @ [Persist cid False]) = (p2, L2)"
  let ?p = "fold (\<lambda>x p. fst (avg_join_process cid x p)) ys new_avg_join"
  have p: "mget0 [] (avj_stores ?p) cid = ys"
    and a: "\<And>acc. mget0 False (mget0 [] (avj_dirty ?p) cid) acc = (acc \<in> ar_account ` set ys)"
    by (simp_all add: avg_join_fold new_avg_join_def)
  have "filter (\<lambda>r. mget0 False (mget0 [] (avj_dirty ?p) cid) (ar_account r)) ys = ys"
    unfolding a by (simp add: filter_id_conv)
  then show "mget0 [] (avj_stores p2) cid = ys @ ys"
    using run p avg_join_again [of cid ys "?p\<lparr>avj_stores := mput cid ys (avj_stores ?p), avj_dirty := mdel cid (avj_dirty ?p)\<rparr>"]
    by (auto simp: proc_run_def run_process avg_join_drain_def Let_def mget0_mput)
qed

section \<open>Witnesses\<close>

lemma maxbank_join_drain_Inr: "\<exists>p' cs. maxbank_join_drain cid p = (p', Inr cs)"
  by (auto simp: maxbank_join_drain_def split: option.split)

lemma conversion_join_drain_Inr: "\<exists>p' cs. conversion_join_drain cid p = (p', Inr cs)"
  by (auto simp: conversion_join_drain_def)

definition sample_result :: "string \<Rightarrow> maxbank_result" where
  "sample_result acc = \<lparr>mr_bank_name = ''b'', mr_account = acc, mr_amount = ''5''\<rparr>"

theorem maxbank_join_restart_duplicates_witness:
  "\<exists>p L p' cs q. proc_run (maxbank_join_ops :: (maxbank_join, unit, maxbank_result, maxbank_result, maxbank_result) proc_ops)
       new_maxbank_join (map (Process ''c'') [sample_result ''x''] @ [Persist ''c'' True] @ map (Process ''c'') [sample_result ''y'']) = (p, L) \<and>
     maxbank_join_drain ''c'' p = (p', Inr cs) \<and>
     for_each (maxbank_join_apply ''c'') (L ''c'' @ cs) new_maxbank_join = (q, None) \<and>
     mget0 [] (mbj_stores q) ''c'' = [sample_result ''x'', sample_result ''x'', sample_result ''y'']"
  (is "\<exists>p L p' cs q. proc_run _ _ ?steps = _ \<and> _ p L p' cs q")
proof -
  obtain p L where run: "proc_run (maxbank_join_ops :: (maxbank_join, unit, maxbank_result, maxbank_result, maxbank_result) proc_ops)
      new_maxbank_join ?steps = (p, L)" by fastforce
  obtain p' cs where d: "maxbank_join_drain ''c'' p = (p', Inr cs)" using maxbank_join_drain_Inr by blast
  from maxbank_join_restart_duplicates [OF _ _ run d] run d show ?thesis by auto
qed

theorem failed_checkpoint_duplicates_results_witness:
  "\<exists>p1 L1 p2 L2. proc_run (maxbank_join_ops :: (maxbank_join, unit, maxbank_result, maxbank_result, maxbank_result) proc_ops)
       new_maxbank_join (map (Process ''c'') [sample_result ''x''] @ [Persist ''c'' False]) = (p1, L1) \<and>
     proc_run (avg_join_ops :: (avg_join, unit, avg_result, avg_result, avg_result) proc_ops)
       new_avg_join (map (Process ''c'') [\<lparr>ar_account = ''x'', ar_amount = ''1''\<rparr>] @ [Persist ''c'' False]) = (p2, L2) \<and>
     mget0 [] (mbj_stores p1) ''c'' = [sample_result ''x'', sample_result ''x''] \<and> length (mget0 [] (avj_stores p2) ''c'') = 2"
  (is "\<exists>p1 L1 p2 L2. proc_run _ _ ?steps1 = _ \<and> proc_run _ _ ?steps2 = _ \<and> _ p1 p2")
proof -
  obtain p1 L1 where r1: "proc_run (maxbank_join_ops :: (maxbank_join, unit, maxbank_result, maxbank_result, maxbank_result) proc_ops)
      new_maxbank_join ?steps1 = (p1, L1)" by fastforce
  obtain p2 L2 where r2: "proc_run (avg_join_ops :: (avg_join, unit, avg_result, avg_result, avg_result) proc_ops)
      new_avg_join ?steps2 = (p2, L2)" by fastforce
  from failed_checkpoint_duplicates_results [OF _ r1 r2] r1 r2 show ?thesis by auto
qed

theorem joins_restart_restores_witness:
  "\<exists>p L p' cs q. proc_run (micro_join_ops :: (micro_join, unit, microtransaction, microtransaction, microtransaction) proc_ops)
       new_micro_join [Process ''c'' \<lparr>micro_account = ''x'', micro_to_account = ''y'', micro_amount = 5\<rparr>, Persist ''c'' False] = (p, L) \<and>
     micro_join_drain ''c'' p = (p', Inr cs) \<and>
     for_each (micro_join_apply ''c'') (L ''c'' @ cs) new_micro_join = (q, None) \<and> micro_results ''c'' q = micro_results ''c'' p \<and>
     length (micro_results ''c'' p) = 1"
proof -
  let ?x = "\<lparr>micro_account = ''x'', micro_to_account = ''y'', micro_amount = 5\<rparr>"
  let ?steps = "[Process ''c'' ?x, Persist ''c'' False]"
  note ds = micro_join_process_def micro_join_mark_def micro_join_add_def add_result_def new_micro_join_def upd_def
    micro_join_drain_def micro_join_restore_def mget0_def
  have run: "proc_run (micro_join_ops :: (micro_join, unit, microtransaction, microtransaction, microtransaction) proc_ops)
      new_micro_join ?steps = (\<lparr>mtj_stores = [(''c'', [?x])], mtj_dirty = [(''c'', True)],
        lastCheckpointedIndex = [(''c'', 0)], pendingCheckpointOffset = []\<rparr>, \<lambda>_. [])" (is "_ = (?p, _)")
    by (simp add: proc_run_def ds)
  have busy: "busy_run (micro_join_ops :: (micro_join, unit, microtransaction, microtransaction, microtransaction) proc_ops)
      ?steps (new_micro_join, \<lambda>_. [])"
    by (simp add: ds)
  obtain p' cs where d: "micro_join_drain ''c'' ?p = (p', Inr cs)" by (simp add: ds)
  obtain p1' cs1 where d1: "conversion_join_drain ''c'' new_conversion_join = (p1', Inr cs1)"
    using conversion_join_drain_Inr by blast
  have run1: "proc_run (conversion_join_ops :: (conversion_join, unit, converted_amount, micro_payment_result, int) proc_ops)
      new_conversion_join [] = (new_conversion_join, \<lambda>_. [])" by (simp add: proc_run_def)
  have "length (micro_results ''c'' ?p) = 1" by (simp add: mget0_def)
  then show ?thesis using joins_restart_restores [OF run1 d1 run busy d] run d by blast
qed

end
