(* ===== verification/Dates.thy ===== *)
theory Dates
  imports GoStrings "HOL-Library.Monad_Syntax"
begin

text \<open>
  The functions of Go's \<open>time\<close> that the program uses, in UTC: \<open>time.Parse\<close> with the layout of the transactions
  file and \<open>Format\<close> with the layout of the exchange rates. They are library code: the map has no entry for
  them, apart from the call sites. The lemmas show that the two agree on the date.
\<close>

section \<open>The calendar\<close>

text \<open>The civil date of a day number (days since 1970-01-01), in the proleptic Gregorian calendar.\<close>

definition civil :: "int \<Rightarrow> int \<times> int \<times> int" where
  "civil days =
     (let z = days + 719468;
          era = z div 146097;
          doe = z mod 146097;
          yoe = (doe - doe div 1460 + doe div 36524 - doe div 146096) div 365;
          doy = doe - (365 * yoe + yoe div 4 - yoe div 100);
          mp = (5 * doy + 2) div 153;
          m = (if mp < 10 then mp + 3 else mp - 9)
      in (yoe + era * 400 + (if m \<le> 2 then 1 else 0), m, doy - (153 * mp + 2) div 5 + 1))"

text \<open>The number of days from 1970-01-01 to a date.\<close>

definition days_of :: "int \<Rightarrow> int \<Rightarrow> int \<Rightarrow> int" where
  "days_of y m d =
     (let y' = (if m \<le> 2 then y - 1 else y);
          mp = (m + 9) mod 12;
          yoe = y' mod 400;
          doe = 365 * yoe + yoe div 4 - yoe div 100 + ((153 * mp + 2) div 5 + d - 1)
      in (y' div 400) * 146097 + doe - 719468)"

definition leap_year :: "int \<Rightarrow> bool" where
  "leap_year y \<longleftrightarrow> y mod 4 = 0 \<and> (y mod 100 \<noteq> 0 \<or> y mod 400 = 0)"

definition days_in :: "int \<Rightarrow> int \<Rightarrow> int" where
  "days_in m y = (if m = 2 then (if leap_year y then 29 else 28) else if m \<in> {4, 6, 9, 11} then 30 else 31)"

section \<open>The two directions are inverse\<close>

lemma div_eq: "(b::int) * q \<le> a \<Longrightarrow> a < b * q + b \<Longrightarrow> 0 < b \<Longrightarrow> a div b = q"
  by (rule int_div_pos_eq [of a b q "a - b * q"]) linarith+

text \<open>The year within its era: \<open>c\<close> centuries, \<open>q\<close> groups of four years and \<open>s\<close> years.\<close>

lemma year_of_era:
  fixes c q s doy :: int
  assumes c: "0 \<le> c" "c < 4" and q: "0 \<le> q" "q < 25" and s: "0 \<le> s" "s < 4" and d: "0 \<le> doy" "doy \<le> 365"
    and leap: "doy = 365 \<longrightarrow> s = 3 \<and> (q < 24 \<or> c = 3)"
    and doe: "doe = 36524 * c + 1461 * q + 365 * s + doy"
  shows "(doe - doe div 1460 + doe div 36524 - doe div 146096) div 365 = 100 * c + 4 * q + s"
proof -
  define last where "last \<longleftrightarrow> c = 3 \<and> q = 24 \<and> s = 3 \<and> doy = 365"
  define v where "v = 24 * c + q + 365 * s + doy"
  define t where "t = (if 1460 \<le> v then 1 else (0::int))"
  have doe_v: "doe = 1460 * (25 * c + q) + v" by (simp add: doe v_def)
  have v: "0 \<le> v" "v < 2920" using c q s d by (simp_all add: v_def)
  have t: "t = 0 \<or> t = 1" "1460 * t \<le> v" "v < 1460 * t + 1460" using v by (auto simp: t_def)
  have t0: "doy = 0 \<Longrightarrow> t = 0" using c q s by (simp add: t_def v_def)
  have t1: "t = 1" if "doy = 365"
  proof -
    have "s = 3" using leap that by simp
    then show ?thesis using that c q by (simp add: t_def v_def)
  qed
  have k: "doe div 1460 = 25 * c + q + t" by (rule div_eq; use t doe_v in \<open>simp only: distrib_left_numeral\<close>; linarith)
  show ?thesis
  proof (cases last)
    case True
    then have v: "c = 3" "q = 24" "s = 3" "doy = 365" by (auto simp: last_def)
    then show ?thesis using doe by simp
  next
    case False
    have b: "doe < 146096"
    proof (rule ccontr)
      assume "\<not> doe < 146096"
      then have "36524 * c + 1461 * q + 365 * s + doy \<ge> 146096" using doe by simp
      then have "c = 3" "q = 24" "s = 3" "doy = 365" using c q s d by linarith+
      then show False using False by (simp add: last_def)
    qed
    have e: "doe div 146096 = 0" by (rule div_eq) (use b doe assms in linarith)+
    have up: "doe < 36524 * c + 36524"
    proof (cases "c = 3")
      case True
      then show ?thesis using b by simp
    next
      case False
      then have "q < 24 \<or> s < 3 \<or> doy < 365" using leap q s d by linarith
      then show ?thesis using doe q s d by linarith
    qed
    have cc: "doe div 36524 = c" by (rule div_eq) (use up doe assms in linarith)+
    have "doy - t < 365" using t(1) t1 d by linarith
    moreover have "0 \<le> doy - t" using t(1) t0 d by linarith
    ultimately show ?thesis unfolding k e cc
      by (intro div_eq) (use doe in simp_all)
  qed
qed

lemma era_split:
  fixes yoe :: int
  assumes "0 \<le> yoe" "yoe < 400"
  obtains c q s where "0 \<le> c" "c < 4" "0 \<le> q" "q < 25" "0 \<le> s" "s < 4" "yoe = 100 * c + 4 * q + s"
    "yoe div 4 = 25 * c + q" "yoe div 100 = c"
proof -
  obtain c r where c: "c = yoe div 100" "r = yoe mod 100" by simp
  then have y: "yoe = 100 * c + r" "0 \<le> r" "r < 100" by simp_all
  obtain q s where q: "q = r div 4" "s = r mod 4" by simp
  then have r: "r = 4 * q + s" "0 \<le> s" "s < 4" by simp_all
  have "yoe div 4 = 25 * c + q" by (rule div_eq; use y r in simp)
  moreover have "yoe div 100 = c" by (rule div_eq) (use y r in linarith)+
  ultimately show thesis by (intro that [of c q s]) (use y r assms in linarith)+
qed

lemma months:
  assumes "1 \<le> m" "m \<le> (12::int)" "1 \<le> d" "d \<le> days_in m y" "mp = (m + 9) mod 12" "doy = (153 * mp + 2) div 5 + d - 1"
  shows "(5 * doy + 2) div 153 = mp" "0 \<le> doy" "doy \<le> 365" "doy = 365 \<longrightarrow> m = 2 \<and> d = 29"
    "(if mp < 10 then mp + 3 else mp - 9) = m"
proof -
  have d: "d \<le> 31" using assms(4) by (auto simp: days_in_def split: if_splits)
  have "m \<in> {1, 2, 3, 4, 5, 6, 7, 8, 9, 10, 11, 12}" using assms(1,2) by (simp, presburger)
  moreover have "mp = (m + 9) mod 12" "d \<le> days_in m y" by fact+
  ultimately have "(5 * doy + 2) div 153 = mp \<and> 0 \<le> doy \<and> doy \<le> 365 \<and> (doy = 365 \<longrightarrow> m = 2 \<and> d = 29) \<and>
      (if mp < 10 then mp + 3 else mp - 9) = m"
    using assms(3,6) d
    by (elim insertE) (auto simp: days_in_def intro!: div_eq split: if_splits)
  then show "(5 * doy + 2) div 153 = mp" "0 \<le> doy" "doy \<le> 365" "doy = 365 \<longrightarrow> m = 2 \<and> d = 29"
    "(if mp < 10 then mp + 3 else mp - 9) = m" by simp_all
qed

text \<open>February 29 ends the year that begins in March, so the next civil year is a leap year.\<close>

lemma leap_day:
  fixes c q s e :: int
  assumes "leap_year (400 * e + 100 * c + 4 * q + s + 1)" "0 \<le> c" "c < 4" "0 \<le> q" "q < 25" "0 \<le> s" "s < 4"
  shows "s = 3 \<and> (q < 24 \<or> c = 3)"
proof -
  let ?y = "400 * e + 100 * c + 4 * q + s + 1"
  have y: "?y = 4 * (100 * e + 25 * c + q) + (s + 1)" "?y = 100 * (4 * e + c) + (4 * q + s + 1)"
    "?y = 400 * e + (100 * c + (4 * q + s + 1))" by simp_all
  have "?y mod 4 = 0" using assms(1) by (simp add: leap_year_def)
  then have "(s + 1) mod 4 = 0" by (metis y(1) mod_mult_self4)
  moreover have "s \<in> {0, 1, 2, 3}" using assms(6,7) by auto
  ultimately have s: "s = 3" by auto
  have "c = 3" if "q = 24"
  proof -
    have "?y = 100 * (4 * e + c + 1)" using that s by simp
    then have "?y mod 100 = 0" by (metis mod_mult_self1_is_0)
    then have "?y mod 400 = 0" using assms(1) by (auto simp: leap_year_def)
    then have "(100 * c + 100) mod 400 = 0" unfolding y(3) using that s by simp
    moreover have "c \<in> {0, 1, 2, 3}" using assms(2,3) by auto
    ultimately show ?thesis by auto
  qed
  then show ?thesis using s assms(5) by linarith
qed

lemma civil_days_of:
  assumes "1 \<le> m" "m \<le> 12" "1 \<le> d" "d \<le> days_in m y"
  shows "civil (days_of y m d) = (y, m, d)"
proof -
  define y' where "y' = (if m \<le> 2 then y - 1 else y)"
  define yoe where "yoe = y' mod 400"
  define mp where "mp = (m + 9) mod 12"
  define doy where "doy = (153 * mp + 2) div 5 + d - 1"
  note mo = months [OF assms mp_def doy_def]
  have "0 \<le> yoe" "yoe < 400" by (simp_all add: yoe_def)
  from era_split [OF this] obtain c q s where cqs: "0 \<le> c" "c < 4" "0 \<le> q" "q < 25" "0 \<le> s" "s < 4"
    "yoe = 100 * c + 4 * q + s" "yoe div 4 = 25 * c + q" "yoe div 100 = c" by blast
  define doe where "doe = 36524 * c + 1461 * q + 365 * s + doy"
  have days: "days_of y m d = (y' div 400) * 146097 + doe - 719468"
    using cqs(7-9) by (simp add: days_of_def Let_def y'_def [symmetric] yoe_def [symmetric] mp_def [symmetric] doy_def doe_def)
  have leap: "doy = 365 \<longrightarrow> s = 3 \<and> (q < 24 \<or> c = 3)"
  proof
    assume "doy = 365"
    then have "m = 2" "d = 29" using mo(4) by auto
    then have "leap_year y" "y' = y - 1" using assms(4) by (auto simp: days_in_def y'_def split: if_splits)
    moreover obtain e where "y' = 400 * e + yoe" unfolding yoe_def by (metis mult_div_mod_eq)
    ultimately have "leap_year (400 * e + 100 * c + 4 * q + s + 1)" using cqs(7) by (simp add: algebra_simps)
    then show "s = 3 \<and> (q < 24 \<or> c = 3)" using leap_day cqs(1-6) by blast
  qed
  have ye: "(doe - doe div 1460 + doe div 36524 - doe div 146096) div 365 = yoe"
    using year_of_era [OF cqs(1-6) mo(2,3) leap doe_def] cqs(7) by simp
  have "0 \<le> doe" using cqs(1-6) mo(2) by (simp add: doe_def)
  moreover have "doe < 146097"
  proof (cases "doy = 365")
    case False
    then show ?thesis using cqs(1-6) mo(3) by (simp add: doe_def)
  qed (use cqs(1-6) in \<open>simp add: doe_def\<close>)
  ultimately have z: "(days_of y m d + 719468) div 146097 = y' div 400" "(days_of y m d + 719468) mod 146097 = doe"
    by (simp_all add: days)
  have dy: "doe - (365 * yoe + yoe div 4 - yoe div 100) = doy" using cqs(7-9) by (simp add: doe_def)
  have "yoe + y' div 400 * 400 = y'" by (simp add: yoe_def)
  then show ?thesis
    unfolding civil_def Let_def z ye dy mo(1,5) by (simp add: y'_def doy_def)
qed
section \<open>Formatting and parsing\<close>

definition pad :: "nat \<Rightarrow> int \<Rightarrow> string" where
  "pad n i = (let s = show_int i in replicate (n - length s) (CHR ''0'') @ s)"

text \<open>\<open>timestamp.Format("2006-01-02")\<close>, in UTC.\<close>

definition date_key :: "int \<Rightarrow> string" where
  "date_key t = (case civil (t div 86400000000000) of
     (y, m, d) \<Rightarrow> pad 4 y @ DASH # pad 2 m @ DASH # pad 2 d)"

lemma date_key_samples:
  "date_key 0 = ''1970-01-01''" "date_key 1662076800000000000 = ''2022-09-02''"
  "date_key 951868799999999999 = ''2000-02-29''"
  by code_simp+

text \<open>
  \<open>time.Parse("2006/01/02 15:04", s)\<close>: four digits, two, two, any spaces, an hour of one or two digits, a minute
  of two, and nothing more. The result counts nanoseconds since the epoch.
\<close>

fun take_digits :: "nat \<Rightarrow> string \<Rightarrow> (int \<times> string) option" where
  "take_digits n s =
     (if n \<le> length s \<and> list_all is_digit (take n s)
      then Some (int (base_value 10 digit_val (take n s)), drop n s) else None)"

definition take_hour :: "string \<Rightarrow> (int \<times> string) option" where
  "take_hour s = (case take_digits 2 s of Some r \<Rightarrow> Some r | None \<Rightarrow> take_digits 1 s)"

definition skip_char :: "char \<Rightarrow> string \<Rightarrow> string option" where
  "skip_char c s = (case s of [] \<Rightarrow> None | x # xs \<Rightarrow> if x = c then Some xs else None)"

definition skip_space :: "string \<Rightarrow> string option" where
  "skip_space s = (if s \<noteq> [] \<and> hd s \<noteq> SP then None else Some (dropWhile (\<lambda>c. c = SP) s))"

definition parse_time :: "string \<Rightarrow> int option" where
  "parse_time s = do {
     (y, s) \<leftarrow> take_digits 4 s; s \<leftarrow> skip_char (CHR ''/'') s;
     (mo, s) \<leftarrow> take_digits 2 s; s \<leftarrow> (if 1 \<le> mo \<and> mo \<le> 12 then skip_char (CHR ''/'') s else None);
     (d, s) \<leftarrow> take_digits 2 s; s \<leftarrow> skip_space s;
     (h, s) \<leftarrow> take_hour s; s \<leftarrow> (if h < 24 then skip_char (CHR '':'') s else None);
     (mi, s) \<leftarrow> take_digits 2 s;
     if mi < 60 \<and> s = [] \<and> 1 \<le> d \<and> d \<le> days_in mo y
     then Some (((days_of y mo d * 24 + h) * 60 + mi) * 60000000000) else None }"

lemma parse_time_samples:
  "parse_time ''2022/09/02 00:21'' = Some 1662078060000000000"
  "parse_time ''2022/02/29 00:21'' = None" "parse_time ''2022/09/02  7:05'' = Some 1662102300000000000"
  by code_simp+

section \<open>The date survives\<close>

lemma digit_char_val: "is_digit c \<Longrightarrow> digit_char (digit_val c) = c"
  by (simp add: is_digit_def digit_char_def digit_val_def byte_def)

lemma digit_val_less: "is_digit c \<Longrightarrow> digit_val c < 10"
  by (auto simp: is_digit_def digit_val_def)

lemma show_nat_0: "show_nat 0 = ''0''"
  by code_simp

lemma pad_nat: "pad n (int v) = replicate (n - length (show_nat v)) (CHR ''0'') @ show_nat v"
  by (simp add: pad_def show_int_def Let_def)

lemma pad_snoc:
  assumes "1 \<le> k" "d < 10"
  shows "pad (Suc k) (int (v * 10 + d)) = pad k (int v) @ [digit_char d]"
proof (cases "v = 0")
  case True
  then have "show_nat (v * 10 + d) = [digit_char d]" using assms(2) by (simp add: show_nat.simps)
  moreover obtain j where "k = Suc j" using assms(1) by (cases k) simp_all
  ultimately show ?thesis using True
    by (simp add: pad_nat show_nat_0 replicate_append_same pad_nat [of _ 0, simplified] del: of_nat_add of_nat_mult flip: append_Cons append_assoc)
next
  case False
  then have "show_nat (v * 10 + d) = show_nat v @ [digit_char d]" using assms(2) by (simp add: show_nat.simps [of "v * 10 + d"])
  then show ?thesis by (simp add: pad_nat del: of_nat_add of_nat_mult)
qed

lemma pad_digits:
  "list_all is_digit ds \<Longrightarrow> ds \<noteq> [] \<Longrightarrow> pad (length ds) (int (base_value 10 digit_val ds)) = ds"
proof (induction ds rule: rev_induct)
  case (snoc c ds)
  show ?case
  proof (cases ds)
    case Nil
    then show ?thesis using snoc.prems
      by (simp add: base_value_def pad_def show_int_def show_nat.simps digit_val_less digit_char_val)
  next
    case Cons
    then have "pad (length ds) (int (base_value 10 digit_val ds)) = ds" using snoc by simp
    moreover have "1 \<le> length ds" using Cons by simp
    ultimately show ?thesis using pad_snoc [of "length ds" "digit_val c"] snoc.prems
      by (simp add: digit_val_less digit_char_val)
  qed
qed simp

lemma take_digits_Some:
  assumes "take_digits n s = Some (i, r)" "0 < n"
  shows "pad n i = take n s" "r = drop n s" "0 \<le> i" "n \<le> length s"
proof -
  have "n \<le> length s" "list_all is_digit (take n s)" "i = int (base_value 10 digit_val (take n s))" "r = drop n s"
    using assms(1) by (auto split: if_splits)
  moreover have "length (take n s) = n" "take n s \<noteq> []" using assms(2) calculation(1) by auto
  ultimately show "pad n i = take n s" "r = drop n s" "0 \<le> i" "n \<le> length s"
    using pad_digits [of "take n s"] by auto
qed

lemma skip_char_Some: "skip_char c s = Some r \<Longrightarrow> r = drop 1 s"
  by (cases s) (auto simp: skip_char_def split: if_splits)

declare take_digits.simps [simp del]

lemma date_of_parsed_time:
  assumes "parse_time s = Some t"
  shows "date_key t = take 4 s @ DASH # take 2 (drop 5 s) @ DASH # take 2 (drop 8 s)"
proof -
  obtain y s1 s2 mo s3 s4 d s5 s6 h s7 s8 mi s9 where p:
    "take_digits 4 s = Some (y, s1)" "skip_char (CHR ''/'') s1 = Some s2"
    "take_digits 2 s2 = Some (mo, s3)" "1 \<le> mo" "mo \<le> 12" "skip_char (CHR ''/'') s3 = Some s4"
    "take_digits 2 s4 = Some (d, s5)" "take_hour s6 = Some (h, s7)" "h < 24"
    "take_digits 2 s8 = Some (mi, s9)" "mi < 60" "1 \<le> d" "d \<le> days_in mo y"
    "t = ((days_of y mo d * 24 + h) * 60 + mi) * 60000000000"
    using assms unfolding parse_time_def
    by (auto split: bind_splits if_splits)
  have "0 \<le> h" using p(8) take_digits_Some(3) [of 2 s6] take_digits_Some(3) [of 1 s6]
    by (auto simp: take_hour_def split: option.splits)
  moreover have "0 \<le> mi" using take_digits_Some(3) [OF p(10)] by simp
  ultimately have "t div 86400000000000 = days_of y mo d" unfolding p(14) using p(9,11)
    by (intro div_eq) simp_all
  moreover have "pad 4 y = take 4 s" "pad 2 mo = take 2 s2" "pad 2 d = take 2 s4" "s1 = drop 4 s" "s3 = drop 2 s2"
    using take_digits_Some [OF p(1)] take_digits_Some [OF p(3)] take_digits_Some [OF p(7)] by simp_all
  moreover have "s2 = drop 5 s" "s4 = drop 8 s" using skip_char_Some [OF p(2)] skip_char_Some [OF p(6)] calculation by simp_all
  ultimately show ?thesis using civil_days_of [OF p(4,5,12,13)] by (simp add: date_key_def)
qed

end
