(* ===== verification/CurrencyConverter.thy ===== *)
theory CurrencyConverter
  imports Filters Joiners Dates
begin

text \<open>
  \<open>internal/workers/processor/mappers/currencyconverter\<close>: the mapper from payments to dollar amounts,
  with its cache of exchange rates per date.

  The exchange-rate service is not part of the repository: it is the parameter \<open>svc\<close> that answers a
  request, and its answers may differ each time (they may depend on the requests so far, which the
  state records).
\<close>

section \<open>The rates of a date\<close>

record api_rate =
  Quote :: string
  Rate :: f64

datatype response = Unreachable | BadStatus string | Undecodable | RatesReply "api_rate list"

definition isoToLongName :: "(string, string) gomap" where
  "isoToLongName =
     [(''AUD'', ''Australian Dollar''), (''BRL'', ''Brazil Real''), (''CAD'', ''Canadian Dollar''), (''EUR'', ''Euro''),
      (''MXN'', ''Mexican Peso''), (''RUB'', ''Ruble''), (''INR'', ''Rupee''), (''SAR'', ''Saudi Riyal''),
      (''ILS'', ''Shekel''), (''CHF'', ''Swiss Franc''), (''GBP'', ''UK Pound''), (''JPY'', ''Yen''), (''CNY'', ''Yuan'')]"

text \<open>The bits of 19793.1, 199999.0, 19831.4, 19952.7 and 20126.1.\<close>

definition bitcoinRatesUSD :: "(string, f64) gomap" where
  "bitcoinRatesUSD =
     [(''2022-09-01'', 0x40d3544666666666), (''2022-09-02'', 0x410869f800000000), (''2022-09-03'', 0x40d35dd99999999a),
      (''2022-09-04'', 0x40d37c2ccccccccd), (''2022-09-05'', 0x40d3a78666666666)]"

definition one_f64 :: f64 where "one_f64 = 0x3ff0000000000000"

type_synonym rates = "(string, f64) gomap"

definition final_rates :: "string \<Rightarrow> api_rate list \<Rightarrow> rates" where
  "final_rates date reply =
     (let named = fold (\<lambda>r m. case mget isoToLongName (Quote r) of None \<Rightarrow> m | Some n \<Rightarrow> mput n (Rate r) m) reply [];
          usd = mput ''US Dollar'' one_f64 named
      in case mget bitcoinRatesUSD date of None \<Rightarrow> usd | Some btc \<Rightarrow> mput ''Bitcoin'' btc usd)"

section \<open>The address of the service\<close>

definition starts_with :: "string \<Rightarrow> string \<Rightarrow> bool" where
  "starts_with p s \<longleftrightarrow> take (length p) s = p"

fun contains :: "string \<Rightarrow> string \<Rightarrow> bool" where
  "contains p [] \<longleftrightarrow> p = []"
| "contains p (c # s) \<longleftrightarrow> starts_with p (c # s) \<or> contains p s"

text \<open>\<open>strings.ReplaceAll\<close> for a pattern that is not empty.\<close>

function replace_all :: "string \<Rightarrow> string \<Rightarrow> string \<Rightarrow> string" where
  "replace_all old new [] = []"
| "replace_all old new (c # s) =
     (if old \<noteq> [] \<and> starts_with old (c # s) then new @ replace_all old new (drop (length old) (c # s))
      else c # replace_all old new s)"
  by pat_completeness auto

termination by (relation "measure (\<lambda>(old, new, s). length s)") (auto simp: neq_Nil_conv)

definition build_rates_url :: "string \<Rightarrow> string \<Rightarrow> string" where
  "build_rates_url url date =
     (if contains ''{date}'' url then replace_all ''{date}'' date url
      else if contains ''date='' url then url
      else if contains ''?'' url then url @ ''&date='' @ date
      else url @ ''?date='' @ date)"

lemma build_rates_url_samples:
  "build_rates_url ''h/{date}/x'' ''D'' = ''h/D/x''" "build_rates_url ''h?date=1'' ''D'' = ''h?date=1''"
  "build_rates_url ''h?a=b'' ''D'' = ''h?a=b&date=D''" "build_rates_url ''h'' ''D'' = ''h?date=D''"
  by (simp_all add: build_rates_url_def starts_with_def)

section \<open>The converter\<close>

record converter =
  apiURL :: string
  ratesByDate :: "(string, rates) gomap"
  asked :: "string list" \<comment> \<open>the requests made so far\<close>

type_synonym service = "string list \<Rightarrow> string \<Rightarrow> response"

definition new_converter :: "string \<Rightarrow> converter" where
  "new_converter url = \<lparr>apiURL = url, ratesByDate = [], asked = []\<rparr>"

definition get_rates_for_date :: "service \<Rightarrow> string \<Rightarrow> converter \<Rightarrow> converter \<times> (go_error + rates)" where
  "get_rates_for_date svc date c =
     (case mget (ratesByDate c) date of
        Some rates \<Rightarrow> (c, Inr rates)
      | None \<Rightarrow>
          (let url = build_rates_url (apiURL c) date;
               c1 = c\<lparr>asked := asked c @ [url]\<rparr>
           in case svc (asked c) url of
                Unreachable \<Rightarrow> (c1, Inl (ErrOther ''http''))
              | BadStatus s \<Rightarrow> (c1, Inl (ErrOther ''unexpected exchange rate API status''))
              | Undecodable \<Rightarrow> (c1, Inl ErrParse)
              | RatesReply reply \<Rightarrow>
                  (let rates = final_rates date reply
                   in (c1\<lparr>ratesByDate := mput date rates (ratesByDate c1)\<rparr>, Inr rates))))"

definition f_is_zero :: "f64 \<Rightarrow> bool" where
  "f_is_zero w \<longleftrightarrow> f_magnitude w = 0"

definition ErrorCurrencyNotFound :: go_error where
  "ErrorCurrencyNotFound = ErrOther ''Currency not found''"

text \<open>The conversion with the rates of the date.\<close>

definition convert_with :: "float_ops \<Rightarrow> rates \<Rightarrow> string \<Rightarrow> f64 \<Rightarrow> go_error + f64" where
  "convert_with F rates currency amount =
     (case mget rates currency of
        None \<Rightarrow> Inl ErrorCurrencyNotFound
      | Some rate \<Rightarrow> if f_is_zero rate then Inl ErrorCurrencyNotFound else Inr (f_div F amount rate))"

definition convert_to_usd ::
  "float_ops \<Rightarrow> service \<Rightarrow> string \<Rightarrow> f64 \<Rightarrow> int \<Rightarrow> converter \<Rightarrow> converter \<times> (go_error + f64)" where
  "convert_to_usd F svc currency amount t c =
     (case get_rates_for_date svc (date_key t) c of
        (c1, Inl e) \<Rightarrow> (c1, Inl e)
      | (c1, Inr rates) \<Rightarrow> (c1, convert_with F rates currency amount))"

text \<open>A payment whose currency has no rate is dropped; any other error is returned.\<close>

definition converted_result :: "go_error + f64 \<Rightarrow> go_error + converted_amount list \<times> bool" where
  "converted_result r = (case r of
     Inl e \<Rightarrow> if e = ErrorCurrencyNotFound then Inr ([], False) else Inl e
   | Inr a \<Rightarrow> Inr ([\<lparr>converted = a\<rparr>], False))"

definition currency_converter ::
  "float_ops \<Rightarrow> service \<Rightarrow> (type_filtered, converted_amount, converter) processor" where
  "currency_converter F svc cid item c =
     (case f_parse F (tf_amount item) of
        None \<Rightarrow> (c, Inl ErrParse)
      | Some amount \<Rightarrow>
          (case convert_to_usd F svc (tf_currency item) amount (tf_time item) c of
             (c1, r) \<Rightarrow> (c1, converted_result r)))"


section \<open>The cache\<close>

text \<open>
  Every entry of the cache is what the service once answered for the date, and conversions read the
  cache only: the table of rates that the converter works with never changes once a date is in it.
\<close>

definition extends :: "converter \<Rightarrow> converter \<Rightarrow> bool" where
  "extends c c' \<longleftrightarrow> apiURL c' = apiURL c \<and> (\<forall>date r. mget (ratesByDate c) date = Some r \<longrightarrow> mget (ratesByDate c') date = Some r)"

lemma extends_refl [simp]: "extends c c"
  by (simp add: extends_def)

lemma extends_trans: "extends c c1 \<Longrightarrow> extends c1 c2 \<Longrightarrow> extends c c2"
  by (simp add: extends_def)

definition answered :: "service \<Rightarrow> converter \<Rightarrow> bool" where
  "answered svc c \<longleftrightarrow> (\<forall>date r. mget (ratesByDate c) date = Some r \<longrightarrow>
     (\<exists>n reply. svc (take n (asked c)) (build_rates_url (apiURL c) date) = RatesReply reply \<and> r = final_rates date reply \<and> n \<le> length (asked c)))"

lemma get_rates_step:
  assumes "get_rates_for_date svc date c = (c1, r)"
  shows "extends c c1" "answered svc c \<Longrightarrow> answered svc c1" "r = Inr rates \<Longrightarrow> mget (ratesByDate c1) date = Some rates"
    "mget (ratesByDate c) date \<noteq> None \<Longrightarrow> c1 = c"
proof -
  show "extends c c1" "r = Inr rates \<Longrightarrow> mget (ratesByDate c1) date = Some rates" "mget (ratesByDate c) date \<noteq> None \<Longrightarrow> c1 = c"
    using assms by (auto simp: get_rates_for_date_def extends_def Let_def mget_mput split: option.splits response.splits)
  have more: "answered svc c \<Longrightarrow> answered svc (c\<lparr>asked := asked c @ [u]\<rparr>)" for u
    unfolding answered_def by (simp, metis le_SucI take_append diff_is_0_eq take0 append_Nil2)
  assume a: "answered svc c"
  show "answered svc c1"
  proof (cases "mget (ratesByDate c) date")
    case None
    let ?u = "build_rates_url (apiURL c) date"
    show ?thesis
    proof (cases "svc (asked c) ?u")
      case (RatesReply reply)
      have "c1 = c\<lparr>asked := asked c @ [?u], ratesByDate := mput date (final_rates date reply) (ratesByDate c)\<rparr>"
        using assms None RatesReply by (auto simp: get_rates_for_date_def Let_def)
      moreover have "svc (take (length (asked c)) (asked c @ [?u])) ?u = RatesReply reply" using RatesReply by simp
      ultimately show ?thesis using more [OF a, of ?u] unfolding answered_def
        by (auto simp: mget_mput split: if_splits intro!: exI [of _ "length (asked c)"])
    qed (use assms None more [OF a, of ?u] in \<open>auto simp: get_rates_for_date_def Let_def\<close>)
  qed (use assms a in \<open>auto simp: get_rates_for_date_def\<close>)
qed

text \<open>What the results are with a fixed table of rates.\<close>

definition convert_item :: "float_ops \<Rightarrow> (string \<Rightarrow> rates option) \<Rightarrow> type_filtered \<Rightarrow> converted_amount list" where
  "convert_item F table item =
     (case f_parse F (tf_amount item) of
        None \<Rightarrow> []
      | Some amount \<Rightarrow>
          (case table (date_key (tf_time item)) of
             None \<Rightarrow> []
           | Some rates \<Rightarrow> (case convert_with F rates (tf_currency item) amount of Inl e \<Rightarrow> [] | Inr a \<Rightarrow> [\<lparr>converted = a\<rparr>])))"

lemma convert_with_error: "convert_with F rates cur a = Inl e \<Longrightarrow> e = ErrorCurrencyNotFound"
  by (auto simp: convert_with_def split: option.splits if_splits)

lemma converter_step:
  assumes "currency_converter F svc cid item c = (c1, r)"
  shows "extends c c1" "answered svc c \<Longrightarrow> answered svc c1"
    "r = Inr (rs, multi) \<Longrightarrow> extends c1 c2 \<Longrightarrow> rs = convert_item F (mget (ratesByDate c2)) item"
proof -
  obtain c' g where g: "get_rates_for_date svc (date_key (tf_time item)) c = (c', g)" by fastforce
  show "extends c c1" "answered svc c \<Longrightarrow> answered svc c1"
    using assms g get_rates_step(1,2) [OF g] by (auto simp: currency_converter_def convert_to_usd_def split: option.splits sum.splits)
  assume r: "r = Inr (rs, multi)" "extends c1 c2"
  obtain amount where amount: "f_parse F (tf_amount item) = Some amount"
    using assms r(1) by (auto simp: currency_converter_def split: option.splits)
  show "rs = convert_item F (mget (ratesByDate c2)) item"
  proof (cases g)
    case (Inl e)
    have "e \<noteq> ErrorCurrencyNotFound"
      using g Inl by (auto simp: get_rates_for_date_def ErrorCurrencyNotFound_def Let_def split: option.splits response.splits)
    then show ?thesis using assms r g Inl amount
      by (simp add: currency_converter_def convert_to_usd_def converted_result_def)
  next
    case (Inr rates)
    then have "mget (ratesByDate c') (date_key (tf_time item)) = Some rates" using get_rates_step(3) [OF g] by simp
    moreover have "c1 = c'" and res: "converted_result (convert_with F rates (tf_currency item) amount) = Inr (rs, multi)"
      using assms g Inr amount r by (simp_all add: currency_converter_def convert_to_usd_def)
    ultimately have "mget (ratesByDate c2) (date_key (tf_time item)) = Some rates" using r(2) by (simp add: extends_def)
    then show ?thesis using res amount convert_with_error
      by (auto simp: convert_item_def converted_result_def split: sum.splits)
  qed
qed

lemma run_converter:
  "run_items (currency_converter F svc) cid items c = (c', r) \<Longrightarrow>
     extends c c' \<and> (answered svc c \<longrightarrow> answered svc c') \<and>
     (\<forall>rs. r = Inr rs \<longrightarrow> rs = concat (map (convert_item F (mget (ratesByDate c'))) items))"
proof (induction items arbitrary: c c' r)
  case (Cons x xs)
  obtain c1 r1 where s: "currency_converter F svc cid x c = (c1, r1)" by fastforce
  note step = converter_step [OF s]
  show ?case
  proof (cases r1)
    case (Inl e)
    then show ?thesis using Cons.prems s step(1,2) by auto
  next
    case (Inr rm)
    obtain rs multi where rm: "rm = (rs, multi)" by fastforce
    obtain c2 r2 where c2: "run_items (currency_converter F svc) cid xs c1 = (c2, r2)" by fastforce
    have c': "c' = c2" "\<And>vs. r2 = Inr vs \<Longrightarrow> r = Inr (rs @ vs)" "\<And>e. r2 = Inl e \<Longrightarrow> r = Inl e"
      using Cons.prems s Inr rm c2 by (auto split: sum.splits)
    note IH = Cons.IH [OF c2]
    have "rs = convert_item F (mget (ratesByDate c2)) x" using step(3) [of rs multi c2] IH Inr rm by blast
    then show ?thesis using IH step(1,2) c' extends_trans by (cases r2) auto
  qed
qed simp

end
