(* ===== verification/ConversionPipeline.thy ===== *)
theory ConversionPipeline
  imports CurrencyConverter Routers
begin

text \<open>
  The query that counts the small payments, from the period filter to the joins: the stages as the
  builders of \<open>internal/factory\<close> connect them.

    ToConvertPeriodFilter - FormatFilter - CurrencyConverter - AmountFilter -
    ConvertedAmountJoinRouter - ConversionJoin (any number of workers)

  The gateway adds up the counts of the join workers (theory \<open>Gateway\<close>).
\<close>

record query =
  in_period :: period
  allowed_formats :: "string list"
  amount_limit :: f64

text \<open>The amounts that pass the stages before the joins.\<close>

definition small_amounts ::
  "float_ops \<Rightarrow> service \<Rightarrow> query \<Rightarrow> string \<Rightarrow> to_convert list \<Rightarrow> converter \<Rightarrow> converter \<times> (go_error + converted_amount list)" where
  "small_amounts F svc q cid items c =
     (case run_items (to_convert_period_filter (in_period q)) cid items () of
        (_, Inl e) \<Rightarrow> (c, Inl e)
      | (_, Inr dated) \<Rightarrow>
          (case run_items (format_filter (allowed_formats q)) cid dated () of
             (_, Inl e) \<Rightarrow> (c, Inl e)
           | (_, Inr formatted) \<Rightarrow>
               (case run_items (currency_converter F svc) cid formatted c of
                  (c1, Inl e) \<Rightarrow> (c1, Inl e)
                | (c1, Inr amounts) \<Rightarrow> (c1, snd (run_items (amount_filter (amount_limit q) converted) cid amounts ())))))"

definition count_worker :: "string \<Rightarrow> converted_amount list \<Rightarrow> int list" where
  "count_worker cid amounts =
     map payment_count (snd (fst (conversion_join_finalize cid collect (run_process (conversion_join_process cid) amounts new_conversion_join, []))))"

definition small_payments_query ::
  "float_ops \<Rightarrow> service \<Rightarrow> query \<Rightarrow> string list \<Rightarrow> string \<Rightarrow> to_convert list \<Rightarrow> converter \<Rightarrow> converter \<times> (go_error + int list)" where
  "small_payments_query F svc q joins cid items c =
     (case small_amounts F svc q cid items c of
        (c1, Inl e) \<Rightarrow> (c1, Inl e)
      | (c1, Inr amounts) \<Rightarrow>
          (c1, Inr (concat (map (\<lambda>r. count_worker cid (arriving r (routed_items (converted_join_router F joins) cid amounts))) joins))))"

section \<open>What the stages compute\<close>

lemma count_worker_length: "count_worker cid amounts = [int (length amounts)]"
proof -
  obtain p where p: "for_each (\<lambda>(c, x). conversion_join_process c x) (map (Pair cid) amounts) new_conversion_join = (p, None)"
    "conversion_count cid p = int (length (filter (\<lambda>i. fst i = cid) (map (Pair cid) amounts)))"
    using conversion_counts [of "map (Pair cid) amounts" new_conversion_join]
    by (auto simp: conversion_count_def new_conversion_join_def)
  have "filter (\<lambda>i. fst i = cid) (map (Pair cid) amounts) = map (Pair cid) amounts" by (induction amounts) simp_all
  then have "mget0 0 (clientResults p) cid = int (length amounts)" using p(2) by (simp add: conversion_count_def)
  then show ?thesis using p(1)
    by (simp add: count_worker_def run_process_def for_each_map conversion_join_finalize_def collect_def)
qed

text \<open>The items that count, for a table of rates.\<close>

definition type_filtered_of :: "to_convert \<Rightarrow> type_filtered" where
  "type_filtered_of x = \<lparr>tf_amount = tc_amount x, tf_currency = tc_currency x, tf_time = tc_time x\<rparr>"

definition small_amount :: "float_ops \<Rightarrow> (string \<Rightarrow> rates option) \<Rightarrow> query \<Rightarrow> to_convert \<Rightarrow> converted_amount list" where
  "small_amount F table q x =
     (if period_contains (in_period q) (tc_time x) \<and> tc_format x \<in> set (allowed_formats q)
      then filter (\<lambda>a. \<not> f_less_eq (amount_limit q) (converted a)) (convert_item F table (type_filtered_of x)) else [])"

lemma small_amounts_result:
  assumes "small_amounts F svc q cid items c = (c', Inr amounts)"
  shows "amounts = concat (map (small_amount F (mget (ratesByDate c')) q) items)" "answered svc c \<Longrightarrow> answered svc c'"
proof -
  let ?dated = "concat (map (\<lambda>x. if \<not> period_contains (in_period q) (tc_time x) then [] else [x]) items)"
  let ?formatted = "concat (map (\<lambda>x. if \<not> is_allowed_format (allowed_formats q) (tc_format x) then [] else [type_filtered_of x]) ?dated)"
  obtain c1 r where r: "run_items (currency_converter F svc) cid ?formatted c = (c1, r)" by fastforce
  have same: "\<lparr>tc_time = tc_time x, tc_amount = tc_amount x, tc_currency = tc_currency x, tc_format = tc_format x\<rparr> = x" for x :: to_convert
    by (cases x) simp
  have f: "run_items (to_convert_period_filter (in_period q)) cid items () = ((), Inr ?dated)"
    "run_items (format_filter (allowed_formats q)) cid ?dated () = ((), Inr ?formatted)"
    unfolding to_convert_period_filter_def format_filter_def run_pure type_filtered_of_def same by simp_all
  have af: "run_items (amount_filter (amount_limit q) converted) cid vs () =
      ((), Inr (concat (map (\<lambda>a. if f_less_eq (amount_limit q) (converted a) then [] else [a]) vs)))" for vs
    unfolding amount_filter_def run_pure ..
  obtain vs where vs: "r = Inr vs" "c' = c1" "amounts = concat (map (\<lambda>a. if f_less_eq (amount_limit q) (converted a) then [] else [a]) vs)"
    using assms r f by (cases r) (auto simp: small_amounts_def af)
  note conv = run_converter [OF r]
  show "answered svc c \<Longrightarrow> answered svc c'" using conv vs(2) by blast
  have "vs = concat (map (convert_item F (mget (ratesByDate c'))) ?formatted)" using conv vs(1,2) by blast
  moreover have "concat (map (\<lambda>a. if P a then [] else [a]) xs) = filter (\<lambda>a. \<not> P a) xs" for P and xs :: "converted_amount list"
    by (induction xs) simp_all
  ultimately have "amounts = filter (\<lambda>a. \<not> f_less_eq (amount_limit q) (converted a)) (concat (map (convert_item F (mget (ratesByDate c'))) ?formatted))"
    using vs(3) by simp
  also have "\<dots> = concat (map (small_amount F (mget (ratesByDate c')) q) items)"
    by (induction items) (simp_all add: small_amount_def is_allowed_format_def)
  finally show "amounts = concat (map (small_amount F (mget (ratesByDate c')) q) items)" .
qed

lemma convert_item_at_most_one: "length (convert_item F table x) \<le> 1"
  by (simp add: convert_item_def split: option.split sum.split)

lemma lengths_by_key:
  assumes "\<And>x. h x \<in> set rs" "distinct rs"
  shows "sum_list (map (\<lambda>r. length (filter (\<lambda>x. h x = r) xs)) rs) = length xs"
proof -
  have "(\<Sum>r \<in> set rs. length (filter (\<lambda>x. h x = r) xs)) = length xs"
  proof (induction xs)
    case (Cons x xs)
    have "(\<Sum>r \<in> set rs. length (filter (\<lambda>x. h x = r) (x # xs))) =
        (\<Sum>r \<in> set rs. (if h x = r then 1 else 0) + length (filter (\<lambda>x. h x = r) xs))"
      by (rule sum.cong) simp_all
    also have "\<dots> = 1 + length xs" using assms(1) [of x] Cons by (simp add: sum.distrib)
    finally show ?case by simp
  qed simp
  then show ?thesis using assms(2) by (simp add: sum_list_distinct_conv_sum_set)
qed

section \<open>Properties\<close>

text \<open>
  C2. The small payments are counted exactly. Whenever the stages get through a client's payments, the counts of the
  join workers add up to the number of payments that lie in the period, have an allowed format, and whose amount,
  converted with the rates of their day, is not above the limit; all the payments of a day are converted with the same
  rates, those of one answer of the service, even if its answers change while the query runs.
\<close>

theorem small_payments_are_counted:
  assumes "good_routes joins" "distinct joins" "answered svc c"
    and "small_payments_query F svc q joins cid items c = (c', Inr counts)"
  shows "length counts = length joins \<and> answered svc c' \<and>
    sum_list counts = int (length (filter (\<lambda>x. period_contains (in_period q) (tc_time x) \<and> tc_format x \<in> set (allowed_formats q) \<and>
      (\<exists>a. convert_item F (mget (ratesByDate c')) (type_filtered_of x) = [\<lparr>converted = a\<rparr>] \<and> \<not> f_less_eq (amount_limit q) a)) items))"
proof -
  obtain amounts where a: "small_amounts F svc q cid items c = (c', Inr amounts)"
    and counts: "counts = concat (map (\<lambda>r. count_worker cid (arriving r (routed_items (converted_join_router F joins) cid amounts))) joins)"
    using assms(4) by (auto simp: small_payments_query_def split: prod.splits sum.splits)
  let ?table = "mget (ratesByDate c')" and ?h = "\<lambda>x. route_of joins (bytes (f_show2 F (converted x)))"
  have c: "counts = map (\<lambda>r. int (length (filter (\<lambda>x. ?h x = r) amounts))) joins"
    unfolding counts arriving_routes_by [OF single_routers(4) [OF assms(1)]] count_worker_length by (induction joins) simp_all
  have "sum_list counts = int (sum_list (map (\<lambda>r. length (filter (\<lambda>x. ?h x = r) amounts)) joins))"
    unfolding c by (simp add: comp_def flip: sum_list_of_nat)
  also have "\<dots> = int (length amounts)" by (subst lengths_by_key) (use route_of_in_range [OF assms(1)] assms(2) in simp_all)
  also have "length amounts = length (filter (\<lambda>x. small_amount F ?table q x \<noteq> []) items)"
  proof -
    have "length (small_amount F ?table q x) = (if small_amount F ?table q x \<noteq> [] then 1 else 0)" for x
      using convert_item_at_most_one [of F ?table "type_filtered_of x"]
      by (cases "convert_item F ?table (type_filtered_of x)") (auto simp: small_amount_def)
    then show ?thesis unfolding small_amounts_result(1) [OF a] by (induction items) simp_all
  qed
  also have "(\<lambda>x. small_amount F ?table q x \<noteq> []) = (\<lambda>x. period_contains (in_period q) (tc_time x) \<and> tc_format x \<in> set (allowed_formats q) \<and>
      (\<exists>a. convert_item F ?table (type_filtered_of x) = [\<lparr>converted = a\<rparr>] \<and> \<not> f_less_eq (amount_limit q) a))"
  proof
    fix x
    have single: "convert_item F ?table (type_filtered_of x) = [] \<or> (\<exists>a. convert_item F ?table (type_filtered_of x) = [\<lparr>converted = a\<rparr>])"
      by (simp add: convert_item_def split: option.split sum.split)
    then show "(small_amount F ?table q x \<noteq> []) = (period_contains (in_period q) (tc_time x) \<and> tc_format x \<in> set (allowed_formats q) \<and>
      (\<exists>a. convert_item F ?table (type_filtered_of x) = [\<lparr>converted = a\<rparr>] \<and> \<not> f_less_eq (amount_limit q) a))"
      by (auto simp: small_amount_def)
  qed
  finally show ?thesis using small_amounts_result(2) [OF a assms(3)] by (simp add: c)
qed

text \<open>Two payments on the same day, in dollars, of which one is small; the service answers once and then never again.\<close>

definition sample_service :: service where
  "sample_service past url = (if past = [] then RatesReply [\<lparr>Quote = ''EUR'', Rate = 2\<rparr>] else Unreachable)"

definition sample_query :: query where
  "sample_query = \<lparr>in_period = \<lparr>StartDate = 0, EndDate = 10\<rparr>, allowed_formats = [''Wire''], amount_limit = 6\<rparr>"

definition sample_payments :: "to_convert list" where
  "sample_payments = [\<lparr>tc_time = 0, tc_amount = ''5'', tc_currency = ''US Dollar'', tc_format = ''Wire''\<rparr>,
     \<lparr>tc_time = 0, tc_amount = ''7'', tc_currency = ''US Dollar'', tc_format = ''Wire''\<rparr>,
     \<lparr>tc_time = 0, tc_amount = ''5'', tc_currency = ''US Dollar'', tc_format = ''Cheque''\<rparr>]"

definition plain_floats :: float_ops where
  "plain_floats = sample_floats\<lparr>f_div := \<lambda>a b. a, f_show2 := \<lambda>a. ''x''\<rparr>"

theorem small_payments_are_counted_witness:
  "\<exists>c' counts. small_payments_query plain_floats sample_service sample_query [''j.0'', ''j.1''] ''c'' sample_payments (new_converter ''h'') = (c', Inr counts) \<and>
     length counts = 2 \<and> sum_list counts = 1"
proof -
  let ?q = "small_payments_query plain_floats sample_service sample_query [''j.0'', ''j.1''] ''c'' sample_payments (new_converter ''h'')"
  note eval = small_payments_query_def small_amounts_def sample_payments_def sample_query_def to_convert_period_filter_def
        format_filter_def is_allowed_format_def period_contains_def currency_converter_def plain_floats_def sample_floats_def
        convert_to_usd_def get_rates_for_date_def date_key_samples sample_service_def new_converter_def Let_def
        final_rates_def isoToLongName_def bitcoinRatesUSD_def convert_with_def converted_result_def one_f64_def f_is_zero_def f_magnitude_def
        amount_filter_def
  have run: "snd ?q \<noteq> Inl e" for e by (simp add: eval split: prod.split sum.split)
  have table: "\<exists>rates. mget (ratesByDate (fst ?q)) ''1970-01-01'' = Some rates \<and> mget rates ''US Dollar'' = Some one_f64"
    by (simp add: eval split: prod.split sum.split)
  obtain c' counts where q: "?q = (c', Inr counts)" using run by (metis sum.exhaust prod.collapse)
  obtain rates where rates: "mget (ratesByDate c') ''1970-01-01'' = Some rates" "mget rates ''US Dollar'' = Some one_f64"
    using table q by auto
  have "good_routes [''j.0'', ''j.1'']" "distinct [''j.0'', ''j.1'']" "answered sample_service (new_converter ''h'')"
    by (simp_all add: good_routes_def answered_def new_converter_def)
  note counted = small_payments_are_counted [OF this q]
  have "f_less_eq 6 7" "\<not> f_less_eq 6 5" by (simp_all add: f_less_eq_def f_is_nan_def f_key_def f_magnitude_def)
  then have "length (filter (\<lambda>x. period_contains (in_period sample_query) (tc_time x) \<and> tc_format x \<in> set (allowed_formats sample_query) \<and>
      (\<exists>a. convert_item plain_floats (mget (ratesByDate c')) (type_filtered_of x) = [\<lparr>converted = a\<rparr>] \<and>
        \<not> f_less_eq (amount_limit sample_query) a)) sample_payments) = 1"
    using rates by (simp add: sample_payments_def sample_query_def period_contains_def convert_item_def type_filtered_of_def
      plain_floats_def sample_floats_def date_key_samples convert_with_def one_f64_def f_is_zero_def f_magnitude_def)
  then show ?thesis using counted q by (intro exI [of _ c'] exI [of _ counts]) simp
qed

end
