(* ===== verification/External.thy ===== *)
theory External
  imports Messages
begin

text \<open>
  \<open>internal/common/external\<close>: the protocol between a client and the gateway on a TCP connection
  (\<open>external.go\<close>), with its serializer and its socket. A message is a byte for its type and
  fields with big-endian lengths.

  The connection is the bytes that the peer writes before it closes, the way the network cuts
  them into reads, and the number of bytes that it will still take before a write fails.
\<close>

section \<open>The socket\<close>

record connection =
  incoming :: "u8 list"
  cuts :: "nat list" \<comment> \<open>how many bytes the coming reads return, less one; all there are when the list is over\<close>
  read_fault :: go_error \<comment> \<open>how the incoming stream ends\<close>
  outgoing :: "u8 list"
  room :: "nat option" \<comment> \<open>how many more bytes can be written; \<open>None\<close> is no limit\<close>
  write_fault :: go_error

text \<open>\<open>conn.Read\<close> into a buffer of \<open>n\<close> bytes, \<open>n > 0\<close>: at least one byte or an error.\<close>

definition conn_read :: "nat \<Rightarrow> connection \<Rightarrow> connection \<times> (go_error + u8 list)" where
  "conn_read n s =
     (if incoming s = [] then (s, Inl (read_fault s))
      else let k = (case cuts s of [] \<Rightarrow> n | c # cs \<Rightarrow> min n (Suc c))
           in (s\<lparr>incoming := drop k (incoming s), cuts := tl (cuts s)\<rparr>, Inr (take k (incoming s))))"

text \<open>The loop of \<open>ReadAll\<close>, with what it has received so far.\<close>

lemma conn_read_progress:
  assumes "conn_read n s = (s', Inr d)" "0 < n"
  shows "d \<noteq> []" "length d \<le> n" "d @ incoming s' = incoming s" "read_fault s' = read_fault s"
    "outgoing s' = outgoing s" "room s' = room s" "write_fault s' = write_fault s"
proof -
  let ?k = "case cuts s of [] \<Rightarrow> n | c # cs \<Rightarrow> min n (Suc c)"
  have k: "0 < ?k" "?k \<le> n" using assms(2) by (auto split: list.split)
  have "incoming s \<noteq> []" "d = take ?k (incoming s)" "s' = s\<lparr>incoming := drop ?k (incoming s), cuts := tl (cuts s)\<rparr>"
    using assms(1) by (auto simp: conn_read_def Let_def split: if_splits)
  then show "d \<noteq> []" "length d \<le> n" "d @ incoming s' = incoming s" "read_fault s' = read_fault s"
    "outgoing s' = outgoing s" "room s' = room s" "write_fault s' = write_fault s" using k by auto
qed

lemma read_shrinks:
  "length got < n \<Longrightarrow> conn_read (n - length got) s = (s', Inr d) \<Longrightarrow> n - (length got + length d) < n - length got"
  using conn_read_progress(1) [of "n - length got" s s' d] by (cases d) auto

function read_loop :: "nat \<Rightarrow> u8 list \<Rightarrow> connection \<Rightarrow> connection \<times> (go_error + u8 list)" where
  "read_loop n got s =
     (if length got < n
      then case conn_read (n - length got) s of
             (s', Inl e) \<Rightarrow> (s', Inl e)
           | (s', Inr d) \<Rightarrow> read_loop n (got @ d) s'
      else (s, Inr got))"
  by pat_completeness auto

termination
  by (relation "measure (\<lambda>(n, got, s). n - length got)") (auto simp: read_shrinks [OF _ sym])

declare read_loop.simps [simp del]

definition read_all :: "nat \<Rightarrow> connection \<Rightarrow> connection \<times> (go_error + u8 list)" where
  "read_all n s = read_loop n [] s"

text \<open>\<open>conn.Write\<close> writes everything or returns an error with the number of bytes written, so the loop of \<open>WriteAll\<close> runs once.\<close>

definition write_all :: "u8 list \<Rightarrow> connection act" where
  "write_all data s =
     (case room s of
        None \<Rightarrow> (s\<lparr>outgoing := outgoing s @ data\<rparr>, None)
      | Some r \<Rightarrow>
          if length data \<le> r then (s\<lparr>outgoing := outgoing s @ data, room := Some (r - length data)\<rparr>, None)
          else (s\<lparr>outgoing := outgoing s @ take r data, room := Some 0\<rparr>, Some (write_fault s)))"

text \<open>The state after \<open>n\<close> bytes were read, whatever is left of the cuts.\<close>

lemma read_loop_enough:
  assumes "length got \<le> n" "n - length got \<le> length (incoming s)"
  shows "\<exists>cs. read_loop n got s = (s\<lparr>incoming := drop (n - length got) (incoming s), cuts := cs\<rparr>, Inr (got @ take (n - length got) (incoming s)))"
  using assms
proof (induction n got s rule: read_loop.induct)
  case (1 n got s)
  show ?case
  proof (cases "length got < n")
    case True
    then have "incoming s \<noteq> []" using "1.prems" by auto
    then obtain s' d where r: "conn_read (n - length got) s = (s', Inr d)" by (auto simp: conn_read_def Let_def)
    note p = conn_read_progress [OF r]
    have d: "length d \<le> n - length got" "d @ incoming s' = incoming s" using p True by auto
    have len: "length (incoming s) = length d + length (incoming s')" using d(2) by (metis length_append)
    have pr: "length (got @ d) \<le> n" "n - length (got @ d) \<le> length (incoming s')"
      using d(1) len "1.prems" True by auto
    obtain cs where "read_loop n (got @ d) s' = (s'\<lparr>incoming := drop (n - length (got @ d)) (incoming s'), cuts := cs\<rparr>,
        Inr ((got @ d) @ take (n - length (got @ d)) (incoming s')))"
      using "1.IH" [OF True r [symmetric] refl pr] by blast
    moreover have "take (n - length got) (incoming s) = d @ take (n - length (got @ d)) (incoming s')"
      "drop (n - length got) (incoming s) = drop (n - length (got @ d)) (incoming s')"
      using d(1) by (simp_all add: d(2) [symmetric])
    moreover have "read_loop n got s = read_loop n (got @ d) s'" using True r by (simp add: read_loop.simps [of n got s])
    moreover have "s'\<lparr>incoming := x, cuts := cs\<rparr> = s\<lparr>incoming := x, cuts := cs\<rparr>" for x cs
      by (rule connection.equality) (use p(4-7) True in simp_all)
    ultimately show ?thesis by (intro exI [of _ cs]) simp
  qed (use "1.prems" in \<open>auto simp: read_loop.simps [of n got s] intro!: exI [of _ "cuts s"]\<close>)
qed

lemma read_all_enough:
  "n \<le> length (incoming s) \<Longrightarrow>
     \<exists>cs. read_all n s = (s\<lparr>incoming := drop n (incoming s), cuts := cs\<rparr>, Inr (take n (incoming s)))"
  using read_loop_enough [of "[]" n s] by (simp add: read_all_def)

section \<open>The serializer\<close>

definition serialize_uint16 :: "u16 \<Rightarrow> u8 list" where
  "serialize_uint16 w = [ucast (drop_bit 8 w), ucast w]"

definition deserialize_uint16 :: "u8 list \<Rightarrow> u16" where
  "deserialize_uint16 bs = or (push_bit 8 (ucast (bs ! 0))) (ucast (bs ! 1))"

definition serialize_uint32 :: "u32 \<Rightarrow> u8 list" where
  "serialize_uint32 w = [ucast (drop_bit 24 w), ucast (drop_bit 16 w), ucast (drop_bit 8 w), ucast w]"

definition deserialize_uint32 :: "u8 list \<Rightarrow> u32" where
  "deserialize_uint32 bs =
     or (or (or (push_bit 24 (ucast (bs ! 0))) (push_bit 16 (ucast (bs ! 1)))) (push_bit 8 (ucast (bs ! 2)))) (ucast (bs ! 3))"

lemma length_serialize [simp]: "length (serialize_uint16 w) = 2" "length (serialize_uint32 v) = 4"
  by (simp_all add: serialize_uint16_def serialize_uint32_def)

lemma uint16_round_trip [simp]: "deserialize_uint16 (serialize_uint16 w) = w"
  unfolding deserialize_uint16_def serialize_uint16_def
  by (rule bit_word_eqI) (auto simp: bit_simps nth_Cons')

lemma four_bytes:
  fixes w :: u32
  shows "or (or (or (push_bit 24 (ucast (ucast (drop_bit 24 w) :: u8))) (push_bit 16 (ucast (ucast (drop_bit 16 w) :: u8))))
    (push_bit 8 (ucast (ucast (drop_bit 8 w) :: u8)))) (ucast (ucast w :: u8)) = w"
proof (rule bit_word_eqI)
  fix n
  assume "n < LENGTH(32)"
  then consider "n < 8" | "8 \<le> n" "n < 16" | "16 \<le> n" "n < 24" | "24 \<le> n" "n < 32" by fastforce
  then show "bit (or (or (or (push_bit 24 (ucast (ucast (drop_bit 24 w) :: u8))) (push_bit 16 (ucast (ucast (drop_bit 16 w) :: u8))))
    (push_bit 8 (ucast (ucast (drop_bit 8 w) :: u8)))) (ucast (ucast w :: u8)) :: u32) n = bit w n"
    by cases (auto simp: bit_simps)
qed

lemma uint32_round_trip [simp]: "deserialize_uint32 (serialize_uint32 w) = w"
  using four_bytes [of w] by (simp add: deserialize_uint32_def serialize_uint32_def)

section \<open>The types of the messages\<close>

definition transactionBatch :: u8 where "transactionBatch = 1"
definition accountBatch :: u8 where "accountBatch = 2"
definition microtransactionResult :: u8 where "microtransactionResult = 3"
definition maxBankResult :: u8 where "maxBankResult = 4"
definition convertedMicroPaymentResult :: u8 where "convertedMicroPaymentResult = 5"
definition avgByTypeResult :: u8 where "avgByTypeResult = 6"
definition suspiciousAccountsResult :: u8 where "suspiciousAccountsResult = 7"
definition eof_type :: u8 where "eof_type = 8"
definition ack_type :: u8 where "ack_type = 9"
definition nack_type :: u8 where "nack_type = 10"

lemmas type_codes = transactionBatch_def accountBatch_def microtransactionResult_def maxBankResult_def
  convertedMicroPaymentResult_def avgByTypeResult_def suspiciousAccountsResult_def eof_type_def ack_type_def nack_type_def

text \<open>A transaction or an account is the line of the file it comes from.\<close>

datatype request = TransactionBatch "string list" | AccountBatch "string list" | RequestEOF

datatype result =
    MicrotransactionResult string string f64
  | MaxBankResult string string string
  | ConvertedMicroPaymentResult int
  | AvgByTypeResult string string
  | SuspiciousAccountsResult "(i32 \<times> string) list"
  | ResultEOF

section \<open>Sending\<close>

definition send_msg_type :: "u8 \<Rightarrow> connection act" where
  "send_msg_type t = write_all [t]"

definition header_size :: int where "header_size = 3"

definition record_size :: "string \<Rightarrow> int" where
  "record_size r = 2 + int (length r)"

definition record_bytes :: "string \<Rightarrow> u8 list" where
  "record_bytes r = serialize_uint16 (word_of_nat (length r)) @ bytes r"

definition batch_bytes :: "u8 \<Rightarrow> string list \<Rightarrow> u8 list" where
  "batch_bytes t rs = t # serialize_uint16 (word_of_nat (length rs)) @ concat (map record_bytes rs)"

definition send_transaction_batch :: "string list \<Rightarrow> connection act" where
  "send_transaction_batch rs = (if rs = [] then ok else write_all (batch_bytes transactionBatch rs))"

definition send_account_batch :: "string list \<Rightarrow> connection act" where
  "send_account_batch rs = (if rs = [] then ok else write_all (batch_bytes accountBatch rs))"

definition send_record :: "u8 \<Rightarrow> string \<Rightarrow> connection act" where
  "send_record t r = seq_acts [send_msg_type t, write_all (record_bytes r)]"

definition send_microtransaction_result :: "float_ops \<Rightarrow> (string \<times> string \<times> f64) list \<Rightarrow> connection act" where
  "send_microtransaction_result F rs = for_each (\<lambda>(a, b, x). send_record microtransactionResult (a @ COMMA # b @ COMMA # f_show6 F x)) rs"

definition send_max_bank_result :: "maxbank_result list \<Rightarrow> connection act" where
  "send_max_bank_result rs =
     for_each (\<lambda>r. send_record maxBankResult (mr_bank_name r @ COMMA # mr_account r @ COMMA # mr_amount r)) rs"

text \<open>The count is cut to 32 bits.\<close>

definition send_converted_result :: "int \<Rightarrow> connection act" where
  "send_converted_result n = seq_acts [send_msg_type convertedMicroPaymentResult, write_all (serialize_uint32 (word_of_int n))]"

definition send_avg_result :: "avg_result \<Rightarrow> connection act" where
  "send_avg_result r = send_record avgByTypeResult (ar_account r @ COMMA # ar_amount r)"

definition send_suspicious_result :: "account list \<Rightarrow> connection act" where
  "send_suspicious_result as =
     for_each (\<lambda>a. send_record suspiciousAccountsResult (show_int (sint (bank a)) @ COMMA # account_name a)) as"

definition send_eof_type :: "connection act" where "send_eof_type = send_msg_type eof_type"
definition send_ack :: "connection act" where "send_ack = send_msg_type ack_type"
definition send_nack :: "connection act" where "send_nack = send_msg_type nack_type"

section \<open>Receiving\<close>

type_synonym 'a recv = "connection \<Rightarrow> connection \<times> (go_error + 'a)"

definition recv_then :: "'a recv \<Rightarrow> ('a \<Rightarrow> 'b recv) \<Rightarrow> 'b recv" where
  "recv_then m f s = (case m s of (s', Inl e) \<Rightarrow> (s', Inl e) | (s', Inr a) \<Rightarrow> f a s')"

definition recv_done :: "'a \<Rightarrow> 'a recv" where
  "recv_done a s = (s, Inr a)"

definition recv_fail :: "go_error \<Rightarrow> 'a recv" where
  "recv_fail e s = (s, Inl e)"

definition receive_msg_type :: "u8 recv" where
  "receive_msg_type = recv_then (read_all 1) (\<lambda>bs. recv_done (hd bs))"

definition receive_record :: "string recv" where
  "receive_record = recv_then (read_all 2) (\<lambda>l.
     recv_then (read_all (unat (deserialize_uint16 l))) (\<lambda>bs. recv_done (unbytes bs)))"

fun receive_records :: "nat \<Rightarrow> string list recv" where
  "receive_records 0 = recv_done []"
| "receive_records (Suc n) = recv_then receive_record (\<lambda>r. recv_then (receive_records n) (\<lambda>rs. recv_done (r # rs)))"

definition receive_batch :: "string list recv" where
  "receive_batch = recv_then (read_all 2) (\<lambda>l. receive_records (unat (deserialize_uint16 l)))"

definition receive_msg :: "request recv" where
  "receive_msg = recv_then receive_msg_type (\<lambda>t.
     if t = transactionBatch then recv_then receive_batch (\<lambda>rs. recv_done (TransactionBatch rs))
     else if t = accountBatch then recv_then receive_batch (\<lambda>rs. recv_done (AccountBatch rs))
     else if t = eof_type then recv_done RequestEOF
     else recv_fail ErrInvalidType)"

definition receive_avg_result :: "result recv" where
  "receive_avg_result = recv_then receive_record (\<lambda>r. case split_on COMMA r of
     [a, x] \<Rightarrow> recv_done (AvgByTypeResult a x) | _ \<Rightarrow> recv_fail ErrParse)"

definition receive_microtransaction_result :: "float_ops \<Rightarrow> result recv" where
  "receive_microtransaction_result F = recv_then receive_record (\<lambda>r. case split_on COMMA r of
     [a, b, x] \<Rightarrow> (case f_parse F x of None \<Rightarrow> recv_fail ErrParse | Some f \<Rightarrow> recv_done (MicrotransactionResult a b f))
   | _ \<Rightarrow> recv_fail ErrParse)"

definition receive_max_bank_result :: "result recv" where
  "receive_max_bank_result = recv_then receive_record (\<lambda>r. case split_on COMMA r of
     [n, a, x] \<Rightarrow> recv_done (MaxBankResult n a x) | _ \<Rightarrow> recv_fail ErrParse)"

definition receive_converted_result :: "result recv" where
  "receive_converted_result = recv_then (read_all 4) (\<lambda>bs. recv_done (ConvertedMicroPaymentResult (uint (deserialize_uint32 bs))))"

definition receive_suspicious_result :: "result recv" where
  "receive_suspicious_result = recv_then receive_record (\<lambda>r. case split_on COMMA r of
     [b, a] \<Rightarrow> (case atoi b of None \<Rightarrow> recv_fail ErrParse | Some i \<Rightarrow> recv_done (SuspiciousAccountsResult [(word_of_int i, a)]))
   | _ \<Rightarrow> recv_fail ErrParse)"

definition receive_result :: "float_ops \<Rightarrow> result recv" where
  "receive_result F = recv_then receive_msg_type (\<lambda>t.
     if t = microtransactionResult then receive_microtransaction_result F
     else if t = maxBankResult then receive_max_bank_result
     else if t = avgByTypeResult then receive_avg_result
     else if t = eof_type then recv_done ResultEOF
     else if t = convertedMicroPaymentResult then receive_converted_result
     else if t = suspiciousAccountsResult then receive_suspicious_result
     else recv_fail (ErrOther ''protocol error: invalid message type''))"

text \<open>The first byte of what was read is taken before the error of the read is looked at: a panic.\<close>

definition wait_ack :: "connection act" where
  "wait_ack s = (case read_all 1 s of
     (s', Inl e) \<Rightarrow> (s', Some Panic)
   | (s', Inr bs) \<Rightarrow> (s', if hd bs \<noteq> ack_type then Some ErrNoAck else None))"

section \<open>What arrives is what was sent\<close>

text \<open>A receiver that takes exactly the bytes \<open>bs\<close> from any stream that starts with them, and returns \<open>a\<close>.\<close>

definition consumes :: "'a recv \<Rightarrow> u8 list \<Rightarrow> 'a \<Rightarrow> bool" where
  "consumes m bs a \<longleftrightarrow> (\<forall>s rest. incoming s = bs @ rest \<longrightarrow> (\<exists>cs. m s = (s\<lparr>incoming := rest, cuts := cs\<rparr>, Inr a)))"

lemma consumes_read_all: "length bs = n \<Longrightarrow> consumes (read_all n) bs bs"
  unfolding consumes_def
proof (intro allI impI)
  fix s :: connection and rest
  assume "length bs = n" "incoming s = bs @ rest"
  then show "\<exists>cs. read_all n s = (s\<lparr>incoming := rest, cuts := cs\<rparr>, Inr bs)" using read_all_enough [of n s] by simp
qed

lemma consumes_done [simp]: "consumes (recv_done a) [] a"
  unfolding consumes_def recv_done_def
proof (intro allI impI)
  fix s :: connection and rest
  assume "incoming s = [] @ rest"
  then have "s = s\<lparr>incoming := rest, cuts := cuts s\<rparr>" by simp
  then show "\<exists>cs. (s, Inr a) = (s\<lparr>incoming := rest, cuts := cs\<rparr>, Inr a)" by blast
qed

lemma consumes_then:
  assumes "consumes m bs a" "consumes (f a) cs b" "ds = bs @ cs"
  shows "consumes (recv_then m f) ds b"
  unfolding consumes_def
proof (intro allI impI)
  fix s :: connection and rest
  assume "incoming s = ds @ rest"
  then obtain k where m: "m s = (s\<lparr>incoming := cs @ rest, cuts := k\<rparr>, Inr a)"
    using assms(1,3) unfolding consumes_def by (metis append.assoc)
  have "incoming (s\<lparr>incoming := cs @ rest, cuts := k\<rparr>) = cs @ rest" by simp
  then obtain k' where "f a (s\<lparr>incoming := cs @ rest, cuts := k\<rparr>) =
      (s\<lparr>incoming := cs @ rest, cuts := k\<rparr>\<lparr>incoming := rest, cuts := k'\<rparr>, Inr b)"
    using assms(2) unfolding consumes_def by blast
  then show "\<exists>cs. recv_then m f s = (s\<lparr>incoming := rest, cuts := cs\<rparr>, Inr b)"
    by (intro exI [of _ k']) (simp add: recv_then_def m)
qed

lemma consumes_then_done: "consumes m bs a \<Longrightarrow> f a = recv_done b \<Longrightarrow> consumes (recv_then m f) bs b"
  using consumes_then [of m bs a f "[]" b bs] by simp

lemma consumes_type: "consumes receive_msg_type [t] t"
  unfolding receive_msg_type_def
  by (rule consumes_then [OF consumes_read_all [of "[t]"]]) (simp_all flip: One_nat_def)

lemma consumes_record:
  assumes "length r < 2 ^ 16"
  shows "consumes receive_record (record_bytes r) r"
proof -
  have "unat (word_of_nat (length r) :: u16) = length r" using assms by (simp add: unsigned_of_nat take_bit_nat_eq_self)
  then show ?thesis unfolding receive_record_def record_bytes_def
    by (intro consumes_then [OF consumes_read_all [of "serialize_uint16 (word_of_nat (length r))" 2]]
        consumes_then [OF consumes_read_all [of "bytes r"]]) simp_all
qed

lemma consumes_records:
  "\<forall>r \<in> set rs. length r < 2 ^ 16 \<Longrightarrow> consumes (receive_records (length rs)) (concat (map record_bytes rs)) rs"
proof (induction rs)
  case (Cons r rs)
  have "consumes (recv_then (receive_records (length rs)) (\<lambda>rs. recv_done (r # rs))) (concat (map record_bytes rs)) (r # rs)"
    by (rule consumes_then_done) (use Cons in simp_all)
  moreover have "consumes receive_record (record_bytes r) r" using Cons.prems by (simp add: consumes_record)
  ultimately show ?case
    by (simp, intro consumes_then [where m = receive_record and a = r and bs = "record_bytes r"]) simp_all
qed simp

lemma consumes_batch:
  assumes "length rs < 2 ^ 16" "\<forall>r \<in> set rs. length r < 2 ^ 16"
  shows "consumes receive_batch (serialize_uint16 (word_of_nat (length rs)) @ concat (map record_bytes rs)) rs"
proof -
  have "unat (word_of_nat (length rs) :: u16) = length rs" using assms(1) by (simp add: unsigned_of_nat take_bit_nat_eq_self)
  then show ?thesis unfolding receive_batch_def using consumes_records [OF assms(2)]
    by (intro consumes_then [OF consumes_read_all [of "serialize_uint16 (word_of_nat (length rs))" 2]]) simp_all
qed

text \<open>The bytes of a request, and of a result.\<close>

fun request_bytes :: "request \<Rightarrow> u8 list" where
  "request_bytes (TransactionBatch rs) = batch_bytes transactionBatch rs"
| "request_bytes (AccountBatch rs) = batch_bytes accountBatch rs"
| "request_bytes RequestEOF = [eof_type]"

fun good_request :: "request \<Rightarrow> bool" where
  "good_request (TransactionBatch rs) \<longleftrightarrow> length rs < 2 ^ 16 \<and> (\<forall>r \<in> set rs. length r < 2 ^ 16)"
| "good_request (AccountBatch rs) \<longleftrightarrow> length rs < 2 ^ 16 \<and> (\<forall>r \<in> set rs. length r < 2 ^ 16)"
| "good_request RequestEOF \<longleftrightarrow> True"

lemma consumes_request:
  assumes "good_request q"
  shows "consumes receive_msg (request_bytes q) q"
proof (cases q)
  case (TransactionBatch rs)
  show ?thesis unfolding receive_msg_def TransactionBatch
    by (rule consumes_then [OF consumes_type [of transactionBatch]])
      (use assms in \<open>auto simp: TransactionBatch batch_bytes_def intro!: consumes_then_done [OF consumes_batch]\<close>)
next
  case (AccountBatch rs)
  show ?thesis unfolding receive_msg_def AccountBatch
    by (rule consumes_then [OF consumes_type [of accountBatch]])
      (use assms in \<open>auto simp: AccountBatch batch_bytes_def type_codes intro!: consumes_then_done [OF consumes_batch]\<close>)
next
  case RequestEOF
  show ?thesis unfolding receive_msg_def RequestEOF
    by (rule consumes_then [OF consumes_type [of eof_type]]) (simp_all add: type_codes)
qed

text \<open>A result as it is sent, its bytes, and what the client makes of them: one result per suspicious account.\<close>

fun send_result :: "float_ops \<Rightarrow> result \<Rightarrow> connection act" where
  "send_result F (MicrotransactionResult a b x) = send_microtransaction_result F [(a, b, x)]"
| "send_result F (MaxBankResult n a x) = send_max_bank_result [\<lparr>mr_bank_name = n, mr_account = a, mr_amount = x\<rparr>]"
| "send_result F (ConvertedMicroPaymentResult n) = send_converted_result n"
| "send_result F (AvgByTypeResult a x) = send_avg_result \<lparr>ar_account = a, ar_amount = x\<rparr>"
| "send_result F (SuspiciousAccountsResult as) = send_suspicious_result (map (\<lambda>(b, a). \<lparr>bank = b, account_name = a\<rparr>) as)"
| "send_result F ResultEOF = send_eof_type"

fun result_bytes :: "float_ops \<Rightarrow> result \<Rightarrow> u8 list" where
  "result_bytes F (MicrotransactionResult a b x) = microtransactionResult # record_bytes (a @ COMMA # b @ COMMA # f_show6 F x)"
| "result_bytes F (MaxBankResult n a x) = maxBankResult # record_bytes (n @ COMMA # a @ COMMA # x)"
| "result_bytes F (ConvertedMicroPaymentResult n) = convertedMicroPaymentResult # serialize_uint32 (word_of_int n)"
| "result_bytes F (AvgByTypeResult a x) = avgByTypeResult # record_bytes (a @ COMMA # x)"
| "result_bytes F (SuspiciousAccountsResult as) =
     concat (map (\<lambda>(b, a). suspiciousAccountsResult # record_bytes (show_int (sint b) @ COMMA # a)) as)"
| "result_bytes F ResultEOF = [eof_type]"

fun as_received :: "float_ops \<Rightarrow> result \<Rightarrow> result list" where
  "as_received F (MicrotransactionResult a b x) = [MicrotransactionResult a b (the (f_parse F (f_show6 F x)))]"
| "as_received F (SuspiciousAccountsResult as) = map (\<lambda>a. SuspiciousAccountsResult [a]) as"
| "as_received F r = [r]"

text \<open>No field has a comma, every record fits in the length, and a count in 32 bits.\<close>

abbreviation plain :: "string \<Rightarrow> bool" where
  "plain s \<equiv> COMMA \<notin> set s"

fun good_result :: "float_ops \<Rightarrow> result \<Rightarrow> bool" where
  "good_result F (MicrotransactionResult a b x) \<longleftrightarrow> plain a \<and> plain b \<and> plain (f_show6 F x) \<and> f_parse F (f_show6 F x) \<noteq> None \<and>
     length a + length b + length (f_show6 F x) + 2 < 2 ^ 16"
| "good_result F (MaxBankResult n a x) \<longleftrightarrow> plain n \<and> plain a \<and> plain x \<and> length n + length a + length x + 2 < 2 ^ 16"
| "good_result F (ConvertedMicroPaymentResult n) \<longleftrightarrow> 0 \<le> n \<and> n < 2 ^ 32"
| "good_result F (AvgByTypeResult a x) \<longleftrightarrow> plain a \<and> plain x \<and> length a + length x + 1 < 2 ^ 16"
| "good_result F (SuspiciousAccountsResult as) \<longleftrightarrow> (\<forall>(b, a) \<in> set as. plain a \<and> length (show_int (sint b)) + length a + 1 < 2 ^ 16)"
| "good_result F ResultEOF \<longleftrightarrow> True"

lemma write_all_works: "room s = None \<Longrightarrow> write_all d s = (s\<lparr>outgoing := outgoing s @ d\<rparr>, None)"
  by (simp add: write_all_def)

lemma send_record_works: "room s = None \<Longrightarrow> send_record t r s = (s\<lparr>outgoing := outgoing s @ t # record_bytes r\<rparr>, None)"
  by (simp add: send_record_def send_msg_type_def write_all_works then_act_def ok_def)

lemma for_each_send:
  assumes "\<And>x s. room s = None \<Longrightarrow> f x s = (s\<lparr>outgoing := outgoing s @ g x\<rparr>, None)"
  shows "room s = None \<Longrightarrow> for_each f xs s = (s\<lparr>outgoing := outgoing s @ concat (map g xs)\<rparr>, None)"
proof (induction xs arbitrary: s)
  case Nil
  then show ?case by (simp add: ok_def)
next
  case (Cons x xs)
  then show ?case by (simp add: then_act_def assms)
qed

lemma send_result_works: "room s = None \<Longrightarrow> send_result F r s = (s\<lparr>outgoing := outgoing s @ result_bytes F r\<rparr>, None)"
proof (cases r)
  case (SuspiciousAccountsResult as)
  assume "room s = None"
  then have "for_each (\<lambda>a. send_record suspiciousAccountsResult (show_int (sint (bank a)) @ COMMA # account_name a))
      (map (\<lambda>(b, a). \<lparr>bank = b, account_name = a\<rparr>) as) s =
      (s\<lparr>outgoing := outgoing s @ concat (map (\<lambda>a. suspiciousAccountsResult # record_bytes (show_int (sint (bank a)) @ COMMA # account_name a))
        (map (\<lambda>(b, a). \<lparr>bank = b, account_name = a\<rparr>) as))\<rparr>, None)"
    by (intro for_each_send send_record_works)
  then show ?thesis by (simp add: SuspiciousAccountsResult send_suspicious_result_def comp_def case_prod_unfold)
qed (simp_all add: send_microtransaction_result_def send_max_bank_result_def send_converted_result_def send_avg_result_def
    send_eof_type_def send_msg_type_def send_record_works write_all_works then_act_def ok_def)

fun receive_results :: "float_ops \<Rightarrow> nat \<Rightarrow> result list recv" where
  "receive_results F 0 = recv_done []"
| "receive_results F (Suc n) = recv_then (receive_result F) (\<lambda>r. recv_then (receive_results F n) (\<lambda>rs. recv_done (r # rs)))"

lemma split_three: "plain a \<Longrightarrow> plain b \<Longrightarrow> plain c \<Longrightarrow> split_on COMMA (a @ COMMA # b @ COMMA # c) = [a, b, c]"
  by (simp add: split_on_field split_on_last)

lemma split_two: "plain a \<Longrightarrow> plain b \<Longrightarrow> split_on COMMA (a @ COMMA # b) = [a, b]"
  by (simp add: split_on_field split_on_last)

lemma plain_show_int: "plain (show_int i)"
  using nondigit_notin_show_nat [of COMMA] by (simp add: show_int_def is_digit_def byte_def)

lemma consumes_suspicious:
  assumes "plain a" "length (show_int (sint b)) + length a + 1 < 2 ^ 16"
  shows "consumes (receive_result F) (suspiciousAccountsResult # record_bytes (show_int (sint (b :: i32)) @ COMMA # a)) (SuspiciousAccountsResult [(b, a)])"
proof -
  have "- (2 ^ 63) \<le> sint b" "sint b < 2 ^ 63" using sint_ge [of b] sint_lt [of b] by simp_all
  then show ?thesis unfolding receive_result_def
    by (intro consumes_then [OF consumes_type [of suspiciousAccountsResult]])
      (use assms in \<open>auto simp: type_codes receive_suspicious_result_def split_two plain_show_int atoi_show_int
        intro!: consumes_then_done [OF consumes_record]\<close>)
qed

text \<open>A result that is received as one.\<close>

lemma consumes_one:
  assumes "good_result F r" "\<forall>as. r \<noteq> SuspiciousAccountsResult as"
  shows "\<exists>q. as_received F r = [q] \<and> consumes (receive_result F) (result_bytes F r) q"
proof (cases r)
  case (MicrotransactionResult a b x)
  show ?thesis unfolding receive_result_def MicrotransactionResult
    by (intro exI conjI, simp, intro consumes_then [OF consumes_type [of microtransactionResult]])
      (use assms in \<open>auto simp: MicrotransactionResult receive_microtransaction_result_def split_three
        intro!: consumes_then_done [OF consumes_record]\<close>)
next
  case (MaxBankResult n a x)
  show ?thesis unfolding receive_result_def MaxBankResult
    by (intro exI conjI, simp, intro consumes_then [OF consumes_type [of maxBankResult]])
      (use assms in \<open>auto simp: MaxBankResult type_codes receive_max_bank_result_def split_three
        intro!: consumes_then_done [OF consumes_record]\<close>)
next
  case (ConvertedMicroPaymentResult n)
  have "uint (word_of_int n :: u32) = n" using assms by (simp add: ConvertedMicroPaymentResult unsigned_of_int take_bit_int_eq_self)
  then show ?thesis unfolding receive_result_def ConvertedMicroPaymentResult
    by (intro exI conjI, simp, intro consumes_then [OF consumes_type [of convertedMicroPaymentResult]])
      (auto simp: type_codes receive_converted_result_def intro!: consumes_then_done [OF consumes_read_all])
next
  case (AvgByTypeResult a x)
  show ?thesis unfolding receive_result_def AvgByTypeResult
    by (intro exI conjI, simp, intro consumes_then [OF consumes_type [of avgByTypeResult]])
      (use assms in \<open>auto simp: AvgByTypeResult type_codes receive_avg_result_def split_two
        intro!: consumes_then_done [OF consumes_record]\<close>)
next
  case ResultEOF
  show ?thesis unfolding receive_result_def ResultEOF
    by (intro exI conjI, simp, intro consumes_then [OF consumes_type [of eof_type]]) (auto simp: type_codes)
qed (use assms in auto)

lemma consumes_results:
  "\<forall>(b, q) \<in> set ps. consumes (receive_result F) b q \<Longrightarrow>
     consumes (receive_results F (length ps)) (concat (map fst ps)) (map snd ps)"
proof (induction ps)
  case (Cons p ps)
  obtain b q where p: "p = (b, q)" by fastforce
  have "consumes (recv_then (receive_results F (length ps)) (\<lambda>rs. recv_done (q # rs))) (concat (map fst ps)) (q # map snd ps)"
    by (rule consumes_then_done) (use Cons in simp_all)
  moreover have "consumes (receive_result F) b q" using Cons.prems p by simp
  ultimately show ?case
    by (simp add: p, intro consumes_then [where m = "receive_result F" and a = q and bs = b]) simp_all
qed simp

lemma result_pieces:
  assumes "good_result F r"
  shows "\<exists>ps. as_received F r = map snd ps \<and> result_bytes F r = concat (map fst ps) \<and> (\<forall>(b, q) \<in> set ps. consumes (receive_result F) b q)"
proof (cases "\<exists>as. r = SuspiciousAccountsResult as")
  case True
  then obtain as where r: "r = SuspiciousAccountsResult as" by blast
  let ?ps = "map (\<lambda>(b, a). (suspiciousAccountsResult # record_bytes (show_int (sint b) @ COMMA # a), SuspiciousAccountsResult [(b, a)])) as"
  have "\<forall>(b, q) \<in> set ?ps. consumes (receive_result F) b q" using assms consumes_suspicious by (auto simp: r)
  then show ?thesis by (intro exI [of _ ?ps]) (auto simp: r comp_def case_prod_unfold intro!: arg_cong [of _ _ concat])
next
  case False
  then obtain q where "as_received F r = [q]" "consumes (receive_result F) (result_bytes F r) q" using consumes_one assms by blast
  then show ?thesis by (intro exI [of _ "[(result_bytes F r, q)]"]) simp
qed

lemma results_pieces:
  assumes "\<forall>r \<in> set rs. good_result F r"
  shows "\<exists>ps. concat (map (as_received F) rs) = map snd ps \<and> concat (map (result_bytes F) rs) = concat (map fst ps) \<and>
    (\<forall>(b, q) \<in> set ps. consumes (receive_result F) b q)"
  using assms
proof (induction rs)
  case (Cons r rs)
  obtain ps qs where "as_received F r = map snd ps" "result_bytes F r = concat (map fst ps)" "\<forall>(b, q) \<in> set ps. consumes (receive_result F) b q"
    "concat (map (as_received F) rs) = map snd qs" "concat (map (result_bytes F) rs) = concat (map fst qs)"
    "\<forall>(b, q) \<in> set qs. consumes (receive_result F) b q"
    using Cons result_pieces [of F r] by auto
  then show ?case by (intro exI [of _ "ps @ qs"]) auto
qed (simp add: exI [of _ "[]"])

section \<open>Properties\<close>


text \<open>
  A comma in the name of a bank ends the client. The names of the banks come from the accounts file as they
  are; a result whose bank name has a comma is sent as a record with too many fields, which the client
  refuses with an error, and \<open>receiveResults\<close> stops at the first error, so no later result is received.
\<close>

theorem comma_in_bank_name_is_refused:
  assumes "\<not> plain n" "length n + length a + length x + 2 < 2 ^ 16"
    and "incoming client = result_bytes F (MaxBankResult n a x) @ rest"
  shows "\<exists>cs. receive_result F client = (client\<lparr>incoming := rest, cuts := cs\<rparr>, Inl ErrParse)"
proof -
  let ?r = "n @ COMMA # a @ COMMA # x"
  have "count_list ?r COMMA \<ge> 3" using assms(1) count_list_0_iff [of n COMMA] by simp
  then have "length (split_on COMMA ?r) \<ge> 4" by (simp add: length_split_on)
  then obtain f1 f2 f3 f4 fs where f: "split_on COMMA ?r = f1 # f2 # f3 # f4 # fs"
    by (auto simp: Suc_le_length_iff numeral_eq_Suc)
  obtain cs where t: "receive_msg_type client = (client\<lparr>incoming := record_bytes ?r @ rest, cuts := cs\<rparr>, Inr maxBankResult)"
    using consumes_type [of maxBankResult] assms(3) unfolding consumes_def by fastforce
  have "consumes receive_record (record_bytes ?r) ?r" by (rule consumes_record) (use assms(2) in simp)
  moreover have "incoming (client\<lparr>incoming := record_bytes ?r @ rest, cuts := cs\<rparr>) = record_bytes ?r @ rest" by simp
  ultimately obtain cs' where "receive_record (client\<lparr>incoming := record_bytes ?r @ rest, cuts := cs\<rparr>) =
      (client\<lparr>incoming := record_bytes ?r @ rest, cuts := cs\<rparr>\<lparr>incoming := rest, cuts := cs'\<rparr>, Inr ?r)"
    unfolding consumes_def by blast
  then show ?thesis
    by (intro exI [of _ cs']) (simp add: receive_result_def recv_then_def t type_codes receive_max_bank_result_def f recv_fail_def)
qed

definition sample_connection :: connection where
  "sample_connection = \<lparr>incoming = [], cuts = [0, 1, 0], read_fault = ErrClosed, outgoing = [], room = None, write_fault = ErrClosed\<rparr>"

definition text_floats :: float_ops where
  "text_floats = \<lparr>f_add = (+), f_mul = (*), f_div = (div), f_of_int = of_int, f_parse = (\<lambda>s. if s = ''7'' then Some 7 else None),
     f_show2 = (\<lambda>_. ''7''), f_show6 = (\<lambda>_. ''7'')\<rparr>"

definition sample_results :: "result list" where
  "sample_results = [MaxBankResult ''One'' ''a'' ''7'', SuspiciousAccountsResult [(-1, ''b'')], ResultEOF]"


theorem comma_in_bank_name_is_refused_witness:
  "\<exists>cs. receive_result text_floats (sample_connection\<lparr>incoming := result_bytes text_floats (MaxBankResult ''A, B'' ''a'' ''7'')\<rparr>) =
     (sample_connection\<lparr>incoming := [], cuts := cs\<rparr>, Inl ErrParse)"
  using comma_in_bank_name_is_refused [of "''A, B''" "''a''" "''7''"
      "sample_connection\<lparr>incoming := result_bytes text_floats (MaxBankResult ''A, B'' ''a'' ''7'')\<rparr>" text_floats "[]"] by simp

end
