(* ===== verification/ResultWriter.thy ===== *)
theory ResultWriter
  imports External
begin

text \<open>
  \<open>internal/client/storage/resultwriter.go\<close>: the client writes the results of each query to a CSV file of its own.
  The first section models the writer of \<open>encoding/csv\<close>, which is library code.

  The state has one file per query. A buffer of \<open>bufio\<close> that fills up is written earlier than the next flush; that
  changes when bytes reach the file, not which, and is left out. \<open>outcomes\<close> says which file operations fail; a
  write that fails leaves nothing in the file.
\<close>

section \<open>Writing CSV\<close>

abbreviation DQUOTE :: char where "DQUOTE \<equiv> CHR 0x22"

text \<open>The first bytes of a rune that \<open>unicode.IsSpace\<close> accepts, in UTF-8.\<close>

definition space_runes :: "nat list list" where
  "space_runes = [[9], [10], [11], [12], [13], [32], [194, 133], [194, 160], [225, 154, 128]] @
     map (\<lambda>i. [226, 128, i]) [128, 129, 130, 131, 132, 133, 134, 135, 136, 137, 138, 168, 169, 175] @ [[226, 129, 159], [227, 128, 128]]"

definition starts_with_space :: "string \<Rightarrow> bool" where
  "starts_with_space s \<longleftrightarrow> list_ex (\<lambda>r. take (length r) (map byte s) = r) space_runes"

definition field_needs_quotes :: "string \<Rightarrow> bool" where
  "field_needs_quotes f \<longleftrightarrow> f \<noteq> [] \<and>
     (f = [CHR 0x5C, CHR ''.''] \<or> list_ex (\<lambda>c. c = NL \<or> c = CR \<or> c = DQUOTE \<or> c = COMMA) f \<or> starts_with_space f)"

definition csv_cell :: "string \<Rightarrow> string" where
  "csv_cell f = (if field_needs_quotes f
     then DQUOTE # concat (map (\<lambda>c. if c = DQUOTE then [DQUOTE, DQUOTE] else [c]) f) @ [DQUOTE] else f)"

fun join_cells :: "string list \<Rightarrow> string" where
  "join_cells [] = []"
| "join_cells [c] = c"
| "join_cells (c # d # cs) = c @ COMMA # join_cells (d # cs)"

definition csv_row :: "string list \<Rightarrow> string" where
  "csv_row fs = join_cells (map csv_cell fs) @ [NL]"

section \<open>The writer\<close>

record csv_file =
  written :: string \<comment> \<open>what is in the file\<close>
  buffer :: string
  broken :: bool \<comment> \<open>a write failed: the error sticks\<close>

datatype query_id = Q1 | Q2 | Q3 | Q4 | Q5

record result_writer = env +
  doneReceiving :: bool
  files :: "query_id \<Rightarrow> csv_file option" \<comment> \<open>\<open>None\<close> is a file that is not open\<close>

definition new_result_writer :: "bool list \<Rightarrow> result_writer" where
  "new_result_writer os = \<lparr>outcomes = os, doneReceiving = False, files = (\<lambda>_. None)\<rparr>"

definition file_of :: "query_id \<Rightarrow> result_writer \<Rightarrow> csv_file" where
  "file_of q w = (case files w q of None \<Rightarrow> \<lparr>written = [], buffer = [], broken = False\<rparr> | Some f \<Rightarrow> f)"

definition set_file :: "query_id \<Rightarrow> csv_file \<Rightarrow> result_writer \<Rightarrow> result_writer" where
  "set_file q f w = w\<lparr>files := (files w)(q := Some f)\<rparr>"

definition csv_write :: "query_id \<Rightarrow> string list \<Rightarrow> result_writer act" where
  "csv_write q fs w =
     (if broken (file_of q w) then (w, Some ErrWrite)
      else (set_file q ((file_of q w)\<lparr>buffer := buffer (file_of q w) @ csv_row fs\<rparr>) w, None))"

definition csv_flush :: "query_id \<Rightarrow> result_writer \<Rightarrow> result_writer" where
  "csv_flush q w =
     (if broken (file_of q w) \<or> buffer (file_of q w) = [] then w
      else case call id ErrWrite w of
        (w', None) \<Rightarrow> set_file q ((file_of q w')\<lparr>written := written (file_of q w') @ buffer (file_of q w'), buffer := []\<rparr>) w'
      | (w', Some e) \<Rightarrow> set_file q ((file_of q w')\<lparr>broken := True\<rparr>) w')"

definition csv_error :: "query_id \<Rightarrow> result_writer act" where
  "csv_error q w = (w, if broken (file_of q w) then Some ErrWrite else None)"

definition header_of :: "query_id \<Rightarrow> string list" where
  "header_of q = (case q of
     Q1 \<Rightarrow> [''account'', ''to_account'', ''amount'']
   | Q2 \<Rightarrow> [''bank_name'', ''account'', ''amount'']
   | Q3 \<Rightarrow> [''account'', ''amount'']
   | Q4 \<Rightarrow> [''bank'', ''account'']
   | Q5 \<Rightarrow> [''count''])"

text \<open>\<open>Open\<close> truncates the files and puts the headers into their buffers; an error stops it.\<close>

definition open_file :: "query_id \<Rightarrow> result_writer act" where
  "open_file q = seq_acts
     [call (\<lambda>w. w\<lparr>files := (files w)(q := Some \<lparr>written = [], buffer = [], broken = False\<rparr>)\<rparr>) ErrWrite,
      csv_write q (header_of q)]"

definition open_writer :: "result_writer act" where
  "open_writer = seq_acts [call id ErrWrite, open_file Q1, open_file Q2, open_file Q3, open_file Q4, open_file Q5]"

definition close_writer :: "result_writer \<Rightarrow> result_writer" where
  "close_writer w = fold (\<lambda>q w. if files w q = None then w else csv_flush q w) [Q1, Q2, Q3, Q4, Q5] w"

section \<open>The handlers\<close>

definition write_and_flush :: "query_id \<Rightarrow> string list \<Rightarrow> result_writer act" where
  "write_and_flush q fs = seq_acts [csv_write q fs, upd (csv_flush q), csv_error q]"

definition writer_handle_eof :: "result_writer act" where
  "writer_handle_eof = upd (\<lambda>w. w\<lparr>doneReceiving := True\<rparr>)"

definition handle_micro_result :: "float_ops \<Rightarrow> string \<Rightarrow> string \<Rightarrow> f64 \<Rightarrow> result_writer act" where
  "handle_micro_result F a b x = write_and_flush Q1 [a, b, f_show2 F x]"

definition handle_bank_result :: "string \<Rightarrow> string \<Rightarrow> string \<Rightarrow> result_writer act" where
  "handle_bank_result n a x = write_and_flush Q2 [n, a, x]"

definition handle_count_result :: "int \<Rightarrow> result_writer act" where
  "handle_count_result n = write_and_flush Q5 [show_int n]"

definition handle_avg_result :: "string \<Rightarrow> string \<Rightarrow> result_writer act" where
  "handle_avg_result a x = write_and_flush Q3 [a, x]"

definition handle_suspicious_accounts :: "(i32 \<times> string) list \<Rightarrow> result_writer act" where
  "handle_suspicious_accounts as = seq_acts
     [for_each (\<lambda>(b, a). csv_write Q4 [show_int (sint b), a]) as, upd (csv_flush Q4), csv_error Q4]"

fun write_result :: "float_ops \<Rightarrow> result \<Rightarrow> result_writer act" where
  "write_result F (MicrotransactionResult a b x) = handle_micro_result F a b x"
| "write_result F (MaxBankResult n a x) = handle_bank_result n a x"
| "write_result F (ConvertedMicroPaymentResult n) = handle_count_result n"
| "write_result F (AvgByTypeResult a x) = handle_avg_result a x"
| "write_result F (SuspiciousAccountsResult as) = handle_suspicious_accounts as"
| "write_result F ResultEOF = writer_handle_eof"

end
