(* ===== verification/Client.thy ===== *)
theory Client
  imports ResultWriter Batch
begin

text \<open>
  \<open>internal/client/client.go\<close>: the client sends the lines of its two files in batches, waits for an ack after each,
  sends an EOF, and writes the results it receives until the EOF of the gateway. An input file is its content, or
  \<open>None\<close> when it does not open. Connecting and the signal handler are I/O; a signal shows as an error of the socket.
\<close>

section \<open>Sending the files\<close>

text \<open>The tokens of \<open>bufio.Scanner\<close> are shorter than 64 KiB.\<close>

definition MaxScanTokenSize :: nat where
  "MaxScanTokenSize = 65536"

definition build_batcher :: "int \<Rightarrow> (string, string list) batcher" where
  "build_batcher maxBatchWeight = new_batcher (new_batch (maxBatchWeight - header_size) record_size (\<lambda>rs. rs))"

definition client_send_transactions :: "(string list, connection) on_flush" where
  "client_send_transactions rs bid = seq_acts [send_transaction_batch rs, wait_ack]"

definition client_send_accounts :: "(string list, connection) on_flush" where
  "client_send_accounts rs bid = seq_acts [send_account_batch rs, wait_ack]"

text \<open>The loop over the lines of a file, after the header, and the flush; an error of the scanner is seen at the end.\<close>

definition send_lines :: "(string list, connection) on_flush \<Rightarrow> int \<Rightarrow> string \<Rightarrow> connection act" where
  "send_lines onFlush mbw content p =
     (case scan_lines MaxScanTokenSize content of (ls, err) \<Rightarrow>
        (case then_act (for_each (batcher_add onFlush) (tl ls)) (batcher_flush onFlush) (build_batcher mbw, p) of
           ((b, p'), Some e) \<Rightarrow> (p', Some e)
         | ((b, p'), None) \<Rightarrow> (p', err)))"

definition process_transactions :: "int \<Rightarrow> string option \<Rightarrow> connection act" where
  "process_transactions mbw f = (case f of None \<Rightarrow> fail (ErrOther ''open'') | Some content \<Rightarrow> send_lines client_send_transactions mbw content)"

definition process_accounts :: "int \<Rightarrow> string option \<Rightarrow> connection act" where
  "process_accounts mbw f = (case f of None \<Rightarrow> fail (ErrOther ''open'') | Some content \<Rightarrow>
     seq_acts [send_lines client_send_accounts mbw content, send_eof_type, wait_ack])"

section \<open>Receiving the results\<close>

record client =
  c_protocol :: connection
  c_writer :: result_writer
  c_running :: bool

definition on_client_protocol :: "connection act \<Rightarrow> client act" where
  "on_client_protocol = zoom c_protocol (\<lambda>p c. c\<lparr>c_protocol := p\<rparr>)"

definition on_writer :: "result_writer act \<Rightarrow> client act" where
  "on_writer = zoom c_writer (\<lambda>w c. c\<lparr>c_writer := w\<rparr>)"

definition receive_one :: "float_ops \<Rightarrow> client act" where
  "receive_one F c = (case receive_result F (c_protocol c) of
     (p, Inl e) \<Rightarrow> (c\<lparr>c_protocol := p\<rparr>, Some e)
   | (p, Inr r) \<Rightarrow> on_writer (write_result F r) (c\<lparr>c_protocol := p\<rparr>))"

partial_function (option) receive_all :: "float_ops \<Rightarrow> client \<Rightarrow> (client \<times> go_error option) option" where
  "receive_all F c =
     (if doneReceiving (c_writer c) \<or> \<not> c_running c then Some (c, None)
      else case receive_one F c of
        (c', Some e) \<Rightarrow> Some (c', Some e)
      | (c', None) \<Rightarrow> receive_all F c')"

definition client_run :: "float_ops \<Rightarrow> int \<Rightarrow> string option \<Rightarrow> string option \<Rightarrow> client \<Rightarrow> (client \<times> go_error option) option" where
  "client_run F mbw transactions accounts c =
     (case then_act (on_client_protocol (process_transactions mbw transactions))
             (on_client_protocol (process_accounts mbw accounts)) c of
        (c', Some e) \<Rightarrow> Some (c'\<lparr>c_writer := close_writer (c_writer c')\<rparr>, Some e)
      | (c', None) \<Rightarrow> map_option (\<lambda>(c'', e). (c''\<lparr>c_writer := close_writer (c_writer c'')\<rparr>, e)) (receive_all F c'))"

text \<open>\<open>New\<close>, on a connection that was made: a writer that does not open ends the client.\<close>

definition new_client :: "connection \<Rightarrow> bool list \<Rightarrow> go_error + client" where
  "new_client p os = (case open_writer (new_result_writer os) of
     (w, Some e) \<Rightarrow> Inl e
   | (w, None) \<Rightarrow> Inr \<lparr>c_protocol = p, c_writer = w, c_running = True\<rparr>)"

end
