(* ===== verification/MessageHandler.thy ===== *)
theory MessageHandler
  imports External CurrencyConverter
begin

text \<open>
  \<open>internal/gateway/messagehandler/messagehandler.go\<close>: how the gateway turns the lines of the client's files
  into messages for the workers, and the results of the workers into results for the client. The first section
  models the library function this rests on, one record of \<open>encoding/csv\<close>.
\<close>

section \<open>One CSV record\<close>

abbreviation QUOTE :: char where "QUOTE \<equiv> CHR 0x22"

text \<open>
  The reader drops the carriage return before a newline and at the end of the input, skips empty lines, and then
  reads fields up to the end of the line. A quoted field may contain commas, newlines and doubled quotes. A quote
  inside a bare field and text after a closing quote are errors, and so is an input without a record.
\<close>

fun drop_returns :: "string \<Rightarrow> string" where
  "drop_returns [] = []"
| "drop_returns [c] = (if c = CR then [] else [c])"
| "drop_returns (c # d # s) = (if c = CR \<and> d = NL then NL # drop_returns s else c # drop_returns (d # s))"

fun csv_field :: "string \<Rightarrow> string list option"
  and csv_bare :: "string \<Rightarrow> string \<Rightarrow> string list option"
  and csv_quoted :: "string \<Rightarrow> string \<Rightarrow> string list option"
  and csv_closed :: "string \<Rightarrow> string \<Rightarrow> string list option" where
  "csv_field [] = Some [[]]"
| "csv_field (c # s) =
     (if c = QUOTE then csv_quoted [] s
      else if c = COMMA then map_option ((#) []) (csv_field s)
      else if c = NL then Some [[]]
      else csv_bare [c] s)"
| "csv_bare acc [] = Some [acc]"
| "csv_bare acc (c # s) =
     (if c = COMMA then map_option ((#) acc) (csv_field s)
      else if c = NL then Some [acc]
      else if c = QUOTE then None
      else csv_bare (acc @ [c]) s)"
| "csv_quoted acc [] = None"
| "csv_quoted acc (c # s) = (if c = QUOTE then csv_closed acc s else csv_quoted (acc @ [c]) s)"
| "csv_closed acc [] = Some [acc]"
| "csv_closed acc (c # s) =
     (if c = QUOTE then csv_quoted (acc @ [QUOTE]) s
      else if c = COMMA then map_option ((#) acc) (csv_field s)
      else if c = NL then Some [acc]
      else None)"

definition read_csv :: "string \<Rightarrow> string list option" where
  "read_csv s = (let t = dropWhile (\<lambda>c. c = NL) (drop_returns s) in if t = [] then None else csv_field t)"

section \<open>From the client to the workers\<close>

text \<open>An \<open>int\<close> is cut to 32 bits. Every error is a parse error.\<close>

definition raw_transaction_to_proto_transaction :: "string \<Rightarrow> go_error + transaction" where
  "raw_transaction_to_proto_transaction r =
     (case read_csv r of
        None \<Rightarrow> Inl ErrParse
      | Some fs \<Rightarrow>
          if length fs < 10 then Inl ErrParse
          else (case atoi (fs ! 1) of
             None \<Rightarrow> Inl ErrParse
           | Some fromBank \<Rightarrow>
               (case atoi (fs ! 3) of
                  None \<Rightarrow> Inl ErrParse
                | Some toBank \<Rightarrow>
                    (case parse_time (fs ! 0) of
                       None \<Rightarrow> Inl ErrParse
                     | Some t \<Rightarrow> Inr
                         \<lparr>tx_client = [], tx_time = t, tx_from_bank = word_of_int fromBank,
                          tx_to_bank = word_of_int toBank, tx_account = fs ! 2, tx_to_account = fs ! 4,
                          tx_currency = fs ! 8, tx_amount = fs ! 7, tx_format = fs ! 9\<rparr>))))"

definition raw_account_to_proto_maxbank :: "string \<Rightarrow> go_error + maxbank_item" where
  "raw_account_to_proto_maxbank r =
     (case read_csv r of
        None \<Rightarrow> Inl ErrParse
      | Some fs \<Rightarrow>
          if length fs < 5 then Inl ErrParse
          else (case atoi (fs ! 1) of
             None \<Rightarrow> Inl ErrParse
           | Some bankID \<Rightarrow> Inr \<lparr>mb_from_bank = word_of_int bankID, mb_payload = BankMetadata (fs ! 0)\<rparr>))"

definition proto_transaction_to_conv :: "transaction \<Rightarrow> to_convert" where
  "proto_transaction_to_conv t =
     \<lparr>tc_time = tx_time t, tc_amount = tx_amount t, tc_currency = tx_currency t, tc_format = tx_format t\<rparr>"

text \<open>The counter is an \<open>int\<close>; the field of the message an unsigned 64-bit number.\<close>

definition eof_to_proto :: "string \<Rightarrow> int \<Rightarrow> string \<Rightarrow> money_laundry" where
  "eof_to_proto cid counter eofID = proto_message cid MT_EOF (EofMessage (word_of_int counter)) eofID"

section \<open>From the workers to the client\<close>

text \<open>
  The getter of another member of the one-of gives nil: the first two conversions then yield no results, the others
  an error. Reading an element that is nil gives zero values.
\<close>

definition proto_to_maxbank_result :: "money_laundry \<Rightarrow> maxbank_result list" where
  "proto_to_maxbank_result m = get_maxbank_result_batch_items m"

definition proto_to_microtransactions_result :: "money_laundry \<Rightarrow> (string \<times> string \<times> f64) list" where
  "proto_to_microtransactions_result m =
     map (\<lambda>x. case x of None \<Rightarrow> ([], [], 0) | Some t \<Rightarrow> (micro_account t, micro_to_account t, micro_amount t))
       (get_microtransaction_batch_items m)"

definition batch_is_nil :: go_error where
  "batch_is_nil = ErrOther ''batch is nil''"

definition proto_to_avg_by_type_results :: "money_laundry \<Rightarrow> go_error + avg_result list" where
  "proto_to_avg_by_type_results m =
     (case ml_inner m of AvgbytypeResultBatch xs \<Rightarrow> Inr xs | _ \<Rightarrow> Inl batch_is_nil)"

definition proto_to_suspicious_accounts :: "money_laundry \<Rightarrow> go_error + account list" where
  "proto_to_suspicious_accounts m =
     (case ml_inner m of SuspiciousaccountBatch xs \<Rightarrow> Inr xs | _ \<Rightarrow> Inl batch_is_nil)"

definition proto_to_converted_micropayment_result_batch :: "money_laundry \<Rightarrow> go_error + int" where
  "proto_to_converted_micropayment_result_batch m =
     (case ml_inner m of
        ConvertedmicropaymentresultBatch xs \<Rightarrow> Inr (foldl (\<lambda>count r. count + payment_count r) 0 xs)
      | _ \<Rightarrow> Inl batch_is_nil)"

section \<open>Lemmas\<close>

text \<open>A line of plain fields is split at its commas.\<close>

definition bare_char :: "char \<Rightarrow> bool" where
  "bare_char c \<longleftrightarrow> c \<notin> {COMMA, NL, CR, QUOTE}"

lemma csv_bare_field:
  "list_all bare_char f \<Longrightarrow> csv_bare acc (f @ s) = csv_bare (acc @ f) s"
  by (induction f arbitrary: acc) (auto simp: bare_char_def)

lemma csv_field_bare:
  "list_all bare_char f \<Longrightarrow>
     csv_field (f @ s) = (if f = [] then csv_field s else csv_bare f s)"
  by (cases f) (auto simp: bare_char_def csv_bare_field)

fun csv_line :: "string list \<Rightarrow> string" where
  "csv_line [] = []"
| "csv_line [f] = f"
| "csv_line (f # g # fs) = f @ COMMA # csv_line (g # fs)"

lemma csv_field_line:
  "\<forall>f \<in> set fs. list_all bare_char f \<Longrightarrow> fs \<noteq> [] \<Longrightarrow> csv_field (csv_line fs) = Some fs"
proof (induction fs rule: csv_line.induct)
  case (2 f)
  then show ?case using csv_field_bare [of f "[]"] by simp
next
  case (3 f g fs)
  then show ?case using csv_field_bare [of f "COMMA # csv_line (g # fs)"] by simp
qed simp

lemma drop_returns_id: "CR \<notin> set s \<Longrightarrow> drop_returns s = s"
  by (induction s rule: drop_returns.induct) auto

lemma csv_line_chars: "c \<in> set (csv_line fs) \<Longrightarrow> c = COMMA \<or> (\<exists>f \<in> set fs. c \<in> set f)"
  by (induction fs rule: csv_line.induct) auto

lemma read_csv_line:
  assumes "\<forall>f \<in> set fs. list_all bare_char f" "1 < length fs"
  shows "read_csv (csv_line fs) = Some fs"
proof -
  have no: "c \<notin> set (csv_line fs)" if "c \<noteq> COMMA" "\<not> bare_char c" for c
    using csv_line_chars [of c fs] assms(1) that by (auto simp: list_all_iff)
  have "CR \<notin> set (csv_line fs)" "NL \<notin> set (csv_line fs)"
    using no [of CR] no [of NL] by (simp_all add: bare_char_def)
  moreover from this have "dropWhile (\<lambda>c. c = NL) (csv_line fs) = csv_line fs"
    by (cases "csv_line fs") auto
  moreover have "csv_line fs \<noteq> []" using assms(2) by (induction fs rule: csv_line.induct) auto
  moreover have "fs \<noteq> []" using assms(2) by auto
  ultimately show ?thesis using csv_field_line [OF assms(1)] by (simp add: read_csv_def drop_returns_id)
qed

text \<open>A blank line is no record.\<close>

lemma read_csv_blank: "set s \<subseteq> {NL} \<Longrightarrow> read_csv s = None"
proof -
  assume s: "set s \<subseteq> {NL}"
  then have "CR \<notin> set s" by auto
  moreover have "dropWhile (\<lambda>c. c = NL) s = []" using s by (induction s) auto
  ultimately show ?thesis by (simp add: read_csv_def drop_returns_id)
qed

section \<open>Properties\<close>

text \<open>The day as the line has it, with dashes in place of slashes.\<close>

definition written_day :: "string list \<Rightarrow> string" where
  "written_day fs = take 4 (fs ! 0) @ DASH # take 2 (drop 5 (fs ! 0)) @ DASH # take 2 (drop 8 (fs ! 0))"

text \<open>
  C26. A payment is converted with the rates of the day that its line says. For every line that the gateway accepts,
  the converter asks its cache or the service for the day that is written in the first field, and uses the
  rate of the currency in the ninth: the timestamp that travels in between is read back as the same date of the calendar,
  for every year, month and day.
\<close>

theorem rates_of_the_written_day:
  assumes "read_csv r = Some fs" "raw_transaction_to_proto_transaction r = Inr t"
  shows "convert_to_usd F svc (tc_currency (proto_transaction_to_conv t)) a (tc_time (proto_transaction_to_conv t)) c =
    (case get_rates_for_date svc (written_day fs) c of
       (c1, Inl e) \<Rightarrow> (c1, Inl e)
     | (c1, Inr rates) \<Rightarrow> (c1, convert_with F rates (fs ! 8) a))"
proof -
  have "parse_time (fs ! 0) = Some (tx_time t)" "tx_currency t = fs ! 8"
    using assms by (auto simp: raw_transaction_to_proto_transaction_def split: if_splits option.splits)
  then show ?thesis
    by (simp add: convert_to_usd_def proto_transaction_to_conv_def date_of_parsed_time written_day_def)
qed

theorem rates_of_the_written_day_witness:
  "\<exists>t. raw_transaction_to_proto_transaction ''2022/09/02 10:05,1,a,2,b,7,Euro,7,Euro,ACH,0'' = Inr t \<and>
     (\<forall>F svc a c. convert_to_usd F svc ''Euro'' a (tx_time t) c =
       (case get_rates_for_date svc ''2022-09-02'' c of
          (c1, Inl e) \<Rightarrow> (c1, Inl e)
        | (c1, Inr rates) \<Rightarrow> (c1, convert_with F rates ''Euro'' a)))"
proof -
  let ?r = "''2022/09/02 10:05,1,a,2,b,7,Euro,7,Euro,ACH,0''"
  let ?fs = "[''2022/09/02 10:05'', ''1'', ''a'', ''2'', ''b'', ''7'', ''Euro'', ''7'', ''Euro'', ''ACH'', ''0'']"
  have r: "read_csv ?r = Some ?fs" by code_simp
  have "\<not> isl (raw_transaction_to_proto_transaction ?r)" by code_simp
  then obtain t where t: "raw_transaction_to_proto_transaction ?r = Inr t"
    by (cases "raw_transaction_to_proto_transaction ?r") simp_all
  have "tx_currency t = ''Euro''"
    using t r by (auto simp: raw_transaction_to_proto_transaction_def split: if_splits option.splits)
  moreover have "written_day ?fs = ''2022-09-02''" "?fs ! 8 = ''Euro''" by (simp_all add: written_day_def)
  ultimately have "convert_to_usd F svc ''Euro'' a (tx_time t) c =
       (case get_rates_for_date svc ''2022-09-02'' c of
          (c1, Inl e) \<Rightarrow> (c1, Inl e)
        | (c1, Inr rates) \<Rightarrow> (c1, convert_with F rates ''Euro'' a))" for F svc a c
    using rates_of_the_written_day [OF r t, of F svc a c] by (simp only: proto_transaction_to_conv_def to_convert.simps)
  then show ?thesis using t by blast
qed

end
