(* ===== verification/Gateway.thy ===== *)
theory Gateway
  imports MessageHandler Sender EOFCoordinator
begin

text \<open>
  \<open>internal/gateway\<close>: the gateway of the system. A connection to a client (\<open>clientconnection.go\<close>) turns the
  lines of the client's files into batches for the three entry queues, and passes the results of the workers back
  to the client; the registry (\<open>clienregistry.go\<close>) keeps the connections by identifier (\<open>gateway.go\<close>).

  A connection's state is the protocol (the TCP connection of \<open>External\<close>), the queues, the batchers and the
  counters. \<open>fresh\<close> is the supply of UUIDs, of which \<open>drawn\<close> counts the ones used. \<open>proto.Size\<close> is the parameter
  of the batchers' sizers. The operations of the goroutine that reads the client and of the one that consumes the
  results are the actions below; a run of the connection interleaves them.
\<close>

section \<open>The state of a connection\<close>

record queues = env +
  currencyFilterQueue :: "money_laundry list"
  rawDataQueue :: "money_laundry list"
  maxBankRouterQueue :: "money_laundry list"

record sizers =
  size_transaction :: "transaction \<Rightarrow> int"
  size_to_convert :: "to_convert \<Rightarrow> int"
  size_maxbank :: "maxbank_item \<Rightarrow> int"

record client_connection =
  cc_id :: string
  protocol :: connection
  queues_of :: queues
  EOFamountReceived :: int
  transactionCounter :: int
  accountsCounter :: int
  transactionBatcher :: "(transaction, transaction list) batcher"
  rawDataBatcher :: "(to_convert, to_convert list) batcher"
  accountBatcher :: "(maxbank_item, maxbank_item list) batcher"
  micropaymentsCount :: int
  converterJoinAmount :: int
  seenResults :: "string list"
  cleaned :: bool
  drawn :: nat

definition eofAmountExpected :: int where
  "eofAmountExpected = 10"

definition gateway_batch :: "('t \<Rightarrow> int) \<Rightarrow> ('t, 't list) batch" where
  "gateway_batch sz = new_batch 1000000 sz wrap_items"

definition on_protocol :: "connection act \<Rightarrow> client_connection act" where
  "on_protocol = zoom protocol (\<lambda>p s. s\<lparr>protocol := p\<rparr>)"

definition on_queues :: "queues act \<Rightarrow> client_connection act" where
  "on_queues = zoom queues_of (\<lambda>q s. s\<lparr>queues_of := q\<rparr>)"

definition with_uuid :: "(nat \<Rightarrow> string) \<Rightarrow> (string \<Rightarrow> client_connection act) \<Rightarrow> client_connection act" where
  "with_uuid fresh f s = f (fresh (drawn s)) (s\<lparr>drawn := Suc (drawn s)\<rparr>)"

text \<open>
  \<open>SetNewBatchId(DefaultBatchId)\<close> on the three batchers, which draws a UUID for each: the end of \<open>setUpBatchers\<close>
  and a part of the cleanup.
\<close>

definition new_batch_ids :: "(nat \<Rightarrow> string) \<Rightarrow> client_connection \<Rightarrow> client_connection" where
  "new_batch_ids fresh s = s\<lparr>
     transactionBatcher := set_new_batch_id (fresh (drawn s)) DefaultBatchId (transactionBatcher s),
     rawDataBatcher := set_new_batch_id (fresh (drawn s + 1)) DefaultBatchId (rawDataBatcher s),
     accountBatcher := set_new_batch_id (fresh (drawn s + 2)) DefaultBatchId (accountBatcher s),
     drawn := drawn s + 3\<rparr>"

definition set_up_batchers :: "(nat \<Rightarrow> string) \<Rightarrow> sizers \<Rightarrow> client_connection \<Rightarrow> client_connection" where
  "set_up_batchers fresh sz s = new_batch_ids fresh (s\<lparr>
     transactionBatcher := new_batcher (gateway_batch (size_transaction sz)),
     rawDataBatcher := new_batcher (gateway_batch (size_to_convert sz)),
     accountBatcher := new_batcher (gateway_batch (size_maxbank sz))\<rparr>)"

text \<open>\<open>New\<close>, on queues that could be opened, followed by \<open>setUpBatchers\<close>, the first thing \<open>Run\<close> does.\<close>

definition new_client_connection :: "(nat \<Rightarrow> string) \<Rightarrow> sizers \<Rightarrow> string \<Rightarrow> connection \<Rightarrow> queues \<Rightarrow> int \<Rightarrow> client_connection" where
  "new_client_connection fresh sz cid p q joins = set_up_batchers fresh sz
     \<lparr>cc_id = cid, protocol = p, queues_of = q, EOFamountReceived = 0, transactionCounter = 0, accountsCounter = 0,
      transactionBatcher = new_batcher (gateway_batch (size_transaction sz)),
      rawDataBatcher = new_batcher (gateway_batch (size_to_convert sz)),
      accountBatcher = new_batcher (gateway_batch (size_maxbank sz)),
      micropaymentsCount = 0, converterJoinAmount = joins, seenResults = [], cleaned = False, drawn = 0\<rparr>"

section \<open>To the workers\<close>

text \<open>Publishing on one of the queues; a message is serialized before.\<close>

definition to_currency_queue :: "money_laundry \<Rightarrow> queues act" where
  "to_currency_queue m = call (\<lambda>q. q\<lparr>currencyFilterQueue := currencyFilterQueue q @ [m]\<rparr>) ErrSend"

definition to_raw_queue :: "money_laundry \<Rightarrow> queues act" where
  "to_raw_queue m = call (\<lambda>q. q\<lparr>rawDataQueue := rawDataQueue q @ [m]\<rparr>) ErrSend"

definition to_maxbank_queue :: "money_laundry \<Rightarrow> queues act" where
  "to_maxbank_queue m = call (\<lambda>q. q\<lparr>maxBankRouterQueue := maxBankRouterQueue q @ [m]\<rparr>) ErrSend"

definition marshal :: "queues act" where
  "marshal = call id marshal_error"

definition transaction_batch_msg :: "string \<Rightarrow> transaction list \<Rightarrow> string \<Rightarrow> money_laundry" where
  "transaction_batch_msg cid b bid = proto_message cid MT_TRANSACTION_BATCH (Transactions b) bid"

definition to_convert_batch_msg :: "string \<Rightarrow> to_convert list \<Rightarrow> string \<Rightarrow> money_laundry" where
  "to_convert_batch_msg cid b bid = proto_message cid MT_TO_CONVERT_TRANSACTION_BATCH (ToConvertBatch b) bid"

definition account_batch_msg :: "string \<Rightarrow> maxbank_item list \<Rightarrow> string \<Rightarrow> money_laundry" where
  "account_batch_msg cid b bid = proto_message cid MT_MAXBANK_BATCH (MaxBankBatch b) bid"

definition gw_send_transaction_batch :: "string \<Rightarrow> (transaction list, queues) on_flush" where
  "gw_send_transaction_batch cid b bid = seq_acts [marshal, to_currency_queue (transaction_batch_msg cid b bid)]"

definition gw_send_to_convert_batch :: "string \<Rightarrow> (to_convert list, queues) on_flush" where
  "gw_send_to_convert_batch cid b bid = seq_acts [marshal, to_raw_queue (to_convert_batch_msg cid b bid)]"

definition gw_send_account_batch :: "string \<Rightarrow> (maxbank_item list, queues) on_flush" where
  "gw_send_account_batch cid b bid = seq_acts [marshal, to_maxbank_queue (account_batch_msg cid b bid)]"

text \<open>An operation of one of the batchers, whose callback acts on the queues.\<close>

definition on_transactions ::
  "(string \<Rightarrow> ((transaction, transaction list) batcher \<times> queues) act) \<Rightarrow> client_connection act" where
  "on_transactions a s = zoom (\<lambda>s. (transactionBatcher s, queues_of s))
     (\<lambda>(b, q) s. s\<lparr>transactionBatcher := b, queues_of := q\<rparr>) (a (cc_id s)) s"

definition on_raw_data ::
  "(string \<Rightarrow> ((to_convert, to_convert list) batcher \<times> queues) act) \<Rightarrow> client_connection act" where
  "on_raw_data a s = zoom (\<lambda>s. (rawDataBatcher s, queues_of s))
     (\<lambda>(b, q) s. s\<lparr>rawDataBatcher := b, queues_of := q\<rparr>) (a (cc_id s)) s"

definition on_accounts ::
  "(string \<Rightarrow> ((maxbank_item, maxbank_item list) batcher \<times> queues) act) \<Rightarrow> client_connection act" where
  "on_accounts a s = zoom (\<lambda>s. (accountBatcher s, queues_of s))
     (\<lambda>(b, q) s. s\<lparr>accountBatcher := b, queues_of := q\<rparr>) (a (cc_id s)) s"

definition handle_transaction :: "string \<Rightarrow> client_connection act" where
  "handle_transaction r = (case raw_transaction_to_proto_transaction r of
     Inl e \<Rightarrow> fail e
   | Inr t \<Rightarrow> seq_acts
       [on_transactions (\<lambda>cid. batcher_add (gw_send_transaction_batch cid) t),
        on_raw_data (\<lambda>cid. batcher_add (gw_send_to_convert_batch cid) (proto_transaction_to_conv t)),
        upd (\<lambda>s. s\<lparr>transactionCounter := transactionCounter s + 1\<rparr>)])"

definition handle_transaction_batch :: "string list \<Rightarrow> client_connection act" where
  "handle_transaction_batch rs = then_act (for_each handle_transaction rs) (on_protocol send_ack)"

definition handle_account :: "string \<Rightarrow> client_connection act" where
  "handle_account r = (case raw_account_to_proto_maxbank r of
     Inl e \<Rightarrow> fail e
   | Inr m \<Rightarrow> seq_acts
       [on_accounts (\<lambda>cid. batcher_add (gw_send_account_batch cid) m),
        upd (\<lambda>s. s\<lparr>accountsCounter := accountsCounter s + 1\<rparr>)])"

definition handle_account_batch :: "string list \<Rightarrow> client_connection act" where
  "handle_account_batch rs = then_act (for_each handle_account rs) (on_protocol send_ack)"

text \<open>The EOF of the transactions goes to two queues under one identifier; that of the accounts has its own.\<close>

definition flush_batchers :: "client_connection act" where
  "flush_batchers = seq_acts
     [on_transactions (\<lambda>cid. batcher_flush (gw_send_transaction_batch cid)),
      on_raw_data (\<lambda>cid. batcher_flush (gw_send_to_convert_batch cid)),
      on_accounts (\<lambda>cid. batcher_flush (gw_send_account_batch cid))]"

definition transactions_eof :: "string \<Rightarrow> client_connection act" where
  "transactions_eof eofID s =
     (let m = eof_to_proto (cc_id s) (transactionCounter s) eofID
      in on_queues (seq_acts [marshal, to_currency_queue m, to_raw_queue m]) s)"

definition accounts_eof :: "string \<Rightarrow> client_connection act" where
  "accounts_eof eofID s = on_queues (seq_acts
     [marshal, to_maxbank_queue (eof_to_proto (cc_id s) (accountsCounter s) eofID)]) s"

definition handle_eof :: "(nat \<Rightarrow> string) \<Rightarrow> client_connection act" where
  "handle_eof fresh = seq_acts
     [flush_batchers, with_uuid fresh transactions_eof, with_uuid fresh accounts_eof, on_protocol send_ack]"

fun handle_request :: "(nat \<Rightarrow> string) \<Rightarrow> request \<Rightarrow> client_connection act" where
  "handle_request fresh (TransactionBatch rs) = handle_transaction_batch rs"
| "handle_request fresh (AccountBatch rs) = handle_account_batch rs"
| "handle_request fresh RequestEOF = handle_eof fresh"

section \<open>Cleanup\<close>

definition broadcast_client_cleanup :: "client_connection act" where
  "broadcast_client_cleanup s =
     (let m = cleanup_msg (cc_id s) in on_queues (seq_acts [marshal, to_currency_queue m, to_raw_queue m, to_maxbank_queue m]) s)"

definition handle_cleanup_msg :: "(nat \<Rightarrow> string) \<Rightarrow> client_connection \<Rightarrow> client_connection" where
  "handle_cleanup_msg fresh s = (new_batch_ids fresh (s\<lparr>seenResults := [], transactionCounter := 0, accountsCounter := 0,
     micropaymentsCount := 0, converterJoinAmount := 0, EOFamountReceived := 0\<rparr>))\<lparr>cleaned := True\<rparr>"

definition connection_cleanup :: "(nat \<Rightarrow> string) \<Rightarrow> client_connection \<Rightarrow> client_connection" where
  "connection_cleanup fresh s = handle_cleanup_msg fresh (fst (ignore_err broadcast_client_cleanup s))"

definition handle_disconnection :: "(nat \<Rightarrow> string) \<Rightarrow> go_error \<Rightarrow> client_connection act" where
  "handle_disconnection fresh e s = (if e = ErrClosed then (connection_cleanup fresh s, None) else (s, Some e))"

section \<open>Results\<close>

definition is_result_seen :: "string \<Rightarrow> client_connection \<Rightarrow> bool" where
  "is_result_seen bid s \<longleftrightarrow> bid \<in> set (seenResults s)"

definition mark_result_as_seen :: "string \<Rightarrow> client_connection \<Rightarrow> client_connection" where
  "mark_result_as_seen bid s = s\<lparr>seenResults := List.insert bid (seenResults s)\<rparr>"

text \<open>A handler ends with one call of \<open>ack\<close> or of \<open>nack\<close>.\<close>

type_synonym settling = "client_connection \<Rightarrow> client_connection \<times> delivery"

definition settle_by :: "client_connection act \<Rightarrow> settling" where
  "settle_by a s = (case a s of (s', None) \<Rightarrow> (s', Ack) | (s', Some e) \<Rightarrow> (s', Nack))"

definition handle_eof_from_worker :: settling where
  "handle_eof_from_worker s =
     (let s1 = s\<lparr>EOFamountReceived := EOFamountReceived s + 1\<rparr>
      in if EOFamountReceived s1 = eofAmountExpected then
           (case on_protocol send_eof_type s1 of
              (s2, None) \<Rightarrow> (s2, Ack)
            | (s2, Some e) \<Rightarrow> (s2\<lparr>EOFamountReceived := EOFamountReceived s2 - 1\<rparr>, Nack))
         else (s1, Ack))"

definition handle_avg_by_type_result :: "money_laundry \<Rightarrow> settling" where
  "handle_avg_by_type_result m = (case proto_to_avg_by_type_results m of
     Inl e \<Rightarrow> settle_by (fail e)
   | Inr rs \<Rightarrow> settle_by (for_each (\<lambda>r. on_protocol (send_avg_result r)) rs))"

definition handle_microtransaction_result :: "float_ops \<Rightarrow> money_laundry \<Rightarrow> settling" where
  "handle_microtransaction_result F m =
     settle_by (on_protocol (send_microtransaction_result F (proto_to_microtransactions_result m)))"

definition handle_max_bank_result :: "money_laundry \<Rightarrow> settling" where
  "handle_max_bank_result m = settle_by (on_protocol (send_max_bank_result (proto_to_maxbank_result m)))"

definition handle_converted_result :: "money_laundry \<Rightarrow> settling" where
  "handle_converted_result m = (case proto_to_converted_micropayment_result_batch m of
     Inl e \<Rightarrow> settle_by (fail e)
   | Inr n \<Rightarrow> settle_by (\<lambda>s.
       let s1 = s\<lparr>micropaymentsCount := micropaymentsCount s + n, converterJoinAmount := converterJoinAmount s - 1\<rparr>
       in if converterJoinAmount s1 = 0 then on_protocol (send_converted_result (micropaymentsCount s1)) s1
          else (s1, None)))"

definition handle_suspicious_result :: "money_laundry \<Rightarrow> settling" where
  "handle_suspicious_result m = (case proto_to_suspicious_accounts m of
     Inl e \<Rightarrow> settle_by (fail e)
   | Inr as \<Rightarrow> settle_by (on_protocol (send_suspicious_result as)))"

definition dispatch_result :: "float_ops \<Rightarrow> money_laundry \<Rightarrow> settling" where
  "dispatch_result F m = (case ml_type m of
     MT_EOF \<Rightarrow> handle_eof_from_worker
   | MT_MICROTRANSACTION_BATCH \<Rightarrow> handle_microtransaction_result F m
   | MT_MAX_BANK_RESULT_BATCH \<Rightarrow> handle_max_bank_result m
   | MT_CONVERTED_MICRO_PAYMENT_RESULT_BATCH \<Rightarrow> handle_converted_result m
   | MT_AVGBYTYPE_RESULT_BATCH \<Rightarrow> handle_avg_by_type_result m
   | MT_SUSPICIOUS_ACCOUNT_BATCH \<Rightarrow> handle_suspicious_result m
   | _ \<Rightarrow> (\<lambda>s. (s, Nack)))"

text \<open>\<open>None\<close> in place of a message is a body that does not deserialize.\<close>

definition handle_result :: "(nat \<Rightarrow> string) \<Rightarrow> float_ops \<Rightarrow> money_laundry option \<Rightarrow> settling" where
  "handle_result fresh F msg s = (case msg of
     None \<Rightarrow> (s, Nack)
   | Some m \<Rightarrow>
       if ml_type m = MT_CLEANUP then (handle_cleanup_msg fresh s, Ack)
       else if is_result_seen (ml_batch_id m) s \<or> cleaned s then (s, Ack)
       else dispatch_result F m (mark_result_as_seen (ml_batch_id m) s))"

section \<open>The loop of a connection\<close>

text \<open>One round: a request is read and handled, and an error of the handler answered by a nack; or the connection ends.\<close>

definition serve_one :: "(nat \<Rightarrow> string) \<Rightarrow> client_connection \<Rightarrow> client_connection \<times> go_error option option" where
  "serve_one fresh s = (case receive_msg (protocol s) of
     (p, Inl e) \<Rightarrow> (case handle_disconnection fresh e (s\<lparr>protocol := p\<rparr>) of (s', r) \<Rightarrow> (s', Some r))
   | (p, Inr q) \<Rightarrow>
       (case handle_request fresh q (s\<lparr>protocol := p\<rparr>) of
          (s', None) \<Rightarrow> (s', None)
        | (s', Some e) \<Rightarrow> (fst (on_protocol send_nack s'), None)))"

partial_function (option) serve :: "(nat \<Rightarrow> string) \<Rightarrow> client_connection \<Rightarrow> (client_connection \<times> go_error option) option" where
  "serve fresh s = (case serve_one fresh s of
     (s', Some r) \<Rightarrow> Some (s', r)
   | (s', None) \<Rightarrow> serve fresh s')"

section \<open>The registry\<close>

type_synonym 'c registry = "(string, 'c) gomap"

definition registry_add :: "string \<Rightarrow> 'c \<Rightarrow> 'c registry \<Rightarrow> 'c registry" where
  "registry_add cid c r = mput cid c r"

definition registry_get :: "string \<Rightarrow> 'c registry \<Rightarrow> 'c option" where
  "registry_get cid r = mget r cid"

definition registry_remove :: "string \<Rightarrow> 'c registry \<Rightarrow> 'c registry" where
  "registry_remove cid r = mdel cid r"

text \<open>\<open>generateClientId\<close> draws identifiers until one is free.\<close>

partial_function (option) generate_client_id :: "(nat \<Rightarrow> string) \<Rightarrow> 'c registry \<Rightarrow> nat \<Rightarrow> (string \<times> nat) option" where
  "generate_client_id fresh r n =
     (if registry_get (fresh n) r \<noteq> None then generate_client_id fresh r (Suc n) else Some (fresh n, Suc n))"

end
