(* ===== verification/GatewayRuns.thy ===== *)
theory GatewayRuns
  imports Gateway
begin

text \<open>
  What a connection of the gateway does from the bytes of the client to the messages of the queues. The three
  callbacks of the batchers are instances of the interface \<open>flush_sink\<close>; an invariant says what has been forwarded
  and what the batchers still hold; and every loop of the connection ends, whatever the stream and the failures.
\<close>

section \<open>The callbacks\<close>

abbreviation idle :: "queues \<Rightarrow> bool" where
  "idle q \<equiv> outcomes q = []"

lemmas gw_send_defs = gw_send_transaction_batch_def gw_send_to_convert_batch_def gw_send_account_batch_def marshal_def
  to_currency_queue_def to_raw_queue_def to_maxbank_queue_def

interpretation currency_sink: flush_sink "gw_send_transaction_batch cid" "\<lambda>i b. transaction_batch_msg cid b i"
    currencyFilterQueue "\<lambda>q. idle q \<and> rawDataQueue q = r \<and> maxBankRouterQueue q = m" for cid r m
  by unfold_locales (simp_all add: gw_send_defs then_act_def call_no_faults)

interpretation raw_sink: flush_sink "gw_send_to_convert_batch cid" "\<lambda>i b. to_convert_batch_msg cid b i"
    rawDataQueue "\<lambda>q. idle q \<and> currencyFilterQueue q = c \<and> maxBankRouterQueue q = m" for cid c m
  by unfold_locales (simp_all add: gw_send_defs then_act_def call_no_faults)

interpretation maxbank_sink: flush_sink "gw_send_account_batch cid" "\<lambda>i b. account_batch_msg cid b i"
    maxBankRouterQueue "\<lambda>q. idle q \<and> currencyFilterQueue q = c \<and> rawDataQueue q = r" for cid c r
  by unfold_locales (simp_all add: gw_send_defs then_act_def call_no_faults)

section \<open>What has been forwarded\<close>

definition plain_batcher :: "('t, 't list) batcher \<Rightarrow> bool" where
  "plain_batcher b \<longleftrightarrow> batch_ok (batch b) \<and> wrapper (batch b) = (\<lambda>xs. xs) \<and> (\<forall>x. 0 < sizer (batch b) x)"

definition works :: "client_connection \<Rightarrow> bool" where
  "works s \<longleftrightarrow> idle (queues_of s) \<and> room (protocol s) = None \<and> plain_batcher (transactionBatcher s) \<and>
     plain_batcher (rawDataBatcher s) \<and> plain_batcher (accountBatcher s)"

text \<open>Batches with their identifiers carry items that, with the ones a batcher holds, are the list \<open>xs\<close>.\<close>

definition carries :: "(string \<times> 't list) list \<Rightarrow> ('t, 't list) batcher \<Rightarrow> 't list \<Rightarrow> bool" where
  "carries bs b xs \<longleftrightarrow> concat (map snd bs) @ batchItems (batch b) = xs"

abbreviation messages :: "('t list \<Rightarrow> string \<Rightarrow> money_laundry) \<Rightarrow> (string \<times> 't list) list \<Rightarrow> money_laundry list" where
  "messages msg bs \<equiv> map (\<lambda>(i, b). msg b i) bs"

definition forwarded :: "queues \<Rightarrow> string \<Rightarrow> client_connection \<Rightarrow> transaction list \<Rightarrow> maxbank_item list \<Rightarrow> bool" where
  "forwarded q cid s ts as \<longleftrightarrow> works s \<and> cc_id s = cid \<and> transactionCounter s = int (length ts) \<and>
     accountsCounter s = int (length as) \<and>
     (\<exists>tb. currencyFilterQueue (queues_of s) = currencyFilterQueue q @ messages (transaction_batch_msg cid) tb \<and>
        carries tb (transactionBatcher s) ts) \<and>
     (\<exists>rb. rawDataQueue (queues_of s) = rawDataQueue q @ messages (to_convert_batch_msg cid) rb \<and>
        carries rb (rawDataBatcher s) (map proto_transaction_to_conv ts)) \<and>
     (\<exists>ab. maxBankRouterQueue (queues_of s) = maxBankRouterQueue q @ messages (account_batch_msg cid) ab \<and>
        carries ab (accountBatcher s) as)"

lemma carries_more:
  assumes "carries bs b xs" "concat (map snd cs) @ batchItems (batch b') = batchItems (batch b) @ [x]"
  shows "carries (bs @ cs) b' (xs @ [x])"
  using assms by (auto simp: carries_def)

lemma carries_all:
  "carries bs b xs \<Longrightarrow> concat (map snd cs) = batchItems (batch b) \<Longrightarrow> batchItems (batch b') = [] \<Longrightarrow> carries (bs @ cs) b' xs"
  by (simp add: carries_def)

lemma plain_batcher_same: "plain_batcher b \<Longrightarrow> batch_ok (batch b') \<Longrightarrow> same_setup b' b \<Longrightarrow> plain_batcher b'"
  by (simp add: plain_batcher_def same_setup_def)

lemma plain_add:
  assumes "flush_sink f entry delivered ready" "ready q" "plain_batcher b"
  shows "\<exists>b' q' cs. batcher_add f x (b, q) = ((b', q'), None) \<and> ready q' \<and> plain_batcher b' \<and>
      delivered q' = delivered q @ map (\<lambda>(i, items). entry i items) cs \<and>
      concat (map snd cs) @ batchItems (batch b') = batchItems (batch b) @ [x]"
proof -
  obtain b' q' cs where "batcher_add f x (b, q) = ((b', q'), None)" "ready q'" "batch_ok (batch b')" "same_setup b' b"
    "delivered q' = delivered q @ map (\<lambda>(i, items). entry i (wrapper (batch b) items)) cs"
    "concat (map snd cs) @ batchItems (batch b') = batchItems (batch b) @ [x]"
    using flush_sink.add_one [OF assms(1,2), of b x] assms(3) by (auto simp: plain_batcher_def)
  then show ?thesis using assms(3)
    by (intro exI [of _ b'] exI [of _ q'] exI [of _ cs]) (simp add: plain_batcher_same, simp add: plain_batcher_def)
qed

lemma plain_flush:
  assumes "flush_sink f entry delivered ready" "ready q" "plain_batcher b"
  shows "\<exists>b' q' cs. batcher_flush f (b, q) = ((b', q'), None) \<and> ready q' \<and> plain_batcher b' \<and>
      delivered q' = delivered q @ map (\<lambda>(i, items). entry i items) cs \<and>
      concat (map snd cs) = batchItems (batch b) \<and> batchItems (batch b') = []"
proof -
  obtain b' q' cs where "batcher_flush f (b, q) = ((b', q'), None)" "ready q'" "batch_ok (batch b')" "same_setup b' b"
    "delivered q' = delivered q @ map (\<lambda>(i, items). entry i (wrapper (batch b) items)) cs"
    "concat (map snd cs) = batchItems (batch b)" "batchItems (batch b') = []"
    using flush_sink.flush_all [OF assms(1,2), of b] assms(3) by (auto simp: plain_batcher_def)
  then show ?thesis using assms(3)
    by (intro exI [of _ b'] exI [of _ q'] exI [of _ cs]) (simp add: plain_batcher_same, simp add: plain_batcher_def)
qed

text \<open>The three batchers, each with its queue.\<close>

lemma transaction_added:
  assumes "works s"
  shows "\<exists>b' q' cs. on_transactions (\<lambda>cid. batcher_add (gw_send_transaction_batch cid) x) s = (s\<lparr>transactionBatcher := b', queues_of := q'\<rparr>, None) \<and>
      idle q' \<and> rawDataQueue q' = rawDataQueue (queues_of s) \<and> maxBankRouterQueue q' = maxBankRouterQueue (queues_of s) \<and> plain_batcher b' \<and>
      currencyFilterQueue q' = currencyFilterQueue (queues_of s) @ messages (transaction_batch_msg (cc_id s)) cs \<and>
      concat (map snd cs) @ batchItems (batch b') = batchItems (batch (transactionBatcher s)) @ [x]"
proof -
  have p: "plain_batcher (transactionBatcher s)" "idle (queues_of s)" using assms by (simp_all add: works_def)
  from plain_add [OF currency_sink.flush_sink_axioms, OF conjI [OF p(2) conjI [OF refl refl]] p(1), of "cc_id s" x]
  show ?thesis unfolding on_transactions_def zoom_def by fastforce
qed

lemma transaction_flushed:
  assumes "works s"
  shows "\<exists>b' q' cs. on_transactions (\<lambda>cid. batcher_flush (gw_send_transaction_batch cid)) s = (s\<lparr>transactionBatcher := b', queues_of := q'\<rparr>, None) \<and>
      idle q' \<and> rawDataQueue q' = rawDataQueue (queues_of s) \<and> maxBankRouterQueue q' = maxBankRouterQueue (queues_of s) \<and> plain_batcher b' \<and>
      currencyFilterQueue q' = currencyFilterQueue (queues_of s) @ messages (transaction_batch_msg (cc_id s)) cs \<and>
      concat (map snd cs) = batchItems (batch (transactionBatcher s)) \<and> batchItems (batch b') = []"
proof -
  have p: "plain_batcher (transactionBatcher s)" "idle (queues_of s)" using assms by (simp_all add: works_def)
  from plain_flush [OF currency_sink.flush_sink_axioms, OF conjI [OF p(2) conjI [OF refl refl]] p(1), of "cc_id s"]
  show ?thesis unfolding on_transactions_def zoom_def by fastforce
qed

lemma raw_data_added:
  assumes "works s"
  shows "\<exists>b' q' cs. on_raw_data (\<lambda>cid. batcher_add (gw_send_to_convert_batch cid) x) s = (s\<lparr>rawDataBatcher := b', queues_of := q'\<rparr>, None) \<and>
      idle q' \<and> currencyFilterQueue q' = currencyFilterQueue (queues_of s) \<and> maxBankRouterQueue q' = maxBankRouterQueue (queues_of s) \<and> plain_batcher b' \<and>
      rawDataQueue q' = rawDataQueue (queues_of s) @ messages (to_convert_batch_msg (cc_id s)) cs \<and>
      concat (map snd cs) @ batchItems (batch b') = batchItems (batch (rawDataBatcher s)) @ [x]"
proof -
  have p: "plain_batcher (rawDataBatcher s)" "idle (queues_of s)" using assms by (simp_all add: works_def)
  from plain_add [OF raw_sink.flush_sink_axioms, OF conjI [OF p(2) conjI [OF refl refl]] p(1), of "cc_id s" x]
  show ?thesis unfolding on_raw_data_def zoom_def by fastforce
qed

lemma raw_data_flushed:
  assumes "works s"
  shows "\<exists>b' q' cs. on_raw_data (\<lambda>cid. batcher_flush (gw_send_to_convert_batch cid)) s = (s\<lparr>rawDataBatcher := b', queues_of := q'\<rparr>, None) \<and>
      idle q' \<and> currencyFilterQueue q' = currencyFilterQueue (queues_of s) \<and> maxBankRouterQueue q' = maxBankRouterQueue (queues_of s) \<and> plain_batcher b' \<and>
      rawDataQueue q' = rawDataQueue (queues_of s) @ messages (to_convert_batch_msg (cc_id s)) cs \<and>
      concat (map snd cs) = batchItems (batch (rawDataBatcher s)) \<and> batchItems (batch b') = []"
proof -
  have p: "plain_batcher (rawDataBatcher s)" "idle (queues_of s)" using assms by (simp_all add: works_def)
  from plain_flush [OF raw_sink.flush_sink_axioms, OF conjI [OF p(2) conjI [OF refl refl]] p(1), of "cc_id s"]
  show ?thesis unfolding on_raw_data_def zoom_def by fastforce
qed

lemma account_added:
  assumes "works s"
  shows "\<exists>b' q' cs. on_accounts (\<lambda>cid. batcher_add (gw_send_account_batch cid) x) s = (s\<lparr>accountBatcher := b', queues_of := q'\<rparr>, None) \<and>
      idle q' \<and> currencyFilterQueue q' = currencyFilterQueue (queues_of s) \<and> rawDataQueue q' = rawDataQueue (queues_of s) \<and> plain_batcher b' \<and>
      maxBankRouterQueue q' = maxBankRouterQueue (queues_of s) @ messages (account_batch_msg (cc_id s)) cs \<and>
      concat (map snd cs) @ batchItems (batch b') = batchItems (batch (accountBatcher s)) @ [x]"
proof -
  have p: "plain_batcher (accountBatcher s)" "idle (queues_of s)" using assms by (simp_all add: works_def)
  from plain_add [OF maxbank_sink.flush_sink_axioms, OF conjI [OF p(2) conjI [OF refl refl]] p(1), of "cc_id s" x]
  show ?thesis unfolding on_accounts_def zoom_def by fastforce
qed

lemma account_flushed:
  assumes "works s"
  shows "\<exists>b' q' cs. on_accounts (\<lambda>cid. batcher_flush (gw_send_account_batch cid)) s = (s\<lparr>accountBatcher := b', queues_of := q'\<rparr>, None) \<and>
      idle q' \<and> currencyFilterQueue q' = currencyFilterQueue (queues_of s) \<and> rawDataQueue q' = rawDataQueue (queues_of s) \<and> plain_batcher b' \<and>
      maxBankRouterQueue q' = maxBankRouterQueue (queues_of s) @ messages (account_batch_msg (cc_id s)) cs \<and>
      concat (map snd cs) = batchItems (batch (accountBatcher s)) \<and> batchItems (batch b') = []"
proof -
  have p: "plain_batcher (accountBatcher s)" "idle (queues_of s)" using assms by (simp_all add: works_def)
  from plain_flush [OF maxbank_sink.flush_sink_axioms, OF conjI [OF p(2) conjI [OF refl refl]] p(1), of "cc_id s"]
  show ?thesis unfolding on_accounts_def zoom_def by fastforce
qed

lemma forwarded_transaction:
  assumes "forwarded q cid s ts as" "raw_transaction_to_proto_transaction r = Inr t"
  shows "\<exists>s'. handle_transaction r s = (s', None) \<and> forwarded q cid s' (ts @ [t]) as \<and> protocol s' = protocol s"
proof -
  have w: "works s" "cc_id s = cid" using assms(1) by (simp_all add: forwarded_def)
  from transaction_added [OF w(1), of t] obtain b1 q1 cs where 1:
    "on_transactions (\<lambda>cid. batcher_add (gw_send_transaction_batch cid) t) s = (s\<lparr>transactionBatcher := b1, queues_of := q1\<rparr>, None)"
    "idle q1" "rawDataQueue q1 = rawDataQueue (queues_of s)" "maxBankRouterQueue q1 = maxBankRouterQueue (queues_of s)" "plain_batcher b1"
    "currencyFilterQueue q1 = currencyFilterQueue (queues_of s) @ messages (transaction_batch_msg cid) cs"
    "concat (map snd cs) @ batchItems (batch b1) = batchItems (batch (transactionBatcher s)) @ [t]"
    using w(2) by blast
  let ?s1 = "s\<lparr>transactionBatcher := b1, queues_of := q1\<rparr>"
  have w1: "works ?s1" using w(1) 1 by (simp add: works_def)
  from raw_data_added [OF w1, of "proto_transaction_to_conv t"] obtain b2 q2 ds where 2:
    "on_raw_data (\<lambda>cid. batcher_add (gw_send_to_convert_batch cid) (proto_transaction_to_conv t)) ?s1 = (?s1\<lparr>rawDataBatcher := b2, queues_of := q2\<rparr>, None)"
    "idle q2" "currencyFilterQueue q2 = currencyFilterQueue q1" "maxBankRouterQueue q2 = maxBankRouterQueue q1" "plain_batcher b2"
    "rawDataQueue q2 = rawDataQueue q1 @ messages (to_convert_batch_msg cid) ds"
    "concat (map snd ds) @ batchItems (batch b2) = batchItems (batch (rawDataBatcher s)) @ [proto_transaction_to_conv t]"
    using w(2) by auto
  let ?s3 = "s\<lparr>transactionBatcher := b1, rawDataBatcher := b2, queues_of := q2, transactionCounter := transactionCounter s + 1\<rparr>"
  have "handle_transaction r s = (?s3, None)" by (simp add: handle_transaction_def assms(2) then_act_def 1 2 upd_def)
  moreover have "forwarded q cid ?s3 (ts @ [t]) as"
    using assms(1) w 1(2-6) 2(2-6) carries_more [OF _ 1(7)] carries_more [OF _ 2(7)]
    unfolding forwarded_def works_def by (auto, (metis append.assoc map_append)+)
  ultimately show ?thesis by (intro exI [of _ ?s3]) simp
qed

lemma forwarded_account:
  assumes "forwarded q cid s ts as" "raw_account_to_proto_maxbank r = Inr m"
  shows "\<exists>s'. handle_account r s = (s', None) \<and> forwarded q cid s' ts (as @ [m]) \<and> protocol s' = protocol s"
proof -
  have w: "works s" "cc_id s = cid" using assms(1) by (simp_all add: forwarded_def)
  from account_added [OF w(1), of m] obtain b1 q1 cs where 1:
    "on_accounts (\<lambda>cid. batcher_add (gw_send_account_batch cid) m) s = (s\<lparr>accountBatcher := b1, queues_of := q1\<rparr>, None)"
    "idle q1" "currencyFilterQueue q1 = currencyFilterQueue (queues_of s)" "rawDataQueue q1 = rawDataQueue (queues_of s)" "plain_batcher b1"
    "maxBankRouterQueue q1 = maxBankRouterQueue (queues_of s) @ messages (account_batch_msg cid) cs"
    "concat (map snd cs) @ batchItems (batch b1) = batchItems (batch (accountBatcher s)) @ [m]"
    using w(2) by blast
  let ?s2 = "s\<lparr>accountBatcher := b1, queues_of := q1, accountsCounter := accountsCounter s + 1\<rparr>"
  have "handle_account r s = (?s2, None)" by (simp add: handle_account_def assms(2) then_act_def 1 upd_def)
  moreover have "forwarded q cid ?s2 ts (as @ [m])"
    using assms(1) w 1(2-6) carries_more [OF _ 1(7)]
    unfolding forwarded_def works_def by (auto, (metis append.assoc map_append)+)
  ultimately show ?thesis by (intro exI [of _ ?s2]) simp
qed

section \<open>Requests\<close>

text \<open>What a request of the client says, when all its lines are well formed.\<close>

fun good_lines :: "request \<Rightarrow> bool" where
  "good_lines (TransactionBatch rs) \<longleftrightarrow> (\<forall>r \<in> set rs. \<not> isl (raw_transaction_to_proto_transaction r))"
| "good_lines (AccountBatch rs) \<longleftrightarrow> (\<forall>r \<in> set rs. \<not> isl (raw_account_to_proto_maxbank r))"
| "good_lines RequestEOF \<longleftrightarrow> False"

fun transactions_in :: "request \<Rightarrow> transaction list" where
  "transactions_in (TransactionBatch rs) = map (\<lambda>r. projr (raw_transaction_to_proto_transaction r)) rs"
| "transactions_in q = []"

fun accounts_in :: "request \<Rightarrow> maxbank_item list" where
  "accounts_in (AccountBatch rs) = map (\<lambda>r. projr (raw_account_to_proto_maxbank r)) rs"
| "accounts_in q = []"

abbreviation acked :: "nat \<Rightarrow> connection \<Rightarrow> connection" where
  "acked n p \<equiv> p\<lparr>outgoing := outgoing p @ replicate n ack_type\<rparr>"

lemma send_ack_works: "room p = None \<Longrightarrow> send_ack p = (acked 1 p, None)"
  by (simp add: send_ack_def send_msg_type_def write_all_works)

lemma forwarded_new_protocol: "forwarded q cid s ts as \<Longrightarrow> room p = None \<Longrightarrow> forwarded q cid (s\<lparr>protocol := p\<rparr>) ts as"
  by (auto simp: forwarded_def works_def)

lemma forwarded_request:
  assumes "forwarded q cid s ts as" "good_lines rq"
  shows "\<exists>s'. handle_request fresh rq s = (s', None) \<and> forwarded q cid s' (ts @ transactions_in rq) (as @ accounts_in rq) \<and>
    protocol s' = acked 1 (protocol s)"
proof -
  have r: "room (protocol s) = None" using assms(1) by (simp add: forwarded_def works_def)
  have finish: "\<exists>s'. then_act a (on_protocol send_ack) s = (s', None) \<and> forwarded q cid s' ts' as' \<and> protocol s' = acked 1 (protocol s)"
    if "a s = (s1, None)" "forwarded q cid s1 ts' as'" "protocol s1 = protocol s" for a s1 ts' as'
    using that r send_ack_works [of "protocol s"] forwarded_new_protocol [OF that(2), of "acked 1 (protocol s)"]
    by (simp add: then_act_def on_protocol_def zoom_def)
  show ?thesis
  proof (cases rq)
    case (TransactionBatch rs)
    have "\<exists>s'. handle_transaction r s1 = (s', None) \<and>
        (forwarded q cid s' (zs @ [projr (raw_transaction_to_proto_transaction r)]) as \<and> protocol s' = protocol s)"
      if "r \<in> set rs" "forwarded q cid s1 zs as \<and> protocol s1 = protocol s" for r s1 zs
    proof -
      have "\<not> isl (raw_transaction_to_proto_transaction r)" using assms(2) that(1) by (simp add: TransactionBatch)
      then obtain t where "raw_transaction_to_proto_transaction r = Inr t" by (cases "raw_transaction_to_proto_transaction r") simp_all
      then show ?thesis using forwarded_transaction [of q cid s1 zs as r t] that(2) by auto
    qed
    from for_each_collects [of rs "\<lambda>s1 zs. forwarded q cid s1 zs as \<and> protocol s1 = protocol s" handle_transaction
        "\<lambda>r. projr (raw_transaction_to_proto_transaction r)", OF this] assms(1)
    obtain s1 where "for_each handle_transaction rs s = (s1, None)" "forwarded q cid s1 (ts @ transactions_in rq) as"
      "protocol s1 = protocol s" by (fastforce simp: TransactionBatch)
    then show ?thesis using finish by (simp add: TransactionBatch handle_transaction_batch_def)
  next
    case (AccountBatch rs)
    have "\<exists>s'. handle_account r s1 = (s', None) \<and>
        (forwarded q cid s' ts (zs @ [projr (raw_account_to_proto_maxbank r)]) \<and> protocol s' = protocol s)"
      if "r \<in> set rs" "forwarded q cid s1 ts zs \<and> protocol s1 = protocol s" for r s1 zs
    proof -
      have "\<not> isl (raw_account_to_proto_maxbank r)" using assms(2) that(1) by (simp add: AccountBatch)
      then obtain m where "raw_account_to_proto_maxbank r = Inr m" by (cases "raw_account_to_proto_maxbank r") simp_all
      then show ?thesis using forwarded_account [of q cid s1 ts zs r m] that(2) by auto
    qed
    from for_each_collects [of rs "\<lambda>s1 zs. forwarded q cid s1 ts zs \<and> protocol s1 = protocol s" handle_account
        "\<lambda>r. projr (raw_account_to_proto_maxbank r)", OF this] assms(1)
    obtain s1 where "for_each handle_account rs s = (s1, None)" "forwarded q cid s1 ts (as @ accounts_in rq)"
      "protocol s1 = protocol s" by (fastforce simp: AccountBatch)
    then show ?thesis using finish by (simp add: AccountBatch handle_account_batch_def)
  qed (use assms(2) in simp)
qed

text \<open>All that was carried has left the batchers, and \<open>ms\<close> was published after it on each queue.\<close>

definition delivered_all :: "queues \<Rightarrow> string \<Rightarrow> client_connection \<Rightarrow> transaction list \<Rightarrow> maxbank_item list \<Rightarrow>
    money_laundry list \<Rightarrow> money_laundry list \<Rightarrow> bool" where
  "delivered_all q cid s ts as ms ns \<longleftrightarrow>
     (\<exists>tb. currencyFilterQueue (queues_of s) = currencyFilterQueue q @ messages (transaction_batch_msg cid) tb @ ms \<and> concat (map snd tb) = ts) \<and>
     (\<exists>rb. rawDataQueue (queues_of s) = rawDataQueue q @ messages (to_convert_batch_msg cid) rb @ ms \<and>
        concat (map snd rb) = map proto_transaction_to_conv ts) \<and>
     (\<exists>ab. maxBankRouterQueue (queues_of s) = maxBankRouterQueue q @ messages (account_batch_msg cid) ab @ ns \<and> concat (map snd ab) = as)"

lemma flushed_all:
  assumes "forwarded q cid s ts as"
  shows "\<exists>s'. flush_batchers s = (s', None) \<and> delivered_all q cid s' ts as [] [] \<and> works s' \<and> protocol s' = protocol s \<and>
    cc_id s' = cid \<and> transactionCounter s' = int (length ts) \<and> accountsCounter s' = int (length as) \<and> drawn s' = drawn s"
proof -
  have w: "works s" "cc_id s = cid" using assms by (simp_all add: forwarded_def)
  from transaction_flushed [OF w(1)] obtain b1 q1 cs where 1:
    "on_transactions (\<lambda>cid. batcher_flush (gw_send_transaction_batch cid)) s = (s\<lparr>transactionBatcher := b1, queues_of := q1\<rparr>, None)"
    "idle q1" "rawDataQueue q1 = rawDataQueue (queues_of s)" "maxBankRouterQueue q1 = maxBankRouterQueue (queues_of s)" "plain_batcher b1"
    "currencyFilterQueue q1 = currencyFilterQueue (queues_of s) @ messages (transaction_batch_msg cid) cs"
    "concat (map snd cs) = batchItems (batch (transactionBatcher s))" using w(2) by blast
  let ?s1 = "s\<lparr>transactionBatcher := b1, queues_of := q1\<rparr>"
  have w1: "works ?s1" using w(1) 1 by (simp add: works_def)
  from raw_data_flushed [OF w1] obtain b2 q2 ds where 2:
    "on_raw_data (\<lambda>cid. batcher_flush (gw_send_to_convert_batch cid)) ?s1 = (?s1\<lparr>rawDataBatcher := b2, queues_of := q2\<rparr>, None)"
    "idle q2" "currencyFilterQueue q2 = currencyFilterQueue q1" "maxBankRouterQueue q2 = maxBankRouterQueue q1" "plain_batcher b2"
    "rawDataQueue q2 = rawDataQueue q1 @ messages (to_convert_batch_msg cid) ds"
    "concat (map snd ds) = batchItems (batch (rawDataBatcher s))" using w(2) by auto
  let ?s2 = "?s1\<lparr>rawDataBatcher := b2, queues_of := q2\<rparr>"
  have w2: "works ?s2" using w1 2 by (simp add: works_def)
  from account_flushed [OF w2] obtain b3 q3 es where 3:
    "on_accounts (\<lambda>cid. batcher_flush (gw_send_account_batch cid)) ?s2 = (?s2\<lparr>accountBatcher := b3, queues_of := q3\<rparr>, None)"
    "idle q3" "currencyFilterQueue q3 = currencyFilterQueue q2" "rawDataQueue q3 = rawDataQueue q2" "plain_batcher b3"
    "maxBankRouterQueue q3 = maxBankRouterQueue q2 @ messages (account_batch_msg cid) es"
    "concat (map snd es) = batchItems (batch (accountBatcher s))" using w(2) by auto
  let ?s3 = "?s2\<lparr>accountBatcher := b3, queues_of := q3\<rparr>"
  have f: "flush_batchers s = (?s3, None)" using 1(1) 2(1) 3(1) by (simp add: flush_batchers_def then_act_def ok_def)
  obtain tb rb ab where
    "currencyFilterQueue (queues_of s) = currencyFilterQueue q @ messages (transaction_batch_msg cid) tb" "carries tb (transactionBatcher s) ts"
    "rawDataQueue (queues_of s) = rawDataQueue q @ messages (to_convert_batch_msg cid) rb" "carries rb (rawDataBatcher s) (map proto_transaction_to_conv ts)"
    "maxBankRouterQueue (queues_of s) = maxBankRouterQueue q @ messages (account_batch_msg cid) ab" "carries ab (accountBatcher s) as"
    using assms unfolding forwarded_def by blast
  then have "delivered_all q cid ?s3 ts as [] []"
    unfolding delivered_all_def using 1 2 3
    by (intro conjI exI [of _ "tb @ cs"] exI [of _ "rb @ ds"] exI [of _ "ab @ es"]) (simp_all add: carries_def)
  moreover have "works ?s3" using w2 3 by (simp add: works_def)
  ultimately show ?thesis using assms w(2) f by (intro exI [of _ ?s3]) (simp add: forwarded_def)
qed

lemma delivered_all_more:
  assumes "delivered_all q cid s ts as ms ns"
    and "currencyFilterQueue (queues_of s') = currencyFilterQueue (queues_of s) @ xs"
    and "rawDataQueue (queues_of s') = rawDataQueue (queues_of s) @ xs"
    and "maxBankRouterQueue (queues_of s') = maxBankRouterQueue (queues_of s) @ ys"
  shows "delivered_all q cid s' ts as (ms @ xs) (ns @ ys)"
  using assms unfolding delivered_all_def by auto

lemma eof_forwarded:
  assumes "forwarded q cid s ts as"
  shows "\<exists>s'. handle_eof fresh s = (s', None) \<and> works s' \<and> cc_id s' = cid \<and> protocol s' = acked 1 (protocol s) \<and>
    delivered_all q cid s' ts as [eof_message cid (of_nat (length ts)) (fresh (drawn s))]
      [eof_message cid (of_nat (length as)) (fresh (Suc (drawn s)))]"
proof -
  obtain s1 where 1: "flush_batchers s = (s1, None)" "delivered_all q cid s1 ts as [] []" "works s1" "protocol s1 = protocol s"
    "cc_id s1 = cid" "transactionCounter s1 = int (length ts)" "accountsCounter s1 = int (length as)" "drawn s1 = drawn s"
    using flushed_all [OF assms] by blast
  have w: "idle (queues_of s1)" "room (protocol s) = None" using 1(3,4) by (simp_all add: works_def)
  let ?m = "eof_message cid (of_nat (length ts)) (fresh (drawn s))"
  let ?n = "eof_message cid (of_nat (length as)) (fresh (Suc (drawn s)))"
  let ?s' = "s1\<lparr>drawn := Suc (Suc (drawn s)), queues_of := (queues_of s1)\<lparr>currencyFilterQueue := currencyFilterQueue (queues_of s1) @ [?m],
      rawDataQueue := rawDataQueue (queues_of s1) @ [?m], maxBankRouterQueue := maxBankRouterQueue (queues_of s1) @ [?n]\<rparr>,
      protocol := acked 1 (protocol s)\<rparr>"
  have "handle_eof fresh s = (?s', None)"
    using 1 w send_ack_works [OF w(2)]
    by (simp add: handle_eof_def then_act_def with_uuid_def transactions_eof_def accounts_eof_def on_queues_def zoom_def
        gw_send_defs call_no_faults ok_def eof_to_proto_def eof_message_def on_protocol_def Let_def)
  moreover have "delivered_all q cid ?s' ts as [?m] [?n]" using delivered_all_more [OF 1(2), of ?s' "[?m]" "[?n]"] by simp
  moreover have "works ?s'" using 1(3,4) by (simp add: works_def)
  ultimately show ?thesis using 1(5) by (intro exI [of _ ?s']) simp
qed

section \<open>The loop\<close>

lemma serve_step: "serve_one fresh s = (s', None) \<Longrightarrow> serve fresh s = serve fresh s'"
  by (subst serve.simps) simp

lemma serve_requests:
  assumes "forwarded q cid s ts as" "incoming (protocol s) = concat (map request_bytes rqs) @ rest"
    and "\<forall>rq \<in> set rqs. good_request rq \<and> good_lines rq"
  shows "\<exists>s' cs. serve fresh s = serve fresh s' \<and>
    forwarded q cid s' (ts @ concat (map transactions_in rqs)) (as @ concat (map accounts_in rqs)) \<and>
    protocol s' = acked (length rqs) ((protocol s)\<lparr>incoming := rest, cuts := cs\<rparr>)"
  using assms
proof (induction rqs arbitrary: s ts as)
  case Nil
  then show ?case by (intro exI [of _ s] exI [of _ "cuts (protocol s)"]) simp
next
  case (Cons rq rqs)
  let ?ts = "ts @ transactions_in rq" and ?as = "as @ accounts_in rq"
  have rq: "good_request rq" "good_lines rq" using Cons.prems(3) by simp_all
  have r: "room (protocol s) = None" using Cons.prems(1) by (simp add: forwarded_def works_def)
  obtain cs where m: "receive_msg (protocol s) = ((protocol s)\<lparr>incoming := concat (map request_bytes rqs) @ rest, cuts := cs\<rparr>, Inr rq)"
    using consumes_request [OF rq(1)] Cons.prems(2) unfolding consumes_def by force
  let ?p = "(protocol s)\<lparr>incoming := concat (map request_bytes rqs) @ rest, cuts := cs\<rparr>"
  have "forwarded q cid (s\<lparr>protocol := ?p\<rparr>) ts as" using forwarded_new_protocol [OF Cons.prems(1)] r by simp
  from forwarded_request [OF this rq(2)] obtain s1 where s1: "handle_request fresh rq (s\<lparr>protocol := ?p\<rparr>) = (s1, None)"
    "forwarded q cid s1 ?ts ?as" "protocol s1 = acked 1 ?p" by force
  have st: "serve fresh s = serve fresh s1" by (rule serve_step) (simp add: serve_one_def m s1)
  have in1: "incoming (protocol s1) = concat (map request_bytes rqs) @ rest" by (simp add: s1)
  obtain s' cs' where "serve fresh s1 = serve fresh s'"
    "forwarded q cid s' (?ts @ concat (map transactions_in rqs)) (?as @ concat (map accounts_in rqs))"
    "protocol s' = acked (length rqs) ((protocol s1)\<lparr>incoming := rest, cuts := cs'\<rparr>)"
    using Cons.IH [OF s1(2) in1] Cons.prems(3) by auto
  then show ?case using st s1(3) by (intro exI [of _ s'] exI [of _ cs']) simp
qed

text \<open>A stream that is over ends the connection.\<close>

lemma receive_msg_closed: "incoming p = [] \<Longrightarrow> receive_msg p = (p, Inl (read_fault p))"
  by (simp add: receive_msg_def recv_then_def receive_msg_type_def read_all_def read_loop.simps [of "Suc 0"] conn_read_def)

lemma cleanup_broadcast:
  assumes "works s" "cc_id s = cid" "delivered_all q cid s ts as ms ns"
  shows "delivered_all q cid (connection_cleanup fresh s) ts as (ms @ [cleanup_msg cid]) (ns @ [cleanup_msg cid]) \<and>
    cleaned (connection_cleanup fresh s) \<and> protocol (connection_cleanup fresh s) = protocol s"
proof -
  have "idle (queues_of s)" using assms(1) by (simp add: works_def)
  then have b: "broadcast_client_cleanup s = (s\<lparr>queues_of := (queues_of s)\<lparr>
      currencyFilterQueue := currencyFilterQueue (queues_of s) @ [cleanup_msg cid], rawDataQueue := rawDataQueue (queues_of s) @ [cleanup_msg cid],
      maxBankRouterQueue := maxBankRouterQueue (queues_of s) @ [cleanup_msg cid]\<rparr>\<rparr>, None)"
    by (simp add: broadcast_client_cleanup_def on_queues_def zoom_def then_act_def gw_send_defs call_no_faults ok_def assms(2) Let_def)
  show ?thesis
    using delivered_all_more [OF assms(3), of "connection_cleanup fresh s" "[cleanup_msg cid]" "[cleanup_msg cid]"]
    by (simp add: connection_cleanup_def ignore_err_def b handle_cleanup_msg_def new_batch_ids_def)
qed

section \<open>The loop ends\<close>

text \<open>Reading never makes the stream longer, and a request takes at least a byte.\<close>

lemma conn_read_le: "length (incoming (fst (conn_read n p))) \<le> length (incoming p)"
  by (simp add: conn_read_def Let_def)

lemma read_loop_le: "length (incoming (fst (read_loop n got p))) \<le> length (incoming p)"
proof (induction n got p rule: read_loop.induct)
  case (1 n got p)
  show ?case
  proof (cases "length got < n")
    case True
    obtain p' r where r: "conn_read (n - length got) p = (p', r)" by fastforce
    have le: "length (incoming p') \<le> length (incoming p)" using conn_read_le [of "n - length got" p] r by simp
    show ?thesis
    proof (cases r)
      case (Inr d)
      then show ?thesis using "1.IH" [OF True r [symmetric] Inr] le True r
        by (simp add: read_loop.simps [of n got p])
    qed (use True r le in \<open>simp add: read_loop.simps [of n got p]\<close>)
  qed (simp add: read_loop.simps [of n got p])
qed

definition takes :: "'a recv \<Rightarrow> bool" where
  "takes m \<longleftrightarrow> (\<forall>p. length (incoming (fst (m p))) \<le> length (incoming p))"

lemma takes_read_all [intro, simp]: "takes (read_all n)"
  by (simp add: takes_def read_all_def read_loop_le)

lemma takes_done [intro, simp]: "takes (recv_done a)"
  by (simp add: takes_def recv_done_def)

lemma takes_fail [intro, simp]: "takes (recv_fail e)"
  by (simp add: takes_def recv_fail_def)

lemma takes_then: "takes m \<Longrightarrow> (\<And>a. takes (f a)) \<Longrightarrow> takes (recv_then m f)"
proof -
  assume m: "takes m" and f: "\<And>a. takes (f a)"
  have "length (incoming (fst (recv_then m f p))) \<le> length (incoming p)" for p
  proof -
    obtain p1 r where r: "m p = (p1, r)" by fastforce
    then have "length (incoming p1) \<le> length (incoming p)" using m unfolding takes_def by (metis fst_conv)
    then show ?thesis using r f unfolding takes_def recv_then_def by (auto split: sum.split intro: le_trans)
  qed
  then show ?thesis by (simp add: takes_def)
qed

lemma takes_record: "takes receive_record"
  unfolding receive_record_def by (intro takes_then) simp_all

lemma takes_records: "takes (receive_records n)"
  by (induction n) (simp_all add: takes_record takes_then)

lemma takes_batch: "takes receive_batch"
  unfolding receive_batch_def by (intro takes_then takes_records) simp

lemma receive_msg_type_shrinks:
  assumes "receive_msg_type p = (p', Inr t)"
  shows "length (incoming p') < length (incoming p)"
proof (cases "incoming p")
  case Nil
  then show ?thesis using assms
    by (simp add: receive_msg_type_def recv_then_def read_all_def read_loop.simps [of "Suc 0"] conn_read_def)
next
  case (Cons b bs)
  then obtain cs where "receive_msg_type p = (p\<lparr>incoming := bs, cuts := cs\<rparr>, Inr b)"
    using consumes_type [of b] unfolding consumes_def by fastforce
  then show ?thesis using assms Cons by auto
qed

lemma receive_msg_shrinks:
  assumes "receive_msg p = (p', Inr rq)"
  shows "length (incoming p') < length (incoming p)"
proof -
  obtain p1 t where t: "receive_msg_type p = (p1, Inr t)"
    using assms by (auto simp: receive_msg_def recv_then_def split: prod.splits sum.splits)
  have "takes (if t = transactionBatch then recv_then receive_batch (\<lambda>rs. recv_done (TransactionBatch rs))
     else if t = accountBatch then recv_then receive_batch (\<lambda>rs. recv_done (AccountBatch rs))
     else if t = eof_type then recv_done RequestEOF
     else recv_fail ErrInvalidType)" (is "takes ?m")
    by (simp add: takes_batch takes_then)
  moreover have "?m p1 = (p', Inr rq)" using assms by (simp add: receive_msg_def recv_then_def t)
  ultimately have "length (incoming p') \<le> length (incoming p1)" unfolding takes_def by (metis fst_conv)
  then show ?thesis using receive_msg_type_shrinks [OF t] by simp
qed

text \<open>Handling a request writes to the connection but does not read from it.\<close>

definition unread :: "u8 list \<Rightarrow> client_connection \<Rightarrow> bool" where
  "unread bs s \<longleftrightarrow> incoming (protocol s) = bs"

lemma write_all_incoming: "incoming (fst (write_all d p)) = incoming p"
  by (simp add: write_all_def split: option.split)

lemma unread_queues [pres_intros]:
  "preserves (unread bs) (on_queues a)" "preserves (unread bs) (on_transactions f)"
  "preserves (unread bs) (on_raw_data g)" "preserves (unread bs) (on_accounts h)"
  by (simp_all add: preserves_def unread_def on_queues_def on_transactions_def on_raw_data_def on_accounts_def zoom_def
      split: prod.split)

lemma unread_send_type: "preserves (unread bs) (on_protocol (send_msg_type t))"
  by (simp add: preserves_def unread_def on_protocol_def zoom_def send_msg_type_def case_prod_unfold write_all_incoming)

lemma unread_handle_transaction: "preserves (unread bs) (handle_transaction r)"
  unfolding handle_transaction_def
  by (auto split: sum.split intro!: pres_intros simp: preserves_then unread_queues) (simp add: unread_def)

lemma unread_handle_account: "preserves (unread bs) (handle_account r)"
  unfolding handle_account_def
  by (auto split: sum.split intro!: pres_intros simp: preserves_then unread_queues) (simp add: unread_def)

lemma unread_with_uuid: "(\<And>u. preserves (unread bs) (f u)) \<Longrightarrow> preserves (unread bs) (with_uuid fresh f)"
  by (simp add: preserves_def with_uuid_def unread_def)

lemma unread_handle_eof: "preserves (unread bs) (handle_eof fresh)"
proof -
  have "preserves (unread bs) (transactions_eof u)" "preserves (unread bs) (accounts_eof u)" for u
    using unread_queues(1) by (simp_all add: preserves_def transactions_eof_def accounts_eof_def Let_def)
  then show ?thesis unfolding handle_eof_def flush_batchers_def
    by (auto intro!: preserves_then unread_queues unread_with_uuid unread_send_type simp: send_ack_def)
qed

lemma unread_handle_request: "preserves (unread bs) (handle_request fresh rq)"
  by (cases rq) (auto simp: handle_transaction_batch_def handle_account_batch_def send_ack_def unread_send_type
      unread_handle_transaction unread_handle_account unread_handle_eof intro!: preserves_then preserves_for_each)

lemma serve_one_shrinks:
  assumes "serve_one fresh s = (s', None)"
  shows "length (incoming (protocol s')) < length (incoming (protocol s))"
proof -
  obtain p rq where m: "receive_msg (protocol s) = (p, Inr rq)"
    using assms by (auto simp: serve_one_def split: prod.splits sum.splits)
  obtain s1 e where h: "handle_request fresh rq (s\<lparr>protocol := p\<rparr>) = (s1, e)" by fastforce
  have "unread (incoming p) s1"
    using preservesD [OF unread_handle_request, of "incoming p" "s\<lparr>protocol := p\<rparr>" fresh rq] h by (simp add: unread_def)
  moreover from this have "unread (incoming p) (fst (on_protocol send_nack s1))"
    using preservesD [OF unread_send_type, of "incoming p" s1 nack_type] by (simp add: send_nack_def)
  ultimately have "incoming (protocol s') = incoming p"
    using assms m h by (cases e) (auto simp: serve_one_def unread_def)
  then show ?thesis using receive_msg_shrinks [OF m] by simp
qed

section \<open>Properties\<close>

lemma new_batcher_plain:
  assumes "\<And>x. 0 < f x"
  shows "plain_batcher (set_new_batch_id u DefaultBatchId (new_batcher (gateway_batch f)))"
    "batchItems (batch (set_new_batch_id u DefaultBatchId (new_batcher (gateway_batch f)))) = []"
proof -
  have "wrap_items = (\<lambda>xs. xs)" by (rule ext) (simp add: wrap_items_def)
  then have "plain_batcher (new_batcher (gateway_batch f))"
    using assms by (simp add: plain_batcher_def new_batcher_def gateway_batch_def new_batch_ok) (simp add: new_batch_def)
  then show "plain_batcher (set_new_batch_id u DefaultBatchId (new_batcher (gateway_batch f)))"
    "batchItems (batch (set_new_batch_id u DefaultBatchId (new_batcher (gateway_batch f)))) = []"
    by (simp_all add: plain_batcher_def set_new_batch_id_def batch_ok_def new_batcher_def gateway_batch_def new_batch_def Let_def)
qed

lemma new_batcher_empty [simp]: "batchItems (batch (new_batcher (gateway_batch f))) = []"
  by (simp add: new_batcher_def gateway_batch_def new_batch_def)

lemma new_connection_forwarded:
  assumes "room p = None" "outcomes q = []" "\<And>x. 0 < size_transaction sz x" "\<And>x. 0 < size_to_convert sz x" "\<And>x. 0 < size_maxbank sz x"
  shows "forwarded q cid (new_client_connection fresh sz cid p q joins) [] []"
  using assms
  by (simp add: forwarded_def works_def new_client_connection_def set_up_batchers_def new_batch_ids_def carries_def new_batcher_plain new_batcher_empty)

lemma new_connection_fields [simp]:
  "protocol (new_client_connection fresh sz cid p q joins) = p"
  by (simp add: new_client_connection_def set_up_batchers_def new_batch_ids_def)

lemma forwarded_run:
  assumes "\<forall>rq \<in> set rqs. good_request rq \<and> good_lines rq"
    and "incoming p = concat (map request_bytes rqs) @ request_bytes RequestEOF" "read_fault p = ErrClosed" "room p = None"
    and "outcomes q = []" "\<And>x. 0 < size_transaction sz x" "\<And>x. 0 < size_to_convert sz x" "\<And>x. 0 < size_maxbank sz x"
  defines "ts \<equiv> concat (map transactions_in rqs)" and "as \<equiv> concat (map accounts_in rqs)"
  shows "\<exists>s' i j. serve fresh (new_client_connection fresh sz cid p q joins) = Some (s', None) \<and>
    delivered_all q cid s' ts as [eof_message cid (of_nat (length ts)) i, cleanup_msg cid]
      [eof_message cid (of_nat (length as)) j, cleanup_msg cid] \<and>
    outgoing (protocol s') = outgoing p @ replicate (Suc (length rqs)) ack_type"
proof -
  let ?s = "new_client_connection fresh sz cid p q joins"
  have f: "forwarded q cid ?s [] []" by (rule new_connection_forwarded [OF assms(4-8)])
  obtain s1 cs where 1: "serve fresh ?s = serve fresh s1" "forwarded q cid s1 ts as"
    "protocol s1 = acked (length rqs) (p\<lparr>incoming := request_bytes RequestEOF, cuts := cs\<rparr>)"
    using serve_requests [OF f _ assms(1), of "request_bytes RequestEOF" fresh] assms(2) by (auto simp: ts_def as_def)
  have "consumes receive_msg (request_bytes RequestEOF) RequestEOF" by (rule consumes_request) simp
  moreover have "incoming (protocol s1) = request_bytes RequestEOF @ []" by (simp add: 1(3))
  ultimately obtain cs2 where m: "receive_msg (protocol s1) = ((protocol s1)\<lparr>incoming := [], cuts := cs2\<rparr>, Inr RequestEOF)"
    unfolding consumes_def by blast
  let ?p = "(protocol s1)\<lparr>incoming := [], cuts := cs2\<rparr>"
  have "room (protocol s1) = None" using 1(3) assms(4) by simp
  then have "forwarded q cid (s1\<lparr>protocol := ?p\<rparr>) ts as" using forwarded_new_protocol [OF 1(2)] by simp
  from eof_forwarded [OF this, of fresh] obtain s2 i j where 2: "handle_eof fresh (s1\<lparr>protocol := ?p\<rparr>) = (s2, None)"
    "works s2" "cc_id s2 = cid" "protocol s2 = acked 1 ?p"
    "delivered_all q cid s2 ts as [eof_message cid (of_nat (length ts)) i] [eof_message cid (of_nat (length as)) j]" by auto
  have st: "serve fresh s1 = serve fresh s2" by (rule serve_step) (simp add: serve_one_def m 2)
  have "receive_msg (protocol s2) = (protocol s2, Inl ErrClosed)"
    using receive_msg_closed [of "protocol s2"] 2(4) 1(3) assms(3) by simp
  then have "serve fresh s2 = Some (connection_cleanup fresh s2, None)"
    by (subst serve.simps) (simp add: serve_one_def handle_disconnection_def)
  moreover have "outgoing (protocol s2) = outgoing p @ replicate (Suc (length rqs)) ack_type"
    by (simp add: 2(4) 1(3) replicate_append_same)
  ultimately show ?thesis using 1(1) st cleanup_broadcast [OF 2(2,3,5), of fresh] by fastforce
qed

text \<open>
  The gateway forwards the client's files. A client sends any requests whose lines are well formed, then
  its EOF, and closes; nothing fails on the way. Then the loop of the connection ends without an error, every
  request was acknowledged, and behind what was on the three entry queues stand: the batches of the transactions
  of all requests, in order, on the first two (on the second without the parties), those of the accounts on the third;
  then the EOF with the number of transactions, under one identifier on the first two queues, and with the number of
  accounts on the third; and then the cleanup of the client.
\<close>

theorem gateway_forwards_the_files:
  assumes "\<forall>rq \<in> set rqs. good_request rq \<and> good_lines rq"
    and "incoming p = concat (map request_bytes rqs) @ request_bytes RequestEOF" "read_fault p = ErrClosed" "room p = None"
    and "outcomes q = []" "\<And>x. 0 < size_transaction sz x" "\<And>x. 0 < size_to_convert sz x" "\<And>x. 0 < size_maxbank sz x"
  defines "ts \<equiv> concat (map transactions_in rqs)" and "as \<equiv> concat (map accounts_in rqs)"
  shows "\<exists>s' i j. serve fresh (new_client_connection fresh sz cid p q joins) = Some (s', None) \<and>
    delivered_all q cid s' ts as [eof_message cid (of_nat (length ts)) i, cleanup_msg cid]
      [eof_message cid (of_nat (length as)) j, cleanup_msg cid] \<and>
    outgoing (protocol s') = outgoing p @ replicate (Suc (length rqs)) ack_type"
  unfolding ts_def as_def by (rule forwarded_run [OF assms(1-8)])

definition sample_files :: "request list" where
  "sample_files = [TransactionBatch [''2022/09/01 00:20,10,8000EBD30,10,8000EBD30,3697.34,US Dollar,3697.34,US Dollar,Reinvestment,0''],
     AccountBatch [''Bank A,33,80B779D80,80062E240,Sole Proprietorship #50438'']]"

lemma sample_files_good: "\<forall>rq \<in> set sample_files. good_request rq \<and> good_lines rq"
proof -
  have "\<not> isl (raw_transaction_to_proto_transaction ''2022/09/01 00:20,10,8000EBD30,10,8000EBD30,3697.34,US Dollar,3697.34,US Dollar,Reinvestment,0'')"
    "\<not> isl (raw_account_to_proto_maxbank ''Bank A,33,80B779D80,80062E240,Sole Proprietorship #50438'')"
    by code_simp+
  then show ?thesis by (simp add: sample_files_def)
qed

theorem gateway_forwards_the_files_witness:
  "\<exists>s' i j. serve show_nat (new_client_connection show_nat \<lparr>size_transaction = \<lambda>_. 5, size_to_convert = \<lambda>_. 5, size_maxbank = \<lambda>_. 5\<rparr> ''c''
      (sample_connection\<lparr>incoming := concat (map request_bytes sample_files) @ [eof_type]\<rparr>)
      \<lparr>outcomes = [], currencyFilterQueue = [], rawDataQueue = [], maxBankRouterQueue = []\<rparr> 3) = Some (s', None) \<and>
    delivered_all \<lparr>outcomes = [], currencyFilterQueue = [], rawDataQueue = [], maxBankRouterQueue = []\<rparr> ''c'' s'
      (concat (map transactions_in sample_files)) (concat (map accounts_in sample_files))
      [eof_message ''c'' (of_nat (length (concat (map transactions_in sample_files)))) i, cleanup_msg ''c'']
      [eof_message ''c'' (of_nat (length (concat (map accounts_in sample_files)))) j, cleanup_msg ''c''] \<and>
    outgoing (protocol s') = [ack_type, ack_type, ack_type]"
  using gateway_forwards_the_files [OF sample_files_good,
      of "sample_connection\<lparr>incoming := concat (map request_bytes sample_files) @ [eof_type]\<rparr>"
        "\<lparr>outcomes = [], currencyFilterQueue = [], rawDataQueue = [], maxBankRouterQueue = []\<rparr>"
        "\<lparr>size_transaction = \<lambda>_. 5, size_to_convert = \<lambda>_. 5, size_maxbank = \<lambda>_. 5\<rparr>" show_nat "''c''" 3]
  by (simp add: sample_connection_def) (simp add: sample_files_def)

text \<open>
  C10. A connection does not hang. Whatever the client sends, however the network cuts it, whichever
  publications and writes fail and in whatever state the connection is, the loop that serves it ends: every round
  takes at least a byte of the stream or is the last.
\<close>

theorem serving_ends: "\<exists>s' r. serve fresh s = Some (s', r)"
proof (induction "length (incoming (protocol s))" arbitrary: s rule: less_induct)
  case less
  obtain s1 r where s1: "serve_one fresh s = (s1, r)" by fastforce
  show ?case
  proof (cases r)
    case None
    then obtain s' r' where "serve fresh s1 = Some (s', r')" using less serve_one_shrinks s1 by blast
    then show ?thesis using serve_step [of fresh s s1] s1 None by simp
  next
    case (Some x)
    then show ?thesis using s1 by (subst serve.simps) simp
  qed
qed

end
