(* ===== verification/GatewayResults.thy ===== *)
theory GatewayResults
  imports GatewayRuns
begin

text \<open>
  What a connection of the gateway makes of the results of the workers: each batch is passed on once, the partial
  counts of the conversion joins become one count, and the tenth EOF ends the results of the client. A result
  that could not be passed on is lost, because it is marked as seen before it is handled.
\<close>

section \<open>The specification\<close>

definition is_eof :: "money_laundry \<Rightarrow> bool" where
  "is_eof m \<longleftrightarrow> ml_type m = MT_EOF"

definition is_count :: "money_laundry \<Rightarrow> bool" where
  "is_count m \<longleftrightarrow> ml_type m = MT_CONVERTED_MICRO_PAYMENT_RESULT_BATCH"

definition count_of :: "money_laundry \<Rightarrow> int" where
  "count_of m = (case ml_inner m of ConvertedmicropaymentresultBatch rs \<Rightarrow> sum_list (map payment_count rs) | _ \<Rightarrow> 0)"

text \<open>The results in a batch of one of the four queries that are passed on as they come.\<close>

definition results_in :: "money_laundry \<Rightarrow> result list" where
  "results_in m = (case ml_inner m of
     MicrotransactionsBatch xs \<Rightarrow> map (\<lambda>x. case x of None \<Rightarrow> MicrotransactionResult [] [] 0
       | Some t \<Rightarrow> MicrotransactionResult (micro_account t) (micro_to_account t) (micro_amount t)) xs
   | MaxBankResultBatch xs \<Rightarrow> map (\<lambda>r. MaxBankResult (mr_bank_name r) (mr_account r) (mr_amount r)) xs
   | AvgbytypeResultBatch xs \<Rightarrow> map (\<lambda>r. AvgByTypeResult (ar_account r) (ar_amount r)) xs
   | SuspiciousaccountBatch as \<Rightarrow> [SuspiciousAccountsResult (map (\<lambda>a. (bank a, account_name a)) as)]
   | _ \<Rightarrow> [])"

definition result_message :: "money_laundry \<Rightarrow> bool" where
  "result_message m \<longleftrightarrow> is_eof m \<or> (case (ml_type m, ml_inner m) of
     (MT_MICROTRANSACTION_BATCH, MicrotransactionsBatch xs) \<Rightarrow> True
   | (MT_MAX_BANK_RESULT_BATCH, MaxBankResultBatch xs) \<Rightarrow> True
   | (MT_AVGBYTYPE_RESULT_BATCH, AvgbytypeResultBatch xs) \<Rightarrow> True
   | (MT_SUSPICIOUS_ACCOUNT_BATCH, SuspiciousaccountBatch as) \<Rightarrow> True
   | (MT_CONVERTED_MICRO_PAYMENT_RESULT_BATCH, ConvertedmicropaymentresultBatch xs) \<Rightarrow> True
   | _ \<Rightarrow> False)"

text \<open>The first message of every identifier; and what the last of the first messages \<open>fs\<close> adds to what the client gets.\<close>

definition first_of_its_id :: "money_laundry \<Rightarrow> money_laundry list \<Rightarrow> money_laundry list" where
  "first_of_its_id m fs = (if ml_batch_id m \<in> ml_batch_id ` set fs then fs else fs @ [m])"

definition firsts :: "money_laundry list \<Rightarrow> money_laundry list" where
  "firsts ms = fold first_of_its_id ms []"

definition added_by_last :: "int \<Rightarrow> money_laundry list \<Rightarrow> result list" where
  "added_by_last k fs =
     (if is_eof (last fs) then (if length (filter is_eof fs) = 10 then [ResultEOF] else [])
      else if is_count (last fs) then
        (if int (length (filter is_count fs)) = k
         then [ConvertedMicroPaymentResult (sum_list (map count_of (filter is_count fs)))] else [])
      else results_in (last fs))"

definition relayed :: "int \<Rightarrow> money_laundry list \<Rightarrow> result list" where
  "relayed k fs = concat (map (\<lambda>i. added_by_last k (take (Suc i) fs)) [0..<length fs])"

lemma relayed_Nil [simp]: "relayed k [] = []"
  by (simp add: relayed_def)

lemma relayed_snoc: "relayed k (fs @ [m]) = relayed k fs @ added_by_last k (fs @ [m])"
proof -
  have "map (\<lambda>i. added_by_last k (take (Suc i) (fs @ [m]))) [0..<length fs] = map (\<lambda>i. added_by_last k (take (Suc i) fs)) [0..<length fs]"
    by (rule map_cong) (auto simp: not_less)
  moreover have "relayed k (fs @ [m]) = concat (map (\<lambda>i. added_by_last k (take (Suc i) (fs @ [m]))) ([0..<length fs] @ [length fs]))"
    by (simp add: relayed_def)
  ultimately show ?thesis by (simp only: map_append concat_append relayed_def) simp
qed

section \<open>A batch that is seen for the first time\<close>

definition relaying :: "float_ops \<Rightarrow> int \<Rightarrow> u8 list \<Rightarrow> money_laundry list \<Rightarrow> client_connection \<Rightarrow> bool" where
  "relaying F k pre fs s \<longleftrightarrow> room (protocol s) = None \<and> \<not> cleaned s \<and> set (seenResults s) = ml_batch_id ` set fs \<and>
     EOFamountReceived s = int (length (filter is_eof fs)) \<and>
     micropaymentsCount s = sum_list (map count_of (filter is_count fs)) \<and>
     converterJoinAmount s = k - int (length (filter is_count fs)) \<and>
     outgoing (protocol s) = pre @ concat (map (result_bytes F) (relayed k fs))"

lemma foldl_count: "foldl (\<lambda>c r. c + f r) (a :: int) xs = a + sum_list (map f xs)"
  by (induction xs arbitrary: a) simp_all

text \<open>A handler that sends the results of its batch and nothing more.\<close>

lemma settle_sends:
  assumes "a (protocol s) = ((protocol s)\<lparr>outgoing := outgoing (protocol s) @ bs\<rparr>, None)"
  shows "settle_by (on_protocol a) s = (s\<lparr>protocol := (protocol s)\<lparr>outgoing := outgoing (protocol s) @ bs\<rparr>\<rparr>, Ack)"
  by (simp add: settle_by_def on_protocol_def zoom_def assms)

lemma on_protocol_for_each: "for_each (\<lambda>x. on_protocol (f x)) xs = on_protocol (for_each f xs)"
proof (induction xs)
  case Nil
  then show ?case by (intro ext) (simp add: on_protocol_def zoom_def ok_def)
next
  case (Cons x xs)
  then show ?case
    by (intro ext) (simp add: on_protocol_def zoom_def then_act_def split: prod.split option.split)
qed

lemma data_result_sent:
  assumes "result_message m" "\<not> is_eof m" "\<not> is_count m" "room (protocol s) = None"
  shows "dispatch_result F m s = (s\<lparr>protocol := (protocol s)\<lparr>outgoing := outgoing (protocol s) @
    concat (map (result_bytes F) (results_in m))\<rparr>\<rparr>, Ack)"
proof -
  note send = for_each_send [OF send_record_works, where s = "protocol s", OF _ assms(4)]
  from assms(1-3) consider
      (micro) xs where "ml_type m = MT_MICROTRANSACTION_BATCH" "ml_inner m = MicrotransactionsBatch xs"
    | (max) xs where "ml_type m = MT_MAX_BANK_RESULT_BATCH" "ml_inner m = MaxBankResultBatch xs"
    | (avg) xs where "ml_type m = MT_AVGBYTYPE_RESULT_BATCH" "ml_inner m = AvgbytypeResultBatch xs"
    | (susp) as where "ml_type m = MT_SUSPICIOUS_ACCOUNT_BATCH" "ml_inner m = SuspiciousaccountBatch as"
    by (auto simp: result_message_def is_eof_def is_count_def split: message_type.splits inner_message.splits)
  then show ?thesis
  proof cases
    case micro
    let ?g = "\<lambda>(a, b, x). microtransactionResult # record_bytes (a @ COMMA # b @ COMMA # f_show6 F x)"
    let ?ys = "proto_to_microtransactions_result m"
    have "send_microtransaction_result F ?ys (protocol s) =
        ((protocol s)\<lparr>outgoing := outgoing (protocol s) @ concat (map ?g ?ys)\<rparr>, None)"
      unfolding send_microtransaction_result_def
      by (rule for_each_send [OF _ assms(4)]) (auto simp: send_record_works)
    moreover have "concat (map ?g ?ys) = concat (map (result_bytes F) (results_in m))"
      by (intro arg_cong [of _ _ concat])
        (auto simp: micro results_in_def proto_to_microtransactions_result_def split: option.split)
    ultimately show ?thesis
      by (simp add: dispatch_result_def micro handle_microtransaction_result_def settle_sends)
  next
    case max
    let ?g = "\<lambda>r. maxBankResult # record_bytes (mr_bank_name r @ COMMA # mr_account r @ COMMA # mr_amount r)"
    have "send_max_bank_result xs (protocol s) = ((protocol s)\<lparr>outgoing := outgoing (protocol s) @ concat (map ?g xs)\<rparr>, None)"
      unfolding send_max_bank_result_def by (rule for_each_send [OF _ assms(4)]) (simp add: send_record_works)
    then show ?thesis
      by (simp add: dispatch_result_def max handle_max_bank_result_def proto_to_maxbank_result_def settle_sends results_in_def comp_def)
  next
    case avg
    let ?g = "\<lambda>r. avgByTypeResult # record_bytes (ar_account r @ COMMA # ar_amount r)"
    have "for_each send_avg_result xs (protocol s) = ((protocol s)\<lparr>outgoing := outgoing (protocol s) @ concat (map ?g xs)\<rparr>, None)"
      by (rule for_each_send [OF _ assms(4)]) (simp add: send_record_works send_avg_result_def)
    then show ?thesis
      by (simp add: dispatch_result_def avg handle_avg_by_type_result_def proto_to_avg_by_type_results_def
          on_protocol_for_each settle_sends results_in_def comp_def)
  next
    case susp
    let ?g = "\<lambda>a. suspiciousAccountsResult # record_bytes (show_int (sint (bank a)) @ COMMA # account_name a)"
    have "send_suspicious_result as (protocol s) = ((protocol s)\<lparr>outgoing := outgoing (protocol s) @ concat (map ?g as)\<rparr>, None)"
      unfolding send_suspicious_result_def by (rule for_each_send [OF _ assms(4)]) (simp add: send_record_works)
    then show ?thesis
      by (simp add: dispatch_result_def susp handle_suspicious_result_def proto_to_suspicious_accounts_def settle_sends
          results_in_def comp_def)
  qed
qed

lemma new_result_relayed:
  assumes "relaying F k pre fs s" "result_message m" "ml_batch_id m \<notin> ml_batch_id ` set fs"
  shows "\<exists>s'. handle_result fresh F (Some m) s = (s', Ack) \<and> relaying F k pre (fs @ [m]) s'"
proof -
  have "handle_result fresh F (Some m) s = dispatch_result F m (mark_result_as_seen (ml_batch_id m) s)"
    using assms by (auto simp: handle_result_def relaying_def is_result_seen_def result_message_def is_eof_def
        split: message_type.splits)
  moreover
  let ?s = "mark_result_as_seen (ml_batch_id m) s"
  have seen: "set (seenResults ?s) = ml_batch_id ` set (fs @ [m])" using assms(1) by (auto simp: mark_result_as_seen_def relaying_def)
  have s: "room (protocol ?s) = None" "protocol ?s = protocol s" "EOFamountReceived ?s = EOFamountReceived s" "cleaned ?s = cleaned s"
    "micropaymentsCount ?s = micropaymentsCount s" "converterJoinAmount ?s = converterJoinAmount s"
    using assms(1) by (simp_all add: mark_result_as_seen_def relaying_def)
  note send = send_result_works [OF s(1)]
  consider (eof) "is_eof m" | (cnt) "is_count m" | (data) "\<not> is_eof m" "\<not> is_count m" by blast
  then have "\<exists>s'. dispatch_result F m ?s = (s', Ack) \<and> relaying F k pre (fs @ [m]) s'"
  proof cases
    case eof
    then have "\<not> is_count m" by (simp add: is_eof_def is_count_def)
    with eof show ?thesis
      using assms(1) seen s send [of F ResultEOF]
      by (auto simp: dispatch_result_def is_eof_def [of m] handle_eof_from_worker_def eofAmountExpected_def relaying_def
          relayed_snoc added_by_last_def on_protocol_def zoom_def Let_def)
  next
    case cnt
    then have e: "\<not> is_eof m" by (simp add: is_eof_def is_count_def)
    with cnt assms(2) obtain rs where m: "ml_type m = MT_CONVERTED_MICRO_PAYMENT_RESULT_BATCH" "ml_inner m = ConvertedmicropaymentresultBatch rs"
      by (auto simp: result_message_def is_eof_def is_count_def split: message_type.splits inner_message.splits)
    have c: "proto_to_converted_micropayment_result_batch m = Inr (count_of m)"
      by (simp add: proto_to_converted_micropayment_result_batch_def m count_of_def foldl_count)
    show ?thesis
      using assms(1) seen s e cnt send [of F "ConvertedMicroPaymentResult (sum_list (map count_of (filter is_count fs)) + count_of m)"]
      by (auto simp: dispatch_result_def m(1) handle_converted_result_def c settle_by_def Let_def on_protocol_def zoom_def
          relaying_def relayed_snoc added_by_last_def)
  next
    case data
    then show ?thesis
      using assms(1) seen s data_result_sent [OF assms(2) data s(1), of F]
      by (auto simp: relaying_def relayed_snoc added_by_last_def)
  qed
  ultimately show ?thesis by simp
qed

lemma seen_result_skipped:
  "relaying F k pre fs s \<Longrightarrow> ml_batch_id m \<in> ml_batch_id ` set fs \<Longrightarrow> ml_type m \<noteq> MT_CLEANUP \<Longrightarrow>
     handle_result fresh F (Some m) s = (s, Ack)"
  by (simp add: handle_result_def relaying_def is_result_seen_def)

section \<open>Properties\<close>

text \<open>The results of a client, in the order in which the connection consumes them.\<close>

fun consume_results :: "(nat \<Rightarrow> string) \<Rightarrow> float_ops \<Rightarrow> money_laundry list \<Rightarrow> client_connection \<Rightarrow> client_connection \<times> delivery list" where
  "consume_results fresh F [] s = (s, [])"
| "consume_results fresh F (m # ms) s =
     (case handle_result fresh F (Some m) s of (s', d) \<Rightarrow>
        (case consume_results fresh F ms s' of (s'', ds) \<Rightarrow> (s'', d # ds)))"

lemma results_relayed:
  assumes "relaying F k pre fs s" "\<forall>m \<in> set ms. result_message m"
  shows "\<exists>s'. consume_results fresh F ms s = (s', replicate (length ms) Ack) \<and> relaying F k pre (fold first_of_its_id ms fs) s'"
  using assms
proof (induction ms arbitrary: fs s)
  case (Cons m ms)
  have "\<exists>s1. handle_result fresh F (Some m) s = (s1, Ack) \<and> relaying F k pre (first_of_its_id m fs) s1"
  proof (cases "ml_batch_id m \<in> ml_batch_id ` set fs")
    case True
    moreover have "ml_type m \<noteq> MT_CLEANUP" using Cons.prems(2) by (auto simp: result_message_def is_eof_def)
    ultimately show ?thesis using Cons.prems(1) seen_result_skipped by (auto simp: first_of_its_id_def)
  next
    case False
    then show ?thesis using new_result_relayed [OF Cons.prems(1)] Cons.prems(2) by (simp add: first_of_its_id_def)
  qed
  then obtain s1 where "handle_result fresh F (Some m) s = (s1, Ack)" "relaying F k pre (first_of_its_id m fs) s1" by blast
  moreover from Cons.IH [OF this(2)] Cons.prems(2) obtain s' where
    "consume_results fresh F ms s1 = (s', replicate (length ms) Ack)" "relaying F k pre (fold first_of_its_id ms (first_of_its_id m fs)) s'"
    by auto
  ultimately show ?case by simp
qed simp

text \<open>
  C5. The client gets each result once, one count, and one EOF. The workers send any result messages, each any
  number of times, to a connection that works. Then all are acknowledged, and the bytes written to the client are
  those of the following results, in the order of the first message of each identifier: the results of the batches
  of the four queries; with the last of the \<open>k\<close> conversion joins the sum of all partial counts, and none for
  the others; with the tenth EOF the EOF, and none for the others.
\<close>

theorem results_reach_the_client:
  assumes "\<forall>m \<in> set ms. result_message m" "room p = None"
    and "\<And>x. 0 < size_transaction sz x" "\<And>x. 0 < size_to_convert sz x" "\<And>x. 0 < size_maxbank sz x"
  shows "\<exists>s'. consume_results fresh F ms (new_client_connection fresh sz cid p q k) = (s', replicate (length ms) Ack) \<and>
    outgoing (protocol s') = outgoing p @ concat (map (result_bytes F) (relayed k (firsts ms)))"
proof -
  have "relaying F k (outgoing p) [] (new_client_connection fresh sz cid p q k)"
    using assms(2) by (simp add: relaying_def new_client_connection_def set_up_batchers_def new_batch_ids_def)
  from results_relayed [OF this assms(1), of fresh] show ?thesis by (auto simp: relaying_def firsts_def)
qed

definition sample_worker_results :: "money_laundry list" where
  "sample_worker_results =
     [proto_message ''c'' MT_CONVERTED_MICRO_PAYMENT_RESULT_BATCH (ConvertedmicropaymentresultBatch [\<lparr>payment_count = 3\<rparr>]) ''j1'',
      proto_message ''c'' MT_MAX_BANK_RESULT_BATCH (MaxBankResultBatch [\<lparr>mr_bank_name = ''B'', mr_account = ''a'', mr_amount = ''7''\<rparr>]) ''m'',
      proto_message ''c'' MT_CONVERTED_MICRO_PAYMENT_RESULT_BATCH (ConvertedmicropaymentresultBatch [\<lparr>payment_count = 3\<rparr>]) ''j1'',
      proto_message ''c'' MT_CONVERTED_MICRO_PAYMENT_RESULT_BATCH (ConvertedmicropaymentresultBatch [\<lparr>payment_count = 4\<rparr>]) ''j2'']"

theorem results_reach_the_client_witness:
  "\<exists>s'. consume_results show_nat text_floats sample_worker_results
      (new_client_connection show_nat \<lparr>size_transaction = \<lambda>_. 5, size_to_convert = \<lambda>_. 5, size_maxbank = \<lambda>_. 5\<rparr> ''c'' sample_connection
        \<lparr>outcomes = [], currencyFilterQueue = [], rawDataQueue = [], maxBankRouterQueue = []\<rparr> 2) = (s', [Ack, Ack, Ack, Ack]) \<and>
    outgoing (protocol s') = result_bytes text_floats (MaxBankResult ''B'' ''a'' ''7'') @
      result_bytes text_floats (ConvertedMicroPaymentResult 7)"
proof -
  have "\<forall>m \<in> set sample_worker_results. result_message m" "room sample_connection = None"
    by (simp_all add: sample_worker_results_def result_message_def proto_message_def is_eof_def sample_connection_def)
  moreover have "relayed 2 (firsts sample_worker_results) = [MaxBankResult ''B'' ''a'' ''7'', ConvertedMicroPaymentResult 7]"
    by (simp add: sample_worker_results_def firsts_def first_of_its_id_def proto_message_def relayed_def added_by_last_def is_eof_def
        is_count_def results_in_def count_of_def upt_rec)
  moreover have "replicate (length sample_worker_results) Ack = [Ack, Ack, Ack, Ack]" "outgoing sample_connection = []"
    by (simp_all add: sample_worker_results_def sample_connection_def numeral_eq_Suc)
  ultimately show ?thesis
    using results_reach_the_client [of sample_worker_results sample_connection
        "\<lparr>size_transaction = \<lambda>_. 5, size_to_convert = \<lambda>_. 5, size_maxbank = \<lambda>_. 5\<rparr>" show_nat text_floats "''c''"
        "\<lparr>outcomes = [], currencyFilterQueue = [], rawDataQueue = [], maxBankRouterQueue = []\<rparr>" 2] by simp
qed

text \<open>
  C27. A result that fails once is lost. The handler marks a batch as seen before it handles it. If it answers with a
  nack, because the results do not decode or the connection does not take them, the broker delivers the batch
  again, and then it is acknowledged and dropped, even on a connection that works again. The same holds for an EOF,
  although its handler takes back its count for the next attempt.
\<close>

theorem failed_result_is_lost:
  assumes "handle_result fresh F (Some m) s = (s', Nack)"
  shows "handle_result fresh F (Some m) (s'\<lparr>protocol := p\<rparr>) = (s'\<lparr>protocol := p\<rparr>, Ack)"
proof -
  let ?s = "mark_result_as_seen (ml_batch_id m) s"
  have d: "ml_type m \<noteq> MT_CLEANUP" "dispatch_result F m ?s = (s', Nack)"
    using assms by (auto simp: handle_result_def split: if_splits)
  have keep: "seenResults (fst (settle_by a x)) = seenResults x" if "\<And>y. seenResults (fst (a y)) = seenResults y" for a x
    using that [of x] by (cases "a x"; cases "snd (a x)") (simp_all add: settle_by_def)
  have proto: "seenResults (fst (on_protocol a y)) = seenResults y" for a y
    by (simp add: on_protocol_def zoom_def split: prod.split)
  have eof: "seenResults (fst (handle_eof_from_worker x)) = seenResults x" for x
    by (simp add: handle_eof_from_worker_def on_protocol_def zoom_def Let_def split: prod.split option.split)
  have "seenResults (fst (dispatch_result F m ?s)) = seenResults ?s"
    by (auto simp: dispatch_result_def eof handle_avg_by_type_result_def handle_microtransaction_result_def
        handle_max_bank_result_def handle_converted_result_def handle_suspicious_result_def keep proto on_protocol_for_each
        fail_def Let_def split: message_type.split sum.split)
  then have "ml_batch_id m \<in> set (seenResults s')" using d(2) by (simp add: mark_result_as_seen_def)
  then show ?thesis using d(1) by (simp add: handle_result_def is_result_seen_def)
qed

theorem failed_result_is_lost_witness:
  "\<exists>s'. handle_result show_nat text_floats (Some (hd sample_worker_results\<lparr>ml_type := MT_EOF\<rparr>))
      ((new_client_connection show_nat \<lparr>size_transaction = \<lambda>_. 5, size_to_convert = \<lambda>_. 5, size_maxbank = \<lambda>_. 5\<rparr> ''c''
        (sample_connection\<lparr>room := Some 0\<rparr>) \<lparr>outcomes = [], currencyFilterQueue = [], rawDataQueue = [], maxBankRouterQueue = []\<rparr> 2)
       \<lparr>EOFamountReceived := 9\<rparr>) = (s', Nack) \<and>
    handle_result show_nat text_floats (Some (hd sample_worker_results\<lparr>ml_type := MT_EOF\<rparr>)) (s'\<lparr>protocol := sample_connection\<rparr>) =
      (s'\<lparr>protocol := sample_connection\<rparr>, Ack)"
proof -
  let ?s = "(new_client_connection show_nat \<lparr>size_transaction = \<lambda>_. 5, size_to_convert = \<lambda>_. 5, size_maxbank = \<lambda>_. 5\<rparr> ''c''
        (sample_connection\<lparr>room := Some 0\<rparr>) \<lparr>outcomes = [], currencyFilterQueue = [], rawDataQueue = [], maxBankRouterQueue = []\<rparr> 2)
       \<lparr>EOFamountReceived := 9\<rparr>"
  obtain s' d where s': "handle_result show_nat text_floats (Some (hd sample_worker_results\<lparr>ml_type := MT_EOF\<rparr>)) ?s = (s', d)" by fastforce
  then have "d = Nack"
    by (simp add: handle_result_def sample_worker_results_def proto_message_def is_result_seen_def new_client_connection_def
        set_up_batchers_def new_batch_ids_def mark_result_as_seen_def dispatch_result_def handle_eof_from_worker_def
        eofAmountExpected_def on_protocol_def zoom_def send_eof_type_def send_msg_type_def write_all_def sample_connection_def Let_def)
  then show ?thesis using failed_result_is_lost s' by blast
qed

end
