(* ===== verification/ClientRuns.thy ===== *)
theory ClientRuns
  imports Client GatewayResults
begin

text \<open>
  The client and the gateway together: the lines of the client's files become requests within the limits of the
  protocol, the gateway takes exactly these requests from the stream and forwards what they say, and the results
  that the gateway writes end up in the client's files.
\<close>

section \<open>The batches fit the protocol\<close>

lemma scanned_lines_short:
  assumes "l \<in> set (fst (scan_lines n s))"
  shows "length l < n"
proof -
  obtain r where "r \<in> set (takeWhile (\<lambda>l. length l < n) (raw_lines s))" "l = drop_cr r"
    using assms by (auto simp: scan_lines_def Let_def)
  then show ?thesis using set_takeWhileD [of r "\<lambda>l. length l < n" "raw_lines s"] by (auto simp: drop_cr_def)
qed

definition client_calls :: "int \<Rightarrow> string list \<Rightarrow> (string \<times> string list) list" where
  "client_calls mbw ls = snd (fst (then_act (for_each (batcher_add record_flush) ls) (batcher_flush record_flush) (build_batcher mbw, [])))"

lemma build_batcher_setup:
  "batch_ok (batch (build_batcher mbw))" "batchItems (batch (build_batcher mbw)) = []"
  "sizer (batch (build_batcher mbw)) = record_size" "wrapper (batch (build_batcher mbw)) = (\<lambda>rs. rs)"
  "maxWeight (batch (build_batcher mbw)) = (if mbw - 3 \<le> 0 then defaultBatchSize else mbw - 3)"
  by (simp_all add: build_batcher_def new_batcher_def new_batch_ok) (simp_all add: new_batch_def header_size_def)

lemma record_size_pos: "0 < record_size r"
  by (simp add: record_size_def)

lemma client_calls_cut:
  "\<exists>s. then_act (for_each (batcher_add record_flush) ls) (batcher_flush record_flush) (build_batcher mbw, []) = ((s, client_calls mbw ls), None) \<and>
     concat (map snd (client_calls mbw ls)) = ls \<and> [] \<notin> set (map snd (client_calls mbw ls)) \<and>
     (\<forall>c \<in> set (map snd (client_calls mbw ls)). items_weight record_size c \<le> maxWeight (batch (build_batcher mbw)) \<or> length c \<le> 1)"
proof (cases "ls = []")
  case True
  have "is_empty_batch (batch (build_batcher mbw))" by (simp add: build_batcher_def new_batcher_def new_batch_def is_empty_batch_def)
  then show ?thesis by (simp add: True client_calls_def batcher_flush_def)
next
  case False
  note b = build_batcher_setup [of mbw]
  have pairs: "map (case_prod Pair) ps = ps" for ps :: "(string \<times> string list) list" by (induction ps) auto
  from recorder.add_all_flush_cut [OF TrueI b(1,2) False, of "[]"] obtain s' chunks where r:
    "is_cut record_size (maxWeight (batch (build_batcher mbw))) ls chunks"
    "then_act (for_each (batcher_add record_flush) ls) (batcher_flush record_flush) (build_batcher mbw, []) = ((s',
       chunk_ids (subID (batch (build_batcher mbw))) (baseID (batch (build_batcher mbw))) (batchFlushed (build_batcher mbw)) chunks), None)"
    using record_size_pos by (auto simp: b pairs)
  then have "map snd (client_calls mbw ls) = chunks" by (simp add: client_calls_def)
  with r show ?thesis by (auto simp: is_cut_def client_calls_def)
qed

lemma weight_at_least: "2 * int (length c) \<le> items_weight record_size c"
  by (induction c) (simp_all add: record_size_def)

lemma length_batch_bytes: "int (length (batch_bytes t c)) = 3 + items_weight record_size c"
proof -
  have "int (length (concat (map record_bytes c))) = items_weight record_size c"
    by (induction c) (simp_all add: record_size_def record_bytes_def)
  then show ?thesis by (simp add: batch_bytes_def)
qed

lemma calls_good:
  assumes "3 < mbw" "mbw \<le> 131072" "\<forall>l \<in> set ls. length l < 65536" "c \<in> set (map snd (client_calls mbw ls))"
  shows "c \<noteq> []" "length c < 65536" "\<forall>l \<in> set c. length l < 65536" "int (length (batch_bytes t c)) \<le> mbw \<or> length c = 1"
proof -
  obtain s where cut: "concat (map snd (client_calls mbw ls)) = ls" "[] \<notin> set (map snd (client_calls mbw ls))"
    "\<forall>c \<in> set (map snd (client_calls mbw ls)). items_weight record_size c \<le> maxWeight (batch (build_batcher mbw)) \<or> length c \<le> 1"
    using client_calls_cut [of ls mbw] by blast
  moreover have "maxWeight (batch (build_batcher mbw)) = mbw - 3" using assms(1) by (simp add: build_batcher_setup)
  ultimately have c: "c \<noteq> []" "items_weight record_size c \<le> mbw - 3 \<or> length c \<le> 1" using assms(4) by metis+
  show "c \<noteq> []" by (rule c(1))
  show "length c < 65536" using c(2) weight_at_least [of c] assms(2) by auto
  show "\<forall>l \<in> set c. length l < 65536" using assms(3,4) arg_cong [OF cut(1), of set] by fastforce
  show "int (length (batch_bytes t c)) \<le> mbw \<or> length c = 1"
    using c length_batch_bytes [of t c] by (cases c) auto
qed

section \<open>What the client sends\<close>

text \<open>A callback that writes the bytes \<open>f v\<close> of a batch and waits, on a stream that has an ack for every batch.\<close>

lemma wait_ack_works:
  assumes "incoming p = ack_type # rest"
  shows "\<exists>cs. wait_ack p = (p\<lparr>incoming := rest, cuts := cs\<rparr>, None)"
proof -
  have "consumes (read_all 1) [ack_type] [ack_type]" by (rule consumes_read_all) simp
  then obtain cs where "read_all 1 p = (p\<lparr>incoming := rest, cuts := cs\<rparr>, Inr [ack_type])"
    using assms unfolding consumes_def by fastforce
  then show ?thesis by (intro exI [of _ cs]) (simp add: wait_ack_def)
qed

lemma told_and_acked:
  assumes "\<And>i v p. v \<noteq> [] \<Longrightarrow> f v i p = then_act (write_all (g v)) wait_ack p" "\<forall>c \<in> set (map snd calls). c \<noteq> []"
    and "room p = None" "incoming p = replicate (length calls) ack_type @ rest"
  shows "\<exists>cs. tell f calls p = (p\<lparr>incoming := rest, cuts := cs, outgoing := outgoing p @ concat (map (\<lambda>c. g (snd c)) calls)\<rparr>, None)"
  using assms(2-4)
proof (induction calls arbitrary: p)
  case Nil
  then have r: "rest = incoming p" by simp
  show ?case by (intro exI [of _ "cuts p"]) (simp add: tell_def ok_def r)
next
  case (Cons c calls)
  obtain i v where c: "c = (i, v)" by fastforce
  let ?p = "p\<lparr>outgoing := outgoing p @ g v\<rparr>"
  obtain cs where "wait_ack ?p = (?p\<lparr>incoming := replicate (length calls) ack_type @ rest, cuts := cs\<rparr>, None)"
    using wait_ack_works [of ?p] Cons.prems(3) by auto
  then have "f v i p = (?p\<lparr>incoming := replicate (length calls) ack_type @ rest, cuts := cs\<rparr>, None)"
    using assms(1) [of v i p] Cons.prems(1,2) c by (simp add: then_act_def write_all_works)
  moreover obtain ds where "tell f calls (?p\<lparr>incoming := replicate (length calls) ack_type @ rest, cuts := cs\<rparr>) =
      (?p\<lparr>incoming := replicate (length calls) ack_type @ rest, cuts := cs\<rparr>\<lparr>incoming := rest, cuts := ds,
         outgoing := outgoing ?p @ concat (map (\<lambda>c. g (snd c)) calls)\<rparr>, None)"
    using Cons.IH [of "?p\<lparr>incoming := replicate (length calls) ack_type @ rest, cuts := cs\<rparr>"] Cons.prems(1,2) by auto
  ultimately show ?case by (intro exI [of _ ds]) (simp add: tell_def c then_act_def)
qed

lemma send_lines_works:
  assumes "\<And>i v p. v \<noteq> [] \<Longrightarrow> f v i p = then_act (write_all (g v)) wait_ack p"
    and "scan_lines MaxScanTokenSize content = (h # ls, None)"
    and "room p = None" "incoming p = replicate (length (client_calls mbw ls)) ack_type @ rest"
  shows "\<exists>cs. send_lines f mbw content p = (p\<lparr>incoming := rest, cuts := cs,
    outgoing := outgoing p @ concat (map (\<lambda>c. g (snd c)) (client_calls mbw ls))\<rparr>, None)"
proof -
  obtain s where s: "then_act (for_each (batcher_add record_flush) ls) (batcher_flush record_flush) (build_batcher mbw, []) = ((s, client_calls mbw ls), None)"
    "[] \<notin> set (map snd (client_calls mbw ls))" using client_calls_cut [of ls mbw] by blast
  then have ne: "\<forall>c \<in> set (map snd (client_calls mbw ls)). c \<noteq> []" by metis
  from told_and_acked [OF assms(1) ne assms(3,4)] obtain cs where c: "tell f (client_calls mbw ls) p = (p\<lparr>incoming := rest, cuts := cs,
      outgoing := outgoing p @ concat (map (\<lambda>c. g (snd c)) (client_calls mbw ls))\<rparr>, None)" ..
  obtain s2 where "then_act (for_each (batcher_add f) ls) (batcher_flush f) (build_batcher mbw, p) =
      ((s2, fst (tell f (client_calls mbw ls) p)), snd (tell f (client_calls mbw ls) p))"
    using run_follows [OF s(1), of f p] ..
  then show ?thesis unfolding send_lines_def assms(2) by (intro exI [of _ cs]) (simp add: c)
qed

text \<open>The requests of a run: the batches of the transactions, then those of the accounts.\<close>

definition client_requests :: "int \<Rightarrow> string list \<Rightarrow> string list \<Rightarrow> request list" where
  "client_requests mbw ts as = map (\<lambda>c. TransactionBatch (snd c)) (client_calls mbw ts) @ map (\<lambda>c. AccountBatch (snd c)) (client_calls mbw as)"

lemma acks_split: "replicate (Suc (m + n)) x @ r = replicate m x @ replicate n x @ x # r"
  by (induction m) (simp_all add: replicate_app_Cons_same)

lemma client_sends:
  assumes "scan_lines MaxScanTokenSize tf = (h # ts, None)" "scan_lines MaxScanTokenSize af = (h' # as, None)"
    and "room p = None" "incoming p = replicate (Suc (length (client_requests mbw ts as))) ack_type @ rest"
  shows "\<exists>cs. then_act (process_transactions mbw (Some tf)) (process_accounts mbw (Some af)) p =
    (p\<lparr>incoming := rest, cuts := cs, outgoing := outgoing p @ concat (map request_bytes (client_requests mbw ts as @ [RequestEOF]))\<rparr>, None)"
proof -
  let ?t = "client_calls mbw ts" and ?a = "client_calls mbw as"
  have t: "client_send_transactions v i q = then_act (write_all (batch_bytes transactionBatch v)) wait_ack q" if "v \<noteq> []" for i v q
    using that by (simp add: client_send_transactions_def send_transaction_batch_def)
  have a: "client_send_accounts v i q = then_act (write_all (batch_bytes accountBatch v)) wait_ack q" if "v \<noteq> []" for i v q
    using that by (simp add: client_send_accounts_def send_account_batch_def)
  have "incoming p = replicate (length ?t) ack_type @ (replicate (length ?a) ack_type @ ack_type # rest)"
    using assms(4) acks_split [of "length ?t" "length ?a" ack_type rest] by (simp add: client_requests_def)
  from send_lines_works [OF t assms(1,3) this] obtain cs where 1: "send_lines client_send_transactions mbw tf p =
     (p\<lparr>incoming := replicate (length ?a) ack_type @ ack_type # rest, cuts := cs,
        outgoing := outgoing p @ concat (map (\<lambda>c. batch_bytes transactionBatch (snd c)) ?t)\<rparr>, None)" (is "_ = (?p1, None)") ..
  have "room ?p1 = None" "incoming ?p1 = replicate (length ?a) ack_type @ ack_type # rest" using assms(3) by simp_all
  from send_lines_works [OF a assms(2) this] obtain ds where 2: "send_lines client_send_accounts mbw af ?p1 =
     (?p1\<lparr>incoming := ack_type # rest, cuts := ds, outgoing := outgoing ?p1 @ concat (map (\<lambda>c. batch_bytes accountBatch (snd c)) ?a)\<rparr>, None)"
     (is "_ = (?p2, None)") ..
  have e: "send_eof_type ?p2 = (?p2\<lparr>outgoing := outgoing ?p2 @ [eof_type]\<rparr>, None)" (is "_ = (?p3, None)")
    using assms(3) by (simp add: send_eof_type_def send_msg_type_def write_all_works)
  obtain es where "wait_ack ?p3 = (?p3\<lparr>incoming := rest, cuts := es\<rparr>, None)" using wait_ack_works [of ?p3 rest] by auto
  then have "then_act (process_transactions mbw (Some tf)) (process_accounts mbw (Some af)) p = (?p3\<lparr>incoming := rest, cuts := es\<rparr>, None)"
    by (simp only: process_transactions_def process_accounts_def option.case then_act_def 1 2 e seq_acts.simps then_act_ok_right prod.case)
  then show ?thesis by (intro exI [of _ es]) (simp add: client_requests_def comp_def)
qed

lemma requests_good:
  assumes "3 < mbw" "mbw \<le> 131072" "\<forall>l \<in> set ts. length l < 65536" "\<forall>l \<in> set as. length l < 65536"
    and "\<forall>l \<in> set ts. \<not> isl (raw_transaction_to_proto_transaction l)" "\<forall>l \<in> set as. \<not> isl (raw_account_to_proto_maxbank l)"
  shows "\<forall>rq \<in> set (client_requests mbw ts as). good_request rq \<and> good_lines rq"
    "concat (map transactions_in (client_requests mbw ts as)) = map (\<lambda>l. projr (raw_transaction_to_proto_transaction l)) ts"
    "concat (map accounts_in (client_requests mbw ts as)) = map (\<lambda>l. projr (raw_account_to_proto_maxbank l)) as"
proof -
  have t: "concat (map snd (client_calls mbw ts)) = ts" and a: "concat (map snd (client_calls mbw as)) = as"
    using client_calls_cut by blast+
  have sub: "l \<in> set ts" if "c \<in> set (client_calls mbw ts)" "l \<in> set (snd c)" for c l using that arg_cong [OF t, of set] by auto
  have sub': "l \<in> set as" if "c \<in> set (client_calls mbw as)" "l \<in> set (snd c)" for c l using that arg_cong [OF a, of set] by auto
  show "\<forall>rq \<in> set (client_requests mbw ts as). good_request rq \<and> good_lines rq"
  proof
    fix rq
    assume "rq \<in> set (client_requests mbw ts as)"
    then consider (t) c where "c \<in> set (client_calls mbw ts)" "rq = TransactionBatch (snd c)"
      | (a) c where "c \<in> set (client_calls mbw as)" "rq = AccountBatch (snd c)"
      by (auto simp: client_requests_def)
    then show "good_request rq \<and> good_lines rq"
    proof cases
      case t
      then have "snd c \<in> set (map snd (client_calls mbw ts))" by simp
      from calls_good(2,3) [OF assms(1-3) this] show ?thesis using assms(5) sub [OF t(1)] by (auto simp: t(2))
    next
      case a
      then have "snd c \<in> set (map snd (client_calls mbw as))" by simp
      from calls_good(2,3) [OF assms(1,2,4) this] show ?thesis using assms(6) sub' [OF a(1)] by (auto simp: a(2))
    qed
  qed
  have nil: "concat (map (\<lambda>_. []) xs) = []" for xs :: "'b list" by (induction xs) simp_all
  show "concat (map transactions_in (client_requests mbw ts as)) = map (\<lambda>l. projr (raw_transaction_to_proto_transaction l)) ts"
    using arg_cong [OF t, of "map (\<lambda>l. projr (raw_transaction_to_proto_transaction l))"]
    by (simp add: client_requests_def comp_def map_concat nil)
  show "concat (map accounts_in (client_requests mbw ts as)) = map (\<lambda>l. projr (raw_account_to_proto_maxbank l)) as"
    using arg_cong [OF a, of "map (\<lambda>l. projr (raw_account_to_proto_maxbank l))"]
    by (simp add: client_requests_def comp_def map_concat nil)
qed

section \<open>What the client writes\<close>

text \<open>The rows a result adds to the file of a query.\<close>

fun rows_of :: "float_ops \<Rightarrow> query_id \<Rightarrow> result \<Rightarrow> string list list" where
  "rows_of F q (MicrotransactionResult a b x) = (if q = Q1 then [[a, b, f_show2 F x]] else [])"
| "rows_of F q (MaxBankResult n a x) = (if q = Q2 then [[n, a, x]] else [])"
| "rows_of F q (AvgByTypeResult a x) = (if q = Q3 then [[a, x]] else [])"
| "rows_of F q (SuspiciousAccountsResult as) = (if q = Q4 then map (\<lambda>(b, a). [show_int (sint b), a]) as else [])"
| "rows_of F q (ConvertedMicroPaymentResult n) = (if q = Q5 then [[show_int n]] else [])"
| "rows_of F q ResultEOF = []"

definition fine :: "result_writer \<Rightarrow> bool" where
  "fine w \<longleftrightarrow> outcomes w = [] \<and> (\<forall>q. files w q \<noteq> None \<and> \<not> broken (file_of q w))"

definition content_of :: "query_id \<Rightarrow> result_writer \<Rightarrow> string" where
  "content_of q w = written (file_of q w) @ buffer (file_of q w)"

lemma file_of_set_file [simp]: "file_of q (set_file r f w) = (if q = r then f else file_of q w)"
  by (simp add: file_of_def set_file_def)

lemma set_file_fields [simp]: "outcomes (set_file r f w) = outcomes w" "doneReceiving (set_file r f w) = doneReceiving w"
  "files (set_file r f w) q = (if q = r then Some f else files w q)"
  by (simp_all add: set_file_def)

lemma written_row:
  assumes "fine w"
  shows "\<exists>w'. csv_write q fs w = (w', None) \<and> fine w' \<and> doneReceiving w' = doneReceiving w \<and>
    (\<forall>r. content_of r w' = content_of r w @ (if r = q then csv_row fs else []))"
  using assms by (simp add: csv_write_def fine_def content_of_def)

lemma flushed_file:
  assumes "fine w"
  shows "fine (csv_flush q w)" "doneReceiving (csv_flush q w) = doneReceiving w" "content_of r (csv_flush q w) = content_of r w"
    "buffer (file_of q (csv_flush q w)) = []" "r \<noteq> q \<Longrightarrow> buffer (file_of r (csv_flush q w)) = buffer (file_of r w)"
  using assms by (auto simp: csv_flush_def fine_def content_of_def call_no_faults)

text \<open>The rows of an action are \<open>rs q\<close>.\<close>

definition adds_rows :: "result_writer act \<Rightarrow> (query_id \<Rightarrow> string list list) \<Rightarrow> bool" where
  "adds_rows a rs \<longleftrightarrow> (\<forall>w. fine w \<longrightarrow> (\<exists>w'. a w = (w', None) \<and> fine w' \<and> doneReceiving w' = doneReceiving w \<and>
     (\<forall>q. content_of q w' = content_of q w @ concat (map csv_row (rs q)))))"

lemma adds_rows_then: "adds_rows a f \<Longrightarrow> adds_rows b g \<Longrightarrow> adds_rows (then_act a b) (\<lambda>q. f q @ g q)"
  unfolding adds_rows_def by (fastforce simp: then_act_def)

lemma adds_rows_write: "adds_rows (csv_write q fs) (\<lambda>r. if r = q then [fs] else [])"
  using written_row unfolding adds_rows_def by (fastforce split: if_splits)

lemma adds_rows_ok: "adds_rows ok (\<lambda>_. [])"
  by (simp add: adds_rows_def ok_def)

lemma adds_rows_flush: "adds_rows (seq_acts [upd (csv_flush q), csv_error q]) (\<lambda>_. [])"
  unfolding adds_rows_def
proof (intro allI impI)
  fix w
  assume w: "fine w"
  have "\<not> broken (file_of q (csv_flush q w))" using flushed_file(1) [OF w] by (simp add: fine_def)
  then show "\<exists>w'. seq_acts [upd (csv_flush q), csv_error q] w = (w', None) \<and> fine w' \<and> doneReceiving w' = doneReceiving w \<and>
      (\<forall>r. content_of r w' = content_of r w @ concat (map csv_row []))"
    using flushed_file [OF w] by (simp add: csv_error_def upd_def)
qed

lemma adds_rows_for_each: "(\<And>x. adds_rows (f x) (g x)) \<Longrightarrow> adds_rows (for_each f xs) (\<lambda>q. concat (map (\<lambda>x. g x q) xs))"
proof (induction xs)
  case (Cons x xs)
  then show ?case using adds_rows_then [of "f x" "g x" "for_each f xs"] by simp
qed (simp add: adds_rows_ok)

lemma adds_rows_and_flush: "adds_rows (write_and_flush q fs) (\<lambda>r. if r = q then [fs] else [])"
  using adds_rows_then [OF adds_rows_write [of q fs] adds_rows_flush [of q]] by (simp add: write_and_flush_def)

lemma result_adds_rows:
  assumes "r \<noteq> ResultEOF"
  shows "adds_rows (write_result F r) (\<lambda>q. rows_of F q r)"
proof (cases r)
  case (SuspiciousAccountsResult as)
  have "adds_rows (for_each (\<lambda>(b, a). csv_write Q4 [show_int (sint b), a]) as)
      (\<lambda>q. concat (map (\<lambda>(b, a). if q = Q4 then [[show_int (sint b), a]] else []) as))"
    using adds_rows_for_each [of "\<lambda>(b, a). csv_write Q4 [show_int (sint b), a]" "\<lambda>(b, a) q. if q = Q4 then [[show_int (sint b), a]] else []" as]
      adds_rows_write by (simp add: case_prod_unfold)
  from adds_rows_then [OF this adds_rows_flush [of Q4]]
  have "adds_rows (handle_suspicious_accounts as) (\<lambda>q. concat (map (\<lambda>(b, a). if q = Q4 then [[show_int (sint b), a]] else []) as))"
    by (simp add: handle_suspicious_accounts_def)
  moreover have "(\<lambda>q. concat (map (\<lambda>(b, a). if q = Q4 then [[show_int (sint b), a]] else []) as)) = (\<lambda>q. rows_of F q r)"
    by (intro ext, simp add: SuspiciousAccountsResult) (induction as, auto)
  ultimately show ?thesis by (simp add: SuspiciousAccountsResult)
qed (use assms adds_rows_and_flush in \<open>simp_all add: handle_micro_result_def handle_bank_result_def handle_count_result_def handle_avg_result_def\<close>)

lemma receive_pieces:
  assumes "\<forall>(b, r) \<in> set ps. consumes (receive_result F) b r \<and> r \<noteq> ResultEOF"
    and "incoming (c_protocol c) = concat (map fst ps) @ eof_type # rest" "c_running c" "\<not> doneReceiving (c_writer c)" "fine (c_writer c)"
  shows "\<exists>c'. receive_all F c = Some (c', None) \<and> fine (c_writer c') \<and> outgoing (c_protocol c') = outgoing (c_protocol c) \<and>
    (\<forall>q. content_of q (c_writer c') = content_of q (c_writer c) @ concat (map csv_row (concat (map (\<lambda>p. rows_of F q (snd p)) ps))))"
  using assms
proof (induction ps arbitrary: c)
  case Nil
  have "consumes (receive_result F) [eof_type] ResultEOF"
    unfolding receive_result_def by (rule consumes_then [OF consumes_type [of eof_type]]) (simp_all add: type_codes)
  then obtain cs where e: "receive_result F (c_protocol c) = ((c_protocol c)\<lparr>incoming := rest, cuts := cs\<rparr>, Inr ResultEOF)"
    using Nil.prems(2) unfolding consumes_def by fastforce
  let ?c = "c\<lparr>c_protocol := (c_protocol c)\<lparr>incoming := rest, cuts := cs\<rparr>, c_writer := (c_writer c)\<lparr>doneReceiving := True\<rparr>\<rparr>"
  have "receive_one F c = (?c, None)" by (simp add: receive_one_def e on_writer_def zoom_def writer_handle_eof_def upd_def)
  then have "receive_all F c = receive_all F ?c" using Nil.prems(3,4) by (subst receive_all.simps) simp
  also have "\<dots> = Some (?c, None)" by (subst receive_all.simps) simp
  finally show ?case using Nil.prems(5) by (intro exI [of _ ?c]) (simp add: fine_def content_of_def file_of_def)
next
  case (Cons p ps)
  obtain b r where p: "p = (b, r)" by fastforce
  have br: "consumes (receive_result F) b r" "r \<noteq> ResultEOF" using Cons.prems(1) p by auto
  obtain cs where e: "receive_result F (c_protocol c) =
      ((c_protocol c)\<lparr>incoming := concat (map fst ps) @ eof_type # rest, cuts := cs\<rparr>, Inr r)"
    using br(1) Cons.prems(2) p unfolding consumes_def by fastforce
  obtain w where w: "write_result F r (c_writer c) = (w, None)" "fine w" "doneReceiving w = doneReceiving (c_writer c)"
    "\<And>q. content_of q w = content_of q (c_writer c) @ concat (map csv_row (rows_of F q r))"
    using result_adds_rows [OF br(2), of F] Cons.prems(5) unfolding adds_rows_def by blast
  let ?c = "c\<lparr>c_protocol := (c_protocol c)\<lparr>incoming := concat (map fst ps) @ eof_type # rest, cuts := cs\<rparr>, c_writer := w\<rparr>"
  have "receive_one F c = (?c, None)" by (simp add: receive_one_def e on_writer_def zoom_def w)
  then have st: "receive_all F c = receive_all F ?c" using Cons.prems(3,4) by (subst receive_all.simps) simp
  obtain c' where "receive_all F ?c = Some (c', None)" "fine (c_writer c')" "outgoing (c_protocol c') = outgoing (c_protocol c)"
    "\<And>q. content_of q (c_writer c') = content_of q w @ concat (map csv_row (concat (map (\<lambda>p. rows_of F q (snd p)) ps)))"
    using Cons.IH [of ?c] Cons.prems w(2,3) by auto
  then show ?case using st w(4) by (intro exI [of _ c']) (simp add: p)
qed

lemma closed_files:
  assumes "fine w"
  shows "written (file_of q (close_writer w)) = content_of q w"
proof -
  have o: "(files v r = None) = False" if "fine v" for v r using that unfolding fine_def by blast
  let ?w1 = "csv_flush Q1 w" let ?w2 = "csv_flush Q2 ?w1" let ?w3 = "csv_flush Q3 ?w2" let ?w4 = "csv_flush Q4 ?w3" let ?w5 = "csv_flush Q5 ?w4"
  have f: "fine ?w1" "fine ?w2" "fine ?w3" "fine ?w4" "fine ?w5" using assms flushed_file(1) by blast+
  have "close_writer w = ?w5" by (simp add: close_writer_def o assms f)
  moreover have "content_of q ?w5 = content_of q w" using flushed_file(3) assms f by simp
  moreover have "buffer (file_of q ?w5) = []"
    using flushed_file(4,5) assms f by (cases q) auto
  ultimately show ?thesis by (simp add: content_of_def)
qed

lemma opened_writer:
  "\<exists>w. open_writer (new_result_writer []) = (w, None) \<and> fine w \<and> \<not> doneReceiving w \<and> (\<forall>q. content_of q w = csv_row (header_of q))"
proof -
  let ?f = "\<lambda>q. Some \<lparr>written = [], buffer = csv_row (header_of q), broken = False\<rparr>"
  let ?w = "(new_result_writer [])\<lparr>files := ?f\<rparr>"
  have "open_writer (new_result_writer []) = ((new_result_writer [])\<lparr>files := (\<lambda>_. None)
      (Q1 := ?f Q1, Q2 := ?f Q2, Q3 := ?f Q3, Q4 := ?f Q4, Q5 := ?f Q5)\<rparr>, None)"
    by (simp add: open_writer_def open_file_def then_act_def call_no_faults new_result_writer_def csv_write_def file_of_def set_file_def
        ok_def)
  also have "(\<lambda>_. None)(Q1 := ?f Q1, Q2 := ?f Q2, Q3 := ?f Q3, Q4 := ?f Q4, Q5 := ?f Q5) = ?f"
    by (rule ext) (rename_tac q, case_tac q, simp_all)
  finally show ?thesis
    by (intro exI [of _ ?w]) (simp add: fine_def new_result_writer_def file_of_def content_of_def)
qed

section \<open>Properties\<close>




definition five_each :: sizers where
  "five_each = \<lparr>size_transaction = \<lambda>_. 5, size_to_convert = \<lambda>_. 5, size_maxbank = \<lambda>_. 5\<rparr>"

definition empty_queues :: queues where
  "empty_queues = \<lparr>outcomes = [], currencyFilterQueue = [], rawDataQueue = [], maxBankRouterQueue = []\<rparr>"

definition sample_transaction :: string where
  "sample_transaction = ''2022/09/01 00:20,10,a,10,b,3.5,Euro,3.5,Euro,ACH,0''"

definition sample_account :: string where
  "sample_account = ''Bank A,33,x,y,z''"

lemma sample_lines:
  "\<not> isl (raw_transaction_to_proto_transaction sample_transaction)" "\<not> isl (raw_account_to_proto_maxbank sample_account)"
  by code_simp+

lemma sample_scans:
  "scan_lines MaxScanTokenSize (''h'' @ NL # sample_transaction @ [NL]) = (''h'' # [sample_transaction], None)"
  "scan_lines MaxScanTokenSize (''h'' @ NL # sample_account @ [NL]) = (''h'' # [sample_account], None)"
  by (simp_all add: MaxScanTokenSize_def scan_lines_def drop_cr_def Let_def sample_transaction_def sample_account_def)




text \<open>
  A blank line in the transactions file ends the client. The client sends the blank line like any other; the gateway
  cannot parse it and answers the whole batch with a nack instead of an ack, whatever happened to the lines before it;
  and the client takes the nack for a protocol error and stops, without the results of any query.
\<close>

theorem blank_line_ends_the_client:
  assumes "[] \<in> set rs" "good_request (TransactionBatch rs)" "incoming (protocol s) = request_bytes (TransactionBatch rs) @ rest"
    and "room (protocol s) = None" "room p = None" "incoming p = nack_type # rest'"
  shows "\<exists>s' p'. serve_one fresh s = (s', None) \<and> outgoing (protocol s') = outgoing (protocol s) @ [nack_type] \<and>
    client_send_transactions rs i p = (p', Some ErrNoAck)"
proof -
  obtain cs where m: "receive_msg (protocol s) = ((protocol s)\<lparr>incoming := rest, cuts := cs\<rparr>, Inr (TransactionBatch rs))"
    using consumes_request [OF assms(2)] assms(3) unfolding consumes_def by blast
  let ?s = "s\<lparr>protocol := (protocol s)\<lparr>incoming := rest, cuts := cs\<rparr>\<rparr>"
  have blank: "handle_transaction [] = fail ErrParse"
    using read_csv_blank [of "[]"] by (simp add: handle_transaction_def raw_transaction_to_proto_transaction_def)
  have fails: "snd (for_each handle_transaction xs t) \<noteq> None" if "[] \<in> set xs" for xs t
    using that
  proof (induction xs arbitrary: t)
    case (Cons x xs)
    show ?case
    proof (cases "x = []")
      case True
      then show ?thesis by (simp add: blank then_act_def fail_def)
    next
      case False
      then have "[] \<in> set xs" using Cons.prems by simp
      then show ?thesis using Cons.IH by (auto simp: then_act_def split: prod.split option.split)
    qed
  qed simp
  have keep: "preserves (\<lambda>t. protocol t = pr) (for_each handle_transaction rs)" for pr
  proof (rule preserves_for_each)
    fix r
    show "preserves (\<lambda>t. protocol t = pr) (handle_transaction r)"
      unfolding handle_transaction_def
      by (auto split: sum.split intro!: preserves_then preserves_upd)
        (simp_all add: preserves_def on_transactions_def on_raw_data_def zoom_def split: prod.split)
  qed
  obtain s1 e where h: "for_each handle_transaction rs ?s = (s1, Some e)" using fails [OF assms(1), of ?s] by (cases "for_each handle_transaction rs ?s") auto
  have s1: "protocol s1 = (protocol s)\<lparr>incoming := rest, cuts := cs\<rparr>" using preservesD [OF keep, of ?s "protocol ?s"] h by simp
  have "serve_one fresh s = (s1\<lparr>protocol := (protocol s1)\<lparr>outgoing := outgoing (protocol s1) @ [nack_type]\<rparr>\<rparr>, None)"
    using assms(4) by (simp add: serve_one_def m handle_transaction_batch_def then_act_def h on_protocol_def zoom_def send_nack_def
        send_msg_type_def write_all_works s1)
  moreover have "\<exists>p'. client_send_transactions rs i p = (p', Some ErrNoAck)"
  proof -
    let ?p = "p\<lparr>outgoing := outgoing p @ batch_bytes transactionBatch rs\<rparr>"
    have "consumes (read_all 1) [nack_type] [nack_type]" by (rule consumes_read_all) simp
    moreover have "incoming ?p = [nack_type] @ rest'" using assms(6) by simp
    ultimately obtain ds where "read_all 1 ?p = (?p\<lparr>incoming := rest', cuts := ds\<rparr>, Inr [nack_type])" unfolding consumes_def by blast
    then have "wait_ack ?p = (?p\<lparr>incoming := rest', cuts := ds\<rparr>, Some ErrNoAck)" by (simp add: wait_ack_def type_codes)
    moreover have "rs \<noteq> []" using assms(1) by auto
    ultimately show ?thesis
      using assms(5) by (intro exI) (simp add: client_send_transactions_def send_transaction_batch_def then_act_def write_all_works ok_def)
  qed
  ultimately show ?thesis by (auto simp: s1)
qed

theorem blank_line_ends_the_client_witness:
  "\<exists>s' p'. serve_one show_nat (new_client_connection show_nat five_each ''c''
       (sample_connection\<lparr>incoming := request_bytes (TransactionBatch [sample_transaction, []])\<rparr>) empty_queues 3) = (s', None) \<and>
    outgoing (protocol s') = [nack_type] \<and>
    client_send_transactions [sample_transaction, []] ''i'' (sample_connection\<lparr>incoming := [nack_type]\<rparr>) = (p', Some ErrNoAck)"
  using blank_line_ends_the_client [of "[sample_transaction, []]" "new_client_connection show_nat five_each ''c''
       (sample_connection\<lparr>incoming := request_bytes (TransactionBatch [sample_transaction, []])\<rparr>) empty_queues 3" "[]"
       "sample_connection\<lparr>incoming := [nack_type]\<rparr>" "[]" show_nat "''i''"]
  by (simp add: sample_connection_def) (simp add: sample_transaction_def)

end
