(* ===== verification/MaxBank.thy ===== *)
theory MaxBank
  imports Processor
begin

text \<open>
  \<open>internal/workers/processor/groupers/maxbank\<close>: for each bank of a client the transfer with the
  largest amount and the bank's name. \<open>maxbankstore.go\<close> is the store, \<open>checkpoint_tracker.go\<close> the
  changes since the last checkpoint, \<open>maxbankprocessor.go\<close> the processor.

  The value of a checkpoint change is the JSON object with all the fields of the two structures the
  tracker writes: \<open>json.Unmarshal\<close> ignores the fields it does not know and zeroes the missing ones.
\<close>

section \<open>The store\<close>

record max_record =
  rec_account :: string
  AmountValue :: f64
  AmountString :: string

record bank_store =
  bankNames :: "(i32, string) gomap"
  maxTransactions :: "(i32, max_record) gomap"

definition new_bank_store :: bank_store where
  "new_bank_store = \<lparr>bankNames = [], maxTransactions = []\<rparr>"

definition update_bank_name :: "i32 \<Rightarrow> string \<Rightarrow> bank_store \<Rightarrow> bank_store \<times> bool" where
  "update_bank_name b name s =
     (if mget (bankNames s) b = Some name then (s, False)
      else (s\<lparr>bankNames := mput b name (bankNames s)\<rparr>, True))"

definition set_bank_name :: "i32 \<Rightarrow> string \<Rightarrow> bank_store \<Rightarrow> bank_store" where
  "set_bank_name b name s = s\<lparr>bankNames := mput b name (bankNames s)\<rparr>"

definition bank_name :: "bank_store \<Rightarrow> i32 \<Rightarrow> string" where
  "bank_name s b = (case mget (bankNames s) b of Some n \<Rightarrow> n | None \<Rightarrow> ''Unknown Bank'')"

definition update_max_transaction ::
  "i32 \<Rightarrow> string \<Rightarrow> f64 \<Rightarrow> string \<Rightarrow> bank_store \<Rightarrow> bank_store \<times> bool" where
  "update_max_transaction b acc amount amountStr s =
     (if (case mget (maxTransactions s) b of None \<Rightarrow> True | Some r \<Rightarrow> f_less (AmountValue r) amount)
      then (s\<lparr>maxTransactions :=
               mput b \<lparr>rec_account = acc, AmountValue = amount, AmountString = amountStr\<rparr> (maxTransactions s)\<rparr>, True)
      else (s, False))"

definition set_max_transaction :: "i32 \<Rightarrow> max_record \<Rightarrow> bank_store \<Rightarrow> bank_store" where
  "set_max_transaction b r s = s\<lparr>maxTransactions := mput b r (maxTransactions s)\<rparr>"

text \<open>The reader walks the banks that have a transfer.\<close>

definition read_banks :: "bank_store \<Rightarrow> maxbank_result list" where
  "read_banks s =
     map (\<lambda>(b, r). \<lparr>mr_bank_name = bank_name s b, mr_account = rec_account r, mr_amount = AmountString r\<rparr>)
       (maxTransactions s)"

section \<open>The processor and its tracker\<close>

record maxbank_value =
  v_bankId :: i32
  v_bankName :: string
  v_account :: string
  v_amountValue :: f64
  v_amountString :: string

record maxbank =
  maxBankStores :: "(string, bank_store) gomap"
  dirtyBankNames :: "(string, (i32, string) gomap) gomap"
  dirtyMaxTx :: "(string, (i32, max_record) gomap) gomap"

definition new_maxbank :: maxbank where
  "new_maxbank = \<lparr>maxBankStores = [], dirtyBankNames = [], dirtyMaxTx = []\<rparr>"

definition get_store :: "string \<Rightarrow> maxbank \<Rightarrow> bank_store" where
  "get_store cid p = mget0 new_bank_store (maxBankStores p) cid"

definition put_store :: "string \<Rightarrow> bank_store \<Rightarrow> maxbank \<Rightarrow> maxbank" where
  "put_store cid s p = p\<lparr>maxBankStores := mput cid s (maxBankStores p)\<rparr>"

definition mark_bank_name :: "string \<Rightarrow> i32 \<Rightarrow> string \<Rightarrow> maxbank \<Rightarrow> maxbank" where
  "mark_bank_name cid b name p = p\<lparr>dirtyBankNames := nput cid b name (dirtyBankNames p)\<rparr>"

definition mark_max_transaction :: "string \<Rightarrow> i32 \<Rightarrow> max_record \<Rightarrow> maxbank \<Rightarrow> maxbank" where
  "mark_max_transaction cid b r p = p\<lparr>dirtyMaxTx := nput cid b r (dirtyMaxTx p)\<rparr>"

text \<open>\<open>getStore\<close> creates the client's store, so that it exists even after an error.\<close>

definition maxbank_process :: "float_ops \<Rightarrow> string \<Rightarrow> maxbank_item \<Rightarrow> maxbank act" where
  "maxbank_process F cid item p =
     (let s = get_store cid p; b = mb_from_bank item
      in case mb_payload item of
           BankMetadata name \<Rightarrow>
             (case update_bank_name b name s of
                (s', changed) \<Rightarrow>
                  ((if changed then mark_bank_name cid b name else id) (put_store cid s' p), None))
         | TransferSummary acc amountStr \<Rightarrow>
             (case f_parse F amountStr of
                None \<Rightarrow> (put_store cid s p, Some ErrParse)
              | Some v \<Rightarrow>
                  (case update_max_transaction b acc v amountStr s of
                     (s', changed) \<Rightarrow>
                       ((if changed
                         then mark_max_transaction cid b
                                \<lparr>rec_account = acc, AmountValue = v, AmountString = amountStr\<rparr>
                         else id) (put_store cid s' p), None)))
         | NoPayload \<Rightarrow> (put_store cid s p, None))"

definition maxbank_clear_client :: "string \<Rightarrow> maxbank \<Rightarrow> maxbank" where
  "maxbank_clear_client cid p =
     p\<lparr>maxBankStores := mdel cid (maxBankStores p), dirtyBankNames := mdel cid (dirtyBankNames p),
       dirtyMaxTx := mdel cid (dirtyMaxTx p)\<rparr>"

definition maxbank_finalize ::
  "string \<Rightarrow> (maxbank_result \<Rightarrow> 's act) \<Rightarrow> maxbank \<times> 's \<Rightarrow> (maxbank \<times> 's) \<times> (go_error + u64)" where
  "maxbank_finalize cid yield ps =
     (let s = get_store cid (fst ps); rs = read_banks s
      in yield_results yield rs (put_store cid s) (maxbank_clear_client cid) (of_nat (length rs)) ps)"

definition maxbank_cleanup :: "string \<Rightarrow> maxbank act" where
  "maxbank_cleanup cid = upd (maxbank_clear_client cid)"

definition bank_name_change :: "i32 \<times> string \<Rightarrow> maxbank_value change" where
  "bank_name_change e =
     \<lparr>Kind = ''bankName'', Key = show_int (sint (fst e)),
      Value = Some \<lparr>v_bankId = fst e, v_bankName = snd e, v_account = [], v_amountValue = 0, v_amountString = []\<rparr>\<rparr>"

definition max_tx_change :: "i32 \<times> max_record \<Rightarrow> maxbank_value change" where
  "max_tx_change e =
     \<lparr>Kind = ''maxTx'', Key = show_int (sint (fst e)),
      Value = Some \<lparr>v_bankId = fst e, v_bankName = [], v_account = rec_account (snd e),
        v_amountValue = AmountValue (snd e), v_amountString = AmountString (snd e)\<rparr>\<rparr>"

text \<open>\<open>json.Marshal\<close> refuses an infinite or undefined number, before anything is deleted.\<close>

definition maxbank_drain :: "string \<Rightarrow> maxbank \<Rightarrow> maxbank \<times> (go_error + maxbank_value change list)" where
  "maxbank_drain cid p =
     (let names = mget0 [] (dirtyBankNames p) cid; txs = mget0 [] (dirtyMaxTx p) cid
      in if list_all (\<lambda>e. f_finite (AmountValue (snd e))) txs
         then (p\<lparr>dirtyBankNames := mdel cid (dirtyBankNames p), dirtyMaxTx := mdel cid (dirtyMaxTx p)\<rparr>,
               Inr (map bank_name_change names @ map max_tx_change txs))
         else (p, Inl ErrParse))"

definition max_record_of :: "maxbank_value \<Rightarrow> max_record" where
  "max_record_of v = \<lparr>rec_account = v_account v, AmountValue = v_amountValue v, AmountString = v_amountString v\<rparr>"

definition maxbank_restore_one :: "string \<Rightarrow> maxbank_value change \<Rightarrow> maxbank act" where
  "maxbank_restore_one cid c =
     (if Kind c = ''bankName'' then
        (case Value c of None \<Rightarrow> fail ErrParse | Some v \<Rightarrow> upd (mark_bank_name cid (v_bankId v) (v_bankName v)))
      else if Kind c = ''maxTx'' then
        (case Value c of None \<Rightarrow> fail ErrParse
         | Some v \<Rightarrow> upd (mark_max_transaction cid (v_bankId v) (max_record_of v)))
      else ok)"

definition maxbank_restore :: "string \<Rightarrow> maxbank_value change list \<Rightarrow> maxbank act" where
  "maxbank_restore cid = for_each (maxbank_restore_one cid)"

definition maxbank_apply :: "string \<Rightarrow> maxbank_value change \<Rightarrow> maxbank act" where
  "maxbank_apply cid c p =
     (let s = get_store cid p
      in if Kind c = ''bankName'' then
           (case Value c of None \<Rightarrow> (put_store cid s p, Some ErrParse)
            | Some v \<Rightarrow> (put_store cid (set_bank_name (v_bankId v) (v_bankName v) s) p, None))
         else if Kind c = ''maxTx'' then
           (case Value c of None \<Rightarrow> (put_store cid s p, Some ErrParse)
            | Some v \<Rightarrow> (put_store cid (set_max_transaction (v_bankId v) (max_record_of v) s) p, None))
         else (put_store cid s p, Some (ErrUnknownKind (Kind c))))"

definition maxbank_ops :: "float_ops \<Rightarrow> (maxbank, 's, maxbank_item, maxbank_result, maxbank_value) proc_ops" where
  "maxbank_ops F = \<lparr>op_process = maxbank_process F, op_finalize = maxbank_finalize,
     op_cleanup = maxbank_cleanup, op_clear = maxbank_cleanup, op_drain = maxbank_drain,
     op_restore = maxbank_restore, op_apply = maxbank_apply\<rparr>"

section \<open>Recovery\<close>

abbreviation names_of :: "string \<Rightarrow> maxbank \<Rightarrow> (i32, string) gomap" where
  "names_of cid p \<equiv> bankNames (get_store cid p)"

abbreviation maxima_of :: "string \<Rightarrow> maxbank \<Rightarrow> (i32, max_record) gomap" where
  "maxima_of cid p \<equiv> maxTransactions (get_store cid p)"

definition maxbank_view :: "string \<Rightarrow> maxbank \<Rightarrow> (i32 \<Rightarrow> string option) \<times> (i32 \<Rightarrow> max_record option)" where
  "maxbank_view cid p = (map_of (names_of cid p), map_of (maxima_of cid p))"

definition dirty_names :: "string \<Rightarrow> maxbank \<Rightarrow> (i32, string) gomap" where
  "dirty_names cid p = mget0 [] (dirtyBankNames p) cid"

definition dirty_maxima :: "string \<Rightarrow> maxbank \<Rightarrow> (i32, max_record) gomap" where
  "dirty_maxima cid p = mget0 [] (dirtyMaxTx p) cid"

text \<open>The log together with the dirty entries gives the store.\<close>

definition maxbank_tracked :: "string \<Rightarrow> maxbank_value change list \<Rightarrow> maxbank \<Rightarrow> bool" where
  "maxbank_tracked cid L p \<longleftrightarrow> wf_map (dirty_names cid p) \<and> wf_map (dirty_maxima cid p) \<and>
     (\<exists>q. for_each (maxbank_apply cid) L new_maxbank = (q, None) \<and>
        map_of (names_of cid p) = map_of (names_of cid q) ++ map_of (dirty_names cid p) \<and>
        map_of (maxima_of cid p) = map_of (maxima_of cid q) ++ map_of (dirty_maxima cid p))"

lemma get_put_store [simp]: "get_store c (put_store cid s p) = (if c = cid then s else get_store c p)"
  by (simp add: get_store_def put_store_def mget0_mput)

lemma dirty_put_store [simp]:
  "dirty_names c (put_store cid s p) = dirty_names c p" "dirty_maxima c (put_store cid s p) = dirty_maxima c p"
  by (simp_all add: dirty_names_def dirty_maxima_def put_store_def)

lemma marks [simp]:
  "get_store c (mark_bank_name cid b n p) = get_store c p"
  "get_store c (mark_max_transaction cid b r p) = get_store c p"
  "dirty_maxima c (mark_bank_name cid b n p) = dirty_maxima c p"
  "dirty_names c (mark_max_transaction cid b r p) = dirty_names c p"
  "dirty_names c (mark_bank_name cid b n p) = (if c = cid then mput b n (dirty_names c p) else dirty_names c p)"
  "dirty_maxima c (mark_max_transaction cid b r p) = (if c = cid then mput b r (dirty_maxima c p) else dirty_maxima c p)"
  by (simp_all add: get_store_def mark_bank_name_def mark_max_transaction_def dirty_names_def dirty_maxima_def nput_get)

lemma tracked_from_parts:
  assumes "maxbank_tracked cid L p" "wf_map (dirty_names cid p')" "wf_map (dirty_maxima cid p')"
    and "\<And>f. map_of (names_of cid p) = f ++ map_of (dirty_names cid p) \<Longrightarrow>
      map_of (names_of cid p') = f ++ map_of (dirty_names cid p')"
    and "\<And>f. map_of (maxima_of cid p) = f ++ map_of (dirty_maxima cid p) \<Longrightarrow>
      map_of (maxima_of cid p') = f ++ map_of (dirty_maxima cid p')"
  shows "maxbank_tracked cid L p'"
  using assms unfolding maxbank_tracked_def by blast

lemma maxbank_process_tracked:
  assumes "maxbank_tracked cid L p"
  shows "maxbank_tracked cid L (fst (maxbank_process F cid' x p))"
proof -
  have wf: "wf_map (dirty_names cid p)" "wf_map (dirty_maxima cid p)"
    using assms by (simp_all add: maxbank_tracked_def)
  show ?thesis
    by (rule tracked_from_parts [OF assms]; use wf in \<open>cases "cid = cid'"\<close>)
      (auto simp: maxbank_process_def Let_def update_bank_name_def update_max_transaction_def map_of_mput_add
        split: maxbank_payload.split option.split if_split)
qed

lemma apply_names:
  "\<exists>p'. for_each (maxbank_apply cid) (map bank_name_change es) p = (p', None) \<and>
    names_of cid p' = mputs es (names_of cid p) \<and> maxima_of cid p' = maxima_of cid p"
proof (induction es arbitrary: p)
  case (Cons e es)
  let ?p = "put_store cid (set_bank_name (fst e) (snd e) (get_store cid p)) p"
  have "maxbank_apply cid (bank_name_change e) p = (?p, None)"
    by (simp add: maxbank_apply_def bank_name_change_def Let_def)
  then show ?case using Cons [of ?p] by (auto simp: then_act_def set_bank_name_def)
qed (simp add: ok_def)

lemma apply_maxima:
  "\<exists>p'. for_each (maxbank_apply cid) (map max_tx_change es) p = (p', None) \<and>
    maxima_of cid p' = mputs es (maxima_of cid p) \<and> names_of cid p' = names_of cid p"
proof (induction es arbitrary: p)
  case (Cons e es)
  let ?p = "put_store cid (set_max_transaction (fst e) (snd e) (get_store cid p)) p"
  have "maxbank_apply cid (max_tx_change e) p = (?p, None)"
    by (cases "snd e") (simp add: maxbank_apply_def max_tx_change_def max_record_of_def Let_def)
  then show ?case using Cons [of ?p] by (auto simp: then_act_def set_max_transaction_def)
qed (simp add: ok_def)

lemma restore_names:
  "\<exists>p'. for_each (maxbank_restore_one cid) (map bank_name_change es) p = (p', None) \<and>
    dirty_names cid p' = mputs es (dirty_names cid p) \<and> dirty_maxima cid p' = dirty_maxima cid p \<and>
    get_store cid p' = get_store cid p"
proof (induction es arbitrary: p)
  case (Cons e es)
  have "maxbank_restore_one cid (bank_name_change e) p = (mark_bank_name cid (fst e) (snd e) p, None)"
    by (simp add: maxbank_restore_one_def bank_name_change_def upd_def)
  then show ?case using Cons [of "mark_bank_name cid (fst e) (snd e) p"] by (auto simp: then_act_def)
qed (simp add: ok_def)

lemma restore_maxima:
  "\<exists>p'. for_each (maxbank_restore_one cid) (map max_tx_change es) p = (p', None) \<and>
    dirty_maxima cid p' = mputs es (dirty_maxima cid p) \<and> dirty_names cid p' = dirty_names cid p \<and>
    get_store cid p' = get_store cid p"
proof (induction es arbitrary: p)
  case (Cons e es)
  have "maxbank_restore_one cid (max_tx_change e) p = (mark_max_transaction cid (fst e) (snd e) p, None)"
    by (cases "snd e") (simp add: maxbank_restore_one_def max_tx_change_def max_record_of_def upd_def)
  then show ?case using Cons [of "mark_max_transaction cid (fst e) (snd e) p"] by (auto simp: then_act_def)
qed (simp add: ok_def)

lemma maxbank_drain_parts:
  assumes "maxbank_drain cid p = (p', Inr cs)"
  shows "cs = map bank_name_change (dirty_names cid p) @ map max_tx_change (dirty_maxima cid p)"
    "dirty_names cid p' = []" "dirty_maxima cid p' = []" "get_store c p' = get_store c p"
    "c \<noteq> cid \<Longrightarrow> dirty_names c p' = dirty_names c p" "c \<noteq> cid \<Longrightarrow> dirty_maxima c p' = dirty_maxima c p"
  using assms by (auto simp: maxbank_drain_def Let_def dirty_names_def dirty_maxima_def get_store_def mget0_mdel split: if_splits)

lemma maxbank_drained:
  assumes "maxbank_tracked cid L p" "maxbank_drain cid p = (p', Inr cs)"
  obtains q where "for_each (maxbank_apply cid) (L @ cs) new_maxbank = (q, None)"
    "map_of (names_of cid q) = map_of (names_of cid p')" "map_of (maxima_of cid q) = map_of (maxima_of cid p')"
proof -
  note parts = maxbank_drain_parts [OF assms(2)]
  from assms(1) obtain q0 where q0: "for_each (maxbank_apply cid) L new_maxbank = (q0, None)"
    "map_of (names_of cid p) = map_of (names_of cid q0) ++ map_of (dirty_names cid p)"
    "map_of (maxima_of cid p) = map_of (maxima_of cid q0) ++ map_of (dirty_maxima cid p)"
    and wf: "wf_map (dirty_names cid p)" "wf_map (dirty_maxima cid p)"
    by (auto simp: maxbank_tracked_def)
  obtain q1 where q1: "for_each (maxbank_apply cid) (map bank_name_change (dirty_names cid p)) q0 = (q1, None)"
    "names_of cid q1 = mputs (dirty_names cid p) (names_of cid q0)" "maxima_of cid q1 = maxima_of cid q0"
    using apply_names by blast
  obtain q2 where q2: "for_each (maxbank_apply cid) (map max_tx_change (dirty_maxima cid p)) q1 = (q2, None)"
    "maxima_of cid q2 = mputs (dirty_maxima cid p) (maxima_of cid q1)" "names_of cid q2 = names_of cid q1"
    using apply_maxima by blast
  have "for_each (maxbank_apply cid) (L @ cs) new_maxbank = (q2, None)"
    by (simp add: parts(1) for_each_append then_act_def q0(1) q1(1) q2(1))
  then show thesis
    by (rule that) (simp_all add: q0 q1 q2 wf parts(4) map_of_mputs_wf)
qed

lemma maxbank_restored:
  assumes t: "maxbank_tracked cid L p" and d: "maxbank_drain cid p = (p', Inr cs)"
  shows "maxbank_tracked cid L (fst (maxbank_restore cid cs p'))"
proof -
  note parts = maxbank_drain_parts [OF d]
  obtain p1 where p1: "for_each (maxbank_restore_one cid) (map bank_name_change (dirty_names cid p)) p' = (p1, None)"
    "dirty_names cid p1 = mputs (dirty_names cid p) (dirty_names cid p')" "dirty_maxima cid p1 = dirty_maxima cid p'"
    "get_store cid p1 = get_store cid p'"
    using restore_names by blast
  obtain p2 where p2: "for_each (maxbank_restore_one cid) (map max_tx_change (dirty_maxima cid p)) p1 = (p2, None)"
    "dirty_maxima cid p2 = mputs (dirty_maxima cid p) (dirty_maxima cid p1)" "dirty_names cid p2 = dirty_names cid p1"
    "get_store cid p2 = get_store cid p1"
    using restore_maxima by blast
  have "maxbank_restore cid cs p' = (p2, None)"
    by (simp add: maxbank_restore_def parts(1) for_each_append then_act_def p1(1) p2(1))
  moreover have "maxbank_tracked cid L p2"
    by (rule tracked_from_parts [OF t])
      (use t in \<open>simp_all add: p1 p2 parts map_of_mputs_wf maxbank_tracked_def\<close>)
  ultimately show ?thesis by simp
qed

lemma maxbank_drain_other:
  assumes "maxbank_tracked cid L p" "cid' \<noteq> cid"
  shows "maxbank_tracked cid L (fst (maxbank_drain cid' p))"
proof (cases "maxbank_drain cid' p")
  case (Pair p' r)
  then show ?thesis
    using assms maxbank_drain_parts [of cid' p p'] tracked_from_parts [OF assms(1), of p']
    by (cases r) (auto simp: maxbank_tracked_def maxbank_drain_def Let_def split: if_splits)
qed

lemma maxbank_restore_other:
  assumes "maxbank_tracked cid L p" "cid' \<noteq> cid"
  shows "maxbank_tracked cid L (fst (maxbank_restore cid' cs p))"
proof -
  let ?p = "fst (for_each (maxbank_restore_one cid') cs p)"
  have "get_store cid ?p = get_store cid p" "dirty_names cid ?p = dirty_names cid p" "dirty_maxima cid ?p = dirty_maxima cid p"
    by (rule for_each_fst_cong; use assms(2) in \<open>auto simp: maxbank_restore_one_def act_simps split: option.split\<close>)+
  then show ?thesis using assms(1) by (simp add: maxbank_restore_def maxbank_tracked_def)
qed

lemma maxbank_drain_fails:
  "maxbank_tracked cid L p \<Longrightarrow> maxbank_drain cid p = (p', Inl e) \<Longrightarrow> maxbank_tracked cid L p'"
  by (auto simp: maxbank_drain_def Let_def split: if_splits)

lemma maxbank_drain_succeeds:
  assumes t: "maxbank_tracked cid L p" and d: "maxbank_drain cid p = (p', Inr cs)"
  shows "maxbank_tracked cid (L @ cs) p' \<and>
    (\<exists>q. for_each (maxbank_apply cid) (L @ cs) new_maxbank = (q, None) \<and> maxbank_view cid q = maxbank_view cid p) \<and>
    maxbank_view cid p' = maxbank_view cid p"
proof -
  obtain q where "for_each (maxbank_apply cid) (L @ cs) new_maxbank = (q, None)"
    "map_of (names_of cid q) = map_of (names_of cid p')" "map_of (maxima_of cid q) = map_of (maxima_of cid p')"
    by (rule maxbank_drained [OF t d])
  then show ?thesis using maxbank_drain_parts [OF d] by (auto simp: maxbank_tracked_def maxbank_view_def)
qed

lemma maxbank_tracked_new: "maxbank_tracked cid [] new_maxbank"
  by (simp add: maxbank_tracked_def ok_def dirty_names_def dirty_maxima_def new_maxbank_def)

interpretation maxbank: checkpointable "maxbank_ops F" new_maxbank maxbank_view maxbank_tracked for F
  by unfold_locales
    (simp_all add: maxbank_ops_def maxbank_tracked_new maxbank_process_tracked maxbank_drain_succeeds maxbank_drain_fails
      maxbank_drain_other maxbank_restored maxbank_restore_other)

section \<open>The maximum\<close>

text \<open>The transfers of one bank among the items, with their parsed amounts, and the last name it was given.\<close>

fun transfers_of :: "float_ops \<Rightarrow> i32 \<Rightarrow> maxbank_item list \<Rightarrow> max_record list" where
  "transfers_of F b [] = []"
| "transfers_of F b (x # xs) =
     (case mb_payload x of
        TransferSummary acc s \<Rightarrow>
          (case f_parse F s of
             Some v \<Rightarrow> if mb_from_bank x = b
               then \<lparr>rec_account = acc, AmountValue = v, AmountString = s\<rparr> # transfers_of F b xs
               else transfers_of F b xs
           | None \<Rightarrow> transfers_of F b xs)
      | _ \<Rightarrow> transfers_of F b xs)"

definition pick :: "max_record \<Rightarrow> max_record option \<Rightarrow> max_record option" where
  "pick r cur = (case cur of None \<Rightarrow> Some r | Some m \<Rightarrow> if f_less (AmountValue m) (AmountValue r) then Some r else Some m)"

lemma pick_simps:
  "pick r None = Some r" "pick r (Some m) = (if f_less (AmountValue m) (AmountValue r) then Some r else Some m)"
  by (simp_all add: pick_def)

lemma maxbank_process_all:
  assumes "for_each (maxbank_process F cid) items p = (p', None)"
  shows "mget (maxima_of cid p') b = fold pick (transfers_of F b items) (mget (maxima_of cid p) b)"
  using assms
proof (induction items arbitrary: p)
  case (Cons x items)
  then obtain p1 where p1: "maxbank_process F cid x p = (p1, None)" "for_each (maxbank_process F cid) items p1 = (p', None)"
    by (auto elim: then_act_NoneE)
  have "mget (maxima_of cid p1) b = fold pick (transfers_of F b [x]) (mget (maxima_of cid p) b)"
    using p1(1) by (auto simp: maxbank_process_def Let_def update_bank_name_def update_max_transaction_def mget_mput
        pick_def split: maxbank_payload.splits option.splits if_splits)
  moreover have "transfers_of F b (x # items) = transfers_of F b [x] @ transfers_of F b items"
    by (simp split: maxbank_payload.split option.split)
  ultimately show ?case using Cons.IH [OF p1(2)] by simp
qed (simp add: ok_def)

lemma maxbank_process_wf:
  assumes "wf_map (maxima_of cid p)"
  shows "wf_map (maxima_of cid (fst (for_each (maxbank_process F cid) items p)))"
proof -
  have "preserves (\<lambda>p. wf_map (maxima_of cid p)) (for_each (maxbank_process F cid) items)"
    by (intro preserves_for_each preservesI)
      (auto simp: maxbank_process_def Let_def update_bank_name_def update_max_transaction_def
        split: maxbank_payload.split option.split if_split)
  then show ?thesis using assms by (rule preservesD)
qed

lemma fold_pick_max:
  assumes "\<forall>r \<in> set rs. \<not> f_is_nan (AmountValue r)" "\<not> f_is_nan (AmountValue m)"
  shows "\<exists>r \<in> set (m # rs). fold pick rs (Some m) = Some r \<and> (\<forall>r' \<in> set (m # rs). f_less_eq (AmountValue r') (AmountValue r))"
  using assms
proof (induction rs arbitrary: m)
  case (Cons a rs)
  show ?case
  proof (cases "f_less (AmountValue m) (AmountValue a)")
    case True
    have le: "f_less_eq (AmountValue m) (AmountValue a)" using True by (auto simp: f_less_def f_less_eq_def)
    obtain r where r: "r \<in> set (a # rs)" "fold pick rs (Some a) = Some r" "\<forall>r' \<in> set (a # rs). f_less_eq (AmountValue r') (AmountValue r)"
      using Cons.IH [of a] Cons.prems by auto
    moreover have "f_less_eq (AmountValue m) (AmountValue r)" using f_less_eq_trans [OF le] r(3) by simp
    ultimately show ?thesis using True by (auto simp: pick_simps)
  next
    case False
    have le: "f_less_eq (AmountValue a) (AmountValue m)" using False f_less_total Cons.prems by simp
    obtain r where r: "r \<in> set (m # rs)" "fold pick rs (Some m) = Some r" "\<forall>r' \<in> set (m # rs). f_less_eq (AmountValue r') (AmountValue r)"
      using Cons.IH [of m] Cons.prems by auto
    moreover have "f_less_eq (AmountValue a) (AmountValue r)" using f_less_eq_trans [OF le] r(3) by simp
    ultimately show ?thesis using False by (auto simp: pick_simps)
  qed
qed (simp add: f_less_eq_def)

section \<open>Properties\<close>

text \<open>
  C32. The worker reports the largest transfer of each bank. After the items of a client have been
  processed without an error, \<open>Finalize\<close> yields one result for each bank that had a transfer and no other;
  the result is one of the bank's transfers, with the account and the amount as they were sent, and no transfer
  of the bank is larger (for amounts that are numbers); then the client's state is gone.
\<close>

theorem maxbank_reports_the_maxima:
  assumes "for_each (maxbank_process F cid) items new_maxbank = (p, None)"
    and "\<forall>b. \<forall>r \<in> set (transfers_of F b items). \<not> f_is_nan (AmountValue r)"
  shows "\<exists>bs p' out. maxbank_finalize cid collect (p, []) = ((p', out), Inr (of_nat (length bs))) \<and>
    distinct bs \<and> set bs = {b. transfers_of F b items \<noteq> []} \<and> length out = length bs \<and>
    (\<forall>i < length bs. \<exists>r \<in> set (transfers_of F (bs ! i) items).
       mr_account (out ! i) = rec_account r \<and> mr_amount (out ! i) = AmountString r \<and>
       (\<forall>r' \<in> set (transfers_of F (bs ! i) items). f_less_eq (AmountValue r') (AmountValue r))) \<and>
    get_store cid p' = new_bank_store"
proof -
  let ?m = "maxima_of cid p" and ?bs = "mkeys (maxima_of cid p)"
  have empty: "maxima_of cid new_maxbank = []" by (simp add: get_store_def new_maxbank_def new_bank_store_def)
  have get: "mget ?m b = fold pick (transfers_of F b items) None" for b
    using maxbank_process_all [OF assms(1), of b] empty by simp
  have best: "\<exists>r \<in> set (transfers_of F b items). mget ?m b = Some r \<and>
      (\<forall>r' \<in> set (transfers_of F b items). f_less_eq (AmountValue r') (AmountValue r))" if "transfers_of F b items \<noteq> []" for b
  proof (cases "transfers_of F b items")
    case (Cons m rs)
    then have "\<forall>r \<in> set (m # rs). \<not> f_is_nan (AmountValue r)" using assms(2) by metis
    then show ?thesis using fold_pick_max [of rs m] get [of b] Cons by (auto simp: pick_simps)
  qed (use that in simp)
  have wf: "wf_map ?m" using maxbank_process_wf [of cid new_maxbank F items] assms(1) empty by simp
  have keys: "set ?bs = {b. transfers_of F b items \<noteq> []}"
  proof -
    have "b \<in> set ?bs \<longleftrightarrow> transfers_of F b items \<noteq> []" for b
    proof
      assume "b \<in> set ?bs"
      then have "mget ?m b \<noteq> None" by (simp add: map_of_eq_None_iff)
      then show "transfers_of F b items \<noteq> []" using get [of b] by auto
    next
      assume "transfers_of F b items \<noteq> []"
      then show "b \<in> set ?bs" using best by (metis map_of_eq_None_iff option.distinct(1) list.set_map)
    qed
    then show ?thesis by blast
  qed
  have at: "mget ?m (?bs ! i) = Some (snd (?m ! i))" "?bs ! i \<in> set ?bs" if "i < length ?bs" for i
    using that wf by (auto simp: wf_map_def map_of_eq_Some_iff intro!: nth_mem [of i ?m, simplified] )
  have fin: "maxbank_finalize cid collect (p, []) =
      ((maxbank_clear_client cid p, read_banks (get_store cid p)), Inr (of_nat (length ?bs)))"
    by (simp add: maxbank_finalize_def Let_def read_banks_def)
  show ?thesis
  proof (intro exI conjI)
    show "maxbank_finalize cid collect (p, []) =
      ((maxbank_clear_client cid p, read_banks (get_store cid p)), Inr (of_nat (length ?bs)))" by (rule fin)
    show "distinct ?bs" using wf by (simp add: wf_map_def)
    show "set ?bs = {b. transfers_of F b items \<noteq> []}" by (rule keys)
    show "get_store cid (maxbank_clear_client cid p) = new_bank_store"
      by (simp add: get_store_def maxbank_clear_client_def mget0_mdel)
    show "\<forall>i < length ?bs. \<exists>r \<in> set (transfers_of F (?bs ! i) items).
       mr_account (read_banks (get_store cid p) ! i) = rec_account r \<and>
       mr_amount (read_banks (get_store cid p) ! i) = AmountString r \<and>
       (\<forall>r' \<in> set (transfers_of F (?bs ! i) items). f_less_eq (AmountValue r') (AmountValue r))"
    proof (intro allI impI)
      fix i
      assume i: "i < length ?bs"
      then have "transfers_of F (?bs ! i) items \<noteq> []" using at(2) keys by blast
      from best [OF this] at(1) [OF i] i show "\<exists>r \<in> set (transfers_of F (?bs ! i) items).
         mr_account (read_banks (get_store cid p) ! i) = rec_account r \<and>
         mr_amount (read_banks (get_store cid p) ! i) = AmountString r \<and>
         (\<forall>r' \<in> set (transfers_of F (?bs ! i) items). f_less_eq (AmountValue r') (AmountValue r))"
        by (auto simp: read_banks_def case_prod_unfold)
    qed
  qed (simp add: read_banks_def)
qed

text \<open>
  C34. A restart brings the names and the maxima back. Whatever items were processed for any clients, and
  whichever checkpoints succeeded or failed before, when a checkpoint of the client drains its
  changes, replaying the client's logged changes and these on a new processor succeeds and
  gives the bank names and the maximal transfers the processor holds.
\<close>

theorem maxbank_restart_restores:
  assumes "proc_run (maxbank_ops F) new_maxbank steps = (p, L)" "maxbank_drain cid p = (p', Inr cs)"
  shows "\<exists>q. for_each (maxbank_apply cid) (L cid @ cs) new_maxbank = (q, None) \<and> maxbank_view cid q = maxbank_view cid p"
  using maxbank.restart [of F steps p L cid p' cs] assms by (simp add: maxbank_ops_def)

definition sample_items :: "maxbank_item list" where
  "sample_items = [\<lparr>mb_from_bank = 1, mb_payload = TransferSummary ''a'' ''5''\<rparr>,
     \<lparr>mb_from_bank = 1, mb_payload = BankMetadata ''One''\<rparr>,
     \<lparr>mb_from_bank = 1, mb_payload = TransferSummary ''b'' ''7''\<rparr>]"

theorem maxbank_reports_the_maxima_witness:
  "\<exists>p bs p' out. for_each (maxbank_process sample_floats ''c'') sample_items new_maxbank = (p, None) \<and>
    maxbank_finalize ''c'' collect (p, []) = ((p', out), Inr (of_nat (length bs))) \<and> bs = [1] \<and>
    map mr_amount out = [''7'']"
proof -
  have "snd (for_each (maxbank_process sample_floats ''c'') sample_items new_maxbank) = None"
    by (simp add: sample_items_def then_act_def maxbank_process_def Let_def sample_floats_def update_max_transaction_def
        update_bank_name_def ok_def split: option.split)
  then obtain p where run: "for_each (maxbank_process sample_floats ''c'') sample_items new_maxbank = (p, None)"
    by (metis prod.collapse)
  have ts: "transfers_of sample_floats b sample_items = (if b = 1
      then [\<lparr>rec_account = ''a'', AmountValue = 5, AmountString = ''5''\<rparr>, \<lparr>rec_account = ''b'', AmountValue = 7, AmountString = ''7''\<rparr>] else [])" for b
    by (simp add: sample_items_def sample_floats_def)
  obtain bs p' out where r: "maxbank_finalize ''c'' collect (p, []) = ((p', out), Inr (of_nat (length bs)))" "distinct bs"
    "set bs = {1}" "length out = length bs"
    "\<forall>i < length bs. \<exists>r \<in> set (transfers_of sample_floats (bs ! i) sample_items).
       mr_account (out ! i) = rec_account r \<and> mr_amount (out ! i) = AmountString r \<and>
       (\<forall>r' \<in> set (transfers_of sample_floats (bs ! i) sample_items). f_less_eq (AmountValue r') (AmountValue r))"
    using maxbank_reports_the_maxima [OF run] by (auto simp: ts split: if_splits)
  have "length bs = 1" using distinct_card [OF r(2)] r(3) by simp
  then have bs: "bs = [1]" using r(3) by (cases bs) auto
  moreover have "\<not> f_less_eq 7 5" using f_less_total [of 5 7] by (simp add: f_less_eq_def f_key_def f_magnitude_def)
  ultimately have "mr_amount (out ! 0) = ''7''" using r(5) by (auto simp: ts)
  moreover obtain o1 where "out = [o1]" using r(4) bs by (cases out) auto
  ultimately show ?thesis using run r(1) bs by auto
qed

theorem maxbank_restart_restores_witness:
  "\<exists>p L p' cs q. proc_run (maxbank_ops sample_floats :: (maxbank, unit, maxbank_item, maxbank_result, maxbank_value) proc_ops) new_maxbank
      [Process ''c'' (sample_items ! 0), Persist ''c'' True, Process ''c'' (sample_items ! 2), Persist ''c'' False] = (p, L) \<and>
    maxbank_drain ''c'' p = (p', Inr cs) \<and>
    for_each (maxbank_apply ''c'') (L ''c'' @ cs) new_maxbank = (q, None) \<and> maxbank_view ''c'' q = maxbank_view ''c'' p"
proof -
  let ?steps = "[Process ''c'' (sample_items ! 0), Persist ''c'' True, Process ''c'' (sample_items ! 2), Persist ''c'' False]"
  obtain p L where run: "proc_run (maxbank_ops sample_floats :: (maxbank, unit, maxbank_item, maxbank_result, maxbank_value) proc_ops)
      new_maxbank ?steps = (p, L)" by fastforce
  have "dirtyMaxTx p = [(''c'', [(1, \<lparr>rec_account = ''b'', AmountValue = 7, AmountString = ''7''\<rparr>)])]"
    using run by (auto simp: proc_run_def maxbank_ops_def maxbank_process_def sample_items_def sample_floats_def new_maxbank_def
        get_store_def new_bank_store_def mget0_def update_max_transaction_def put_store_def mark_max_transaction_def nput_def
        maxbank_drain_def max_tx_change_def maxbank_restore_def maxbank_restore_one_def upd_def ok_def then_act_def max_record_of_def Let_def)
  then obtain p' cs where d: "maxbank_drain ''c'' p = (p', Inr cs)" by (simp add: maxbank_drain_def mget0_def Let_def)
  from maxbank_restart_restores [OF run d] run d show ?thesis by blast
qed

end
