(* ===== verification/AvgByType.thy ===== *)
theory AvgByType
  imports Processor
begin

text \<open>
  \<open>internal/workers/processor/groupers/avgbytype\<close>: for each payment format the sum and the number of
  the payments of the first period and the list of those of the second; at the end of the stream the
  payments of the second period below a hundredth of the average of the first.
  \<open>checkpoint_tracker.go\<close> logs the statistics of the formats that changed and, for each format, the
  payments from \<open>lastCheckpointedPeriod2Idx\<close> on; a failed checkpoint takes the index back.

  Sums and quotients of amounts are parameters, the comparison with the threshold is not. The JSON value
  of a change has the fields of both structures, as in \<open>MaxBank\<close>.
\<close>

section \<open>The processor\<close>

record avg_stats =
  st_sum :: f64
  st_count :: int

record avg_client =
  period1Stats :: "(string, avg_stats) gomap"
  period2Transactions :: "(string, avg_transaction list) gomap"

record avg_value =
  v_format :: string
  v_sum :: f64
  v_count :: int
  v_acct :: string
  v_amountPaid :: string

record avg_grouper =
  avg_clients :: "(string, avg_client) gomap"
  dirtyPeriod1 :: "(string, (string, bool) gomap) gomap"
  dirtyPeriod2 :: "(string, (string, bool) gomap) gomap"
  lastIdx :: "(string, (string, nat) gomap) gomap"
  pendingIdx :: "(string, (string, nat) gomap) gomap"

definition new_avg_grouper :: avg_grouper where
  "new_avg_grouper = \<lparr>avg_clients = [], dirtyPeriod1 = [], dirtyPeriod2 = [], lastIdx = [], pendingIdx = []\<rparr>"

definition new_avg_client :: avg_client where
  "new_avg_client = \<lparr>period1Stats = [], period2Transactions = []\<rparr>"

definition get_avg_client :: "string \<Rightarrow> avg_grouper \<Rightarrow> avg_client" where
  "get_avg_client cid p = mget0 new_avg_client (avg_clients p) cid"

definition put_avg_client :: "string \<Rightarrow> avg_client \<Rightarrow> avg_grouper \<Rightarrow> avg_grouper" where
  "put_avg_client cid s p = p\<lparr>avg_clients := mput cid s (avg_clients p)\<rparr>"

definition mark_period1 :: "string \<Rightarrow> string \<Rightarrow> avg_grouper \<Rightarrow> avg_grouper" where
  "mark_period1 cid fmt p = p\<lparr>dirtyPeriod1 := nput cid fmt True (dirtyPeriod1 p)\<rparr>"

definition mark_period2 :: "string \<Rightarrow> string \<Rightarrow> avg_grouper \<Rightarrow> avg_grouper" where
  "mark_period2 cid fmt p = p\<lparr>dirtyPeriod2 := nput cid fmt True (dirtyPeriod2 p)\<rparr>"

definition add_stats :: "float_ops \<Rightarrow> string \<Rightarrow> f64 \<Rightarrow> avg_client \<Rightarrow> avg_client" where
  "add_stats F fmt amount s =
     (let st = mget0 \<lparr>st_sum = 0, st_count = 0\<rparr> (period1Stats s) fmt
      in s\<lparr>period1Stats := mput fmt \<lparr>st_sum = f_add F (st_sum st) amount, st_count = st_count st + 1\<rparr> (period1Stats s)\<rparr>)"

definition add_period2 :: "string \<Rightarrow> avg_transaction \<Rightarrow> avg_client \<Rightarrow> avg_client" where
  "add_period2 fmt tx s =
     s\<lparr>period2Transactions := mput fmt (mget0 [] (period2Transactions s) fmt @ [tx]) (period2Transactions s)\<rparr>"

definition process_first_period :: "float_ops \<Rightarrow> string \<Rightarrow> avg_transaction \<Rightarrow> avg_grouper act" where
  "process_first_period F cid tx p =
     (case f_parse F (av_amount tx) of
        None \<Rightarrow> (p, Some ErrParse)
      | Some a \<Rightarrow>
          (mark_period1 cid (av_format tx) (put_avg_client cid (add_stats F (av_format tx) a (get_avg_client cid p)) p), None))"

definition process_second_period :: "string \<Rightarrow> avg_transaction \<Rightarrow> avg_grouper act" where
  "process_second_period cid tx p =
     (mark_period2 cid (av_format tx) (put_avg_client cid (add_period2 (av_format tx) tx (get_avg_client cid p)) p), None)"

definition avg_process :: "float_ops \<Rightarrow> string \<Rightarrow> avg_transaction \<Rightarrow> avg_grouper act" where
  "avg_process F cid tx p =
     (let p1 = put_avg_client cid (get_avg_client cid p) p
      in case av_period tx of
           PeriodFirst \<Rightarrow> process_first_period F cid tx p1
         | PeriodSecond \<Rightarrow> process_second_period cid tx p1
         | PeriodUnspecified \<Rightarrow> (p1, None))"

definition threshold_of :: "float_ops \<Rightarrow> avg_stats \<Rightarrow> f64" where
  "threshold_of F st = f_div F (f_div F (st_sum st) (f_of_int F (st_count st))) (f_of_int F 100)"

text \<open>A payment whose amount does not parse is skipped.\<close>

definition below :: "float_ops \<Rightarrow> f64 \<Rightarrow> avg_transaction list \<Rightarrow> avg_result list" where
  "below F th txs =
     concat (map (\<lambda>tx. case f_parse F (av_amount tx) of
        None \<Rightarrow> []
      | Some a \<Rightarrow> if f_less_eq th a then [] else [\<lparr>ar_account = av_account tx, ar_amount = av_amount tx\<rparr>]) txs)"

definition avg_results :: "float_ops \<Rightarrow> avg_client \<Rightarrow> avg_result list" where
  "avg_results F s =
     concat (map (\<lambda>(fmt, st). if st_count st = 0 then []
        else below F (threshold_of F st) (mget0 [] (period2Transactions s) fmt)) (period1Stats s))"

text \<open>\<open>Finalize\<close> does not clear the client.\<close>

definition avg_finalize ::
  "float_ops \<Rightarrow> string \<Rightarrow> (avg_result \<Rightarrow> 's act) \<Rightarrow> avg_grouper \<times> 's \<Rightarrow> (avg_grouper \<times> 's) \<times> (go_error + u64)" where
  "avg_finalize F cid yield ps =
     (case mget (avg_clients (fst ps)) cid of
        None \<Rightarrow> (ps, Inr 0)
      | Some s \<Rightarrow> yield_results yield (avg_results F s) id id (of_nat (length (avg_results F s))) ps)"

definition avg_clear :: "string \<Rightarrow> avg_grouper \<Rightarrow> avg_grouper" where
  "avg_clear cid p =
     p\<lparr>avg_clients := mdel cid (avg_clients p), dirtyPeriod1 := mdel cid (dirtyPeriod1 p),
       dirtyPeriod2 := mdel cid (dirtyPeriod2 p), lastIdx := mdel cid (lastIdx p), pendingIdx := mdel cid (pendingIdx p)\<rparr>"

definition avg_cleanup :: "string \<Rightarrow> avg_grouper act" where
  "avg_cleanup cid = upd (avg_clear cid)"

section \<open>The tracker\<close>

definition last_index :: "string \<Rightarrow> string \<Rightarrow> avg_grouper \<Rightarrow> nat" where
  "last_index cid fmt p = mget0 0 (mget0 [] (lastIdx p) cid) fmt"

definition set_last_index :: "string \<Rightarrow> string \<Rightarrow> nat \<Rightarrow> avg_grouper \<Rightarrow> avg_grouper" where
  "set_last_index cid fmt n p = p\<lparr>lastIdx := nput cid fmt n (lastIdx p)\<rparr>"

definition set_pending_index :: "string \<Rightarrow> string \<Rightarrow> nat \<Rightarrow> avg_grouper \<Rightarrow> avg_grouper" where
  "set_pending_index cid fmt n p = p\<lparr>pendingIdx := nput cid fmt n (pendingIdx p)\<rparr>"

definition pending_index :: "string \<Rightarrow> string \<Rightarrow> avg_grouper \<Rightarrow> nat option" where
  "pending_index cid fmt p = mget (mget0 [] (pendingIdx p) cid) fmt"

definition clear_pending_index :: "string \<Rightarrow> string \<Rightarrow> avg_grouper \<Rightarrow> avg_grouper" where
  "clear_pending_index cid fmt p =
     (case mget (pendingIdx p) cid of
        None \<Rightarrow> p
      | Some m \<Rightarrow>
          (let m' = mdel fmt m
           in p\<lparr>pendingIdx := (if m' = [] then mdel cid (pendingIdx p) else mput cid m' (pendingIdx p))\<rparr>))"

definition stats_change :: "string \<times> avg_stats \<Rightarrow> avg_value change" where
  "stats_change e = \<lparr>Kind = ''period1Stats'', Key = fst e,
     Value = Some \<lparr>v_format = fst e, v_sum = st_sum (snd e), v_count = st_count (snd e), v_acct = [], v_amountPaid = []\<rparr>\<rparr>"

definition tx_change :: "string \<Rightarrow> nat \<times> avg_transaction \<Rightarrow> avg_value change" where
  "tx_change fmt e = \<lparr>Kind = ''period2Txs'', Key = fmt @ CHR '':'' # show_nat (fst e),
     Value = Some \<lparr>v_format = fmt, v_sum = 0, v_count = 0, v_acct = av_account (snd e), v_amountPaid = av_amount (snd e)\<rparr>\<rparr>"

text \<open>The statistics of the changed formats.\<close>

definition dirty_stats :: "string \<Rightarrow> avg_grouper \<Rightarrow> (string \<times> avg_stats) list" where
  "dirty_stats cid p =
     List.map_filter (\<lambda>fmt. map_option (Pair fmt) (mget (period1Stats (get_avg_client cid p)) fmt))
       (mkeys (mget0 [] (dirtyPeriod1 p) cid))"

text \<open>The payments of one format that are not in the log, and the new indices.\<close>

definition drain_format :: "string \<Rightarrow> string \<Rightarrow> avg_grouper \<Rightarrow> avg_grouper \<times> avg_value change list" where
  "drain_format cid fmt p =
     (case mget (period2Transactions (get_avg_client cid p)) fmt of
        None \<Rightarrow> (p, [])
      | Some txs \<Rightarrow>
          (let start = min (last_index cid fmt p) (length txs)
           in (set_last_index cid fmt (length txs) (set_pending_index cid fmt start p),
               map (tx_change fmt) (List.enumerate start (drop start txs)))))"

fun drain_formats :: "string \<Rightarrow> string list \<Rightarrow> avg_grouper \<Rightarrow> avg_grouper \<times> avg_value change list" where
  "drain_formats cid [] p = (p, [])"
| "drain_formats cid (fmt # fmts) p =
     (case drain_format cid fmt p of (p1, cs) \<Rightarrow> (case drain_formats cid fmts p1 of (p2, ds) \<Rightarrow> (p2, cs @ ds)))"

definition avg_drain :: "string \<Rightarrow> avg_grouper \<Rightarrow> avg_grouper \<times> (go_error + avg_value change list)" where
  "avg_drain cid p =
     (let p1 = put_avg_client cid (get_avg_client cid p) p; stats = dirty_stats cid p1
      in if list_all (\<lambda>e. f_finite (st_sum (snd e))) stats
         then (case drain_formats cid (mkeys (mget0 [] (dirtyPeriod2 p1) cid)) p1 of
                 (p2, cs) \<Rightarrow>
                   (p2\<lparr>dirtyPeriod1 := mdel cid (dirtyPeriod1 p2), dirtyPeriod2 := mdel cid (dirtyPeriod2 p2)\<rparr>,
                    Inr (map stats_change stats @ cs)))
         else (p1, Inl ErrParse))"

definition avg_mark_restored :: "string \<Rightarrow> avg_value change \<Rightarrow> avg_grouper \<Rightarrow> avg_grouper" where
  "avg_mark_restored cid c p =
     (case Value c of
        None \<Rightarrow> p
      | Some v \<Rightarrow>
          if Kind c = ''period1Stats'' then mark_period1 cid (v_format v) p
          else if Kind c = ''period2Txs'' then mark_period2 cid (v_format v) p
          else p)"

definition restored_formats :: "avg_value change list \<Rightarrow> string list" where
  "restored_formats cs =
     remdups (List.map_filter (\<lambda>c. if Kind c = ''period2Txs'' then map_option v_format (Value c) else None) cs)"

definition rewind_format :: "string \<Rightarrow> string \<Rightarrow> avg_grouper \<Rightarrow> avg_grouper" where
  "rewind_format cid fmt p =
     (case pending_index cid fmt p of
        None \<Rightarrow> p
      | Some previous \<Rightarrow> clear_pending_index cid fmt (set_last_index cid fmt previous p))"

definition avg_restore :: "string \<Rightarrow> avg_value change list \<Rightarrow> avg_grouper act" where
  "avg_restore cid cs = upd (\<lambda>p. fold (rewind_format cid) (restored_formats cs) (fold (avg_mark_restored cid) cs p))"

definition avg_apply :: "string \<Rightarrow> avg_value change \<Rightarrow> avg_grouper act" where
  "avg_apply cid c p =
     (let s = get_avg_client cid p; p1 = put_avg_client cid s p
      in if Kind c = ''period1Stats'' then
           (case Value c of
              None \<Rightarrow> (p1, Some ErrParse)
            | Some v \<Rightarrow>
                (put_avg_client cid (s\<lparr>period1Stats := mput (v_format v) \<lparr>st_sum = v_sum v, st_count = v_count v\<rparr> (period1Stats s)\<rparr>) p1,
                 None))
         else if Kind c = ''period2Txs'' then
           (case Value c of
              None \<Rightarrow> (p1, Some ErrParse)
            | Some v \<Rightarrow>
                (let tx = \<lparr>av_account = v_acct v, av_amount = v_amountPaid v, av_format = [], av_period = PeriodUnspecified\<rparr>;
                     s1 = add_period2 (v_format v) tx s
                 in (set_last_index cid (v_format v) (length (mget0 [] (period2Transactions s1) (v_format v))) (put_avg_client cid s1 p1),
                     None)))
         else (p1, Some (ErrUnknownKind (Kind c))))"

definition avg_ops :: "float_ops \<Rightarrow> (avg_grouper, 's, avg_transaction, avg_result, avg_value) proc_ops" where
  "avg_ops F = \<lparr>op_process = avg_process F, op_finalize = avg_finalize F, op_cleanup = avg_cleanup, op_clear = avg_cleanup,
     op_drain = avg_drain, op_restore = avg_restore, op_apply = avg_apply\<rparr>"

lemma avg_ops_simps [simp]:
  "op_process (avg_ops F) = avg_process F" "op_finalize (avg_ops F) = avg_finalize F"
  "op_cleanup (avg_ops F) = avg_cleanup" "op_clear (avg_ops F) = avg_cleanup"
  "op_drain (avg_ops F) = avg_drain" "op_restore (avg_ops F) = avg_restore" "op_apply (avg_ops F) = avg_apply"
  by (simp_all add: avg_ops_def)

section \<open>What is grouped\<close>

text \<open>The amounts of the first period and the payments of the second, of a client and a format.\<close>

definition first_amounts :: "float_ops \<Rightarrow> (string \<times> avg_transaction) list \<Rightarrow> string \<Rightarrow> string \<Rightarrow> f64 list" where
  "first_amounts F items cid fmt =
     List.map_filter (\<lambda>(c, x). if c = cid \<and> av_format x = fmt \<and> av_period x = PeriodFirst then f_parse F (av_amount x) else None) items"

definition second_payments :: "(string \<times> avg_transaction) list \<Rightarrow> string \<Rightarrow> string \<Rightarrow> avg_transaction list" where
  "second_payments items cid fmt =
     map snd (filter (\<lambda>(c, x). c = cid \<and> av_format x = fmt \<and> av_period x = PeriodSecond) items)"

definition stats_of :: "float_ops \<Rightarrow> f64 list \<Rightarrow> avg_stats" where
  "stats_of F as = \<lparr>st_sum = foldl (f_add F) 0 as, st_count = int (length as)\<rparr>"

definition grouped :: "float_ops \<Rightarrow> (string \<times> avg_transaction) list \<Rightarrow> string \<Rightarrow> avg_client \<Rightarrow> bool" where
  "grouped F items cid s \<longleftrightarrow> wf_map (period1Stats s) \<and>
     (\<forall>fmt. mget (period1Stats s) fmt =
        (if first_amounts F items cid fmt = [] then None else Some (stats_of F (first_amounts F items cid fmt)))) \<and>
     (\<forall>fmt. mget0 [] (period2Transactions s) fmt = second_payments items cid fmt)"

lemma get_put_avg [simp]:
  "get_avg_client c (put_avg_client cid s p) = (if c = cid then s else get_avg_client c p)"
  "get_avg_client c (mark_period1 cid fmt p) = get_avg_client c p" "get_avg_client c (mark_period2 cid fmt p) = get_avg_client c p"
  "get_avg_client c (set_last_index cid fmt n p) = get_avg_client c p"
  "get_avg_client c (set_pending_index cid fmt n p) = get_avg_client c p"
  by (simp_all add: get_avg_client_def put_avg_client_def mark_period1_def mark_period2_def set_last_index_def
    set_pending_index_def mget0_mput)

lemma grouped_new: "grouped F [] cid (get_avg_client cid new_avg_grouper)"
  by (simp add: grouped_def first_amounts_def second_payments_def get_avg_client_def new_avg_grouper_def new_avg_client_def
    List.map_filter_def)

lemma grouped_first:
  assumes "grouped F items cid s" "av_period x = PeriodFirst" "f_parse F (av_amount x) = Some a"
  shows "grouped F (items @ [(cid, x)]) cid (add_stats F (av_format x) a s)"
proof -
  have f: "first_amounts F (items @ [(cid, x)]) cid fmt = first_amounts F items cid fmt @ (if av_format x = fmt then [a] else [])" for fmt
    using assms by (simp add: first_amounts_def List.map_filter_def)
  have g: "second_payments (items @ [(cid, x)]) cid fmt = second_payments items cid fmt" for fmt
    using assms by (simp add: second_payments_def)
  have z: "mget0 \<lparr>st_sum = 0, st_count = 0\<rparr> (period1Stats s) fmt = stats_of F (first_amounts F items cid fmt)" for fmt
    using assms(1) by (auto simp: grouped_def mget0_def stats_of_def)
  have n: "stats_of F (as @ [a]) = \<lparr>st_sum = f_add F (st_sum (stats_of F as)) a, st_count = st_count (stats_of F as) + 1\<rparr>" for as
    by (simp add: stats_of_def)
  show ?thesis using assms(1) unfolding grouped_def f g
    by (auto simp: add_stats_def Let_def z n mget_mput)
qed

lemma grouped_second:
  assumes "grouped F items cid s" "av_period x = PeriodSecond"
  shows "grouped F (items @ [(cid, x)]) cid (add_period2 (av_format x) x s)"
  using assms by (auto simp: grouped_def first_amounts_def second_payments_def add_period2_def mget0_mput List.map_filter_def)

lemma grouped_skip:
  assumes "grouped F items cid s" "c \<noteq> cid \<or> av_period x = PeriodUnspecified"
  shows "grouped F (items @ [(c, x)]) cid s"
  using assms by (auto simp: grouped_def first_amounts_def second_payments_def List.map_filter_def)

lemma avg_process_all:
  assumes "\<forall>i \<in> set items. av_period (snd i) = PeriodFirst \<longrightarrow> f_parse F (av_amount (snd i)) \<noteq> None"
  shows "\<exists>p. for_each (\<lambda>(c, x). avg_process F c x) items new_avg_grouper = (p, None) \<and> grouped F items cid (get_avg_client cid p)"
  using assms
proof (induction items rule: rev_induct)
  case (snoc i items)
  obtain p where p: "for_each (\<lambda>(c, x). avg_process F c x) items new_avg_grouper = (p, None)"
    "grouped F items cid (get_avg_client cid p)" using snoc by auto
  obtain c x where i: "i = (c, x)" by fastforce
  obtain p' where p': "avg_process F c x p = (p', None)" "grouped F (items @ [(c, x)]) cid (get_avg_client cid p')"
  proof (cases "av_period x")
    case PeriodUnspecified
    then show ?thesis using that p(2) grouped_skip [OF p(2), of c x] by (cases "c = cid") (simp_all add: avg_process_def)
  next
    case PeriodFirst
    then obtain a where "f_parse F (av_amount x) = Some a" using snoc.prems i by auto
    then show ?thesis using that p(2) PeriodFirst grouped_skip [OF p(2), of c x] grouped_first [OF p(2), of x a]
      by (cases "c = cid") (simp_all add: avg_process_def process_first_period_def Let_def)
  next
    case PeriodSecond
    then show ?thesis using that p(2) grouped_skip [OF p(2), of c x] grouped_second [OF p(2), of x]
      by (cases "c = cid") (simp_all add: avg_process_def process_second_period_def Let_def)
  qed
  then show ?case using p(1) by (intro exI [of _ p']) (simp add: i for_each_append then_act_def ok_def)
qed (use grouped_new in \<open>simp add: ok_def\<close>)

lemma avg_results_grouped:
  assumes "grouped F items cid s"
  shows "avg_results F s = concat (map (\<lambda>fmt. below F (threshold_of F (stats_of F (first_amounts F items cid fmt)))
      (second_payments items cid fmt)) (mkeys (period1Stats s)))"
    "distinct (mkeys (period1Stats s))" "set (mkeys (period1Stats s)) = {fmt. first_amounts F items cid fmt \<noteq> []}"
proof -
  have w: "wf_map (period1Stats s)"
    and e: "\<And>fmt st. (fmt, st) \<in> set (period1Stats s) \<longleftrightarrow> first_amounts F items cid fmt \<noteq> [] \<and> st = stats_of F (first_amounts F items cid fmt)"
    using assms by (auto simp: grouped_def map_of_in_wf split: if_splits)
  show "distinct (mkeys (period1Stats s))" using w by (simp add: wf_map_def)
  show "set (mkeys (period1Stats s)) = {fmt. first_amounts F items cid fmt \<noteq> []}" using e by force
  have m: "map (\<lambda>(fmt, st). if st_count st = 0 then [] else below F (threshold_of F st) (mget0 [] (period2Transactions s) fmt)) (period1Stats s) =
      map (\<lambda>e. below F (threshold_of F (stats_of F (first_amounts F items cid (fst e)))) (second_payments items cid (fst e))) (period1Stats s)"
    using assms by (intro map_cong refl) (auto simp: e grouped_def stats_of_def)
  show "avg_results F s = concat (map (\<lambda>fmt. below F (threshold_of F (stats_of F (first_amounts F items cid fmt)))
      (second_payments items cid fmt)) (mkeys (period1Stats s)))" unfolding avg_results_def m by (simp only: map_map comp_def)
qed

section \<open>Recovery\<close>

text \<open>What the log keeps of a payment, and the data of a client as far as the log can tell.\<close>

definition tx_data :: "avg_transaction \<Rightarrow> string \<times> string" where
  "tx_data t = (av_account t, av_amount t)"

abbreviation stats_in :: "string \<Rightarrow> avg_grouper \<Rightarrow> string \<Rightarrow> avg_stats option" where
  "stats_in cid p fmt \<equiv> mget (period1Stats (get_avg_client cid p)) fmt"

abbreviation txs_in :: "string \<Rightarrow> avg_grouper \<Rightarrow> string \<Rightarrow> avg_transaction list" where
  "txs_in cid p fmt \<equiv> mget0 [] (period2Transactions (get_avg_client cid p)) fmt"

definition avg_view :: "string \<Rightarrow> avg_grouper \<Rightarrow> (string \<Rightarrow> avg_stats option) \<times> (string \<Rightarrow> (string \<times> string) list)" where
  "avg_view cid p = (stats_in cid p, \<lambda>fmt. map tx_data (txs_in cid p fmt))"

abbreviation dirty1 :: "string \<Rightarrow> avg_grouper \<Rightarrow> string set" where
  "dirty1 cid p \<equiv> set (mkeys (mget0 [] (dirtyPeriod1 p) cid))"

abbreviation dirty2 :: "string \<Rightarrow> avg_grouper \<Rightarrow> string set" where
  "dirty2 cid p \<equiv> set (mkeys (mget0 [] (dirtyPeriod2 p) cid))"

definition avg_tracked :: "string \<Rightarrow> avg_value change list \<Rightarrow> avg_grouper \<Rightarrow> bool" where
  "avg_tracked cid L p \<longleftrightarrow> wf_map (mget0 [] (dirtyPeriod2 p) cid) \<and>
     (\<forall>fmt. last_index cid fmt p \<le> length (txs_in cid p fmt) \<and>
        (last_index cid fmt p < length (txs_in cid p fmt) \<longrightarrow> fmt \<in> dirty2 cid p)) \<and>
     (\<exists>q. for_each (avg_apply cid) L new_avg_grouper = (q, None) \<and>
        (\<forall>fmt. stats_in cid q fmt = stats_in cid p fmt \<or> fmt \<in> dirty1 cid p \<and> stats_in cid p fmt \<noteq> None) \<and>
        (\<forall>fmt. map tx_data (txs_in cid q fmt) = map tx_data (take (last_index cid fmt p) (txs_in cid p fmt))))"

lemma index_simps [simp]:
  "last_index c f (put_avg_client cid s p) = last_index c f p"
  "last_index c f (mark_period1 cid fmt p) = last_index c f p" "last_index c f (mark_period2 cid fmt p) = last_index c f p"
  "last_index c f (set_last_index cid fmt n p) = (if c = cid \<and> f = fmt then n else last_index c f p)"
  "last_index c f (set_pending_index cid fmt n p) = last_index c f p"
  "pending_index c f (set_last_index cid fmt n p) = pending_index c f p"
  "pending_index c f (put_avg_client cid s p) = pending_index c f p"
  "pending_index c f (mark_period1 cid fmt p) = pending_index c f p" "pending_index c f (mark_period2 cid fmt p) = pending_index c f p"
  "pending_index c f (set_pending_index cid fmt n p) = (if c = cid \<and> f = fmt then Some n else pending_index c f p)"
  by (simp_all add: last_index_def pending_index_def put_avg_client_def mark_period1_def mark_period2_def set_last_index_def
    set_pending_index_def nput_get mget0_mput mget_mput)

lemma dirty_simps [simp]:
  "dirtyPeriod1 (put_avg_client cid s p) = dirtyPeriod1 p" "dirtyPeriod2 (put_avg_client cid s p) = dirtyPeriod2 p"
  "dirtyPeriod1 (set_last_index cid fmt n p) = dirtyPeriod1 p" "dirtyPeriod2 (set_last_index cid fmt n p) = dirtyPeriod2 p"
  "dirtyPeriod1 (set_pending_index cid fmt n p) = dirtyPeriod1 p" "dirtyPeriod2 (set_pending_index cid fmt n p) = dirtyPeriod2 p"
  "dirtyPeriod1 (mark_period1 cid fmt p) = nput cid fmt True (dirtyPeriod1 p)" "dirtyPeriod2 (mark_period1 cid fmt p) = dirtyPeriod2 p"
  "dirtyPeriod2 (mark_period2 cid fmt p) = nput cid fmt True (dirtyPeriod2 p)" "dirtyPeriod1 (mark_period2 cid fmt p) = dirtyPeriod1 p"
  by (simp_all add: put_avg_client_def mark_period1_def mark_period2_def set_last_index_def set_pending_index_def)

lemma undirty_simps [simp]:
  "get_avg_client c (p\<lparr>dirtyPeriod1 := a, dirtyPeriod2 := b\<rparr>) = get_avg_client c p"
  "last_index c f (p\<lparr>dirtyPeriod1 := a, dirtyPeriod2 := b\<rparr>) = last_index c f p"
  "pending_index c f (p\<lparr>dirtyPeriod1 := a, dirtyPeriod2 := b\<rparr>) = pending_index c f p"
  by (simp_all add: get_avg_client_def last_index_def pending_index_def)

lemma put_get_avg [simp]: "get_avg_client c (put_avg_client cid (get_avg_client cid p) p) = get_avg_client c p"
  by simp

text \<open>Replaying the statistics, and the payments of one format.\<close>

lemma apply_stats:
  assumes "\<And>fmt st. (fmt, st) \<in> set es \<Longrightarrow> P fmt = Some st"
  shows "\<exists>q'. for_each (avg_apply cid) (map stats_change es) q = (q', None) \<and>
    (\<forall>fmt. stats_in cid q' fmt = (if fmt \<in> fst ` set es then P fmt else stats_in cid q fmt)) \<and>
    (\<forall>fmt. txs_in cid q' fmt = txs_in cid q fmt)"
  using assms
proof (induction es arbitrary: q)
  case (Cons e es)
  obtain q1 where q1: "avg_apply cid (stats_change e) q = (q1, None)"
    "\<And>fmt. stats_in cid q1 fmt = (if fmt = fst e then Some (snd e) else stats_in cid q fmt)" "\<And>fmt. txs_in cid q1 fmt = txs_in cid q fmt"
    by (simp add: avg_apply_def stats_change_def Let_def mget_mput)
  have e: "P (fst e) = Some (snd e)" using Cons.prems [of "fst e" "snd e"] by simp
  obtain q' where "for_each (avg_apply cid) (map stats_change es) q1 = (q', None)"
    "\<And>fmt. stats_in cid q' fmt = (if fmt \<in> fst ` set es then P fmt else stats_in cid q1 fmt)"
    "\<And>fmt. txs_in cid q' fmt = txs_in cid q1 fmt" using Cons.IH [of q1] Cons.prems by auto
  then show ?case using q1 e by (intro exI [of _ q']) (auto simp: then_act_def)
qed (simp add: ok_def)

lemma apply_txs:
  "\<exists>q'. for_each (avg_apply cid) (map (tx_change fmt) (List.enumerate n txs)) q = (q', None) \<and>
    (\<forall>f. stats_in cid q' f = stats_in cid q f) \<and>
    (\<forall>f. map tx_data (txs_in cid q' f) = map tx_data (txs_in cid q f) @ (if f = fmt then map tx_data txs else []))"
proof (induction txs arbitrary: n q)
  case (Cons t txs)
  obtain q1 where q1: "avg_apply cid (tx_change fmt (n, t)) q = (q1, None)" "\<And>f. stats_in cid q1 f = stats_in cid q f"
    "\<And>f. map tx_data (txs_in cid q1 f) = map tx_data (txs_in cid q f) @ (if f = fmt then [tx_data t] else [])"
    by (simp add: avg_apply_def tx_change_def Let_def add_period2_def mget0_mput tx_data_def)
  obtain q' where "for_each (avg_apply cid) (map (tx_change fmt) (List.enumerate (Suc n) txs)) q1 = (q', None)"
    "\<And>f. stats_in cid q' f = stats_in cid q1 f"
    "\<And>f. map tx_data (txs_in cid q' f) = map tx_data (txs_in cid q1 f) @ (if f = fmt then map tx_data txs else [])"
    using Cons.IH by blast
  then show ?case using q1 by (intro exI [of _ q']) (auto simp: then_act_def)
qed (simp add: ok_def)

text \<open>Draining the payments: the new indices, and the replay of the changes.\<close>

lemma drain_formats_spec:
  assumes "distinct fmts" "drain_formats cid fmts p = (p', cs)" "\<And>f. last_index cid f p \<le> length (txs_in cid p f)"
  shows "(\<forall>c. get_avg_client c p' = get_avg_client c p) \<and> dirtyPeriod1 p' = dirtyPeriod1 p \<and> dirtyPeriod2 p' = dirtyPeriod2 p \<and>
    (\<forall>f. last_index cid f p' = (if f \<in> set fmts then length (txs_in cid p f) else last_index cid f p)) \<and>
    (\<forall>c f. c \<noteq> cid \<longrightarrow> last_index c f p' = last_index c f p) \<and>
    (\<forall>f. f \<in> set (restored_formats cs) \<longrightarrow> pending_index cid f p' = Some (last_index cid f p)) \<and>
    (\<forall>f. f \<in> set (restored_formats cs) \<longleftrightarrow> f \<in> set fmts \<and> last_index cid f p < length (txs_in cid p f)) \<and>
    (\<forall>q. \<exists>q'. for_each (avg_apply cid) cs q = (q', None) \<and> (\<forall>f. stats_in cid q' f = stats_in cid q f) \<and>
       (\<forall>f. map tx_data (txs_in cid q' f) = map tx_data (txs_in cid q f) @
          (if f \<in> set fmts then map tx_data (drop (last_index cid f p) (txs_in cid p f)) else [])))"
  using assms
proof (induction fmts arbitrary: p p' cs)
  case Nil
  then show ?case by (simp add: restored_formats_def ok_def List.map_filter_def)
next
  case (Cons fmt fmts)
  obtain p1 cs1 cs2 where d: "drain_format cid fmt p = (p1, cs1)" "drain_formats cid fmts p1 = (p', cs2)" "cs = cs1 @ cs2"
    using Cons.prems(2) by (auto split: prod.splits)
  let ?txs = "txs_in cid p fmt" and ?last = "last_index cid fmt p"
  have cs1: "cs1 = map (tx_change fmt) (List.enumerate ?last (drop ?last ?txs))"
    and p1: "\<And>c. get_avg_client c p1 = get_avg_client c p" "dirtyPeriod1 p1 = dirtyPeriod1 p" "dirtyPeriod2 p1 = dirtyPeriod2 p"
      "\<And>c f. last_index c f p1 = (if c = cid \<and> f = fmt then length ?txs else last_index c f p)"
      "?last < length ?txs \<Longrightarrow> pending_index cid fmt p1 = Some ?last"
      "\<And>f. f \<noteq> fmt \<Longrightarrow> pending_index cid f p1 = pending_index cid f p"
    using d(1) Cons.prems(3) [of fmt]
    by (auto simp: drain_format_def Let_def mget0_def split: option.splits)
  have r1: "set (restored_formats (cs1 @ cs2)) = (if ?last < length ?txs then {fmt} else {}) \<union> set (restored_formats cs2)"
  proof -
    have en: "List.enumerate n xs = [] \<longleftrightarrow> xs = []" for n and xs :: "avg_transaction list" by (cases xs) auto
    have "set (List.map_filter (\<lambda>c. if Kind c = ''period2Txs'' then map_option v_format (Value c) else None) cs1) =
        (if ?last < length ?txs then {fmt} else {})"
      by (auto simp: cs1 List.map_filter_def tx_change_def comp_def filter_empty_conv image_constant_conv en)
    then show ?thesis by (simp add: restored_formats_def List.map_filter_def)
  qed
  note IH = Cons.IH [OF _ d(2)]
  have ih: "\<And>f. last_index cid f p1 \<le> length (txs_in cid p1 f)" using Cons.prems(3) p1(1,4) by auto
  have new: "fmt \<notin> set fmts" "distinct fmts" using Cons.prems(1) by auto
  have keep: "pending_index cid fmt p' = pending_index cid fmt p1" if "fmt \<notin> set fmts" for fmt
    using that d(2)
  proof (induction fmts arbitrary: p1 cs2)
    case (Cons g gs)
    then show ?case by (auto simp: drain_format_def Let_def split: prod.splits option.splits)
  qed simp
  have all: "\<exists>q'. for_each (avg_apply cid) cs q = (q', None) \<and> (\<forall>f. stats_in cid q' f = stats_in cid q f) \<and>
       (\<forall>f. map tx_data (txs_in cid q' f) = map tx_data (txs_in cid q f) @
          (if f \<in> set (fmt # fmts) then map tx_data (drop (last_index cid f p) (txs_in cid p f)) else []))" for q
  proof -
    obtain q1 where q1: "for_each (avg_apply cid) cs1 q = (q1, None)" "\<And>f. stats_in cid q1 f = stats_in cid q f"
      "\<And>f. map tx_data (txs_in cid q1 f) = map tx_data (txs_in cid q f) @ (if f = fmt then map tx_data (drop ?last ?txs) else [])"
      using apply_txs [of cid fmt ?last "drop ?last ?txs" q] unfolding cs1 by blast
    obtain q' where "for_each (avg_apply cid) cs2 q1 = (q', None)" "\<And>f. stats_in cid q' f = stats_in cid q1 f"
      "\<And>f. map tx_data (txs_in cid q' f) = map tx_data (txs_in cid q1 f) @
          (if f \<in> set fmts then map tx_data (drop (last_index cid f p1) (txs_in cid p1 f)) else [])"
      using IH [OF new(2) ih] by blast
    then show ?thesis using q1 new(1) p1(1,4) by (intro exI [of _ q']) (auto simp: d(3) for_each_append then_act_def)
  qed
  have pend: "pending_index cid f p' = Some (last_index cid f p)" if "f \<in> set (restored_formats cs)" for f
    using that IH [OF new(2) ih] r1 p1(4,5) keep [OF new(1)] new(1) unfolding d(3) by (auto split: if_splits)
  show ?case using IH [OF new(2) ih] r1 p1 new all pend unfolding d(3) by auto
qed

lemma stats_in_dirty: "(fmt, st) \<in> set (dirty_stats cid p) \<longleftrightarrow> fmt \<in> dirty1 cid p \<and> stats_in cid p fmt = Some st"
  by (auto simp: dirty_stats_def List.map_filter_def image_iff) (metis fst_conv)

lemma avg_drain_cases:
  assumes "avg_drain cid p = (p', r)"
  obtains (refused) "r = Inl ErrParse" "p' = put_avg_client cid (get_avg_client cid p) p"
  | (drained) p2 cs where "drain_formats cid (mkeys (mget0 [] (dirtyPeriod2 p) cid)) (put_avg_client cid (get_avg_client cid p) p) = (p2, cs)"
      "r = Inr (map stats_change (dirty_stats cid p) @ cs)"
      "p' = p2\<lparr>dirtyPeriod1 := mdel cid (dirtyPeriod1 p2), dirtyPeriod2 := mdel cid (dirtyPeriod2 p2)\<rparr>"
proof -
  have "dirty_stats cid (put_avg_client cid (get_avg_client cid p) p) = dirty_stats cid p" by (simp add: dirty_stats_def)
  then show ?thesis using assms refused drained by (auto simp: avg_drain_def Let_def split: if_splits prod.splits)
qed

text \<open>What \<open>RestoreChanges\<close> does to the indices and the marks.\<close>

lemma mark_restored:
  "get_avg_client c (fold (avg_mark_restored cid) cs p) = get_avg_client c p"
  "last_index c f (fold (avg_mark_restored cid) cs p) = last_index c f p"
  "pending_index c f (fold (avg_mark_restored cid) cs p) = pending_index c f p"
  "c \<noteq> cid \<Longrightarrow> dirty1 c (fold (avg_mark_restored cid) cs p) = dirty1 c p \<and> dirty2 c (fold (avg_mark_restored cid) cs p) = dirty2 c p"
  by (induction cs arbitrary: p) (auto simp: avg_mark_restored_def nput_get split: option.splits if_splits)

lemma mark_restored_wf:
  "wf_map (mget0 [] (dirtyPeriod2 p) c) \<Longrightarrow> wf_map (mget0 [] (dirtyPeriod2 (fold (avg_mark_restored cid) cs p)) c)"
proof (induction cs arbitrary: p)
  case (Cons a cs)
  have "wf_map (mget0 [] (dirtyPeriod2 (avg_mark_restored cid a p)) c)"
    using Cons.prems by (auto simp: avg_mark_restored_def nput_get split: option.split)
  then show ?case using Cons.IH by simp
qed simp

lemma mark_restored_dirty:
  "dirty2 cid (fold (avg_mark_restored cid) cs p) = dirty2 cid p \<union> set (restored_formats cs)"
  "dirty1 cid (fold (avg_mark_restored cid) cs p) =
     dirty1 cid p \<union> {v_format v |v. \<exists>c \<in> set cs. Kind c = ''period1Stats'' \<and> Value c = Some v}"
proof (induction cs arbitrary: p)
  case (Cons c cs)
  {
    case 1
    show ?case using Cons(1) [of "avg_mark_restored cid c p"]
      by (auto simp: avg_mark_restored_def nput_get set_keys_mput restored_formats_def List.map_filter_def simp del: set_map
        split: option.splits if_splits)
  next
    case 2
    show ?case using Cons(2) [of "avg_mark_restored cid c p"]
      by (auto simp: avg_mark_restored_def nput_get set_keys_mput simp del: set_map split: option.splits if_splits)
  }
qed (simp_all add: restored_formats_def List.map_filter_def)

lemma clear_pending:
  "get_avg_client c (clear_pending_index cid fmt p) = get_avg_client c p"
  "last_index c f (clear_pending_index cid fmt p) = last_index c f p"
  "dirtyPeriod1 (clear_pending_index cid fmt p) = dirtyPeriod1 p" "dirtyPeriod2 (clear_pending_index cid fmt p) = dirtyPeriod2 p"
  "f \<noteq> fmt \<Longrightarrow> pending_index cid f (clear_pending_index cid fmt p) = pending_index cid f p"
proof -
  show "f \<noteq> fmt \<Longrightarrow> pending_index cid f (clear_pending_index cid fmt p) = pending_index cid f p"
  proof (cases "mget (pendingIdx p) cid")
    case (Some m)
    assume f: "f \<noteq> fmt"
    show ?thesis
    proof (cases "mdel fmt m = []")
      case True
      then have "mget (mdel fmt m) f = None" by simp
      then have "mget m f = None" using f by (simp add: mget_mdel)
      then show ?thesis using True Some by (simp add: clear_pending_index_def pending_index_def mget0_mdel) (simp add: mget0_def)
    next
      case False
      then show ?thesis using Some f
        by (simp add: clear_pending_index_def pending_index_def mget0_mput mget_mdel) (simp add: mget0_def)
    qed
  qed (simp add: clear_pending_index_def)
qed (auto simp: clear_pending_index_def get_avg_client_def last_index_def Let_def split: option.split)

lemma rewind_all:
  assumes "distinct fmts" "\<And>f. f \<in> set fmts \<Longrightarrow> pending_index cid f p = Some (n f)"
  shows "(\<forall>f. last_index cid f (fold (rewind_format cid) fmts p) = (if f \<in> set fmts then n f else last_index cid f p)) \<and>
    (\<forall>c. get_avg_client c (fold (rewind_format cid) fmts p) = get_avg_client c p) \<and>
    dirtyPeriod1 (fold (rewind_format cid) fmts p) = dirtyPeriod1 p \<and> dirtyPeriod2 (fold (rewind_format cid) fmts p) = dirtyPeriod2 p"
  using assms
proof (induction fmts arbitrary: p)
  case (Cons g gs)
  let ?p = "rewind_format cid g p"
  have p: "pending_index cid h ?p = Some (n h)" if "h \<in> set gs" for h
    using that Cons.prems by (cases "h = g") (auto simp: rewind_format_def clear_pending)
  have e: "last_index cid h ?p = (if h = g then n g else last_index cid h p)" "get_avg_client c ?p = get_avg_client c p"
    "dirtyPeriod1 ?p = dirtyPeriod1 p" "dirtyPeriod2 ?p = dirtyPeriod2 p" for h c
    using Cons.prems(2) [of g] by (simp_all add: rewind_format_def clear_pending)
  show ?case using Cons.IH [of ?p] p e Cons.prems(1) by auto
qed simp

lemma rewind_others:
  "c \<noteq> cid \<Longrightarrow> last_index c f (fold (rewind_format cid) fmts p) = last_index c f p"
  "get_avg_client c (fold (rewind_format cid) fmts p) = get_avg_client c p"
  "dirtyPeriod1 (fold (rewind_format cid) fmts p) = dirtyPeriod1 p" "dirtyPeriod2 (fold (rewind_format cid) fmts p) = dirtyPeriod2 p"
  by (induction fmts arbitrary: p) (auto simp: rewind_format_def clear_pending split: option.splits)

lemma avg_drained:
  assumes "avg_tracked cid L p" "avg_drain cid p = (p', Inr ds)"
  shows "avg_tracked cid (L @ ds) p'"
    "\<exists>q. for_each (avg_apply cid) (L @ ds) new_avg_grouper = (q, None) \<and> avg_view cid q = avg_view cid p'"
    "avg_view cid p' = avg_view cid p" "avg_tracked cid L (fst (avg_restore cid ds p'))"
proof -
  obtain p2 cs where drained:
    "drain_formats cid (mkeys (mget0 [] (dirtyPeriod2 p) cid)) (put_avg_client cid (get_avg_client cid p) p) = (p2, cs)"
    "ds = map stats_change (dirty_stats cid p) @ cs"
    "p' = p2\<lparr>dirtyPeriod1 := mdel cid (dirtyPeriod1 p2), dirtyPeriod2 := mdel cid (dirtyPeriod2 p2)\<rparr>"
    by (cases rule: avg_drain_cases [OF assms(2)]) auto
  let ?p0 = "put_avg_client cid (get_avg_client cid p) p" and ?fmts = "mkeys (mget0 [] (dirtyPeriod2 p) cid)"
  let ?es = "dirty_stats cid p"
  note ds = drained(2)
  have t: "wf_map (mget0 [] (dirtyPeriod2 p) cid)"
    "\<And>fmt. last_index cid fmt p \<le> length (txs_in cid p fmt)"
    "\<And>fmt. last_index cid fmt p < length (txs_in cid p fmt) \<Longrightarrow> fmt \<in> dirty2 cid p" using assms(1) by (auto simp: avg_tracked_def)
  obtain q0 where q0: "for_each (avg_apply cid) L new_avg_grouper = (q0, None)"
    "\<And>fmt. stats_in cid q0 fmt = stats_in cid p fmt \<or> fmt \<in> dirty1 cid p \<and> stats_in cid p fmt \<noteq> None"
    "\<And>fmt. map tx_data (txs_in cid q0 fmt) = map tx_data (take (last_index cid fmt p) (txs_in cid p fmt))"
    using assms(1) by (auto simp: avg_tracked_def)
  have full: "fmt \<notin> dirty2 cid p \<Longrightarrow> last_index cid fmt p = length (txs_in cid p fmt)" for fmt
    using t(2,3) [of fmt] le_neq_implies_less by blast
  have fmts: "distinct ?fmts" using t(1) by (simp add: wf_map_def)
  have le: "last_index cid f ?p0 \<le> length (txs_in cid ?p0 f)" for f using t(2) by simp
  note spec = drain_formats_spec [OF fmts drained(1) le, unfolded index_simps put_get_avg dirty_simps]
  have client: "get_avg_client c p2 = get_avg_client c p" for c using spec by (elim conjE allE)
  have dirty: "dirtyPeriod1 p2 = dirtyPeriod1 p \<and> dirtyPeriod2 p2 = dirtyPeriod2 p" using spec by (elim conjE) (intro conjI)
  have last: "last_index cid f p2 = (if f \<in> dirty2 cid p then length (txs_in cid p f) else last_index cid f p)" for f
    using spec by (elim conjE allE)
  have pending: "f \<in> set (restored_formats cs) \<Longrightarrow> pending_index cid f p2 = Some (last_index cid f p)" for f
    using spec by (elim conjE) blast
  have restored: "f \<in> set (restored_formats cs) \<longleftrightarrow> f \<in> dirty2 cid p \<and> last_index cid f p < length (txs_in cid p f)" for f
    using spec by (elim conjE allE)
  have p': "get_avg_client c p' = get_avg_client c p" "last_index cid f p' = length (txs_in cid p f)" "dirty1 cid p' = {}" "dirty2 cid p' = {}"
    "mget0 [] (dirtyPeriod2 p') cid = []" for c f
    using full by (simp_all add: drained(3) mget0_mdel client last del: set_map)
  have es: "fst ` set ?es = {fmt \<in> dirty1 cid p. stats_in cid p fmt \<noteq> None}" using stats_in_dirty [of _ _ cid p] by force
  have pre: "stats_in cid p fmt = Some st" if "(fmt, st) \<in> set ?es" for fmt st using that stats_in_dirty by blast
  obtain q1 where q1: "for_each (avg_apply cid) (map stats_change ?es) q0 = (q1, None)"
    "\<And>fmt. stats_in cid q1 fmt = (if fmt \<in> fst ` set ?es then stats_in cid p fmt else stats_in cid q0 fmt)"
    "\<And>fmt. txs_in cid q1 fmt = txs_in cid q0 fmt"
    using apply_stats [of ?es "stats_in cid p" cid q0, OF pre] by blast
  have "stats_in cid q1 fmt = stats_in cid p fmt" for fmt using q0(2) [of fmt] unfolding q1(2) es by auto
  moreover obtain q where q: "for_each (avg_apply cid) cs q1 = (q, None)" "\<And>f. stats_in cid q f = stats_in cid q1 f"
    "\<And>f. map tx_data (txs_in cid q f) = map tx_data (txs_in cid q1 f) @
       (if f \<in> set ?fmts then map tx_data (drop (last_index cid f p) (txs_in cid p f)) else [])"
    using spec by (elim conjE allE [of _ q1] exE) blast
  moreover have "map tx_data (txs_in cid q f) = map tx_data (txs_in cid p f)" for f
    using full [of f] by (simp add: q(3) q1(3) q0(3) del: set_map flip: map_append)
  ultimately have r: "for_each (avg_apply cid) (L @ ds) new_avg_grouper = (q, None)"
    "\<And>f. stats_in cid q f = stats_in cid p f" "\<And>f. map tx_data (txs_in cid q f) = map tx_data (txs_in cid p f)"
    using q0(1) q1(1) by (auto simp: ds for_each_append then_act_def)
  show "avg_tracked cid (L @ ds) p'" using r p' by (auto simp: avg_tracked_def)
  show "\<exists>q. for_each (avg_apply cid) (L @ ds) new_avg_grouper = (q, None) \<and> avg_view cid q = avg_view cid p'"
    using r p'(1) by (auto simp: avg_view_def)
  show "avg_view cid p' = avg_view cid p" using p'(1) by (simp add: avg_view_def)
  show "avg_tracked cid L (fst (avg_restore cid ds p'))"
  proof -
    let ?m = "fold (avg_mark_restored cid) ds p'"
    have rf: "restored_formats ds = restored_formats cs"
      by (auto simp: ds restored_formats_def List.map_filter_def stats_change_def filter_empty_conv)
    have pend: "pending_index cid f ?m = Some (last_index cid f p)" if "f \<in> set (restored_formats ds)" for f
      using that pending unfolding rf mark_restored by (simp add: drained(3))
    have "distinct (restored_formats ds)" by (simp add: restored_formats_def)
    note rw = rewind_all [OF this pend]
    have m: "fst (avg_restore cid ds p') = fold (rewind_format cid) (restored_formats ds) ?m" by (simp add: avg_restore_def upd_def)
    have client': "get_avg_client cid (fst (avg_restore cid ds p')) = get_avg_client cid p"
      unfolding m using rw mark_restored(1) p'(1) by simp
    have last': "last_index cid f (fst (avg_restore cid ds p')) = last_index cid f p" for f
    proof -
      have "last_index cid f (fst (avg_restore cid ds p')) = (if f \<in> set (restored_formats ds) then last_index cid f p else length (txs_in cid p f))"
        unfolding m using rw mark_restored(2) [of cid f cid ds p'] p'(2) by simp
      then show ?thesis using restored [of f] full [of f] t(2) [of f] unfolding rf by (metis le_neq_implies_less)
    qed
    have d1: "fmt \<in> dirty1 cid (fst (avg_restore cid ds p'))" if "fmt \<in> dirty1 cid p" "stats_in cid p fmt \<noteq> None" for fmt
    proof -
      have "fmt \<in> fst ` set ?es" using that es by blast
      then obtain st where "(fmt, st) \<in> set ?es" by auto
      then have "stats_change (fmt, st) \<in> set ds" by (simp add: ds)
      moreover have "Kind (stats_change (fmt, st)) = ''period1Stats''" "\<exists>v. Value (stats_change (fmt, st)) = Some v \<and> v_format v = fmt"
        by (simp_all add: stats_change_def)
      ultimately have "fmt \<in> dirty1 cid ?m" unfolding mark_restored_dirty by blast
      then show ?thesis unfolding m using rw by simp
    qed
    have d2: "fmt \<in> dirty2 cid (fst (avg_restore cid ds p'))" if "last_index cid fmt p < length (txs_in cid p fmt)" for fmt
    proof -
      have "fmt \<in> set (restored_formats ds)" using that restored [of fmt] t(3) [of fmt] by (simp add: rf)
      then have "fmt \<in> dirty2 cid ?m" unfolding mark_restored_dirty by blast
      then show ?thesis unfolding m using rw by simp
    qed
    have w: "wf_map (mget0 [] (dirtyPeriod2 (fst (avg_restore cid ds p'))) cid)"
      unfolding m using rw mark_restored_wf [of p' cid cid ds] p'(5) by simp
    show ?thesis unfolding avg_tracked_def client' last' using w t(2) d1 d2 q0 by blast
  qed
qed

lemma avg_others:
  assumes "avg_tracked cid L p" "cid' \<noteq> cid"
  shows "avg_tracked cid L (fst (avg_drain cid' p))" "avg_tracked cid L (fst (avg_restore cid' cs p))"
proof -
  have keep: "avg_tracked cid L q"
    if "get_avg_client cid q = get_avg_client cid p" "\<And>f. last_index cid f q = last_index cid f p"
      "mget0 [] (dirtyPeriod1 q) cid = mget0 [] (dirtyPeriod1 p) cid" "mget0 [] (dirtyPeriod2 q) cid = mget0 [] (dirtyPeriod2 p) cid" for q
    using assms(1) that by (simp add: avg_tracked_def)
  have formats: "drain_formats cid' fmts q = (q', ds) \<Longrightarrow> get_avg_client cid q' = get_avg_client cid q \<and>
      (\<forall>f. last_index cid f q' = last_index cid f q) \<and> dirtyPeriod1 q' = dirtyPeriod1 q \<and> dirtyPeriod2 q' = dirtyPeriod2 q" for fmts q q' ds
  proof (induction fmts arbitrary: q q' ds)
    case (Cons g gs)
    obtain q1 ds1 where q1: "drain_format cid' g q = (q1, ds1)" by fastforce
    then have "get_avg_client cid q1 = get_avg_client cid q \<and> (\<forall>f. last_index cid f q1 = last_index cid f q) \<and>
        dirtyPeriod1 q1 = dirtyPeriod1 q \<and> dirtyPeriod2 q1 = dirtyPeriod2 q"
      using assms(2) by (auto simp: drain_format_def Let_def split: option.splits)
    then show ?case using Cons q1 by (auto split: prod.splits)
  qed simp
  obtain p' r where d: "avg_drain cid' p = (p', r)" by fastforce
  show "avg_tracked cid L (fst (avg_drain cid' p))"
    using d
  proof (cases rule: avg_drain_cases)
    case refused
    then show ?thesis using assms(2) d by (auto intro!: keep)
  next
    case (drained p2 cs)
    then show ?thesis using assms(2) d formats [OF drained(1)] by (auto intro!: keep simp: mget0_mdel)
  qed
  have "dirty1 cid (fst (avg_restore cid' cs p)) = dirty1 cid p \<and> dirty2 cid (fst (avg_restore cid' cs p)) = dirty2 cid p"
    using mark_restored(4) [of cid cid' cs p] assms(2) by (simp add: avg_restore_def upd_def rewind_others del: set_map)
  moreover have "wf_map (mget0 [] (dirtyPeriod2 p) cid) \<Longrightarrow> wf_map (mget0 [] (dirtyPeriod2 (fst (avg_restore cid' cs p))) cid)"
    using mark_restored_wf [of p cid cid' cs] by (simp add: avg_restore_def upd_def rewind_others)
  moreover have "get_avg_client cid (fst (avg_restore cid' cs p)) = get_avg_client cid p"
    "last_index cid f (fst (avg_restore cid' cs p)) = last_index cid f p" for f
    using assms(2) by (simp_all add: avg_restore_def upd_def rewind_others mark_restored)
  ultimately show "avg_tracked cid L (fst (avg_restore cid' cs p))"
    using assms(1) by (simp add: avg_tracked_def del: set_map)
qed

lemma avg_process_tracked:
  assumes "avg_tracked cid L p"
  shows "avg_tracked cid L (fst (avg_process F cid' x p))"
proof -
  have same: "avg_tracked cid L (put_avg_client cid' (get_avg_client cid' p) p)"
    using assms unfolding avg_tracked_def dirty_simps index_simps put_get_avg .
  show ?thesis
  proof (cases "av_period x")
    case PeriodUnspecified
    then show ?thesis using same by (simp add: avg_process_def)
  next
    case PeriodFirst
    show ?thesis
    proof (cases "f_parse F (av_amount x)")
      case None
      then show ?thesis using same PeriodFirst by (simp add: avg_process_def process_first_period_def)
    next
      case (Some a)
      let ?p = "fst (avg_process F cid' x p)"
      have "stats_in cid ?p fmt = (if cid = cid' \<and> fmt = av_format x then Some (the (stats_in cid ?p fmt)) else stats_in cid p fmt)"
        "txs_in cid ?p fmt = txs_in cid p fmt" "last_index cid fmt ?p = last_index cid fmt p"
        "dirty1 cid ?p = (if cid = cid' then insert (av_format x) (dirty1 cid p) else dirty1 cid p)"
        "mget0 [] (dirtyPeriod2 ?p) cid = mget0 [] (dirtyPeriod2 p) cid" for fmt
        using Some PeriodFirst by (auto simp: avg_process_def process_first_period_def Let_def add_stats_def mget_mput nput_get
          set_keys_mput simp del: set_map)
      then show ?thesis using assms unfolding avg_tracked_def by (smt (verit) insertCI option.distinct(1))
    qed
  next
    case PeriodSecond
    let ?p = "fst (avg_process F cid' x p)"
    have e: "stats_in cid ?p fmt = stats_in cid p fmt"
      "txs_in cid ?p fmt = txs_in cid p fmt @ (if cid = cid' \<and> fmt = av_format x then [x] else [])"
      "last_index cid fmt ?p = last_index cid fmt p" "mget0 [] (dirtyPeriod1 ?p) cid = mget0 [] (dirtyPeriod1 p) cid"
      "dirty2 cid ?p = (if cid = cid' then insert (av_format x) (dirty2 cid p) else dirty2 cid p)" for fmt
      using PeriodSecond by (auto simp: avg_process_def process_second_period_def Let_def add_period2_def mget0_mput nput_get
        set_keys_mput simp del: set_map)
    have "wf_map (mget0 [] (dirtyPeriod2 p) cid) \<Longrightarrow> wf_map (mget0 [] (dirtyPeriod2 ?p) cid)"
      using PeriodSecond by (cases "cid = cid'") (simp_all add: avg_process_def process_second_period_def Let_def nput_get)
    then show ?thesis using assms unfolding avg_tracked_def e by (auto intro: le_SucI simp del: set_map)
  qed
qed

interpretation avg_grouper: checkpointable "avg_ops F" new_avg_grouper avg_view avg_tracked for F
proof (unfold_locales, goal_cases)
  case (1 cid)
  show ?case by (simp add: avg_tracked_def new_avg_grouper_def last_index_def ok_def get_avg_client_def new_avg_client_def)
next
  case (2 cid L p cid' x)
  then show ?case using avg_process_tracked by simp
next
  case (3 cid L p p' cs)
  then show ?case using avg_drained [of cid L p p' cs] by simp
next
  case (4 cid L p p' e)
  then have d: "avg_drain cid p = (p', Inl e)" by simp
  then have "p' = put_avg_client cid (get_avg_client cid p) p" by (cases rule: avg_drain_cases) auto
  then show ?case using 4(1) by (simp add: avg_tracked_def)
next
  case (5 cid L p cid')
  then show ?case using avg_others by simp
next
  case (6 cid L p p' cs)
  then show ?case using avg_drained [of cid L p p' cs] by simp
next
  case (7 cid L p cid' cs)
  then show ?case using avg_others by simp
next
  case (8 cid L p p')
  then show ?case using avg_drained [of cid L p p' "[]"] by simp
qed

section \<open>Properties\<close>

text \<open>
  The averages query reports exactly the small payments. When the amounts of the first period parse, then after any
  sequence of payments of any clients \<open>Finalize\<close> yields, format by format in some order, the
  payments of the second period of the client, in the order of arrival, whose amount parses and is not at least
  a hundredth of the average of the client's first-period payments of the same format; formats without
  first-period payments report nothing, and the number of results is returned.
\<close>

theorem avg_reports_small_payments:
  "\<forall>i \<in> set items. av_period (snd i) = PeriodFirst \<longrightarrow> f_parse F (av_amount (snd i)) \<noteq> None \<Longrightarrow>
   \<exists>p fmts out. for_each (\<lambda>(c, x). avg_process F c x) items new_avg_grouper = (p, None) \<and>
     avg_finalize F cid collect (p, []) = ((p, out), Inr (of_nat (length out))) \<and>
     distinct fmts \<and> set fmts = {fmt. first_amounts F items cid fmt \<noteq> []} \<and>
     out = concat (map (\<lambda>fmt. below F (threshold_of F (stats_of F (first_amounts F items cid fmt))) (second_payments items cid fmt)) fmts)"
proof -
  assume "\<forall>i \<in> set items. av_period (snd i) = PeriodFirst \<longrightarrow> f_parse F (av_amount (snd i)) \<noteq> None"
  then obtain p where p: "for_each (\<lambda>(c, x). avg_process F c x) items new_avg_grouper = (p, None)"
    and g: "grouped F items cid (get_avg_client cid p)" using avg_process_all by blast
  let ?out = "avg_results F (get_avg_client cid p)"
  have "avg_finalize F cid collect (p, []) = ((p, ?out), Inr (of_nat (length ?out)))"
    by (cases "mget (avg_clients p) cid") (simp_all add: avg_finalize_def get_avg_client_def mget0_def new_avg_client_def avg_results_def)
  then show ?thesis using p avg_results_grouped [OF g]
    by (intro exI [of _ p] exI [of _ "mkeys (period1Stats (get_avg_client cid p))"] exI [of _ ?out]) blast
qed

text \<open>
  A restart brings the averages back: whatever was processed and whichever checkpoints succeeded or failed, replaying
  the client's logged changes and the ones a checkpoint drains gives the statistics of every format and the payments of
  the second period, each once and in order.
\<close>

theorem avg_restart_restores:
  "proc_run (avg_ops F :: (avg_grouper, 's, avg_transaction, avg_result, avg_value) proc_ops) new_avg_grouper steps = (p, L) \<Longrightarrow>
   avg_drain cid p = (p', Inr cs) \<Longrightarrow>
     \<exists>q. for_each (avg_apply cid) (L cid @ cs) new_avg_grouper = (q, None) \<and> avg_view cid q = avg_view cid p"
  by (rule avg_grouper.restart [simplified])

section \<open>Witnesses\<close>

definition sample_payment :: "avg_period \<Rightarrow> string \<Rightarrow> avg_transaction" where
  "sample_payment t amount = \<lparr>av_account = ''x'', av_amount = amount, av_format = ''f'', av_period = t\<rparr>"

text \<open>The average of one payment of 7, and a threshold that is not a hundredth of it but itself.\<close>

definition coarse_floats :: float_ops where
  "coarse_floats = sample_floats\<lparr>f_div := (\<lambda>a b. a)\<rparr>"

theorem avg_reports_small_payments_witness:
  "\<exists>p. for_each (\<lambda>(c, x). avg_process coarse_floats c x) [(''c'', sample_payment PeriodFirst ''7''), (''c'', sample_payment PeriodSecond ''5'')]
      new_avg_grouper = (p, None) \<and>
    avg_finalize coarse_floats ''c'' collect (p, []) = ((p, [\<lparr>ar_account = ''x'', ar_amount = ''5''\<rparr>]), Inr 1)"
proof -
  let ?items = "[(''c'', sample_payment PeriodFirst ''7''), (''c'', sample_payment PeriodSecond ''5'')]"
  have f: "first_amounts coarse_floats ?items ''c'' fmt = (if fmt = ''f'' then [7] else [])" for fmt
    by (simp add: first_amounts_def sample_payment_def coarse_floats_def sample_floats_def)
  have "\<forall>i \<in> set ?items. av_period (snd i) = PeriodFirst \<longrightarrow> f_parse coarse_floats (av_amount (snd i)) \<noteq> None"
    by (simp add: sample_payment_def coarse_floats_def sample_floats_def)
  from avg_reports_small_payments [OF this, of "''c''"] obtain p fmts out where
    p: "for_each (\<lambda>(c, x). avg_process coarse_floats c x) ?items new_avg_grouper = (p, None)"
    "avg_finalize coarse_floats ''c'' collect (p, []) = ((p, out), Inr (of_nat (length out)))"
    and fmts: "distinct fmts" "set fmts = {fmt. first_amounts coarse_floats ?items ''c'' fmt \<noteq> []}"
    and out: "out = concat (map (\<lambda>fmt. below coarse_floats (threshold_of coarse_floats
      (stats_of coarse_floats (first_amounts coarse_floats ?items ''c'' fmt))) (second_payments ?items ''c'' fmt)) fmts)" by (elim exE conjE) (rule that)
  have set: "set fmts = {''f''}" using fmts(2) unfolding f by simp
  then have "length fmts = 1" using distinct_card [OF fmts(1)] by simp
  then obtain x where "fmts = [x]" by (cases fmts) auto
  then have fe: "fmts = [''f'']" using set by simp
  have th: "threshold_of coarse_floats (stats_of coarse_floats [7]) = 7"
    by (simp add: threshold_of_def stats_of_def coarse_floats_def sample_floats_def)
  have "out = below coarse_floats 7 (second_payments ?items ''c'' ''f'')"
    unfolding out fe f by (simp add: th)
  also have "\<dots> = [\<lparr>ar_account = ''x'', ar_amount = ''5''\<rparr>]"
    by (simp add: below_def second_payments_def sample_payment_def coarse_floats_def sample_floats_def)
      (simp add: f_less_eq_def f_is_nan_def f_key_def f_magnitude_def)
  finally have "out = [\<lparr>ar_account = ''x'', ar_amount = ''5''\<rparr>]" .
  then show ?thesis using p by (intro exI [of _ p]) simp
qed

theorem avg_restart_restores_witness:
  "\<exists>p L p' cs q. proc_run (avg_ops coarse_floats :: (avg_grouper, unit, avg_transaction, avg_result, avg_value) proc_ops) new_avg_grouper
      [Process ''c'' (sample_payment PeriodSecond ''5''), Persist ''c'' False, Process ''c'' (sample_payment PeriodSecond ''7'')] = (p, L) \<and>
    avg_drain ''c'' p = (p', Inr cs) \<and> for_each (avg_apply ''c'') (L ''c'' @ cs) new_avg_grouper = (q, None) \<and>
    avg_view ''c'' q = avg_view ''c'' p \<and> txs_in ''c'' p ''f'' = [sample_payment PeriodSecond ''5'', sample_payment PeriodSecond ''7'']"
proof -
  let ?steps = "[Process ''c'' (sample_payment PeriodSecond ''5''), Persist ''c'' False, Process ''c'' (sample_payment PeriodSecond ''7'')]"
  let ?ops = "avg_ops coarse_floats :: (avg_grouper, unit, avg_transaction, avg_result, avg_value) proc_ops"
  note ds = avg_process_def process_second_period_def Let_def new_avg_grouper_def get_avg_client_def put_avg_client_def mget0_def
    add_period2_def new_avg_client_def mark_period2_def nput_def avg_drain_def dirty_stats_def drain_format_def last_index_def
    set_last_index_def set_pending_index_def avg_restore_def upd_def restored_formats_def tx_change_def avg_mark_restored_def
    rewind_format_def pending_index_def clear_pending_index_def sample_payment_def List.map_filter_def
  let ?client = "\<lparr>period1Stats = [], period2Transactions = [(''f'', [sample_payment PeriodSecond ''5'', sample_payment PeriodSecond ''7''])]\<rparr>"
  have run: "\<exists>i1 i2. proc_run ?ops new_avg_grouper ?steps = (\<lparr>avg_clients = [(''c'', ?client)], dirtyPeriod1 = [],
      dirtyPeriod2 = [(''c'', [(''f'', True)])], lastIdx = i1, pendingIdx = i2\<rparr>, \<lambda>_. [])"
    by (simp add: proc_run_def ds)
  then obtain p where p: "proc_run ?ops new_avg_grouper ?steps = (p, \<lambda>_. [])" "avg_clients p = [(''c'', ?client)]" "dirtyPeriod1 p = []"
    by force
  then have t: "txs_in ''c'' p ''f'' = [sample_payment PeriodSecond ''5'', sample_payment PeriodSecond ''7'']"
    by (simp add: get_avg_client_def mget0_def)
  have "dirty_stats ''c'' (put_avg_client ''c'' (get_avg_client ''c'' p) p) = []" using p(3) by (simp add: dirty_stats_def List.map_filter_def)
  then have "\<exists>p' cs. avg_drain ''c'' p = (p', Inr cs)" by (simp add: avg_drain_def Let_def split: prod.split)
  then obtain p' cs where d: "avg_drain ''c'' p = (p', Inr cs)" by blast
  from avg_restart_restores [OF p(1) d] p(1) d t show ?thesis by blast
qed

end
