(* ===== verification/Bully.thy ===== *)
theory Bully
  imports Sender
begin

text \<open>
  \<open>fault_hypervisor/leader\<close>: how the hypervisors choose the one that watches the workers, by the bully algorithm
  over a topic exchange. \<open>coordinator.go\<close> holds the coordinator of one hypervisor and \<open>Run\<close>/\<open>Close\<close>, \<open>state.go\<close>
  the ticker and the election, \<open>sender.go\<close> the three messages, \<open>handlers.go\<close> what a received message does.

  \<open>coordination\<close> is the exchange: what it accepted is \<open>sent\<close>, with the routing key. \<open>armed\<close> lists the callbacks
  that \<open>time.AfterFunc\<close> has been given, with the delay, and \<open>clock\<close> is what \<open>time.Now\<close> reads (seconds). The
  handler of the leadership is the parameter \<open>lh\<close>, of which \<open>Hypervisor\<close> has the one the program uses; each
  operation below is the whole method, all its critical sections in their order.
\<close>

section \<open>The state\<close>

datatype callback = StartElection | FinishElectionIfUnanswered

record 'h leadership_handler =
  BecomeLeader :: "'h act"
  MarkReady :: "'h act"

record bully_config =
  ID :: int
  Count :: int
  ExchangeName :: string
  HeartbeatInterval :: int
  LeaderTimeout :: int
  ElectionTimeout :: int

record 'h bully =
  b_id :: int
  b_count :: int
  coordination :: middleware
  coordination_queue :: string
  b_handler :: 'h
  heartbeatInterval :: int
  leaderTimeout :: int
  electionTimeout :: int
  leaderID :: int
  lastLeaderSeen :: int
  electionInProgress :: bool
  gotAnswer :: bool
  closed :: bool
  armed :: "(int \<times> callback) list"
  clock :: int

definition routing_key :: "int \<Rightarrow> string" where
  "routing_key i = ''hypervisor.'' @ show_int i"

text \<open>The name that \<open>CreateExchangeMiddleware\<close> gives to the queue of a consumer; the broker names an exclusive one.\<close>

definition exchange_queue_name :: "string \<Rightarrow> bool \<Rightarrow> string \<Rightarrow> string \<Rightarrow> string" where
  "exchange_queue_name exchange exclusive i worker_type =
     (if exclusive then [] else exchange @ ''.'' @ worker_type @ ''.'' @ i)"

definition or_default :: "int \<Rightarrow> int \<Rightarrow> int" where
  "or_default d x = (if x = 0 then d else x)"

definition new_bully_coordinator :: "bully_config \<Rightarrow> 'h \<Rightarrow> 'h bully" where
  "new_bully_coordinator config h =
     \<lparr>b_id = ID config, b_count = Count config,
      coordination = \<lparr>outcomes = [], keys = [routing_key (ID config)], sent = []\<rparr>,
      coordination_queue = exchange_queue_name (ExchangeName config) False [] ''fault_hypervisor'',
      b_handler = h,
      heartbeatInterval = or_default 2 (HeartbeatInterval config),
      leaderTimeout = or_default 6 (LeaderTimeout config),
      electionTimeout = or_default 3 (ElectionTimeout config),
      leaderID = -1, lastLeaderSeen = 0, electionInProgress = False, gotAnswer = False, closed = False,
      armed = [], clock = 0\<rparr>"

definition on_coordination :: "middleware act \<Rightarrow> 'h bully act" where
  "on_coordination = zoom coordination (\<lambda>x s. s\<lparr>coordination := x\<rparr>)"

definition on_handler :: "'h act \<Rightarrow> 'h bully act" where
  "on_handler = zoom b_handler (\<lambda>h s. s\<lparr>b_handler := h\<rparr>)"

definition after_func :: "int \<Rightarrow> callback \<Rightarrow> 'h bully act" where
  "after_func d f = upd (\<lambda>s. s\<lparr>armed := armed s @ [(d, f)]\<rparr>)"

section \<open>Sending\<close>

definition election_message :: "int \<Rightarrow> money_laundry" where
  "election_message i = proto_message [] MT_COORDINATOR_ELECTION (CoordinatorElection (word_of_int i)) []"

definition ok_message :: "int \<Rightarrow> money_laundry" where
  "ok_message i = proto_message [] MT_COORDINATOR_OK (CoordinatorOk (word_of_int i)) []"

definition coordinator_message :: "int \<Rightarrow> money_laundry" where
  "coordinator_message i = proto_message [] MT_COORDINATOR_HEARTBEAT (CoordinatorHeartbeat (word_of_int i)) []"

definition send_election :: "int \<Rightarrow> 'h bully act" where
  "send_election peer s = on_coordination
     (seq_acts [call id marshal_error, publish (routing_key peer) (election_message (b_id s))]) s"

definition send_ok :: "int \<Rightarrow> 'h bully act" where
  "send_ok peer s = on_coordination
     (seq_acts [call id marshal_error, publish (routing_key peer) (ok_message (b_id s))]) s"

definition broadcast_coordinator :: "'h bully act" where
  "broadcast_coordinator s = on_coordination
     (then_act (call id marshal_error)
        (for_each (\<lambda>peer. if peer = b_id s then ok else publish (routing_key peer) (coordinator_message (b_id s)))
           [0..b_count s - 1])) s"

section \<open>The election\<close>

definition become_leader :: "'h leadership_handler \<Rightarrow> 'h bully act" where
  "become_leader lh s =
     (if closed s then ok s
      else if leaderID s = b_id s then ok s
      else seq_acts
        [upd (\<lambda>s. s\<lparr>leaderID := b_id s, lastLeaderSeen := clock s, electionInProgress := False, gotAnswer := False\<rparr>),
         ignore_err (on_handler (BecomeLeader lh)),
         upd (\<lambda>s. s\<lparr>lastLeaderSeen := clock s\<rparr>),
         ignore_err broadcast_coordinator] s)"

definition start_election :: "'h leadership_handler \<Rightarrow> 'h bully act" where
  "start_election lh s =
     (if leaderID s = b_id s then ok s
      else if closed s \<or> electionInProgress s then ok s
      else seq_acts
        [upd (\<lambda>s. s\<lparr>electionInProgress := True, gotAnswer := False\<rparr>),
         for_each (\<lambda>peer. ignore_err (send_election peer)) [b_id s + 1..b_count s - 1],
         if [b_id s + 1..b_count s - 1] = [] then become_leader lh
         else after_func (electionTimeout s) FinishElectionIfUnanswered] s)"

definition finish_election_if_unanswered :: "'h leadership_handler \<Rightarrow> 'h bully act" where
  "finish_election_if_unanswered lh s =
     (if closed s \<or> \<not> electionInProgress s \<or> gotAnswer s then ok s else become_leader lh s)"

fun run_callback :: "'h leadership_handler \<Rightarrow> callback \<Rightarrow> 'h bully act" where
  "run_callback lh StartElection = start_election lh"
| "run_callback lh FinishElectionIfUnanswered = finish_election_if_unanswered lh"

text \<open>\<open>runTicker\<close>: what comes before the loop, and one round of it; the result says whether the loop goes on.\<close>

definition ticker_begins :: "'h bully act" where
  "ticker_begins s = seq_acts
     [after_func (leaderTimeout s) StartElection, upd (\<lambda>s. s\<lparr>lastLeaderSeen := clock s\<rparr>)] s"

definition ticker_round :: "'h leadership_handler \<Rightarrow> 'h bully \<Rightarrow> 'h bully \<times> bool" where
  "ticker_round lh s =
     (if closed s then (s, False)
      else if leaderID s = b_id s then (fst (ignore_err broadcast_coordinator s), True)
      else if (leaderID s \<noteq> -1 \<and> clock s - lastLeaderSeen s > leaderTimeout s) \<and> \<not> electionInProgress s
        then (fst (start_election lh s), True)
      else (s, True))"

section \<open>Received messages\<close>

definition handle_election :: "'h leadership_handler \<Rightarrow> int \<Rightarrow> 'h bully act" where
  "handle_election lh sender s =
     (if leaderID s = b_id s then ignore_err (send_ok sender) s
      else if sender \<ge> b_id s then ok s
      else seq_acts [ignore_err (send_ok sender), start_election lh] s)"

definition handle_ok :: "int \<Rightarrow> 'h bully act" where
  "handle_ok sender = upd (\<lambda>s. s\<lparr>gotAnswer := True\<rparr>)"

definition handle_coordinator :: "'h leadership_handler \<Rightarrow> int \<Rightarrow> 'h bully act" where
  "handle_coordinator lh leader s = seq_acts
     [upd (\<lambda>s. s\<lparr>leaderID := leader, lastLeaderSeen := clock s, electionInProgress := False, gotAnswer := False\<rparr>),
      if leaderID s = -1 then ignore_err (on_handler (MarkReady lh)) else ok] s"

text \<open>\<open>None\<close> is a body that does not unmarshal. The result says whether the message is acknowledged or given back.\<close>

datatype settled = Acked | Nacked

definition handle_message :: "'h leadership_handler \<Rightarrow> money_laundry option \<Rightarrow> 'h bully \<Rightarrow> 'h bully \<times> settled" where
  "handle_message lh msg s =
     (case msg of
        None \<Rightarrow> (s, Nacked)
      | Some m \<Rightarrow>
          (fst ((case ml_type m of
                   MT_COORDINATOR_ELECTION \<Rightarrow> handle_election lh (sint (get_election_sender m))
                 | MT_COORDINATOR_OK \<Rightarrow> handle_ok (sint (get_ok_sender m))
                 | MT_COORDINATOR_HEARTBEAT \<Rightarrow> handle_coordinator lh (sint (get_heartbeat_leader m))
                 | _ \<Rightarrow> ok) s), Acked))"

section \<open>Start and end\<close>

text \<open>
  \<open>SetUp\<close> declares the queue and binds it to the keys. \<open>Run\<close> is modelled up to the moment the consumer waits
  for messages: a single hypervisor leads at once and has neither consumer nor ticker. The second result says
  whether the ticker runs.
\<close>

definition middleware_error :: go_error where
  "middleware_error = ErrOther ''ErrMessageMiddlewareMessage''"

definition exchange_set_up :: "middleware act" where
  "exchange_set_up x =
     then_act (call id middleware_error) (for_each (\<lambda>key. call id middleware_error) (keys x)) x"

definition bully_run :: "'h leadership_handler \<Rightarrow> 'h bully \<Rightarrow> ('h bully \<times> go_error option) \<times> bool" where
  "bully_run lh s =
     (if b_count s = 1 then (on_handler (BecomeLeader lh) s, False)
      else (case on_coordination exchange_set_up s of
              (s', Some e) \<Rightarrow> ((s', Some e), False)
            | (s', None) \<Rightarrow> (then_act ticker_begins (on_coordination (call id middleware_error)) s', True)))"

definition bully_close :: "'h bully act" where
  "bully_close s = then_act (upd (\<lambda>s. s\<lparr>closed := True\<rparr>))
     (if b_count s \<le> 1 then ok else on_coordination (call id ErrClosed)) s"

section \<open>What the operations do when the broker accepts everything\<close>

definition broker_up :: "'h bully \<Rightarrow> bool" where
  "broker_up s \<longleftrightarrow> outcomes (coordination s) = []"

definition emit :: "(string \<times> money_laundry) list \<Rightarrow> 'h bully \<Rightarrow> 'h bully" where
  "emit ms s = s\<lparr>coordination := (coordination s)\<lparr>sent := sent (coordination s) @ ms\<rparr>\<rparr>"

lemma emit_Nil [simp]: "emit [] s = s"
  by (simp add: emit_def)

lemma emit_emit [simp]: "emit ms (emit ns s) = emit (ns @ ms) s"
  by (simp add: emit_def)

lemma broker_up_emit [simp]: "broker_up (emit ms s) = broker_up s"
  by (simp add: emit_def broker_up_def)

lemma emit_fields [simp]:
  "b_id (emit ms s) = b_id s" "b_count (emit ms s) = b_count s" "leaderID (emit ms s) = leaderID s"
  "electionInProgress (emit ms s) = electionInProgress s" "gotAnswer (emit ms s) = gotAnswer s"
  "closed (emit ms s) = closed s" "armed (emit ms s) = armed s" "clock (emit ms s) = clock s"
  "lastLeaderSeen (emit ms s) = lastLeaderSeen s" "leaderTimeout (emit ms s) = leaderTimeout s"
  "electionTimeout (emit ms s) = electionTimeout s" "coordination_queue (emit ms s) = coordination_queue s"
  "b_handler (emit ms s) = b_handler s"
  "sent (coordination (emit ms s)) = sent (coordination s) @ ms"
  "outcomes (coordination (emit ms s)) = outcomes (coordination s)"
  by (simp_all add: emit_def)

lemma publish_up: "broker_up s \<Longrightarrow> on_coordination (then_act (call id e) (publish k m)) s = (emit [(k, m)] s, None)"
  by (simp add: broker_up_def on_coordination_def zoom_def publish_def emit_def then_act_def call_def ok_def)

definition elections :: "int \<Rightarrow> int list \<Rightarrow> (string \<times> money_laundry) list" where
  "elections i ps = map (\<lambda>p. (routing_key p, election_message i)) ps"

definition announcements :: "int \<Rightarrow> int list \<Rightarrow> (string \<times> money_laundry) list" where
  "announcements i ps = map (\<lambda>p. (routing_key p, coordinator_message i)) (filter (\<lambda>p. p \<noteq> i) ps)"

lemma send_ok_up: "broker_up s \<Longrightarrow> send_ok p s = (emit [(routing_key p, ok_message (b_id s))] s, None)"
  by (simp add: send_ok_def publish_up)

lemma send_elections_up:
  "broker_up s \<Longrightarrow> for_each (\<lambda>p. ignore_err (send_election p)) ps s = (emit (elections (b_id s) ps) s, None)"
  by (induction ps arbitrary: s)
     (simp_all add: elections_def ok_def then_act_def ignore_err_def send_election_def publish_up)

lemma announce_loop:
  "outcomes x = [] \<Longrightarrow>
   for_each (\<lambda>p. if p = i then ok else publish (routing_key p) (coordinator_message i)) ps x =
   (x\<lparr>sent := sent x @ announcements i ps\<rparr>, None)"
  by (induction ps arbitrary: x) (simp_all add: announcements_def ok_def then_act_def publish_def call_def)

lemma broadcast_up:
  "broker_up s \<Longrightarrow> broadcast_coordinator s = (emit (announcements (b_id s) [0..b_count s - 1]) s, None)"
  by (simp add: broadcast_coordinator_def on_coordination_def zoom_def broker_up_def then_act_def call_def
        announce_loop emit_def)

text \<open>The hypervisor after taking the lead, and after calling an election that somebody above may answer.\<close>

definition leading :: "'h leadership_handler \<Rightarrow> 'h bully \<Rightarrow> 'h bully" where
  "leading lh s = emit (announcements (b_id s) [0..b_count s - 1])
     (s\<lparr>leaderID := b_id s, lastLeaderSeen := clock s, electionInProgress := False, gotAnswer := False,
        b_handler := fst (BecomeLeader lh (b_handler s))\<rparr>)"

definition asking :: "'h bully \<Rightarrow> 'h bully" where
  "asking s = emit (elections (b_id s) [b_id s + 1..b_count s - 1])
     (s\<lparr>electionInProgress := True, gotAnswer := False,
        armed := armed s @ [(electionTimeout s, FinishElectionIfUnanswered)]\<rparr>)"

definition following :: "'h leadership_handler \<Rightarrow> int \<Rightarrow> 'h bully \<Rightarrow> 'h bully" where
  "following lh l s = s\<lparr>leaderID := l, lastLeaderSeen := clock s, electionInProgress := False, gotAnswer := False,
     b_handler := (if leaderID s = -1 then fst (MarkReady lh (b_handler s)) else b_handler s)\<rparr>"

lemma become_leader_up:
  "broker_up s \<Longrightarrow> \<not> closed s \<Longrightarrow> leaderID s \<noteq> b_id s \<Longrightarrow> become_leader lh s = (leading lh s, None)"
  by (simp add: become_leader_def then_act_def ignore_err_def on_handler_def zoom_def upd_def broadcast_up
        broker_up_def leading_def emit_def ok_def split: prod.splits)

lemma start_election_up:
  assumes "broker_up s" "\<not> closed s" "leaderID s \<noteq> b_id s" "\<not> electionInProgress s"
  shows "start_election lh s =
    (if b_id s + 1 > b_count s - 1 then leading lh (s\<lparr>electionInProgress := True, gotAnswer := False\<rparr>)
     else asking s, None)"
proof -
  let ?s = "s\<lparr>electionInProgress := True, gotAnswer := False\<rparr>"
  have up: "broker_up ?s" using assms by (simp add: broker_up_def)
  show ?thesis
    using assms send_elections_up [OF up] become_leader_up [OF up, where lh = lh]
    by (simp add: start_election_def then_act_def after_func_def upd_def asking_def emit_def ok_def elections_def)
qed

lemma become_leader_same: "closed s \<or> leaderID s = b_id s \<Longrightarrow> become_leader lh s = (s, None)"
  by (auto simp: become_leader_def ok_def)

lemma start_election_same:
  "closed s \<or> leaderID s = b_id s \<or> electionInProgress s \<Longrightarrow> start_election lh s = (s, None)"
  by (auto simp: start_election_def ok_def)

lemma handle_coordinator_up: "handle_coordinator lh l s = (following lh l s, None)"
  by (simp add: handle_coordinator_def then_act_def upd_def ignore_err_def on_handler_def zoom_def following_def
        ok_def split: prod.splits)

lemma handle_election_up:
  assumes "broker_up s"
  shows "handle_election lh p s =
    (if leaderID s = b_id s then (emit [(routing_key p, ok_message (b_id s))] s, None)
     else if p \<ge> b_id s then (s, None)
     else start_election lh (emit [(routing_key p, ok_message (b_id s))] s))"
  using assms by (simp add: handle_election_def ignore_err_def send_ok_up ok_def then_act_def split: prod.splits option.splits)

end
