(* ===== verification/Election.thy ===== *)
theory Election
  imports Bully
begin

text \<open>
  The hypervisors of \<open>fault_hypervisor/leader\<close> together. The broker keeps what is bound to which queue
  (\<open>bindings\<close>) and the messages of each queue (\<open>net\<close>); a queue gives its messages, in no particular order, to any
  live hypervisor that consumes from it.

  \<open>election_step\<close> is what happens while an election runs: a message is delivered, an armed callback fires, or the
  ticker finds that the leader is silent. With \<open>timely\<close> the answer timeout only fires when no message is under way,
  which is what the algorithm takes the timeout to be long enough for. \<open>cluster_step\<close> adds the rest: heartbeats,
  time, faults of the broker, crashes and restarts, and timeouts that fire too early. Every step is one whole
  operation of one hypervisor.
\<close>

section \<open>The cluster\<close>

record 'h cluster =
  live :: "int list"
  node :: "int \<Rightarrow> 'h bully"
  bindings :: "(string \<times> string) list"       \<comment> \<open>routing key, queue\<close>
  net :: "(string \<times> money_laundry) list"      \<comment> \<open>queue, message\<close>

definition route :: "(string \<times> string) list \<Rightarrow> string \<times> money_laundry \<Rightarrow> (string \<times> money_laundry) list" where
  "route bs km = map (\<lambda>kq. (snd kq, snd km)) (filter (\<lambda>kq. fst kq = fst km) bs)"

text \<open>After an operation of hypervisor \<open>i\<close>: its new state, and what it published in the queues.\<close>

definition hand_over :: "int \<Rightarrow> 'h bully \<Rightarrow> 'h cluster \<Rightarrow> 'h cluster" where
  "hand_over i s c =
     c\<lparr>node := (node c)(i := s\<lparr>coordination := (coordination s)\<lparr>sent := []\<rparr>\<rparr>),
       net := net c @ concat (map (route (bindings c)) (sent (coordination s)))\<rparr>"

definition taken :: "string \<times> money_laundry \<Rightarrow> 'h cluster \<Rightarrow> 'h cluster" where
  "taken qm c = c\<lparr>net := remove1 qm (net c)\<rparr>"

definition disarm :: "int \<times> callback \<Rightarrow> 'h bully \<Rightarrow> 'h bully" where
  "disarm df s = s\<lparr>armed := remove1 df (armed s)\<rparr>"

definition calm :: "'h cluster \<Rightarrow> bool" where
  "calm c \<longleftrightarrow> (\<forall>qm\<in>set (net c). \<forall>i\<in>set (live c). coordination_queue (node c i) \<noteq> fst qm)"

definition leader_silent :: "'h bully \<Rightarrow> bool" where
  "leader_silent s \<longleftrightarrow> leaderID s \<noteq> b_id s \<and> leaderID s \<noteq> -1 \<and> clock s - lastLeaderSeen s > leaderTimeout s \<and>
     \<not> electionInProgress s"

definition start_hypervisor :: "'h leadership_handler \<Rightarrow> bully_config \<Rightarrow> 'h \<Rightarrow> 'h bully" where
  "start_hypervisor lh config h = fst (fst (bully_run lh (new_bully_coordinator config h)))"

definition bind_queue :: "'h bully \<Rightarrow> 'h cluster \<Rightarrow> 'h cluster" where
  "bind_queue s c = c\<lparr>bindings := List.insert (routing_key (b_id s), coordination_queue s) (bindings c)\<rparr>"

definition join :: "int \<Rightarrow> 'h bully \<Rightarrow> 'h cluster \<Rightarrow> 'h cluster" where
  "join i s c = (bind_queue s c)\<lparr>live := List.insert i (live c), node := (node c)(i := s)\<rparr>"

inductive election_step :: "'h leadership_handler \<Rightarrow> bool \<Rightarrow> 'h cluster \<Rightarrow> 'h cluster \<Rightarrow> bool"
  for lh :: "'h leadership_handler" and timely :: bool where
  Deliver: "i \<in> set (live c) \<Longrightarrow> (coordination_queue (node c i), m) \<in> set (net c) \<Longrightarrow>
     election_step lh timely c
       (hand_over i (fst (handle_message lh (Some m) (node c i))) (taken (coordination_queue (node c i), m) c))"
| Fire: "i \<in> set (live c) \<Longrightarrow> (d, f) \<in> set (armed (node c i)) \<Longrightarrow>
     (timely \<and> f = FinishElectionIfUnanswered \<Longrightarrow> calm c) \<Longrightarrow>
     election_step lh timely c (hand_over i (fst (run_callback lh f (disarm (d, f) (node c i)))) c)"
| Silence: "i \<in> set (live c) \<Longrightarrow> leader_silent (node c i) \<Longrightarrow>
     election_step lh timely c (hand_over i (fst (ticker_round lh (node c i))) c)"

inductive_cases election_stepE [consumes 1, case_names Deliver Fire Silence]: "election_step lh timely c c'"

inductive cluster_step ::
  "'h leadership_handler \<Rightarrow> (int \<Rightarrow> bully_config) \<Rightarrow> (int \<Rightarrow> 'h) \<Rightarrow> 'h cluster \<Rightarrow> 'h cluster \<Rightarrow> bool"
  for lh :: "'h leadership_handler" and conf :: "int \<Rightarrow> bully_config" and h0 :: "int \<Rightarrow> 'h" where
  Election: "election_step lh False c c' \<Longrightarrow> cluster_step lh conf h0 c c'"
| Round: "i \<in> set (live c) \<Longrightarrow> cluster_step lh conf h0 c (hand_over i (fst (ticker_round lh (node c i))) c)"
| Time: "i \<in> set (live c) \<Longrightarrow> t \<ge> clock (node c i) \<Longrightarrow>
     cluster_step lh conf h0 c (hand_over i ((node c i)\<lparr>clock := t\<rparr>) c)"
| Faults: "i \<in> set (live c) \<Longrightarrow>
     cluster_step lh conf h0 c
       (hand_over i ((node c i)\<lparr>coordination := (coordination (node c i))\<lparr>outcomes := bs\<rparr>\<rparr>) c)"
| Stop: "i \<in> set (live c) \<Longrightarrow> cluster_step lh conf h0 c (hand_over i (fst (bully_close (node c i))) c)"
| Crash: "cluster_step lh conf h0 c (c\<lparr>live := removeAll i (live c)\<rparr>)"
| Restart: "i \<notin> set (live c) \<Longrightarrow> ID (conf i) = i \<Longrightarrow> 0 \<le> i \<Longrightarrow> i < Count (conf i) \<Longrightarrow>
     cluster_step lh conf h0 c (join i (start_hypervisor lh (conf i) (h0 i)) c)"

inductive_cases cluster_stepE [consumes 1, case_names Election Round Time Faults Stop Crash Restart]: "cluster_step lh conf h0 c c'"

lemma hand_over_simps [simp]:
  "live (hand_over i s c) = live c" "bindings (hand_over i s c) = bindings c"
  "node (hand_over i s c) = (node c)(i := s\<lparr>coordination := (coordination s)\<lparr>sent := []\<rparr>\<rparr>)"
  "net (hand_over i s c) = net c @ concat (map (route (bindings c)) (sent (coordination s)))"
  by (simp_all add: hand_over_def)

lemma taken_simps [simp]:
  "live (taken qm c) = live c" "bindings (taken qm c) = bindings c" "node (taken qm c) = node c"
  "net (taken qm c) = remove1 qm (net c)"
  by (simp_all add: taken_def)

section \<open>The messages\<close>

declare get_election_sender.simps [simp del] get_ok_sender.simps [simp del] get_heartbeat_leader.simps [simp del]

lemmas getter_simps = get_election_sender.simps get_ok_sender.simps get_heartbeat_leader.simps

lemma sint_of_id: "0 \<le> i \<Longrightarrow> i < 2 ^ 31 \<Longrightarrow> sint (word_of_int i :: i32) = i"
  by (simp add: sint_sbintrunc' signed_take_bit_int_eq_self)

lemma election_message_fields [simp]:
  "ml_type (election_message i) = MT_COORDINATOR_ELECTION" "get_election_sender (election_message i) = word_of_int i"
  by (simp_all add: getter_simps election_message_def proto_message_def)

lemma election_message_inject:
  "0 \<le> i \<Longrightarrow> i < 2 ^ 31 \<Longrightarrow> 0 \<le> j \<Longrightarrow> j < 2 ^ 31 \<Longrightarrow> election_message i = election_message j \<longleftrightarrow> i = j"
  by (metis sint_of_id election_message_fields(2))

lemma ok_message_fields [simp]: "ml_type (ok_message i) = MT_COORDINATOR_OK"
  by (simp add: ok_message_def proto_message_def)

lemma coordinator_message_fields [simp]:
  "ml_type (coordinator_message i) = MT_COORDINATOR_HEARTBEAT" "get_heartbeat_leader (coordinator_message i) = word_of_int i"
  by (simp_all add: getter_simps coordinator_message_def proto_message_def)

lemma message_neq [simp]:
  "election_message i \<noteq> ok_message j" "election_message i \<noteq> coordinator_message j"
  "ok_message i \<noteq> coordinator_message j" "ok_message i \<noteq> election_message j"
  "coordinator_message i \<noteq> ok_message j" "coordinator_message i \<noteq> election_message j"
  by (simp_all add: election_message_def ok_message_def coordinator_message_def proto_message_def)

lemma routing_key_inject [simp]: "0 \<le> i \<Longrightarrow> 0 \<le> j \<Longrightarrow> routing_key i = routing_key j \<longleftrightarrow> i = j"
  by (auto simp: routing_key_def show_int_def)

section \<open>An election ends\<close>

text \<open>
  Each step uses up weight. A question (\<open>ELECTION\<close>) weighs more than all that its delivery can cause, which is the
  answer and an election of a hypervisor with fewer above it.
\<close>

fun question_cost :: "nat \<Rightarrow> nat \<Rightarrow> nat" where
  "question_cost n 0 = 2"
| "question_cost n (Suc k) = 4 + n + k * question_cost n k"

definition election_cost :: "nat \<Rightarrow> nat \<Rightarrow> nat" where
  "election_cost n k = k * question_cost n k + n + 1"

lemma question_cost_Suc: "question_cost n k \<le> question_cost n (Suc k)"
  by (induction k) (auto intro: add_mono mult_mono)

lemma question_cost_mono: "j \<le> k \<Longrightarrow> question_cost n j \<le> question_cost n k"
  using question_cost_Suc [of n] by (rule lift_Suc_mono_le)

lemma election_cost_mono: "j \<le> k \<Longrightarrow> election_cost n j \<le> election_cost n k"
  by (simp add: election_cost_def add_mono mult_mono question_cost_mono)

lemma question_pays: "j < k \<Longrightarrow> election_cost n j + 1 < question_cost n k"
proof (cases k)
  case (Suc k')
  assume "j < k"
  then have "election_cost n j \<le> election_cost n k'" using Suc by (simp add: election_cost_mono)
  then show ?thesis using Suc by (simp add: election_cost_def)
qed simp

definition above :: "int \<Rightarrow> int \<Rightarrow> nat" where
  "above n i = nat (n - 1 - i)"

definition message_cost :: "int \<Rightarrow> money_laundry \<Rightarrow> nat" where
  "message_cost n m =
     (if ml_type m = MT_COORDINATOR_ELECTION then question_cost (nat n) (above n (sint (get_election_sender m))) else 1)"

fun callback_cost :: "int \<Rightarrow> int \<Rightarrow> callback \<Rightarrow> nat" where
  "callback_cost n i StartElection = election_cost (nat n) (above n i) + 1"
| "callback_cost n i FinishElectionIfUnanswered = nat n + 1"

definition messages_cost :: "int \<Rightarrow> (string \<times> money_laundry) list \<Rightarrow> nat" where
  "messages_cost n ms = (\<Sum>km\<leftarrow>ms. message_cost n (snd km))"

definition armed_cost :: "int \<Rightarrow> 'h bully \<Rightarrow> nat" where
  "armed_cost n s = (\<Sum>df\<leftarrow>armed s. callback_cost n (b_id s) (snd df))"

definition node_cost :: "int \<Rightarrow> 'h bully \<Rightarrow> nat" where
  "node_cost n s = armed_cost n s + (if leader_silent s then election_cost (nat n) (above n (b_id s)) + 1 else 0)"

definition election_weight :: "int \<Rightarrow> 'h cluster \<Rightarrow> nat" where
  "election_weight n c = messages_cost n (net c) + (\<Sum>i\<in>set (live c). node_cost n (node c i))"

definition wf_node :: "int \<Rightarrow> int \<Rightarrow> 'h bully \<Rightarrow> bool" where
  "wf_node n i s \<longleftrightarrow> b_id s = i \<and> b_count s = n \<and> broker_up s \<and> \<not> closed s \<and> 0 \<le> leaderTimeout s \<and> 0 \<le> i \<and> i < n"

definition wf_cluster :: "int \<Rightarrow> 'h cluster \<Rightarrow> bool" where
  "wf_cluster n c \<longleftrightarrow> n \<le> 2 ^ 31 \<and> distinct (map fst (bindings c)) \<and>
     (\<forall>i\<in>set (live c). wf_node n i (node c i) \<and> sent (coordination (node c i)) = [])"

lemma wf_clusterD: "wf_cluster n c \<Longrightarrow> i \<in> set (live c) \<Longrightarrow> wf_node n i (node c i)"
  by (simp add: wf_cluster_def)

lemma wf_cluster_sent: "wf_cluster n c \<Longrightarrow> i \<in> set (live c) \<Longrightarrow> sent (coordination (node c i)) = []"
  by (simp add: wf_cluster_def)

lemma messages_cost_simps [simp]:
  "messages_cost n [] = 0" "messages_cost n (km # ms) = message_cost n (snd km) + messages_cost n ms"
  "messages_cost n (ms @ ns) = messages_cost n ms + messages_cost n ns"
  by (simp_all add: messages_cost_def)

lemma messages_cost_remove1: "qm \<in> set ms \<Longrightarrow> messages_cost n (remove1 qm ms) + message_cost n (snd qm) = messages_cost n ms"
  by (induction ms) auto

text \<open>A queue that is bound to a key once gets one copy of what is published under it.\<close>

lemma route_once:
  assumes "distinct (map fst bs)"
  shows "route bs km = (case map_of bs (fst km) of None \<Rightarrow> [] | Some q \<Rightarrow> [(q, snd km)])"
  using assms
proof (induction bs)
  case (Cons b bs)
  moreover have "filter (\<lambda>kq. fst kq = fst km) bs = []" if "fst b = fst km"
    using Cons.prems that by (auto simp: filter_empty_conv) (metis image_eqI fst_conv)
  ultimately show ?case by (cases b) (auto simp: route_def)
qed (simp add: route_def)

lemma routed_cost:
  "distinct (map fst bs) \<Longrightarrow> messages_cost n (concat (map (route bs) ms)) \<le> messages_cost n ms"
  by (induction ms) (auto simp: route_once split: option.splits intro: add_mono trans_le_add2)

lemma cost_constant: "(\<And>km. km \<in> set ms \<Longrightarrow> message_cost n (snd km) = q) \<Longrightarrow> messages_cost n ms = length ms * q"
  by (induction ms) auto

lemma announcements_cost:
  assumes "0 \<le> i" "i < n"
  shows "messages_cost n (announcements i [0..n - 1]) \<le> nat n"
proof -
  have "messages_cost n (announcements i [0..n - 1]) = length (announcements i [0..n - 1]) * 1"
    by (rule cost_constant) (auto simp: announcements_def message_cost_def)
  also have "\<dots> \<le> length [0..n - 1]"
    by (simp add: announcements_def length_filter_le [of _ "[0..n - 1]", simplified])
  finally show ?thesis by simp
qed

lemma elections_cost:
  assumes "0 \<le> i" "i < 2 ^ 31"
  shows "messages_cost n (elections i [i + 1..n - 1]) = above n i * question_cost (nat n) (above n i)"
proof -
  have "messages_cost n (elections i [i + 1..n - 1]) =
      length (elections i [i + 1..n - 1]) * question_cost (nat n) (above n i)"
    using sint_of_id [OF assms] by (intro cost_constant) (auto simp: elections_def message_cost_def)
  then show ?thesis by (simp add: elections_def above_def algebra_simps)
qed

definition total_cost :: "int \<Rightarrow> 'h bully \<Rightarrow> nat" where
  "total_cost n s = node_cost n s + messages_cost n (sent (coordination s))"

lemma total_start_election:
  assumes "wf_node n i s" "n \<le> 2 ^ 31" "leaderID s \<noteq> i" "\<not> electionInProgress s"
  shows "total_cost n (fst (start_election lh s)) \<le>
    armed_cost n s + messages_cost n (sent (coordination s)) + election_cost (nat n) (above n i)"
proof -
  have wf: "b_id s = i" "b_count s = n" "broker_up s" "\<not> closed s" "0 \<le> i" "i < n"
    using assms(1) by (auto simp: wf_node_def)
  show ?thesis
    using assms wf announcements_cost [of i n] elections_cost [of i n]
    by (simp add: start_election_up leading_def asking_def total_cost_def node_cost_def armed_cost_def
        leader_silent_def election_cost_def)
qed

lemma total_start_election_le:
  assumes "wf_node n i s" "n \<le> 2 ^ 31"
  shows "total_cost n (fst (start_election lh s)) \<le> total_cost n s + election_cost (nat n) (above n i)"
proof (cases "leaderID s = i \<or> electionInProgress s")
  case True
  then show ?thesis using assms by (simp add: wf_node_def start_election_same)
next
  case False
  then show ?thesis
    using total_start_election [OF assms, of lh] by (simp add: total_cost_def node_cost_def)
qed

lemma total_emit: "total_cost n (emit ms s) = total_cost n s + messages_cost n ms"
  by (simp add: total_cost_def node_cost_def armed_cost_def leader_silent_def)

lemma message_cost_pos: "0 < message_cost n m"
  by (cases "above n (sint (get_election_sender m))") (auto simp: message_cost_def)

text \<open>What each operation of a step adds to the hypervisor is less than what the step takes away.\<close>

lemma total_handle_message:
  assumes wf: "wf_node n i s" and n: "n \<le> 2 ^ 31"
  shows "total_cost n (fst (handle_message lh (Some m) s)) < total_cost n s + message_cost n m"
proof -
  let ?p = "sint (get_election_sender m)"
  let ?o = "[(routing_key ?p, ok_message i)]"
  have id: "b_id s = i" "broker_up s" using wf by (auto simp: wf_node_def)
  consider (election) "ml_type m = MT_COORDINATOR_ELECTION" | (answer) "ml_type m = MT_COORDINATOR_OK"
    | (heartbeat) "ml_type m = MT_COORDINATOR_HEARTBEAT"
    | (other) "ml_type m \<notin> {MT_COORDINATOR_ELECTION, MT_COORDINATOR_OK, MT_COORDINATOR_HEARTBEAT}"
    by blast
  then show ?thesis
  proof cases
    case election
    have q: "message_cost n m = question_cost (nat n) (above n ?p)" using election by (simp add: message_cost_def)
    have two: "2 \<le> question_cost (nat n) (above n ?p)" by (cases "above n ?p") auto
    have "total_cost n (fst (start_election lh (emit ?o s))) < total_cost n s + message_cost n m" if "?p < i"
    proof -
      have "election_cost (nat n) (above n i) + 1 < message_cost n m"
        unfolding q using that wf by (intro question_pays) (auto simp: above_def wf_node_def)
      moreover have "total_cost n (fst (start_election lh (emit ?o s))) \<le>
          total_cost n (emit ?o s) + election_cost (nat n) (above n i)"
        using wf n by (intro total_start_election_le) (auto simp: wf_node_def)
      moreover have "total_cost n (emit ?o s) = total_cost n s + 1" by (simp add: total_emit message_cost_def)
      ultimately show ?thesis by linarith
    qed
    then show ?thesis using election id two q
      by (simp add: handle_message_def handle_election_up total_emit message_cost_def)
  next
    case answer
    then show ?thesis using message_cost_pos [of n m]
      by (simp add: handle_message_def handle_ok_def upd_def total_cost_def node_cost_def armed_cost_def leader_silent_def)
  next
    case heartbeat
    then show ?thesis using message_cost_pos [of n m] wf
      by (simp add: handle_message_def handle_coordinator_up following_def total_cost_def node_cost_def
          armed_cost_def leader_silent_def wf_node_def)
  next
    case other
    then show ?thesis using message_cost_pos [of n m]
      by (simp add: handle_message_def ok_def split: message_type.split)
  qed
qed

lemma armed_cost_disarm:
  "df \<in> set (armed s) \<Longrightarrow> armed_cost n (disarm df s) + callback_cost n (b_id s) (snd df) = armed_cost n s"
  by (simp add: armed_cost_def disarm_def sum_list_map_remove1 add.commute)

lemma total_disarm:
  "df \<in> set (armed s) \<Longrightarrow> total_cost n (disarm df s) + callback_cost n (b_id s) (snd df) = total_cost n s"
  using armed_cost_disarm [of df s n]
  by (simp add: total_cost_def node_cost_def leader_silent_def) (simp add: disarm_def)

lemma wf_node_disarm [simp]: "wf_node n i (disarm df s) = wf_node n i s"
  by (simp add: wf_node_def disarm_def broker_up_def)

lemma total_become_leader:
  assumes "wf_node n i s"
  shows "total_cost n (fst (become_leader lh s)) \<le> total_cost n s + nat n"
proof (cases "leaderID s = i")
  case True
  then show ?thesis using assms by (simp add: become_leader_def wf_node_def ok_def)
next
  case False
  then show ?thesis
    using assms announcements_cost [of i n]
    by (simp add: wf_node_def become_leader_up leading_def total_emit)
       (simp add: total_cost_def node_cost_def armed_cost_def leader_silent_def)
qed

lemma total_run_callback:
  assumes wf: "wf_node n i s" and n: "n \<le> 2 ^ 31" and df: "(d, f) \<in> set (armed s)"
  shows "total_cost n (fst (run_callback lh f (disarm (d, f) s))) < total_cost n s"
proof -
  have id: "b_id s = i" using wf by (simp add: wf_node_def)
  note paid = total_disarm [OF df, of n] id
  show ?thesis
  proof (cases f)
    case StartElection
    then show ?thesis using total_start_election_le [of n i "disarm (d, f) s" lh] wf n paid by simp
  next
    case FinishElectionIfUnanswered
    then show ?thesis using total_become_leader [of n i "disarm (d, f) s" lh] wf paid
      by (simp add: finish_election_if_unanswered_def ok_def)
  qed
qed

lemma total_silence:
  assumes wf: "wf_node n i s" and n: "n \<le> 2 ^ 31" and late: "leader_silent s"
  shows "total_cost n (fst (ticker_round lh s)) < total_cost n s"
proof -
  have "b_id s = i" "\<not> closed s" using wf by (auto simp: wf_node_def)
  moreover have "total_cost n (fst (start_election lh s)) < total_cost n s"
    using total_start_election [OF wf n, of lh] late calculation
    by (simp add: total_cost_def node_cost_def leader_silent_def)
  ultimately show ?thesis using late by (simp add: ticker_round_def leader_silent_def)
qed

text \<open>What no operation of a hypervisor changes while the broker accepts everything.\<close>

definition keeps_config :: "'h bully \<Rightarrow> 'h bully \<Rightarrow> bool" where
  "keeps_config s s' \<longleftrightarrow> b_id s' = b_id s \<and> b_count s' = b_count s \<and> (broker_up s \<longrightarrow> broker_up s') \<and>
     closed s' = closed s \<and> leaderTimeout s' = leaderTimeout s \<and> coordination_queue s' = coordination_queue s \<and>
     clock s' = clock s"

lemma keeps_wf_node: "keeps_config s s' \<Longrightarrow> wf_node n i s \<Longrightarrow> wf_node n i s'"
  by (simp add: keeps_config_def wf_node_def)

lemma keeps_refl [simp]: "keeps_config s s"
  by (simp add: keeps_config_def)

lemma keeps_become_leader: "broker_up s \<Longrightarrow> keeps_config s (fst (become_leader lh s))"
  by (cases "closed s \<or> leaderID s = b_id s")
     (auto simp: become_leader_same become_leader_up leading_def keeps_config_def broker_up_def)

lemma keeps_start_election: "broker_up s \<Longrightarrow> keeps_config s (fst (start_election lh s))"
  by (cases "closed s \<or> leaderID s = b_id s \<or> electionInProgress s")
     (auto simp: start_election_same start_election_up leading_def asking_def keeps_config_def broker_up_def)

lemma keeps_run_callback: "broker_up s \<Longrightarrow> keeps_config s (fst (run_callback lh f s))"
  by (cases f) (simp_all add: keeps_start_election finish_election_if_unanswered_def ok_def keeps_become_leader)

lemma keeps_disarm [simp]: "keeps_config s (disarm df s)" "broker_up (disarm df s) = broker_up s"
  by (simp_all add: keeps_config_def disarm_def broker_up_def)

lemma keeps_trans: "keeps_config s t \<Longrightarrow> keeps_config t u \<Longrightarrow> keeps_config s u"
  by (auto simp: keeps_config_def)

lemma keeps_fire: "broker_up s \<Longrightarrow> keeps_config s (fst (run_callback lh f (disarm df s)))"
  by (rule keeps_trans [OF keeps_disarm(1) [of s df]]) (simp add: keeps_run_callback)

lemma keeps_ticker_round: "broker_up s \<Longrightarrow> keeps_config s (fst (ticker_round lh s))"
  by (simp add: ticker_round_def keeps_start_election ignore_err_def broadcast_up) (simp add: keeps_config_def)

lemma keeps_handle_election: "broker_up s \<Longrightarrow> keeps_config s (fst (handle_election lh p s))"
  using keeps_start_election [of "emit [(routing_key p, ok_message (b_id s))] s" lh]
  by (auto simp: handle_election_up) (auto simp: keeps_config_def)

lemma keeps_handle_message: "broker_up s \<Longrightarrow> keeps_config s (fst (handle_message lh msg s))"
  by (auto simp: handle_message_def keeps_handle_election handle_coordinator_up following_def handle_ok_def upd_def
      ok_def split: option.split message_type.split)
     (auto simp: keeps_config_def broker_up_def)

lemma keeps_hand_over [simp]: "wf_node n i (s\<lparr>coordination := (coordination s)\<lparr>sent := []\<rparr>\<rparr>) = wf_node n i s"
  by (simp add: wf_node_def broker_up_def)

lemma wf_hand_over: "wf_cluster n c \<Longrightarrow> wf_node n i s \<Longrightarrow> wf_cluster n (hand_over i s c)"
  by (simp add: wf_cluster_def)

lemma wf_taken [simp]: "wf_cluster n (taken qm c) = wf_cluster n c"
  by (simp add: wf_cluster_def)

lemma wf_election_step:
  assumes step: "election_step lh timely c c'" and wf: "wf_cluster n c"
  shows "wf_cluster n c'"
  using step
proof (cases rule: election_stepE)
  case (Deliver i m)
  then show ?thesis using wf_clusterD [OF wf, of i] wf
    by (auto simp: wf_node_def intro!: wf_hand_over keeps_wf_node [OF keeps_handle_message])
next
  case (Fire i d f)
  then show ?thesis using wf_clusterD [OF wf, of i] wf
    by (auto simp: wf_node_def intro!: wf_hand_over keeps_wf_node [OF keeps_fire])
next
  case (Silence i)
  then show ?thesis using wf_clusterD [OF wf, of i] wf
    by (auto simp: wf_node_def intro!: wf_hand_over keeps_wf_node [OF keeps_ticker_round])
qed

lemma weight_hand_over:
  assumes "i \<in> set (live c)" "distinct (map fst (bindings c))"
  shows "election_weight n (hand_over i s c) + node_cost n (node c i) \<le> election_weight n c + total_cost n s"
proof -
  have sum: "(\<Sum>j\<in>set (live c). node_cost n (g j)) = node_cost n (g i) + (\<Sum>j\<in>set (live c) - {i}. node_cost n (g j))"
    for g :: "int \<Rightarrow> 'a bully"
    using assms(1) by (simp add: sum.remove)
  have "node_cost n (s\<lparr>coordination := (coordination s)\<lparr>sent := []\<rparr>\<rparr>) = node_cost n s"
    by (simp add: node_cost_def armed_cost_def leader_silent_def)
  then show ?thesis
    using routed_cost [OF assms(2), of n "sent (coordination s)"] sum [of "node c"]
      sum [of "(node c)(i := s\<lparr>coordination := (coordination s)\<lparr>sent := []\<rparr>\<rparr>)"]
    by (simp add: election_weight_def total_cost_def)
qed

lemma weight_decreases:
  assumes step: "election_step lh timely c c'" and wf: "wf_cluster n c"
  shows "election_weight n c' < election_weight n c"
proof -
  have n: "n \<le> 2 ^ 31" and once: "distinct (map fst (bindings c))" using wf by (auto simp: wf_cluster_def)
  have idle: "total_cost n (node c i) = node_cost n (node c i)" if "i \<in> set (live c)" for i
    using wf_cluster_sent [OF wf that] by (simp add: total_cost_def)
  from step show ?thesis
  proof (cases rule: election_stepE)
    case (Deliver i m)
    let ?qm = "(coordination_queue (node c i), m)"
    have "election_weight n (taken ?qm c) + message_cost n m = election_weight n c"
      using messages_cost_remove1 [OF Deliver(3), of n] by (simp add: election_weight_def)
    then show ?thesis
      using Deliver idle [OF Deliver(2)] total_handle_message [OF wf_clusterD [OF wf Deliver(2)] n, of lh m]
        weight_hand_over [of i "taken ?qm c" n "fst (handle_message lh (Some m) (node c i))"] once
      by simp
  next
    case (Fire i d f)
    then show ?thesis
      using idle [OF Fire(2)] total_run_callback [OF wf_clusterD [OF wf Fire(2)] n Fire(3), of lh]
        weight_hand_over [of i c n "fst (run_callback lh f (disarm (d, f) (node c i)))"] once
      by simp
  next
    case (Silence i)
    then show ?thesis
      using idle [OF Silence(2)] total_silence [OF wf_clusterD [OF wf Silence(2)] n Silence(3), of lh]
        weight_hand_over [of i c n "fst (ticker_round lh (node c i))"] once
      by simp
  qed
qed

lemma election_run_bound:
  assumes "(election_step lh timely ^^ k) c c'" "wf_cluster n c"
  shows "wf_cluster n c' \<and> k + election_weight n c' \<le> election_weight n c"
  using assms
proof (induction k arbitrary: c')
  case (Suc k)
  then obtain d where "(election_step lh timely ^^ k) c d" "election_step lh timely d c'" by auto
  then show ?case using Suc.IH [of d] Suc.prems(2) wf_election_step weight_decreases by fastforce
qed simp

text \<open>
  C11. Every election ends: in a run of the hypervisors in which only messages are delivered, callbacks fire and
  silent leaders are given up, there are at most \<open>election_weight\<close> steps, whatever the order of deliveries and
  timeouts, whichever queues are shared and whichever hypervisors are down.
\<close>

theorem every_election_ends:
  assumes "wf_cluster n c" "(election_step lh timely ^^ k) c c'"
  shows "k \<le> election_weight n c"
  using election_run_bound [OF assms(2,1)] by linarith

definition three :: "int \<Rightarrow> bully_config" where
  "three i = \<lparr>ID = i, Count = 3, ExchangeName = ''fault_hypervisor_coordination'', HeartbeatInterval = 2,
     LeaderTimeout = 6, ElectionTimeout = 6\<rparr>"

definition idle_cluster :: "'h \<Rightarrow> 'h cluster" where
  "idle_cluster h = \<lparr>live = [], node = (\<lambda>i. new_bully_coordinator (three i) h), bindings = [], net = []\<rparr>"

definition common_queue :: string where
  "common_queue = exchange_queue_name ''fault_hypervisor_coordination'' False [] ''fault_hypervisor''"

lemma start_three:
  "start_hypervisor lh (three i) h =
     \<lparr>b_id = i, b_count = 3, coordination = \<lparr>outcomes = [], keys = [routing_key i], sent = []\<rparr>,
      coordination_queue = common_queue, b_handler = h, heartbeatInterval = 2, leaderTimeout = 6, electionTimeout = 6,
      leaderID = -1, lastLeaderSeen = 0, electionInProgress = False, gotAnswer = False, closed = False,
      armed = [(6, StartElection)], clock = 0\<rparr>"
  by (simp add: start_hypervisor_def bully_run_def three_def new_bully_coordinator_def on_coordination_def zoom_def
      exchange_set_up_def then_act_def call_def ticker_begins_def after_func_def upd_def or_default_def ok_def
      common_queue_def)

theorem every_election_ends_witness:
  "\<forall>lh (h :: unit). \<exists>c'. (election_step lh True ^^ 1) (join 0 (start_hypervisor lh (three 0) h) (idle_cluster h)) c' \<and>
     1 \<le> election_weight 3 (join 0 (start_hypervisor lh (three 0) h) (idle_cluster h))"
proof (intro allI)
  fix lh and h :: unit
  let ?c = "join 0 (start_hypervisor lh (three 0) h) (idle_cluster h)"
  have wf: "wf_cluster 3 ?c"
    by (simp add: wf_cluster_def wf_node_def join_def bind_queue_def idle_cluster_def start_three broker_up_def
        List.insert_def)
  have "\<exists>c'. (election_step lh True ^^ 1) ?c c'"
    using election_step.Fire [of 0 ?c 6 StartElection True lh]
    by (auto simp: join_def bind_queue_def idle_cluster_def start_three List.insert_def)
  then show "\<exists>c'. (election_step lh True ^^ 1) ?c c' \<and> 1 \<le> election_weight 3 ?c"
    using every_election_ends [OF wf] by blast
qed

end
