(* ===== verification/ElectionOutcome.thy ===== *)
theory ElectionOutcome
  imports Election
begin

text \<open>
  What an election leads to. When every hypervisor has a queue of its own and the answer timeout is long enough, all
  live hypervisors follow the highest one in the end. The queue the code makes is one and the same for all of them,
  which lets every hypervisor elect itself. A hypervisor whose question was answered waits for ever when the one
  that answered dies.
\<close>

section \<open>Queues of their own\<close>

definition own_queues :: "'h cluster \<Rightarrow> bool" where
  "own_queues c \<longleftrightarrow> (\<forall>i\<in>set (live c). (routing_key i, coordination_queue (node c i)) \<in> set (bindings c) \<and>
     (\<forall>kq\<in>set (bindings c). snd kq = coordination_queue (node c i) \<longrightarrow> fst kq = routing_key i))"

definition waits :: "'h cluster \<Rightarrow> int \<Rightarrow> money_laundry \<Rightarrow> bool" where
  "waits c i m \<longleftrightarrow> (coordination_queue (node c i), m) \<in> set (net c)"

lemma own_queues_inj:
  assumes "own_queues c" "wf_cluster n c" "i \<in> set (live c)" "j \<in> set (live c)"
    "coordination_queue (node c i) = coordination_queue (node c j)"
  shows "i = j"
proof -
  have "(routing_key i, coordination_queue (node c j)) \<in> set (bindings c)"
    using assms(1,3) by (simp add: own_queues_def flip: assms(5))
  then have "routing_key i = routing_key j" using assms(1,4) unfolding own_queues_def by fastforce
  moreover have "0 \<le> i" "0 \<le> j" using assms wf_clusterD by (auto simp: wf_node_def)
  ultimately show ?thesis by simp
qed

lemma routed_iff:
  assumes "own_queues c" "i \<in> set (live c)"
  shows "(coordination_queue (node c i), m) \<in> set (concat (map (route (bindings c)) ms)) \<longleftrightarrow> (routing_key i, m) \<in> set ms"
  using assms by (force simp: own_queues_def route_def)

text \<open>Hypervisor \<open>i\<close> goes to \<open>s\<close>, having taken the message \<open>mo\<close> if there is one.\<close>

definition moved :: "int \<Rightarrow> 'h bully \<Rightarrow> money_laundry option \<Rightarrow> 'h cluster \<Rightarrow> 'h cluster" where
  "moved i s mo c = hand_over i s (case mo of None \<Rightarrow> c | Some m \<Rightarrow> taken (coordination_queue (node c i), m) c)"

lemma moved_simps [simp]:
  "live (moved i s mo c) = live c" "bindings (moved i s mo c) = bindings c"
  "node (moved i s mo c) = (node c)(i := s\<lparr>coordination := (coordination s)\<lparr>sent := []\<rparr>\<rparr>)"
  by (simp_all add: moved_def split: option.split)

lemma waits_moved:
  assumes "own_queues c" "wf_cluster n c" "i \<in> set (live c)" "j \<in> set (live c)"
    and q: "coordination_queue s = coordination_queue (node c i)"
  shows waits_before: "waits (moved i s mo c) j m \<Longrightarrow> waits c j m \<or> (routing_key j, m) \<in> set (sent (coordination s))"
    and waits_still: "waits c j m \<Longrightarrow> j \<noteq> i \<or> mo \<noteq> Some m \<Longrightarrow> waits (moved i s mo c) j m"
    and waits_new: "(routing_key j, m) \<in> set (sent (coordination s)) \<Longrightarrow> waits (moved i s mo c) j m"
proof -
  have same: "coordination_queue (node (moved i s mo c) j) = coordination_queue (node c j)"
    using q by simp
  have net: "set (net (moved i s mo c)) =
      set (case mo of None \<Rightarrow> net c | Some m \<Rightarrow> remove1 (coordination_queue (node c i), m) (net c)) \<union>
      set (concat (map (route (bindings c)) (sent (coordination s))))"
    by (simp add: moved_def split: option.split)
  show "waits (moved i s mo c) j m \<Longrightarrow> waits c j m \<or> (routing_key j, m) \<in> set (sent (coordination s))"
    unfolding waits_def same net Un_iff routed_iff [OF assms(1,4)]
    by (auto split: option.splits dest: set_mp [OF set_remove1_subset])
  show "waits (moved i s mo c) j m" if "waits c j m" "j \<noteq> i \<or> mo \<noteq> Some m"
  proof -
    have "(coordination_queue (node c j), m) \<noteq> (coordination_queue (node c i), x)" if "mo = Some x" for x
      using that \<open>j \<noteq> i \<or> mo \<noteq> Some m\<close> own_queues_inj [OF assms(1,2,4,3)] by auto
    then show ?thesis
      using that(1) unfolding waits_def same net Un_iff by (simp add: in_set_remove1 split: option.split)
  qed
  show "(routing_key j, m) \<in> set (sent (coordination s)) \<Longrightarrow> waits (moved i s mo c) j m"
    unfolding waits_def same net Un_iff routed_iff [OF assms(1,4)] by simp
qed

section \<open>The highest hypervisor wins\<close>

text \<open>
  \<open>h\<close> is the highest live hypervisor. What can be waiting for a live hypervisor \<open>j\<close>: a question from below, an
  answer or the announcement of \<open>h\<close>, and the last two never for \<open>h\<close> itself.
\<close>

definition expected :: "int \<Rightarrow> int \<Rightarrow> money_laundry \<Rightarrow> bool" where
  "expected h j m \<longleftrightarrow> (\<exists>p. 0 \<le> p \<and> p < j \<and> m = election_message p) \<or>
     j \<noteq> h \<and> ((\<exists>p. m = ok_message p) \<or> m = coordinator_message h)"

definition up_to_highest :: "int \<Rightarrow> 'h bully \<Rightarrow> bool" where
  "up_to_highest h s \<longleftrightarrow> leaderID s \<noteq> h \<longrightarrow> \<not> gotAnswer s \<and>
     (if electionInProgress s then FinishElectionIfUnanswered \<in> snd ` set (armed s)
      else StartElection \<in> snd ` set (armed s) \<or> leader_silent s)"

definition electing :: "int \<Rightarrow> int \<Rightarrow> 'h cluster \<Rightarrow> bool" where
  "electing n h c \<longleftrightarrow> wf_cluster n c \<and> own_queues c \<and> h \<in> set (live c) \<and> (\<forall>i\<in>set (live c). i \<le> h) \<and>
     (\<forall>i\<in>set (live c). \<forall>m. waits c i m \<longrightarrow> expected h i m) \<and>
     (\<forall>i\<in>set (live c). i \<noteq> h \<and> electionInProgress (node c i) \<and> \<not> gotAnswer (node c i) \<longrightarrow>
        waits c h (election_message i) \<or> (\<exists>p. waits c i (ok_message p))) \<and>
     up_to_highest h (node c h) \<and>
     (leaderID (node c h) = h \<longrightarrow>
        (\<forall>i\<in>set (live c). i \<noteq> h \<longrightarrow> leaderID (node c i) = h \<or> waits c i (coordinator_message h)))"

lemma electingD:
  assumes "electing n h c"
  shows "\<forall>j\<in>set (live c). \<forall>m. waits c j m \<longrightarrow> expected h j m"
    and "\<forall>i\<in>set (live c). i \<noteq> h \<and> electionInProgress (node c i) \<and> \<not> gotAnswer (node c i) \<longrightarrow>
      waits c h (election_message i) \<or> (\<exists>p. waits c i (ok_message p))"
    and "up_to_highest h (node c h)"
    and "leaderID (node c h) = h \<longrightarrow>
      (\<forall>i\<in>set (live c). i \<noteq> h \<longrightarrow> leaderID (node c i) = h \<or> waits c i (coordinator_message h))"
  using assms unfolding electing_def by - (elim conjE, assumption)+

text \<open>What hypervisor \<open>i\<close> may do without leaving that invariant.\<close>

definition proper_move :: "int \<Rightarrow> 'h cluster \<Rightarrow> int \<Rightarrow> 'h bully \<Rightarrow> money_laundry option \<Rightarrow> bool" where
  "proper_move h c i s mo \<longleftrightarrow>
     keeps_config (node c i) s \<and>
     (\<forall>j\<in>set (live c). \<forall>m. (routing_key j, m) \<in> set (sent (coordination s)) \<longrightarrow> expected h j m) \<and>
     (\<forall>p. 0 \<le> p \<and> p < 2 ^ 31 \<and> i = h \<and> mo = Some (election_message p) \<longrightarrow> (\<exists>q. (routing_key p, ok_message q) \<in> set (sent (coordination s)))) \<and>
     (i \<noteq> h \<and> electionInProgress s \<and> \<not> gotAnswer s \<longrightarrow>
        (electionInProgress (node c i) \<and> \<not> gotAnswer (node c i) \<and> (\<forall>p. mo \<noteq> Some (ok_message p))) \<or>
        (routing_key h, election_message i) \<in> set (sent (coordination s))) \<and>
     (i = h \<longrightarrow> up_to_highest h s) \<and>
     (i = h \<and> leaderID s = h \<longrightarrow> leaderID (node c h) = h \<or>
        (\<forall>j\<in>set (live c). j \<noteq> h \<longrightarrow> (routing_key j, coordinator_message h) \<in> set (sent (coordination s)))) \<and>
     (i \<noteq> h \<longrightarrow> leaderID s = h \<or> leaderID s = leaderID (node c i) \<and> mo \<noteq> Some (coordinator_message h))"

lemma proper_moveD:
  assumes "proper_move h c i s mo"
  shows "\<forall>j\<in>set (live c). \<forall>m. (routing_key j, m) \<in> set (sent (coordination s)) \<longrightarrow> expected h j m"
    and "\<forall>p. 0 \<le> p \<and> p < 2 ^ 31 \<and> i = h \<and> mo = Some (election_message p) \<longrightarrow>
      (\<exists>q. (routing_key p, ok_message q) \<in> set (sent (coordination s)))"
    and "i \<noteq> h \<and> electionInProgress s \<and> \<not> gotAnswer s \<longrightarrow>
      (electionInProgress (node c i) \<and> \<not> gotAnswer (node c i) \<and> (\<forall>p. mo \<noteq> Some (ok_message p))) \<or>
      (routing_key h, election_message i) \<in> set (sent (coordination s))"
    and "i = h \<longrightarrow> up_to_highest h s"
    and "i = h \<and> leaderID s = h \<longrightarrow> leaderID (node c h) = h \<or>
      (\<forall>j\<in>set (live c). j \<noteq> h \<longrightarrow> (routing_key j, coordinator_message h) \<in> set (sent (coordination s)))"
    and "i \<noteq> h \<longrightarrow> leaderID s = h \<or> leaderID s = leaderID (node c i) \<and> mo \<noteq> Some (coordinator_message h)"
  using assms unfolding proper_move_def by - (elim conjE, assumption)+

lemma up_to_highest_sent [simp]:
  "up_to_highest h (s\<lparr>coordination := x\<rparr>) = up_to_highest h s"
  by (simp add: up_to_highest_def leader_silent_def)

lemma electing_moved:
  assumes J: "electing n h c" and i: "i \<in> set (live c)" and P: "proper_move h c i s mo"
  shows "electing n h (moved i s mo c)"
proof -
  let ?c = "moved i s mo c"
  have wf: "wf_cluster n c" and own: "own_queues c" and h: "h \<in> set (live c)" "\<forall>i\<in>set (live c). i \<le> h"
    using J by (auto simp: electing_def)
  have cfg: "keeps_config (node c i) s" and q: "coordination_queue s = coordination_queue (node c i)"
    using P by (auto simp: proper_move_def keeps_config_def)
  note before = waits_before [OF own wf i _ q] and still = waits_still [OF own wf i _ q]
    and new = waits_new [OF own wf i _ q]
  have wf': "wf_cluster n ?c"
    using wf keeps_wf_node [OF cfg wf_clusterD [OF wf i]]
    by (auto simp: moved_def wf_hand_over split: option.split)
  have own': "own_queues ?c" using own q by (simp add: own_queues_def)
  note E = electingD [OF J] and M = proper_moveD [OF P]
  have exp: "\<forall>j\<in>set (live c). \<forall>m. waits ?c j m \<longrightarrow> expected h j m"
    using before M(1) E(1) by blast
  have asked: "waits ?c h (election_message j) \<or> (\<exists>p. waits ?c j (ok_message p))"
    if j: "j \<in> set (live c)" "j \<noteq> h" "electionInProgress (node ?c j)" "\<not> gotAnswer (node ?c j)" for j
  proof (cases "j = i \<and> (routing_key h, election_message i) \<in> set (sent (coordination s))")
    case True
    then show ?thesis using new [OF h(1)] by blast
  next
    case False
    have old: "electionInProgress (node c j)" "\<not> gotAnswer (node c j)" "j = i \<longrightarrow> (\<forall>p. mo \<noteq> Some (ok_message p))"
      using j False M(3) by (cases "j = i"; simp)+
    then consider (asks) "waits c h (election_message j)" | (answered) p where "waits c j (ok_message p)"
      using E(2) j(1,2) by blast
    then show ?thesis
    proof cases
      case asks
      have "0 \<le> j" "j < 2 ^ 31"
        using wf wf_clusterD [OF wf j(1)] by (auto simp: wf_cluster_def wf_node_def)
      then show ?thesis
        using still [OF h(1) asks] M(2) new [OF j(1)] by blast
    next
      case answered
      then show ?thesis using still [OF j(1)] old(3) by blast
    qed
  qed
  have top: "up_to_highest h (node ?c h)" using M(4) E(3) by (cases "i = h") auto
  have led: "leaderID (node ?c j) = h \<or> waits ?c j (coordinator_message h)"
    if L: "leaderID (node ?c h) = h" and j: "j \<in> set (live c)" "j \<noteq> h" for j
  proof (cases "i = h \<and> (routing_key j, coordinator_message h) \<in> set (sent (coordination s))")
    case True
    then show ?thesis using new [OF j(1)] by blast
  next
    case False
    have "leaderID (node c h) = h" using L False M(5) j by (cases "i = h") auto
    then have "leaderID (node c j) = h \<or> waits c j (coordinator_message h)"
      using E(4) j by blast
    then show ?thesis using still [OF j(1)] M(6) j by (cases "j = i") auto
  qed
  show ?thesis unfolding electing_def using wf' own' h exp asked top led by simp
qed

text \<open>
  The state in which an operation calls the election: that of the hypervisor, perhaps with an answer sent and a
  callback gone.
\<close>

definition about_to_start :: "'h bully \<Rightarrow> 'h bully \<Rightarrow> bool" where
  "about_to_start s t \<longleftrightarrow> keeps_config s t \<and> leaderID t = leaderID s \<and> electionInProgress t = electionInProgress s \<and>
     gotAnswer t = gotAnswer s \<and> (FinishElectionIfUnanswered \<in> snd ` set (armed s) \<longrightarrow>
       FinishElectionIfUnanswered \<in> snd ` set (armed t)) \<and>
     (\<forall>km\<in>set (sent (coordination t)). \<exists>p<b_id s. 0 \<le> p \<and> km = (routing_key p, ok_message (b_id s)))"

lemma electing_node:
  assumes "electing n h c" "i \<in> set (live c)"
  shows "wf_node n i (node c i)" "sent (coordination (node c i)) = []" "n \<le> 2 ^ 31" "i \<le> h" "0 \<le> i" "i < n" "h < n"
    "b_id (node c i) = i" "broker_up (node c i)" "\<not> closed (node c i)"
  using assms by (auto simp: electing_def wf_cluster_def wf_node_def)

lemma live_range: "electing n h c \<Longrightarrow> j \<in> set (live c) \<Longrightarrow> 0 \<le> j \<and> j < n \<and> j \<le> h"
  by (simp add: electing_node)

lemma answers_expected:
  assumes "electing n h c" "i \<in> set (live c)" "j \<in> set (live c)" "about_to_start (node c i) t"
    "(routing_key j, m) \<in> set (sent (coordination t))"
  shows "expected h j m"
proof -
  obtain p where "p < i" "0 \<le> p" "routing_key j = routing_key p" "m = ok_message i"
    using assms electing_node(8) [OF assms(1,2)] by (fastforce simp: about_to_start_def)
  then show ?thesis using live_range [OF assms(1)] assms(2,3) by (force simp: expected_def)
qed

lemma proper_start:
  assumes J: "electing n h c" and i: "i \<in> set (live c)" and t: "about_to_start (node c i) t"
    and mo: "\<forall>p. mo \<noteq> Some (ok_message p)" "mo \<noteq> Some (coordinator_message h)"
      "\<forall>p. 0 \<le> p \<and> p < 2 ^ 31 \<and> mo = Some (election_message p) \<longrightarrow> (routing_key p, ok_message i) \<in> set (sent (coordination t))"
  shows "proper_move h c i (fst (start_election lh t)) mo"
proof -
  note N = electing_node [OF J i]
  have cfg: "keeps_config (node c i) t" and T: "b_id t = i" "b_count t = n" "broker_up t" "\<not> closed t"
    "leaderID t = leaderID (node c i)" "electionInProgress t = electionInProgress (node c i)"
    "gotAnswer t = gotAnswer (node c i)"
    using t N by (auto simp: about_to_start_def keeps_config_def wf_node_def)
  note sent_ok = answers_expected [OF J i _ t] and range = live_range [OF J]
  consider (same) "leaderID t = i \<or> electionInProgress t" | (lead) "leaderID t \<noteq> i" "\<not> electionInProgress t" "i + 1 > n - 1"
    | (ask) "leaderID t \<noteq> i" "\<not> electionInProgress t" "i + 1 \<le> n - 1"
    by linarith
  then show ?thesis
  proof cases
    case same
    then have "start_election lh t = (t, None)" using T by (auto simp: start_election_same)
    moreover have "i = h \<longrightarrow> up_to_highest h t"
      using same T electingD(3) [OF J] t by (auto simp: up_to_highest_def about_to_start_def)
    ultimately show ?thesis using cfg T sent_ok mo by (auto simp: proper_move_def)
  next
    case lead
    then have ih: "i = h" using N by linarith
    let ?u = "t\<lparr>electionInProgress := True, gotAnswer := False\<rparr>"
    have eq: "fst (start_election lh t) = leading lh ?u" using lead T by (simp add: start_election_up)
    have snt: "set (sent (coordination (leading lh ?u))) =
        set (sent (coordination t)) \<union> (\<lambda>p. (routing_key p, coordinator_message i)) ` {p. 0 \<le> p \<and> p < n \<and> p \<noteq> i}"
      using T by (auto simp: leading_def announcements_def)
    have "expected h j m" if "j \<in> set (live c)" "(routing_key j, m) \<in> set (sent (coordination (leading lh ?u)))" for j m
      using that sent_ok range ih unfolding snt by (auto simp: expected_def)
    moreover have "keeps_config (node c i) (leading lh ?u)"
      using keeps_trans [OF cfg keeps_start_election [OF T(3), of lh]] eq by simp
    moreover have "leaderID (leading lh ?u) = i" using T by (simp add: leading_def)
    ultimately show ?thesis unfolding eq proper_move_def using ih mo range snt
      by (auto simp: up_to_highest_def)
  next
    case ask
    have eq: "fst (start_election lh t) = asking t" using ask T by (simp add: start_election_up)
    have snt: "set (sent (coordination (asking t))) =
        set (sent (coordination t)) \<union> (\<lambda>p. (routing_key p, election_message i)) ` {p. i < p \<and> p < n}"
      using T by (auto simp: asking_def elections_def)
    have "expected h j m" if "j \<in> set (live c)" "(routing_key j, m) \<in> set (sent (coordination (asking t)))" for j m
      using that sent_ok range N unfolding snt by (auto simp: expected_def)
    moreover have "keeps_config (node c i) (asking t)"
      using keeps_trans [OF cfg keeps_start_election [OF T(3), of lh]] eq by simp
    moreover have "(routing_key h, election_message i) \<in> set (sent (coordination (asking t)))" if "i \<noteq> h"
      using that N unfolding snt by auto
    moreover have "leaderID (asking t) = leaderID t" "up_to_highest h (asking t)"
      by (simp_all add: asking_def up_to_highest_def)
    ultimately show ?thesis unfolding eq proper_move_def using mo T ask snt by auto
  qed
qed

lemma proper_deliver:
  assumes J: "electing n h c" and i: "i \<in> set (live c)" and m: "waits c i m"
  shows "proper_move h c i (fst (handle_message lh (Some m) (node c i))) (Some m)"
proof -
  note N = electing_node [OF J i]
  have cfg: "keeps_config (node c i) (fst (handle_message lh (Some m) (node c i)))"
    using N keeps_handle_message by blast
  have "expected h i m" using electingD(1) [OF J] i m by blast
  then consider (question) p where "0 \<le> p" "p < i" "m = election_message p"
    | (answer) p where "i \<noteq> h" "m = ok_message p" | (announced) "i \<noteq> h" "m = coordinator_message h"
    by (auto simp: expected_def)
  then show ?thesis
  proof cases
    case question
    have p: "sint (word_of_int p :: i32) = p" using question N by (intro sint_of_id) auto
    let ?s = "node c i" and ?t = "emit [(routing_key p, ok_message i)] (node c i)"
    have t: "about_to_start ?s ?t" using question N by (auto simp: about_to_start_def keeps_config_def)
    have p_eq: "m = election_message q \<longleftrightarrow> p = q" if "0 \<le> q" "q < 2 ^ 31" for q
      using question N that by (simp add: election_message_inject)
    show ?thesis
    proof (cases "leaderID ?s = i")
      case True
      then have eq: "fst (handle_message lh (Some m) ?s) = ?t"
        using question N p by (simp add: handle_message_def handle_election_up)
      have "up_to_highest h ?t" if "i = h" using True that by (simp add: up_to_highest_def)
      moreover have "keeps_config ?s ?t" using t by (simp add: about_to_start_def)
      ultimately show ?thesis
        using answers_expected [OF J i _ t] question True unfolding eq proper_move_def by (auto simp: p_eq)
    next
      case False
      then have eq: "fst (handle_message lh (Some m) ?s) = fst (start_election lh ?t)"
        using question N p by (simp add: handle_message_def handle_election_up)
      show ?thesis unfolding eq
      proof (rule proper_start [OF J i t])
        show "\<forall>q. 0 \<le> q \<and> q < 2 ^ 31 \<and> Some m = Some (election_message q) \<longrightarrow>
            (routing_key q, ok_message i) \<in> set (sent (coordination ?t))"
          using p_eq by auto
      qed (simp_all add: question)
    qed
  next
    case answer
    then show ?thesis
      using cfg N(2) by (simp add: proper_move_def handle_message_def handle_ok_def upd_def)
  next
    case announced
    have "sint (word_of_int h :: i32) = h"
      using N live_range [OF J, of h] J by (intro sint_of_id) (auto simp: electing_def)
    then show ?thesis
      using announced cfg N(2) by (simp add: proper_move_def handle_message_def handle_coordinator_up following_def)
  qed
qed

lemma about_to_start_refl: "sent (coordination s) = [] \<Longrightarrow> about_to_start s s"
  by (simp add: about_to_start_def)

lemma disarm_fields [simp]:
  "leaderID (disarm df s) = leaderID s" "electionInProgress (disarm df s) = electionInProgress s"
  "gotAnswer (disarm df s) = gotAnswer s" "coordination (disarm df s) = coordination s"
  "closed (disarm df s) = closed s" "b_id (disarm df s) = b_id s" "b_count (disarm df s) = b_count s"
  "leader_silent (disarm df s) = leader_silent s" "armed (disarm df s) = remove1 df (armed s)"
  by (simp_all add: disarm_def leader_silent_def)

lemma callback_kept: "g \<in> snd ` set xs \<Longrightarrow> g \<noteq> f \<Longrightarrow> g \<in> snd ` set (remove1 (d, f) xs)"
  by (auto simp: image_iff in_set_remove1 intro!: bexI)

lemma proper_silence:
  assumes J: "electing n h c" and i: "i \<in> set (live c)" and late: "leader_silent (node c i)"
  shows "proper_move h c i (fst (ticker_round lh (node c i))) None"
proof -
  note N = electing_node [OF J i]
  have "ticker_round lh (node c i) = (fst (start_election lh (node c i)), True)"
    using late N by (simp add: ticker_round_def leader_silent_def)
  then show ?thesis using proper_start [OF J i about_to_start_refl [OF N(2)]] by simp
qed

lemma proper_fire:
  assumes J: "electing n h c" and i: "i \<in> set (live c)" and df: "(d, f) \<in> set (armed (node c i))"
    and calm: "f = FinishElectionIfUnanswered \<Longrightarrow> calm c"
  shows "proper_move h c i (fst (run_callback lh f (disarm (d, f) (node c i)))) None"
proof -
  note N = electing_node [OF J i]
  let ?s = "node c i" and ?t = "disarm (d, f) (node c i)"
  show ?thesis
  proof (cases f)
    case StartElection
    then have "about_to_start ?s ?t" using N(2) callback_kept [of FinishElectionIfUnanswered _ StartElection d]
      by (simp add: about_to_start_def)
    then show ?thesis using proper_start [OF J i] StartElection by simp
  next
    case FinishElectionIfUnanswered
    show ?thesis
    proof (cases "electionInProgress ?s \<and> \<not> gotAnswer ?s")
      case False
      then have eq: "fst (run_callback lh f ?t) = ?t"
        using FinishElectionIfUnanswered by (auto simp: finish_election_if_unanswered_def ok_def)
      have "up_to_highest h ?t" if "i = h"
        using False that electingD(3) [OF J] callback_kept [of StartElection _ f d] FinishElectionIfUnanswered
        by (auto simp: up_to_highest_def)
      then show ?thesis unfolding eq proper_move_def using N(2) False by auto
    next
      case True
      have "\<not> waits c j m" if "j \<in> set (live c)" for j m
        using calm [OF FinishElectionIfUnanswered] that by (fastforce simp: calm_def waits_def)
      then have ih: "i = h" using electingD(2) [OF J] True i J unfolding electing_def by blast
      show ?thesis
      proof (cases "leaderID ?s = i")
        case True
        then have eq: "fst (run_callback lh f ?t) = ?t"
          using FinishElectionIfUnanswered N
          by (auto simp: finish_election_if_unanswered_def become_leader_same ok_def)
        show ?thesis unfolding eq proper_move_def using N(2) ih True by (simp add: up_to_highest_def)
      next
        case False
        then have eq: "fst (run_callback lh f ?t) = leading lh ?t"
          using FinishElectionIfUnanswered N True
          by (simp add: finish_election_if_unanswered_def become_leader_up)
        have snt: "set (sent (coordination (leading lh ?t))) =
            (\<lambda>p. (routing_key p, coordinator_message i)) ` {p. 0 \<le> p \<and> p < n \<and> p \<noteq> i}"
          using N by (auto simp: leading_def announcements_def wf_node_def)
        have "keeps_config ?s (leading lh ?t)" using keeps_fire [OF N(9), of lh f "(d, f)"] eq by simp
        moreover have "leaderID (leading lh ?t) = i" using N by (simp add: leading_def)
        ultimately show ?thesis unfolding eq proper_move_def using ih live_range [OF J] snt
          by (auto simp: up_to_highest_def expected_def)
      qed
    qed
  qed
qed

lemma electing_step:
  assumes step: "election_step lh True c c'" and J: "electing n h c"
  shows "electing n h c'"
  using step
proof (cases rule: election_stepE)
  case (Deliver i m)
  then show ?thesis
    using electing_moved [OF J Deliver(2) proper_deliver [OF J Deliver(2)]] by (simp add: moved_def waits_def)
next
  case (Fire i d f)
  then show ?thesis
    using electing_moved [OF J Fire(2) proper_fire [OF J Fire(2,3)]] by (simp add: moved_def)
next
  case (Silence i)
  then show ?thesis
    using electing_moved [OF J Silence(2) proper_silence [OF J Silence(2,3)]] by (simp add: moved_def)
qed

lemma electing_run: "(election_step lh True)\<^sup>*\<^sup>* c c' \<Longrightarrow> electing n h c \<Longrightarrow> electing n h c'"
  by (induction rule: rtranclp_induct) (auto intro: electing_step)

definition stuck :: "'h leadership_handler \<Rightarrow> bool \<Rightarrow> 'h cluster \<Rightarrow> bool" where
  "stuck lh timely c \<longleftrightarrow> (\<nexists>c'. election_step lh timely c c')"

lemma stuck_elected:
  assumes J: "electing n h c" and stop: "stuck lh True c" and i: "i \<in> set (live c)"
  shows "leaderID (node c i) = h"
proof -
  have h: "h \<in> set (live c)" using J by (simp add: electing_def)
  have quiet: "\<not> waits c j m" if "j \<in> set (live c)" for j m
    using stop election_step.Deliver [OF that] by (auto simp: stuck_def waits_def)
  have calm: "calm c" using quiet by (auto simp: calm_def waits_def)
  then have idle: "armed (node c j) = []" if "j \<in> set (live c)" for j
    using stop election_step.Fire [OF that] by (cases "armed (node c j)") (fastforce simp: stuck_def)+
  moreover have "\<not> leader_silent (node c h)" using stop election_step.Silence [OF h] by (auto simp: stuck_def)
  ultimately have "leaderID (node c h) = h"
    using electingD(3) [OF J] h by (auto simp: up_to_highest_def split: if_splits)
  then show ?thesis using electingD(4) [OF J] i quiet by auto
qed

text \<open>
  The election is due: no hypervisor is in one and no message is under way to a live one, and the highest live
  hypervisor does not lead and is going to call an election, as its first timer is set or its leader is silent.
\<close>

definition election_due :: "int \<Rightarrow> int \<Rightarrow> 'h cluster \<Rightarrow> bool" where
  "election_due n h c \<longleftrightarrow> wf_cluster n c \<and> own_queues c \<and> h \<in> set (live c) \<and> (\<forall>i\<in>set (live c). i \<le> h) \<and> calm c \<and>
     (\<forall>i\<in>set (live c). \<not> electionInProgress (node c i)) \<and> leaderID (node c h) \<noteq> h \<and> \<not> gotAnswer (node c h) \<and>
     (StartElection \<in> snd ` set (armed (node c h)) \<or> leader_silent (node c h))"

lemma due_electing: "election_due n h c \<Longrightarrow> electing n h c"
  by (fastforce simp: election_due_def electing_def up_to_highest_def calm_def waits_def)

lemma election_step_live: "election_step lh timely c c' \<Longrightarrow> live c' = live c"
  by (cases rule: election_step.cases) auto

lemma election_run_live: "(election_step lh timely)\<^sup>*\<^sup>* c c' \<Longrightarrow> live c' = live c"
  by (induction rule: rtranclp_induct) (auto simp: election_step_live)

lemma run_to_the_end:
  assumes "wf_cluster n c"
  shows "\<exists>c'. (election_step lh timely)\<^sup>*\<^sup>* c c' \<and> stuck lh timely c'"
  using assms
proof (induction "election_weight n c" arbitrary: c rule: less_induct)
  case less
  show ?case
  proof (cases "stuck lh timely c")
    case False
    then obtain d where d: "election_step lh timely c d" by (auto simp: stuck_def)
    then obtain c' where "(election_step lh timely)\<^sup>*\<^sup>* d c'" "stuck lh timely c'"
      using less.hyps [OF weight_decreases [OF d less.prems]] wf_election_step [OF d less.prems] by blast
    then show ?thesis using d by (meson converse_rtranclp_into_rtranclp)
  qed blast
qed


text \<open>Hypervisors 0 and 1 of three, just started, each with a queue of its own.\<close>

definition with_own_queue :: "'h bully \<Rightarrow> 'h bully" where
  "with_own_queue s = s\<lparr>coordination_queue := routing_key (b_id s)\<rparr>"

definition two_of_three :: "unit leadership_handler \<Rightarrow> unit cluster" where
  "two_of_three lh = join 0 (with_own_queue (start_hypervisor lh (three 0) ()))
     (join 1 (with_own_queue (start_hypervisor lh (three 1) ())) (idle_cluster ()))"

lemma two_of_three_due: "election_due 3 1 (two_of_three lh)"
  by (simp add: election_due_def two_of_three_def wf_cluster_def wf_node_def own_queues_def calm_def join_def
      bind_queue_def idle_cluster_def start_three with_own_queue_def List.insert_def broker_up_def)


section \<open>The queue that all hypervisors share\<close>

text \<open>A hypervisor that takes messages which mean nothing to it empties the queue.\<close>

lemma hand_over_same:
  "sent (coordination (node c i)) = [] \<Longrightarrow> hand_over i (node c i) c = c"
  by (simp add: hand_over_def fun_upd_idem)

lemma drain:
  assumes i: "i \<in> set (live c)" and s: "sent (coordination (node c i)) = []"
    and same: "\<And>m. m \<in> set ms \<Longrightarrow> fst (handle_message lh (Some m) (node c i)) = node c i"
    and net: "net c = map (Pair (coordination_queue (node c i))) ms"
  shows "(election_step lh timely)\<^sup>*\<^sup>* c (c\<lparr>net := []\<rparr>)"
  using assms
proof (induction ms arbitrary: c)
  case Nil
  then have "c\<lparr>net := []\<rparr> = c" by simp
  then show ?case by simp
next
  case (Cons m ms)
  let ?q = "coordination_queue (node c i)"
  have "election_step lh timely c (hand_over i (fst (handle_message lh (Some m) (node c i))) (taken (?q, m) c))"
    using Cons.prems by (intro election_step.Deliver) auto
  moreover have "hand_over i (fst (handle_message lh (Some m) (node c i))) (taken (?q, m) c) = taken (?q, m) c"
    using Cons.prems hand_over_same [of "taken (?q, m) c" i] by simp
  moreover have "(election_step lh timely)\<^sup>*\<^sup>* (taken (?q, m) c) ((taken (?q, m) c)\<lparr>net := []\<rparr>)"
    using Cons.prems by (intro Cons.IH) auto
  moreover have "(taken (?q, m) c)\<lparr>net := []\<rparr> = c\<lparr>net := []\<rparr>" by (simp add: taken_def)
  ultimately show ?case by (metis converse_rtranclp_into_rtranclp)
qed

definition common_bindings :: "int \<Rightarrow> (string \<times> string) list \<Rightarrow> bool" where
  "common_bindings n bs \<longleftrightarrow> distinct (map fst bs) \<and>
     (\<forall>i. 0 \<le> i \<and> i < n \<longrightarrow> (routing_key i, common_queue) \<in> set bs)"

lemma route_common:
  assumes "common_bindings n bs" "\<forall>km\<in>set ms. \<exists>p. 0 \<le> p \<and> p < n \<and> fst km = routing_key p"
  shows "concat (map (route bs) ms) = map (Pair common_queue) (map snd ms)"
  using assms(2)
proof (induction ms)
  case (Cons km ms)
  obtain p where "0 \<le> p" "p < n" "fst km = routing_key p" using Cons.prems by auto
  then have "map_of bs (fst km) = Some common_queue" using assms(1) by (simp add: common_bindings_def)
  then have "route bs km = [(common_queue, snd km)]" using assms(1) by (simp add: common_bindings_def route_once)
  then show ?case using Cons by simp
qed simp

lemma own_announcement_ignored:
  assumes "leaderID s = i" "0 \<le> i" "i < 2 ^ 31" "lastLeaderSeen s = clock s" "\<not> electionInProgress s" "\<not> gotAnswer s"
  shows "fst (handle_message lh (Some (coordinator_message i)) s) = s"
  using assms sint_of_id [of i] by (simp add: handle_message_def handle_coordinator_up following_def)

lemma own_question_ignored:
  assumes "b_id s = i" "leaderID s \<noteq> i" "0 \<le> i" "i < 2 ^ 31"
  shows "fst (handle_message lh (Some (election_message i)) s) = s"
  using assms sint_of_id [of i] by (simp add: handle_message_def handle_election_def ok_def)

text \<open>
  Hypervisor \<open>i\<close> leads, with its announcement on the queue. It takes all the copies itself.
\<close>

lemma lead_alone:
  assumes i: "i \<in> set (live c)" "0 \<le> i" "i < n" "n \<le> 2 ^ 31" and bs: "common_bindings n (bindings c)"
    and s: "b_id s = i" "b_count s = n" "coordination_queue s = common_queue" "sent (coordination s) = []"
    and net: "net c = []"
  shows "\<exists>c'. (election_step lh timely)\<^sup>*\<^sup>* (hand_over i (leading lh s) c) c' \<and> net c' = [] \<and> live c' = live c \<and>
    bindings c' = bindings c \<and> (\<forall>j. j \<noteq> i \<longrightarrow> node c' j = node c j) \<and> leaderID (node c' i) = i \<and>
    b_id (node c' i) = i \<and> armed (node c' i) = armed s"
proof -
  let ?l = "leading lh s" and ?ms = "announcements i [0..n - 1]"
  let ?c = "hand_over i ?l c"
  have "\<forall>km\<in>set ?ms. \<exists>p. 0 \<le> p \<and> p < n \<and> fst km = routing_key p" by (auto simp: announcements_def)
  then have "net ?c = map (Pair common_queue) (map snd ?ms)"
    using s net by (simp add: leading_def route_common [OF bs])
  then have "(election_step lh timely)\<^sup>*\<^sup>* ?c (?c\<lparr>net := []\<rparr>)"
    using i s own_announcement_ignored
    by (intro drain [where i = i and ms = "map snd ?ms"])
       (auto simp: leading_def announcements_def intro!: own_announcement_ignored)
  then show ?thesis using s by (intro exI [of _ "?c\<lparr>net := []\<rparr>"]) (auto simp: leading_def)
qed

text \<open>
  Hypervisor \<open>i\<close> has its first timer set and takes its own questions, so that nobody answers them.
\<close>

lemma elects_itself:
  assumes i: "i \<in> set (live c)" "0 \<le> i" "i < n" "n \<le> 2 ^ 31" and bs: "common_bindings n (bindings c)"
    and s: "wf_node n i (node c i)" "coordination_queue (node c i) = common_queue" "sent (coordination (node c i)) = []"
      "armed (node c i) = [(d, StartElection)]" "leaderID (node c i) = -1" "\<not> electionInProgress (node c i)"
    and net: "net c = []"
  shows "\<exists>c'. (election_step lh True)\<^sup>*\<^sup>* c c' \<and> net c' = [] \<and> live c' = live c \<and> bindings c' = bindings c \<and>
    (\<forall>j. j \<noteq> i \<longrightarrow> node c' j = node c j) \<and> leaderID (node c' i) = i \<and> b_id (node c' i) = i \<and> armed (node c' i) = []"
proof -
  let ?s = "disarm (d, StartElection) (node c i)"
  have S: "b_id ?s = i" "b_count ?s = n" "broker_up ?s" "\<not> closed ?s" "leaderID ?s \<noteq> i" "armed ?s = []"
    "coordination_queue ?s = common_queue"
    using s i by (auto simp: wf_node_def disarm_def broker_up_def)
  have fire: "election_step lh True c (hand_over i (fst (start_election lh ?s)) c)"
    using election_step.Fire [of i c d StartElection True lh] i s by simp
  show ?thesis
  proof (cases "i + 1 > n - 1")
    case True
    let ?u = "?s\<lparr>electionInProgress := True, gotAnswer := False\<rparr>"
    have eq: "fst (start_election lh ?s) = leading lh ?u" using True S s by (simp add: start_election_up)
    show ?thesis
      using lead_alone [OF i bs, of ?u lh True] S s(3) net fire unfolding eq
      by (auto intro: converse_rtranclp_into_rtranclp)
  next
    case False
    let ?a = "asking ?s" and ?ms = "elections i [i + 1..n - 1]"
    let ?c = "hand_over i ?a c"
    have eq: "fst (start_election lh ?s) = ?a" using False S s by (simp add: start_election_up)
    have "\<forall>km\<in>set ?ms. \<exists>p. 0 \<le> p \<and> p < n \<and> fst km = routing_key p"
    proof
      fix km
      assume "km \<in> set ?ms"
      then obtain p where "i + 1 \<le> p" "p < n" "fst km = routing_key p" by (auto simp: elections_def)
      then show "\<exists>p. 0 \<le> p \<and> p < n \<and> fst km = routing_key p" using i by (intro exI [of _ p]) auto
    qed
    then have "net ?c = map (Pair common_queue) (map snd ?ms)"
      using S s(3) net by (simp add: asking_def route_common [OF bs])
    then have asked: "(election_step lh True)\<^sup>*\<^sup>* ?c (?c\<lparr>net := []\<rparr>)"
      using i S own_question_ignored
      by (intro drain [where i = i and ms = "map snd ?ms"])
         (auto simp: asking_def elections_def intro!: own_question_ignored)
    let ?d = "?c\<lparr>net := []\<rparr>" and ?e = "electionTimeout ?s"
    let ?t = "disarm (?e, FinishElectionIfUnanswered) (node ?d i)"
    have T: "b_id ?t = i" "b_count ?t = n" "broker_up ?t" "\<not> closed ?t" "leaderID ?t \<noteq> i" "armed ?t = []"
      "coordination_queue ?t = common_queue" "electionInProgress ?t" "\<not> gotAnswer ?t" "sent (coordination ?t) = []"
      using S by (auto simp: asking_def broker_up_def) (simp add: disarm_def)
    have "fst (run_callback lh FinishElectionIfUnanswered ?t) = leading lh ?t"
      using T by (simp add: finish_election_if_unanswered_def become_leader_up)
    moreover have "election_step lh True ?d (hand_over i (fst (run_callback lh FinishElectionIfUnanswered ?t)) ?d)"
      using i by (intro election_step.Fire) (auto simp: asking_def calm_def)
    ultimately have finish: "election_step lh True ?d (hand_over i (leading lh ?t) ?d)" by simp
    obtain c' where "(election_step lh True)\<^sup>*\<^sup>* (hand_over i (leading lh ?t) ?d) c'" and c': "net c' = []"
      "live c' = live c" "bindings c' = bindings c" "\<forall>j. j \<noteq> i \<longrightarrow> node c' j = node c j" "leaderID (node c' i) = i"
      "b_id (node c' i) = i" "armed (node c' i) = []"
      using lead_alone [of i ?d n ?t lh True] i bs T by auto
    then have "(election_step lh True)\<^sup>*\<^sup>* c c'"
      using fire asked finish unfolding eq by (meson converse_rtranclp_into_rtranclp rtranclp_trans)
    then show ?thesis using c' by blast
  qed
qed

definition all_started :: "'h leadership_handler \<Rightarrow> 'h \<Rightarrow> 'h cluster" where
  "all_started lh h = join 0 (start_hypervisor lh (three 0) h) (join 1 (start_hypervisor lh (three 1) h)
     (join 2 (start_hypervisor lh (three 2) h) (idle_cluster h)))"

lemma all_started_fields:
  "live (all_started lh h) = [0, 1, 2]" "net (all_started lh h) = []"
  "common_bindings 3 (bindings (all_started lh h))"
  "i \<in> {0, 1, 2} \<Longrightarrow> node (all_started lh h) i = start_hypervisor lh (three i) h"
proof -
  have "i = 0 \<or> i = 1 \<or> i = 2" if "0 \<le> i" "i < 3" for i :: int using that by linarith
  then show "common_bindings 3 (bindings (all_started lh h))"
    by (auto simp: common_bindings_def all_started_def join_def bind_queue_def idle_cluster_def start_three List.insert_def)
qed (auto simp: all_started_def join_def bind_queue_def idle_cluster_def start_three List.insert_def)

text \<open>
  C9. The shared queue breaks the election. The code names the queue of every hypervisor alike, so the broker may
  give a message to any of them. With three hypervisors started and nothing failing, the election can end with
  each of them its own leader.
\<close>

theorem shared_queue_elects_everybody:
  "\<exists>c. (election_step lh True)\<^sup>*\<^sup>* (all_started lh h) c \<and> stuck lh True c \<and> live c = [0, 1, 2] \<and>
     leaderID (node c 0) = 0 \<and> leaderID (node c 1) = 1 \<and> leaderID (node c 2) = 2"
proof -
  let ?a = "all_started lh h"
  note A = all_started_fields [where lh = lh and h = h] and fresh = start_three wf_node_def broker_up_def
  obtain c2 where c2: "(election_step lh True)\<^sup>*\<^sup>* ?a c2" "net c2 = []" "live c2 = [0, 1, 2]"
    "bindings c2 = bindings ?a" "\<forall>j. j \<noteq> 2 \<longrightarrow> node c2 j = node ?a j" "leaderID (node c2 2) = 2" "b_id (node c2 2) = 2"
    "armed (node c2 2) = []"
    using elects_itself [of 2 ?a 3 6 lh] A by (auto simp: fresh)
  obtain c1 where c1: "(election_step lh True)\<^sup>*\<^sup>* c2 c1" "net c1 = []" "live c1 = [0, 1, 2]"
    "bindings c1 = bindings ?a" "\<forall>j. j \<noteq> 1 \<longrightarrow> node c1 j = node c2 j" "leaderID (node c1 1) = 1" "b_id (node c1 1) = 1"
    "armed (node c1 1) = []"
    using elects_itself [of 1 c2 3 6 lh] A c2 by (auto simp: fresh)
  obtain c where c: "(election_step lh True)\<^sup>*\<^sup>* c1 c" "net c = []" "live c = [0, 1, 2]"
    "\<forall>j. j \<noteq> 0 \<longrightarrow> node c j = node c1 j" "leaderID (node c 0) = 0" "b_id (node c 0) = 0" "armed (node c 0) = []"
    using elects_itself [of 0 c1 3 6 lh] A c2 c1 by (auto simp: fresh)
  have "stuck lh True c"
    using c c1 c2 by (auto simp: stuck_def leader_silent_def elim!: election_stepE)
  moreover have "(election_step lh True)\<^sup>*\<^sup>* ?a c" using c2(1) c1(1) c(1) by (meson rtranclp_trans)
  ultimately show ?thesis using c c1 c2 by auto
qed

end
