(* ===== verification/ElectionFaults.thy ===== *)
theory ElectionFaults
  imports ElectionOutcome
begin

text \<open>
  The hypervisors under faults: a broker that refuses publications, early timeouts, crashes, restarts and heartbeats
  at any time. A hypervisor only ever follows one that took the lead; and one whose election was answered is lost
  when the one that answered dies.
\<close>

section \<open>What the operations send and change, whatever the broker does\<close>

definition adds :: "(string \<times> money_laundry) set \<Rightarrow> middleware act \<Rightarrow> bool" where
  "adds N a \<longleftrightarrow> (\<forall>x. set (sent (fst (a x))) \<subseteq> set (sent x) \<union> N)"

lemma adds_call: "adds N (call id e)"
  by (auto simp: adds_def call_def split: list.splits bool.splits)

lemma adds_publish: "(k, m) \<in> N \<Longrightarrow> adds N (publish k m)"
  by (auto simp: adds_def publish_def call_def split: list.splits bool.splits)

lemma adds_then: "adds N a \<Longrightarrow> adds N b \<Longrightarrow> adds N (then_act a b)"
  unfolding adds_def
proof
  fix x
  assume A: "\<forall>x. set (sent (fst (a x))) \<subseteq> set (sent x) \<union> N" "\<forall>x. set (sent (fst (b x))) \<subseteq> set (sent x) \<union> N"
  show "set (sent (fst (then_act a b x))) \<subseteq> set (sent x) \<union> N"
    using A(1) [rule_format, of x] A(2) [rule_format, of "fst (a x)"]
    by (cases rule: then_act_cases [of a x b]) auto
qed

lemma adds_ok: "adds N ok"
  by (simp add: adds_def ok_def)

lemma adds_for_each: "(\<And>x. x \<in> set xs \<Longrightarrow> adds N (f x)) \<Longrightarrow> adds N (for_each f xs)"
  by (induction xs) (auto intro: adds_then adds_ok)

lemmas adds_intros = adds_call adds_publish adds_then adds_ok adds_for_each

lemma on_coordination_adds:
  assumes "adds N a" "P s" "\<And>x. set (sent x) \<subseteq> set (sent (coordination s)) \<union> N \<Longrightarrow> P (s\<lparr>coordination := x\<rparr>)"
  shows "P (fst (on_coordination a s))"
proof -
  have "fst (on_coordination a s) = s\<lparr>coordination := fst (a (coordination s))\<rparr>"
    by (simp add: on_coordination_def zoom_def split: prod.split)
  then show ?thesis using assms by (simp add: adds_def)
qed

text \<open>
  Hypervisor \<open>i\<close>, that followed \<open>l\<close>, follows \<open>l\<close> or itself; announcements leave it only when it leads.
\<close>

definition truthful :: "int \<Rightarrow> int \<Rightarrow> 'h bully \<Rightarrow> bool" where
  "truthful i l s \<longleftrightarrow> b_id s = i \<and> (leaderID s = l \<or> leaderID s = i) \<and>
     (\<forall>km\<in>set (sent (coordination s)). ml_type (snd km) = MT_COORDINATOR_HEARTBEAT \<longrightarrow>
        leaderID s = i \<and> snd km = coordinator_message i)"

lemma truthful_send_election: "preserves (truthful i l) (send_election p)"
proof (rule preservesI)
  fix s :: "'a bully"
  assume s: "truthful i l s"
  show "truthful i l (fst (send_election p s))"
    unfolding send_election_def
  proof (rule on_coordination_adds [where P = "truthful i l", OF _ s])
    show "adds {(routing_key p, election_message (b_id s))}
        (seq_acts [call id marshal_error, publish (routing_key p) (election_message (b_id s))])"
      by (auto intro!: adds_intros)
  qed (use s in \<open>auto simp: truthful_def\<close>)
qed

lemma truthful_send_ok: "preserves (truthful i l) (send_ok p)"
proof (rule preservesI)
  fix s :: "'a bully"
  assume s: "truthful i l s"
  show "truthful i l (fst (send_ok p s))"
    unfolding send_ok_def
  proof (rule on_coordination_adds [where P = "truthful i l", OF _ s])
    show "adds {(routing_key p, ok_message (b_id s))}
        (seq_acts [call id marshal_error, publish (routing_key p) (ok_message (b_id s))])"
      by (auto intro!: adds_intros)
  qed (use s in \<open>auto simp: truthful_def\<close>)
qed

lemma truthful_broadcast:
  assumes s: "truthful i l s" "leaderID s = i"
  shows "truthful i l (fst (broadcast_coordinator s))" "leaderID (fst (broadcast_coordinator s)) = i"
proof -
  let ?N = "UNIV \<times> {coordinator_message (b_id s)}"
  have "truthful i l (fst (broadcast_coordinator s)) \<and> leaderID (fst (broadcast_coordinator s)) = i"
    unfolding broadcast_coordinator_def
  proof (rule on_coordination_adds [where P = "\<lambda>s. truthful i l s \<and> leaderID s = i"])
    show "adds ?N (then_act (call id marshal_error)
        (for_each (\<lambda>peer. if peer = b_id s then ok else publish (routing_key peer) (coordinator_message (b_id s)))
          [0..b_count s - 1]))"
      by (auto intro!: adds_intros)
  qed (use s in \<open>auto simp: truthful_def\<close>)
  then show "truthful i l (fst (broadcast_coordinator s))" "leaderID (fst (broadcast_coordinator s)) = i" by auto
qed

lemma truthful_become_leader: "preserves (truthful i l) (become_leader lh)"
proof (rule preservesI)
  fix s :: "'a bully"
  assume s: "truthful i l s"
  let ?s = "s\<lparr>leaderID := b_id s, electionInProgress := False, gotAnswer := False,
      b_handler := fst (BecomeLeader lh (b_handler s)), lastLeaderSeen := clock s\<rparr>"
  have "truthful i l ?s" "leaderID ?s = i" using s by (auto simp: truthful_def)
  then have "truthful i l (fst (broadcast_coordinator ?s))" by (rule truthful_broadcast)
  then show "truthful i l (fst (become_leader lh s))"
    using s by (auto simp: become_leader_def ok_def then_act_def ignore_err_def on_handler_def zoom_def upd_def
        split: prod.split)
qed

lemma truthful_start_election: "preserves (truthful i l) (start_election lh)"
proof (rule preservesI)
  fix s :: "'a bully"
  assume s: "truthful i l s"
  have "preserves (truthful i l) (seq_acts
      [upd (\<lambda>s. s\<lparr>electionInProgress := True, gotAnswer := False\<rparr>),
       for_each (\<lambda>p. ignore_err (send_election p)) [b_id s + 1..b_count s - 1],
       if [b_id s + 1..b_count s - 1] = [] then become_leader lh
       else after_func (electionTimeout s) FinishElectionIfUnanswered])"
    by (intro preserves_seq)
       (auto intro!: pres_intros truthful_send_election truthful_become_leader simp: after_func_def truthful_def)
  then show "truthful i l (fst (start_election lh s))"
    using s by (auto simp: start_election_def ok_def dest: preservesD)
qed

lemma truthful_handle_election: "preserves (truthful i l) (handle_election lh p)"
proof (rule preservesI)
  fix s :: "'a bully"
  assume "truthful i l s"
  moreover have "preserves (truthful i l) (ignore_err (send_ok p))"
    "preserves (truthful i l) (seq_acts [ignore_err (send_ok p), start_election lh])"
    by (auto intro!: pres_intros truthful_send_ok truthful_start_election)
  ultimately show "truthful i l (fst (handle_election lh p s))"
    by (auto simp: handle_election_def ok_def dest: preservesD)
qed

lemma truthful_run_callback: "preserves (truthful i l) (run_callback lh f)"
proof (cases f)
  case FinishElectionIfUnanswered
  then show ?thesis
    using preservesD [OF truthful_become_leader, of i l]
    by (auto simp: preserves_def finish_election_if_unanswered_def ok_def)
qed (simp add: truthful_start_election)

lemma truthful_ticker_round: "truthful i l s \<Longrightarrow> truthful i l (fst (ticker_round lh s))"
  using preservesD [OF truthful_start_election] truthful_broadcast [of i l s]
  by (auto simp: ticker_round_def ignore_err_def) (simp_all add: truthful_def)

lemma truthful_idle: "b_id s = i \<Longrightarrow> sent (coordination s) = [] \<Longrightarrow> truthful i (leaderID s) s"
  by (simp add: truthful_def)

text \<open>After a message the hypervisor follows whom it followed, itself, or the one the message announces.\<close>

lemma truthful_handle_message:
  assumes "b_id s = i" "sent (coordination s) = []"
  shows "truthful i (if ml_type m = MT_COORDINATOR_HEARTBEAT then sint (get_heartbeat_leader m) else leaderID s)
    (fst (handle_message lh (Some m) s))"
  using truthful_idle [OF assms] preservesD [OF truthful_handle_election truthful_idle [OF assms]] assms
  by (auto simp: handle_message_def handle_ok_def upd_def handle_coordinator_up following_def ok_def
      split: message_type.split) (auto simp: truthful_def)

section \<open>Whoever is followed has led\<close>

definition has_led ::
  "'h leadership_handler \<Rightarrow> (int \<Rightarrow> bully_config) \<Rightarrow> (int \<Rightarrow> 'h) \<Rightarrow> 'h cluster \<Rightarrow> 'h cluster \<Rightarrow> int \<Rightarrow> bool" where
  "has_led lh conf h0 c0 c j \<longleftrightarrow> (\<exists>d. (cluster_step lh conf h0)\<^sup>*\<^sup>* c0 d \<and> (cluster_step lh conf h0)\<^sup>*\<^sup>* d c \<and>
     j \<in> set (live d) \<and> leaderID (node d j) = j)"

lemma has_led_step: "has_led lh conf h0 c0 c j \<Longrightarrow> cluster_step lh conf h0 c c' \<Longrightarrow> has_led lh conf h0 c0 c' j"
  unfolding has_led_def by (meson rtranclp.rtrancl_into_rtrancl)

definition honest :: "(int \<Rightarrow> bool) \<Rightarrow> 'h cluster \<Rightarrow> bool" where
  "honest led c \<longleftrightarrow>
     (\<forall>i\<in>set (live c). b_id (node c i) = i \<and> 0 \<le> i \<and> i < 2 ^ 31 \<and> sent (coordination (node c i)) = [] \<and>
        (leaderID (node c i) = -1 \<or> led (leaderID (node c i)))) \<and>
     (\<forall>qm\<in>set (net c). ml_type (snd qm) = MT_COORDINATOR_HEARTBEAT \<longrightarrow> led (sint (get_heartbeat_leader (snd qm))))"

lemma honestD:
  "honest led c \<Longrightarrow> i \<in> set (live c) \<Longrightarrow> b_id (node c i) = i \<and> 0 \<le> i \<and> i < 2 ^ 31 \<and>
     sent (coordination (node c i)) = [] \<and> (leaderID (node c i) = -1 \<or> led (leaderID (node c i)))"
  by (simp add: honest_def)

text \<open>
  A truthful operation of hypervisor \<open>i\<close>, which followed \<open>l\<close>, keeps the cluster honest when what it leads to
  counts \<open>i\<close> as a leader if it is one.
\<close>

lemma honest_hand_over:
  assumes c: "honest led c" and i: "i \<in> set (live c)" and s: "truthful i l s" and l: "l = -1 \<or> led l"
    and d: "live d = live c" "node d = node c" "set (net d) \<subseteq> set (net c)"
    and led': "\<And>j. led j \<Longrightarrow> led' j" "leaderID s = i \<Longrightarrow> led' i"
  shows "honest led' (hand_over i s d)"
proof -
  have "led' (sint (get_heartbeat_leader (snd qm)))"
    if "qm \<in> set (net (hand_over i s d))" "ml_type (snd qm) = MT_COORDINATOR_HEARTBEAT" for qm
  proof (cases "qm \<in> set (net d)")
    case True
    then show ?thesis using c d(3) that led'(1) by (auto simp: honest_def)
  next
    case False
    then have "qm \<in> set (concat (map (route (bindings d)) (sent (coordination s))))" using that(1) by simp
    then obtain km where "km \<in> set (sent (coordination s))" "snd qm = snd km" by (force simp: route_def)
    then show ?thesis using s that honestD [OF c i] led'(2) by (auto simp: truthful_def sint_of_id)
  qed
  moreover have "leaderID s = -1 \<or> led' (leaderID s)" using s l led' by (auto simp: truthful_def)
  moreover have "b_id s = i" using s by (simp add: truthful_def)
  ultimately show ?thesis using c d led' honestD [OF c i] by (auto simp: honest_def)
qed

lemma honest_change:
  assumes c: "honest led c" and i: "i \<in> set (live c)" and s: "truthful i (leaderID (node c i)) s"
    and led': "\<And>j. led j \<Longrightarrow> led' j" "leaderID s = i \<Longrightarrow> led' i"
  shows "honest led' (hand_over i s c)"
proof (rule honest_hand_over [OF c i s _ refl refl subset_refl])
  show "leaderID (node c i) = -1 \<or> led (leaderID (node c i))" using honestD [OF c i] by simp
qed (erule led')+

lemma bully_close_coordination:
  "fst (bully_close s) = s\<lparr>closed := True, coordination := coordination (fst (bully_close s))\<rparr> \<and>
   sent (coordination (fst (bully_close s))) = sent (coordination s)"
  by (simp add: bully_close_def then_act_def upd_def ok_def on_coordination_def zoom_def call_def
      split: list.split bool.split)

lemma start_hypervisor_fields:
  "b_id (start_hypervisor lh config h) = ID config" "leaderID (start_hypervisor lh config h) = -1"
  "sent (coordination (start_hypervisor lh config h)) = []"
  by (auto simp: start_hypervisor_def bully_run_def new_bully_coordinator_def on_handler_def on_coordination_def zoom_def
      exchange_set_up_def then_act_def call_def ticker_begins_def after_func_def upd_def ok_def split: prod.splits)

lemma honest_step:
  assumes step: "cluster_step lh conf h0 c c'" and c: "honest (has_led lh conf h0 c0 c) c"
    and run: "(cluster_step lh conf h0)\<^sup>*\<^sup>* c0 c" and conf: "\<And>i. Count (conf i) \<le> 2 ^ 31"
  shows "honest (has_led lh conf h0 c0 c') c'"
proof -
  let ?led = "has_led lh conf h0 c0 c" and ?led' = "has_led lh conf h0 c0 c'"
  have mono: "?led j \<Longrightarrow> ?led' j" for j using has_led_step [OF _ step] .
  have now: "?led' i" if "i \<in> set (live c')" "leaderID (node c' i) = i" for i
    using that step run unfolding has_led_def by (meson rtranclp.simps)
  note D = honestD [OF c]
  from step show ?thesis
  proof (cases rule: cluster_stepE)
    case Election
    then show ?thesis
    proof (cases rule: election_stepE)
      case (Deliver i m)
      let ?q = "coordination_queue (node c i)"
      let ?s = "fst (handle_message lh (Some m) (node c i))"
      let ?l = "if ml_type m = MT_COORDINATOR_HEARTBEAT then sint (get_heartbeat_leader m) else leaderID (node c i)"
      have "?l = -1 \<or> ?led ?l" using D [OF Deliver(2)] Deliver(3) c by (fastforce simp: honest_def)
      moreover have "truthful i ?l ?s" using D [OF Deliver(2)] by (intro truthful_handle_message) auto
      moreover have "set (net (taken (?q, m) c)) \<subseteq> set (net c)" by (simp add: set_remove1_subset)
      moreover have "?led' i" if "leaderID ?s = i" using now [of i] Deliver that by simp
      ultimately show ?thesis
        unfolding Deliver(1) by (intro honest_hand_over [OF c Deliver(2) _ _ _ _ _ mono [unfolded Deliver(1)]]) (use Deliver in auto)
    next
      case (Fire i d f)
      have "truthful i (leaderID (node c i)) (disarm (d, f) (node c i))"
        using D [OF Fire(2)] by (simp add: truthful_def)
      then have "truthful i (leaderID (node c i)) (fst (run_callback lh f (disarm (d, f) (node c i))))"
        by (rule preservesD [OF truthful_run_callback])
      from honest_change [OF c Fire(2) this] show ?thesis using now [of i] Fire mono by simp
    next
      case (Silence i)
      have "truthful i (leaderID (node c i)) (fst (ticker_round lh (node c i)))"
        using D [OF Silence(2)] by (intro truthful_ticker_round truthful_idle) auto
      from honest_change [OF c Silence(2) this] show ?thesis using now [of i] Silence mono by simp
    qed
  next
    case (Round i)
    have "truthful i (leaderID (node c i)) (fst (ticker_round lh (node c i)))"
      using D [OF Round(2)] by (intro truthful_ticker_round truthful_idle) auto
    from honest_change [OF c Round(2) this] show ?thesis using now [of i] Round mono by simp
  next
    case (Time i t)
    have "truthful i (leaderID (node c i)) ((node c i)\<lparr>clock := t\<rparr>)" using D [OF Time(2)] by (simp add: truthful_def)
    from honest_change [OF c Time(2) this] show ?thesis using now [of i] Time mono by simp
  next
    case (Faults i bs)
    have "truthful i (leaderID (node c i)) ((node c i)\<lparr>coordination := (coordination (node c i))\<lparr>outcomes := bs\<rparr>\<rparr>)"
      using D [OF Faults(2)] by (simp add: truthful_def)
    from honest_change [OF c Faults(2) this] show ?thesis using now [of i] Faults mono by simp
  next
    case (Stop i)
    have "truthful i (leaderID (node c i)) (fst (bully_close (node c i)))"
      using D [OF Stop(2)] bully_close_coordination [of "node c i"]
      by (metis (no_types, lifting) bully.select_convs bully.surjective bully.update_convs empty_iff list.set(1) truthful_def)
    from honest_change [OF c Stop(2) this] show ?thesis using now [of i] Stop mono by simp
  next
    case (Crash i)
    then show ?thesis using c mono by (auto simp: honest_def)
  next
    case (Restart i)
    have "i < 2 ^ 31" using Restart conf [of i] by linarith
    then show ?thesis using c mono Restart start_hypervisor_fields [of lh "conf i" "h0 i"]
      by (auto simp: honest_def join_def bind_queue_def)
  qed
qed

text \<open>
  C16. No hypervisor follows one that never took the lead: from an empty cluster, under crashes, restarts, timeouts at
  any time and every failure of the broker, the leader that a live hypervisor knows, if it knows one, was at some
  earlier moment of the run alive and its own leader. This holds for any assignment of queues.
\<close>

theorem followed_hypervisor_has_led:
  assumes "live c0 = []" "net c0 = []" "\<And>i. Count (conf i) \<le> 2 ^ 31"
    and "(cluster_step lh conf h0)\<^sup>*\<^sup>* c0 c" "i \<in> set (live c)"
  shows "leaderID (node c i) = -1 \<or> has_led lh conf h0 c0 c (leaderID (node c i))"
proof -
  have "honest (has_led lh conf h0 c0 c) c"
    using assms(4)
  proof (induction rule: rtranclp_induct)
    case base
    then show ?case using assms by (simp add: honest_def)
  next
    case (step c c')
    then show ?case using honest_step assms(3) by blast
  qed
  then show ?thesis using honestD assms(5) by blast
qed

text \<open>Hypervisor 2 of three starts alone and takes the lead.\<close>

theorem followed_hypervisor_has_led_witness:
  "\<forall>lh (h :: unit). \<exists>c. (cluster_step lh three (\<lambda>_. h))\<^sup>*\<^sup>* (idle_cluster h) c \<and> leaderID (node c 2) = 2 \<and>
     has_led lh three (\<lambda>_. h) (idle_cluster h) c 2"
proof (intro allI)
  fix lh and h :: unit
  let ?c1 = "join 2 (start_hypervisor lh (three 2) h) (idle_cluster h)"
  let ?c2 = "hand_over 2 (fst (run_callback lh StartElection (disarm (6, StartElection) (node ?c1 2)))) ?c1"
  have "cluster_step lh three (\<lambda>_. h) (idle_cluster h) ?c1"
    by (rule cluster_step.Restart) (simp_all add: idle_cluster_def three_def)
  moreover have "cluster_step lh three (\<lambda>_. h) ?c1 ?c2"
    by (intro cluster_step.Election election_step.Fire) (simp_all add: join_def bind_queue_def idle_cluster_def start_three)
  ultimately have run: "(cluster_step lh three (\<lambda>_. h))\<^sup>*\<^sup>* (idle_cluster h) ?c2"
    by (meson rtranclp.rtrancl_refl rtranclp.rtrancl_into_rtrancl)
  have two: "2 \<in> set (live ?c2)" "leaderID (node ?c2 2) = 2"
    by (simp_all add: join_def bind_queue_def idle_cluster_def start_three disarm_def start_election_up broker_up_def
        leading_def)
  have "leaderID (node ?c2 2) = -1 \<or> has_led lh three (\<lambda>_. h) (idle_cluster h) ?c2 (leaderID (node ?c2 2))"
    by (rule followed_hypervisor_has_led [OF _ _ _ run two(1)]) (simp_all add: idle_cluster_def three_def)
  then show "\<exists>c. (cluster_step lh three (\<lambda>_. h))\<^sup>*\<^sup>* (idle_cluster h) c \<and> leaderID (node c 2) = 2 \<and>
      has_led lh three (\<lambda>_. h) (idle_cluster h) c 2"
    using run two(2) by auto
qed

section \<open>An answer that nobody makes good\<close>

text \<open>A hypervisor in an election that was answered. It can still answer, and that is all.\<close>

definition answered :: "int \<Rightarrow> int \<Rightarrow> 'h bully \<Rightarrow> bool" where
  "answered i l s \<longleftrightarrow> b_id s = i \<and> leaderID s = l \<and> l \<noteq> i \<and> electionInProgress s \<and> gotAnswer s \<and>
     (\<forall>km\<in>set (sent (coordination s)). ml_type (snd km) \<noteq> MT_COORDINATOR_HEARTBEAT)"

lemma answered_start_election: "answered i l s \<Longrightarrow> start_election lh s = (s, None)"
  by (auto simp: answered_def start_election_same)

lemma answered_send_ok: "answered i l s \<Longrightarrow> answered i l (fst (send_ok p s))"
  unfolding send_ok_def
proof (rule on_coordination_adds [where P = "answered i l"])
  show "adds {(routing_key p, ok_message (b_id s))}
      (seq_acts [call id marshal_error, publish (routing_key p) (ok_message (b_id s))])"
    by (auto intro!: adds_intros)
qed (auto simp: answered_def)

lemma answered_handle_election: "answered i l s \<Longrightarrow> answered i l (fst (handle_election lh p s))"
  using answered_send_ok [of i l s p] answered_start_election [of i l "fst (send_ok p s)" lh]
  by (simp add: handle_election_def ignore_err_def then_act_def ok_def)

lemma answered_handle_message:
  "answered i l s \<Longrightarrow> ml_type m \<noteq> MT_COORDINATOR_HEARTBEAT \<Longrightarrow> answered i l (fst (handle_message lh (Some m) s))"
  using answered_handle_election [of i l s lh]
  by (auto simp: handle_message_def ok_def handle_ok_def upd_def split: message_type.split) (simp add: answered_def)

lemma answered_run_callback: "answered i l s \<Longrightarrow> run_callback lh f s = (s, None)"
  by (cases f) (simp_all add: answered_start_election, simp add: answered_def finish_election_if_unanswered_def ok_def)

lemma answered_ticker_round: "answered i l s \<Longrightarrow> fst (ticker_round lh s) = s"
  by (simp add: answered_def ticker_round_def)

definition leaderless :: "(int \<Rightarrow> int) \<Rightarrow> 'h cluster \<Rightarrow> bool" where
  "leaderless l c \<longleftrightarrow> (\<forall>i\<in>set (live c). answered i (l i) (node c i)) \<and>
     (\<forall>qm\<in>set (net c). ml_type (snd qm) \<noteq> MT_COORDINATOR_HEARTBEAT)"

lemma leaderless_hand_over:
  assumes "leaderless l c" "answered i (l i) s" "live d = live c" "node d = node c" "set (net d) \<subseteq> set (net c)"
  shows "leaderless l (hand_over i s d)"
proof -
  have "answered i (l i) (s\<lparr>coordination := (coordination s)\<lparr>sent := []\<rparr>\<rparr>)" using assms(2) by (simp add: answered_def)
  moreover have "ml_type (snd qm) \<noteq> MT_COORDINATOR_HEARTBEAT"
    if "qm \<in> set (concat (map (route (bindings d)) (sent (coordination s))))" for qm
    using that assms(2) by (force simp: route_def answered_def)
  ultimately show ?thesis using assms by (auto simp: leaderless_def)
qed

definition outage_step ::
  "'h leadership_handler \<Rightarrow> (int \<Rightarrow> bully_config) \<Rightarrow> (int \<Rightarrow> 'h) \<Rightarrow> 'h cluster \<Rightarrow> 'h cluster \<Rightarrow> bool" where
  "outage_step lh conf h0 c c' \<longleftrightarrow> cluster_step lh conf h0 c c' \<and> set (live c') \<subseteq> set (live c)"

lemma answered_close: "answered i l s \<Longrightarrow> answered i l (fst (bully_close s))"
  by (simp add: bully_close_def then_act_def upd_def ok_def on_coordination_def zoom_def call_def answered_def
      split: list.split bool.split)

lemma leaderless_step:
  assumes step: "outage_step lh conf h0 c c'" and c: "leaderless l c"
  shows "leaderless l c'"
proof -
  have A: "answered i (l i) (node c i)" if "i \<in> set (live c)" for i using c that by (simp add: leaderless_def)
  have stay: "leaderless l (hand_over i s c)" if "answered i (l i) s" for i s
    using leaderless_hand_over [OF c that] by simp
  from step have "cluster_step lh conf h0 c c'" "set (live c') \<subseteq> set (live c)" by (auto simp: outage_step_def)
  then show ?thesis
  proof (cases rule: cluster_stepE)
    case Election
    then show ?thesis
    proof (cases rule: election_stepE)
      case (Deliver i m)
      have "ml_type m \<noteq> MT_COORDINATOR_HEARTBEAT" using Deliver(3) c by (force simp: leaderless_def)
      then show ?thesis
        unfolding Deliver(1)
        by (intro leaderless_hand_over [OF c answered_handle_message [OF A [OF Deliver(2)]]])
           (auto dest: set_mp [OF set_remove1_subset])
    next
      case (Fire i d f)
      have "answered i (l i) (disarm (d, f) (node c i))" using A [OF Fire(2)] by (simp add: answered_def)
      with answered_run_callback [OF this, of lh f] show ?thesis unfolding Fire(1) by (intro stay) simp
    next
      case (Silence i)
      then show ?thesis using A [OF Silence(2)] by (simp add: leader_silent_def answered_def)
    qed
  next
    case (Round i)
    then show ?thesis using A [OF Round(2)] by (simp add: answered_ticker_round stay)
  next
    case (Time i t)
    have "answered i (l i) ((node c i)\<lparr>clock := t\<rparr>)" using A [OF Time(2)] by (simp add: answered_def)
    then show ?thesis unfolding Time(1) by (rule stay)
  next
    case (Faults i bs)
    have "answered i (l i) ((node c i)\<lparr>coordination := (coordination (node c i))\<lparr>outcomes := bs\<rparr>\<rparr>)"
      using A [OF Faults(2)] by (simp add: answered_def)
    then show ?thesis unfolding Faults(1) by (rule stay)
  next
    case (Stop i)
    then show ?thesis using A [OF Stop(2)] by (simp add: answered_close stay)
  next
    case (Crash i)
    then show ?thesis using c by (simp add: leaderless_def)
  next
    case (Restart i)
    then show ?thesis using \<open>set (live c') \<subseteq> set (live c)\<close> by (simp add: join_def)
  qed
qed

text \<open>
  C17. An answer that nobody makes good blocks the election for ever: when the questions of all live hypervisors have been
  answered and those who answered are gone without an announcement, no timeout, no message between the survivors
  and no passing of time gives them a leader. Each keeps the leader it knew, which is not itself, until some
  hypervisor is restarted: the flag \<open>electionInProgress\<close> is only cleared by an announcement.
\<close>

theorem answered_hypervisors_stay_leaderless:
  assumes "leaderless l c" "(outage_step lh conf h0)\<^sup>*\<^sup>* c c'" "i \<in> set (live c')"
  shows "leaderID (node c' i) = l i \<and> l i \<noteq> i \<and> electionInProgress (node c' i)"
proof -
  have "leaderless l c'" using assms(2,1) by (induction rule: rtranclp_induct) (auto intro: leaderless_step)
  then show ?thesis using assms(3) by (auto simp: leaderless_def answered_def)
qed

text \<open>
  Hypervisors 0 and 1 of three are left: the election of 0 was answered by 1 and that of 1 by 2, which then died. All
  timers have fired.
\<close>

definition survivors :: "unit cluster" where
  "survivors = (let s = (\<lambda>i. (start_hypervisor \<lparr>BecomeLeader = ok, MarkReady = ok\<rparr> (three i) ())\<lparr>armed := [],
       electionInProgress := True, gotAnswer := True\<rparr>)
     in join 0 (s 0) (join 1 (s 1) (idle_cluster ())))"

theorem answered_hypervisors_stay_leaderless_witness:
  "\<forall>lh t. \<exists>c. (outage_step lh three (\<lambda>_. ()))\<^sup>*\<^sup>* survivors c \<and> clock (node c 0) \<ge> t \<and> leaderID (node c 0) = -1"
proof (intro allI)
  fix lh t
  let ?c = "hand_over 0 ((node survivors 0)\<lparr>clock := max t 0\<rparr>) survivors"
  have live: "live survivors = [0, 1]" "clock (node survivors 0) = 0"
    by (simp_all add: survivors_def Let_def join_def bind_queue_def idle_cluster_def start_three List.insert_def)
  then have "outage_step lh three (\<lambda>_. ()) survivors ?c"
    by (simp add: outage_step_def cluster_step.Time)
  moreover have "leaderless (\<lambda>_. -1) survivors"
    by (simp add: leaderless_def answered_def survivors_def Let_def join_def bind_queue_def idle_cluster_def
        start_three List.insert_def)
  ultimately have "leaderID (node ?c 0) = -1"
    using answered_hypervisors_stay_leaderless [of "\<lambda>_. -1" survivors lh three "\<lambda>_. ()" ?c 0] live by auto
  then show "\<exists>c. (outage_step lh three (\<lambda>_. ()))\<^sup>*\<^sup>* survivors c \<and> clock (node c 0) \<ge> t \<and> leaderID (node c 0) = -1"
    using \<open>outage_step lh three (\<lambda>_. ()) survivors ?c\<close> by (intro exI [of _ ?c]) auto
qed

end
