(* ===== verification/Docker.thy ===== *)
theory Docker
  imports GoStrings
begin

text \<open>
  \<open>fault_hypervisor/config_loader\<close> and \<open>fault_hypervisor/runtime\<close>: which workers the configuration asks for, and
  the docker commands that create and restart them.

  Reading the file and parsing its YAML are outside: the result is the record \<open>config_file\<close>, or an error. The docker
  daemon is the parameter \<open>docker\<close>, a function from the arguments of the command and the state of the daemon to the
  new state and how the command ended. The machine keeps the daemon's state, the log of the commands, and the
  directories that were made; \<open>outcomes\<close> says which file operations fail.
\<close>

section \<open>The configuration\<close>

record worker_definition =
  ServiceName :: string
  WorkerType :: string
  WorkerExchangeName :: string
  WorkerCount :: int
  Env :: "(string, string) gomap"
  LogLevel :: string
  MaxBatchSize :: int

record service_config =
  sc_Count :: int
  sc_WorkerType :: string
  sc_WorkerExchangeName :: string
  sc_Env :: "(string, string) gomap"

record config_file =
  GlobalLogLevel :: string
  Services :: "(string, service_config) gomap"
  GlobalWorkerBatchSize :: int

definition is_worker :: "string \<Rightarrow> service_config \<Rightarrow> bool" where
  "is_worker serviceName service \<longleftrightarrow> (if serviceName = ''client'' then False else sc_WorkerType service \<noteq> [])"

definition worker_of_service :: "config_file \<Rightarrow> string \<Rightarrow> service_config \<Rightarrow> worker_definition" where
  "worker_of_service cfg serviceName service =
     \<lparr>ServiceName = serviceName, WorkerType = sc_WorkerType service,
      WorkerExchangeName =
        (if sc_WorkerExchangeName service = [] then sc_WorkerType service else sc_WorkerExchangeName service),
      WorkerCount = sc_Count service, Env = sc_Env service, LogLevel = GlobalLogLevel cfg,
      MaxBatchSize = GlobalWorkerBatchSize cfg\<rparr>"

definition load_workers_from_config :: "go_error + config_file \<Rightarrow> go_error + worker_definition list" where
  "load_workers_from_config parsed =
     (case parsed of
        Inl e \<Rightarrow> Inl e
      | Inr cfg \<Rightarrow> Inr (map (\<lambda>ns. worker_of_service cfg (fst ns) (snd ns))
          (filter (\<lambda>ns. is_worker (fst ns) (snd ns)) (Services cfg))))"

definition worker_name :: "string \<Rightarrow> int \<Rightarrow> string" where
  "worker_name service i = service @ ''_'' @ show_int i"

definition expand_workers :: "worker_definition list \<Rightarrow> string list" where
  "expand_workers defs = concat (map (\<lambda>def. map (worker_name (ServiceName def)) [0..WorkerCount def - 1]) defs)"

section \<open>Docker\<close>

datatype cmd_result =
    Exited      \<comment> \<open>status 0\<close>
  | ExitError   \<comment> \<open>another status\<close>
  | NotRun      \<comment> \<open>the command could not be run\<close>

type_synonym 'w docker = "string list \<Rightarrow> 'w \<Rightarrow> 'w \<times> cmd_result"

record 'w machine = env +
  daemon :: 'w
  commands :: "string list list"
  directories :: "string list"

record runtime_config =
  NetworkName :: string
  WorkerImage :: string
  MomPort :: int
  HeartbeatQueueName :: string
  rc_HeartbeatInterval :: int
  WorkerDockerfile :: string
  BuildContext :: string
  HypervisorWorkerStoragePath :: string
  WorkerStoragePath :: string

record docker_runtime =
  rt_config :: runtime_config
  rt_gateway :: string

definition exec_docker :: "'w docker \<Rightarrow> string list \<Rightarrow> 'w machine \<Rightarrow> 'w machine \<times> cmd_result" where
  "exec_docker docker args m =
     (case docker args (daemon m) of (w, r) \<Rightarrow> (m\<lparr>daemon := w, commands := commands m @ [args]\<rparr>, r))"

definition docker_error :: "cmd_result \<Rightarrow> go_error option" where
  "docker_error r = (if r = Exited then None else Some ErrRuntime)"

definition docker_act :: "'w docker \<Rightarrow> string list \<Rightarrow> 'w machine act" where
  "docker_act docker args m = (case exec_docker docker args m of (m', r) \<Rightarrow> (m', docker_error r))"

text \<open>\<open>docker inspect\<close>: a status other than 0 means that there is no such thing.\<close>

definition docker_exists :: "'w docker \<Rightarrow> string list \<Rightarrow> 'w machine \<Rightarrow> 'w machine \<times> (go_error + bool)" where
  "docker_exists docker args m =
     (case exec_docker docker args m of
        (m', Exited) \<Rightarrow> (m', Inr True)
      | (m', ExitError) \<Rightarrow> (m', Inr False)
      | (m', NotRun) \<Rightarrow> (m', Inl ErrRuntime))"

text \<open>\<open>filepath.Clean\<close> and \<open>filepath.Join\<close> of two elements.\<close>

fun clean_parts :: "bool \<Rightarrow> string list \<Rightarrow> string list \<Rightarrow> string list" where
  "clean_parts rooted acc [] = rev acc"
| "clean_parts rooted acc (p # ps) =
     (if p = [] \<or> p = ''.'' then clean_parts rooted acc ps
      else if p = ''..'' then
        (case acc of
           [] \<Rightarrow> clean_parts rooted (if rooted then [] else [p]) ps
         | a # as \<Rightarrow> if a = ''..'' then clean_parts rooted (p # acc) ps else clean_parts rooted as ps)
      else clean_parts rooted (p # acc) ps)"

fun slashed :: "string list \<Rightarrow> string" where
  "slashed [] = []"
| "slashed [p] = p"
| "slashed (p # ps) = p @ ''/'' @ slashed ps"

definition clean_path :: "string \<Rightarrow> string" where
  "clean_path p =
     (let rooted = take 1 p = ''/''; r = (if rooted then ''/'' else []) @ slashed (clean_parts rooted [] (split_on (CHR ''/'') p))
      in if r = [] then ''.'' else r)"

definition filepath_join :: "string \<Rightarrow> string \<Rightarrow> string" where
  "filepath_join a b =
     (let es = filter (\<lambda>e. e \<noteq> []) [a, b] in if es = [] then [] else clean_path (slashed es))"

definition worker_storage_path :: "docker_runtime \<Rightarrow> string \<Rightarrow> string" where
  "worker_storage_path r name =
     filepath_join (if HypervisorWorkerStoragePath (rt_config r) = [] then ''/worker-storage''
       else HypervisorWorkerStoragePath (rt_config r)) name"

definition mkdir_all :: "string \<Rightarrow> 'w machine act" where
  "mkdir_all path = call (\<lambda>m. m\<lparr>directories := directories m @ [path]\<rparr>) ErrWrite"

definition worker_storage_mount_path :: "docker_runtime \<Rightarrow> string" where
  "worker_storage_mount_path r =
     (if WorkerStoragePath (rt_config r) = [] then ''/storage'' else WorkerStoragePath (rt_config r))"

definition env_option :: "string \<Rightarrow> string \<Rightarrow> string list" where
  "env_option key v = [''-e'', key @ ''='' @ v]"

definition create_args :: "docker_runtime \<Rightarrow> string \<Rightarrow> int \<Rightarrow> worker_definition \<Rightarrow> string list" where
  "create_args r name workerID def =
     [''run'', ''-d'', ''--name'', name, ''--network'', NetworkName (rt_config r),
      ''-v'', worker_storage_path r name @ '':'' @ worker_storage_mount_path r] @
     env_option ''HEARTBEAT_QUEUE_NAME'' (HeartbeatQueueName (rt_config r)) @
     env_option ''HEARTBEAT_INTERVAL_SECONDS'' (show_int (rc_HeartbeatInterval (rt_config r))) @
     env_option ''ID'' (show_int workerID) @
     env_option ''CONTAINER_NAME'' name @
     env_option ''WORKER_TYPE'' (WorkerType def) @
     env_option ''MOM_HOST'' (rt_gateway r) @
     env_option ''MOM_PORT'' (show_int (MomPort (rt_config r))) @
     env_option ''WORKER_COUNT'' (show_int (WorkerCount def)) @
     env_option ''WORKER_EXCHANGE_NAME'' (WorkerExchangeName def) @
     env_option ''LOG_LEVEL'' (LogLevel def) @
     env_option ''MAX_BATCH_WEIGHT'' (show_int (MaxBatchSize def)) @
     env_option ''WORKER_STORAGE_PATH'' (worker_storage_mount_path r) @
     concat (map (\<lambda>kv. env_option (fst kv) (snd kv)) (Env def)) @
     [WorkerImage (rt_config r)]"

definition create_worker ::
  "'w docker \<Rightarrow> docker_runtime \<Rightarrow> string \<Rightarrow> int \<Rightarrow> worker_definition \<Rightarrow> 'w machine act" where
  "create_worker docker r name workerID def =
     seq_acts [mkdir_all (worker_storage_path r name), docker_act docker (create_args r name workerID def)]"

definition container_exists :: "'w docker \<Rightarrow> string \<Rightarrow> 'w machine \<Rightarrow> 'w machine \<times> (go_error + bool)" where
  "container_exists docker name = docker_exists docker [''inspect'', name]"

definition restart_worker :: "'w docker \<Rightarrow> string \<Rightarrow> 'w machine act" where
  "restart_worker docker name = docker_act docker [''restart'', name]"

definition build_worker_image :: "'w docker \<Rightarrow> docker_runtime \<Rightarrow> 'w machine act" where
  "build_worker_image docker r =
     docker_act docker [''build'', ''-t'', ''tp-worker'', ''-f'', WorkerDockerfile (rt_config r), BuildContext (rt_config r)]"

definition image_exists :: "'w docker \<Rightarrow> docker_runtime \<Rightarrow> 'w machine \<Rightarrow> 'w machine \<times> (go_error + bool)" where
  "image_exists docker r = docker_exists docker [''image'', ''inspect'', WorkerImage (rt_config r)]"

definition ensure_network :: "'w docker \<Rightarrow> docker_runtime \<Rightarrow> 'w machine act" where
  "ensure_network docker r m =
     (case exec_docker docker [''network'', ''inspect'', NetworkName (rt_config r)] m of
        (m', Exited) \<Rightarrow> ok m'
      | (m', _) \<Rightarrow> docker_act docker [''network'', ''create'', NetworkName (rt_config r)] m')"

text \<open>
  \<open>discoverGateway\<close> takes the third field of the routing table's default line; \<open>None\<close> is a command that failed.
\<close>

fun fields_of :: "string \<Rightarrow> string \<Rightarrow> string list" where
  "fields_of cur [] = (if cur = [] then [] else [cur])"
| "fields_of cur (c # s) =
     (if c \<in> {SP, NL, CR, CHR 0x09, CHR 0x0B, CHR 0x0C} then (if cur = [] then [] else [cur]) @ fields_of [] s
      else fields_of (cur @ [c]) s)"

definition discover_gateway :: "string option \<Rightarrow> go_error + string" where
  "discover_gateway output =
     (case output of
        None \<Rightarrow> Inl ErrRuntime
      | Some out \<Rightarrow>
          let fields = fields_of [] out
          in if length fields < 3 then Inl (ErrOther ''unable to parse gateway'') else Inr (fields ! 2))"

definition new_docker_runtime :: "runtime_config \<Rightarrow> string option \<Rightarrow> go_error + docker_runtime" where
  "new_docker_runtime config output =
     (case discover_gateway output of Inl e \<Rightarrow> Inl e | Inr g \<Rightarrow> Inr \<lparr>rt_config = config, rt_gateway = g\<rparr>)"

end
