(* ===== verification/Hypervisor.thy ===== *)
theory Hypervisor
  imports Docker Bully
begin

text \<open>
  \<open>fault_hypervisor.go\<close>: the hypervisor that leads watches the workers. It creates the missing ones, hears their
  heartbeats and restarts those that are silent. \<open>workers/heartbeat\<close> is the other side.

  The state keeps the workers by container name, the machine of \<open>Docker\<close>, and what \<open>BecomeLeader\<close> starts: the
  monitoring (\<open>monitorOnce\<close>) and the heartbeat consumers. Times are nanoseconds; a \<open>LastSeen\<close> of \<open>None\<close> is the zero
  \<open>time.Time\<close>, from which \<open>Sub\<close> saturates. A worker in the list of dead ones is its entry in the map, as the
  code's pointer is.
\<close>

section \<open>The state\<close>

record worker_status =
  ContainerName :: string
  WorkerID :: int
  Definition :: worker_definition
  LastSeen :: "int option"
  IsAlive :: bool

record 'w fault_hypervisor =
  CheckIntervalSeconds :: int
  HeartbeatTimeoutSeconds :: int
  fh_workers :: "(string, worker_status) gomap"
  fh_runtime :: docker_runtime
  machine_of :: "'w machine"
  monitoring :: bool
  ready_done :: bool
  ready_files :: nat
  heartbeat_consumers :: nat

definition on_machine :: "'w machine act \<Rightarrow> 'w fault_hypervisor act" where
  "on_machine = zoom machine_of (\<lambda>m fh. fh\<lparr>machine_of := m\<rparr>)"

definition max_duration :: int where
  "max_duration = 9223372036854775807"

definition since :: "int \<Rightarrow> int option \<Rightarrow> int" where
  "since now t = (case t of None \<Rightarrow> max_duration | Some u \<Rightarrow> now - u)"

definition new_worker :: "worker_definition \<Rightarrow> int \<Rightarrow> worker_status" where
  "new_worker def i = \<lparr>ContainerName = worker_name (ServiceName def) i, WorkerID = i, Definition = def, LastSeen = None,
     IsAlive = False\<rparr>"

definition load_workers ::
  "go_error + worker_definition list \<Rightarrow> go_error + (string, worker_status) gomap" where
  "load_workers loaded =
     (case loaded of
        Inl e \<Rightarrow> Inl e
      | Inr defs \<Rightarrow> Inr (fold (\<lambda>def m. fold (\<lambda>i. mput (worker_name (ServiceName def) i) (new_worker def i))
          [0..WorkerCount def - 1] m) defs []))"

definition new_fault_hypervisor ::
  "int \<Rightarrow> int \<Rightarrow> (string, worker_status) gomap \<Rightarrow> docker_runtime \<Rightarrow> 'w \<Rightarrow> 'w fault_hypervisor" where
  "new_fault_hypervisor interval timeout ws r d =
     \<lparr>CheckIntervalSeconds = interval, HeartbeatTimeoutSeconds = timeout, fh_workers = ws, fh_runtime = r,
      machine_of = \<lparr>outcomes = [], daemon = d, commands = [], directories = []\<rparr>,
      monitoring = False, ready_done = False, ready_files = 0, heartbeat_consumers = 0\<rparr>"

text \<open>\<open>initializeRuntime\<close>, the first thing \<open>Run\<close> does.\<close>

definition initialize_runtime :: "'w docker \<Rightarrow> 'w fault_hypervisor act" where
  "initialize_runtime docker fh = then_act (on_machine (ensure_network docker (fh_runtime fh)))
     (\<lambda>fh. case image_exists docker (fh_runtime fh) (machine_of fh) of
        (m, Inl e) \<Rightarrow> (fh\<lparr>machine_of := m\<rparr>, Some e)
      | (m, Inr True) \<Rightarrow> (fh\<lparr>machine_of := m\<rparr>, None)
      | (m, Inr False) \<Rightarrow> on_machine (build_worker_image docker (fh_runtime fh)) (fh\<lparr>machine_of := m\<rparr>)) fh"

section \<open>Heartbeats\<close>

text \<open>\<open>None\<close> is a body that does not unmarshal; \<open>GetHeartbeat\<close> is nil when the message is something else.\<close>

definition extract_heartbeat :: "money_laundry option \<Rightarrow> string option" where
  "extract_heartbeat msg = (case msg of None \<Rightarrow> None | Some m \<Rightarrow> get_heartbeat m)"

definition register_heartbeat :: "int \<Rightarrow> string \<Rightarrow> 'w fault_hypervisor \<Rightarrow> 'w fault_hypervisor \<times> bool" where
  "register_heartbeat now name fh =
     (case mget (fh_workers fh) name of
        None \<Rightarrow> (fh, False)
      | Some w \<Rightarrow> (fh\<lparr>fh_workers := mput name (w\<lparr>LastSeen := Some now, IsAlive := True\<rparr>) (fh_workers fh)\<rparr>, True))"

definition handle_heartbeat ::
  "int \<Rightarrow> money_laundry option \<Rightarrow> 'w fault_hypervisor \<Rightarrow> 'w fault_hypervisor \<times> settled" where
  "handle_heartbeat now msg fh =
     (case extract_heartbeat msg of
        None \<Rightarrow> (fh, Nacked)
      | Some name \<Rightarrow> (case register_heartbeat now name fh of
            (fh', registered) \<Rightarrow> (fh', if registered then Acked else Nacked)))"

text \<open>\<open>publishHeartbeat\<close> of the worker.\<close>

definition heartbeat_message :: "string \<Rightarrow> money_laundry" where
  "heartbeat_message name = proto_message [] MT_HEARTBEAT (HeartbeatMsg name) []"

definition publish_heartbeat :: "string \<Rightarrow> middleware act" where
  "publish_heartbeat name = ignore_err (seq_acts [call id marshal_error, send_all (heartbeat_message name)])"

section \<open>Monitoring\<close>

definition seconds :: "int \<Rightarrow> int" where
  "seconds n = n * 1000000000"

definition is_late :: "int \<Rightarrow> int \<Rightarrow> worker_status \<Rightarrow> bool" where
  "is_late now timeout w \<longleftrightarrow> IsAlive w \<and> since now (LastSeen w) > timeout"

definition mark_dead :: "int \<Rightarrow> int \<Rightarrow> worker_status \<Rightarrow> worker_status" where
  "mark_dead now timeout w = (if is_late now timeout w then w\<lparr>IsAlive := False\<rparr> else w)"

definition is_dead :: "int \<Rightarrow> int \<Rightarrow> worker_status \<Rightarrow> bool" where
  "is_dead now timeout w \<longleftrightarrow> is_late now timeout w \<or> \<not> IsAlive w"

definition handle_dead_worker :: "'w docker \<Rightarrow> string \<Rightarrow> 'w fault_hypervisor \<Rightarrow> 'w fault_hypervisor" where
  "handle_dead_worker docker name fh =
     (case on_machine (restart_worker docker name) fh of
        (fh', Some e) \<Rightarrow> fh'
      | (fh', None) \<Rightarrow>
          (case mget (fh_workers fh') name of
             None \<Rightarrow> fh'
           | Some w \<Rightarrow> fh'\<lparr>fh_workers := mput name (w\<lparr>IsAlive := True\<rparr>) (fh_workers fh')\<rparr>))"

definition check_workers :: "'w docker \<Rightarrow> int \<Rightarrow> 'w fault_hypervisor \<Rightarrow> 'w fault_hypervisor" where
  "check_workers docker now fh =
     (let timeout = seconds (HeartbeatTimeoutSeconds fh);
          dead = map fst (filter (\<lambda>nw. is_dead now timeout (snd nw)) (fh_workers fh));
          fh' = fh\<lparr>fh_workers := map (\<lambda>nw. (fst nw, mark_dead now timeout (snd nw))) (fh_workers fh)\<rparr>
      in fold (handle_dead_worker docker) dead fh')"

section \<open>Taking the lead\<close>

definition start_worker :: "'w docker \<Rightarrow> worker_status \<Rightarrow> 'w fault_hypervisor act" where
  "start_worker docker w fh =
     (case container_exists docker (ContainerName w) (machine_of fh) of
        (m, Inl e) \<Rightarrow> (fh\<lparr>machine_of := m\<rparr>, Some e)
      | (m, Inr True) \<Rightarrow> (fh\<lparr>machine_of := m\<rparr>, None)
      | (m, Inr False) \<Rightarrow>
          on_machine (create_worker docker (fh_runtime fh) (ContainerName w) (WorkerID w) (Definition w))
            (fh\<lparr>machine_of := m\<rparr>))"

definition start_workers :: "'w docker \<Rightarrow> 'w fault_hypervisor act" where
  "start_workers docker fh = for_each (\<lambda>nw. start_worker docker (snd nw)) (fh_workers fh) fh"

definition mark_ready :: "'w fault_hypervisor act" where
  "mark_ready fh =
     (if ready_done fh then ok fh
      else case on_machine (call id ErrWrite) (fh\<lparr>ready_done := True\<rparr>) of
        (fh', None) \<Rightarrow> (fh'\<lparr>ready_files := Suc (ready_files fh')\<rparr>, None)
      | (fh', Some e) \<Rightarrow> (fh', Some e))"

definition fh_become_leader :: "'w docker \<Rightarrow> 'w fault_hypervisor act" where
  "fh_become_leader docker = seq_acts
     [start_workers docker,
      upd (\<lambda>fh. fh\<lparr>fh_workers := map (\<lambda>nw. (fst nw, (snd nw)\<lparr>LastSeen := None, IsAlive := False\<rparr>)) (fh_workers fh)\<rparr>),
      upd (\<lambda>fh. fh\<lparr>monitoring := True\<rparr>),
      mark_ready,
      upd (\<lambda>fh. fh\<lparr>heartbeat_consumers := Suc (heartbeat_consumers fh)\<rparr>)]"

definition fh_leadership :: "'w docker \<Rightarrow> 'w fault_hypervisor leadership_handler" where
  "fh_leadership docker = \<lparr>BecomeLeader = fh_become_leader docker, MarkReady = mark_ready\<rparr>"

section \<open>What a check does\<close>

text \<open>Which restarts succeed, one after the other.\<close>

fun restart_results :: "'w docker \<Rightarrow> string list \<Rightarrow> 'w \<Rightarrow> (string \<times> bool) list" where
  "restart_results docker [] d = []"
| "restart_results docker (n # ns) d =
     (case docker [''restart'', n] d of (d', r) \<Rightarrow> (n, r = Exited) # restart_results docker ns d')"

definition dead_workers :: "int \<Rightarrow> 'w fault_hypervisor \<Rightarrow> string list" where
  "dead_workers now fh =
     map fst (filter (\<lambda>nw. is_dead now (seconds (HeartbeatTimeoutSeconds fh)) (snd nw)) (fh_workers fh))"

lemma names_of_restarts: "map fst (restart_results docker ns d) = ns"
  by (induction ns arbitrary: d) (auto split: prod.split)

lemma handle_dead_worker_effect:
  assumes "mget (fh_workers fh) n = Some w"
  shows "handle_dead_worker docker n fh = (case docker [''restart'', n] (daemon (machine_of fh)) of (d, r) \<Rightarrow>
    fh\<lparr>machine_of := (machine_of fh)\<lparr>daemon := d, commands := commands (machine_of fh) @ [[''restart'', n]]\<rparr>,
       fh_workers := (if r = Exited then mput n (w\<lparr>IsAlive := True\<rparr>) (fh_workers fh) else fh_workers fh)\<rparr>)"
  using assms by (simp add: handle_dead_worker_def on_machine_def zoom_def restart_worker_def docker_act_def exec_docker_def
      docker_error_def split: prod.split)

lemma keys_mput_same: "mget m k = Some v \<Longrightarrow> mkeys (mput k v' m) = mkeys m"
  by (induction m) auto

definition silent_among :: "string list \<Rightarrow> (string, worker_status) gomap \<Rightarrow> bool" where
  "silent_among ns ws \<longleftrightarrow> distinct ns \<and> (\<forall>n\<in>set ns. \<exists>w. mget ws n = Some w \<and> \<not> IsAlive w)"

lemma handle_dead_worker_step:
  assumes "silent_among (n # ns) (fh_workers fh)"
  obtains w d r where "mget (fh_workers fh) n = Some w" "\<not> IsAlive w"
    "docker [''restart'', n] (daemon (machine_of fh)) = (d, r)"
    "daemon (machine_of (handle_dead_worker docker n fh)) = d"
    "commands (machine_of (handle_dead_worker docker n fh)) = commands (machine_of fh) @ [[''restart'', n]]"
    "\<And>m. mget (fh_workers (handle_dead_worker docker n fh)) m =
      (if m = n then Some (w\<lparr>IsAlive := r = Exited\<rparr>) else mget (fh_workers fh) m)"
    "mkeys (fh_workers (handle_dead_worker docker n fh)) = mkeys (fh_workers fh)"
    "HeartbeatTimeoutSeconds (handle_dead_worker docker n fh) = HeartbeatTimeoutSeconds fh"
    "silent_among ns (fh_workers (handle_dead_worker docker n fh))"
proof -
  obtain w where w: "mget (fh_workers fh) n = Some w" "\<not> IsAlive w" using assms by (auto simp: silent_among_def)
  obtain d r where dr: "docker [''restart'', n] (daemon (machine_of fh)) = (d, r)" by (cases "docker [''restart'', n] (daemon (machine_of fh))")
  have same: "w\<lparr>IsAlive := False\<rparr> = w" using w(2) by (cases w) simp
  have keys: "mkeys (mput n v (fh_workers fh)) = mkeys (fh_workers fh)" for v
    using w(1) by (metis keys_mput_same)
  note e = handle_dead_worker_effect [OF w(1), of docker] dr
  have get: "mget (fh_workers (handle_dead_worker docker n fh)) m =
      (if m = n then Some (w\<lparr>IsAlive := r = Exited\<rparr>) else mget (fh_workers fh) m)" for m
    using e w same by (simp add: mget_mput)
  show ?thesis
  proof (rule that [OF w dr])
    show "silent_among ns (fh_workers (handle_dead_worker docker n fh))"
      using assms by (auto simp: silent_among_def get)
  qed (use e get keys in auto)
qed

lemma restart_all_commands:
  "silent_among ns (fh_workers fh) \<Longrightarrow> commands (machine_of (fold (handle_dead_worker docker) ns fh)) =
     commands (machine_of fh) @ map (\<lambda>n. [''restart'', n]) ns"
proof (induction ns arbitrary: fh)
  case (Cons n ns)
  from Cons.prems show ?case
    by (rule handle_dead_worker_step [where docker = docker]) (simp add: Cons.IH)
qed simp

lemma restart_all_fields:
  "silent_among ns (fh_workers fh) \<Longrightarrow>
   HeartbeatTimeoutSeconds (fold (handle_dead_worker docker) ns fh) = HeartbeatTimeoutSeconds fh \<and>
   mkeys (fh_workers (fold (handle_dead_worker docker) ns fh)) = mkeys (fh_workers fh)"
proof (induction ns arbitrary: fh)
  case (Cons n ns)
  from Cons.prems show ?case
    by (rule handle_dead_worker_step [where docker = docker]) (simp add: Cons.IH)
qed simp

lemma restart_all_workers:
  "silent_among ns (fh_workers fh) \<Longrightarrow> mget (fh_workers (fold (handle_dead_worker docker) ns fh)) m =
     map_option (\<lambda>w. if m \<in> set ns
       then w\<lparr>IsAlive := (m, True) \<in> set (restart_results docker ns (daemon (machine_of fh)))\<rparr> else w)
     (mget (fh_workers fh) m)"
proof (induction ns arbitrary: fh)
  case Nil
  then show ?case by (simp add: option.map_ident)
next
  case (Cons n ns)
  have n: "n \<notin> set ns" using Cons.prems by (simp add: silent_among_def)
  then have fresh: "(n, b) \<notin> set (restart_results docker ns d)" for b d
    by (metis names_of_restarts fst_conv image_eqI list.set_map)
  from Cons.prems show ?case
  proof (rule handle_dead_worker_step [where docker = docker])
    fix w d r
    assume A: "docker [''restart'', n] (daemon (machine_of fh)) = (d, r)"
      "daemon (machine_of (handle_dead_worker docker n fh)) = d"
      "\<And>m. mget (fh_workers (handle_dead_worker docker n fh)) m =
        (if m = n then Some (w\<lparr>IsAlive := r = Exited\<rparr>) else mget (fh_workers fh) m)"
      "mget (fh_workers fh) n = Some w" "silent_among ns (fh_workers (handle_dead_worker docker n fh))"
    show ?thesis
      using Cons.IH [OF A(5)] A n fresh by (cases "m = n") (auto simp: option.map_ident intro!: option.map_cong)
  qed
qed

lemma mget_map_values: "mget (map (\<lambda>nw. (fst nw, f (snd nw))) m) k = map_option f (mget m k)"
  by (induction m) auto

lemma dead_workers_iff:
  assumes "wf_map (fh_workers fh)"
  shows "n \<in> set (dead_workers now fh) \<longleftrightarrow>
    (\<exists>w. mget (fh_workers fh) n = Some w \<and> is_dead now (seconds (HeartbeatTimeoutSeconds fh)) w)"
  using assms by (force simp: dead_workers_def wf_map_def map_of_eq_Some_iff)

definition marked :: "int \<Rightarrow> 'w fault_hypervisor \<Rightarrow> (string, worker_status) gomap" where
  "marked now fh = map (\<lambda>nw. (fst nw, mark_dead now (seconds (HeartbeatTimeoutSeconds fh)) (snd nw))) (fh_workers fh)"

lemma mget_marked: "mget (marked now fh) n = map_option (mark_dead now (seconds (HeartbeatTimeoutSeconds fh))) (mget (fh_workers fh) n)"
  by (simp add: marked_def mget_map_values)

lemma mkeys_marked: "mkeys (marked now fh) = mkeys (fh_workers fh)"
  by (simp add: marked_def)

lemma dead_silent:
  assumes wf: "wf_map (fh_workers fh)"
  shows "silent_among (dead_workers now fh) (marked now fh)"
  unfolding silent_among_def
proof (intro conjI ballI)
  show "distinct (dead_workers now fh)"
    using wf by (simp add: dead_workers_def wf_map_def distinct_map_filter)
  fix n
  assume "n \<in> set (dead_workers now fh)"
  then obtain w where "mget (fh_workers fh) n = Some w" "is_dead now (seconds (HeartbeatTimeoutSeconds fh)) w"
    using dead_workers_iff [OF wf] by blast
  then show "\<exists>w. mget (marked now fh) n = Some w \<and> \<not> IsAlive w"
    by (auto simp: mget_marked is_dead_def mark_dead_def is_late_def)
qed

lemma check_workers_fold:
  "check_workers docker now fh =
     fold (handle_dead_worker docker) (dead_workers now fh) (fh\<lparr>fh_workers := marked now fh\<rparr>)"
  by (simp add: check_workers_def marked_def dead_workers_def Let_def)

definition restarts_of :: "'w docker \<Rightarrow> int \<Rightarrow> 'w fault_hypervisor \<Rightarrow> (string \<times> bool) list" where
  "restarts_of docker now fh = restart_results docker (dead_workers now fh) (daemon (machine_of fh))"

lemma check_commands:
  assumes "wf_map (fh_workers fh)"
  shows "commands (machine_of (check_workers docker now fh)) =
    commands (machine_of fh) @ map (\<lambda>n. [''restart'', n]) (dead_workers now fh)"
  using dead_silent [OF assms] by (simp add: check_workers_fold restart_all_commands)

lemma check_fields:
  assumes "wf_map (fh_workers fh)"
  shows "HeartbeatTimeoutSeconds (check_workers docker now fh) = HeartbeatTimeoutSeconds fh"
    and "wf_map (fh_workers (check_workers docker now fh))"
  using dead_silent [OF assms, of now] assms
  by (simp_all add: check_workers_fold restart_all_fields wf_map_def mkeys_marked)

lemma check_worker:
  assumes wf: "wf_map (fh_workers fh)" and w: "mget (fh_workers fh) n = Some w"
  shows "mget (fh_workers (check_workers docker now fh)) n = Some (w\<lparr>IsAlive :=
    (is_dead now (seconds (HeartbeatTimeoutSeconds fh)) w \<longrightarrow> (n, True) \<in> set (restarts_of docker now fh))\<rparr>)"
proof -
  have "n \<in> set (dead_workers now fh) \<longleftrightarrow> is_dead now (seconds (HeartbeatTimeoutSeconds fh)) w"
    using dead_workers_iff [OF wf] w by simp
  moreover have "w\<lparr>IsAlive := True\<rparr> = w" if "IsAlive w" using that by (cases w) simp
  ultimately show ?thesis
    using dead_silent [OF wf, of now] w
    by (auto simp: check_workers_fold restart_all_workers mget_marked restarts_of_def mark_dead_def is_dead_def is_late_def)
qed

text \<open>
  C38. A check restarts exactly the workers that are dead, one command each in the order of the map: those not
  alive and those not heard of for longer than the timeout. Afterwards a dead worker counts as alive when and only
  when its restart succeeded, and the other workers are as before.
\<close>

theorem check_restarts_the_dead:
  assumes "wf_map (fh_workers fh)"
  shows "commands (machine_of (check_workers docker now fh)) =
      commands (machine_of fh) @ map (\<lambda>n. [''restart'', n]) (dead_workers now fh) \<and>
    (\<forall>n w. mget (fh_workers fh) n = Some w \<longrightarrow> mget (fh_workers (check_workers docker now fh)) n =
      Some (w\<lparr>IsAlive := (is_dead now (seconds (HeartbeatTimeoutSeconds fh)) w \<longrightarrow>
        (n, True) \<in> set (restarts_of docker now fh))\<rparr>))"
  using check_commands [OF assms] check_worker [OF assms] by auto

text \<open>A hypervisor with the workers \<open>ws\<close> and a timeout of 15 seconds, on a machine with docker \<open>d\<close>.\<close>

definition some_definition :: worker_definition where
  "some_definition = \<lparr>ServiceName = [], WorkerType = [], WorkerExchangeName = [], WorkerCount = 1, Env = [],
     LogLevel = [], MaxBatchSize = 1\<rparr>"

definition some_worker :: "string \<Rightarrow> int option \<Rightarrow> bool \<Rightarrow> worker_status" where
  "some_worker n seen alive =
     \<lparr>ContainerName = n, WorkerID = 0, Definition = some_definition, LastSeen = seen, IsAlive = alive\<rparr>"

definition some_runtime :: docker_runtime where
  "some_runtime = \<lparr>rt_config = \<lparr>NetworkName = [], WorkerImage = [], MomPort = 1, HeartbeatQueueName = [],
     rc_HeartbeatInterval = 5, WorkerDockerfile = [], BuildContext = [], HypervisorWorkerStoragePath = [],
     WorkerStoragePath = []\<rparr>, rt_gateway = []\<rparr>"

definition some_hypervisor :: "(string, worker_status) gomap \<Rightarrow> 'w \<Rightarrow> 'w fault_hypervisor" where
  "some_hypervisor ws d = new_fault_hypervisor 5 15 ws some_runtime d"

lemma some_hypervisor_fields [simp]:
  "HeartbeatTimeoutSeconds (some_hypervisor ws d) = 15" "commands (machine_of (some_hypervisor ws d)) = []"
  "daemon (machine_of (some_hypervisor ws d)) = d" "fh_workers (some_hypervisor ws d) = ws"
  "LastSeen (some_worker n seen alive) = seen" "IsAlive (some_worker n seen alive) = alive"
  by (simp_all add: some_hypervisor_def new_fault_hypervisor_def some_worker_def)

text \<open>\<open>a\<close> was heard of just now, \<open>b\<close> never, \<open>c\<close> long ago, and no container can be restarted but \<open>c\<close>.\<close>

theorem check_restarts_the_dead_witness:
  "\<forall>now. let fh = some_hypervisor [(''a'', some_worker ''a'' (Some now) True), (''b'', some_worker ''b'' None False),
         (''c'', some_worker ''c'' (Some (now - seconds 60)) True)] ();
       fh' = check_workers (\<lambda>args d. (d, if args = [''restart'', ''c''] then Exited else ExitError)) now fh
     in commands (machine_of fh') = [[''restart'', ''b''], [''restart'', ''c'']] \<and>
        map_option IsAlive (mget (fh_workers fh') ''b'') = Some False \<and>
        map_option IsAlive (mget (fh_workers fh') ''c'') = Some True"
proof
  fix now :: int
  let ?fh = "some_hypervisor [(''a'', some_worker ''a'' (Some now) True), (''b'', some_worker ''b'' None False),
         (''c'', some_worker ''c'' (Some (now - seconds 60)) True)] ()"
  let ?docker = "\<lambda>args d. (d :: unit, if args = [''restart'', ''c''] then Exited else ExitError)"
  have wf: "wf_map (fh_workers ?fh)" by (simp add: wf_map_def)
  have dead: "dead_workers now ?fh = [''b'', ''c'']"
    by (simp add: dead_workers_def is_dead_def is_late_def since_def seconds_def)
  have res: "restarts_of ?docker now ?fh = [(''b'', False), (''c'', True)]" by (simp add: restarts_of_def dead)
  have "is_dead now (seconds 15) (some_worker ''b'' None False)" "is_dead now (seconds 15) (some_worker ''c'' (Some (now - seconds 60)) True)"
    by (simp_all add: is_dead_def is_late_def since_def seconds_def)
  then show "let fh = ?fh; fh' = check_workers ?docker now fh
     in commands (machine_of fh') = [[''restart'', ''b''], [''restart'', ''c'']] \<and>
        map_option IsAlive (mget (fh_workers fh') ''b'') = Some False \<and>
        map_option IsAlive (mget (fh_workers fh') ''c'') = Some True"
    using check_restarts_the_dead [OF wf, of ?docker now] dead res by (simp add: Let_def)
qed

lemma check_restarts_one:
  assumes "wf_map (fh_workers fh)"
  shows "count_list (commands (machine_of (check_workers docker now fh))) [''restart'', n] =
    count_list (commands (machine_of fh)) [''restart'', n] + (if n \<in> set (dead_workers now fh) then 1 else 0)"
proof -
  have "distinct (dead_workers now fh)" using dead_silent [OF assms] by (simp add: silent_among_def)
  moreover have "count_list (map (\<lambda>n. [''restart'', n]) ns) [''restart'', n] = count_list ns n" for ns
    by (induction ns) auto
  moreover have "count_list ns n = (if n \<in> set ns then 1 else 0)" if "distinct ns" for ns
    using that by (induction ns) auto
  ultimately show ?thesis using check_commands [OF assms] by simp
qed

text \<open>
  A restarted worker is restarted again. A restart makes a worker count as alive but leaves its last heartbeat
  where it was, so the next check finds it late once more, however soon it comes: a worker that takes longer than
  the interval of the checks to send its first heartbeat is restarted at every check.
\<close>

theorem restarted_worker_is_restarted_again:
  assumes "wf_map (fh_workers fh)" "mget (fh_workers fh) n = Some w" "now \<le> now'"
    and "since now (LastSeen w) > seconds (HeartbeatTimeoutSeconds fh)"
  shows "count_list (commands (machine_of (check_workers docker now' (check_workers docker now fh)))) [''restart'', n] =
    count_list (commands (machine_of fh)) [''restart'', n] + 2"
proof -
  let ?fh = "check_workers docker now fh" and ?T = "seconds (HeartbeatTimeoutSeconds fh)"
  note F = check_fields [OF assms(1), of docker now]
  have "n \<in> set (dead_workers now fh)"
    using assms dead_workers_iff [OF assms(1)] by (auto simp: is_dead_def is_late_def)
  moreover have "since now' (LastSeen w) > ?T" using assms(3,4) by (auto simp: since_def split: option.splits)
  then have "n \<in> set (dead_workers now' ?fh)"
    using check_worker [OF assms(1,2), of docker now] F by (auto simp: dead_workers_iff is_dead_def is_late_def)
  ultimately show ?thesis using check_restarts_one [OF F(2)] check_restarts_one [OF assms(1)] by simp
qed

theorem restarted_worker_is_restarted_again_witness:
  "\<forall>now. let fh = some_hypervisor [(''a'', some_worker ''a'' (Some (now - seconds 16)) True)] ();
       docker = (\<lambda>args d. (d, Exited))
     in count_list (commands (machine_of (check_workers docker (now + 1) (check_workers docker now fh)))) [''restart'', ''a''] = 2"
proof
  fix now :: int
  let ?fh = "some_hypervisor [(''a'', some_worker ''a'' (Some (now - seconds 16)) True)] ()" and ?docker = "\<lambda>args (d :: unit). (d, Exited)"
  have "wf_map (fh_workers ?fh)" by (simp add: wf_map_def)
  then show "let fh = ?fh; docker = ?docker
     in count_list (commands (machine_of (check_workers docker (now + 1) (check_workers docker now fh)))) [''restart'', ''a''] = 2"
    using restarted_worker_is_restarted_again [of ?fh "''a''" "some_worker ''a'' (Some (now - seconds 16)) True" now
        "now + 1" ?docker]
    by (simp add: since_def seconds_def)
qed

section \<open>Workers that are heard of\<close>

text \<open>
  What happens to the hypervisor, with the time: a heartbeat arrives or the ticker checks. The workers of a
  hypervisor that leads are changed by nothing else.
\<close>

datatype watch_event = HeartbeatAt int string | CheckAt int

fun watch_one :: "'w docker \<Rightarrow> watch_event \<Rightarrow> 'w fault_hypervisor \<Rightarrow> 'w fault_hypervisor" where
  "watch_one docker (HeartbeatAt t n) fh = fst (handle_heartbeat t (Some (heartbeat_message n)) fh)"
| "watch_one docker (CheckAt t) fh = check_workers docker t fh"

definition watch :: "'w docker \<Rightarrow> watch_event list \<Rightarrow> 'w fault_hypervisor \<Rightarrow> 'w fault_hypervisor" where
  "watch docker evs fh = fold (watch_one docker) evs fh"

text \<open>Each check comes within the timeout of the last heartbeat of the worker, which is at \<open>seen\<close> before the events.\<close>

fun punctual :: "int \<Rightarrow> string \<Rightarrow> int \<Rightarrow> watch_event list \<Rightarrow> bool" where
  "punctual timeout n seen [] = True"
| "punctual timeout n seen (HeartbeatAt t m # evs) = punctual timeout n (if m = n then t else seen) evs"
| "punctual timeout n seen (CheckAt t # evs) = (t - seen \<le> timeout \<and> punctual timeout n seen evs)"

lemma register_heartbeat_worker:
  "mget (fh_workers (fst (register_heartbeat t m fh))) n =
     map_option (\<lambda>w. if m = n then w\<lparr>LastSeen := Some t, IsAlive := True\<rparr> else w) (mget (fh_workers fh) n)"
  by (cases "m = n"; cases "mget (fh_workers fh) n") (auto simp: register_heartbeat_def mget_mput split: option.split)

lemma register_heartbeat_fields:
  "HeartbeatTimeoutSeconds (fst (register_heartbeat t m fh)) = HeartbeatTimeoutSeconds fh"
  "wf_map (fh_workers fh) \<Longrightarrow> wf_map (fh_workers (fst (register_heartbeat t m fh)))"
  "machine_of (fst (register_heartbeat t m fh)) = machine_of fh"
  by (auto simp: register_heartbeat_def split: option.split)

lemma heartbeat_event: "watch_one docker (HeartbeatAt t n) fh = fst (register_heartbeat t n fh)"
  by (simp add: handle_heartbeat_def extract_heartbeat_def heartbeat_message_def proto_message_def split: prod.split)

declare watch_one.simps(1) [simp del]

definition heard :: "string \<Rightarrow> int \<Rightarrow> 'w fault_hypervisor \<Rightarrow> bool" where
  "heard n seen fh \<longleftrightarrow> wf_map (fh_workers fh) \<and>
     (\<exists>w. mget (fh_workers fh) n = Some w \<and> IsAlive w \<and> LastSeen w = Some seen)"

lemma heard_heartbeat: "heard n seen fh \<Longrightarrow> heard n (if m = n then t else seen) (watch_one docker (HeartbeatAt t m) fh)"
  by (auto simp: heard_def heartbeat_event register_heartbeat_worker register_heartbeat_fields)

lemma heard_not_dead:
  "heard n seen fh \<Longrightarrow> t - seen \<le> seconds (HeartbeatTimeoutSeconds fh) \<Longrightarrow> n \<notin> set (dead_workers t fh)"
  by (auto simp: heard_def dead_workers_iff is_dead_def is_late_def since_def)

lemma heard_check:
  assumes "heard n seen fh" "t - seen \<le> seconds (HeartbeatTimeoutSeconds fh)"
  shows "heard n seen (check_workers docker t fh)"
proof -
  obtain w where w: "wf_map (fh_workers fh)" "mget (fh_workers fh) n = Some w" "IsAlive w" "LastSeen w = Some seen"
    using assms(1) by (auto simp: heard_def)
  have "\<not> is_dead t (seconds (HeartbeatTimeoutSeconds fh)) w"
    using w assms(2) by (simp add: is_dead_def is_late_def since_def)
  then show ?thesis using check_worker [OF w(1,2)] check_fields [OF w(1)] w by (simp add: heard_def)
qed

lemma watch_heard:
  assumes "heard n seen fh" "punctual (seconds (HeartbeatTimeoutSeconds fh)) n seen evs"
  shows "count_list (commands (machine_of (watch docker evs fh))) [''restart'', n] =
    count_list (commands (machine_of fh)) [''restart'', n]"
  using assms
proof (induction evs arbitrary: fh seen)
  case Nil
  then show ?case by (simp add: watch_def)
next
  case (Cons e evs)
  show ?case
  proof (cases e)
    case (HeartbeatAt t m)
    let ?fh = "watch_one docker (HeartbeatAt t m) fh"
    have "HeartbeatTimeoutSeconds ?fh = HeartbeatTimeoutSeconds fh" "machine_of ?fh = machine_of fh"
      by (simp_all add: heartbeat_event register_heartbeat_fields)
    then show ?thesis
      using Cons.IH [OF heard_heartbeat [OF Cons.prems(1), of m t docker]] Cons.prems(2) HeartbeatAt by (simp add: watch_def)
  next
    case (CheckAt t)
    have wf: "wf_map (fh_workers fh)" using Cons.prems(1) by (simp add: heard_def)
    have t: "t - seen \<le> seconds (HeartbeatTimeoutSeconds fh)" using Cons.prems(2) CheckAt by simp
    show ?thesis
      using Cons.IH [OF heard_check [OF Cons.prems(1) t, of docker]] Cons.prems(2) CheckAt
        heard_not_dead [OF Cons.prems(1) t] check_restarts_one [OF wf, of docker t n] check_fields [OF wf, of docker t]
      by (simp add: watch_def)
  qed
qed

text \<open>
  C39. A worker whose heartbeats are punctual is never restarted: in every sequence of heartbeats and checks in which
  each check comes within the timeout of the worker's last heartbeat, whatever the other workers do and however
  docker answers, no restart of the worker is ordered.
\<close>

theorem punctual_worker_is_left_alone:
  assumes "heard n seen fh" "punctual (seconds (HeartbeatTimeoutSeconds fh)) n seen evs"
  shows "count_list (commands (machine_of (watch docker evs fh))) [''restart'', n] =
    count_list (commands (machine_of fh)) [''restart'', n]"
  using watch_heard [OF assms] .

theorem punctual_worker_is_left_alone_witness:
  "let fh = some_hypervisor [(''a'', some_worker ''a'' (Some 0) True), (''b'', some_worker ''b'' None False)] ();
       evs = [CheckAt (seconds 5), HeartbeatAt (seconds 9) ''a'', CheckAt (seconds 20)]
   in count_list (commands (machine_of (watch (\<lambda>args d. (d, Exited)) evs fh))) [''restart'', ''a''] = 0"
proof -
  let ?fh = "some_hypervisor [(''a'', some_worker ''a'' (Some 0) True), (''b'', some_worker ''b'' None False)] ()"
  have "heard ''a'' 0 ?fh" by (simp add: heard_def wf_map_def)
  then show ?thesis
    using punctual_worker_is_left_alone [of "''a''" 0 ?fh "[CheckAt (seconds 5), HeartbeatAt (seconds 9) ''a'', CheckAt (seconds 20)]"]
    by (simp add: seconds_def)
qed

section \<open>The workers of the configuration\<close>

lemma show_int_nonneg_inject: "0 \<le> i \<Longrightarrow> 0 \<le> j \<Longrightarrow> show_int i = show_int j \<longleftrightarrow> i = j"
  by (auto simp: show_int_def)

lemma underscore_notin_show_int: "0 \<le> i \<Longrightarrow> CHR ''_'' \<notin> set (show_int i)"
  by (auto simp: show_int_def dest!: show_nat_digits simp: is_digit_def byte_def)

text \<open>The name of a worker determines its service and its number, as the number has no underscore.\<close>

lemma worker_name_inject:
  assumes "0 \<le> i" "0 \<le> j"
  shows "worker_name s i = worker_name t j \<longleftrightarrow> s = t \<and> i = j"
proof
  assume "worker_name s i = worker_name t j"
  then have eq: "rev (show_int i) @ CHR ''_'' # rev s = rev (show_int j) @ CHR ''_'' # rev t"
    by (simp add: worker_name_def) (metis append.assoc append_Cons append_Nil rev.simps(2) rev_append)
  have "takeWhile (\<lambda>c. c \<noteq> CHR ''_'') (rev (show_int k) @ CHR ''_'' # u) = rev (show_int k)" if "0 \<le> k" for k u
    using underscore_notin_show_int [OF that] by (intro takeWhile_upto) simp
  then have "rev (show_int i) = rev (show_int j)" using eq assms by metis
  then show "s = t \<and> i = j" using eq assms by (simp add: show_int_nonneg_inject)
qed simp

lemma expand_workers_Nil [simp]: "expand_workers [] = []"
  by (simp add: expand_workers_def)

lemma expand_workers_Cons [simp]:
  "expand_workers (def # defs) = map (worker_name (ServiceName def)) [0..WorkerCount def - 1] @ expand_workers defs"
  by (simp add: expand_workers_def)

lemma expand_workers_iff:
  "n \<in> set (expand_workers defs) \<longleftrightarrow> (\<exists>def\<in>set defs. \<exists>i. 0 \<le> i \<and> i < WorkerCount def \<and> n = worker_name (ServiceName def) i)"
  by (force simp: expand_workers_def)

lemma distinct_expand_workers: "distinct (map ServiceName defs) \<Longrightarrow> distinct (expand_workers defs)"
proof (induction defs)
  case (Cons def defs)
  have "inj_on (worker_name (ServiceName def)) {0..WorkerCount def - 1}"
    by (auto simp: inj_on_def worker_name_inject)
  moreover have "worker_name (ServiceName def) i \<notin> set (expand_workers defs)" if "0 \<le> i" for i
    using Cons.prems that by (auto simp: expand_workers_iff worker_name_inject)
  ultimately show ?case using Cons by (auto simp: distinct_map)
qed simp

lemma add_service:
  assumes "distinct is" "\<forall>i\<in>set is. 0 \<le> i \<and> worker_name (ServiceName def) i \<notin> set (mkeys m)"
  shows "fold (\<lambda>i. mput (worker_name (ServiceName def) i) (new_worker def i)) is m =
    m @ map (\<lambda>i. (worker_name (ServiceName def) i, new_worker def i)) is"
  using assms
proof (induction "is" arbitrary: m)
  case (Cons i "is")
  let ?m = "m @ [(worker_name (ServiceName def) i, new_worker def i)]"
  have "mput (worker_name (ServiceName def) i) (new_worker def i) m = ?m" using Cons.prems by (simp add: mput_fresh)
  moreover have "\<forall>j\<in>set is. 0 \<le> j \<and> worker_name (ServiceName def) j \<notin> set (mkeys ?m)"
    using Cons.prems by (auto simp: worker_name_inject)
  ultimately show ?case using Cons.IH [of ?m] Cons.prems by simp
qed simp

definition workers_of :: "worker_definition \<Rightarrow> (string, worker_status) gomap" where
  "workers_of def = map (\<lambda>i. (worker_name (ServiceName def) i, new_worker def i)) [0..WorkerCount def - 1]"

lemma load_workers_fold:
  assumes "distinct (mkeys m @ expand_workers defs)"
  shows "fold (\<lambda>def m. fold (\<lambda>i. mput (worker_name (ServiceName def) i) (new_worker def i)) [0..WorkerCount def - 1] m) defs m =
    m @ concat (map workers_of defs)"
  using assms
proof (induction defs arbitrary: m)
  case (Cons def defs)
  have "fold (\<lambda>i. mput (worker_name (ServiceName def) i) (new_worker def i)) [0..WorkerCount def - 1] m = m @ workers_of def"
    unfolding workers_of_def using Cons.prems by (intro add_service) auto
  moreover have "mkeys (workers_of def) = map (worker_name (ServiceName def)) [0..WorkerCount def - 1]"
    by (simp add: workers_of_def)
  ultimately show ?case using Cons.IH [of "m @ workers_of def"] Cons.prems by auto
qed simp

text \<open>
  Two readings of the configuration agree: for services with different names, the hypervisor watches exactly the
  containers that \<open>ExpandWorkers\<close> lists, each once, and each with the number and the service its name says.
\<close>

theorem watched_workers_are_the_expanded:
  assumes "distinct (map ServiceName defs)"
  shows "\<exists>ws. load_workers (Inr defs) = Inr ws \<and> mkeys ws = expand_workers defs \<and> distinct (expand_workers defs) \<and>
    (\<forall>nw\<in>set ws. fst nw = worker_name (ServiceName (Definition (snd nw))) (WorkerID (snd nw)) \<and>
       ContainerName (snd nw) = fst nw \<and> Definition (snd nw) \<in> set defs)"
proof -
  have "distinct (expand_workers defs)" using assms by (rule distinct_expand_workers)
  moreover have "mkeys (concat (map workers_of defs)) = expand_workers defs"
    by (induction defs) (simp_all add: workers_of_def)
  moreover have "\<forall>nw\<in>set (concat (map workers_of defs)).
      fst nw = worker_name (ServiceName (Definition (snd nw))) (WorkerID (snd nw)) \<and>
      ContainerName (snd nw) = fst nw \<and> Definition (snd nw) \<in> set defs"
    by (auto simp: workers_of_def new_worker_def)
  ultimately show ?thesis using load_workers_fold [of "[]" defs] by (simp add: load_workers_def)
qed

definition service_a :: worker_definition where
  "service_a = some_definition\<lparr>ServiceName := ''a'', WorkerCount := 2\<rparr>"

definition service_a_1 :: worker_definition where
  "service_a_1 = some_definition\<lparr>ServiceName := ''a_1'', WorkerCount := 1\<rparr>"

theorem watched_workers_are_the_expanded_witness:
  "\<exists>ws. load_workers (Inr [service_a, service_a_1]) = Inr ws \<and> mkeys ws = [''a_0'', ''a_1'', ''a_1_0'']"
proof -
  have "distinct (map ServiceName [service_a, service_a_1])" by (simp add: service_a_def service_a_1_def)
  then have "\<exists>ws. load_workers (Inr [service_a, service_a_1]) = Inr ws \<and> mkeys ws = expand_workers [service_a, service_a_1]"
    using watched_workers_are_the_expanded by blast
  moreover have "[0..1 :: int] = [0, 1]" by (simp add: upto.simps)
  then have "expand_workers [service_a, service_a_1] = [''a_0'', ''a_1'', ''a_1_0'']"
    by (simp add: service_a_def service_a_1_def some_definition_def worker_name_def show_int_def show_nat.simps digit_char_def
        char_of_def bit_iff_odd)
  ultimately show ?thesis by simp
qed

section \<open>Creating the workers\<close>

text \<open>
  What docker documents of the three commands that \<open>StartWorkers\<close> issues, \<open>containers\<close> being the names in use:
  \<open>inspect\<close> changes nothing and succeeds on what exists, and \<open>run --name\<close> adds its container when it succeeds and
  nothing when it does not.
\<close>

definition docker_containers :: "'w docker \<Rightarrow> ('w \<Rightarrow> string set) \<Rightarrow> bool" where
  "docker_containers docker containers \<longleftrightarrow>
     (\<forall>n d. fst (docker [''inspect'', n] d) = d \<and>
        (snd (docker [''inspect'', n] d) = Exited \<longrightarrow> n \<in> containers d) \<and>
        (snd (docker [''inspect'', n] d) = ExitError \<longrightarrow> n \<notin> containers d)) \<and>
     (\<forall>n args d. take 4 args = [''run'', ''-d'', ''--name'', n] \<longrightarrow>
        containers (fst (docker args d)) =
          (if snd (docker args d) = Exited then insert n (containers d) else containers d))"

definition names_in_use :: "('w \<Rightarrow> string set) \<Rightarrow> 'w fault_hypervisor \<Rightarrow> string set" where
  "names_in_use containers fh = containers (daemon (machine_of fh))"

lemma take_create_args: "take 4 (create_args r n i def) = [''run'', ''-d'', ''--name'', n]"
  by (simp add: create_args_def numeral_eq_Suc)

lemma mkdir_all_daemon: "daemon (fst (mkdir_all path m)) = daemon m"
  by (cases rule: call_result [of "\<lambda>m. m\<lparr>directories := directories m @ [path]\<rparr>" ErrWrite m]) (simp_all add: mkdir_all_def)

lemma docker_act_daemon:
  "daemon (fst (docker_act docker args m)) = fst (docker args (daemon m))"
  "snd (docker_act docker args m) = docker_error (snd (docker args (daemon m)))"
  by (simp_all add: docker_act_def exec_docker_def split: prod.split)

lemma create_worker_containers:
  assumes "docker_containers docker containers"
  shows "containers (daemon (fst (create_worker docker r n i def m))) =
    (if snd (create_worker docker r n i def m) = None then insert n (containers (daemon m)) else containers (daemon m))"
proof -
  let ?a = "mkdir_all (worker_storage_path r n) :: 'a machine act" and ?b = "docker_act docker (create_args r n i def)"
  have run: "containers (fst (docker (create_args r n i def) d)) =
      (if snd (docker (create_args r n i def) d) = Exited then insert n (containers d) else containers d)" for d
    using assms take_create_args [of r n i def] by (simp add: docker_containers_def)
  have "create_worker docker r n i def = then_act ?a ?b" by (simp add: create_worker_def)
  then show ?thesis
    using mkdir_all_daemon [of "worker_storage_path r n" m] run
    by (cases rule: then_act_cases [of ?a m ?b])
       (auto simp: docker_act_daemon docker_error_def split: if_splits)
qed

lemma start_worker_containers:
  assumes "docker_containers docker containers"
  shows "names_in_use containers (fst (start_worker docker w fh)) =
      (if snd (start_worker docker w fh) = None then insert (ContainerName w) (names_in_use containers fh)
       else names_in_use containers fh)"
    and "fh_workers (fst (start_worker docker w fh)) = fh_workers fh"
proof -
  let ?r = "docker [''inspect'', ContainerName w] (daemon (machine_of fh))"
  have law: "fst ?r = daemon (machine_of fh)" "snd ?r = Exited \<Longrightarrow> ContainerName w \<in> names_in_use containers fh"
    using assms by (auto simp: docker_containers_def names_in_use_def)
  let ?m = "(machine_of fh)\<lparr>commands := commands (machine_of fh) @ [[''inspect'', ContainerName w]]\<rparr>"
  have ex: "container_exists docker (ContainerName w) (machine_of fh) =
      (?m, case snd ?r of Exited \<Rightarrow> Inr True | ExitError \<Rightarrow> Inr False | NotRun \<Rightarrow> Inl ErrRuntime)"
    using law(1) by (cases ?r; cases "snd ?r") (simp_all add: container_exists_def docker_exists_def exec_docker_def)
  show "names_in_use containers (fst (start_worker docker w fh)) =
      (if snd (start_worker docker w fh) = None then insert (ContainerName w) (names_in_use containers fh)
       else names_in_use containers fh)"
    using law(2) create_worker_containers [OF assms, of "fh_runtime fh" "ContainerName w" "WorkerID w" "Definition w" ?m]
    by (cases "snd ?r")
       (auto simp: start_worker_def ex names_in_use_def on_machine_def zoom_def split: prod.split)
  show "fh_workers (fst (start_worker docker w fh)) = fh_workers fh"
    by (cases "snd ?r") (simp_all add: start_worker_def ex on_machine_def zoom_def split: prod.split)
qed

lemma then_act_succeeds:
  assumes "then_act a b s = (s', None)"
  obtains t where "a s = (t, None)" "b t = (s', None)"
  using assms by (auto simp: then_act_def split: prod.splits option.splits)

lemma start_all_containers:
  assumes "docker_containers docker containers"
    and "for_each (\<lambda>nw. start_worker docker (snd nw)) nws fh = (fh', None)"
  shows "names_in_use containers fh' = names_in_use containers fh \<union> ContainerName ` snd ` set nws"
  using assms(2)
proof (induction nws arbitrary: fh)
  case (Cons nw nws)
  let ?a = "start_worker docker (snd nw)" and ?b = "for_each (\<lambda>nw. start_worker docker (snd nw)) nws"
  from Cons.prems have "snd (?a fh) = None" "?b (fst (?a fh)) = (fh', None)"
    by (cases rule: then_act_cases [of ?a fh ?b]; cases "?a fh"; simp)+
  then show ?case using Cons.IH start_worker_containers(1) [OF assms(1), of "snd nw" fh] by auto
qed (simp add: ok_def)

text \<open>
  Taking the lead creates the workers: when \<open>BecomeLeader\<close> reports no error, docker has, beside the containers
  it had, one of every worker of the configuration and nothing else; the workers are watched, and all of them wait
  for their first heartbeat.
\<close>

theorem leader_has_all_workers:
  assumes "docker_containers docker containers" "fh_become_leader docker fh = (fh', None)"
  shows "names_in_use containers fh' = names_in_use containers fh \<union> ContainerName ` snd ` set (fh_workers fh) \<and>
    monitoring fh' \<and> ready_done fh' \<and> (\<forall>nw\<in>set (fh_workers fh'). \<not> IsAlive (snd nw) \<and> LastSeen (snd nw) = None)"
proof -
  obtain fh1 where 1: "start_workers docker fh = (fh1, None)"
    using assms(2) by (auto simp: fh_become_leader_def elim: then_act_succeeds)
  have "names_in_use containers fh1 = names_in_use containers fh \<union> ContainerName ` snd ` set (fh_workers fh)"
    using start_all_containers [OF assms(1)] 1 by (simp add: start_workers_def)
  moreover have "daemon (machine_of fh') = daemon (machine_of fh1) \<and> monitoring fh' \<and> ready_done fh' \<and>
      fh_workers fh' = map (\<lambda>nw. (fst nw, (snd nw)\<lparr>LastSeen := None, IsAlive := False\<rparr>)) (fh_workers fh1)"
    using assms(2) 1
    by (auto simp: fh_become_leader_def then_act_def upd_def mark_ready_def ok_def on_machine_def zoom_def call_def
        split: if_splits prod.splits option.splits list.splits bool.splits)
  ultimately show ?thesis by (auto simp: names_in_use_def)
qed

text \<open>A docker that keeps the list of its containers and whose commands succeed.\<close>

definition listing_docker :: "string list docker" where
  "listing_docker args d =
     (if take 1 args = [''inspect''] then (d, if hd (tl args) \<in> set d then Exited else ExitError)
      else if take 3 args = [''run'', ''-d'', ''--name''] then (args ! 3 # d, Exited)
      else (d, Exited))"

lemma listing_docker_containers: "docker_containers listing_docker set"
proof -
  have "take 1 args = [''run''] \<and> take 3 args = [''run'', ''-d'', ''--name''] \<and> args ! 3 = n"
    if run: "take 4 args = [''run'', ''-d'', ''--name'', n]" for args :: "string list" and n
  proof -
    have "take 1 args = take 1 (take 4 args)" "take 3 args = take 3 (take 4 args)" "args ! 3 = take 4 args ! 3" by simp_all
    then show ?thesis by (simp add: run)
  qed
  then show ?thesis by (auto simp: docker_containers_def listing_docker_def)
qed

theorem leader_has_all_workers_witness:
  "set (daemon (machine_of (fst (fh_become_leader listing_docker
     (some_hypervisor [(''a'', some_worker ''a'' None False), (''b'', some_worker ''b'' None False)] [''b'', ''c'']))))) =
   {''a'', ''b'', ''c''}"
proof -
  let ?fh = "some_hypervisor [(''a'', some_worker ''a'' None False), (''b'', some_worker ''b'' None False)] [''b'', ''c'']"
  have "snd (fh_become_leader listing_docker ?fh) = None"
    by (simp add: fh_become_leader_def start_workers_def start_worker_def container_exists_def docker_exists_def
        exec_docker_def listing_docker_def create_worker_def mkdir_all_def call_def docker_act_def docker_error_def
        create_args_def mark_ready_def on_machine_def zoom_def some_hypervisor_def new_fault_hypervisor_def
        some_worker_def then_act_def upd_def ok_def)
  then show ?thesis
    using leader_has_all_workers [OF listing_docker_containers, of ?fh "fst (fh_become_leader listing_docker ?fh)"]
    by (auto simp: names_in_use_def some_worker_def prod_eq_iff)
qed

section \<open>A leader that could not take over\<close>

text \<open>An operation of the coordinator in which the handler of the leadership is not called.\<close>

lemma leading_hypervisor_is_idle:
  assumes "leaderID s = b_id s" "broker_up s"
  shows "b_handler (fst (run_callback lh f s)) = b_handler s"
    and "b_handler (fst (ticker_round lh s)) = b_handler s"
    and "b_handler (fst (handle_election lh p s)) = b_handler s"
proof -
  have "broadcast_coordinator s = (emit (announcements (b_id s) [0..b_count s - 1]) s, None)"
    using assms(2) by (rule broadcast_up)
  then show "b_handler (fst (ticker_round lh s)) = b_handler s"
    using assms(1) by (auto simp: ticker_round_def ignore_err_def start_election_same)
  show "b_handler (fst (run_callback lh f s)) = b_handler s"
    using assms by (cases f)
      (simp_all add: start_election_same finish_election_if_unanswered_def become_leader_same ok_def)
  show "b_handler (fst (handle_election lh p s)) = b_handler s"
    using assms by (simp add: handle_election_up start_election_same)
qed

lemma start_workers_keeps:
  "monitoring (fst (start_workers docker fh)) = monitoring fh \<and>
   heartbeat_consumers (fst (start_workers docker fh)) = heartbeat_consumers fh"
proof -
  let ?P = "\<lambda>h. monitoring h = monitoring fh \<and> heartbeat_consumers h = heartbeat_consumers fh"
  have "preserves ?P (start_worker docker w)" for w
    by (auto simp: preserves_def start_worker_def on_machine_def zoom_def split: prod.split sum.split bool.split)
  then have "preserves ?P (for_each (\<lambda>nw. start_worker docker (snd nw)) (fh_workers fh))"
    by (intro preserves_for_each)
  then show ?thesis by (auto simp: start_workers_def dest: preservesD)
qed



section \<open>The shape of the table of workers\<close>

text \<open>Each container has one entry, under its name; the identity of a worker is its entry without the last two fields.\<close>

definition typed_workers :: "(string, worker_status) gomap \<Rightarrow> bool" where
  "typed_workers ws \<longleftrightarrow> wf_map ws \<and> (\<forall>n w. mget ws n = Some w \<longrightarrow> ContainerName w = n)"

definition identity_of :: "worker_status \<Rightarrow> string \<times> int \<times> worker_definition" where
  "identity_of w = (ContainerName w, WorkerID w, Definition w)"

definition same_workers :: "'w fault_hypervisor \<Rightarrow> 'w fault_hypervisor \<Rightarrow> bool" where
  "same_workers fh fh' \<longleftrightarrow> typed_workers (fh_workers fh') \<and>
     (\<forall>n. map_option identity_of (mget (fh_workers fh') n) = map_option identity_of (mget (fh_workers fh) n))"

lemma same_workersI:
  assumes "typed_workers (fh_workers fh)" "wf_map (fh_workers fh')"
    and same: "\<And>n. map_option identity_of (mget (fh_workers fh') n) = map_option identity_of (mget (fh_workers fh) n)"
  shows "same_workers fh fh'"
proof -
  have "ContainerName w = n" if "mget (fh_workers fh') n = Some w" for n w
    using same [of n] that assms(1)
    by (cases "mget (fh_workers fh) n") (auto simp: typed_workers_def identity_of_def)
  then show ?thesis using assms by (simp add: same_workers_def typed_workers_def)
qed

lemma same_workers_unchanged:
  "typed_workers (fh_workers fh) \<Longrightarrow> fh_workers fh' = fh_workers fh \<Longrightarrow> same_workers fh fh'"
  by (simp add: same_workers_def)

lemma same_workers_check:
  assumes "typed_workers (fh_workers fh)"
  shows "same_workers fh (check_workers docker t fh)"
proof (rule same_workersI [OF assms])
  have wf: "wf_map (fh_workers fh)" using assms by (simp add: typed_workers_def)
  then show "wf_map (fh_workers (check_workers docker t fh))" by (rule check_fields)
  fix n
  show "map_option identity_of (mget (fh_workers (check_workers docker t fh)) n) = map_option identity_of (mget (fh_workers fh) n)"
  proof (cases "mget (fh_workers fh) n")
    case None
    then have "mget (fh_workers (check_workers docker t fh)) n = None"
      using dead_silent [OF wf, of t] by (simp add: check_workers_fold restart_all_workers mget_marked)
    then show ?thesis using None by simp
  qed (use check_worker [OF wf] in \<open>simp add: identity_of_def\<close>)
qed

lemma start_workers_workers: "fh_workers (fst (start_workers docker fh)) = fh_workers fh"
proof -
  have "preserves (\<lambda>h. fh_workers h = fh_workers fh) (start_worker docker w)" for w
    by (auto simp: preserves_def start_worker_def on_machine_def zoom_def split: prod.split sum.split bool.split)
  then have "preserves (\<lambda>h. fh_workers h = fh_workers fh) (for_each (\<lambda>nw. start_worker docker (snd nw)) (fh_workers fh))"
    by (intro preserves_for_each)
  then show ?thesis by (auto simp: start_workers_def dest: preservesD)
qed

lemma mark_ready_workers: "fh_workers (fst (mark_ready fh)) = fh_workers fh"
  by (auto simp: mark_ready_def ok_def on_machine_def zoom_def split: prod.split option.split)

lemma become_leader_workers:
  "fh_workers (fst (fh_become_leader docker fh)) = fh_workers fh \<or>
   fh_workers (fst (fh_become_leader docker fh)) =
     map (\<lambda>nw. (fst nw, (snd nw)\<lparr>LastSeen := None, IsAlive := False\<rparr>)) (fh_workers fh)"
proof -
  obtain fh1 r where 1: "start_workers docker fh = (fh1, r)" by (cases "start_workers docker fh")
  then have w: "fh_workers fh1 = fh_workers fh" using start_workers_workers [of docker fh] by simp
  show ?thesis
  proof (cases r)
    case None
    let ?ws = "map (\<lambda>nw. (fst nw, (snd nw)\<lparr>LastSeen := None, IsAlive := False\<rparr>)) (fh_workers fh)"
    obtain fh2 r2 where 2: "mark_ready (fh1\<lparr>fh_workers := ?ws, monitoring := True\<rparr>) = (fh2, r2)" by fastforce
    then have "fh_workers fh2 = ?ws"
      using mark_ready_workers [of "fh1\<lparr>fh_workers := ?ws, monitoring := True\<rparr>"] by simp
    then show ?thesis using 1 2 None w by (cases r2) (simp_all add: fh_become_leader_def then_act_def upd_def)
  qed (use 1 w in \<open>simp add: fh_become_leader_def then_act_def\<close>)
qed

lemma same_workers_become_leader:
  assumes "typed_workers (fh_workers fh)"
  shows "same_workers fh (fst (fh_become_leader docker fh))"
proof (rule same_workersI [OF assms])
  let ?fh = "fst (fh_become_leader docker fh)"
  have "mkeys (fh_workers ?fh) = mkeys (fh_workers fh)" using become_leader_workers [of docker fh] by (auto simp: comp_def)
  then show "wf_map (fh_workers ?fh)" using assms by (simp add: typed_workers_def wf_map_def)
  show "map_option identity_of (mget (fh_workers ?fh) n) = map_option identity_of (mget (fh_workers fh) n)" for n
    using become_leader_workers [of docker fh]
      mget_map_values [of "\<lambda>w. w\<lparr>LastSeen := None, IsAlive := False\<rparr>" "fh_workers fh" n]
    by (cases "mget (fh_workers fh) n") (auto simp: identity_of_def)
qed

text \<open>
  C40. The table of workers keeps its type: whatever arrives, whenever a check runs and however docker and the file
  system answer, each container keeps exactly one entry, under its own name, with the number and the definition
  it was loaded with; no entry appears and none is lost.
\<close>

theorem workers_keep_their_identity:
  assumes "typed_workers (fh_workers fh)"
  shows "same_workers fh (fst (handle_heartbeat t msg fh)) \<and> same_workers fh (check_workers docker t fh) \<and>
    same_workers fh (fst (fh_become_leader docker fh)) \<and> same_workers fh (fst (mark_ready fh))"
proof (intro conjI)
  have wf: "wf_map (fh_workers fh)" using assms by (simp add: typed_workers_def)
  have "same_workers fh (fst (register_heartbeat t n fh))" for n
    by (rule same_workersI [OF assms])
       (auto simp: register_heartbeat_fields wf register_heartbeat_worker option.map_comp comp_def identity_of_def
         intro!: option.map_cong)
  then show "same_workers fh (fst (handle_heartbeat t msg fh))"
    using same_workers_unchanged [OF assms, of fh]
    by (simp add: handle_heartbeat_def case_prod_beta split: option.split)
qed (simp_all add: assms same_workers_check same_workers_become_leader same_workers_unchanged mark_ready_workers)

theorem workers_keep_their_identity_witness:
  "\<forall>t. same_workers (some_hypervisor [(''a'', some_worker ''a'' None False)] ())
     (check_workers (\<lambda>args d. (d, NotRun)) t (some_hypervisor [(''a'', some_worker ''a'' None False)] ()))"
proof -
  have "typed_workers (fh_workers (some_hypervisor [(''a'', some_worker ''a'' None False)] ()))"
    by (simp add: typed_workers_def wf_map_def some_worker_def)
  then show ?thesis using workers_keep_their_identity by blast
qed

end
