(* ===== verification/Factory.thy ===== *)
theory Factory
  imports Dates Filters
begin

text \<open>
  \<open>internal/factory\<close>: how a worker is put together from its environment. This theory holds the helpers of
  \<open>helpers.go\<close> and the builders that several workers share; \<open>WorkerBuilders\<close> holds one builder per worker.

  A builder runs in a \<open>session\<close>: the environment variables, the connections and files that are open, and which of
  the coming calls to the broker and the file system fail. What it returns is the wiring of a worker: which queues
  and exchanges its engines read and write, with which message types, processors, coordinators and limits. The
  connections are numbered, so that closing one twice does nothing the second time.
\<close>

section \<open>Sessions\<close>

datatype resource =
    QueueConn string                           \<comment> \<open>the queue\<close>
  | ExchangeConn string "string list" string   \<comment> \<open>the exchange, the keys, the name of its queue\<close>
  | StoreFiles string int                      \<comment> \<open>the files of a \<open>BatchStorage\<close>\<close>

type_synonym handle = "nat \<times> resource"

record session = env +
  environ :: "(string, string) gomap"
  live :: "handle list"
  next_handle :: nat

type_synonym 'a build = "session \<Rightarrow> session \<times> (go_error + 'a)"

definition give :: "'a \<Rightarrow> 'a build" where
  "give a s = (s, Inr a)"

definition throw :: "go_error \<Rightarrow> 'a build" where
  "throw e s = (s, Inl e)"

definition close_all :: "handle list \<Rightarrow> session \<Rightarrow> session" where
  "close_all hs s = s\<lparr>live := filter (\<lambda>h. fst h \<notin> fst ` set hs) (live s)\<rparr>"

text \<open>\<open>if err != nil { x.Close(); ...; return nil, err }\<close>, with what is closed, and without anything.\<close>

definition check_closing :: "handle list \<Rightarrow> 'a build \<Rightarrow> ('a \<Rightarrow> 'b build) \<Rightarrow> 'b build" where
  "check_closing hs m k s =
     (case m s of (s', Inl e) \<Rightarrow> (close_all hs s', Inl e) | (s', Inr a) \<Rightarrow> k a s')"

definition check :: "'a build \<Rightarrow> ('a \<Rightarrow> 'b build) \<Rightarrow> 'b build" where
  "check m k s = (case m s of (s', Inl e) \<Rightarrow> (s', Inl e) | (s', Inr a) \<Rightarrow> k a s')"

text \<open>\<open>make\<close> with a negative length, an index or a slice bound below zero.\<close>

definition panics_if :: "bool \<Rightarrow> unit build" where
  "panics_if b = (if b then throw Panic else give ())"

section \<open>The environment\<close>

definition env_not_found :: "string \<Rightarrow> go_error" where
  "env_not_found key = ErrOther (''Env var not found: '' @ key)"

definition env_not_numeric :: "string \<Rightarrow> go_error" where
  "env_not_numeric key = ErrOther (''Env var is not a valid integer: '' @ key)"

text \<open>\<open>os.Getenv\<close>\<close>

definition getenv :: "string \<Rightarrow> session \<Rightarrow> string" where
  "getenv key s = mget0 [] (environ s) key"

definition get_env_strict :: "string \<Rightarrow> string build" where
  "get_env_strict key s =
     (case mget (environ s) key of None \<Rightarrow> (s, Inl (env_not_found key)) | Some v \<Rightarrow> (s, Inr v))"

definition get_env_int_strict :: "string \<Rightarrow> int build" where
  "get_env_int_strict key = check (get_env_strict key) (\<lambda>v.
     case atoi v of None \<Rightarrow> throw (env_not_numeric key) | Some i \<Rightarrow> give i)"

definition get_env_float_strict :: "float_ops \<Rightarrow> string \<Rightarrow> f64 build" where
  "get_env_float_strict F key = check (get_env_strict key) (\<lambda>v.
     case f_parse F v of None \<Rightarrow> throw (env_not_numeric key) | Some x \<Rightarrow> give x)"

definition get_env_string_slice_strict :: "string \<Rightarrow> string list build" where
  "get_env_string_slice_strict key = check (get_env_strict key) (\<lambda>v. give (split_on COMMA v))"

text \<open>
  \<open>time.Parse(time.RFC3339, s)\<close>: a date, \<open>T\<close>, a time whose hour may have one digit, digits of the second
  after a dot or a comma (nine of them count), and \<open>Z\<close> or an offset.
\<close>

definition take_fraction :: "string \<Rightarrow> int \<times> string" where
  "take_fraction s =
     (if 2 \<le> length s \<and> (hd s = CHR ''.'' \<or> hd s = COMMA) \<and> is_digit (s ! 1)
      then let ds = takeWhile is_digit (tl s)
           in (int (base_value 10 digit_val (take 9 (ds @ replicate 9 (CHR ''0'')))), dropWhile is_digit (tl s))
      else (0, s))"

definition parse_zone :: "string \<Rightarrow> int option" where
  "parse_zone s =
     (if s = ''Z'' then Some 0
      else if length s \<noteq> 6 then None
      else do {
        (h, s1) \<leftarrow> take_digits 2 (tl s); s2 \<leftarrow> skip_char (CHR '':'') s1; (mi, _) \<leftarrow> take_digits 2 s2;
        if h \<le> 24 \<and> mi \<le> 60
        then (if hd s = CHR ''+'' then Some ((h * 60 + mi) * 60)
              else if hd s = DASH then Some (- (h * 60 + mi) * 60) else None)
        else None })"

definition parse_rfc3339 :: "string \<Rightarrow> int option" where
  "parse_rfc3339 s = do {
     (y, s) \<leftarrow> take_digits 4 s; s \<leftarrow> skip_char DASH s;
     (mo, s) \<leftarrow> take_digits 2 s; s \<leftarrow> (if 1 \<le> mo \<and> mo \<le> 12 then skip_char DASH s else None);
     (d, s) \<leftarrow> take_digits 2 s; s \<leftarrow> skip_char (CHR ''T'') s;
     (h, s) \<leftarrow> take_hour s; s \<leftarrow> (if h < 24 then skip_char (CHR '':'') s else None);
     (mi, s) \<leftarrow> take_digits 2 s; s \<leftarrow> (if mi < 60 then skip_char (CHR '':'') s else None);
     (se, s) \<leftarrow> take_digits 2 s;
     (nanos, s) \<leftarrow> Some (take_fraction s);
     offset \<leftarrow> parse_zone s;
     if se < 60 \<and> 1 \<le> d \<and> d \<le> days_in mo y
     then Some ((((days_of y mo d * 24 + h) * 60 + mi) * 60 + se - offset) * 1000000000 + nanos) else None }"

definition get_time :: "string \<Rightarrow> int build" where
  "get_time v = (case parse_rfc3339 v of None \<Rightarrow> throw ErrParse | Some t \<Rightarrow> give t)"

definition build_period_from_env :: "string \<Rightarrow> string \<Rightarrow> period build" where
  "build_period_from_env startKey endKey =
     check (get_env_strict startKey) (\<lambda>startStr.
     check (get_env_strict endKey) (\<lambda>endStr.
     check (get_time startStr) (\<lambda>startTime.
     check (get_time endStr) (\<lambda>endTime.
     give \<lparr>StartDate = startTime, EndDate = endTime\<rparr>))))"

definition get_coordination_information_from_env :: "(int \<times> int \<times> string) build" where
  "get_coordination_information_from_env =
     check (get_env_int_strict ''ID'') (\<lambda>workerID.
     check (get_env_int_strict ''WORKER_COUNT'') (\<lambda>workerCount.
     check (get_env_strict ''WORKER_EXCHANGE_NAME'') (\<lambda>workerExchangeName.
     give (workerID, workerCount, workerExchangeName))))"

record conn_settings =
  Hostname :: string
  Port :: int

definition get_mom_config_from_env :: "conn_settings build" where
  "get_mom_config_from_env =
     check (get_env_strict ''MOM_HOST'') (\<lambda>host.
     check (get_env_int_strict ''MOM_PORT'') (\<lambda>port.
     give \<lparr>Hostname = host, Port = port\<rparr>))"

section \<open>Connections\<close>

text \<open>One call that opens something, and one that only may fail.\<close>

definition open_resource :: "resource \<Rightarrow> handle build" where
  "open_resource r s =
     (let h = (next_handle s, r)
      in case call (\<lambda>s. s\<lparr>live := h # live s, next_handle := Suc (next_handle s)\<rparr>) (ErrOther ''open'') s of
           (s', Some e) \<Rightarrow> (s', Inl e)
         | (s', None) \<Rightarrow> (s', Inr h))"

definition external :: "unit build" where
  "external s = (case call id (ErrOther ''call'') s of (s', Some e) \<Rightarrow> (s', Inl e) | (s', None) \<Rightarrow> (s', Inr ()))"

definition create_queue_middleware :: "string \<Rightarrow> handle build" where
  "create_queue_middleware name = open_resource (QueueConn name)"

definition exchange_queue_name :: "string \<Rightarrow> bool \<Rightarrow> string \<Rightarrow> string \<Rightarrow> string" where
  "exchange_queue_name name exclusive worker_id workerType =
     (if \<not> exclusive then name @ ''.'' @ workerType @ ''.'' @ worker_id else [])"

definition create_exchange_middleware :: "string \<Rightarrow> string list \<Rightarrow> bool \<Rightarrow> string \<Rightarrow> string \<Rightarrow> handle build" where
  "create_exchange_middleware name rkeys exclusive worker_id workerType =
     open_resource (ExchangeConn name rkeys (exchange_queue_name name exclusive worker_id workerType))"

text \<open>The exchanges that carry data: shared queues, named after \<open>WORKER_TYPE\<close>.\<close>

definition data_exchange :: "string \<Rightarrow> string list \<Rightarrow> string \<Rightarrow> handle build" where
  "data_exchange name rkeys worker_id s =
     create_exchange_middleware name rkeys False worker_id (getenv ''WORKER_TYPE'' s) s"

fun get_names :: "string list \<Rightarrow> string list build" where
  "get_names [] = give []"
| "get_names (key # ks) = check (get_env_strict key) (\<lambda>n. check (get_names ks) (\<lambda>ns. give (n # ns)))"

fun open_queues :: "handle list \<Rightarrow> string list \<Rightarrow> handle list build" where
  "open_queues opened [] = give opened"
| "open_queues opened (n # ns) =
     check_closing opened (create_queue_middleware n) (\<lambda>q. open_queues (opened @ [q]) ns)"

definition create_queues :: "string list \<Rightarrow> handle list build" where
  "create_queues aliases = check (get_names aliases) (open_queues [])"

definition create_input_output_queues :: "(handle \<times> handle) build" where
  "create_input_output_queues =
     check get_mom_config_from_env (\<lambda>_.
     check (create_queues [''INPUT_QUEUE_NAME'', ''OUTPUT_QUEUE_NAME'']) (\<lambda>queues.
     give (queues ! 0, queues ! 1)))"

definition create_input_exchange_output_queue :: "string \<Rightarrow> (handle \<times> handle) build" where
  "create_input_exchange_output_queue keyPrefix =
     check get_mom_config_from_env (\<lambda>_.
     check (get_env_strict ''INPUT_EXCHANGE_NAME'') (\<lambda>inputExchangeName.
     check (get_env_strict ''OUTPUT_QUEUE_NAME'') (\<lambda>outputQueueName.
     check (get_env_strict ''ID'') (\<lambda>worker_id.
     check (data_exchange inputExchangeName
              [(if keyPrefix = [] then inputExchangeName else keyPrefix) @ ''.'' @ worker_id] worker_id) (\<lambda>inputExchange.
     check_closing [inputExchange] (create_queue_middleware outputQueueName) (\<lambda>outputQueue.
     give (inputExchange, outputQueue)))))))"

text \<open>The keys \<open>exchange.0\<close>, \<open>exchange.1\<close> ...\<close>

definition build_numbered_exchange_keys :: "string \<Rightarrow> int \<Rightarrow> string list" where
  "build_numbered_exchange_keys name amount = map (\<lambda>i. name @ ''.'' @ show_int i) [0..amount - 1]"

definition create_exchange_output :: "string \<Rightarrow> string \<Rightarrow> string \<Rightarrow> (handle \<times> string list) build" where
  "create_exchange_output exchangeNameKey workerAmountName worker_id =
     check (get_env_strict exchangeNameKey) (\<lambda>exchangeName.
     check (get_env_int_strict workerAmountName) (\<lambda>workerAmount.
     check (panics_if (workerAmount < 0)) (\<lambda>_.
     let exchangeKeys = build_numbered_exchange_keys exchangeName workerAmount
     in check (data_exchange exchangeName exchangeKeys worker_id) (\<lambda>h.
     give (h, exchangeKeys)))))"

section \<open>Coordinators, heartbeats and checkpoints\<close>

record coordinator_wiring =
  cw_exchange :: handle
  cw_store :: handle
  cw_name :: string
  cw_id :: int
  cw_expectedEOFs :: u32
  cw_publishKeys :: "string list"
  cw_batchWeight :: int

record eof_coordinator_config =
  ec_PeersExchangeName :: string
  ec_WorkerID :: int
  ec_WorkerCount :: int
  ec_ExpectedEOFs :: int
  ec_MaxBatchWeight :: int

text \<open>
  \<open>NewEOFCoordinator\<close>: what \<open>new_eof_coordinator\<close> leaves out, the resources. The store stays open when the exchange
  cannot be set up.
\<close>

definition open_eof_coordinator :: "eof_coordinator_config \<Rightarrow> coordinator_wiring build" where
  "open_eof_coordinator cfg =
     check (create_exchange_middleware (ec_PeersExchangeName cfg) [peer_key (ec_PeersExchangeName cfg) (ec_WorkerID cfg)]
              True (show_int (ec_WorkerID cfg)) []) (\<lambda>ex.
     check (panics_if (ec_WorkerCount cfg - 1 < 0)) (\<lambda>_.
     check_closing [ex] (open_resource (StoreFiles (ec_PeersExchangeName cfg) (ec_WorkerID cfg))) (\<lambda>store.
     check_closing [ex] external (\<lambda>_.
     check_closing [store, ex] external (\<lambda>_.
     give \<lparr>cw_exchange = ex, cw_store = store, cw_name = ec_PeersExchangeName cfg, cw_id = ec_WorkerID cfg,
           cw_expectedEOFs = word_of_int (if ec_ExpectedEOFs cfg = 0 then defaultExpectedEOFs else ec_ExpectedEOFs cfg),
           cw_publishKeys = peer_keys (ec_PeersExchangeName cfg) (ec_WorkerID cfg) (ec_WorkerCount cfg),
           cw_batchWeight = ec_MaxBatchWeight cfg\<rparr>)))))"

definition coordinator_handles :: "coordinator_wiring \<Rightarrow> handle list" where
  "coordinator_handles c = [cw_store c, cw_exchange c]"

definition get_coordinator :: "int \<Rightarrow> int \<Rightarrow> coordinator_wiring build" where
  "get_coordinator maxBatchWeight flowAmount =
     check get_coordination_information_from_env (\<lambda>(workerID, workerCount, workerExchangeName).
     check get_mom_config_from_env (\<lambda>_.
     open_eof_coordinator \<lparr>ec_PeersExchangeName = workerExchangeName, ec_WorkerID = workerID,
       ec_WorkerCount = workerCount, ec_ExpectedEOFs = flowAmount, ec_MaxBatchWeight = maxBatchWeight\<rparr>))"

record heartbeat_publisher =
  hb_queue :: handle
  hb_containerName :: string
  hb_intervalSeconds :: int

definition build_heartbeat_publisher :: "heartbeat_publisher build" where
  "build_heartbeat_publisher =
     check get_mom_config_from_env (\<lambda>_.
     check (get_env_strict ''HEARTBEAT_QUEUE_NAME'') (\<lambda>heartbeatQueueName.
     check (get_env_int_strict ''HEARTBEAT_INTERVAL_SECONDS'') (\<lambda>intervalSeconds.
     check (create_queue_middleware heartbeatQueueName) (\<lambda>heartbeatQueue.
     check (get_env_strict ''CONTAINER_NAME'') (\<lambda>containerName.
     give \<lparr>hb_queue = heartbeatQueue, hb_containerName = containerName, hb_intervalSeconds = intervalSeconds\<rparr>)))))"

record checkpoint_wiring =
  ck_WorkerName :: string
  ck_WorkerID :: int
  ck_EveryBatches :: int

text \<open>\<open>None\<close> is the nil manager.\<close>

definition get_checkpoint_manager :: "checkpoint_wiring option build" where
  "get_checkpoint_manager =
     check (get_env_int_strict ''CHECKPOINT_EVERY_BATCHES'') (\<lambda>every.
     check (get_env_strict ''WORKER_EXCHANGE_NAME'') (\<lambda>workerName.
     check (get_env_int_strict ''ID'') (\<lambda>workerID.
     give (if every \<le> 0 then None
           else Some \<lparr>ck_WorkerName = workerName, ck_WorkerID = workerID, ck_EveryBatches = every\<rparr>))))"

section \<open>The wiring of a worker\<close>

text \<open>
  The batches a worker reads and writes. Each has an extractor, an inserter and a message type, and the functions of
  \<open>protoextractors\<close> and \<open>protoinserters\<close> are named after it.
\<close>

datatype payload =
    TransactionP | ToConvertTransactionP | MaxBankP | PeriodFilterP | MicrotransactionP | AvgByTypeTransactionP
  | ToConvertPeriodFilteredP | ToConvertTypeFilteredPaymentP | ConvertedAmountP | ScatterGatherP | GroupedAccountsP
  | IntermediaryPairP | SuspiciousPathP | MaxBankResultP | AvgByTypeResultP | ConvertedMicroPaymentResultP
  | SuspiciousAccountP

text \<open>\<open>WrapItems\<close> stands for the wrappers that only put the items into the batch.\<close>

datatype wrapper = WrapItems | WrapTransactionToMicroTransaction | WrapTransactionToMaxBank | WrapTransactionToPeriodFilter

datatype receiver_wiring =
    SingleReceiver handle message_type payload
  | FanInReceiver "handle list" "string list" message_type payload

datatype sender_wiring =
    SingleSender handle wrapper int payload string
  | DynamicKeySender handle string wrapper int payload string   \<comment> \<open>the string before the client in the key\<close>
  | RoutedSender handle wrapper int payload string
  | MultiSender "sender_wiring list"

datatype processor_wiring =
    CurrencyFilter string
  | ToConvertPeriodFilter period
  | AvgByTypePeriodFilter period period
  | ScatterGatherPeriodFilter period
  | FormatFilter "string list"
  | AmountFilter f64
  | CurrencyConverterProcessor string
  | MaxBankRouter "string list"
  | OriginDestinationRouter "string list" "string list"
  | PaymentTypeRouter "string list"
  | IntermediaryRouter "string list"
  | MicrotransactionJoinRouter "string list"
  | MaxBankToJoinRouter "string list"
  | AvgByTypeJoinRouter "string list"
  | SuspiciousPathToJoinRouter "string list"
  | ConvertedAmountJoinRouter "string list"
  | MaxBankProcessor | GroupByOriginProcessor | GroupByDestinationProcessor | AvgByTypeProcessor
  | AggregateByIntermediaryProcessor
  | MaxBankJoinProcessor | MicrotransactionJoinProcessor | AvgByTypeJoinProcessor | ConversionJoinProcessor
  | ScatterGatherJoinProcessor

text \<open>\<open>e_state\<close> is \<open>None\<close> for a stateless engine, and the id and the checkpoint manager of a stateful one.\<close>

record engine_wiring =
  e_receiver :: receiver_wiring
  e_sender :: sender_wiring
  e_processor :: processor_wiring
  e_coordinator :: coordinator_wiring
  e_state :: "(int \<times> checkpoint_wiring option) option"
  e_stopped :: bool

record worker_wiring =
  w_engines :: "engine_wiring list"
  w_heartbeat :: "heartbeat_publisher option"   \<comment> \<open>\<open>None\<close>: a nil publisher\<close>

fun receiver_handles :: "receiver_wiring \<Rightarrow> handle list" where
  "receiver_handles (SingleReceiver h _ _) = [h]"
| "receiver_handles (FanInReceiver hs _ _ _) = hs"

fun sender_handles :: "sender_wiring \<Rightarrow> handle list" where
  "sender_handles (SingleSender h _ _ _ _) = [h]"
| "sender_handles (DynamicKeySender h _ _ _ _ _) = [h]"
| "sender_handles (RoutedSender h _ _ _ _) = [h]"
| "sender_handles (MultiSender ss) = concat (map sender_handles ss)"

definition engine_handles :: "engine_wiring \<Rightarrow> handle list" where
  "engine_handles e =
     receiver_handles (e_receiver e) @ sender_handles (e_sender e) @ coordinator_handles (e_coordinator e)"

definition stateless_engine ::
  "receiver_wiring \<Rightarrow> sender_wiring \<Rightarrow> processor_wiring \<Rightarrow> coordinator_wiring \<Rightarrow> engine_wiring" where
  "stateless_engine rc sn p c =
     \<lparr>e_receiver = rc, e_sender = sn, e_processor = p, e_coordinator = c, e_state = None, e_stopped = False\<rparr>"

definition stateful_engine ::
  "int \<Rightarrow> receiver_wiring \<Rightarrow> sender_wiring \<Rightarrow> processor_wiring \<Rightarrow> coordinator_wiring \<Rightarrow> checkpoint_wiring option \<Rightarrow>
   engine_wiring" where
  "stateful_engine wid rc sn p c cm =
     \<lparr>e_receiver = rc, e_sender = sn, e_processor = p, e_coordinator = c, e_state = Some (wid, cm), e_stopped = False\<rparr>"

text \<open>\<open>Shutdown\<close> of an engine that was not stopped before.\<close>

definition shutdown_engine :: "engine_wiring \<Rightarrow> session \<Rightarrow> session" where
  "shutdown_engine e = close_all (engine_handles e)"

definition new_worker :: "heartbeat_publisher option \<Rightarrow> engine_wiring list \<Rightarrow> worker_wiring" where
  "new_worker hb es = \<lparr>w_engines = es, w_heartbeat = hb\<rparr>"

section \<open>The builders that workers share\<close>

definition build_single_receiver_single_sender_engine ::
  "handle \<Rightarrow> handle \<Rightarrow> message_type \<Rightarrow> payload \<Rightarrow> payload \<Rightarrow> processor_wiring \<Rightarrow> coordinator_wiring \<Rightarrow> int \<Rightarrow>
   engine_wiring build" where
  "build_single_receiver_single_sender_engine inputQueue outputQueue receivedType extractor inserter p c maxBatchWeight =
     check get_coordination_information_from_env (\<lambda>(_, _, ns).
     give (stateless_engine (SingleReceiver inputQueue receivedType extractor)
       (SingleSender outputQueue WrapItems maxBatchWeight inserter ns) p c))"

record stateless_config =
  sl_ReceivedMessageType :: message_type
  sl_Extractor :: payload
  sl_Inserter :: payload
  sl_Processor :: processor_wiring
  sl_MaxBatchWeight :: int

definition build_stateless_worker_input_queue_output_queue :: "stateless_config \<Rightarrow> worker_wiring build" where
  "build_stateless_worker_input_queue_output_queue cfg =
     check create_input_output_queues (\<lambda>(inputQueue, outputQueue).
     check get_coordination_information_from_env (\<lambda>(_, _, ns).
     check_closing [inputQueue, outputQueue] (get_coordinator (sl_MaxBatchWeight cfg) 1) (\<lambda>c.
     let e = stateless_engine (SingleReceiver inputQueue (sl_ReceivedMessageType cfg) (sl_Extractor cfg))
               (SingleSender outputQueue WrapItems (sl_MaxBatchWeight cfg) (sl_Inserter cfg) ns) (sl_Processor cfg) c
     in check_closing (engine_handles e) build_heartbeat_publisher (\<lambda>hb. give (new_worker (Some hb) [e])))))"

record sender_config =
  sc_id :: int
  sc_workerCount :: int
  sc_workerExchangeName :: string
  sc_expectedEOFs :: int
  sc_InputQueueName :: string
  sc_InputMessageType :: message_type
  sc_ExtractInputItems :: payload
  sc_Processor :: processor_wiring
  sc_Sender :: sender_wiring
  sc_maxBatchWeight :: int

text \<open>
  When the heartbeat publisher cannot be built, the engine is shut down, but the function goes on: it returns a
  worker with the stopped engine and no publisher.
\<close>

definition build_stateless_worker_with_sender :: "sender_config \<Rightarrow> worker_wiring build" where
  "build_stateless_worker_with_sender cfg =
     check_closing (sender_handles (sc_Sender cfg)) (create_queue_middleware (sc_InputQueueName cfg)) (\<lambda>inputQueue.
     check_closing (inputQueue # sender_handles (sc_Sender cfg))
       (open_eof_coordinator \<lparr>ec_PeersExchangeName = sc_workerExchangeName cfg, ec_WorkerID = sc_id cfg,
          ec_WorkerCount = sc_workerCount cfg, ec_ExpectedEOFs = sc_expectedEOFs cfg,
          ec_MaxBatchWeight = sc_maxBatchWeight cfg\<rparr>) (\<lambda>c.
     let e = stateless_engine (SingleReceiver inputQueue (sc_InputMessageType cfg) (sc_ExtractInputItems cfg))
               (sc_Sender cfg) (sc_Processor cfg) c
     in (\<lambda>s. case build_heartbeat_publisher s of
              (s', Inl err) \<Rightarrow> (shutdown_engine e s', Inr (new_worker None [e\<lparr>e_stopped := True\<rparr>]))
            | (s', Inr hb) \<Rightarrow> (s', Inr (new_worker (Some hb) [e])))))"

record routed_config =
  rt_InputMessageType :: message_type
  rt_ExtractInput :: payload
  rt_MakeProcessor :: "string list \<Rightarrow> processor_wiring"
  rt_Inserter :: payload

definition build_routed_to_join_worker :: "routed_config \<Rightarrow> worker_wiring build" where
  "build_routed_to_join_worker cfg =
     check get_mom_config_from_env (\<lambda>_.
     check (get_env_int_strict ''EXPECTED_EOF_AMOUNT'') (\<lambda>expected.
     check (get_env_strict ''INPUT_QUEUE_NAME'') (\<lambda>inQ.
     check (get_env_strict ''OUTPUT_EXCHANGE_NAME'') (\<lambda>exchangeName.
     check (get_env_int_strict ''OUTPUT_WORKER_AMOUNT'') (\<lambda>outputWorkerAmount.
     check (panics_if (outputWorkerAmount < 0)) (\<lambda>_.
     let rkeys = build_numbered_exchange_keys exchangeName outputWorkerAmount in
     check get_coordination_information_from_env (\<lambda>(wid, workerCount, workerExchangeName).
     check (create_queue_middleware inQ) (\<lambda>inputQueue.
     check_closing [inputQueue] (data_exchange exchangeName rkeys (show_int wid)) (\<lambda>ex.
     check (get_env_int_strict ''MAX_BATCH_WEIGHT'') (\<lambda>maxBatchWeight.
     check_closing [inputQueue, ex]
       (open_eof_coordinator \<lparr>ec_PeersExchangeName = workerExchangeName, ec_WorkerID = wid,
          ec_WorkerCount = workerCount, ec_ExpectedEOFs = expected, ec_MaxBatchWeight = maxBatchWeight\<rparr>) (\<lambda>c.
     let e = stateless_engine (SingleReceiver inputQueue (rt_InputMessageType cfg) (rt_ExtractInput cfg))
               (RoutedSender ex WrapItems maxBatchWeight (rt_Inserter cfg) workerExchangeName) (rt_MakeProcessor cfg rkeys) c
     in check_closing (engine_handles e) build_heartbeat_publisher (\<lambda>hb. give (new_worker (Some hb) [e])))))))))))))"

record stateful_config =
  sf_ReceivedMessageType :: message_type
  sf_Extractor :: payload
  sf_Inserter :: payload
  sf_Processor :: processor_wiring
  sf_keys :: string

definition build_stateful_worker_input_exchange_output_queue :: "stateful_config \<Rightarrow> worker_wiring build" where
  "build_stateful_worker_input_exchange_output_queue cfg =
     check (get_env_int_strict ''MAX_BATCH_WEIGHT'') (\<lambda>maxBatchWeight.
     check get_coordination_information_from_env (\<lambda>(wid, _, ns).
     check (create_input_exchange_output_queue (sf_keys cfg)) (\<lambda>(inputExchange, outputQueue).
     check_closing [inputExchange, outputQueue] (get_coordinator maxBatchWeight 1) (\<lambda>c.
     check_closing ([inputExchange, outputQueue] @ coordinator_handles c) get_checkpoint_manager (\<lambda>cm.
     check_closing ([inputExchange, outputQueue] @ coordinator_handles c) build_heartbeat_publisher (\<lambda>hb.
     give (new_worker (Some hb)
       [stateful_engine wid (SingleReceiver inputExchange (sf_ReceivedMessageType cfg) (sf_Extractor cfg))
          (SingleSender outputQueue WrapItems maxBatchWeight (sf_Inserter cfg) ns) (sf_Processor cfg) c cm])))))))"

record join_config =
  jn_ID :: int
  jn_InputExchangeName :: string
  jn_ClientExchangeName :: string
  jn_MaxBatchWeight :: int

definition get_join_config :: "join_config build" where
  "get_join_config =
     check get_mom_config_from_env (\<lambda>_.
     check (get_env_strict ''INPUT_EXCHANGE_NAME'') (\<lambda>inputExchangeName.
     check (get_env_strict ''CLIENT_EXCHANGE_NAME'') (\<lambda>clientExchangeName.
     check (get_env_int_strict ''ID'') (\<lambda>wid.
     check (get_env_int_strict ''MAX_BATCH_WEIGHT'') (\<lambda>maxBatchWeight.
     give \<lparr>jn_ID = wid, jn_InputExchangeName = inputExchangeName, jn_ClientExchangeName = clientExchangeName,
           jn_MaxBatchWeight = maxBatchWeight\<rparr>)))))"

definition build_join_worker ::
  "join_config \<Rightarrow> message_type \<Rightarrow> payload \<Rightarrow> processor_wiring \<Rightarrow> payload \<Rightarrow> worker_wiring build" where
  "build_join_worker cfg receivedType extractor p inserter =
     check (data_exchange (jn_InputExchangeName cfg) [jn_InputExchangeName cfg @ ''.'' @ show_int (jn_ID cfg)]
              (show_int (jn_ID cfg))) (\<lambda>inputExchange.
     check_closing [inputExchange]
       (data_exchange (jn_ClientExchangeName cfg) [jn_ClientExchangeName cfg] (show_int (jn_ID cfg))) (\<lambda>resultExchange.
     check_closing [inputExchange, resultExchange] (get_coordinator (jn_MaxBatchWeight cfg) 1) (\<lambda>c.
     check_closing ([inputExchange, resultExchange] @ coordinator_handles c) get_checkpoint_manager (\<lambda>cm.
     check_closing ([inputExchange, resultExchange] @ coordinator_handles c) build_heartbeat_publisher (\<lambda>hb.
     give (new_worker (Some hb)
       [stateful_engine (jn_ID cfg) (SingleReceiver inputExchange receivedType extractor)
          (DynamicKeySender resultExchange (jn_ClientExchangeName cfg @ ''.'') WrapItems (jn_MaxBatchWeight cfg) inserter
             (jn_InputExchangeName cfg)) p c cm]))))))"

end
