(* ===== verification/WorkerBuilders.thy ===== *)
theory WorkerBuilders
  imports Factory
begin

text \<open>
  \<open>internal/factory\<close>: the builder of each worker and \<open>CreateWorker\<close>, which chooses by \<open>WORKER_TYPE\<close>. The builders of
  the client, the gateway and the fault hypervisor end in the configuration they hand to the constructor.
\<close>

section \<open>Filters\<close>

definition build_currency_filter_worker :: "worker_wiring build" where
  "build_currency_filter_worker =
     check get_mom_config_from_env (\<lambda>_.
     check (create_queues [''INPUT_QUEUE_NAME'', ''MICROTRANSACTION_FILTER_QUEUE_NAME'', ''BANK_ROUTER_QUEUE_NAME'',
              ''PAYMENT_TYPE_PERIOD_FILTER_QUEUE_NAME'', ''SCATTER_GATHER_PERIOD_FILTER_QUEUE_NAME'']) (\<lambda>queues.
     check_closing queues (get_env_strict ''CURRENCY_TO_FILTER'') (\<lambda>currency.
     check_closing queues (get_env_int_strict ''MAX_BATCH_WEIGHT'') (\<lambda>maxBatchWeight.
     check_closing queues (get_coordinator maxBatchWeight 1) (\<lambda>c.
     check_closing (queues @ coordinator_handles c) build_heartbeat_publisher (\<lambda>hb.
     check get_coordination_information_from_env (\<lambda>(_, _, ns).
     give (new_worker (Some hb)
       [stateless_engine (SingleReceiver (queues ! 0) MT_TRANSACTION_BATCH TransactionP)
          (MultiSender
             [SingleSender (queues ! 1) WrapTransactionToMicroTransaction maxBatchWeight MicrotransactionP ns,
              SingleSender (queues ! 2) WrapTransactionToMaxBank maxBatchWeight MaxBankP ns,
              SingleSender (queues ! 3) WrapTransactionToPeriodFilter maxBatchWeight PeriodFilterP ns,
              SingleSender (queues ! 4) WrapTransactionToPeriodFilter maxBatchWeight PeriodFilterP ns])
          (CurrencyFilter currency) c]))))))))"

definition build_period_filter_coordinator :: "int \<Rightarrow> int \<Rightarrow> string \<Rightarrow> int \<Rightarrow> coordinator_wiring build" where
  "build_period_filter_coordinator wid workerCount workerExchangeName maxBatchWeight =
     open_eof_coordinator \<lparr>ec_PeersExchangeName = workerExchangeName, ec_WorkerID = wid, ec_WorkerCount = workerCount,
       ec_ExpectedEOFs = 0, ec_MaxBatchWeight = maxBatchWeight\<rparr>"

definition period_filter_queues :: "string list" where
  "period_filter_queues =
     [''RAW_INPUT_QUEUE_NAME'', ''PAYMENT_TYPE_PERIOD_FILTER_QUEUE_NAME'', ''SCATTER_GATHER_PERIOD_FILTER_QUEUE_NAME'',
      ''PAYMENT_TYPE_FILTER_QUEUE_NAME'', ''PAYMENT_TYPE_ROUTER_QUEUE_NAME'', ''ORIGIN_DESTINATION_ROUTER_QUEUE_NAME'']"

definition build_period_filter_worker :: "worker_wiring build" where
  "build_period_filter_worker =
     check get_mom_config_from_env (\<lambda>_.
     check (get_env_int_strict ''MAX_BATCH_WEIGHT'') (\<lambda>maxBatchWeight.
     check (create_queues period_filter_queues) (\<lambda>queues.
     check_closing queues (build_period_from_env ''SCATTER_GATHER_PERIOD_START'' ''SCATTER_GATHER_PERIOD_END'') (\<lambda>scatterGatherPeriod.
     check_closing queues (build_period_from_env ''PAYMENT_TYPE_PERIOD_START'' ''PAYMENT_TYPE_PERIOD_END'') (\<lambda>paymentTypePeriod.
     check_closing queues (build_period_from_env ''QUERY3_PERIOD_1_START'' ''QUERY3_PERIOD_1_END'') (\<lambda>query3Period1.
     check_closing queues (build_period_from_env ''QUERY3_PERIOD_2_START'' ''QUERY3_PERIOD_2_END'') (\<lambda>query3Period2.
     check_closing queues get_coordination_information_from_env (\<lambda>(wid, workerCount, workerExchangeName).
     check_closing queues
       (build_period_filter_coordinator wid workerCount (workerExchangeName @ ''.q5_raw'') maxBatchWeight) (\<lambda>rawC.
     check_closing (coordinator_handles rawC @ queues)
       (build_period_filter_coordinator wid workerCount (workerExchangeName @ ''.q3_periods'') maxBatchWeight) (\<lambda>query3C.
     check_closing (coordinator_handles rawC @ coordinator_handles query3C @ queues)
       (build_period_filter_coordinator wid workerCount (workerExchangeName @ ''.q4_scatter'') maxBatchWeight) (\<lambda>query4C.
     check_closing queues
       (build_single_receiver_single_sender_engine (queues ! 0) (queues ! 3) MT_TO_CONVERT_TRANSACTION_BATCH
          ToConvertTransactionP ToConvertPeriodFilteredP (ToConvertPeriodFilter paymentTypePeriod) rawC maxBatchWeight) (\<lambda>rawEngine.
     check_closing (engine_handles rawEngine @ queues)
       (build_single_receiver_single_sender_engine (queues ! 1) (queues ! 4) MT_PERIOD_FILTER_BATCH
          PeriodFilterP AvgByTypeTransactionP (AvgByTypePeriodFilter query3Period1 query3Period2) query3C maxBatchWeight) (\<lambda>query3Engine.
     check_closing (engine_handles rawEngine @ engine_handles query3Engine @ queues)
       (build_single_receiver_single_sender_engine (queues ! 2) (queues ! 5) MT_PERIOD_FILTER_BATCH
          PeriodFilterP ScatterGatherP (ScatterGatherPeriodFilter scatterGatherPeriod) query4C maxBatchWeight) (\<lambda>query4Engine.
     check_closing (engine_handles rawEngine @ engine_handles query3Engine @ engine_handles query4Engine)
       build_heartbeat_publisher (\<lambda>hb.
     give (new_worker (Some hb) [rawEngine, query3Engine, query4Engine]))))))))))))))))"

definition build_format_filter_worker :: "worker_wiring build" where
  "build_format_filter_worker =
     check (get_env_string_slice_strict ''VALID_PAYMENT_FORMATS'') (\<lambda>allowedFormats.
     check (get_env_int_strict ''MAX_BATCH_WEIGHT'') (\<lambda>maxBatchWeight.
     build_stateless_worker_input_queue_output_queue
       \<lparr>sl_ReceivedMessageType = MT_TO_CONVERT_PERIOD_FILTERED_BATCH, sl_Extractor = ToConvertPeriodFilteredP,
        sl_Inserter = ToConvertTypeFilteredPaymentP, sl_Processor = FormatFilter allowedFormats,
        sl_MaxBatchWeight = maxBatchWeight\<rparr>))"

definition build_amount_converted_filter_worker :: "float_ops \<Rightarrow> worker_wiring build" where
  "build_amount_converted_filter_worker F =
     check (get_env_float_strict F ''AMOUNT_TO_FILTER'') (\<lambda>amountToFilter.
     check (get_env_int_strict ''MAX_BATCH_WEIGHT'') (\<lambda>maxBatchWeight.
     build_stateless_worker_input_queue_output_queue
       \<lparr>sl_ReceivedMessageType = MT_CONVERTED_AMOUNT_BATCH, sl_Extractor = ConvertedAmountP,
        sl_Inserter = ConvertedAmountP, sl_Processor = AmountFilter amountToFilter, sl_MaxBatchWeight = maxBatchWeight\<rparr>))"

definition build_amount_filter_worker :: "float_ops \<Rightarrow> worker_wiring build" where
  "build_amount_filter_worker F =
     check (get_env_float_strict F ''AMOUNT_TO_FILTER'') (\<lambda>amountToFilter.
     check (get_env_int_strict ''MAX_BATCH_WEIGHT'') (\<lambda>maxBatchWeight.
     build_stateless_worker_input_queue_output_queue
       \<lparr>sl_ReceivedMessageType = MT_MICROTRANSACTION_BATCH, sl_Extractor = MicrotransactionP,
        sl_Inserter = MicrotransactionP, sl_Processor = AmountFilter amountToFilter, sl_MaxBatchWeight = maxBatchWeight\<rparr>))"

section \<open>The converter\<close>

text \<open>\<open>NewCurrencyConverter\<close> fails on no address that it is given.\<close>

definition build_currency_converter_worker :: "worker_wiring build" where
  "build_currency_converter_worker =
     check (get_env_strict ''EXCHANGE_RATE_API_URL'') (\<lambda>apiURL.
     check (get_env_int_strict ''MAX_BATCH_WEIGHT'') (\<lambda>maxBatchWeight.
     build_stateless_worker_input_queue_output_queue
       \<lparr>sl_ReceivedMessageType = MT_TO_CONVERT_TYPE_FILTERED_PAYMENT_BATCH, sl_Extractor = ToConvertTypeFilteredPaymentP,
        sl_Inserter = ConvertedAmountP, sl_Processor = CurrencyConverterProcessor apiURL,
        sl_MaxBatchWeight = maxBatchWeight\<rparr>))"

section \<open>Groupers and the aggregator\<close>

definition build_max_bank_worker :: "worker_wiring build" where
  "build_max_bank_worker =
     build_stateful_worker_input_exchange_output_queue
       \<lparr>sf_ReceivedMessageType = MT_MAXBANK_BATCH, sf_Extractor = MaxBankP, sf_Inserter = MaxBankResultP,
        sf_Processor = MaxBankProcessor, sf_keys = []\<rparr>"

definition build_group_by_origin_worker :: "worker_wiring build" where
  "build_group_by_origin_worker =
     build_stateful_worker_input_exchange_output_queue
       \<lparr>sf_ReceivedMessageType = MT_SCATTERGATHER_BATCH, sf_Extractor = ScatterGatherP, sf_Inserter = GroupedAccountsP,
        sf_Processor = GroupByOriginProcessor, sf_keys = ''origin''\<rparr>"

definition build_group_by_destination_worker :: "worker_wiring build" where
  "build_group_by_destination_worker =
     build_stateful_worker_input_exchange_output_queue
       \<lparr>sf_ReceivedMessageType = MT_SCATTERGATHER_BATCH, sf_Extractor = ScatterGatherP, sf_Inserter = GroupedAccountsP,
        sf_Processor = GroupByDestinationProcessor, sf_keys = ''destination''\<rparr>"

definition build_avg_by_type_grouper_worker :: "worker_wiring build" where
  "build_avg_by_type_grouper_worker =
     build_stateful_worker_input_exchange_output_queue
       \<lparr>sf_ReceivedMessageType = MT_AVGBYTYPE_TRANSACTION_BATCH, sf_Extractor = AvgByTypeTransactionP,
        sf_Inserter = AvgByTypeResultP, sf_Processor = AvgByTypeProcessor, sf_keys = []\<rparr>"

definition input_exchange :: "string \<Rightarrow> int \<Rightarrow> handle build" where
  "input_exchange name wid = data_exchange name [name @ ''.'' @ show_int wid] (show_int wid)"

definition build_aggregate_by_intermediary_worker :: "worker_wiring build" where
  "build_aggregate_by_intermediary_worker =
     check get_mom_config_from_env (\<lambda>_.
     check (get_env_int_strict ''ID'') (\<lambda>wid.
     check (get_env_strict ''ORIGIN_INPUT_EXCHANGE_NAME'') (\<lambda>originName.
     check (input_exchange originName wid) (\<lambda>originInput.
     check (get_env_strict ''DESTINATION_INPUT_EXCHANGE_NAME'') (\<lambda>destinationName.
     check_closing [originInput] (input_exchange destinationName wid) (\<lambda>destinationInput.
     check (get_env_strict ''OUTPUT_QUEUE_NAME'') (\<lambda>outputQueueName.
     check_closing [originInput, destinationInput] (create_queue_middleware outputQueueName) (\<lambda>outputQueue.
     check (get_env_int_strict ''MAX_BATCH_WEIGHT'') (\<lambda>maxBatchWeight.
     check_closing [originInput, destinationInput, outputQueue] (get_coordinator maxBatchWeight 2) (\<lambda>c.
     check get_checkpoint_manager (\<lambda>cm.
     check build_heartbeat_publisher (\<lambda>hb.
     give (new_worker (Some hb)
       [stateful_engine wid
          (FanInReceiver [originInput, destinationInput] [''origin'', ''destination''] MT_INTERMEDIARYPAIR_BATCH IntermediaryPairP)
          (SingleSender outputQueue WrapItems maxBatchWeight SuspiciousPathP outputQueueName)
          AggregateByIntermediaryProcessor c cm])))))))))))))"

section \<open>Routers\<close>

definition build_bank_router_worker :: "worker_wiring build" where
  "build_bank_router_worker =
     check get_mom_config_from_env (\<lambda>_.
     check (get_env_strict ''INPUT_QUEUE_NAME'') (\<lambda>inQ.
     check (get_env_int_strict ''MAX_BATCH_WEIGHT'') (\<lambda>maxBatchWeight.
     check (get_env_strict ''MAX_BANK_EXCHANGE_NAME'') (\<lambda>exchangeName.
     check (get_env_int_strict ''MAX_BANK_WORKER_AMOUNT'') (\<lambda>amount.
     check get_coordination_information_from_env (\<lambda>(wid, workerCount, workerExchangeName).
     check (panics_if (amount < 0)) (\<lambda>_.
     let rkeys = build_numbered_exchange_keys exchangeName amount in
     check (data_exchange exchangeName rkeys (show_int wid)) (\<lambda>ex.
     build_stateless_worker_with_sender
       \<lparr>sc_id = wid, sc_workerCount = workerCount, sc_workerExchangeName = workerExchangeName, sc_expectedEOFs = 2,
        sc_InputQueueName = inQ, sc_InputMessageType = MT_MAXBANK_BATCH, sc_ExtractInputItems = MaxBankP,
        sc_Processor = MaxBankRouter rkeys,
        sc_Sender = RoutedSender ex WrapItems maxBatchWeight MaxBankP workerExchangeName,
        sc_maxBatchWeight = maxBatchWeight\<rparr>))))))))"

definition build_origin_destination_router_worker :: "worker_wiring build" where
  "build_origin_destination_router_worker =
     check get_mom_config_from_env (\<lambda>_.
     check (get_env_int_strict ''MAX_BATCH_WEIGHT'') (\<lambda>maxBatchWeight.
     check (get_env_strict ''INPUT_QUEUE_NAME'') (\<lambda>inQ.
     check (get_env_int_strict ''GROUP_BY_ORIGIN_WORKER_AMOUNT'') (\<lambda>origins.
     check (get_env_strict ''GROUP_BY_EXCHANGE_NAME'') (\<lambda>exchangeName.
     check (get_env_int_strict ''GROUP_BY_DESTINATION_WORKER_AMOUNT'') (\<lambda>destinations.
     check get_coordination_information_from_env (\<lambda>(wid, workerCount, workerExchangeName).
     check (panics_if (origins < 0 \<or> destinations < 0)) (\<lambda>_.
     let originKeys = build_numbered_exchange_keys ''origin'' origins;
         destinationKeys = build_numbered_exchange_keys ''destination'' destinations in
     check (data_exchange exchangeName (originKeys @ destinationKeys) (show_int wid)) (\<lambda>ex.
     build_stateless_worker_with_sender
       \<lparr>sc_id = wid, sc_workerCount = workerCount, sc_workerExchangeName = workerExchangeName, sc_expectedEOFs = 0,
        sc_InputQueueName = inQ, sc_InputMessageType = MT_SCATTERGATHER_BATCH, sc_ExtractInputItems = ScatterGatherP,
        sc_Processor = OriginDestinationRouter originKeys destinationKeys,
        sc_Sender = RoutedSender ex WrapItems maxBatchWeight ScatterGatherP workerExchangeName,
        sc_maxBatchWeight = maxBatchWeight\<rparr>)))))))))"

definition build_payment_type_router_worker :: "worker_wiring build" where
  "build_payment_type_router_worker =
     check get_mom_config_from_env (\<lambda>_.
     check (get_env_strict ''ID'') (\<lambda>worker_id.
     check (get_env_int_strict ''MAX_BATCH_WEIGHT'') (\<lambda>maxBatchWeight.
     check (create_queues [''INPUT_QUEUE_NAME'']) (\<lambda>queues.
     check_closing [queues ! 0]
       (create_exchange_output ''PAYMENT_TYPE_EXCHANGE_NAME'' ''AVG_BY_TYPE_WORKER_AMOUNT'' worker_id) (\<lambda>(ex, rkeys).
     check_closing [queues ! 0, ex] (get_coordinator maxBatchWeight 1) (\<lambda>c.
     check_closing [queues ! 0, ex] (get_env_strict ''WORKER_EXCHANGE_NAME'') (\<lambda>workerExchangeName.
     let e = stateless_engine (SingleReceiver (queues ! 0) MT_AVGBYTYPE_TRANSACTION_BATCH AvgByTypeTransactionP)
               (RoutedSender ex WrapItems maxBatchWeight AvgByTypeTransactionP workerExchangeName)
               (PaymentTypeRouter rkeys) c
     in check_closing (engine_handles e) build_heartbeat_publisher (\<lambda>hb. give (new_worker (Some hb) [e])))))))))"

definition build_intermediary_router_worker :: "worker_wiring build" where
  "build_intermediary_router_worker =
     check get_mom_config_from_env (\<lambda>_.
     check (get_env_int_strict ''MAX_BATCH_WEIGHT'') (\<lambda>maxBatchWeight.
     check (get_env_strict ''INPUT_QUEUE_NAME'') (\<lambda>inQ.
     check (get_env_strict ''AGGREGATE_BY_INTERMEDIARY_EXCHANGE_NAME'') (\<lambda>exchangeName.
     check (get_env_int_strict ''AGGREGATE_BY_INTERMEDIARY_WORKER_AMOUNT'') (\<lambda>amount.
     check get_coordination_information_from_env (\<lambda>(wid, workerCount, workerExchangeName).
     check (get_env_int_strict ''INPUT_WORKERS_AMOUNT'') (\<lambda>inputWorkersAmount.
     check (panics_if (amount < 0)) (\<lambda>_.
     let rkeys = build_numbered_exchange_keys exchangeName amount in
     check (data_exchange exchangeName rkeys (show_int wid)) (\<lambda>ex.
     build_stateless_worker_with_sender
       \<lparr>sc_id = wid, sc_workerCount = workerCount, sc_workerExchangeName = workerExchangeName,
        sc_expectedEOFs = inputWorkersAmount, sc_InputQueueName = inQ, sc_InputMessageType = MT_GROUPED_ACCOUNTS_BATCH,
        sc_ExtractInputItems = GroupedAccountsP, sc_Processor = IntermediaryRouter rkeys,
        sc_Sender = RoutedSender ex WrapItems maxBatchWeight IntermediaryPairP workerExchangeName,
        sc_maxBatchWeight = maxBatchWeight\<rparr>)))))))))"

definition build_microtransaction_router_to_join_worker :: "worker_wiring build" where
  "build_microtransaction_router_to_join_worker = build_routed_to_join_worker
     \<lparr>rt_InputMessageType = MT_MICROTRANSACTION_BATCH, rt_ExtractInput = MicrotransactionP,
      rt_MakeProcessor = MicrotransactionJoinRouter, rt_Inserter = MicrotransactionP\<rparr>"

definition build_max_bank_router_to_join_worker :: "worker_wiring build" where
  "build_max_bank_router_to_join_worker = build_routed_to_join_worker
     \<lparr>rt_InputMessageType = MT_MAX_BANK_RESULT_BATCH, rt_ExtractInput = MaxBankResultP,
      rt_MakeProcessor = MaxBankToJoinRouter, rt_Inserter = MaxBankResultP\<rparr>"

definition build_avg_by_type_router_to_join_worker :: "worker_wiring build" where
  "build_avg_by_type_router_to_join_worker = build_routed_to_join_worker
     \<lparr>rt_InputMessageType = MT_AVGBYTYPE_RESULT_BATCH, rt_ExtractInput = AvgByTypeResultP,
      rt_MakeProcessor = AvgByTypeJoinRouter, rt_Inserter = AvgByTypeResultP\<rparr>"

definition build_suspicious_path_router_to_join_worker :: "worker_wiring build" where
  "build_suspicious_path_router_to_join_worker = build_routed_to_join_worker
     \<lparr>rt_InputMessageType = MT_SUSPICIOUS_PATH_BATCH, rt_ExtractInput = SuspiciousPathP,
      rt_MakeProcessor = SuspiciousPathToJoinRouter, rt_Inserter = SuspiciousPathP\<rparr>"

definition build_converted_amount_router_to_join_worker :: "worker_wiring build" where
  "build_converted_amount_router_to_join_worker = build_routed_to_join_worker
     \<lparr>rt_InputMessageType = MT_CONVERTED_AMOUNT_BATCH, rt_ExtractInput = ConvertedAmountP,
      rt_MakeProcessor = ConvertedAmountJoinRouter, rt_Inserter = ConvertedAmountP\<rparr>"

section \<open>Joins\<close>

definition build_max_bank_join_worker :: "worker_wiring build" where
  "build_max_bank_join_worker = check get_join_config (\<lambda>cfg.
     build_join_worker cfg MT_MAX_BANK_RESULT_BATCH MaxBankResultP MaxBankJoinProcessor MaxBankResultP)"

definition build_microtransaction_join_worker :: "worker_wiring build" where
  "build_microtransaction_join_worker = check get_join_config (\<lambda>cfg.
     build_join_worker cfg MT_MICROTRANSACTION_BATCH MicrotransactionP MicrotransactionJoinProcessor MicrotransactionP)"

definition build_avg_by_type_join_worker :: "worker_wiring build" where
  "build_avg_by_type_join_worker = check get_join_config (\<lambda>cfg.
     build_join_worker cfg MT_AVGBYTYPE_RESULT_BATCH AvgByTypeResultP AvgByTypeJoinProcessor AvgByTypeResultP)"

definition build_converted_micro_payment_join_worker :: "worker_wiring build" where
  "build_converted_micro_payment_join_worker = check get_join_config (\<lambda>cfg.
     build_join_worker cfg MT_CONVERTED_AMOUNT_BATCH ConvertedAmountP ConversionJoinProcessor ConvertedMicroPaymentResultP)"

definition build_scatter_gather_join_worker :: "worker_wiring build" where
  "build_scatter_gather_join_worker = check get_join_config (\<lambda>cfg.
     build_join_worker cfg MT_SUSPICIOUS_PATH_BATCH SuspiciousPathP ScatterGatherJoinProcessor SuspiciousAccountP)"

section \<open>Choosing the builder\<close>

definition built :: "worker_wiring build \<Rightarrow> worker_wiring option build" where
  "built m = check m (\<lambda>w. give (Some w))"

definition builders :: "float_ops \<Rightarrow> (string \<times> worker_wiring build) list" where
  "builders F =
     [(''CURRENCY_FILTER'', build_currency_filter_worker),
      (''BANK_ROUTER'', build_bank_router_worker),
      (''MAX_BANK'', build_max_bank_worker),
      (''MAX_BANK_JOIN'', build_max_bank_join_worker),
      (''ORIGIN_DESTINATION_ROUTER'', build_origin_destination_router_worker),
      (''PERIOD_FILTER'', build_period_filter_worker),
      (''GROUP_BY_ORIGIN'', build_group_by_origin_worker),
      (''GROUP_BY_DESTINATION'', build_group_by_destination_worker),
      (''INTERMEDIARY_ROUTER'', build_intermediary_router_worker),
      (''MICROTRANSACTION_JOIN'', build_microtransaction_join_worker),
      (''AMOUNT_FILTER'', build_amount_filter_worker F),
      (''PAYMENT_TYPE_ROUTER'', build_payment_type_router_worker),
      (''AVG_BY_TYPE'', build_avg_by_type_grouper_worker),
      (''AVG_BY_TYPE_JOIN'', build_avg_by_type_join_worker),
      (''FORMAT_FILTER'', build_format_filter_worker),
      (''CURRENCY_CONVERTER'', build_currency_converter_worker),
      (''AMOUNT_CONVERTED_FILTER'', build_amount_converted_filter_worker F),
      (''CONVERSION_JOIN'', build_converted_micro_payment_join_worker),
      (''AGGREGATE_BY_INTERMEDIARY'', build_aggregate_by_intermediary_worker),
      (''SCATTER_GATHER_JOIN'', build_scatter_gather_join_worker),
      (''MICROTRANSACTION_ROUTER_TO_JOIN'', build_microtransaction_router_to_join_worker),
      (''MAX_BANK_ROUTER_TO_JOIN'', build_max_bank_router_to_join_worker),
      (''AVG_BY_TYPE_ROUTER_TO_JOIN'', build_avg_by_type_router_to_join_worker),
      (''SUSPICIOUS_PATH_ROUTER_TO_JOIN'', build_suspicious_path_router_to_join_worker),
      (''CONVERTED_AMOUNT_ROUTER_TO_JOIN'', build_converted_amount_router_to_join_worker)]"

text \<open>\<open>CreateWorker\<close>: a type that no case names gives a nil worker and no error.\<close>

definition build_worker :: "float_ops \<Rightarrow> string \<Rightarrow> worker_wiring option build" where
  "build_worker F workerType =
     (case map_of (builders F) workerType of None \<Rightarrow> give None | Some b \<Rightarrow> built b)"

section \<open>The other programs\<close>

record gateway_config =
  gc_ServerHost :: string
  gc_ServerPort :: string
  gc_MomHost :: string
  gc_MomPort :: int
  gc_CurrencyQueueName :: string
  gc_RawDataQueueName :: string
  gc_ClientExchangeName :: string
  gc_MaxBankRouterQueue :: string
  gc_ConverterJoinAmount :: int

definition build_gateway :: "gateway_config build" where
  "build_gateway =
     check (get_env_strict ''OUTPUT_QUEUE_NAME'') (\<lambda>usdQueueName.
     check (get_env_strict ''CLIENT_EXCHANGE_NAME'') (\<lambda>clientExchange.
     check (get_env_strict ''RAW_DATA_QUEUE_NAME'') (\<lambda>rawDataQueueName.
     check (get_env_strict ''MAX_BANK_ROUTER_QUEUE_NAME'') (\<lambda>maxBankRouterQueueName.
     check (get_env_strict ''SERVER_HOST'') (\<lambda>serverHost.
     check (get_env_strict ''SERVER_PORT'') (\<lambda>serverPort.
     check (get_env_int_strict ''MOM_PORT'') (\<lambda>momPort.
     check (get_env_strict ''MOM_HOST'') (\<lambda>momHost.
     check (get_env_int_strict ''CONVERTER_JOIN_AMOUNT'') (\<lambda>converterJoinAmount.
     give \<lparr>gc_ServerHost = serverHost, gc_ServerPort = serverPort, gc_MomHost = momHost, gc_MomPort = momPort,
           gc_CurrencyQueueName = usdQueueName, gc_RawDataQueueName = rawDataQueueName,
           gc_ClientExchangeName = clientExchange, gc_MaxBankRouterQueue = maxBankRouterQueueName,
           gc_ConverterJoinAmount = converterJoinAmount\<rparr>)))))))))"

record client_config =
  cc_ServerHost :: string
  cc_ServerPort :: string
  cc_TransactionInputFile :: string
  cc_AccountsInputFile :: string
  cc_OutputDir :: string
  cc_MaxBatchWeight :: int

definition build_client :: "client_config build" where
  "build_client =
     check (get_env_strict ''SERVER_HOST'') (\<lambda>serverHost.
     check (get_env_strict ''SERVER_PORT'') (\<lambda>serverPort.
     check (get_env_strict ''INPUT_FILE_TRANSACTIONS'') (\<lambda>inputFile.
     check (get_env_strict ''INPUT_FILE_ACCOUNTS'') (\<lambda>accountsFile.
     check (get_env_strict ''OUTPUT_DIR'') (\<lambda>outputDir.
     check (get_env_int_strict ''MAX_BATCH_WEIGHT'') (\<lambda>maxBatchWeight.
     give \<lparr>cc_ServerHost = serverHost, cc_ServerPort = serverPort, cc_TransactionInputFile = inputFile,
           cc_AccountsInputFile = accountsFile, cc_OutputDir = outputDir, cc_MaxBatchWeight = maxBatchWeight\<rparr>))))))"

text \<open>\<open>'r\<close> is the runtime configuration, loaded from the file before.\<close>

record 'r hypervisor_config =
  hc_ConnectionSettings :: conn_settings
  hc_HeartbeatQueueName :: string
  hc_CheckIntervalSeconds :: int
  hc_HeartbeatTimeoutSeconds :: int
  hc_HypervisorID :: int
  hc_HypervisorCount :: int
  hc_CoordinationExchangeName :: string
  hc_CoordinationHeartbeatSeconds :: int
  hc_LeaderTimeoutSeconds :: int
  hc_ElectionTimeoutSeconds :: int
  hc_RuntimeConfig :: 'r

definition build_fault_hypervisor :: "go_error + 'r \<Rightarrow> 'r hypervisor_config build" where
  "build_fault_hypervisor loaded =
     check get_mom_config_from_env (\<lambda>connSettings.
     check (get_env_strict ''HEARTBEAT_QUEUE_NAME'') (\<lambda>heartbeatQueueName.
     check (get_env_int_strict ''CHECK_INTERVAL_SECONDS'') (\<lambda>checkInterval.
     check (get_env_int_strict ''HEARTBEAT_TIMEOUT_SECONDS'') (\<lambda>heartbeatTimeout.
     check (get_env_int_strict ''HYPERVISOR_ID'') (\<lambda>hypervisorID.
     check (get_env_int_strict ''HYPERVISOR_COUNT'') (\<lambda>hypervisorCount.
     check (get_env_strict ''COORDINATION_EXCHANGE_NAME'') (\<lambda>coordinationExchange.
     check (get_env_int_strict ''COORDINATION_HEARTBEAT_INTERVAL_SECONDS'') (\<lambda>coordinationHeartbeat.
     check (get_env_int_strict ''ELECTION_TIMEOUT_SECONDS'') (\<lambda>leaderTimeout.
     check (get_env_int_strict ''ELECTION_TIMEOUT_SECONDS'') (\<lambda>electionTimeout.
     check (case loaded of Inl e \<Rightarrow> throw e | Inr r \<Rightarrow> give r) (\<lambda>runtimeConfig.
     give \<lparr>hc_ConnectionSettings = connSettings, hc_HeartbeatQueueName = heartbeatQueueName,
           hc_CheckIntervalSeconds = checkInterval, hc_HeartbeatTimeoutSeconds = heartbeatTimeout,
           hc_HypervisorID = hypervisorID, hc_HypervisorCount = hypervisorCount,
           hc_CoordinationExchangeName = coordinationExchange,
           hc_CoordinationHeartbeatSeconds = coordinationHeartbeat, hc_LeaderTimeoutSeconds = leaderTimeout,
           hc_ElectionTimeoutSeconds = electionTimeout, hc_RuntimeConfig = runtimeConfig\<rparr>)))))))))))"

end
