(* ===== verification/FactorySpec.thy ===== *)
theory FactorySpec
  imports WorkerBuilders
begin

text \<open>
  What the builders promise when every call succeeds: from the variables of a container the wiring they return. The
  variables that every worker has are collected in a record; what a builder needs besides is a hypothesis.
\<close>

section \<open>A standard environment\<close>

record worker_env =
  we_id :: int
  we_count :: int
  we_exchange :: string
  we_type :: string
  we_weight :: int
  we_heartbeatQueue :: string
  we_interval :: int
  we_container :: string
  we_host :: string
  we_port :: int

definition has_int :: "session \<Rightarrow> string \<Rightarrow> int \<Rightarrow> bool" where
  "has_int s key i \<longleftrightarrow> (\<exists>v. mget (environ s) key = Some v \<and> atoi v = Some i)"

definition standard_env :: "session \<Rightarrow> worker_env \<Rightarrow> bool" where
  "standard_env s e \<longleftrightarrow>
     outcomes s = [] \<and> mget (environ s) ''ID'' = Some (show_int (we_id e)) \<and>
     has_int s ''ID'' (we_id e) \<and> has_int s ''WORKER_COUNT'' (we_count e) \<and> 1 \<le> we_count e \<and>
     mget (environ s) ''WORKER_EXCHANGE_NAME'' = Some (we_exchange e) \<and> getenv ''WORKER_TYPE'' s = we_type e \<and>
     has_int s ''MAX_BATCH_WEIGHT'' (we_weight e) \<and> mget (environ s) ''MOM_HOST'' = Some (we_host e) \<and>
     has_int s ''MOM_PORT'' (we_port e) \<and> mget (environ s) ''HEARTBEAT_QUEUE_NAME'' = Some (we_heartbeatQueue e) \<and>
     has_int s ''HEARTBEAT_INTERVAL_SECONDS'' (we_interval e) \<and> mget (environ s) ''CONTAINER_NAME'' = Some (we_container e)"

text \<open>The session after a connection has been opened.\<close>

definition opened :: "resource \<Rightarrow> session \<Rightarrow> session" where
  "opened r s = s\<lparr>live := (next_handle s, r) # live s, next_handle := Suc (next_handle s)\<rparr>"

named_theorems build_simps "evaluation of builders"

lemma opened_simps [build_simps]:
  "environ (opened r s) = environ s" "outcomes (opened r s) = outcomes s" "next_handle (opened r s) = Suc (next_handle s)"
  "has_int (opened r s) = has_int s" "standard_env (opened r s) = standard_env s" "getenv key (opened r s) = getenv key s"
  by (auto simp: opened_def has_int_def standard_env_def getenv_def fun_eq_iff)

lemmas check_steps [build_simps] = check_def check_closing_def give_def

lemma get_steps [build_simps]:
  "mget (environ s) key = Some v \<Longrightarrow> get_env_strict key s = (s, Inr v)"
  "has_int s key i \<Longrightarrow> get_env_int_strict key s = (s, Inr i)"
  "\<not> b \<Longrightarrow> panics_if b s = (s, Inr ())"
  by (auto simp: get_env_strict_def get_env_int_strict_def has_int_def check_def give_def panics_if_def)

lemma open_steps [build_simps]:
  "outcomes s = [] \<Longrightarrow> open_resource r s = (opened r s, Inr (next_handle s, r))"
  "outcomes s = [] \<Longrightarrow> external s = (s, Inr ())"
  by (simp_all add: open_resource_def external_def call_def opened_def Let_def)

lemma standard_steps [build_simps]:
  assumes "standard_env s e"
  shows "get_env_int_strict ''ID'' s = (s, Inr (we_id e))"
    "get_env_strict ''ID'' s = (s, Inr (show_int (we_id e)))"
    "get_coordination_information_from_env s = (s, Inr (we_id e, we_count e, we_exchange e))"
    "get_env_strict ''WORKER_EXCHANGE_NAME'' s = (s, Inr (we_exchange e))"
    "get_env_int_strict ''MAX_BATCH_WEIGHT'' s = (s, Inr (we_weight e))"
    "get_env_strict ''HEARTBEAT_QUEUE_NAME'' s = (s, Inr (we_heartbeatQueue e))"
    "get_env_int_strict ''HEARTBEAT_INTERVAL_SECONDS'' s = (s, Inr (we_interval e))"
    "get_env_strict ''CONTAINER_NAME'' s = (s, Inr (we_container e))"
    "get_mom_config_from_env s = (s, Inr \<lparr>Hostname = we_host e, Port = we_port e\<rparr>)"
    "open_resource r s = (opened r s, Inr (next_handle s, r))"
    "external s = (s, Inr ())"
  using assms
  by (auto simp: standard_env_def get_coordination_information_from_env_def get_mom_config_from_env_def build_simps)

lemma getenv_type [build_simps]: "standard_env s e \<Longrightarrow> getenv ''WORKER_TYPE'' s = we_type e"
  by (simp add: standard_env_def)

definition heartbeat_wiring :: "worker_env \<Rightarrow> nat \<Rightarrow> heartbeat_publisher" where
  "heartbeat_wiring e n = \<lparr>hb_queue = (n, QueueConn (we_heartbeatQueue e)), hb_containerName = we_container e,
     hb_intervalSeconds = we_interval e\<rparr>"

lemma heartbeat_built [build_simps]:
  "standard_env s e \<Longrightarrow> build_heartbeat_publisher s =
     (opened (QueueConn (we_heartbeatQueue e)) s, Inr (heartbeat_wiring e (next_handle s)))"
  by (simp add: build_heartbeat_publisher_def build_simps create_queue_middleware_def heartbeat_wiring_def)

section \<open>Connections, coordinators and checkpoints\<close>

text \<open>The exchange connection of a worker, whose queue carries its type and number.\<close>

definition exchange_of :: "worker_env \<Rightarrow> string \<Rightarrow> string list \<Rightarrow> resource" where
  "exchange_of e x rkeys = ExchangeConn x rkeys (x @ ''.'' @ we_type e @ ''.'' @ show_int (we_id e))"

definition input_of :: "worker_env \<Rightarrow> string \<Rightarrow> string \<Rightarrow> resource" where
  "input_of e x keyPrefix = exchange_of e x [keyPrefix @ ''.'' @ show_int (we_id e)]"

definition coordinator_spec :: "worker_env \<Rightarrow> string \<Rightarrow> int \<Rightarrow> nat \<Rightarrow> coordinator_wiring" where
  "coordinator_spec e name expected n =
     \<lparr>cw_exchange = (n, ExchangeConn name [peer_key name (we_id e)] []), cw_store = (Suc n, StoreFiles name (we_id e)),
      cw_name = name, cw_id = we_id e, cw_expectedEOFs = word_of_int (if expected = 0 then 1 else expected),
      cw_publishKeys = peer_keys name (we_id e) (we_count e), cw_batchWeight = we_weight e\<rparr>"

definition coordinator_opened :: "worker_env \<Rightarrow> string \<Rightarrow> session \<Rightarrow> session" where
  "coordinator_opened e name s =
     opened (StoreFiles name (we_id e)) (opened (ExchangeConn name [peer_key name (we_id e)] []) s)"

lemma coordinator_opened_simps [build_simps]:
  "environ (coordinator_opened e x s) = environ s" "next_handle (coordinator_opened e x s) = Suc (Suc (next_handle s))"
  "has_int (coordinator_opened e x s) = has_int s" "standard_env (coordinator_opened e x s) = standard_env s"
  by (simp_all add: coordinator_opened_def build_simps)

lemma coordinator_built [build_simps]:
  assumes "standard_env s e"
  shows "open_eof_coordinator \<lparr>ec_PeersExchangeName = x, ec_WorkerID = we_id e, ec_WorkerCount = we_count e,
           ec_ExpectedEOFs = k, ec_MaxBatchWeight = we_weight e\<rparr> s =
         (coordinator_opened e x s, Inr (coordinator_spec e x k (next_handle s)))"
    "get_coordinator (we_weight e) k s =
         (coordinator_opened e (we_exchange e) s, Inr (coordinator_spec e (we_exchange e) k (next_handle s)))"
proof -
  have c: "\<not> we_count e - 1 < 0" using assms by (simp add: standard_env_def)
  show o': "open_eof_coordinator \<lparr>ec_PeersExchangeName = x, ec_WorkerID = we_id e, ec_WorkerCount = we_count e,
           ec_ExpectedEOFs = k, ec_MaxBatchWeight = we_weight e\<rparr> s =
         (coordinator_opened e x s, Inr (coordinator_spec e x k (next_handle s)))" for x
    using assms c
    by (simp add: open_eof_coordinator_def create_exchange_middleware_def exchange_queue_name_def build_simps
      coordinator_spec_def coordinator_opened_def defaultExpectedEOFs_def)
  show "get_coordinator (we_weight e) k s =
         (coordinator_opened e (we_exchange e) s, Inr (coordinator_spec e (we_exchange e) k (next_handle s)))"
    using assms by (simp add: get_coordinator_def build_simps o')
qed

lemma queue_built [build_simps]:
  "outcomes s = [] \<Longrightarrow> create_queue_middleware q s = (opened (QueueConn q) s, Inr (next_handle s, QueueConn q))"
  "standard_env s e \<Longrightarrow> create_queue_middleware q s = (opened (QueueConn q) s, Inr (next_handle s, QueueConn q))"
  by (simp_all add: create_queue_middleware_def build_simps)

lemma exchange_built [build_simps]:
  "standard_env s e \<Longrightarrow> data_exchange x rkeys (show_int (we_id e)) s =
     (opened (exchange_of e x rkeys) s, Inr (next_handle s, exchange_of e x rkeys))"
  by (simp add: data_exchange_def create_exchange_middleware_def exchange_queue_name_def exchange_of_def build_simps)

lemma checkpoint_built [build_simps]:
  "standard_env s e \<Longrightarrow> has_int s ''CHECKPOINT_EVERY_BATCHES'' c \<Longrightarrow>
     get_checkpoint_manager s = (s, Inr (if c \<le> 0 then None
       else Some \<lparr>ck_WorkerName = we_exchange e, ck_WorkerID = we_id e, ck_EveryBatches = c\<rparr>))"
  by (simp add: get_checkpoint_manager_def build_simps)

definition checkpoint_spec :: "worker_env \<Rightarrow> int \<Rightarrow> checkpoint_wiring option" where
  "checkpoint_spec e c =
     (if c \<le> 0 then None else Some \<lparr>ck_WorkerName = we_exchange e, ck_WorkerID = we_id e, ck_EveryBatches = c\<rparr>)"

section \<open>The shared builders\<close>

definition stateless_spec :: "worker_env \<Rightarrow> stateless_config \<Rightarrow> string \<Rightarrow> string \<Rightarrow> worker_wiring" where
  "stateless_spec e cfg inQ outQ = new_worker (Some (heartbeat_wiring e 4))
     [stateless_engine (SingleReceiver (0, QueueConn inQ) (sl_ReceivedMessageType cfg) (sl_Extractor cfg))
        (SingleSender (1, QueueConn outQ) WrapItems (we_weight e) (sl_Inserter cfg) (we_exchange e))
        (sl_Processor cfg) (coordinator_spec e (we_exchange e) 1 2)]"

lemma stateless_built:
  assumes "standard_env s e" "next_handle s = 0" "mget (environ s) ''INPUT_QUEUE_NAME'' = Some inQ"
    "mget (environ s) ''OUTPUT_QUEUE_NAME'' = Some outQ" "sl_MaxBatchWeight cfg = we_weight e"
  shows "snd (build_stateless_worker_input_queue_output_queue cfg s) = Inr (stateless_spec e cfg inQ outQ)"
  using assms
  by (simp add: build_stateless_worker_input_queue_output_queue_def create_input_output_queues_def create_queues_def
    build_simps stateless_spec_def eval_nat_numeral Let_def)

definition with_sender_spec ::
  "worker_env \<Rightarrow> string \<Rightarrow> message_type \<Rightarrow> payload \<Rightarrow> string \<Rightarrow> string list \<Rightarrow> payload \<Rightarrow> processor_wiring \<Rightarrow> int \<Rightarrow>
   worker_wiring" where
  "with_sender_spec e inQ t extractor x rkeys inserter p expected = new_worker (Some (heartbeat_wiring e 4))
     [stateless_engine (SingleReceiver (1, QueueConn inQ) t extractor)
        (RoutedSender (0, exchange_of e x rkeys) WrapItems (we_weight e) inserter (we_exchange e)) p
        (coordinator_spec e (we_exchange e) expected 2)]"

definition routed_spec :: "worker_env \<Rightarrow> routed_config \<Rightarrow> string \<Rightarrow> string \<Rightarrow> int \<Rightarrow> int \<Rightarrow> worker_wiring" where
  "routed_spec e cfg inQ x n expected =
     (let rkeys = build_numbered_exchange_keys x n
      in new_worker (Some (heartbeat_wiring e 4))
           [stateless_engine (SingleReceiver (0, QueueConn inQ) (rt_InputMessageType cfg) (rt_ExtractInput cfg))
              (RoutedSender (1, exchange_of e x rkeys) WrapItems (we_weight e) (rt_Inserter cfg) (we_exchange e))
              (rt_MakeProcessor cfg rkeys) (coordinator_spec e (we_exchange e) expected 2)])"

lemma routed_built:
  assumes "standard_env s e" "next_handle s = 0" "mget (environ s) ''INPUT_QUEUE_NAME'' = Some inQ"
    "mget (environ s) ''OUTPUT_EXCHANGE_NAME'' = Some x" "has_int s ''OUTPUT_WORKER_AMOUNT'' n" "0 \<le> n"
    "has_int s ''EXPECTED_EOF_AMOUNT'' k"
  shows "snd (build_routed_to_join_worker cfg s) = Inr (routed_spec e cfg inQ x n k)"
  using assms
  by (simp add: build_routed_to_join_worker_def build_simps routed_spec_def eval_nat_numeral Let_def)

definition stateful_spec :: "worker_env \<Rightarrow> stateful_config \<Rightarrow> string \<Rightarrow> string \<Rightarrow> int \<Rightarrow> worker_wiring" where
  "stateful_spec e cfg x outQ c = new_worker (Some (heartbeat_wiring e 4))
     [stateful_engine (we_id e)
        (SingleReceiver (0, input_of e x (if sf_keys cfg = [] then x else sf_keys cfg)) (sf_ReceivedMessageType cfg) (sf_Extractor cfg))
        (SingleSender (1, QueueConn outQ) WrapItems (we_weight e) (sf_Inserter cfg) (we_exchange e))
        (sf_Processor cfg) (coordinator_spec e (we_exchange e) 1 2) (checkpoint_spec e c)]"

lemma stateful_built:
  assumes "standard_env s e" "next_handle s = 0" "mget (environ s) ''INPUT_EXCHANGE_NAME'' = Some x"
    "mget (environ s) ''OUTPUT_QUEUE_NAME'' = Some outQ" "has_int s ''CHECKPOINT_EVERY_BATCHES'' c"
  shows "snd (build_stateful_worker_input_exchange_output_queue cfg s) = Inr (stateful_spec e cfg x outQ c)"
  using assms
  by (simp add: build_stateful_worker_input_exchange_output_queue_def create_input_exchange_output_queue_def
    build_simps stateful_spec_def eval_nat_numeral input_of_def checkpoint_spec_def)

definition join_spec ::
  "worker_env \<Rightarrow> message_type \<Rightarrow> payload \<Rightarrow> processor_wiring \<Rightarrow> payload \<Rightarrow> string \<Rightarrow> string \<Rightarrow> int \<Rightarrow> worker_wiring" where
  "join_spec e t extractor p inserter x cl c = new_worker (Some (heartbeat_wiring e 4))
     [stateful_engine (we_id e) (SingleReceiver (0, input_of e x x) t extractor)
        (DynamicKeySender (1, exchange_of e cl [cl]) (cl @ ''.'') WrapItems (we_weight e) inserter x)
        p (coordinator_spec e (we_exchange e) 1 2) (checkpoint_spec e c)]"

lemma join_built:
  assumes "standard_env s e" "next_handle s = 0" "mget (environ s) ''INPUT_EXCHANGE_NAME'' = Some x"
    "mget (environ s) ''CLIENT_EXCHANGE_NAME'' = Some cl" "has_int s ''CHECKPOINT_EVERY_BATCHES'' c"
  shows "snd (check get_join_config (\<lambda>cfg. build_join_worker cfg t extractor p inserter) s) =
    Inr (join_spec e t extractor p inserter x cl c)"
  using assms
  by (simp add: get_join_config_def build_join_worker_def build_simps join_spec_def eval_nat_numeral input_of_def checkpoint_spec_def)

section \<open>The other workers\<close>

definition sending :: "worker_env \<Rightarrow> nat \<Rightarrow> string \<Rightarrow> wrapper \<Rightarrow> payload \<Rightarrow> sender_wiring" where
  "sending e n q wr p = SingleSender (n, QueueConn q) wr (we_weight e) p (we_exchange e)"

definition currency_spec :: "worker_env \<Rightarrow> string \<Rightarrow> string \<Rightarrow> string \<Rightarrow> string \<Rightarrow> string \<Rightarrow> string \<Rightarrow> worker_wiring" where
  "currency_spec e inQ micro bankQ ptPeriod sgPeriod cur = new_worker (Some (heartbeat_wiring e 7))
     [stateless_engine (SingleReceiver (0, QueueConn inQ) MT_TRANSACTION_BATCH TransactionP)
        (MultiSender
           [sending e 1 micro WrapTransactionToMicroTransaction MicrotransactionP,
            sending e 2 bankQ WrapTransactionToMaxBank MaxBankP,
            sending e 3 ptPeriod WrapTransactionToPeriodFilter PeriodFilterP,
            sending e 4 sgPeriod WrapTransactionToPeriodFilter PeriodFilterP])
        (CurrencyFilter cur) (coordinator_spec e (we_exchange e) 1 5)]"

lemma currency_built:
  assumes "standard_env s e" "next_handle s = 0" "mget (environ s) ''INPUT_QUEUE_NAME'' = Some inQ"
    "mget (environ s) ''MICROTRANSACTION_FILTER_QUEUE_NAME'' = Some micro"
    "mget (environ s) ''BANK_ROUTER_QUEUE_NAME'' = Some bankQ"
    "mget (environ s) ''PAYMENT_TYPE_PERIOD_FILTER_QUEUE_NAME'' = Some ptPeriod"
    "mget (environ s) ''SCATTER_GATHER_PERIOD_FILTER_QUEUE_NAME'' = Some sgPeriod"
    "mget (environ s) ''CURRENCY_TO_FILTER'' = Some cur"
  shows "snd (build_currency_filter_worker s) = Inr (currency_spec e inQ micro bankQ ptPeriod sgPeriod cur)"
  using assms
  by (simp add: build_currency_filter_worker_def create_queues_def build_simps currency_spec_def sending_def
    eval_nat_numeral Let_def)

definition period_engine_spec ::
  "worker_env \<Rightarrow> nat \<Rightarrow> string \<Rightarrow> nat \<Rightarrow> string \<Rightarrow> message_type \<Rightarrow> payload \<Rightarrow> payload \<Rightarrow> processor_wiring \<Rightarrow> string \<Rightarrow> nat \<Rightarrow>
   engine_wiring" where
  "period_engine_spec e ni inQ no outQ t extractor inserter p suffix nc =
     stateless_engine (SingleReceiver (ni, QueueConn inQ) t extractor) (sending e no outQ WrapItems inserter) p
       (coordinator_spec e (we_exchange e @ suffix) 0 nc)"

definition period_spec :: "worker_env \<Rightarrow> (string \<Rightarrow> string) \<Rightarrow> (string \<Rightarrow> period) \<Rightarrow> worker_wiring" where
  "period_spec e q per = new_worker (Some (heartbeat_wiring e 12))
     [period_engine_spec e 0 (q ''RAW_INPUT_QUEUE_NAME'') 3 (q ''PAYMENT_TYPE_FILTER_QUEUE_NAME'')
        MT_TO_CONVERT_TRANSACTION_BATCH ToConvertTransactionP ToConvertPeriodFilteredP
        (ToConvertPeriodFilter (per ''PAYMENT_TYPE_PERIOD'')) ''.q5_raw'' 6,
      period_engine_spec e 1 (q ''PAYMENT_TYPE_PERIOD_FILTER_QUEUE_NAME'') 4 (q ''PAYMENT_TYPE_ROUTER_QUEUE_NAME'')
        MT_PERIOD_FILTER_BATCH PeriodFilterP AvgByTypeTransactionP
        (AvgByTypePeriodFilter (per ''QUERY3_PERIOD_1'') (per ''QUERY3_PERIOD_2'')) ''.q3_periods'' 8,
      period_engine_spec e 2 (q ''SCATTER_GATHER_PERIOD_FILTER_QUEUE_NAME'') 5 (q ''ORIGIN_DESTINATION_ROUTER_QUEUE_NAME'')
        MT_PERIOD_FILTER_BATCH PeriodFilterP ScatterGatherP
        (ScatterGatherPeriodFilter (per ''SCATTER_GATHER_PERIOD'')) ''.q4_scatter'' 10]"

definition has_period :: "session \<Rightarrow> string \<Rightarrow> string \<Rightarrow> period \<Rightarrow> bool" where
  "has_period s a b p \<longleftrightarrow> (\<exists>x y. mget (environ s) a = Some x \<and> mget (environ s) b = Some y \<and>
     parse_rfc3339 x = Some (StartDate p) \<and> parse_rfc3339 y = Some (EndDate p))"

lemma period_read [build_simps]:
  "has_period s a b p \<Longrightarrow> build_period_from_env a b s = (s, Inr p)"
  "has_period (opened r s) = has_period s"
  by (auto simp: has_period_def build_period_from_env_def build_simps get_time_def fun_eq_iff)

lemma period_built:
  assumes "standard_env s e" "next_handle s = 0" "\<And>a. a \<in> set period_filter_queues \<Longrightarrow> mget (environ s) a = Some (q a)"
    "\<And>a. a \<in> {''SCATTER_GATHER_PERIOD'', ''PAYMENT_TYPE_PERIOD'', ''QUERY3_PERIOD_1'', ''QUERY3_PERIOD_2''} \<Longrightarrow>
       has_period s (a @ ''_START'') (a @ ''_END'') (per a)"
  shows "snd (build_period_filter_worker s) = Inr (period_spec e q per)"
proof -
  have qs: "mget (environ s) ''RAW_INPUT_QUEUE_NAME'' = Some (q ''RAW_INPUT_QUEUE_NAME'')"
    "mget (environ s) ''PAYMENT_TYPE_PERIOD_FILTER_QUEUE_NAME'' = Some (q ''PAYMENT_TYPE_PERIOD_FILTER_QUEUE_NAME'')"
    "mget (environ s) ''SCATTER_GATHER_PERIOD_FILTER_QUEUE_NAME'' = Some (q ''SCATTER_GATHER_PERIOD_FILTER_QUEUE_NAME'')"
    "mget (environ s) ''PAYMENT_TYPE_FILTER_QUEUE_NAME'' = Some (q ''PAYMENT_TYPE_FILTER_QUEUE_NAME'')"
    "mget (environ s) ''PAYMENT_TYPE_ROUTER_QUEUE_NAME'' = Some (q ''PAYMENT_TYPE_ROUTER_QUEUE_NAME'')"
    "mget (environ s) ''ORIGIN_DESTINATION_ROUTER_QUEUE_NAME'' = Some (q ''ORIGIN_DESTINATION_ROUTER_QUEUE_NAME'')"
    using assms(3) by (simp_all add: period_filter_queues_def)
  have ps: "has_period s ''SCATTER_GATHER_PERIOD_START'' ''SCATTER_GATHER_PERIOD_END'' (per ''SCATTER_GATHER_PERIOD'')"
    "has_period s ''PAYMENT_TYPE_PERIOD_START'' ''PAYMENT_TYPE_PERIOD_END'' (per ''PAYMENT_TYPE_PERIOD'')"
    "has_period s ''QUERY3_PERIOD_1_START'' ''QUERY3_PERIOD_1_END'' (per ''QUERY3_PERIOD_1'')"
    "has_period s ''QUERY3_PERIOD_2_START'' ''QUERY3_PERIOD_2_END'' (per ''QUERY3_PERIOD_2'')"
    using assms(4) [of "''SCATTER_GATHER_PERIOD''"] assms(4) [of "''PAYMENT_TYPE_PERIOD''"]
      assms(4) [of "''QUERY3_PERIOD_1''"] assms(4) [of "''QUERY3_PERIOD_2''"] by simp_all
  show ?thesis
    using assms(1,2) qs ps
    by (simp add: build_period_filter_worker_def build_period_filter_coordinator_def period_filter_queues_def
      create_queues_def build_single_receiver_single_sender_engine_def build_simps period_spec_def
      period_engine_spec_def sending_def eval_nat_numeral)
qed

definition payment_type_spec :: "worker_env \<Rightarrow> string \<Rightarrow> string \<Rightarrow> int \<Rightarrow> worker_wiring" where
  "payment_type_spec e inQ x n =
     (let rkeys = build_numbered_exchange_keys x n
      in new_worker (Some (heartbeat_wiring e 4))
           [stateless_engine (SingleReceiver (0, QueueConn inQ) MT_AVGBYTYPE_TRANSACTION_BATCH AvgByTypeTransactionP)
              (RoutedSender (1, exchange_of e x rkeys) WrapItems (we_weight e) AvgByTypeTransactionP (we_exchange e))
              (PaymentTypeRouter rkeys) (coordinator_spec e (we_exchange e) 1 2)])"

lemma payment_type_built:
  assumes "standard_env s e" "next_handle s = 0" "mget (environ s) ''INPUT_QUEUE_NAME'' = Some inQ"
    "mget (environ s) ''PAYMENT_TYPE_EXCHANGE_NAME'' = Some x" "has_int s ''AVG_BY_TYPE_WORKER_AMOUNT'' n" "0 \<le> n"
  shows "snd (build_payment_type_router_worker s) = Inr (payment_type_spec e inQ x n)"
  using assms
  by (simp add: build_payment_type_router_worker_def create_queues_def create_exchange_output_def build_simps
    payment_type_spec_def eval_nat_numeral Let_def)

lemma bank_router_built:
  assumes "standard_env s e" "next_handle s = 0" "mget (environ s) ''INPUT_QUEUE_NAME'' = Some inQ"
    "mget (environ s) ''MAX_BANK_EXCHANGE_NAME'' = Some x" "has_int s ''MAX_BANK_WORKER_AMOUNT'' n" "0 \<le> n"
  shows "snd (build_bank_router_worker s) = Inr (with_sender_spec e inQ MT_MAXBANK_BATCH MaxBankP x
    (build_numbered_exchange_keys x n) MaxBankP (MaxBankRouter (build_numbered_exchange_keys x n)) 2)"
  using assms
  by (simp add: build_bank_router_worker_def build_stateless_worker_with_sender_def build_simps
    with_sender_spec_def eval_nat_numeral Let_def)

lemma origin_destination_router_built:
  assumes "standard_env s e" "next_handle s = 0" "mget (environ s) ''INPUT_QUEUE_NAME'' = Some inQ"
    "mget (environ s) ''GROUP_BY_EXCHANGE_NAME'' = Some x" "has_int s ''GROUP_BY_ORIGIN_WORKER_AMOUNT'' n" "0 \<le> n"
    "has_int s ''GROUP_BY_DESTINATION_WORKER_AMOUNT'' m" "0 \<le> m"
  shows "snd (build_origin_destination_router_worker s) = Inr (with_sender_spec e inQ MT_SCATTERGATHER_BATCH ScatterGatherP x
    (build_numbered_exchange_keys ''origin'' n @ build_numbered_exchange_keys ''destination'' m) ScatterGatherP
    (OriginDestinationRouter (build_numbered_exchange_keys ''origin'' n) (build_numbered_exchange_keys ''destination'' m)) 0)"
  using assms
  by (simp add: build_origin_destination_router_worker_def build_stateless_worker_with_sender_def build_simps
    with_sender_spec_def eval_nat_numeral Let_def)

lemma intermediary_router_built:
  assumes "standard_env s e" "next_handle s = 0" "mget (environ s) ''INPUT_QUEUE_NAME'' = Some inQ"
    "mget (environ s) ''AGGREGATE_BY_INTERMEDIARY_EXCHANGE_NAME'' = Some x"
    "has_int s ''AGGREGATE_BY_INTERMEDIARY_WORKER_AMOUNT'' n" "0 \<le> n" "has_int s ''INPUT_WORKERS_AMOUNT'' k"
  shows "snd (build_intermediary_router_worker s) = Inr (with_sender_spec e inQ MT_GROUPED_ACCOUNTS_BATCH GroupedAccountsP x
    (build_numbered_exchange_keys x n) IntermediaryPairP (IntermediaryRouter (build_numbered_exchange_keys x n)) k)"
  using assms
  by (simp add: build_intermediary_router_worker_def build_stateless_worker_with_sender_def build_simps
    with_sender_spec_def eval_nat_numeral Let_def)

definition aggregator_spec :: "worker_env \<Rightarrow> string \<Rightarrow> string \<Rightarrow> string \<Rightarrow> int \<Rightarrow> worker_wiring" where
  "aggregator_spec e originX destX outQ c = new_worker (Some (heartbeat_wiring e 5))
     [stateful_engine (we_id e)
        (FanInReceiver [(0, input_of e originX originX), (1, input_of e destX destX)] [''origin'', ''destination'']
           MT_INTERMEDIARYPAIR_BATCH IntermediaryPairP)
        (SingleSender (2, QueueConn outQ) WrapItems (we_weight e) SuspiciousPathP outQ)
        AggregateByIntermediaryProcessor (coordinator_spec e (we_exchange e) 2 3) (checkpoint_spec e c)]"

lemma aggregator_built:
  assumes "standard_env s e" "next_handle s = 0" "mget (environ s) ''ORIGIN_INPUT_EXCHANGE_NAME'' = Some originX"
    "mget (environ s) ''DESTINATION_INPUT_EXCHANGE_NAME'' = Some destX"
    "mget (environ s) ''OUTPUT_QUEUE_NAME'' = Some outQ" "has_int s ''CHECKPOINT_EVERY_BATCHES'' c"
  shows "snd (build_aggregate_by_intermediary_worker s) = Inr (aggregator_spec e originX destX outQ c)"
  using assms
  by (simp add: build_aggregate_by_intermediary_worker_def input_exchange_def build_simps aggregator_spec_def
    input_of_def checkpoint_spec_def eval_nat_numeral)

end
