(* ===== verification/Deployment.thy ===== *)
theory Deployment
  imports FactorySpec Docker Gateway
begin

text \<open>
  The system that the repository's \<open>config.yml\<close> describes: its services, the environment the docker runtime gives
  each container, and the worker the factory builds from it.
\<close>

section \<open>The configuration file\<close>

definition service :: "string \<Rightarrow> int \<Rightarrow> string \<Rightarrow> string \<Rightarrow> (string \<times> string) list \<Rightarrow> string \<times> service_config" where
  "service name n t x e =
     (name, \<lparr>sc_Count = n, sc_WorkerType = t, sc_WorkerExchangeName = x, sc_Env = e\<rparr>)"

definition checkpoints :: "string \<times> string" where
  "checkpoints = (''CHECKPOINT_EVERY_BATCHES'', ''25'')"

definition client_svc :: "string \<times> service_config" where
  "client_svc = service ''client'' 2 [] [] []"

definition currency_filter_svc :: "string \<times> service_config" where
  "currency_filter_svc = service ''currency_filter'' 3 ''CURRENCY_FILTER'' []
     [(''INPUT_QUEUE_NAME'', ''currency_filter_input_queue''),
      (''MICROTRANSACTION_FILTER_QUEUE_NAME'', ''microtransaction_filter_input_queue''),
      (''BANK_ROUTER_QUEUE_NAME'', ''bank_router_input_queue''),
      (''PAYMENT_TYPE_PERIOD_FILTER_QUEUE_NAME'', ''payment_type_period_filter_input_queue''),
      (''SCATTER_GATHER_PERIOD_FILTER_QUEUE_NAME'', ''scatter_gather_period_filter_input_queue''),
      (''CURRENCY_TO_FILTER'', ''US Dollar''), (''HEARTBEAT_QUEUE_NAME'', ''heartbeat_queue''),
      (''HEARTBEAT_INTERVAL_SECONDS'', ''5'')]"

definition microtransaction_filter_svc :: "string \<times> service_config" where
  "microtransaction_filter_svc = service ''microtransaction_filter'' 2 ''AMOUNT_FILTER'' []
     [(''INPUT_QUEUE_NAME'', ''microtransaction_filter_input_queue''),
      (''OUTPUT_QUEUE_NAME'', ''microtransaction_router_to_join_input_queue''),
      (''AMOUNT_TO_FILTER'', ''50'')]"

definition microtransaction_router_to_join_svc :: "string \<times> service_config" where
  "microtransaction_router_to_join_svc = service ''microtransaction_router_to_join'' 2 ''MICROTRANSACTION_ROUTER_TO_JOIN'' []
     [(''INPUT_QUEUE_NAME'', ''microtransaction_router_to_join_input_queue''),
      (''OUTPUT_EXCHANGE_NAME'', ''microtransaction_join_exchange''), (''OUTPUT_WORKER_AMOUNT'', ''2''),
      (''EXPECTED_EOF_AMOUNT'', ''1'')]"

definition microtransaction_join_svc :: "string \<times> service_config" where
  "microtransaction_join_svc = service ''microtransaction_join'' 2 ''MICROTRANSACTION_JOIN'' []
     [(''INPUT_EXCHANGE_NAME'', ''microtransaction_join_exchange''),
      (''CLIENT_EXCHANGE_NAME'', ''client_results_exchange''), checkpoints]"

definition bank_router_svc :: "string \<times> service_config" where
  "bank_router_svc = service ''bank_router'' 2 ''BANK_ROUTER'' []
     [(''INPUT_QUEUE_NAME'', ''bank_router_input_queue''),
      (''MAX_BANK_EXCHANGE_NAME'', ''max_bank_input_exchange''), (''MAX_BANK_WORKER_AMOUNT'', ''2'')]"

definition max_bank_svc :: "string \<times> service_config" where
  "max_bank_svc = service ''max_bank'' 2 ''MAX_BANK'' ''MAX_BANK''
     [(''INPUT_EXCHANGE_NAME'', ''max_bank_input_exchange''),
      (''OUTPUT_QUEUE_NAME'', ''max_bank_join_input''), checkpoints]"

definition max_bank_router_to_join_svc :: "string \<times> service_config" where
  "max_bank_router_to_join_svc = service ''max_bank_router_to_join'' 2 ''MAX_BANK_ROUTER_TO_JOIN'' []
     [(''INPUT_QUEUE_NAME'', ''max_bank_join_input''),
      (''OUTPUT_EXCHANGE_NAME'', ''max_bank_join_exchange''), (''OUTPUT_WORKER_AMOUNT'', ''2''),
      (''EXPECTED_EOF_AMOUNT'', ''2'')]"

definition max_bank_join_svc :: "string \<times> service_config" where
  "max_bank_join_svc = service ''max_bank_join'' 2 ''MAX_BANK_JOIN'' []
     [(''INPUT_EXCHANGE_NAME'', ''max_bank_join_exchange''),
      (''CLIENT_EXCHANGE_NAME'', ''client_results_exchange''), (''MAX_BANK_WORKER_AMOUNT'', ''2''),
      checkpoints]"

definition period_filter_svc :: "string \<times> service_config" where
  "period_filter_svc = service ''period_filter'' 2 ''PERIOD_FILTER'' []
     [(''RAW_INPUT_QUEUE_NAME'', ''raw_transactions''),
      (''PAYMENT_TYPE_PERIOD_FILTER_QUEUE_NAME'', ''payment_type_period_filter_input_queue''),
      (''SCATTER_GATHER_PERIOD_FILTER_QUEUE_NAME'', ''scatter_gather_period_filter_input_queue''),
      (''ORIGIN_DESTINATION_ROUTER_QUEUE_NAME'', ''origin_destination_router''),
      (''PAYMENT_TYPE_FILTER_QUEUE_NAME'', ''payment_format_filter_input''),
      (''SCATTER_GATHER_PERIOD_START'', ''2022-09-01T00:00:00Z''),
      (''SCATTER_GATHER_PERIOD_END'', ''2022-09-05T23:59:59Z''),
      (''PAYMENT_TYPE_PERIOD_START'', ''2022-09-01T00:00:00Z''),
      (''PAYMENT_TYPE_PERIOD_END'', ''2022-09-05T23:59:59Z''),
      (''PAYMENT_TYPE_ROUTER_QUEUE_NAME'', ''payment_type_router_input''),
      (''QUERY3_PERIOD_1_START'', ''2022-09-01T00:00:00Z''),
      (''QUERY3_PERIOD_1_END'', ''2022-09-05T23:59:59Z''),
      (''QUERY3_PERIOD_2_START'', ''2022-09-06T00:00:00Z''),
      (''QUERY3_PERIOD_2_END'', ''2022-09-14T23:59:59Z'')]"

definition payment_type_router_svc :: "string \<times> service_config" where
  "payment_type_router_svc = service ''payment_type_router'' 2 ''PAYMENT_TYPE_ROUTER'' []
     [(''INPUT_QUEUE_NAME'', ''payment_type_router_input''),
      (''PAYMENT_TYPE_EXCHANGE_NAME'', ''payment_type_exchange''), (''AVG_BY_TYPE_WORKER_AMOUNT'', ''2'')]"

definition avg_by_type_svc :: "string \<times> service_config" where
  "avg_by_type_svc = service ''avg_by_type'' 2 ''AVG_BY_TYPE'' ''AVG_BY_TYPE''
     [(''INPUT_EXCHANGE_NAME'', ''payment_type_exchange''),
      (''OUTPUT_QUEUE_NAME'', ''avg_by_type_router_to_join_input''), checkpoints]"

definition avg_by_type_router_to_join_svc :: "string \<times> service_config" where
  "avg_by_type_router_to_join_svc = service ''avg_by_type_router_to_join'' 2 ''AVG_BY_TYPE_ROUTER_TO_JOIN'' []
     [(''INPUT_QUEUE_NAME'', ''avg_by_type_router_to_join_input''),
      (''OUTPUT_EXCHANGE_NAME'', ''avg_by_type_join_input''), (''OUTPUT_WORKER_AMOUNT'', ''2''),
      (''EXPECTED_EOF_AMOUNT'', ''2'')]"

definition avg_by_type_join_svc :: "string \<times> service_config" where
  "avg_by_type_join_svc = service ''avg_by_type_join'' 2 ''AVG_BY_TYPE_JOIN'' []
     [(''INPUT_EXCHANGE_NAME'', ''avg_by_type_join_input''),
      (''CLIENT_EXCHANGE_NAME'', ''client_results_exchange''), (''EXPECTED_EOFS'', ''1''), checkpoints]"

definition origin_destination_router_svc :: "string \<times> service_config" where
  "origin_destination_router_svc = service ''origin_destination_router'' 2 ''ORIGIN_DESTINATION_ROUTER'' []
     [(''INPUT_QUEUE_NAME'', ''origin_destination_router''),
      (''GROUP_BY_EXCHANGE_NAME'', ''group_by_origin_destination''),
      (''GROUP_BY_ORIGIN_WORKER_AMOUNT'', ''2''), (''GROUP_BY_DESTINATION_WORKER_AMOUNT'', ''2'')]"

definition group_by_origin_svc :: "string \<times> service_config" where
  "group_by_origin_svc = service ''group_by_origin'' 2 ''GROUP_BY_ORIGIN'' ''GROUP_BY_ORIGIN''
     [(''INPUT_EXCHANGE_NAME'', ''group_by_origin_destination''),
      (''OUTPUT_QUEUE_NAME'', ''grouped_origin_accounts''), checkpoints]"

definition group_by_destination_svc :: "string \<times> service_config" where
  "group_by_destination_svc = service ''group_by_destination'' 2 ''GROUP_BY_DESTINATION'' ''GROUP_BY_DESTINATION''
     [(''INPUT_EXCHANGE_NAME'', ''group_by_origin_destination''),
      (''OUTPUT_QUEUE_NAME'', ''grouped_destination_accounts''), checkpoints]"

definition origin_intermediary_router_svc :: "string \<times> service_config" where
  "origin_intermediary_router_svc = service ''origin_intermediary_router'' 2 ''INTERMEDIARY_ROUTER'' ''ORIGIN_INTERMEDIARY_ROUTER''
     [(''INPUT_QUEUE_NAME'', ''grouped_origin_accounts''),
      (''AGGREGATE_BY_INTERMEDIARY_EXCHANGE_NAME'', ''origin_intermediary_aggregation''),
      (''AGGREGATE_BY_INTERMEDIARY_WORKER_AMOUNT'', ''2''), (''INPUT_WORKERS_AMOUNT'', ''2''), checkpoints]"

definition destination_intermediary_router_svc :: "string \<times> service_config" where
  "destination_intermediary_router_svc = service ''destination_intermediary_router'' 2 ''INTERMEDIARY_ROUTER'' ''DESTINATION_INTERMEDIARY_ROUTER''
     [(''INPUT_QUEUE_NAME'', ''grouped_destination_accounts''),
      (''AGGREGATE_BY_INTERMEDIARY_EXCHANGE_NAME'', ''destination_intermediary_aggregation''),
      (''AGGREGATE_BY_INTERMEDIARY_WORKER_AMOUNT'', ''2''), (''INPUT_WORKERS_AMOUNT'', ''2'')]"

definition aggregate_by_intermediary_svc :: "string \<times> service_config" where
  "aggregate_by_intermediary_svc = service ''aggregate_by_intermediary'' 2 ''AGGREGATE_BY_INTERMEDIARY'' []
     [(''ORIGIN_INPUT_EXCHANGE_NAME'', ''origin_intermediary_aggregation''),
      (''DESTINATION_INPUT_EXCHANGE_NAME'', ''destination_intermediary_aggregation''),
      (''OUTPUT_QUEUE_NAME'', ''suspicious_path_router_join_input''), (''OUTPUT_WORKER_AMOUNT'', ''2''),
      checkpoints]"

definition suspicious_path_router_to_join_svc :: "string \<times> service_config" where
  "suspicious_path_router_to_join_svc = service ''suspicious_path_router_to_join'' 2 ''SUSPICIOUS_PATH_ROUTER_TO_JOIN'' []
     [(''INPUT_QUEUE_NAME'', ''suspicious_path_router_join_input''),
      (''OUTPUT_EXCHANGE_NAME'', ''suspicious_paths_output''), (''OUTPUT_WORKER_AMOUNT'', ''2''),
      (''EXPECTED_EOF_AMOUNT'', ''2''), checkpoints]"

definition scatter_gather_join_svc :: "string \<times> service_config" where
  "scatter_gather_join_svc = service ''scatter_gather_join'' 2 ''SCATTER_GATHER_JOIN'' []
     [(''INPUT_EXCHANGE_NAME'', ''suspicious_paths_output''),
      (''CLIENT_EXCHANGE_NAME'', ''client_results_exchange''),
      (''AGGREGATE_BY_INTERMEDIARY_WORKER_AMOUNT'', ''1''), checkpoints]"

definition payment_format_filter_svc :: "string \<times> service_config" where
  "payment_format_filter_svc = service ''payment_format_filter'' 2 ''FORMAT_FILTER'' []
     [(''INPUT_QUEUE_NAME'', ''payment_format_filter_input''),
      (''OUTPUT_QUEUE_NAME'', ''conversion_format_input''), (''VALID_PAYMENT_FORMATS'', ''Wire,ACH'')]"

definition currency_converter_svc :: "string \<times> service_config" where
  "currency_converter_svc = service ''currency_converter'' 2 ''CURRENCY_CONVERTER'' []
     [(''INPUT_QUEUE_NAME'', ''conversion_format_input''),
      (''OUTPUT_QUEUE_NAME'', ''filtered_currency_conversion_input''),
      (''EXCHANGE_RATE_API_URL'', ''https://api.frankfurter.dev/v2/rates?base=USD'')]"

definition amount_converted_filter_svc :: "string \<times> service_config" where
  "amount_converted_filter_svc = service ''amount_converted_filter'' 2 ''AMOUNT_CONVERTED_FILTER'' []
     [(''INPUT_QUEUE_NAME'', ''filtered_currency_conversion_input''),
      (''OUTPUT_QUEUE_NAME'', ''converted_amount_router_join_input''), (''AMOUNT_TO_FILTER'', ''1.00'')]"

definition converted_amount_router_to_join_svc :: "string \<times> service_config" where
  "converted_amount_router_to_join_svc = service ''converted_amount_router_to_join'' 2 ''CONVERTED_AMOUNT_ROUTER_TO_JOIN'' []
     [(''INPUT_QUEUE_NAME'', ''converted_amount_router_join_input''),
      (''OUTPUT_EXCHANGE_NAME'', ''converted_amount_output''), (''OUTPUT_WORKER_AMOUNT'', ''2''),
      (''EXPECTED_EOF_AMOUNT'', ''1'')]"

definition converter_join_svc :: "string \<times> service_config" where
  "converter_join_svc = service ''converter_join'' 2 ''CONVERSION_JOIN'' []
     [(''INPUT_EXCHANGE_NAME'', ''converted_amount_output''),
      (''CLIENT_EXCHANGE_NAME'', ''client_results_exchange''), checkpoints]"

definition services_yml :: "(string, service_config) gomap" where
  "services_yml =
     [client_svc, currency_filter_svc, microtransaction_filter_svc, microtransaction_router_to_join_svc,
      microtransaction_join_svc, bank_router_svc, max_bank_svc, max_bank_router_to_join_svc, max_bank_join_svc,
      period_filter_svc, payment_type_router_svc, avg_by_type_svc, avg_by_type_router_to_join_svc,
      avg_by_type_join_svc, origin_destination_router_svc, group_by_origin_svc, group_by_destination_svc,
      origin_intermediary_router_svc, destination_intermediary_router_svc, aggregate_by_intermediary_svc,
      suspicious_path_router_to_join_svc, scatter_gather_join_svc, payment_format_filter_svc,
      currency_converter_svc, amount_converted_filter_svc, converted_amount_router_to_join_svc,
      converter_join_svc]"

definition config_yml :: config_file where
  "config_yml = \<lparr>GlobalLogLevel = ''info'', Services = services_yml,
     GlobalWorkerBatchSize = 1000000\<rparr>"

definition runtime_yml :: runtime_config where
  "runtime_yml = \<lparr>NetworkName = ''money_laundering_network'', WorkerImage = ''tp-worker'', MomPort = 5672,
     HeartbeatQueueName = ''heartbeat_queue'', rc_HeartbeatInterval = 5,
     WorkerDockerfile = ''/workspace/cmd/worker/Dockerfile'', BuildContext = ''/workspace'',
     HypervisorWorkerStoragePath = ''/worker-storage'', WorkerStoragePath = ''/storage''\<rparr>"

section \<open>The containers\<close>

text \<open>
  The environment that \<open>docker run\<close> gives a container: the \<open>-e\<close> options, of which a later one replaces an earlier
  one for the same variable.
\<close>

fun env_options :: "string list \<Rightarrow> (string \<times> string) list" where
  "env_options (a # b # as) =
     (if a = ''-e'' then (takeWhile (\<lambda>c. c \<noteq> CHR ''='') b, drop 1 (dropWhile (\<lambda>c. c \<noteq> CHR ''='') b)) # env_options as
      else env_options (b # as))"
| "env_options _ = []"

definition container_session :: "docker_runtime \<Rightarrow> worker_definition \<Rightarrow> int \<Rightarrow> session" where
  "container_session r def i =
     \<lparr>outcomes = [], environ = rev (env_options (create_args r (worker_name (ServiceName def) i) i def)), live = [],
      next_handle = 0\<rparr>"

definition container_worker :: "float_ops \<Rightarrow> session \<Rightarrow> go_error + worker_wiring option" where
  "container_worker F s = snd (build_worker F (getenv ''WORKER_TYPE'' s) s)"

definition deployed_sessions :: "config_file \<Rightarrow> docker_runtime \<Rightarrow> session list" where
  "deployed_sessions cfg r =
     (case load_workers_from_config (Inr cfg) of
        Inl e \<Rightarrow> []
      | Inr defs \<Rightarrow> concat (map (\<lambda>def. map (container_session r def) [0..Docker.WorkerCount def - 1]) defs))"

definition deployed :: "float_ops \<Rightarrow> config_file \<Rightarrow> docker_runtime \<Rightarrow> (go_error + worker_wiring option) list" where
  "deployed F cfg r = map (container_worker F) (deployed_sessions cfg r)"

section \<open>What is sent where\<close>

datatype place = InQueue string | InExchange string string   \<comment> \<open>a queue; an exchange and a routing key\<close>

fun resource_places :: "resource \<Rightarrow> place list" where
  "resource_places (QueueConn q) = [InQueue q]"
| "resource_places (ExchangeConn x rkeys _) = map (InExchange x) rkeys"
| "resource_places (StoreFiles _ _) = []"

text \<open>Every publication of a sender, with the places an EOF reaches; a dynamic sender writes to the clients.\<close>

fun sends :: "sender_wiring \<Rightarrow> (place list \<times> payload) list" where
  "sends (SingleSender h _ _ p _) = [(resource_places (snd h), p)]"
| "sends (RoutedSender h _ _ p _) = [(resource_places (snd h), p)]"
| "sends (DynamicKeySender _ _ _ _ _ _) = []"
| "sends (MultiSender ss) = concat (map sends ss)"

fun receiver_reads :: "receiver_wiring \<Rightarrow> (resource \<times> message_type \<times> payload) list" where
  "receiver_reads (SingleReceiver h t p) = [(snd h, t, p)]"
| "receiver_reads (FanInReceiver hs _ t p) = map (\<lambda>h. (snd h, t, p)) hs"

definition engine_places :: "engine_wiring \<Rightarrow> place list" where
  "engine_places e = concat (map (\<lambda>i. resource_places (fst i)) (receiver_reads (e_receiver e)))"

fun message_type_of :: "payload \<Rightarrow> message_type" where
  "message_type_of TransactionP = MT_TRANSACTION_BATCH"
| "message_type_of ToConvertTransactionP = MT_TO_CONVERT_TRANSACTION_BATCH"
| "message_type_of MaxBankP = MT_MAXBANK_BATCH"
| "message_type_of PeriodFilterP = MT_PERIOD_FILTER_BATCH"
| "message_type_of MicrotransactionP = MT_MICROTRANSACTION_BATCH"
| "message_type_of AvgByTypeTransactionP = MT_AVGBYTYPE_TRANSACTION_BATCH"
| "message_type_of ToConvertPeriodFilteredP = MT_TO_CONVERT_PERIOD_FILTERED_BATCH"
| "message_type_of ToConvertTypeFilteredPaymentP = MT_TO_CONVERT_TYPE_FILTERED_PAYMENT_BATCH"
| "message_type_of ConvertedAmountP = MT_CONVERTED_AMOUNT_BATCH"
| "message_type_of ScatterGatherP = MT_SCATTERGATHER_BATCH"
| "message_type_of GroupedAccountsP = MT_GROUPED_ACCOUNTS_BATCH"
| "message_type_of IntermediaryPairP = MT_INTERMEDIARYPAIR_BATCH"
| "message_type_of SuspiciousPathP = MT_SUSPICIOUS_PATH_BATCH"
| "message_type_of MaxBankResultP = MT_MAX_BANK_RESULT_BATCH"
| "message_type_of AvgByTypeResultP = MT_AVGBYTYPE_RESULT_BATCH"
| "message_type_of ConvertedMicroPaymentResultP = MT_CONVERTED_MICRO_PAYMENT_RESULT_BATCH"
| "message_type_of SuspiciousAccountP = MT_SUSPICIOUS_ACCOUNT_BATCH"

text \<open>The types are the ones the inserters write.\<close>

lemma message_type_of_inserters:
  "ml_type (transaction_batch_msg cid ts bid) = message_type_of TransactionP"
  "ml_type (to_convert_batch_msg cid tcs bid) = message_type_of ToConvertTransactionP"
  "ml_type (account_batch_msg cid ms bid) = message_type_of MaxBankP"
  "ml_type (insert_maxbank_batch cid bid ms) = message_type_of MaxBankP"
  "ml_type (insert_period_filter_batch cid bid ps) = message_type_of PeriodFilterP"
  "ml_type (insert_microtransaction_batch cid bid mts) = message_type_of MicrotransactionP"
  "ml_type (insert_avg_by_type_transaction_batch cid bid avs) = message_type_of AvgByTypeTransactionP"
  "ml_type (insert_to_convert_period_filtered_batch cid bid tcs) = message_type_of ToConvertPeriodFilteredP"
  "ml_type (insert_to_convert_type_filtered_payment_batch cid bid tfs) = message_type_of ToConvertTypeFilteredPaymentP"
  "ml_type (insert_converted_amount_batch cid bid cas) = message_type_of ConvertedAmountP"
  "ml_type (insert_scatter_gather_batch cid bid sgs) = message_type_of ScatterGatherP"
  "ml_type (insert_grouped_accounts_batch cid bid gas) = message_type_of GroupedAccountsP"
  "ml_type (insert_intermediary_pair_batch cid bid ips) = message_type_of IntermediaryPairP"
  "ml_type (insert_suspicious_path_batch cid bid sps) = message_type_of SuspiciousPathP"
  "ml_type (insert_maxbank_result_batch cid bid mrs) = message_type_of MaxBankResultP"
  "ml_type (insert_avg_by_type_result_batch cid bid ars) = message_type_of AvgByTypeResultP"
  "ml_type (insert_converted_micropayment_result_batch cid bid mps) = message_type_of ConvertedMicroPaymentResultP"
  "ml_type (insert_suspicious_account_batch cid bid sas) = message_type_of SuspiciousAccountP"
  by (simp_all add: transaction_batch_msg_def to_convert_batch_msg_def account_batch_msg_def insert_maxbank_batch_def
    insert_period_filter_batch_def insert_microtransaction_batch_def insert_avg_by_type_transaction_batch_def
    insert_to_convert_period_filtered_batch_def insert_to_convert_type_filtered_payment_batch_def
    insert_converted_amount_batch_def insert_scatter_gather_batch_def insert_grouped_accounts_batch_def
    insert_intermediary_pair_batch_def insert_suspicious_path_batch_def insert_maxbank_result_batch_def
    insert_avg_by_type_result_batch_def insert_converted_micropayment_result_batch_def
    insert_suspicious_account_batch_def proto_message_def)

text \<open>The three queues the gateway writes, from its environment in \<open>Compose.yml\<close>.\<close>

definition gateway_session :: session where
  "gateway_session = \<lparr>outcomes = [],
     environ = [(''SERVER_HOST'', ''0.0.0.0''), (''SERVER_PORT'', ''8080''), (''MOM_HOST'', ''rabbitmq''), (''MOM_PORT'', ''5672''),
       (''OUTPUT_QUEUE_NAME'', ''currency_filter_input_queue''), (''CLIENT_EXCHANGE_NAME'', ''client_results_exchange''),
       (''RAW_DATA_QUEUE_NAME'', ''raw_transactions''), (''MAX_BANK_ROUTER_QUEUE_NAME'', ''bank_router_input_queue''),
       (''LOG_LEVEL'', ''info''), (''CONVERTER_JOIN_AMOUNT'', ''2'')],
     live = [], next_handle = 0\<rparr>"

definition gateway_sends :: "gateway_config \<Rightarrow> (place list \<times> payload) list" where
  "gateway_sends gc =
     [([InQueue (gc_CurrencyQueueName gc)], TransactionP), ([InQueue (gc_RawDataQueueName gc)], ToConvertTransactionP),
      ([InQueue (gc_MaxBankRouterQueue gc)], MaxBankP)]"

definition all_sends :: "gateway_config \<Rightarrow> engine_wiring list \<Rightarrow> (place list \<times> payload) list" where
  "all_sends gc es = gateway_sends gc @ concat (map (\<lambda>e. sends (e_sender e)) es)"

definition all_reads :: "engine_wiring list \<Rightarrow> (resource \<times> message_type \<times> payload) list" where
  "all_reads es = concat (map (\<lambda>e. receiver_reads (e_receiver e)) es)"

text \<open>Whatever arrives at a place is of the type its readers ask for, and somebody reads it; and nobody reads in vain.\<close>

definition reads_it :: "place \<Rightarrow> payload \<Rightarrow> resource \<times> message_type \<times> payload \<Rightarrow> bool" where
  "reads_it p pl i \<longleftrightarrow> (p \<in> set (resource_places (fst i)) \<longrightarrow> fst (snd i) = message_type_of pl \<and> snd (snd i) = pl)"

definition well_typed_links :: "(place list \<times> payload) list \<Rightarrow> (resource \<times> message_type \<times> payload) list \<Rightarrow> bool" where
  "well_typed_links outs ins \<longleftrightarrow>
     list_all (\<lambda>o'. list_all (\<lambda>p.
       list_ex (\<lambda>i. p \<in> set (resource_places (fst i))) ins \<and> list_all (reads_it p (snd o')) ins) (fst o')) outs \<and>
     list_all (\<lambda>i. list_all (\<lambda>p. list_ex (\<lambda>o'. p \<in> set (fst o')) outs) (resource_places (fst i))) ins"

text \<open>Every routing key is bound to one queue, which one engine reads.\<close>

fun key_bindings :: "resource \<Rightarrow> place list" where
  "key_bindings (ExchangeConn x rkeys _) = map (InExchange x) rkeys"
| "key_bindings _ = []"

fun exchange_queue :: "resource \<Rightarrow> string list" where
  "exchange_queue (ExchangeConn _ _ q) = [q]"
| "exchange_queue _ = []"

definition keys_have_one_reader :: "engine_wiring list \<Rightarrow> bool" where
  "keys_have_one_reader es \<longleftrightarrow>
     distinct (concat (map (\<lambda>i. key_bindings (fst i)) (all_reads es))) \<and>
     distinct (concat (map (\<lambda>i. exchange_queue (fst i)) (all_reads es)))"

section \<open>How many EOFs\<close>

text \<open>
  The publications of an EOF by an engine: the flush handler of a stateless engine publishes on worker zero only,
  that of a stateful one on every worker. The gateway publishes one on each queue.
\<close>

definition engine_eofs :: "engine_wiring \<Rightarrow> place list list" where
  "engine_eofs e = (if e_state e = None \<and> cw_id (e_coordinator e) \<noteq> 0 then [] else map fst (sends (e_sender e)))"

definition all_eofs :: "gateway_config \<Rightarrow> engine_wiring list \<Rightarrow> place list list" where
  "all_eofs gc es = map fst (gateway_sends gc) @ concat (map engine_eofs es)"

text \<open>The engines that coordinate with each other, and the EOFs that reach one of them.\<close>

definition group_of :: "engine_wiring list \<Rightarrow> engine_wiring \<Rightarrow> engine_wiring list" where
  "group_of es e = filter (\<lambda>e'. cw_name (e_coordinator e') = cw_name (e_coordinator e)) es"

definition eofs_of_group :: "gateway_config \<Rightarrow> engine_wiring list \<Rightarrow> engine_wiring \<Rightarrow> nat" where
  "eofs_of_group gc es e =
     (let ps = concat (map engine_places (group_of es e))
      in length (filter (\<lambda>eof. list_ex (\<lambda>p. p \<in> set ps) eof) (all_eofs gc es)))"

definition expects_its_eofs :: "gateway_config \<Rightarrow> engine_wiring list \<Rightarrow> bool" where
  "expects_its_eofs gc es \<longleftrightarrow>
     list_all (\<lambda>e. cw_expectedEOFs (e_coordinator e) = word_of_int (int (eofs_of_group gc es e))) es"

definition peers_know_each_other :: "engine_wiring list \<Rightarrow> bool" where
  "peers_know_each_other es \<longleftrightarrow>
     list_all (\<lambda>e. cw_publishKeys (e_coordinator e) =
       map (\<lambda>e'. peer_key (cw_name (e_coordinator e')) (cw_id (e_coordinator e')))
         (filter (\<lambda>e'. cw_id (e_coordinator e') \<noteq> cw_id (e_coordinator e)) (group_of es e))) es"

text \<open>The engines that report to the clients.\<close>

fun writes_to_clients :: "gateway_config \<Rightarrow> sender_wiring \<Rightarrow> bool" where
  "writes_to_clients gc (DynamicKeySender (_, ExchangeConn x _ _) pre _ _ _ _) \<longleftrightarrow>
     x = gc_ClientExchangeName gc \<and> pre = gc_ClientExchangeName gc @ ''.''"
| "writes_to_clients gc _ \<longleftrightarrow> False"

definition clients_hear_all :: "gateway_config \<Rightarrow> engine_wiring list \<Rightarrow> bool" where
  "clients_hear_all gc es \<longleftrightarrow>
     int (length (filter (\<lambda>e. writes_to_clients gc (e_sender e)) es)) = eofAmountExpected \<and>
     int (length (filter (\<lambda>e. e_processor e = ConversionJoinProcessor) es)) = gc_ConverterJoinAmount gc"

end
