(* ===== verification/Containers.thy ===== *)
theory Containers
  imports Deployment
begin

text \<open>
  From the services of \<open>config.yml\<close> to the wiring of their workers: the environment that a container gets from the
  command that creates it, and for each service the worker that the factory builds in it.
\<close>

section \<open>The environment of a container\<close>

lemma env_options_skip [simp]: "a \<noteq> ''-e'' \<Longrightarrow> env_options (a # as) = env_options as"
  by (cases as) simp_all

lemma env_options_Nil [simp]: "env_options [] = []"
  by simp

lemma take_key: "c \<notin> set k \<Longrightarrow> takeWhile (\<lambda>x. x \<noteq> c) (k @ c # v) = k"
  "c \<notin> set k \<Longrightarrow> dropWhile (\<lambda>x. x \<noteq> c) (k @ c # v) = c # v"
  by (induction k) auto

lemma env_options_option [simp]:
  "CHR ''='' \<notin> set k \<Longrightarrow> env_options (env_option k v @ as) = (k, v) # env_options as"
  by (simp add: env_option_def take_key)

lemma env_options_env:
  "(\<And>e. e \<in> set env \<Longrightarrow> CHR ''='' \<notin> set (fst e)) \<Longrightarrow> a \<noteq> ''-e'' \<Longrightarrow>
   env_options (concat (map (\<lambda>kv. env_option (fst kv) (snd kv)) env) @ [a]) = env"
  by (induction env) auto

definition base_env :: "docker_runtime \<Rightarrow> worker_definition \<Rightarrow> int \<Rightarrow> (string \<times> string) list" where
  "base_env r def i =
     [(''HEARTBEAT_QUEUE_NAME'', HeartbeatQueueName (rt_config r)),
      (''HEARTBEAT_INTERVAL_SECONDS'', show_int (rc_HeartbeatInterval (rt_config r))),
      (''ID'', show_int i), (''CONTAINER_NAME'', worker_name (ServiceName def) i), (''WORKER_TYPE'', WorkerType def),
      (''MOM_HOST'', rt_gateway r), (''MOM_PORT'', show_int (MomPort (rt_config r))),
      (''WORKER_COUNT'', show_int (Docker.WorkerCount def)), (''WORKER_EXCHANGE_NAME'', WorkerExchangeName def),
      (''LOG_LEVEL'', LogLevel def), (''MAX_BATCH_WEIGHT'', show_int (MaxBatchSize def)),
      (''WORKER_STORAGE_PATH'', worker_storage_mount_path r)]"

lemma not_option: "x \<in> set s \<Longrightarrow> x \<noteq> CHR ''-'' \<Longrightarrow> x \<noteq> CHR ''e'' \<Longrightarrow> s \<noteq> ''-e''"
  by auto

lemma container_environ:
  assumes "NetworkName (rt_config r) \<noteq> ''-e''" "WorkerImage (rt_config r) \<noteq> ''-e''"
    "\<And>e. e \<in> set (Env def) \<Longrightarrow> CHR ''='' \<notin> set (fst e)"
  shows "environ (container_session r def i) = rev (base_env r def i @ Env def)"
proof -
  have n: "worker_name (ServiceName def) i \<noteq> ''-e''"
    by (rule not_option [of "CHR ''_''"]) (simp_all add: worker_name_def)
  have v: "worker_storage_path r nm @ '':'' @ worker_storage_mount_path r \<noteq> ''-e''" for nm
    by (rule not_option [of "CHR '':''"]) simp_all
  show ?thesis
    using assms n v
    by (simp add: container_session_def create_args_def base_env_def env_options_env del: env_options.simps(1))
qed

text \<open>A container whose own variables do not contradict those the runtime sets.\<close>

definition int64 :: "int \<Rightarrow> bool" where
  "int64 i \<longleftrightarrow> - (2 ^ 63) \<le> i \<and> i < 2 ^ 63"

definition plain_container :: "docker_runtime \<Rightarrow> worker_definition \<Rightarrow> int \<Rightarrow> bool" where
  "plain_container r def i \<longleftrightarrow>
     NetworkName (rt_config r) \<noteq> ''-e'' \<and> WorkerImage (rt_config r) \<noteq> ''-e'' \<and> distinct (map fst (Env def)) \<and>
     list_all (\<lambda>e. CHR ''='' \<notin> set (fst e) \<and> map_of (base_env r def i) (fst e) \<in> {None, Some (snd e)}) (Env def)"

definition ints_in_range :: "docker_runtime \<Rightarrow> worker_definition \<Rightarrow> int \<Rightarrow> bool" where
  "ints_in_range r def i \<longleftrightarrow> int64 i \<and> int64 (Docker.WorkerCount def) \<and> 1 \<le> Docker.WorkerCount def \<and>
     int64 (MaxBatchSize def) \<and> int64 (rc_HeartbeatInterval (rt_config r)) \<and> int64 (MomPort (rt_config r))"

definition container_env :: "docker_runtime \<Rightarrow> worker_definition \<Rightarrow> int \<Rightarrow> worker_env" where
  "container_env r def i =
     \<lparr>we_id = i, we_count = Docker.WorkerCount def, we_exchange = WorkerExchangeName def, we_type = WorkerType def,
      we_weight = MaxBatchSize def, we_heartbeatQueue = HeartbeatQueueName (rt_config r),
      we_interval = rc_HeartbeatInterval (rt_config r), we_container = worker_name (ServiceName def) i,
      we_host = rt_gateway r, we_port = MomPort (rt_config r)\<rparr>"

lemma distinct_base_env: "distinct (map fst (base_env r def i))"
  by (simp add: base_env_def)

lemma map_of_rev: "distinct (map fst m) \<Longrightarrow> map_of (rev m) = map_of m"
  by (rule map_of_eqI) (auto simp: rev_map [symmetric] map_of_eq_None_iff)

lemma container_mget:
  assumes "plain_container r def i"
  shows "map_of (Env def) k = Some v \<Longrightarrow> mget (environ (container_session r def i)) k = Some v"
    "map_of (base_env r def i) k = Some v \<Longrightarrow> mget (environ (container_session r def i)) k = Some v"
proof -
  have e: "mget (environ (container_session r def i)) k =
      (case map_of (Env def) k of None \<Rightarrow> map_of (base_env r def i) k | Some v \<Rightarrow> Some v)"
    using assms distinct_base_env [of r def i]
    by (subst container_environ)
      (auto simp: plain_container_def list_all_iff map_of_rev map_add_def split: option.split)
  show "map_of (Env def) k = Some v \<Longrightarrow> mget (environ (container_session r def i)) k = Some v"
    by (simp add: e)
  show "map_of (base_env r def i) k = Some v \<Longrightarrow> mget (environ (container_session r def i)) k = Some v"
    using assms by (cases "map_of (Env def) k") (fastforce simp: e plain_container_def list_all_iff dest: map_of_SomeD)+
qed

lemma has_int_show: "mget (environ s) k = Some (show_int i) \<Longrightarrow> int64 i \<Longrightarrow> has_int s k i"
  by (simp add: has_int_def int64_def atoi_show_int)

lemma container_standard:
  assumes "plain_container r def i" "ints_in_range r def i"
  shows "standard_env (container_session r def i) (container_env r def i)"
proof -
  note get = container_mget(2) [OF assms(1)]
  have o': "outcomes (container_session r def i) = []" by (simp add: container_session_def)
  show ?thesis
    unfolding standard_env_def container_env_def getenv_def mget0_def
    using assms(2) o'
    by (simp add: get base_env_def has_int_show ints_in_range_def)
qed

section \<open>The services\<close>

definition yml :: "string \<Rightarrow> docker_runtime" where
  "yml g = \<lparr>rt_config = runtime_yml, rt_gateway = g\<rparr>"

definition def_of :: "string \<times> service_config \<Rightarrow> worker_definition" where
  "def_of sv = worker_of_service config_yml (fst sv) (snd sv)"

definition session_of :: "string \<Rightarrow> string \<times> service_config \<Rightarrow> int \<Rightarrow> session" where
  "session_of g sv i = container_session (yml g) (def_of sv) i"

definition env_of :: "string \<Rightarrow> string \<times> service_config \<Rightarrow> int \<Rightarrow> worker_env" where
  "env_of g sv i = container_env (yml g) (def_of sv) i"


definition service_ok :: "string \<Rightarrow> string \<times> service_config \<Rightarrow> int \<Rightarrow> bool" where
  "service_ok g sv i \<longleftrightarrow> plain_container (yml g) (def_of sv) i \<and> 0 \<le> i \<and> i < 3 \<and> 1 \<le> sc_Count (snd sv) \<and> sc_Count (snd sv) < 4"

abbreviation svc_get :: "string \<times> service_config \<Rightarrow> string \<Rightarrow> string option" where
  "svc_get sv k \<equiv> map_of (sc_Env (snd sv)) k"

definition svc_int :: "string \<times> service_config \<Rightarrow> string \<Rightarrow> int \<Rightarrow> bool" where
  "svc_int sv k i \<longleftrightarrow> (\<exists>v. svc_get sv k = Some v \<and> atoi v = Some i)"

lemma service_env:
  assumes "service_ok g sv i"
  shows "standard_env (session_of g sv i) (env_of g sv i)" "next_handle (session_of g sv i) = 0"
    "svc_get sv k = Some v \<Longrightarrow> mget (environ (session_of g sv i)) k = Some v"
    "svc_int sv k j \<Longrightarrow> has_int (session_of g sv i) k j"
proof -
  note ok = assms [unfolded service_ok_def]
  have "ints_in_range (yml g) (def_of sv) i" using ok
    by (simp add: ints_in_range_def int64_def def_of_def worker_of_service_def yml_def runtime_yml_def config_yml_def)
  then show "standard_env (session_of g sv i) (env_of g sv i)"
    unfolding session_of_def env_of_def using container_standard ok by blast
  show "next_handle (session_of g sv i) = 0" by (simp add: session_of_def container_session_def)
  have get: "svc_get sv k = Some v \<Longrightarrow> mget (environ (session_of g sv i)) k = Some v" for v
    unfolding session_of_def
    by (rule container_mget(1)) (use ok in \<open>simp_all add: def_of_def worker_of_service_def\<close>)
  then show "svc_get sv k = Some v \<Longrightarrow> mget (environ (session_of g sv i)) k = Some v"
    "svc_int sv k j \<Longrightarrow> has_int (session_of g sv i) k j"
    by (auto simp: svc_int_def has_int_def)
qed

lemma service_built:
  assumes "service_ok g sv i" "map_of (builders F) (sc_WorkerType (snd sv)) = Some b" "snd (b (session_of g sv i)) = Inr w"
  shows "container_worker F (session_of g sv i) = Inr (Some w)"
proof -
  have t: "getenv ''WORKER_TYPE'' (session_of g sv i) = sc_WorkerType (snd sv)"
    using getenv_type [OF service_env(1) [OF assms(1)]]
    by (simp add: env_of_def container_env_def def_of_def worker_of_service_def)
  show ?thesis
    using assms(2,3) by (auto simp: t container_worker_def build_worker_def built_def build_simps split: prod.splits sum.splits)
qed

section \<open>The service of each builder\<close>

lemma stateless_service:
  assumes "service_ok g sv i"
    "map_of (builders F) (sc_WorkerType (snd sv)) = Some (check m (\<lambda>x. check (get_env_int_strict ''MAX_BATCH_WEIGHT'') (\<lambda>w.
       build_stateless_worker_input_queue_output_queue (cfg x w))))"
    "m (session_of g sv i) = (session_of g sv i, Inr x)" "\<And>w. sl_MaxBatchWeight (cfg x w) = w"
    "svc_get sv ''INPUT_QUEUE_NAME'' = Some inQ" "svc_get sv ''OUTPUT_QUEUE_NAME'' = Some outQ"
  shows "container_worker F (session_of g sv i) =
    Inr (Some (stateless_spec (env_of g sv i) (cfg x (we_weight (env_of g sv i))) inQ outQ))"
proof -
  note std = service_env(1) [OF assms(1)]
  have "snd (build_stateless_worker_input_queue_output_queue (cfg x (we_weight (env_of g sv i))) (session_of g sv i)) =
      Inr (stateless_spec (env_of g sv i) (cfg x (we_weight (env_of g sv i))) inQ outQ)"
    by (rule stateless_built) (simp_all add: service_env [OF assms(1)] assms)
  then show ?thesis
    by (intro service_built [OF assms(1,2)]) (simp add: check_def assms(3) standard_steps [OF std])
qed

lemma routed_service:
  assumes "service_ok g sv i"
    "map_of (builders F) (sc_WorkerType (snd sv)) = Some (build_routed_to_join_worker cfg)"
    "svc_get sv ''INPUT_QUEUE_NAME'' = Some inQ" "svc_get sv ''OUTPUT_EXCHANGE_NAME'' = Some x"
    "svc_int sv ''OUTPUT_WORKER_AMOUNT'' n" "0 \<le> n" "svc_int sv ''EXPECTED_EOF_AMOUNT'' k"
  shows "container_worker F (session_of g sv i) = Inr (Some (routed_spec (env_of g sv i) cfg inQ x n k))"
  by (rule service_built [OF assms(1,2)], rule routed_built) (simp_all add: service_env [OF assms(1)] assms)

lemma stateful_service:
  assumes "service_ok g sv i"
    "map_of (builders F) (sc_WorkerType (snd sv)) = Some (build_stateful_worker_input_exchange_output_queue cfg)"
    "svc_get sv ''INPUT_EXCHANGE_NAME'' = Some x" "svc_get sv ''OUTPUT_QUEUE_NAME'' = Some outQ"
    "svc_int sv ''CHECKPOINT_EVERY_BATCHES'' c"
  shows "container_worker F (session_of g sv i) = Inr (Some (stateful_spec (env_of g sv i) cfg x outQ c))"
  by (rule service_built [OF assms(1,2)], rule stateful_built) (simp_all add: service_env [OF assms(1)] assms)

lemma join_service:
  assumes "service_ok g sv i"
    "map_of (builders F) (sc_WorkerType (snd sv)) =
       Some (check get_join_config (\<lambda>cfg. build_join_worker cfg t extractor p inserter))"
    "svc_get sv ''INPUT_EXCHANGE_NAME'' = Some x" "svc_get sv ''CLIENT_EXCHANGE_NAME'' = Some cl"
    "svc_int sv ''CHECKPOINT_EVERY_BATCHES'' c"
  shows "container_worker F (session_of g sv i) = Inr (Some (join_spec (env_of g sv i) t extractor p inserter x cl c))"
  by (rule service_built [OF assms(1,2)], rule join_built) (simp_all add: service_env [OF assms(1)] assms)

lemma number_texts: "show_int 5 = ''5''" "show_int 1000000 = ''1000000''" "show_int 5672 = ''5672''" "show_int 2 = ''2''"
  "show_int 3 = ''3''" "show_int 0 = ''0''" "show_int 1 = ''1''"
  by (simp_all add: show_int_def show_nat.simps digit_char_def char_of_def bit_iff_odd)

lemma text_numbers: "atoi ''0'' = Some 0" "atoi ''1'' = Some 1" "atoi ''2'' = Some 2" "atoi ''25'' = Some 25"
  by (simp_all add: atoi_def parse_nat_def base_value_def is_digit_def digit_val_def byte_def)

lemmas service_simps = def_of_def worker_of_service_def service_def checkpoints_def plain_container_def base_env_def
  yml_def runtime_yml_def config_yml_def service_ok_def number_texts svc_int_def text_numbers builders_def

lemma max_bank_runs:
  "0 \<le> i \<Longrightarrow> i < 3 \<Longrightarrow> container_worker F (session_of g max_bank_svc i) =
    Inr (Some (stateful_spec (env_of g max_bank_svc i) \<lparr>sf_ReceivedMessageType = MT_MAXBANK_BATCH, sf_Extractor = MaxBankP, sf_Inserter = MaxBankResultP,
      sf_Processor = MaxBankProcessor, sf_keys = []\<rparr>
      ''max_bank_input_exchange'' ''max_bank_join_input'' 25))"
  by (rule stateful_service) (simp_all add: max_bank_svc_def build_max_bank_worker_def service_simps)

lemma avg_by_type_runs:
  "0 \<le> i \<Longrightarrow> i < 3 \<Longrightarrow> container_worker F (session_of g avg_by_type_svc i) =
    Inr (Some (stateful_spec (env_of g avg_by_type_svc i) \<lparr>sf_ReceivedMessageType = MT_AVGBYTYPE_TRANSACTION_BATCH, sf_Extractor = AvgByTypeTransactionP, sf_Inserter = AvgByTypeResultP,
      sf_Processor = AvgByTypeProcessor, sf_keys = []\<rparr>
      ''payment_type_exchange'' ''avg_by_type_router_to_join_input'' 25))"
  by (rule stateful_service) (simp_all add: avg_by_type_svc_def build_avg_by_type_grouper_worker_def service_simps)

lemma group_by_origin_runs:
  "0 \<le> i \<Longrightarrow> i < 3 \<Longrightarrow> container_worker F (session_of g group_by_origin_svc i) =
    Inr (Some (stateful_spec (env_of g group_by_origin_svc i) \<lparr>sf_ReceivedMessageType = MT_SCATTERGATHER_BATCH, sf_Extractor = ScatterGatherP, sf_Inserter = GroupedAccountsP,
      sf_Processor = GroupByOriginProcessor, sf_keys = ''origin''\<rparr>
      ''group_by_origin_destination'' ''grouped_origin_accounts'' 25))"
  by (rule stateful_service) (simp_all add: group_by_origin_svc_def build_group_by_origin_worker_def service_simps)

lemma group_by_destination_runs:
  "0 \<le> i \<Longrightarrow> i < 3 \<Longrightarrow> container_worker F (session_of g group_by_destination_svc i) =
    Inr (Some (stateful_spec (env_of g group_by_destination_svc i) \<lparr>sf_ReceivedMessageType = MT_SCATTERGATHER_BATCH, sf_Extractor = ScatterGatherP, sf_Inserter = GroupedAccountsP,
      sf_Processor = GroupByDestinationProcessor, sf_keys = ''destination''\<rparr>
      ''group_by_origin_destination'' ''grouped_destination_accounts'' 25))"
  by (rule stateful_service) (simp_all add: group_by_destination_svc_def build_group_by_destination_worker_def service_simps)

lemma microtransaction_router_to_join_runs:
  "0 \<le> i \<Longrightarrow> i < 3 \<Longrightarrow> container_worker F (session_of g microtransaction_router_to_join_svc i) =
    Inr (Some (routed_spec (env_of g microtransaction_router_to_join_svc i) \<lparr>rt_InputMessageType = MT_MICROTRANSACTION_BATCH, rt_ExtractInput = MicrotransactionP, rt_MakeProcessor = MicrotransactionJoinRouter,
      rt_Inserter = MicrotransactionP\<rparr>
      ''microtransaction_router_to_join_input_queue'' ''microtransaction_join_exchange'' 2 1))"
  by (rule routed_service) (simp_all add: microtransaction_router_to_join_svc_def build_microtransaction_router_to_join_worker_def service_simps)

lemma max_bank_router_to_join_runs:
  "0 \<le> i \<Longrightarrow> i < 3 \<Longrightarrow> container_worker F (session_of g max_bank_router_to_join_svc i) =
    Inr (Some (routed_spec (env_of g max_bank_router_to_join_svc i) \<lparr>rt_InputMessageType = MT_MAX_BANK_RESULT_BATCH, rt_ExtractInput = MaxBankResultP, rt_MakeProcessor = MaxBankToJoinRouter,
      rt_Inserter = MaxBankResultP\<rparr>
      ''max_bank_join_input'' ''max_bank_join_exchange'' 2 2))"
  by (rule routed_service) (simp_all add: max_bank_router_to_join_svc_def build_max_bank_router_to_join_worker_def service_simps)

lemma avg_by_type_router_to_join_runs:
  "0 \<le> i \<Longrightarrow> i < 3 \<Longrightarrow> container_worker F (session_of g avg_by_type_router_to_join_svc i) =
    Inr (Some (routed_spec (env_of g avg_by_type_router_to_join_svc i) \<lparr>rt_InputMessageType = MT_AVGBYTYPE_RESULT_BATCH, rt_ExtractInput = AvgByTypeResultP, rt_MakeProcessor = AvgByTypeJoinRouter,
      rt_Inserter = AvgByTypeResultP\<rparr>
      ''avg_by_type_router_to_join_input'' ''avg_by_type_join_input'' 2 2))"
  by (rule routed_service) (simp_all add: avg_by_type_router_to_join_svc_def build_avg_by_type_router_to_join_worker_def service_simps)

lemma suspicious_path_router_to_join_runs:
  "0 \<le> i \<Longrightarrow> i < 3 \<Longrightarrow> container_worker F (session_of g suspicious_path_router_to_join_svc i) =
    Inr (Some (routed_spec (env_of g suspicious_path_router_to_join_svc i) \<lparr>rt_InputMessageType = MT_SUSPICIOUS_PATH_BATCH, rt_ExtractInput = SuspiciousPathP, rt_MakeProcessor = SuspiciousPathToJoinRouter,
      rt_Inserter = SuspiciousPathP\<rparr>
      ''suspicious_path_router_join_input'' ''suspicious_paths_output'' 2 2))"
  by (rule routed_service) (simp_all add: suspicious_path_router_to_join_svc_def build_suspicious_path_router_to_join_worker_def service_simps)

lemma converted_amount_router_to_join_runs:
  "0 \<le> i \<Longrightarrow> i < 3 \<Longrightarrow> container_worker F (session_of g converted_amount_router_to_join_svc i) =
    Inr (Some (routed_spec (env_of g converted_amount_router_to_join_svc i) \<lparr>rt_InputMessageType = MT_CONVERTED_AMOUNT_BATCH, rt_ExtractInput = ConvertedAmountP, rt_MakeProcessor = ConvertedAmountJoinRouter,
      rt_Inserter = ConvertedAmountP\<rparr>
      ''converted_amount_router_join_input'' ''converted_amount_output'' 2 1))"
  by (rule routed_service) (simp_all add: converted_amount_router_to_join_svc_def build_converted_amount_router_to_join_worker_def service_simps)

lemma microtransaction_join_runs:
  "0 \<le> i \<Longrightarrow> i < 3 \<Longrightarrow> container_worker F (session_of g microtransaction_join_svc i) =
    Inr (Some (join_spec (env_of g microtransaction_join_svc i) MT_MICROTRANSACTION_BATCH MicrotransactionP MicrotransactionJoinProcessor MicrotransactionP
      ''microtransaction_join_exchange'' ''client_results_exchange'' 25))"
  by (rule join_service) (simp_all add: microtransaction_join_svc_def build_microtransaction_join_worker_def service_simps)

lemma max_bank_join_runs:
  "0 \<le> i \<Longrightarrow> i < 3 \<Longrightarrow> container_worker F (session_of g max_bank_join_svc i) =
    Inr (Some (join_spec (env_of g max_bank_join_svc i) MT_MAX_BANK_RESULT_BATCH MaxBankResultP MaxBankJoinProcessor MaxBankResultP
      ''max_bank_join_exchange'' ''client_results_exchange'' 25))"
  by (rule join_service) (simp_all add: max_bank_join_svc_def build_max_bank_join_worker_def service_simps)

lemma avg_by_type_join_runs:
  "0 \<le> i \<Longrightarrow> i < 3 \<Longrightarrow> container_worker F (session_of g avg_by_type_join_svc i) =
    Inr (Some (join_spec (env_of g avg_by_type_join_svc i) MT_AVGBYTYPE_RESULT_BATCH AvgByTypeResultP AvgByTypeJoinProcessor AvgByTypeResultP
      ''avg_by_type_join_input'' ''client_results_exchange'' 25))"
  by (rule join_service) (simp_all add: avg_by_type_join_svc_def build_avg_by_type_join_worker_def service_simps)

lemma scatter_gather_join_runs:
  "0 \<le> i \<Longrightarrow> i < 3 \<Longrightarrow> container_worker F (session_of g scatter_gather_join_svc i) =
    Inr (Some (join_spec (env_of g scatter_gather_join_svc i) MT_SUSPICIOUS_PATH_BATCH SuspiciousPathP ScatterGatherJoinProcessor SuspiciousAccountP
      ''suspicious_paths_output'' ''client_results_exchange'' 25))"
  by (rule join_service) (simp_all add: scatter_gather_join_svc_def build_scatter_gather_join_worker_def service_simps)

lemma converter_join_runs:
  "0 \<le> i \<Longrightarrow> i < 3 \<Longrightarrow> container_worker F (session_of g converter_join_svc i) =
    Inr (Some (join_spec (env_of g converter_join_svc i) MT_CONVERTED_AMOUNT_BATCH ConvertedAmountP ConversionJoinProcessor ConvertedMicroPaymentResultP
      ''converted_amount_output'' ''client_results_exchange'' 25))"
  by (rule join_service) (simp_all add: converter_join_svc_def build_converted_micro_payment_join_worker_def service_simps)

lemma payment_format_filter_runs:
  assumes "0 \<le> i" "i < 3"
  shows "container_worker F (session_of g payment_format_filter_svc i) =
    Inr (Some (stateless_spec (env_of g payment_format_filter_svc i)
      ((\<lambda>x w. \<lparr>sl_ReceivedMessageType = MT_TO_CONVERT_PERIOD_FILTERED_BATCH, sl_Extractor = ToConvertPeriodFilteredP, sl_Inserter = ToConvertTypeFilteredPaymentP,
         sl_Processor = FormatFilter x, sl_MaxBatchWeight = w\<rparr>) [''Wire'', ''ACH''] (we_weight (env_of g payment_format_filter_svc i)))
      ''payment_format_filter_input'' ''conversion_format_input''))"
proof (rule stateless_service [where m = "get_env_string_slice_strict ''VALID_PAYMENT_FORMATS''"])
  show ok: "service_ok g payment_format_filter_svc i" using assms by (simp add: payment_format_filter_svc_def service_simps)
  have "mget (environ (session_of g payment_format_filter_svc i)) ''VALID_PAYMENT_FORMATS'' = Some ''Wire,ACH''"
    by (rule service_env(3) [OF ok]) (simp add: payment_format_filter_svc_def service_def)
  then show "get_env_string_slice_strict ''VALID_PAYMENT_FORMATS'' (session_of g payment_format_filter_svc i) = (session_of g payment_format_filter_svc i, Inr [''Wire'', ''ACH''])"
    using assms by (simp add: get_env_string_slice_strict_def get_steps check_steps)
qed (simp_all add: payment_format_filter_svc_def build_format_filter_worker_def service_simps)

lemma currency_converter_runs:
  assumes "0 \<le> i" "i < 3"
  shows "container_worker F (session_of g currency_converter_svc i) =
    Inr (Some (stateless_spec (env_of g currency_converter_svc i)
      ((\<lambda>x w. \<lparr>sl_ReceivedMessageType = MT_TO_CONVERT_TYPE_FILTERED_PAYMENT_BATCH, sl_Extractor = ToConvertTypeFilteredPaymentP, sl_Inserter = ConvertedAmountP,
         sl_Processor = CurrencyConverterProcessor x, sl_MaxBatchWeight = w\<rparr>) ''https://api.frankfurter.dev/v2/rates?base=USD'' (we_weight (env_of g currency_converter_svc i)))
      ''conversion_format_input'' ''filtered_currency_conversion_input''))"
proof (rule stateless_service [where m = "get_env_strict ''EXCHANGE_RATE_API_URL''"])
  show ok: "service_ok g currency_converter_svc i" using assms by (simp add: currency_converter_svc_def service_simps)
  have "mget (environ (session_of g currency_converter_svc i)) ''EXCHANGE_RATE_API_URL'' = Some ''https://api.frankfurter.dev/v2/rates?base=USD''"
    by (rule service_env(3) [OF ok]) (simp add: currency_converter_svc_def service_def)
  then show "get_env_strict ''EXCHANGE_RATE_API_URL'' (session_of g currency_converter_svc i) = (session_of g currency_converter_svc i, Inr ''https://api.frankfurter.dev/v2/rates?base=USD'')"
    using assms by (simp add: get_steps check_steps)
qed (simp_all add: currency_converter_svc_def build_currency_converter_worker_def service_simps)

lemma microtransaction_filter_runs:
  assumes "0 \<le> i" "i < 3" "f_parse F ''50'' = Some a"
  shows "container_worker F (session_of g microtransaction_filter_svc i) =
    Inr (Some (stateless_spec (env_of g microtransaction_filter_svc i)
      ((\<lambda>x w. \<lparr>sl_ReceivedMessageType = MT_MICROTRANSACTION_BATCH, sl_Extractor = MicrotransactionP, sl_Inserter = MicrotransactionP,
         sl_Processor = AmountFilter x, sl_MaxBatchWeight = w\<rparr>) a (we_weight (env_of g microtransaction_filter_svc i)))
      ''microtransaction_filter_input_queue'' ''microtransaction_router_to_join_input_queue''))"
proof (rule stateless_service [where m = "get_env_float_strict F ''AMOUNT_TO_FILTER''"])
  show ok: "service_ok g microtransaction_filter_svc i" using assms by (simp add: microtransaction_filter_svc_def service_simps)
  have "mget (environ (session_of g microtransaction_filter_svc i)) ''AMOUNT_TO_FILTER'' = Some ''50''"
    by (rule service_env(3) [OF ok]) (simp add: microtransaction_filter_svc_def service_def)
  then show "get_env_float_strict F ''AMOUNT_TO_FILTER'' (session_of g microtransaction_filter_svc i) = (session_of g microtransaction_filter_svc i, Inr a)"
    using assms by (simp add: get_env_float_strict_def get_steps check_steps)
qed (simp_all add: microtransaction_filter_svc_def build_amount_filter_worker_def service_simps)

lemma amount_converted_filter_runs:
  assumes "0 \<le> i" "i < 3" "f_parse F ''1.00'' = Some b"
  shows "container_worker F (session_of g amount_converted_filter_svc i) =
    Inr (Some (stateless_spec (env_of g amount_converted_filter_svc i)
      ((\<lambda>x w. \<lparr>sl_ReceivedMessageType = MT_CONVERTED_AMOUNT_BATCH, sl_Extractor = ConvertedAmountP, sl_Inserter = ConvertedAmountP,
         sl_Processor = AmountFilter x, sl_MaxBatchWeight = w\<rparr>) b (we_weight (env_of g amount_converted_filter_svc i)))
      ''filtered_currency_conversion_input'' ''converted_amount_router_join_input''))"
proof (rule stateless_service [where m = "get_env_float_strict F ''AMOUNT_TO_FILTER''"])
  show ok: "service_ok g amount_converted_filter_svc i" using assms by (simp add: amount_converted_filter_svc_def service_simps)
  have "mget (environ (session_of g amount_converted_filter_svc i)) ''AMOUNT_TO_FILTER'' = Some ''1.00''"
    by (rule service_env(3) [OF ok]) (simp add: amount_converted_filter_svc_def service_def)
  then show "get_env_float_strict F ''AMOUNT_TO_FILTER'' (session_of g amount_converted_filter_svc i) = (session_of g amount_converted_filter_svc i, Inr b)"
    using assms by (simp add: get_env_float_strict_def get_steps check_steps)
qed (simp_all add: amount_converted_filter_svc_def build_amount_converted_filter_worker_def service_simps)

lemma bank_router_runs:
  assumes "0 \<le> i" "i < 3"
  shows "container_worker F (session_of g bank_router_svc i) =
    Inr (Some (with_sender_spec (env_of g bank_router_svc i) ''bank_router_input_queue'' MT_MAXBANK_BATCH MaxBankP ''max_bank_input_exchange''
      (build_numbered_exchange_keys ''max_bank_input_exchange'' 2) MaxBankP (MaxBankRouter (build_numbered_exchange_keys ''max_bank_input_exchange'' 2)) 2))"
proof (rule service_built)
  show ok: "service_ok g bank_router_svc i" using assms by (simp add: bank_router_svc_def service_simps)
  show "snd (build_bank_router_worker (session_of g bank_router_svc i)) =
    Inr (with_sender_spec (env_of g bank_router_svc i) ''bank_router_input_queue'' MT_MAXBANK_BATCH MaxBankP ''max_bank_input_exchange''
      (build_numbered_exchange_keys ''max_bank_input_exchange'' 2) MaxBankP (MaxBankRouter (build_numbered_exchange_keys ''max_bank_input_exchange'' 2)) 2)"
    by (rule bank_router_built) (rule service_env(1,2) [OF ok] | (rule service_env(3,4) [OF ok], simp add: bank_router_svc_def service_simps) | simp)+
qed (simp add: bank_router_svc_def service_simps)

lemma origin_destination_router_runs:
  assumes "0 \<le> i" "i < 3"
  shows "container_worker F (session_of g origin_destination_router_svc i) =
    Inr (Some (with_sender_spec (env_of g origin_destination_router_svc i) ''origin_destination_router'' MT_SCATTERGATHER_BATCH ScatterGatherP ''group_by_origin_destination''
      (build_numbered_exchange_keys ''origin'' 2 @ build_numbered_exchange_keys ''destination'' 2) ScatterGatherP
      (OriginDestinationRouter (build_numbered_exchange_keys ''origin'' 2) (build_numbered_exchange_keys ''destination'' 2)) 0))"
proof (rule service_built)
  show ok: "service_ok g origin_destination_router_svc i" using assms by (simp add: origin_destination_router_svc_def service_simps)
  show "snd (build_origin_destination_router_worker (session_of g origin_destination_router_svc i)) =
    Inr (with_sender_spec (env_of g origin_destination_router_svc i) ''origin_destination_router'' MT_SCATTERGATHER_BATCH ScatterGatherP ''group_by_origin_destination''
      (build_numbered_exchange_keys ''origin'' 2 @ build_numbered_exchange_keys ''destination'' 2) ScatterGatherP
      (OriginDestinationRouter (build_numbered_exchange_keys ''origin'' 2) (build_numbered_exchange_keys ''destination'' 2)) 0)"
    by (rule origin_destination_router_built) (rule service_env(1,2) [OF ok] | (rule service_env(3,4) [OF ok], simp add: origin_destination_router_svc_def service_simps) | simp)+
qed (simp add: origin_destination_router_svc_def service_simps)

lemma origin_intermediary_router_runs:
  assumes "0 \<le> i" "i < 3"
  shows "container_worker F (session_of g origin_intermediary_router_svc i) =
    Inr (Some (with_sender_spec (env_of g origin_intermediary_router_svc i) ''grouped_origin_accounts'' MT_GROUPED_ACCOUNTS_BATCH GroupedAccountsP ''origin_intermediary_aggregation''
      (build_numbered_exchange_keys ''origin_intermediary_aggregation'' 2) IntermediaryPairP (IntermediaryRouter (build_numbered_exchange_keys ''origin_intermediary_aggregation'' 2)) 2))"
proof (rule service_built)
  show ok: "service_ok g origin_intermediary_router_svc i" using assms by (simp add: origin_intermediary_router_svc_def service_simps)
  show "snd (build_intermediary_router_worker (session_of g origin_intermediary_router_svc i)) =
    Inr (with_sender_spec (env_of g origin_intermediary_router_svc i) ''grouped_origin_accounts'' MT_GROUPED_ACCOUNTS_BATCH GroupedAccountsP ''origin_intermediary_aggregation''
      (build_numbered_exchange_keys ''origin_intermediary_aggregation'' 2) IntermediaryPairP (IntermediaryRouter (build_numbered_exchange_keys ''origin_intermediary_aggregation'' 2)) 2)"
    by (rule intermediary_router_built) (rule service_env(1,2) [OF ok] | (rule service_env(3,4) [OF ok], simp add: origin_intermediary_router_svc_def service_simps) | simp)+
qed (simp add: origin_intermediary_router_svc_def service_simps)

lemma destination_intermediary_router_runs:
  assumes "0 \<le> i" "i < 3"
  shows "container_worker F (session_of g destination_intermediary_router_svc i) =
    Inr (Some (with_sender_spec (env_of g destination_intermediary_router_svc i) ''grouped_destination_accounts'' MT_GROUPED_ACCOUNTS_BATCH GroupedAccountsP ''destination_intermediary_aggregation''
      (build_numbered_exchange_keys ''destination_intermediary_aggregation'' 2) IntermediaryPairP (IntermediaryRouter (build_numbered_exchange_keys ''destination_intermediary_aggregation'' 2)) 2))"
proof (rule service_built)
  show ok: "service_ok g destination_intermediary_router_svc i" using assms by (simp add: destination_intermediary_router_svc_def service_simps)
  show "snd (build_intermediary_router_worker (session_of g destination_intermediary_router_svc i)) =
    Inr (with_sender_spec (env_of g destination_intermediary_router_svc i) ''grouped_destination_accounts'' MT_GROUPED_ACCOUNTS_BATCH GroupedAccountsP ''destination_intermediary_aggregation''
      (build_numbered_exchange_keys ''destination_intermediary_aggregation'' 2) IntermediaryPairP (IntermediaryRouter (build_numbered_exchange_keys ''destination_intermediary_aggregation'' 2)) 2)"
    by (rule intermediary_router_built) (rule service_env(1,2) [OF ok] | (rule service_env(3,4) [OF ok], simp add: destination_intermediary_router_svc_def service_simps) | simp)+
qed (simp add: destination_intermediary_router_svc_def service_simps)

lemma payment_type_router_runs:
  assumes "0 \<le> i" "i < 3"
  shows "container_worker F (session_of g payment_type_router_svc i) =
    Inr (Some (payment_type_spec (env_of g payment_type_router_svc i) ''payment_type_router_input'' ''payment_type_exchange'' 2))"
proof (rule service_built)
  show ok: "service_ok g payment_type_router_svc i" using assms by (simp add: payment_type_router_svc_def service_simps)
  show "snd (build_payment_type_router_worker (session_of g payment_type_router_svc i)) =
    Inr (payment_type_spec (env_of g payment_type_router_svc i) ''payment_type_router_input'' ''payment_type_exchange'' 2)"
    by (rule payment_type_built) (rule service_env(1,2) [OF ok] | (rule service_env(3,4) [OF ok], simp add: payment_type_router_svc_def service_simps) | simp)+
qed (simp add: payment_type_router_svc_def service_simps)

lemma aggregate_by_intermediary_runs:
  assumes "0 \<le> i" "i < 3"
  shows "container_worker F (session_of g aggregate_by_intermediary_svc i) =
    Inr (Some (aggregator_spec (env_of g aggregate_by_intermediary_svc i) ''origin_intermediary_aggregation'' ''destination_intermediary_aggregation''
      ''suspicious_path_router_join_input'' 25))"
proof (rule service_built)
  show ok: "service_ok g aggregate_by_intermediary_svc i" using assms by (simp add: aggregate_by_intermediary_svc_def service_simps)
  show "snd (build_aggregate_by_intermediary_worker (session_of g aggregate_by_intermediary_svc i)) =
    Inr (aggregator_spec (env_of g aggregate_by_intermediary_svc i) ''origin_intermediary_aggregation'' ''destination_intermediary_aggregation''
      ''suspicious_path_router_join_input'' 25)"
    by (rule aggregator_built) (rule service_env(1,2) [OF ok] | (rule service_env(3,4) [OF ok], simp add: aggregate_by_intermediary_svc_def service_simps) | simp)+
qed (simp add: aggregate_by_intermediary_svc_def service_simps)

lemma currency_filter_runs:
  assumes "0 \<le> i" "i < 3"
  shows "container_worker F (session_of g currency_filter_svc i) =
    Inr (Some (currency_spec (env_of g currency_filter_svc i) ''currency_filter_input_queue'' ''microtransaction_filter_input_queue'' ''bank_router_input_queue''
      ''payment_type_period_filter_input_queue'' ''scatter_gather_period_filter_input_queue'' ''US Dollar''))"
proof (rule service_built)
  show ok: "service_ok g currency_filter_svc i" using assms by (simp add: currency_filter_svc_def service_simps)
  show "snd (build_currency_filter_worker (session_of g currency_filter_svc i)) =
    Inr (currency_spec (env_of g currency_filter_svc i) ''currency_filter_input_queue'' ''microtransaction_filter_input_queue'' ''bank_router_input_queue''
      ''payment_type_period_filter_input_queue'' ''scatter_gather_period_filter_input_queue'' ''US Dollar'')"
    by (rule currency_built) (rule service_env(1,2) [OF ok] | (rule service_env(3,4) [OF ok], simp add: currency_filter_svc_def service_simps) | simp)+
qed (simp add: currency_filter_svc_def service_simps)

lemma period_texts:
  "parse_rfc3339 ''2022-09-01T00:00:00Z'' = Some 1661990400000000000"
  "parse_rfc3339 ''2022-09-05T23:59:59Z'' = Some 1662422399000000000"
  "parse_rfc3339 ''2022-09-06T00:00:00Z'' = Some 1662422400000000000"
  "parse_rfc3339 ''2022-09-14T23:59:59Z'' = Some 1663199999000000000"
  by (simp_all add: parse_rfc3339_def take_digits.simps take_hour_def skip_char_def take_fraction_def parse_zone_def
    days_of_def days_in_def leap_year_def base_value_def digit_val_def byte_def is_digit_def)

definition periods_yml :: "string \<Rightarrow> period" where
  "periods_yml a =
     (if a = ''QUERY3_PERIOD_2'' then \<lparr>StartDate = 1662422400000000000, EndDate = 1663199999000000000\<rparr>
      else \<lparr>StartDate = 1661990400000000000, EndDate = 1662422399000000000\<rparr>)"

lemma period_filter_runs:
  assumes "0 \<le> i" "i < 3"
  shows "container_worker F (session_of g period_filter_svc i) =
    Inr (Some (period_spec (env_of g period_filter_svc i) (\<lambda>a. the (svc_get period_filter_svc a)) periods_yml))"
proof (rule service_built)
  show ok: "service_ok g period_filter_svc i" using assms by (simp add: period_filter_svc_def service_simps)
  have q: "mget (environ (session_of g period_filter_svc i)) a = Some (the (svc_get period_filter_svc a))"
    if "a \<in> set period_filter_queues" for a
  proof (rule service_env(3) [OF ok])
    have "list_all (\<lambda>a. svc_get period_filter_svc a \<noteq> None) period_filter_queues"
      by (simp add: period_filter_queues_def period_filter_svc_def service_def)
    then show "svc_get period_filter_svc a = Some (the (svc_get period_filter_svc a))"
      using that by (auto simp: list_all_iff)
  qed
  have p: "has_period (session_of g period_filter_svc i) (a @ ''_START'') (a @ ''_END'') (periods_yml a)"
    if "a \<in> {''SCATTER_GATHER_PERIOD'', ''PAYMENT_TYPE_PERIOD'', ''QUERY3_PERIOD_1'', ''QUERY3_PERIOD_2''}" for a
  proof -
    have "svc_get period_filter_svc (a @ ''_START'') =
        Some (if a = ''QUERY3_PERIOD_2'' then ''2022-09-06T00:00:00Z'' else ''2022-09-01T00:00:00Z'')"
      "svc_get period_filter_svc (a @ ''_END'') =
        Some (if a = ''QUERY3_PERIOD_2'' then ''2022-09-14T23:59:59Z'' else ''2022-09-05T23:59:59Z'')"
      using that unfolding insert_iff empty_iff
      by (elim disjE FalseE; simp add: period_filter_svc_def service_def)+
    from this [THEN service_env(3) [OF ok]] show ?thesis
      by (simp add: has_period_def periods_yml_def period_texts)
  qed
  show "snd (build_period_filter_worker (session_of g period_filter_svc i)) =
    Inr (period_spec (env_of g period_filter_svc i) (\<lambda>a. the (svc_get period_filter_svc a)) periods_yml)"
    by (rule period_built [OF service_env(1,2) [OF ok] q p])
qed (simp add: period_filter_svc_def service_simps)

section \<open>Floats for the witnesses\<close>

text \<open>The bits of \<open>50\<close> and \<open>1.00\<close>; the workers are built without any arithmetic.\<close>

definition limit_floats :: float_ops where
  "limit_floats = \<lparr>f_add = (+), f_mul = (*), f_div = (div), f_of_int = of_int,
     f_parse = (\<lambda>s. if s = ''50'' then Some 0x4049000000000000 else if s = ''1.00'' then Some 0x3FF0000000000000 else None),
     f_show2 = (\<lambda>_. []), f_show6 = (\<lambda>_. [])\<rparr>"

lemma limits_parse:
  "f_parse limit_floats ''50'' = Some 0x4049000000000000" "f_parse limit_floats ''1.00'' = Some 0x3FF0000000000000"
  by (simp_all add: limit_floats_def)

end
