(* ===== verification/Wiring.thy ===== *)
theory Wiring
  imports Containers
begin

text \<open>
  The wiring of the whole deployment: for each container of \<open>src/config.yml\<close> the worker the factory builds in it
  (\<open>deployed_yml\<close>), the gateway beside them, and what they all send and read as tables (\<open>sends_yml\<close>, \<open>reads_yml\<close>,
  \<open>links_yml\<close>) that the properties of the deployment are checked on.
\<close>

section \<open>The workers of the system\<close>

text \<open>For each service the wiring of its worker with number \<open>i\<close>.\<close>

definition wiring_yml ::
  "f64 \<Rightarrow> f64 \<Rightarrow> string \<Rightarrow> ((string \<times> service_config) \<times> (int \<Rightarrow> worker_wiring)) list" where
  "wiring_yml a b g =
     [(currency_filter_svc, \<lambda>i. currency_spec (env_of g currency_filter_svc i) ''currency_filter_input_queue''
        ''microtransaction_filter_input_queue'' ''bank_router_input_queue'' ''payment_type_period_filter_input_queue''
        ''scatter_gather_period_filter_input_queue'' ''US Dollar''),
      (microtransaction_filter_svc, \<lambda>i. stateless_spec (env_of g microtransaction_filter_svc i)
        \<lparr>sl_ReceivedMessageType = MT_MICROTRANSACTION_BATCH, sl_Extractor = MicrotransactionP,
        sl_Inserter = MicrotransactionP, sl_Processor = AmountFilter a, sl_MaxBatchWeight = we_weight (env_of g
        microtransaction_filter_svc i)\<rparr> ''microtransaction_filter_input_queue''
        ''microtransaction_router_to_join_input_queue''),
      (microtransaction_router_to_join_svc, \<lambda>i. routed_spec (env_of g microtransaction_router_to_join_svc i)
        \<lparr>rt_InputMessageType = MT_MICROTRANSACTION_BATCH, rt_ExtractInput = MicrotransactionP,
        rt_MakeProcessor = MicrotransactionJoinRouter, rt_Inserter = MicrotransactionP\<rparr>
        ''microtransaction_router_to_join_input_queue'' ''microtransaction_join_exchange'' 2 1),
      (microtransaction_join_svc, \<lambda>i. join_spec (env_of g microtransaction_join_svc i) MT_MICROTRANSACTION_BATCH
        MicrotransactionP MicrotransactionJoinProcessor MicrotransactionP ''microtransaction_join_exchange''
        ''client_results_exchange'' 25),
      (bank_router_svc, \<lambda>i. with_sender_spec (env_of g bank_router_svc i) ''bank_router_input_queue''
        MT_MAXBANK_BATCH MaxBankP ''max_bank_input_exchange'' (build_numbered_exchange_keys ''max_bank_input_exchange'' 2)
        MaxBankP (MaxBankRouter (build_numbered_exchange_keys ''max_bank_input_exchange'' 2)) 2),
      (max_bank_svc, \<lambda>i. stateful_spec (env_of g max_bank_svc i)
        \<lparr>sf_ReceivedMessageType = MT_MAXBANK_BATCH, sf_Extractor = MaxBankP, sf_Inserter = MaxBankResultP,
        sf_Processor = MaxBankProcessor, sf_keys = []\<rparr> ''max_bank_input_exchange'' ''max_bank_join_input'' 25),
      (max_bank_router_to_join_svc, \<lambda>i. routed_spec (env_of g max_bank_router_to_join_svc i)
        \<lparr>rt_InputMessageType = MT_MAX_BANK_RESULT_BATCH, rt_ExtractInput = MaxBankResultP,
        rt_MakeProcessor = MaxBankToJoinRouter, rt_Inserter = MaxBankResultP\<rparr> ''max_bank_join_input''
        ''max_bank_join_exchange'' 2 2),
      (max_bank_join_svc, \<lambda>i. join_spec (env_of g max_bank_join_svc i) MT_MAX_BANK_RESULT_BATCH MaxBankResultP
        MaxBankJoinProcessor MaxBankResultP ''max_bank_join_exchange'' ''client_results_exchange'' 25),
      (period_filter_svc, \<lambda>i. period_spec (env_of g period_filter_svc i) (\<lambda>a. the (svc_get
        period_filter_svc a)) periods_yml),
      (payment_type_router_svc, \<lambda>i. payment_type_spec (env_of g payment_type_router_svc i)
        ''payment_type_router_input'' ''payment_type_exchange'' 2),
      (avg_by_type_svc, \<lambda>i. stateful_spec (env_of g avg_by_type_svc i)
        \<lparr>sf_ReceivedMessageType = MT_AVGBYTYPE_TRANSACTION_BATCH, sf_Extractor = AvgByTypeTransactionP,
        sf_Inserter = AvgByTypeResultP, sf_Processor = AvgByTypeProcessor, sf_keys = []\<rparr> ''payment_type_exchange''
        ''avg_by_type_router_to_join_input'' 25),
      (avg_by_type_router_to_join_svc, \<lambda>i. routed_spec (env_of g avg_by_type_router_to_join_svc i)
        \<lparr>rt_InputMessageType = MT_AVGBYTYPE_RESULT_BATCH, rt_ExtractInput = AvgByTypeResultP,
        rt_MakeProcessor = AvgByTypeJoinRouter, rt_Inserter = AvgByTypeResultP\<rparr> ''avg_by_type_router_to_join_input''
        ''avg_by_type_join_input'' 2 2),
      (avg_by_type_join_svc, \<lambda>i. join_spec (env_of g avg_by_type_join_svc i) MT_AVGBYTYPE_RESULT_BATCH
        AvgByTypeResultP AvgByTypeJoinProcessor AvgByTypeResultP ''avg_by_type_join_input'' ''client_results_exchange'' 25),
      (origin_destination_router_svc, \<lambda>i. with_sender_spec (env_of g origin_destination_router_svc i)
        ''origin_destination_router'' MT_SCATTERGATHER_BATCH ScatterGatherP ''group_by_origin_destination''
        (build_numbered_exchange_keys ''origin'' 2 @ build_numbered_exchange_keys ''destination'' 2) ScatterGatherP
        (OriginDestinationRouter (build_numbered_exchange_keys ''origin'' 2) (build_numbered_exchange_keys ''destination''
        2)) 0),
      (group_by_origin_svc, \<lambda>i. stateful_spec (env_of g group_by_origin_svc i)
        \<lparr>sf_ReceivedMessageType = MT_SCATTERGATHER_BATCH, sf_Extractor = ScatterGatherP,
        sf_Inserter = GroupedAccountsP, sf_Processor = GroupByOriginProcessor, sf_keys = ''origin''\<rparr>
        ''group_by_origin_destination'' ''grouped_origin_accounts'' 25),
      (group_by_destination_svc, \<lambda>i. stateful_spec (env_of g group_by_destination_svc i)
        \<lparr>sf_ReceivedMessageType = MT_SCATTERGATHER_BATCH, sf_Extractor = ScatterGatherP,
        sf_Inserter = GroupedAccountsP, sf_Processor = GroupByDestinationProcessor, sf_keys = ''destination''\<rparr>
        ''group_by_origin_destination'' ''grouped_destination_accounts'' 25),
      (origin_intermediary_router_svc, \<lambda>i. with_sender_spec (env_of g origin_intermediary_router_svc i)
        ''grouped_origin_accounts'' MT_GROUPED_ACCOUNTS_BATCH GroupedAccountsP ''origin_intermediary_aggregation''
        (build_numbered_exchange_keys ''origin_intermediary_aggregation'' 2) IntermediaryPairP (IntermediaryRouter
        (build_numbered_exchange_keys ''origin_intermediary_aggregation'' 2)) 2),
      (destination_intermediary_router_svc, \<lambda>i. with_sender_spec (env_of g destination_intermediary_router_svc i)
        ''grouped_destination_accounts'' MT_GROUPED_ACCOUNTS_BATCH GroupedAccountsP ''destination_intermediary_aggregation''
        (build_numbered_exchange_keys ''destination_intermediary_aggregation'' 2) IntermediaryPairP (IntermediaryRouter
        (build_numbered_exchange_keys ''destination_intermediary_aggregation'' 2)) 2),
      (aggregate_by_intermediary_svc, \<lambda>i. aggregator_spec (env_of g aggregate_by_intermediary_svc i)
        ''origin_intermediary_aggregation'' ''destination_intermediary_aggregation'' ''suspicious_path_router_join_input''
        25),
      (suspicious_path_router_to_join_svc, \<lambda>i. routed_spec (env_of g suspicious_path_router_to_join_svc i)
        \<lparr>rt_InputMessageType = MT_SUSPICIOUS_PATH_BATCH, rt_ExtractInput = SuspiciousPathP,
        rt_MakeProcessor = SuspiciousPathToJoinRouter, rt_Inserter = SuspiciousPathP\<rparr>
        ''suspicious_path_router_join_input'' ''suspicious_paths_output'' 2 2),
      (scatter_gather_join_svc, \<lambda>i. join_spec (env_of g scatter_gather_join_svc i) MT_SUSPICIOUS_PATH_BATCH
        SuspiciousPathP ScatterGatherJoinProcessor SuspiciousAccountP ''suspicious_paths_output''
        ''client_results_exchange'' 25),
      (payment_format_filter_svc, \<lambda>i. stateless_spec (env_of g payment_format_filter_svc i)
        \<lparr>sl_ReceivedMessageType = MT_TO_CONVERT_PERIOD_FILTERED_BATCH, sl_Extractor = ToConvertPeriodFilteredP,
        sl_Inserter = ToConvertTypeFilteredPaymentP, sl_Processor = FormatFilter [''Wire'', ''ACH''],
        sl_MaxBatchWeight = we_weight (env_of g payment_format_filter_svc i)\<rparr> ''payment_format_filter_input''
        ''conversion_format_input''),
      (currency_converter_svc, \<lambda>i. stateless_spec (env_of g currency_converter_svc i)
        \<lparr>sl_ReceivedMessageType = MT_TO_CONVERT_TYPE_FILTERED_PAYMENT_BATCH,
        sl_Extractor = ToConvertTypeFilteredPaymentP, sl_Inserter = ConvertedAmountP,
        sl_Processor = CurrencyConverterProcessor ''https://api.frankfurter.dev/v2/rates?base=USD'',
        sl_MaxBatchWeight = we_weight (env_of g currency_converter_svc i)\<rparr> ''conversion_format_input''
        ''filtered_currency_conversion_input''),
      (amount_converted_filter_svc, \<lambda>i. stateless_spec (env_of g amount_converted_filter_svc i)
        \<lparr>sl_ReceivedMessageType = MT_CONVERTED_AMOUNT_BATCH, sl_Extractor = ConvertedAmountP,
        sl_Inserter = ConvertedAmountP, sl_Processor = AmountFilter b, sl_MaxBatchWeight = we_weight (env_of g
        amount_converted_filter_svc i)\<rparr> ''filtered_currency_conversion_input''
        ''converted_amount_router_join_input''),
      (converted_amount_router_to_join_svc, \<lambda>i. routed_spec (env_of g converted_amount_router_to_join_svc i)
        \<lparr>rt_InputMessageType = MT_CONVERTED_AMOUNT_BATCH, rt_ExtractInput = ConvertedAmountP,
        rt_MakeProcessor = ConvertedAmountJoinRouter, rt_Inserter = ConvertedAmountP\<rparr>
        ''converted_amount_router_join_input'' ''converted_amount_output'' 2 1),
      (converter_join_svc, \<lambda>i. join_spec (env_of g converter_join_svc i) MT_CONVERTED_AMOUNT_BATCH
        ConvertedAmountP ConversionJoinProcessor ConvertedMicroPaymentResultP ''converted_amount_output''
        ''client_results_exchange'' 25)]"

definition workers_yml :: "f64 \<Rightarrow> f64 \<Rightarrow> string \<Rightarrow> worker_wiring list" where
  "workers_yml a b g = concat (map (\<lambda>sw. map (snd sw) [0..sc_Count (snd (fst sw)) - 1]) (wiring_yml a b g))"

lemma services_run:
  assumes "f_parse F ''50'' = Some a" "f_parse F ''1.00'' = Some b" "0 \<le> i" "i < 3" "sw \<in> set (wiring_yml a b g)"
  shows "container_worker F (session_of g (fst sw) i) = Inr (Some (snd sw i))"
  using assms(5) unfolding wiring_yml_def list.set insert_iff empty_iff
  by (elim disjE FalseE; simp only: fst_conv snd_conv assms(1-4) currency_filter_runs microtransaction_filter_runs microtransaction_router_to_join_runs microtransaction_join_runs bank_router_runs max_bank_runs max_bank_router_to_join_runs max_bank_join_runs period_filter_runs payment_type_router_runs avg_by_type_runs avg_by_type_router_to_join_runs avg_by_type_join_runs origin_destination_router_runs group_by_origin_runs group_by_destination_runs origin_intermediary_router_runs destination_intermediary_router_runs aggregate_by_intermediary_runs suspicious_path_router_to_join_runs scatter_gather_join_runs payment_format_filter_runs currency_converter_runs amount_converted_filter_runs converted_amount_router_to_join_runs converter_join_runs)

lemma wired_services: "map fst (wiring_yml a b g) = tl services_yml"
  by (simp add: wiring_yml_def services_yml_def)

lemma loaded_services:
  "load_workers_from_config (Inr config_yml) = Inr (map def_of (tl services_yml))"
proof -
  have "filter (\<lambda>ns. is_worker (fst ns) (snd ns)) services_yml = tl services_yml"
    by (simp add: services_yml_def is_worker_def client_svc_def currency_filter_svc_def microtransaction_filter_svc_def microtransaction_router_to_join_svc_def microtransaction_join_svc_def bank_router_svc_def max_bank_svc_def max_bank_router_to_join_svc_def max_bank_join_svc_def period_filter_svc_def payment_type_router_svc_def avg_by_type_svc_def avg_by_type_router_to_join_svc_def avg_by_type_join_svc_def origin_destination_router_svc_def group_by_origin_svc_def group_by_destination_svc_def origin_intermediary_router_svc_def destination_intermediary_router_svc_def aggregate_by_intermediary_svc_def suspicious_path_router_to_join_svc_def scatter_gather_join_svc_def payment_format_filter_svc_def currency_converter_svc_def amount_converted_filter_svc_def converted_amount_router_to_join_svc_def converter_join_svc_def service_def)
  then show ?thesis by (simp add: load_workers_from_config_def config_yml_def def_of_def)
qed

lemma small_services: "sw \<in> set (wiring_yml a b g) \<Longrightarrow> sc_Count (snd (fst sw)) < 4"
  by (auto simp: wiring_yml_def currency_filter_svc_def microtransaction_filter_svc_def microtransaction_router_to_join_svc_def microtransaction_join_svc_def bank_router_svc_def max_bank_svc_def max_bank_router_to_join_svc_def max_bank_join_svc_def period_filter_svc_def payment_type_router_svc_def avg_by_type_svc_def avg_by_type_router_to_join_svc_def avg_by_type_join_svc_def origin_destination_router_svc_def group_by_origin_svc_def group_by_destination_svc_def origin_intermediary_router_svc_def destination_intermediary_router_svc_def aggregate_by_intermediary_svc_def suspicious_path_router_to_join_svc_def scatter_gather_join_svc_def payment_format_filter_svc_def currency_converter_svc_def amount_converted_filter_svc_def converted_amount_router_to_join_svc_def converter_join_svc_def service_def)

lemma count_def_of [simp]: "Docker.WorkerCount (def_of sv) = sc_Count (snd sv)"
  by (simp add: def_of_def worker_of_service_def)

lemma deployed_yml:
  assumes "f_parse F ''50'' = Some a" "f_parse F ''1.00'' = Some b"
  shows "deployed F config_yml (yml g) = map (\<lambda>w. Inr (Some w)) (workers_yml a b g)"
proof -
  have "deployed F config_yml (yml g) = concat (map (\<lambda>sw. map (\<lambda>i. container_worker F (session_of g (fst sw) i))
      [0..sc_Count (snd (fst sw)) - 1]) (wiring_yml a b g))"
    by (simp add: deployed_def deployed_sessions_def loaded_services session_of_def map_concat comp_def
      wired_services [of a b g, symmetric])
  also have "\<dots> = concat (map (\<lambda>sw. map (\<lambda>i. Inr (Some (snd sw i))) [0..sc_Count (snd (fst sw)) - 1]) (wiring_yml a b g))"
  proof -
    have "container_worker F (session_of g (fst sw) i) = Inr (Some (snd sw i))"
      if "sw \<in> set (wiring_yml a b g)" "i \<in> set [0..sc_Count (snd (fst sw)) - 1]" for sw i
      using services_run [OF assms _ _ that(1)] small_services [OF that(1)] that(2) by simp
    then show ?thesis by (metis (mono_tags, lifting) map_eq_conv)
  qed
  finally show ?thesis by (simp add: workers_yml_def map_concat comp_def)
qed

definition gateway_yml :: gateway_config where
  "gateway_yml = \<lparr>gc_ServerHost = ''0.0.0.0'', gc_ServerPort = ''8080'', gc_MomHost = ''rabbitmq'', gc_MomPort = 5672,
     gc_CurrencyQueueName = ''currency_filter_input_queue'', gc_RawDataQueueName = ''raw_transactions'',
     gc_ClientExchangeName = ''client_results_exchange'', gc_MaxBankRouterQueue = ''bank_router_input_queue'',
     gc_ConverterJoinAmount = 2\<rparr>"

lemma gateway_built: "snd (build_gateway gateway_session) = Inr gateway_yml"
proof -
  have "atoi ''5672'' = Some 5672" by (simp add: atoi_def parse_nat_def base_value_def is_digit_def digit_val_def byte_def)
  then show ?thesis
    by (simp add: build_gateway_def gateway_session_def gateway_yml_def check_steps get_env_strict_def
      get_env_int_strict_def text_numbers)
qed

section \<open>What the properties look at\<close>

definition worker_sends :: "worker_wiring \<Rightarrow> (place list \<times> payload) list" where
  "worker_sends w = concat (map (\<lambda>e. sends (e_sender e)) (w_engines w))"

definition worker_reads :: "worker_wiring \<Rightarrow> (resource \<times> message_type \<times> payload) list" where
  "worker_reads w = all_reads (w_engines w)"

record link =
  li_name :: string
  li_id :: int
  li_expected :: u32
  li_peers :: "string list"
  li_places :: "place list"
  li_eofs :: "place list list"

definition link_of :: "engine_wiring \<Rightarrow> link" where
  "link_of e = \<lparr>li_name = cw_name (e_coordinator e), li_id = cw_id (e_coordinator e),
     li_expected = cw_expectedEOFs (e_coordinator e), li_peers = cw_publishKeys (e_coordinator e),
     li_places = engine_places e, li_eofs = engine_eofs e\<rparr>"

definition worker_links :: "worker_wiring \<Rightarrow> link list" where
  "worker_links w = map link_of (w_engines w)"

definition link_spec :: "worker_env \<Rightarrow> string \<Rightarrow> int \<Rightarrow> place list \<Rightarrow> place list list \<Rightarrow> link" where
  "link_spec e name k ins eofs = \<lparr>li_name = name, li_id = we_id e, li_expected = word_of_int (if k = 0 then 1 else k),
     li_peers = peer_keys name (we_id e) (we_count e), li_places = ins, li_eofs = eofs\<rparr>"

definition leader_eofs :: "worker_env \<Rightarrow> place list list \<Rightarrow> place list list" where
  "leader_eofs e eofs = (if we_id e = 0 then eofs else [])"

abbreviation numbered :: "string \<Rightarrow> string \<Rightarrow> int \<Rightarrow> place list" where
  "numbered x p n \<equiv> map (InExchange x) (build_numbered_exchange_keys p n)"

lemmas wiring_defs = worker_sends_def worker_reads_def worker_links_def link_of_def link_spec_def leader_eofs_def all_reads_def
  engine_places_def engine_eofs_def new_worker_def stateless_engine_def stateful_engine_def coordinator_spec_def
  input_of_def exchange_of_def

lemma stateless_view:
  "worker_sends (stateless_spec e cfg inQ outQ) = [([InQueue outQ], sl_Inserter cfg)]"
  "worker_reads (stateless_spec e cfg inQ outQ) = [(QueueConn inQ, sl_ReceivedMessageType cfg, sl_Extractor cfg)]"
  "worker_links (stateless_spec e cfg inQ outQ) =
     [link_spec e (we_exchange e) 1 [InQueue inQ] (leader_eofs e [[InQueue outQ]])]"
  by (simp_all add: wiring_defs stateless_spec_def)

lemma with_sender_view:
  "worker_sends (with_sender_spec e inQ t ex x rkeys ins p k) = [(map (InExchange x) rkeys, ins)]"
  "worker_reads (with_sender_spec e inQ t ex x rkeys ins p k) = [(QueueConn inQ, t, ex)]"
  "worker_links (with_sender_spec e inQ t ex x rkeys ins p k) =
     [link_spec e (we_exchange e) k [InQueue inQ] (leader_eofs e [map (InExchange x) rkeys])]"
  by (simp_all add: wiring_defs with_sender_spec_def)

lemma routed_view:
  "worker_sends (routed_spec e cfg inQ x n k) = [(numbered x x n, rt_Inserter cfg)]"
  "worker_reads (routed_spec e cfg inQ x n k) = [(QueueConn inQ, rt_InputMessageType cfg, rt_ExtractInput cfg)]"
  "worker_links (routed_spec e cfg inQ x n k) =
     [link_spec e (we_exchange e) k [InQueue inQ] (leader_eofs e [numbered x x n])]"
  by (simp_all add: wiring_defs routed_spec_def Let_def)

lemma payment_type_view:
  "worker_sends (payment_type_spec e inQ x n) = [(numbered x x n, AvgByTypeTransactionP)]"
  "worker_reads (payment_type_spec e inQ x n) = [(QueueConn inQ, MT_AVGBYTYPE_TRANSACTION_BATCH, AvgByTypeTransactionP)]"
  "worker_links (payment_type_spec e inQ x n) =
     [link_spec e (we_exchange e) 1 [InQueue inQ] (leader_eofs e [numbered x x n])]"
  by (simp_all add: wiring_defs payment_type_spec_def Let_def)

lemma stateful_view:
  "worker_sends (stateful_spec e cfg x outQ c) = [([InQueue outQ], sf_Inserter cfg)]"
  "worker_reads (stateful_spec e cfg x outQ c) =
     [(input_of e x (if sf_keys cfg = [] then x else sf_keys cfg), sf_ReceivedMessageType cfg, sf_Extractor cfg)]"
  "worker_links (stateful_spec e cfg x outQ c) =
     [link_spec e (we_exchange e) 1 [InExchange x ((if sf_keys cfg = [] then x else sf_keys cfg) @ ''.'' @ show_int (we_id e))]
        [[InQueue outQ]]]"
  by (simp_all add: wiring_defs stateful_spec_def)

lemma join_view:
  "worker_sends (join_spec e t ex p ins x cl c) = []"
  "worker_reads (join_spec e t ex p ins x cl c) = [(input_of e x x, t, ex)]"
  "worker_links (join_spec e t ex p ins x cl c) =
     [link_spec e (we_exchange e) 1 [InExchange x (x @ ''.'' @ show_int (we_id e))] []]"
  by (simp_all add: wiring_defs join_spec_def)

lemma aggregator_view:
  "worker_sends (aggregator_spec e x y outQ c) = [([InQueue outQ], SuspiciousPathP)]"
  "worker_reads (aggregator_spec e x y outQ c) =
     [(input_of e x x, MT_INTERMEDIARYPAIR_BATCH, IntermediaryPairP), (input_of e y y, MT_INTERMEDIARYPAIR_BATCH, IntermediaryPairP)]"
  "worker_links (aggregator_spec e x y outQ c) =
     [link_spec e (we_exchange e) 2
        [InExchange x (x @ ''.'' @ show_int (we_id e)), InExchange y (y @ ''.'' @ show_int (we_id e))] [[InQueue outQ]]]"
  by (simp_all add: wiring_defs aggregator_spec_def)

lemma currency_view:
  "worker_sends (currency_spec e inQ q1 q2 q3 q4 cur) =
     [([InQueue q1], MicrotransactionP), ([InQueue q2], MaxBankP), ([InQueue q3], PeriodFilterP), ([InQueue q4], PeriodFilterP)]"
  "worker_reads (currency_spec e inQ q1 q2 q3 q4 cur) = [(QueueConn inQ, MT_TRANSACTION_BATCH, TransactionP)]"
  "worker_links (currency_spec e inQ q1 q2 q3 q4 cur) =
     [link_spec e (we_exchange e) 1 [InQueue inQ] (leader_eofs e [[InQueue q1], [InQueue q2], [InQueue q3], [InQueue q4]])]"
  by (simp_all add: wiring_defs currency_spec_def sending_def)

lemma period_view:
  "worker_sends (period_spec e q per) =
     [([InQueue (q ''PAYMENT_TYPE_FILTER_QUEUE_NAME'')], ToConvertPeriodFilteredP),
      ([InQueue (q ''PAYMENT_TYPE_ROUTER_QUEUE_NAME'')], AvgByTypeTransactionP),
      ([InQueue (q ''ORIGIN_DESTINATION_ROUTER_QUEUE_NAME'')], ScatterGatherP)]"
  "worker_reads (period_spec e q per) =
     [(QueueConn (q ''RAW_INPUT_QUEUE_NAME''), MT_TO_CONVERT_TRANSACTION_BATCH, ToConvertTransactionP),
      (QueueConn (q ''PAYMENT_TYPE_PERIOD_FILTER_QUEUE_NAME''), MT_PERIOD_FILTER_BATCH, PeriodFilterP),
      (QueueConn (q ''SCATTER_GATHER_PERIOD_FILTER_QUEUE_NAME''), MT_PERIOD_FILTER_BATCH, PeriodFilterP)]"
  "worker_links (period_spec e q per) =
     [link_spec e (we_exchange e @ ''.q5_raw'') 0 [InQueue (q ''RAW_INPUT_QUEUE_NAME'')]
        (leader_eofs e [[InQueue (q ''PAYMENT_TYPE_FILTER_QUEUE_NAME'')]]),
      link_spec e (we_exchange e @ ''.q3_periods'') 0 [InQueue (q ''PAYMENT_TYPE_PERIOD_FILTER_QUEUE_NAME'')]
        (leader_eofs e [[InQueue (q ''PAYMENT_TYPE_ROUTER_QUEUE_NAME'')]]),
      link_spec e (we_exchange e @ ''.q4_scatter'') 0 [InQueue (q ''SCATTER_GATHER_PERIOD_FILTER_QUEUE_NAME'')]
        (leader_eofs e [[InQueue (q ''ORIGIN_DESTINATION_ROUTER_QUEUE_NAME'')]])]"
  by (simp_all add: wiring_defs period_spec_def period_engine_spec_def sending_def)

lemmas worker_views = stateless_view with_sender_view routed_view payment_type_view stateful_view join_view aggregator_view
  currency_view period_view

lemma env_of_view:
  "we_id (env_of g sv i) = i" "we_type (env_of g sv i) = sc_WorkerType (snd sv)" "we_count (env_of g sv i) = sc_Count (snd sv)"
  "we_exchange (env_of g sv i) =
     (if sc_WorkerExchangeName (snd sv) = [] then sc_WorkerType (snd sv) else sc_WorkerExchangeName (snd sv))"
  by (simp_all add: env_of_def container_env_def def_of_def worker_of_service_def)


section \<open>The tables of the system\<close>

text \<open>What is sent, without repetitions; what is read; and the engines with the EOFs they publish.\<close>

definition reader :: "string \<Rightarrow> string \<Rightarrow> string \<Rightarrow> message_type \<Rightarrow> payload \<Rightarrow> int \<Rightarrow> resource \<times> message_type \<times> payload" where
  "reader x p t mt pl i =
     (ExchangeConn x [p @ ''.'' @ show_int i] (x @ ''.'' @ t @ ''.'' @ show_int i), mt, pl)"

definition queue_place :: "string \<Rightarrow> int \<Rightarrow> place list" where
  "queue_place q i = [InQueue q]"

definition key_place :: "string \<Rightarrow> string \<Rightarrow> int \<Rightarrow> place list" where
  "key_place x p i = [InExchange x (p @ ''.'' @ show_int i)]"

definition leader :: "place list list \<Rightarrow> int \<Rightarrow> place list list" where
  "leader eofs i = (if i = 0 then eofs else [])"

definition always :: "place list list \<Rightarrow> int \<Rightarrow> place list list" where
  "always eofs i = eofs"

definition replica :: "string \<Rightarrow> int \<Rightarrow> int \<Rightarrow> (int \<Rightarrow> place list) \<Rightarrow> (int \<Rightarrow> place list list) \<Rightarrow> int \<Rightarrow> link" where
  "replica name n k ins eofs i = \<lparr>li_name = name, li_id = i, li_expected = word_of_int k, li_peers = peer_keys name i n,
     li_places = ins i, li_eofs = eofs i\<rparr>"

definition sends_yml :: "(place list \<times> payload) list" where
  "sends_yml =
     [([InQueue ''currency_filter_input_queue''], TransactionP),
      ([InQueue ''raw_transactions''], ToConvertTransactionP),
      ([InQueue ''bank_router_input_queue''], MaxBankP),
      ([InQueue ''microtransaction_filter_input_queue''], MicrotransactionP),
      ([InQueue ''payment_type_period_filter_input_queue''], PeriodFilterP),
      ([InQueue ''scatter_gather_period_filter_input_queue''], PeriodFilterP),
      ([InQueue ''microtransaction_router_to_join_input_queue''], MicrotransactionP),
      (numbered ''microtransaction_join_exchange'' ''microtransaction_join_exchange'' 2, MicrotransactionP),
      (numbered ''max_bank_input_exchange'' ''max_bank_input_exchange'' 2, MaxBankP),
      ([InQueue ''max_bank_join_input''], MaxBankResultP),
      (numbered ''max_bank_join_exchange'' ''max_bank_join_exchange'' 2, MaxBankResultP),
      ([InQueue ''payment_format_filter_input''], ToConvertPeriodFilteredP),
      ([InQueue ''payment_type_router_input''], AvgByTypeTransactionP),
      ([InQueue ''origin_destination_router''], ScatterGatherP),
      (numbered ''payment_type_exchange'' ''payment_type_exchange'' 2, AvgByTypeTransactionP),
      ([InQueue ''avg_by_type_router_to_join_input''], AvgByTypeResultP),
      (numbered ''avg_by_type_join_input'' ''avg_by_type_join_input'' 2, AvgByTypeResultP),
      (numbered ''group_by_origin_destination'' ''origin'' 2 @ numbered ''group_by_origin_destination''
        ''destination'' 2, ScatterGatherP),
      ([InQueue ''grouped_origin_accounts''], GroupedAccountsP),
      ([InQueue ''grouped_destination_accounts''], GroupedAccountsP),
      (numbered ''origin_intermediary_aggregation'' ''origin_intermediary_aggregation'' 2, IntermediaryPairP),
      (numbered ''destination_intermediary_aggregation'' ''destination_intermediary_aggregation'' 2,
        IntermediaryPairP),
      ([InQueue ''suspicious_path_router_join_input''], SuspiciousPathP),
      (numbered ''suspicious_paths_output'' ''suspicious_paths_output'' 2, SuspiciousPathP),
      ([InQueue ''conversion_format_input''], ToConvertTypeFilteredPaymentP),
      ([InQueue ''filtered_currency_conversion_input''], ConvertedAmountP),
      ([InQueue ''converted_amount_router_join_input''], ConvertedAmountP),
      (numbered ''converted_amount_output'' ''converted_amount_output'' 2, ConvertedAmountP)]"

definition reads_yml :: "(resource \<times> message_type \<times> payload) list" where
  "reads_yml =
     [(QueueConn ''currency_filter_input_queue'', MT_TRANSACTION_BATCH, TransactionP)] @
     [(QueueConn ''microtransaction_filter_input_queue'', MT_MICROTRANSACTION_BATCH, MicrotransactionP)] @
     [(QueueConn ''microtransaction_router_to_join_input_queue'', MT_MICROTRANSACTION_BATCH, MicrotransactionP)] @
     map (reader ''microtransaction_join_exchange'' ''microtransaction_join_exchange'' ''MICROTRANSACTION_JOIN''
        MT_MICROTRANSACTION_BATCH MicrotransactionP) [0..1] @
     [(QueueConn ''bank_router_input_queue'', MT_MAXBANK_BATCH, MaxBankP)] @
     map (reader ''max_bank_input_exchange'' ''max_bank_input_exchange'' ''MAX_BANK'' MT_MAXBANK_BATCH MaxBankP)
        [0..1] @
     [(QueueConn ''max_bank_join_input'', MT_MAX_BANK_RESULT_BATCH, MaxBankResultP)] @
     map (reader ''max_bank_join_exchange'' ''max_bank_join_exchange'' ''MAX_BANK_JOIN'' MT_MAX_BANK_RESULT_BATCH
        MaxBankResultP) [0..1] @
     [(QueueConn ''raw_transactions'', MT_TO_CONVERT_TRANSACTION_BATCH, ToConvertTransactionP)] @
     [(QueueConn ''payment_type_period_filter_input_queue'', MT_PERIOD_FILTER_BATCH, PeriodFilterP)] @
     [(QueueConn ''scatter_gather_period_filter_input_queue'', MT_PERIOD_FILTER_BATCH, PeriodFilterP)] @
     [(QueueConn ''payment_type_router_input'', MT_AVGBYTYPE_TRANSACTION_BATCH, AvgByTypeTransactionP)] @
     map (reader ''payment_type_exchange'' ''payment_type_exchange'' ''AVG_BY_TYPE'' MT_AVGBYTYPE_TRANSACTION_BATCH
        AvgByTypeTransactionP) [0..1] @
     [(QueueConn ''avg_by_type_router_to_join_input'', MT_AVGBYTYPE_RESULT_BATCH, AvgByTypeResultP)] @
     map (reader ''avg_by_type_join_input'' ''avg_by_type_join_input'' ''AVG_BY_TYPE_JOIN'' MT_AVGBYTYPE_RESULT_BATCH
        AvgByTypeResultP) [0..1] @
     [(QueueConn ''origin_destination_router'', MT_SCATTERGATHER_BATCH, ScatterGatherP)] @
     map (reader ''group_by_origin_destination'' ''origin'' ''GROUP_BY_ORIGIN'' MT_SCATTERGATHER_BATCH
        ScatterGatherP) [0..1] @
     map (reader ''group_by_origin_destination'' ''destination'' ''GROUP_BY_DESTINATION'' MT_SCATTERGATHER_BATCH
        ScatterGatherP) [0..1] @
     [(QueueConn ''grouped_origin_accounts'', MT_GROUPED_ACCOUNTS_BATCH, GroupedAccountsP)] @
     [(QueueConn ''grouped_destination_accounts'', MT_GROUPED_ACCOUNTS_BATCH, GroupedAccountsP)] @
     map (reader ''origin_intermediary_aggregation'' ''origin_intermediary_aggregation''
        ''AGGREGATE_BY_INTERMEDIARY'' MT_INTERMEDIARYPAIR_BATCH IntermediaryPairP) [0..1] @
     map (reader ''destination_intermediary_aggregation'' ''destination_intermediary_aggregation''
        ''AGGREGATE_BY_INTERMEDIARY'' MT_INTERMEDIARYPAIR_BATCH IntermediaryPairP) [0..1] @
     [(QueueConn ''suspicious_path_router_join_input'', MT_SUSPICIOUS_PATH_BATCH, SuspiciousPathP)] @
     map (reader ''suspicious_paths_output'' ''suspicious_paths_output'' ''SCATTER_GATHER_JOIN''
        MT_SUSPICIOUS_PATH_BATCH SuspiciousPathP) [0..1] @
     [(QueueConn ''payment_format_filter_input'', MT_TO_CONVERT_PERIOD_FILTERED_BATCH, ToConvertPeriodFilteredP)] @
     [(QueueConn ''conversion_format_input'', MT_TO_CONVERT_TYPE_FILTERED_PAYMENT_BATCH,
        ToConvertTypeFilteredPaymentP)] @
     [(QueueConn ''filtered_currency_conversion_input'', MT_CONVERTED_AMOUNT_BATCH, ConvertedAmountP)] @
     [(QueueConn ''converted_amount_router_join_input'', MT_CONVERTED_AMOUNT_BATCH, ConvertedAmountP)] @
     map (reader ''converted_amount_output'' ''converted_amount_output'' ''CONVERSION_JOIN''
        MT_CONVERTED_AMOUNT_BATCH ConvertedAmountP) [0..1]"

definition links_yml :: "link list" where
  "links_yml =
     map (replica ''CURRENCY_FILTER'' 3 1 (queue_place ''currency_filter_input_queue'') (leader [[InQueue
        ''microtransaction_filter_input_queue''], [InQueue ''bank_router_input_queue''], [InQueue
        ''payment_type_period_filter_input_queue''], [InQueue ''scatter_gather_period_filter_input_queue'']])) [0..2] @
     map (replica ''AMOUNT_FILTER'' 2 1 (queue_place ''microtransaction_filter_input_queue'') (leader [[InQueue
        ''microtransaction_router_to_join_input_queue'']])) [0..1] @
     map (replica ''MICROTRANSACTION_ROUTER_TO_JOIN'' 2 1 (queue_place ''microtransaction_router_to_join_input_queue'')
        (leader [numbered ''microtransaction_join_exchange'' ''microtransaction_join_exchange'' 2])) [0..1] @
     map (replica ''MICROTRANSACTION_JOIN'' 2 1 (key_place ''microtransaction_join_exchange''
        ''microtransaction_join_exchange'') (always [])) [0..1] @
     map (replica ''BANK_ROUTER'' 2 2 (queue_place ''bank_router_input_queue'') (leader [numbered
        ''max_bank_input_exchange'' ''max_bank_input_exchange'' 2])) [0..1] @
     map (replica ''MAX_BANK'' 2 1 (key_place ''max_bank_input_exchange'' ''max_bank_input_exchange'') (always [[InQueue
        ''max_bank_join_input'']])) [0..1] @
     map (replica ''MAX_BANK_ROUTER_TO_JOIN'' 2 2 (queue_place ''max_bank_join_input'') (leader [numbered
        ''max_bank_join_exchange'' ''max_bank_join_exchange'' 2])) [0..1] @
     map (replica ''MAX_BANK_JOIN'' 2 1 (key_place ''max_bank_join_exchange'' ''max_bank_join_exchange'') (always [])) [0..1] @
     concat (map (\<lambda>i. [replica ''PERIOD_FILTER.q5_raw'' 2 1 (queue_place ''raw_transactions'') (leader [[InQueue
          ''payment_format_filter_input'']]) i,
        replica ''PERIOD_FILTER.q3_periods'' 2 1 (queue_place ''payment_type_period_filter_input_queue'') (leader
          [[InQueue ''payment_type_router_input'']]) i,
        replica ''PERIOD_FILTER.q4_scatter'' 2 1 (queue_place ''scatter_gather_period_filter_input_queue'') (leader
          [[InQueue ''origin_destination_router'']]) i]) [0..1]) @
     map (replica ''PAYMENT_TYPE_ROUTER'' 2 1 (queue_place ''payment_type_router_input'') (leader [numbered
        ''payment_type_exchange'' ''payment_type_exchange'' 2])) [0..1] @
     map (replica ''AVG_BY_TYPE'' 2 1 (key_place ''payment_type_exchange'' ''payment_type_exchange'') (always [[InQueue
        ''avg_by_type_router_to_join_input'']])) [0..1] @
     map (replica ''AVG_BY_TYPE_ROUTER_TO_JOIN'' 2 2 (queue_place ''avg_by_type_router_to_join_input'') (leader [numbered
        ''avg_by_type_join_input'' ''avg_by_type_join_input'' 2])) [0..1] @
     map (replica ''AVG_BY_TYPE_JOIN'' 2 1 (key_place ''avg_by_type_join_input'' ''avg_by_type_join_input'') (always [])) [0..1] @
     map (replica ''ORIGIN_DESTINATION_ROUTER'' 2 1 (queue_place ''origin_destination_router'') (leader [numbered
        ''group_by_origin_destination'' ''origin'' 2 @ numbered ''group_by_origin_destination'' ''destination'' 2])) [0..1] @
     map (replica ''GROUP_BY_ORIGIN'' 2 1 (key_place ''group_by_origin_destination'' ''origin'') (always [[InQueue
        ''grouped_origin_accounts'']])) [0..1] @
     map (replica ''GROUP_BY_DESTINATION'' 2 1 (key_place ''group_by_origin_destination'' ''destination'') (always
        [[InQueue ''grouped_destination_accounts'']])) [0..1] @
     map (replica ''ORIGIN_INTERMEDIARY_ROUTER'' 2 2 (queue_place ''grouped_origin_accounts'') (leader [numbered
        ''origin_intermediary_aggregation'' ''origin_intermediary_aggregation'' 2])) [0..1] @
     map (replica ''DESTINATION_INTERMEDIARY_ROUTER'' 2 2 (queue_place ''grouped_destination_accounts'') (leader [numbered
        ''destination_intermediary_aggregation'' ''destination_intermediary_aggregation'' 2])) [0..1] @
     map (replica ''AGGREGATE_BY_INTERMEDIARY'' 2 2 (\<lambda>i. key_place ''origin_intermediary_aggregation''
        ''origin_intermediary_aggregation'' i @ key_place ''destination_intermediary_aggregation''
        ''destination_intermediary_aggregation'' i) (always [[InQueue ''suspicious_path_router_join_input'']])) [0..1] @
     map (replica ''SUSPICIOUS_PATH_ROUTER_TO_JOIN'' 2 2 (queue_place ''suspicious_path_router_join_input'') (leader
        [numbered ''suspicious_paths_output'' ''suspicious_paths_output'' 2])) [0..1] @
     map (replica ''SCATTER_GATHER_JOIN'' 2 1 (key_place ''suspicious_paths_output'' ''suspicious_paths_output'') (always
        [])) [0..1] @
     map (replica ''FORMAT_FILTER'' 2 1 (queue_place ''payment_format_filter_input'') (leader [[InQueue
        ''conversion_format_input'']])) [0..1] @
     map (replica ''CURRENCY_CONVERTER'' 2 1 (queue_place ''conversion_format_input'') (leader [[InQueue
        ''filtered_currency_conversion_input'']])) [0..1] @
     map (replica ''AMOUNT_CONVERTED_FILTER'' 2 1 (queue_place ''filtered_currency_conversion_input'') (leader [[InQueue
        ''converted_amount_router_join_input'']])) [0..1] @
     map (replica ''CONVERTED_AMOUNT_ROUTER_TO_JOIN'' 2 1 (queue_place ''converted_amount_router_join_input'') (leader
        [numbered ''converted_amount_output'' ''converted_amount_output'' 2])) [0..1] @
     map (replica ''CONVERSION_JOIN'' 2 1 (key_place ''converted_amount_output'' ''converted_amount_output'') (always [])) [0..1]"

lemma upto_lists: "[0..1] = [0, 1::int]" "[0..2] = [0, 1, 2::int]"
  by (simp_all add: upto.simps)

lemmas svc_defs = currency_filter_svc_def microtransaction_filter_svc_def microtransaction_router_to_join_svc_def microtransaction_join_svc_def bank_router_svc_def max_bank_svc_def max_bank_router_to_join_svc_def max_bank_join_svc_def period_filter_svc_def payment_type_router_svc_def avg_by_type_svc_def avg_by_type_router_to_join_svc_def avg_by_type_join_svc_def origin_destination_router_svc_def group_by_origin_svc_def group_by_destination_svc_def origin_intermediary_router_svc_def destination_intermediary_router_svc_def aggregate_by_intermediary_svc_def suspicious_path_router_to_join_svc_def scatter_gather_join_svc_def payment_format_filter_svc_def currency_converter_svc_def amount_converted_filter_svc_def converted_amount_router_to_join_svc_def converter_join_svc_def service_def

lemmas table_simps = worker_views env_of_view upto_lists build_numbered_exchange_keys_def number_texts

lemma table_of_sends:
  "set (gateway_sends gateway_yml @ concat (map worker_sends (workers_yml a b g))) = set sends_yml"
proof (rule subset_antisym)
  show "set (gateway_sends gateway_yml @ concat (map worker_sends (workers_yml a b g))) \<subseteq> set sends_yml"
    by (simp add: workers_yml_def wiring_yml_def sends_yml_def table_simps svc_defs gateway_sends_def gateway_yml_def)
  show "set sends_yml \<subseteq> set (gateway_sends gateway_yml @ concat (map worker_sends (workers_yml a b g)))"
    by (simp add: workers_yml_def wiring_yml_def sends_yml_def table_simps svc_defs gateway_sends_def gateway_yml_def)
qed

lemma table_of_reads: "set (concat (map worker_reads (workers_yml a b g))) = set reads_yml"
proof (rule subset_antisym)
  show "set (concat (map worker_reads (workers_yml a b g))) \<subseteq> set reads_yml"
    by (simp add: workers_yml_def wiring_yml_def reads_yml_def table_simps svc_defs reader_def input_of_def exchange_of_def)
  show "set reads_yml \<subseteq> set (concat (map worker_reads (workers_yml a b g)))"
    by (simp add: workers_yml_def wiring_yml_def reads_yml_def table_simps svc_defs reader_def input_of_def exchange_of_def)
qed

lemma table_of_links: "concat (map worker_links (workers_yml a b g)) = links_yml"
  by (simp add: workers_yml_def wiring_yml_def links_yml_def table_simps svc_defs replica_def link_spec_def queue_place_def
    key_place_def leader_def always_def leader_eofs_def)

end
