(* ===== verification/DeployedSystem.thy ===== *)
theory DeployedSystem
  imports Wiring
begin

text \<open>
  The composition of the workers: every queue and routing key of the deployment of \<open>src/config.yml\<close> joins a sender and a
  receiver of the same message type, every group of workers waits for the EOFs it gets, and the conversions of what the
  workers send are read by the gateway.
\<close>

section \<open>Types\<close>

lemma sends_of_workers: "all_sends gc (concat (map w_engines ws)) = gateway_sends gc @ concat (map worker_sends ws)"
  by (induction ws) (simp_all add: all_sends_def worker_sends_def)

lemma reads_of_workers: "all_reads (concat (map w_engines ws)) = concat (map worker_reads ws)"
  by (induction ws) (simp_all add: all_reads_def worker_reads_def)

lemma well_typed_sets:
  "set outs = set outs' \<Longrightarrow> set ins = set ins' \<Longrightarrow> well_typed_links outs ins = well_typed_links outs' ins'"
  by (simp add: well_typed_links_def list_all_iff list_ex_iff)

lemma tables_well_typed: "well_typed_links sends_yml reads_yml"
  unfolding well_typed_links_def
proof
  show "list_all (\<lambda>o'. list_all (\<lambda>p. list_ex (\<lambda>i. p \<in> set (resource_places (fst i))) reads_yml \<and>
      list_all (reads_it p (snd o')) reads_yml) (fst o')) sends_yml"
    by (simp add: sends_yml_def reads_yml_def reader_def reads_it_def upto_lists build_numbered_exchange_keys_def number_texts)
  show "list_all (\<lambda>i. list_all (\<lambda>p. list_ex (\<lambda>o'. p \<in> set (fst o')) sends_yml) (resource_places (fst i))) reads_yml"
    by (simp add: sends_yml_def reads_yml_def reader_def upto_lists build_numbered_exchange_keys_def number_texts)
qed

lemma workers_keys_have_one_reader: "keys_have_one_reader (concat (map w_engines (workers_yml a b g)))"
  unfolding keys_have_one_reader_def reads_of_workers
  by (rule conjI; simp add: workers_yml_def wiring_yml_def table_simps svc_defs input_of_def exchange_of_def)

section \<open>EOFs\<close>

definition places_of :: "link list \<Rightarrow> string \<Rightarrow> place list" where
  "places_of ls n = concat (map li_places (filter (\<lambda>l. li_name l = n) ls))"

definition eofs_at :: "place list list \<Rightarrow> place list \<Rightarrow> nat" where
  "eofs_at posts ps = length (filter (\<lambda>eof. list_ex (\<lambda>p. p \<in> set ps) eof) posts)"

lemma links_of_workers: "map link_of (concat (map w_engines ws)) = concat (map worker_links ws)"
  by (induction ws) (simp_all add: worker_links_def)

lemma places_of_links: "places_of (map link_of es) (cw_name (e_coordinator e)) = concat (map engine_places (group_of es e))"
  by (simp add: places_of_def group_of_def link_of_def filter_map comp_def)

lemma eofs_of_links: "all_eofs gc es = map fst (gateway_sends gc) @ concat (map li_eofs (map link_of es))"
  by (simp add: all_eofs_def link_of_def comp_def)

lemma expects_by_links:
  "expects_its_eofs gc es \<longleftrightarrow>
     list_all (\<lambda>l. li_expected l = word_of_int (int (eofs_at (all_eofs gc es) (places_of (map link_of es) (li_name l)))))
       (map link_of es)"
proof -
  have "li_name (link_of e) = cw_name (e_coordinator e)" "li_expected (link_of e) = cw_expectedEOFs (e_coordinator e)" for e
    by (simp_all add: link_of_def)
  then show ?thesis
    by (simp add: expects_its_eofs_def list_all_iff eofs_of_group_def places_of_links eofs_at_def Let_def)
qed

lemma peers_by_links:
  "peers_know_each_other es \<longleftrightarrow>
     list_all (\<lambda>l. li_peers l = map (\<lambda>l'. peer_key (li_name l') (li_id l'))
       (filter (\<lambda>l'. li_id l' \<noteq> li_id l \<and> li_name l' = li_name l) (map link_of es))) (map link_of es)"
  by (simp add: peers_know_each_other_def list_all_iff group_of_def link_of_def filter_map comp_def conj_commute)

lemma replica_simps [simp]:
  "li_name (replica n c k ins eofs i) = n" "li_id (replica n c k ins eofs i) = i"
  "li_expected (replica n c k ins eofs i) = word_of_int k" "li_places (replica n c k ins eofs i) = ins i"
  "li_eofs (replica n c k ins eofs i) = eofs i" "li_peers (replica n c k ins eofs i) = peer_keys n i c"
  by (simp_all add: replica_def)

definition eofs_yml :: "place list list" where
  "eofs_yml = map fst (gateway_sends gateway_yml) @ concat (map li_eofs links_yml)"

lemmas place_simps = places_of_def links_yml_def queue_place_def key_place_def upto_lists number_texts

lemma eof_table: "eofs_yml = 
     [[InQueue ''currency_filter_input_queue''],
      [InQueue ''raw_transactions''],
      [InQueue ''bank_router_input_queue''],
      [InQueue ''microtransaction_filter_input_queue''],
      [InQueue ''bank_router_input_queue''],
      [InQueue ''payment_type_period_filter_input_queue''],
      [InQueue ''scatter_gather_period_filter_input_queue''],
      [InQueue ''microtransaction_router_to_join_input_queue''],
      [InExchange ''microtransaction_join_exchange'' ''microtransaction_join_exchange.0'', InExchange
        ''microtransaction_join_exchange'' ''microtransaction_join_exchange.1''],
      [InExchange ''max_bank_input_exchange'' ''max_bank_input_exchange.0'', InExchange ''max_bank_input_exchange''
        ''max_bank_input_exchange.1''],
      [InQueue ''max_bank_join_input''],
      [InQueue ''max_bank_join_input''],
      [InExchange ''max_bank_join_exchange'' ''max_bank_join_exchange.0'', InExchange ''max_bank_join_exchange''
        ''max_bank_join_exchange.1''],
      [InQueue ''payment_format_filter_input''],
      [InQueue ''payment_type_router_input''],
      [InQueue ''origin_destination_router''],
      [InExchange ''payment_type_exchange'' ''payment_type_exchange.0'', InExchange ''payment_type_exchange''
        ''payment_type_exchange.1''],
      [InQueue ''avg_by_type_router_to_join_input''],
      [InQueue ''avg_by_type_router_to_join_input''],
      [InExchange ''avg_by_type_join_input'' ''avg_by_type_join_input.0'', InExchange ''avg_by_type_join_input''
        ''avg_by_type_join_input.1''],
      [InExchange ''group_by_origin_destination'' ''origin.0'', InExchange ''group_by_origin_destination''
        ''origin.1'', InExchange ''group_by_origin_destination'' ''destination.0'', InExchange
        ''group_by_origin_destination'' ''destination.1''],
      [InQueue ''grouped_origin_accounts''],
      [InQueue ''grouped_origin_accounts''],
      [InQueue ''grouped_destination_accounts''],
      [InQueue ''grouped_destination_accounts''],
      [InExchange ''origin_intermediary_aggregation'' ''origin_intermediary_aggregation.0'', InExchange
        ''origin_intermediary_aggregation'' ''origin_intermediary_aggregation.1''],
      [InExchange ''destination_intermediary_aggregation'' ''destination_intermediary_aggregation.0'', InExchange
        ''destination_intermediary_aggregation'' ''destination_intermediary_aggregation.1''],
      [InQueue ''suspicious_path_router_join_input''],
      [InQueue ''suspicious_path_router_join_input''],
      [InExchange ''suspicious_paths_output'' ''suspicious_paths_output.0'', InExchange ''suspicious_paths_output''
        ''suspicious_paths_output.1''],
      [InQueue ''conversion_format_input''],
      [InQueue ''filtered_currency_conversion_input''],
      [InQueue ''converted_amount_router_join_input''],
      [InExchange ''converted_amount_output'' ''converted_amount_output.0'', InExchange ''converted_amount_output''
        ''converted_amount_output.1'']]"
  by (simp add: eofs_yml_def links_yml_def gateway_sends_def gateway_yml_def upto_lists leader_def always_def
    build_numbered_exchange_keys_def number_texts)

lemma places_of_parts:
  "places_of [] nm = []"
  "places_of (ls @ ls') nm = places_of ls nm @ places_of ls' nm"
  "places_of (map (replica n c k ins eofs) is) nm = (if n = nm then concat (map ins is) else [])"
  "places_of (replica n c k ins eofs i # ls) nm = (if n = nm then ins i else []) @ places_of ls nm"
proof -
  show "places_of (map (replica n c k ins eofs) is) nm = (if n = nm then concat (map ins is) else [])"
    by (induction "is") (simp_all add: places_of_def comp_def)
qed (simp_all add: places_of_def)

lemma filter_replicas:
  "filter (\<lambda>l. li_name l = nm) (map (replica n c k ins eofs) is) = (if n = nm then map (replica n c k ins eofs) is else [])"
  by (induction "is") simp_all

lemma period_places:
  "places_of (concat (map (\<lambda>i. [replica n1 c1 k1 ins1 eofs1 i, replica n2 c2 k2 ins2 eofs2 i, replica n3 c3 k3 ins3 eofs3 i]) [0..1])) nm =
     (if n1 = nm then ins1 0 else []) @ (if n2 = nm then ins2 0 else []) @ (if n3 = nm then ins3 0 else []) @
     (if n1 = nm then ins1 1 else []) @ (if n2 = nm then ins2 1 else []) @ (if n3 = nm then ins3 1 else [])"
  by (simp add: upto_lists places_of_def)

text \<open>The places each group of engines reads, and how many EOFs reach them.\<close>

lemma group_places_0:
  "places_of links_yml ''CURRENCY_FILTER'' = [InQueue ''currency_filter_input_queue'', InQueue
      ''currency_filter_input_queue'', InQueue ''currency_filter_input_queue'']"
  "places_of links_yml ''AMOUNT_FILTER'' = [InQueue ''microtransaction_filter_input_queue'', InQueue
      ''microtransaction_filter_input_queue'']"
  "places_of links_yml ''MICROTRANSACTION_ROUTER_TO_JOIN'' = [InQueue
      ''microtransaction_router_to_join_input_queue'', InQueue ''microtransaction_router_to_join_input_queue'']"
  "places_of links_yml ''MICROTRANSACTION_JOIN'' = [InExchange ''microtransaction_join_exchange''
      ''microtransaction_join_exchange.0'', InExchange ''microtransaction_join_exchange''
      ''microtransaction_join_exchange.1'']"
  "places_of links_yml ''BANK_ROUTER'' = [InQueue ''bank_router_input_queue'', InQueue
      ''bank_router_input_queue'']"
  "places_of links_yml ''MAX_BANK'' = [InExchange ''max_bank_input_exchange'' ''max_bank_input_exchange.0'',
      InExchange ''max_bank_input_exchange'' ''max_bank_input_exchange.1'']"
  "places_of links_yml ''MAX_BANK_ROUTER_TO_JOIN'' = [InQueue ''max_bank_join_input'', InQueue
      ''max_bank_join_input'']"
  by (simp_all only: links_yml_def places_of_parts period_places) (simp_all add: queue_place_def key_place_def upto_lists number_texts)

lemma group_eofs_0:
  "eofs_at eofs_yml (places_of links_yml ''CURRENCY_FILTER'') = 1"
  "eofs_at eofs_yml (places_of links_yml ''AMOUNT_FILTER'') = 1"
  "eofs_at eofs_yml (places_of links_yml ''MICROTRANSACTION_ROUTER_TO_JOIN'') = 1"
  "eofs_at eofs_yml (places_of links_yml ''MICROTRANSACTION_JOIN'') = 1"
  "eofs_at eofs_yml (places_of links_yml ''BANK_ROUTER'') = 2"
  "eofs_at eofs_yml (places_of links_yml ''MAX_BANK'') = 1"
  "eofs_at eofs_yml (places_of links_yml ''MAX_BANK_ROUTER_TO_JOIN'') = 2"
  by (simp_all add: group_places_0 eofs_at_def eof_table)

lemma group_places_1:
  "places_of links_yml ''MAX_BANK_JOIN'' = [InExchange ''max_bank_join_exchange'' ''max_bank_join_exchange.0'',
      InExchange ''max_bank_join_exchange'' ''max_bank_join_exchange.1'']"
  "places_of links_yml ''PERIOD_FILTER.q5_raw'' = [InQueue ''raw_transactions'', InQueue ''raw_transactions'']"
  "places_of links_yml ''PERIOD_FILTER.q3_periods'' = [InQueue ''payment_type_period_filter_input_queue'', InQueue
      ''payment_type_period_filter_input_queue'']"
  "places_of links_yml ''PERIOD_FILTER.q4_scatter'' = [InQueue ''scatter_gather_period_filter_input_queue'',
      InQueue ''scatter_gather_period_filter_input_queue'']"
  "places_of links_yml ''PAYMENT_TYPE_ROUTER'' = [InQueue ''payment_type_router_input'', InQueue
      ''payment_type_router_input'']"
  "places_of links_yml ''AVG_BY_TYPE'' = [InExchange ''payment_type_exchange'' ''payment_type_exchange.0'',
      InExchange ''payment_type_exchange'' ''payment_type_exchange.1'']"
  "places_of links_yml ''AVG_BY_TYPE_ROUTER_TO_JOIN'' = [InQueue ''avg_by_type_router_to_join_input'', InQueue
      ''avg_by_type_router_to_join_input'']"
  by (simp_all only: links_yml_def places_of_parts period_places) (simp_all add: queue_place_def key_place_def upto_lists number_texts)

lemma group_eofs_1:
  "eofs_at eofs_yml (places_of links_yml ''MAX_BANK_JOIN'') = 1"
  "eofs_at eofs_yml (places_of links_yml ''PERIOD_FILTER.q5_raw'') = 1"
  "eofs_at eofs_yml (places_of links_yml ''PERIOD_FILTER.q3_periods'') = 1"
  "eofs_at eofs_yml (places_of links_yml ''PERIOD_FILTER.q4_scatter'') = 1"
  "eofs_at eofs_yml (places_of links_yml ''PAYMENT_TYPE_ROUTER'') = 1"
  "eofs_at eofs_yml (places_of links_yml ''AVG_BY_TYPE'') = 1"
  "eofs_at eofs_yml (places_of links_yml ''AVG_BY_TYPE_ROUTER_TO_JOIN'') = 2"
  by (simp_all add: group_places_1 eofs_at_def eof_table)

lemma group_places_2:
  "places_of links_yml ''AVG_BY_TYPE_JOIN'' = [InExchange ''avg_by_type_join_input'' ''avg_by_type_join_input.0'',
      InExchange ''avg_by_type_join_input'' ''avg_by_type_join_input.1'']"
  "places_of links_yml ''ORIGIN_DESTINATION_ROUTER'' = [InQueue ''origin_destination_router'', InQueue
      ''origin_destination_router'']"
  "places_of links_yml ''GROUP_BY_ORIGIN'' = [InExchange ''group_by_origin_destination'' ''origin.0'', InExchange
      ''group_by_origin_destination'' ''origin.1'']"
  "places_of links_yml ''GROUP_BY_DESTINATION'' = [InExchange ''group_by_origin_destination'' ''destination.0'',
      InExchange ''group_by_origin_destination'' ''destination.1'']"
  "places_of links_yml ''ORIGIN_INTERMEDIARY_ROUTER'' = [InQueue ''grouped_origin_accounts'', InQueue
      ''grouped_origin_accounts'']"
  "places_of links_yml ''DESTINATION_INTERMEDIARY_ROUTER'' = [InQueue ''grouped_destination_accounts'', InQueue
      ''grouped_destination_accounts'']"
  "places_of links_yml ''AGGREGATE_BY_INTERMEDIARY'' = [InExchange ''origin_intermediary_aggregation''
      ''origin_intermediary_aggregation.0'', InExchange ''destination_intermediary_aggregation''
      ''destination_intermediary_aggregation.0'', InExchange ''origin_intermediary_aggregation''
      ''origin_intermediary_aggregation.1'', InExchange ''destination_intermediary_aggregation''
      ''destination_intermediary_aggregation.1'']"
  by (simp_all only: links_yml_def places_of_parts period_places) (simp_all add: queue_place_def key_place_def upto_lists number_texts)

lemma group_eofs_2:
  "eofs_at eofs_yml (places_of links_yml ''AVG_BY_TYPE_JOIN'') = 1"
  "eofs_at eofs_yml (places_of links_yml ''ORIGIN_DESTINATION_ROUTER'') = 1"
  "eofs_at eofs_yml (places_of links_yml ''GROUP_BY_ORIGIN'') = 1"
  "eofs_at eofs_yml (places_of links_yml ''GROUP_BY_DESTINATION'') = 1"
  "eofs_at eofs_yml (places_of links_yml ''ORIGIN_INTERMEDIARY_ROUTER'') = 2"
  "eofs_at eofs_yml (places_of links_yml ''DESTINATION_INTERMEDIARY_ROUTER'') = 2"
  "eofs_at eofs_yml (places_of links_yml ''AGGREGATE_BY_INTERMEDIARY'') = 2"
  by (simp_all add: group_places_2 eofs_at_def eof_table)

lemma group_places_3:
  "places_of links_yml ''SUSPICIOUS_PATH_ROUTER_TO_JOIN'' = [InQueue ''suspicious_path_router_join_input'',
      InQueue ''suspicious_path_router_join_input'']"
  "places_of links_yml ''SCATTER_GATHER_JOIN'' = [InExchange ''suspicious_paths_output''
      ''suspicious_paths_output.0'', InExchange ''suspicious_paths_output'' ''suspicious_paths_output.1'']"
  "places_of links_yml ''FORMAT_FILTER'' = [InQueue ''payment_format_filter_input'', InQueue
      ''payment_format_filter_input'']"
  "places_of links_yml ''CURRENCY_CONVERTER'' = [InQueue ''conversion_format_input'', InQueue
      ''conversion_format_input'']"
  "places_of links_yml ''AMOUNT_CONVERTED_FILTER'' = [InQueue ''filtered_currency_conversion_input'', InQueue
      ''filtered_currency_conversion_input'']"
  "places_of links_yml ''CONVERTED_AMOUNT_ROUTER_TO_JOIN'' = [InQueue ''converted_amount_router_join_input'',
      InQueue ''converted_amount_router_join_input'']"
  "places_of links_yml ''CONVERSION_JOIN'' = [InExchange ''converted_amount_output''
      ''converted_amount_output.0'', InExchange ''converted_amount_output'' ''converted_amount_output.1'']"
  by (simp_all only: links_yml_def places_of_parts period_places) (simp_all add: queue_place_def key_place_def upto_lists number_texts)

lemma group_eofs_3:
  "eofs_at eofs_yml (places_of links_yml ''SUSPICIOUS_PATH_ROUTER_TO_JOIN'') = 2"
  "eofs_at eofs_yml (places_of links_yml ''SCATTER_GATHER_JOIN'') = 1"
  "eofs_at eofs_yml (places_of links_yml ''FORMAT_FILTER'') = 1"
  "eofs_at eofs_yml (places_of links_yml ''CURRENCY_CONVERTER'') = 1"
  "eofs_at eofs_yml (places_of links_yml ''AMOUNT_CONVERTED_FILTER'') = 1"
  "eofs_at eofs_yml (places_of links_yml ''CONVERTED_AMOUNT_ROUTER_TO_JOIN'') = 1"
  "eofs_at eofs_yml (places_of links_yml ''CONVERSION_JOIN'') = 1"
  by (simp_all add: group_places_3 eofs_at_def eof_table)

lemmas group_eofs = group_eofs_0 group_eofs_1 group_eofs_2 group_eofs_3

lemma tables_expect_their_eofs:
  "list_all (\<lambda>l. li_expected l = word_of_int (int (eofs_at eofs_yml (places_of links_yml (li_name l))))) links_yml"
proof -
  have "list_all (\<lambda>l. li_expected l = word_of_int (int (eofs_at eofs_yml (places_of ls (li_name l))))) links_yml"
    if "ls = links_yml" for ls
    by (simp add: links_yml_def upto_lists) (simp add: that group_eofs)
  then show ?thesis by simp
qed

section \<open>Peers and clients\<close>

definition ids_of :: "link list \<Rightarrow> string \<Rightarrow> int list" where
  "ids_of ls n = map li_id (filter (\<lambda>l. li_name l = n) ls)"

lemma ids_of_parts:
  "ids_of (ls @ ls') nm = ids_of ls nm @ ids_of ls' nm"
  "ids_of (map (replica n c k ins eofs) is) nm = (if n = nm then is else [])"
  by (simp_all add: ids_of_def filter_replicas comp_def)

lemma period_ids:
  "ids_of (concat (map (\<lambda>i. [replica n1 c1 k1 ins1 eofs1 i, replica n2 c2 k2 ins2 eofs2 i, replica n3 c3 k3 ins3 eofs3 i]) [0..1])) nm =
     (if n1 = nm then [0] else []) @ (if n2 = nm then [0] else []) @ (if n3 = nm then [0] else []) @
     (if n1 = nm then [1] else []) @ (if n2 = nm then [1] else []) @ (if n3 = nm then [1] else [])"
  by (simp add: upto_lists ids_of_def)

lemma group_ids_0:
  "ids_of links_yml ''CURRENCY_FILTER'' = [0..2]"
  "ids_of links_yml ''AMOUNT_FILTER'' = [0..1]"
  "ids_of links_yml ''MICROTRANSACTION_ROUTER_TO_JOIN'' = [0..1]"
  "ids_of links_yml ''MICROTRANSACTION_JOIN'' = [0..1]"
  "ids_of links_yml ''BANK_ROUTER'' = [0..1]"
  "ids_of links_yml ''MAX_BANK'' = [0..1]"
  "ids_of links_yml ''MAX_BANK_ROUTER_TO_JOIN'' = [0..1]"
  by (simp_all only: links_yml_def ids_of_parts period_ids) (simp_all add: upto_lists)

lemma group_ids_1:
  "ids_of links_yml ''MAX_BANK_JOIN'' = [0..1]"
  "ids_of links_yml ''PERIOD_FILTER.q5_raw'' = [0..1]"
  "ids_of links_yml ''PERIOD_FILTER.q3_periods'' = [0..1]"
  "ids_of links_yml ''PERIOD_FILTER.q4_scatter'' = [0..1]"
  "ids_of links_yml ''PAYMENT_TYPE_ROUTER'' = [0..1]"
  "ids_of links_yml ''AVG_BY_TYPE'' = [0..1]"
  "ids_of links_yml ''AVG_BY_TYPE_ROUTER_TO_JOIN'' = [0..1]"
  by (simp_all only: links_yml_def ids_of_parts period_ids) (simp_all add: upto_lists)

lemma group_ids_2:
  "ids_of links_yml ''AVG_BY_TYPE_JOIN'' = [0..1]"
  "ids_of links_yml ''ORIGIN_DESTINATION_ROUTER'' = [0..1]"
  "ids_of links_yml ''GROUP_BY_ORIGIN'' = [0..1]"
  "ids_of links_yml ''GROUP_BY_DESTINATION'' = [0..1]"
  "ids_of links_yml ''ORIGIN_INTERMEDIARY_ROUTER'' = [0..1]"
  "ids_of links_yml ''DESTINATION_INTERMEDIARY_ROUTER'' = [0..1]"
  "ids_of links_yml ''AGGREGATE_BY_INTERMEDIARY'' = [0..1]"
  by (simp_all only: links_yml_def ids_of_parts period_ids) (simp_all add: upto_lists)

lemma group_ids_3:
  "ids_of links_yml ''SUSPICIOUS_PATH_ROUTER_TO_JOIN'' = [0..1]"
  "ids_of links_yml ''SCATTER_GATHER_JOIN'' = [0..1]"
  "ids_of links_yml ''FORMAT_FILTER'' = [0..1]"
  "ids_of links_yml ''CURRENCY_CONVERTER'' = [0..1]"
  "ids_of links_yml ''AMOUNT_CONVERTED_FILTER'' = [0..1]"
  "ids_of links_yml ''CONVERTED_AMOUNT_ROUTER_TO_JOIN'' = [0..1]"
  "ids_of links_yml ''CONVERSION_JOIN'' = [0..1]"
  by (simp_all only: links_yml_def ids_of_parts period_ids) (simp_all add: upto_lists)

lemmas group_ids = group_ids_0 group_ids_1 group_ids_2 group_ids_3

lemma peers_by_ids:
  "peers_know_each_other es \<longleftrightarrow>
     list_all (\<lambda>l. li_peers l = map (peer_key (li_name l)) (filter (\<lambda>i. i \<noteq> li_id l) (ids_of (map link_of es) (li_name l))))
       (map link_of es)"
proof -
  have "map (\<lambda>l'. peer_key (li_name l') (li_id l')) (filter (\<lambda>l'. li_id l' \<noteq> i \<and> li_name l' = n) ls) =
      map (peer_key n) (filter (\<lambda>j. j \<noteq> i) (ids_of ls n))" for i n ls
    by (induction ls) (simp_all add: ids_of_def)
  then show ?thesis by (simp add: peers_by_links)
qed

lemma tables_peers:
  "list_all (\<lambda>l. li_peers l = map (peer_key (li_name l)) (filter (\<lambda>i. i \<noteq> li_id l) (ids_of links_yml (li_name l)))) links_yml"
proof -
  have "list_all (\<lambda>l. li_peers l = map (peer_key (li_name l)) (filter (\<lambda>i. i \<noteq> li_id l) (ids_of ls (li_name l)))) links_yml"
    if "ls = links_yml" for ls
    by (simp add: links_yml_def upto_lists peer_keys_def) (simp add: that group_ids upto_lists)
  then show ?thesis by simp
qed

text \<open>Of the workers only the joins write to the clients.\<close>

lemma reporting_view:
  "filter (\<lambda>e. writes_to_clients gc (e_sender e)) (w_engines (stateless_spec v scfg inQ outQ)) = []"
  "filter (\<lambda>e. writes_to_clients gc (e_sender e)) (w_engines (with_sender_spec v inQ t ex x rkeys ins p k)) = []"
  "filter (\<lambda>e. writes_to_clients gc (e_sender e)) (w_engines (routed_spec v rcfg inQ x n k)) = []"
  "filter (\<lambda>e. writes_to_clients gc (e_sender e)) (w_engines (payment_type_spec v inQ x n)) = []"
  "filter (\<lambda>e. writes_to_clients gc (e_sender e)) (w_engines (stateful_spec v fcfg x outQ c)) = []"
  "filter (\<lambda>e. writes_to_clients gc (e_sender e)) (w_engines (aggregator_spec v x y outQ c)) = []"
  "filter (\<lambda>e. writes_to_clients gc (e_sender e)) (w_engines (currency_spec v inQ q1 q2 q3 q4 cur)) = []"
  "filter (\<lambda>e. writes_to_clients gc (e_sender e)) (w_engines (period_spec v q per)) = []"
  "length (filter (\<lambda>e. writes_to_clients gc (e_sender e)) (w_engines (join_spec v t ex p ins x cl c))) =
     (if cl = gc_ClientExchangeName gc then 1 else 0)"
  by (simp_all add: stateless_spec_def with_sender_spec_def routed_spec_def payment_type_spec_def stateful_spec_def
    aggregator_spec_def currency_spec_def period_spec_def period_engine_spec_def sending_def join_spec_def
    new_worker_def stateless_engine_def stateful_engine_def exchange_of_def Let_def)

lemma conversion_view:
  "filter (\<lambda>e. e_processor e = ConversionJoinProcessor) (w_engines (stateless_spec v scfg inQ outQ)) =
     (if sl_Processor scfg = ConversionJoinProcessor then w_engines (stateless_spec v scfg inQ outQ) else [])"
  "filter (\<lambda>e. e_processor e = ConversionJoinProcessor) (w_engines (with_sender_spec v inQ t ex x rkeys ins p k)) =
     (if p = ConversionJoinProcessor then w_engines (with_sender_spec v inQ t ex x rkeys ins p k) else [])"
  "filter (\<lambda>e. e_processor e = ConversionJoinProcessor) (w_engines (routed_spec v rcfg inQ x n k)) =
     (if rt_MakeProcessor rcfg (build_numbered_exchange_keys x n) = ConversionJoinProcessor
      then w_engines (routed_spec v rcfg inQ x n k) else [])"
  "filter (\<lambda>e. e_processor e = ConversionJoinProcessor) (w_engines (payment_type_spec v inQ x n)) = []"
  "filter (\<lambda>e. e_processor e = ConversionJoinProcessor) (w_engines (stateful_spec v fcfg x outQ c)) =
     (if sf_Processor fcfg = ConversionJoinProcessor then w_engines (stateful_spec v fcfg x outQ c) else [])"
  "filter (\<lambda>e. e_processor e = ConversionJoinProcessor) (w_engines (aggregator_spec v x y outQ c)) = []"
  "filter (\<lambda>e. e_processor e = ConversionJoinProcessor) (w_engines (currency_spec v inQ q1 q2 q3 q4 cur)) = []"
  "filter (\<lambda>e. e_processor e = ConversionJoinProcessor) (w_engines (period_spec v q per)) = []"
  "length (filter (\<lambda>e. e_processor e = ConversionJoinProcessor) (w_engines (join_spec v t ex p ins x cl c))) =
     (if p = ConversionJoinProcessor then 1 else 0)"
  by (simp_all add: stateless_spec_def with_sender_spec_def routed_spec_def payment_type_spec_def stateful_spec_def
    aggregator_spec_def currency_spec_def period_spec_def period_engine_spec_def join_spec_def
    new_worker_def stateless_engine_def stateful_engine_def Let_def)


lemma workers_report:
  "clients_hear_all gateway_yml (concat (map w_engines (workers_yml a b g)))"
proof -
  have "length (filter P (concat xss)) = sum_list (map (\<lambda>xs. length (filter P xs)) xss)" for P :: "engine_wiring \<Rightarrow> bool" and xss
    by (induction xss) simp_all
  then have count: "length (filter P (concat (map w_engines ws))) = sum_list (map (\<lambda>w. length (filter P (w_engines w))) ws)"
    for P ws by (simp add: comp_def)
  show ?thesis
    unfolding clients_hear_all_def count
    by (rule conjI; simp add: workers_yml_def wiring_yml_def upto_lists svc_defs reporting_view conversion_view
      eofAmountExpected_def gateway_yml_def del: writes_to_clients.simps)
qed

section \<open>Properties\<close>

text \<open>
  C7. The deployment of \<open>config.yml\<close> is well typed. The gateway and all workers can be built from the environments the
  runtime gives them; whatever is published on a queue or under a routing key is read by somebody, and everyone who
  reads it asks for its message type and extracts its payload; nobody reads from a place to which nothing is sent; and
  every routing key is bound to one queue that only one engine reads. The hypotheses say that the two limits of
  the amount filters are floats.
\<close>

theorem deployment_is_well_typed:
  assumes "f_parse F ''50'' = Some a" "f_parse F ''1.00'' = Some b"
  shows "\<exists>gc ws. snd (build_gateway gateway_session) = Inr gc \<and>
    deployed F config_yml \<lparr>rt_config = runtime_yml, rt_gateway = g\<rparr> = map (\<lambda>w. Inr (Some w)) ws \<and>
    (let es = concat (map w_engines ws)
     in well_typed_links (all_sends gc es) (all_reads es) \<and> keys_have_one_reader es)"
proof -
  have "well_typed_links (all_sends gateway_yml (concat (map w_engines (workers_yml a b g))))
      (all_reads (concat (map w_engines (workers_yml a b g))))"
    using well_typed_sets [OF table_of_sends table_of_reads] tables_well_typed
    by (simp add: sends_of_workers reads_of_workers)
  then show ?thesis
    using gateway_built deployed_yml [OF assms, of g] workers_keys_have_one_reader [of a b g]
    unfolding yml_def Let_def by blast
qed

theorem deployment_is_well_typed_witness:
  "f_parse limit_floats ''50'' = Some 0x4049000000000000 \<and> f_parse limit_floats ''1.00'' = Some 0x3FF0000000000000 \<and>
   (\<exists>gc ws. snd (build_gateway gateway_session) = Inr gc \<and>
    deployed limit_floats config_yml \<lparr>rt_config = runtime_yml, rt_gateway = ''172.18.0.1''\<rparr> = map (\<lambda>w. Inr (Some w)) ws \<and>
    (let es = concat (map w_engines ws)
     in well_typed_links (all_sends gc es) (all_reads es) \<and> keys_have_one_reader es))"
  by (intro conjI limits_parse deployment_is_well_typed [OF limits_parse])

text \<open>
  C6. In the deployment of \<open>config.yml\<close> every group of workers waits for exactly the EOFs it gets: the number that a
  coordinator expects is the number of publications of an EOF that reach its group, from the gateway, from worker zero
  of a stateless service and from every worker of a stateful one. The coordinators of a group publish to each other and to
  nobody else, the workers that report to the clients are the ten whose EOFs end the results of a client, and the
  conversion joins among them are as many as the gateway waits for.
\<close>

theorem deployment_expects_its_eofs:
  assumes "f_parse F ''50'' = Some a" "f_parse F ''1.00'' = Some b"
  shows "\<exists>gc ws. snd (build_gateway gateway_session) = Inr gc \<and>
    deployed F config_yml \<lparr>rt_config = runtime_yml, rt_gateway = g\<rparr> = map (\<lambda>w. Inr (Some w)) ws \<and>
    (let es = concat (map w_engines ws)
     in expects_its_eofs gc es \<and> peers_know_each_other es \<and> clients_hear_all gc es)"
proof -
  let ?es = "concat (map w_engines (workers_yml a b g))"
  have l: "map link_of ?es = links_yml" by (simp only: links_of_workers table_of_links)
  have "all_eofs gateway_yml ?es = eofs_yml" by (simp only: eofs_of_links l eofs_yml_def)
  then have "expects_its_eofs gateway_yml ?es"
    using tables_expect_their_eofs by (simp only: expects_by_links l)
  moreover have "peers_know_each_other ?es" using tables_peers by (simp only: peers_by_ids l)
  ultimately show ?thesis
    using gateway_built deployed_yml [OF assms, of g] workers_report [of a b g]
    unfolding yml_def Let_def by blast
qed

theorem deployment_expects_its_eofs_witness:
  "f_parse limit_floats ''50'' = Some 0x4049000000000000 \<and> f_parse limit_floats ''1.00'' = Some 0x3FF0000000000000 \<and>
   (\<exists>gc ws. snd (build_gateway gateway_session) = Inr gc \<and>
    deployed limit_floats config_yml \<lparr>rt_config = runtime_yml, rt_gateway = ''172.18.0.1''\<rparr> = map (\<lambda>w. Inr (Some w)) ws \<and>
    (let es = concat (map w_engines ws)
     in expects_its_eofs gc es \<and> peers_know_each_other es \<and> clients_hear_all gc es))"
  by (intro conjI limits_parse deployment_expects_its_eofs [OF limits_parse])

end
