(* ===== verification/BuiltWorkers.thy ===== *)
theory BuiltWorkers
  imports Containers
begin

text \<open>
  What holds of every worker the factory returns, in any environment and whatever fails; and the timeouts of the fault
  hypervisor.
\<close>

section \<open>What a builder returns\<close>

definition returns :: "'a build \<Rightarrow> ('a \<Rightarrow> bool) \<Rightarrow> bool" where
  "returns m P \<longleftrightarrow> (\<forall>s s' a. m s = (s', Inr a) \<longrightarrow> P a)"

named_theorems return_rules "what the builders return"

lemma returns_check [return_rules]:
  "(\<And>a. returns (k a) P) \<Longrightarrow> returns (check m k) P"
  "(\<And>a. returns (k a) P) \<Longrightarrow> returns (check_closing hs m k) P"
  by (fastforce simp: returns_def check_def check_closing_def split: prod.splits sum.splits)+

lemma returns_give [return_rules]: "P a \<Longrightarrow> returns (give a) P"
  by (simp add: returns_def give_def)

lemma returns_case [return_rules]:
  "(\<And>x y. returns (f x y) P) \<Longrightarrow> returns (case p of (x, y) \<Rightarrow> f x y) P"
  by (cases p) simp

lemma returns_let [return_rules]: "returns (f x) P \<Longrightarrow> returns (let y = x in f y) P"
  by simp

definition beats :: "worker_wiring \<Rightarrow> bool" where
  "beats w \<longleftrightarrow> w_heartbeat w \<noteq> None \<and> w_engines w \<noteq> [] \<and> (\<forall>e \<in> set (w_engines w). \<not> e_stopped e)"

definition crippled :: "worker_wiring \<Rightarrow> bool" where
  "crippled w \<longleftrightarrow> w_heartbeat w = None \<and> (\<forall>e \<in> set (w_engines w). e_stopped e)"

lemma beats_simps [return_rules]:
  "beats (new_worker (Some hb) [stateless_engine r n p c])" "beats (new_worker (Some hb) [stateful_engine i r n p c k])"
  by (simp_all add: beats_def new_worker_def stateless_engine_def stateful_engine_def)

lemma shared_builders [return_rules]:
  "returns (build_stateless_worker_input_queue_output_queue cfg1) beats"
  "returns (build_routed_to_join_worker cfg2) beats"
  "returns (build_stateful_worker_input_exchange_output_queue cfg3) beats"
  "returns (build_join_worker cfg4 t x p i) beats"
  unfolding build_stateless_worker_input_queue_output_queue_def build_routed_to_join_worker_def
    build_stateful_worker_input_exchange_output_queue_def build_join_worker_def
  by (rule return_rules)+

lemma with_sender [return_rules]:
  "returns (build_stateless_worker_with_sender cfg) (\<lambda>w. beats w \<or> crippled w)"
proof -
  have c: "crippled (new_worker None [e\<lparr>e_stopped := True\<rparr>])" for e
    by (simp add: crippled_def new_worker_def)
  show ?thesis
    unfolding build_stateless_worker_with_sender_def Let_def
    by ((rule returns_check)+) (auto simp: returns_def beats_simps c split: prod.splits sum.splits)
qed

lemma returns_check_closing_that:
  assumes "returns m Q" "\<And>a. Q a \<Longrightarrow> returns (k a) P"
  shows "returns (check_closing hs m k) P"
  unfolding returns_def
proof (intro allI impI)
  fix s s' a assume "check_closing hs m k s = (s', Inr a)"
  then obtain t b where "m s = (t, Inr b)" "k b t = (s', Inr a)"
    by (auto simp: check_closing_def split: prod.splits sum.splits)
  then show "P a" using assms unfolding returns_def by blast
qed

lemma running_engine:
  "returns (build_single_receiver_single_sender_engine a b c d e f g h) (\<lambda>en. \<not> e_stopped en)"
  unfolding build_single_receiver_single_sender_engine_def
  by ((rule returns_check returns_case returns_give)+) (simp add: stateless_engine_def)

lemma period_worker [return_rules]: "returns build_period_filter_worker beats"
  unfolding build_period_filter_worker_def
  by ((rule returns_check_closing_that [OF running_engine] returns_check returns_case returns_give)+)
    (simp add: beats_def new_worker_def)


section \<open>Every builder\<close>

lemma built_returns: "returns m P \<Longrightarrow> returns (built m) (\<lambda>w. \<exists>v. w = Some v \<and> P v)"
  by (fastforce simp: returns_def built_def check_def give_def split: prod.splits sum.splits)

lemma returns_weaken: "returns m P \<Longrightarrow> (\<And>a. P a \<Longrightarrow> Q a) \<Longrightarrow> returns m Q"
  unfolding returns_def by blast

lemma builders_of_groupers_beat:
  "returns build_max_bank_worker beats" "returns build_group_by_origin_worker beats"
  "returns build_group_by_destination_worker beats" "returns build_avg_by_type_grouper_worker beats"
  unfolding build_max_bank_worker_def build_group_by_origin_worker_def build_group_by_destination_worker_def
    build_avg_by_type_grouper_worker_def
  by (rule shared_builders)+

lemma builders_to_joins_beat:
  "returns build_microtransaction_router_to_join_worker beats" "returns build_max_bank_router_to_join_worker beats"
  "returns build_avg_by_type_router_to_join_worker beats" "returns build_suspicious_path_router_to_join_worker beats"
  "returns build_converted_amount_router_to_join_worker beats"
  unfolding build_microtransaction_router_to_join_worker_def build_max_bank_router_to_join_worker_def
    build_avg_by_type_router_to_join_worker_def build_suspicious_path_router_to_join_worker_def
    build_converted_amount_router_to_join_worker_def
  by (rule shared_builders)+

lemma builders_of_joins_beat:
  "returns build_max_bank_join_worker beats" "returns build_microtransaction_join_worker beats"
  "returns build_avg_by_type_join_worker beats" "returns build_converted_micro_payment_join_worker beats"
  "returns build_scatter_gather_join_worker beats"
  unfolding build_max_bank_join_worker_def build_microtransaction_join_worker_def build_avg_by_type_join_worker_def
    build_converted_micro_payment_join_worker_def build_scatter_gather_join_worker_def
  by (rule returns_check shared_builders)+

lemma builders_of_filters_beat:
  "returns build_format_filter_worker beats" "returns (build_amount_converted_filter_worker F) beats"
  "returns (build_amount_filter_worker F) beats" "returns build_currency_converter_worker beats"
  unfolding build_format_filter_worker_def build_amount_converted_filter_worker_def build_amount_filter_worker_def
    build_currency_converter_worker_def
  by (rule returns_check shared_builders)+

lemma other_builders_beat:
  "returns build_currency_filter_worker beats" "returns build_aggregate_by_intermediary_worker beats"
  "returns build_payment_type_router_worker beats"
  unfolding build_currency_filter_worker_def build_aggregate_by_intermediary_worker_def build_payment_type_router_worker_def
  by (rule return_rules)+

lemma routers_beat_or_are_crippled:
  "returns build_bank_router_worker (\<lambda>w. beats w \<or> crippled w)"
  "returns build_origin_destination_router_worker (\<lambda>w. beats w \<or> crippled w)"
  "returns build_intermediary_router_worker (\<lambda>w. beats w \<or> crippled w)"
  unfolding build_bank_router_worker_def build_origin_destination_router_worker_def build_intermediary_router_worker_def
  by (rule returns_check returns_case returns_let with_sender)+

definition sender_routers :: "string list" where
  "sender_routers = [''BANK_ROUTER'', ''ORIGIN_DESTINATION_ROUTER'', ''INTERMEDIARY_ROUTER'']"

lemma all_builders:
  "\<forall>(t, m) \<in> set (builders F). returns m (\<lambda>w. beats w \<or> (t \<in> set sender_routers \<and> crippled w))"
proof -
  have w: "returns m beats \<Longrightarrow> returns m (\<lambda>w. beats w \<or> Q w)" for m Q by (erule returns_weaken) simp
  show ?thesis
    unfolding builders_def
    by (simp add: w builders_of_groupers_beat builders_to_joins_beat builders_of_joins_beat builders_of_filters_beat
      other_builders_beat period_worker routers_beat_or_are_crippled sender_routers_def)
qed

section \<open>A container without the queue of the heartbeats\<close>

definition mute_session :: session where
  "mute_session = \<lparr>outcomes = [],
     environ = [(''ID'', ''0''), (''WORKER_COUNT'', ''2''), (''WORKER_EXCHANGE_NAME'', ''bank_router''), (''MOM_HOST'', ''rabbitmq''),
       (''MOM_PORT'', ''5672''), (''MAX_BATCH_WEIGHT'', ''1000''), (''INPUT_QUEUE_NAME'', ''bank_router_input_queue''),
       (''MAX_BANK_EXCHANGE_NAME'', ''max_bank_input_exchange''), (''MAX_BANK_WORKER_AMOUNT'', ''2'')],
     live = [], next_handle = 0\<rparr>"

lemma mute_atoi: "atoi ''5672'' = Some 5672" "atoi ''1000'' = Some 1000"
  by (simp_all add: atoi_def parse_nat_def base_value_def is_digit_def digit_val_def byte_def)

definition mute :: "session \<Rightarrow> bool" where
  "mute s \<longleftrightarrow> outcomes s = [] \<and> environ s = environ mute_session"

lemma mute_env:
  assumes "mute s"
  shows "outcomes s = []"
  "mget (environ s) ''WORKER_EXCHANGE_NAME'' = Some ''bank_router''"
  "mget (environ s) ''MOM_HOST'' = Some ''rabbitmq''"
  "mget (environ s) ''INPUT_QUEUE_NAME'' = Some ''bank_router_input_queue''"
  "mget (environ s) ''MAX_BANK_EXCHANGE_NAME'' = Some ''max_bank_input_exchange''"
  "has_int s ''ID'' 0" "has_int s ''WORKER_COUNT'' 2" "has_int s ''MOM_PORT'' 5672"
  "has_int s ''MAX_BATCH_WEIGHT'' 1000" "has_int s ''MAX_BANK_WORKER_AMOUNT'' 2"
  "mget (environ s) ''HEARTBEAT_QUEUE_NAME'' = None"
  using assms
  by (simp_all add: mute_def mute_session_def has_int_def text_numbers mute_atoi)

lemma mute_steps:
  assumes "mute s"
  shows "get_mom_config_from_env s = (s, Inr \<lparr>Hostname = ''rabbitmq'', Port = 5672\<rparr>)"
    "get_coordination_information_from_env s = (s, Inr (0, 2, ''bank_router''))"
    "get_env_strict ''HEARTBEAT_QUEUE_NAME'' s = (s, Inl (env_not_found ''HEARTBEAT_QUEUE_NAME''))"
    "mute (opened r s)" "external s = (s, Inr ())" "open_resource r s = (opened r s, Inr (next_handle s, r))"
    "get_env_strict ''INPUT_QUEUE_NAME'' s = (s, Inr ''bank_router_input_queue'')"
    "get_env_strict ''MAX_BANK_EXCHANGE_NAME'' s = (s, Inr ''max_bank_input_exchange'')"
    "get_env_int_strict ''MAX_BATCH_WEIGHT'' s = (s, Inr 1000)"
    "get_env_int_strict ''MAX_BANK_WORKER_AMOUNT'' s = (s, Inr 2)"
  using mute_env [OF assms] assms
  by (simp_all add: get_mom_config_from_env_def get_coordination_information_from_env_def build_simps get_env_strict_def [of "''HEARTBEAT_QUEUE_NAME''"] mute_def)

lemma mute_worker:
  "\<exists>w. snd (build_worker F ''BANK_ROUTER'' mute_session) = Inr (Some w) \<and> w_engines w \<noteq> [] \<and> crippled w"
proof -
  have m: "mute mute_session" by (simp add: mute_def mute_session_def)
  have "\<exists>w. snd (build_bank_router_worker mute_session) = Inr w \<and> w_engines w \<noteq> [] \<and> crippled w"
  by (simp add: build_bank_router_worker_def build_stateless_worker_with_sender_def mute_steps m check_steps panics_if_def
     data_exchange_def create_exchange_middleware_def exchange_queue_name_def create_queue_middleware_def
     open_eof_coordinator_def Let_def crippled_def new_worker_def 
      build_heartbeat_publisher_def)
  then show ?thesis by (auto simp: build_worker_def builders_def built_def build_simps split: prod.splits sum.splits)
qed

section \<open>Properties\<close>

text \<open>
  C18. Whatever the environment of a container holds and whatever the broker and the file system refuse, a worker that
  \<open>CreateWorker\<close> returns without an error has a heartbeat publisher, and engines none of which is shut down; but for the
  three routers with a sender of their own. When their publisher cannot be built, they are returned without one, with
  their engine shut down, and without an error (\<open>buildStatelessWorkerWithSender\<close> has no \<open>return\<close> there).
\<close>

theorem built_workers_beat:
  assumes "snd (build_worker F workerType s) = Inr (Some w)"
  shows "beats w \<or> (workerType \<in> set sender_routers \<and> crippled w)"
proof -
  obtain m where m: "map_of (builders F) workerType = Some m" "snd (built m s) = Inr (Some w)"
    using assms by (auto simp: build_worker_def give_def split: option.splits)
  have "returns m (\<lambda>w. beats w \<or> (workerType \<in> set sender_routers \<and> crippled w))"
    using all_builders [of F] map_of_SomeD [OF m(1)] by fastforce
  from built_returns [OF this] m(2) show ?thesis
    by (cases "built m s") (auto simp: returns_def)
qed

theorem built_workers_beat_witness:
  "\<exists>w. snd (build_worker limit_floats ''BANK_ROUTER'' mute_session) = Inr (Some w) \<and> \<not> beats w \<and>
     (beats w \<or> (''BANK_ROUTER'' \<in> set sender_routers \<and> crippled w))"
proof -
  obtain w where w: "snd (build_worker limit_floats ''BANK_ROUTER'' mute_session) = Inr (Some w)" "w_engines w \<noteq> []" "crippled w"
    using mute_worker by blast
  then have "\<not> beats w" by (simp add: beats_def crippled_def)
  then show ?thesis using w(1) built_workers_beat [OF w(1)] by blast
qed

section \<open>The timeouts of the fault hypervisor\<close>

definition with_variable :: "string \<Rightarrow> string \<Rightarrow> session \<Rightarrow> session" where
  "with_variable key v s = s\<lparr>environ := mput key v (environ s)\<rparr>"

text \<open>A builder that does the same whatever the variable is.\<close>

definition ignores :: "string \<Rightarrow> 'a build \<Rightarrow> bool" where
  "ignores key m \<longleftrightarrow> (\<forall>v s. m (with_variable key v s) = (with_variable key v (fst (m s)), snd (m s)))"

named_theorems ignore_rules "builders that do not read a variable"

lemma ignores_check [ignore_rules]:
  "ignores key m \<Longrightarrow> (\<And>a. ignores key (k a)) \<Longrightarrow> ignores key (check m k)"
  by (simp add: ignores_def check_def split: prod.splits sum.splits)

lemma ignores_results [ignore_rules]: "ignores key (give a)" "ignores key (throw e)"
  by (simp_all add: ignores_def give_def throw_def)

lemma ignores_get [ignore_rules]:
  "key' \<noteq> key \<Longrightarrow> ignores key (get_env_strict key')" "key' \<noteq> key \<Longrightarrow> ignores key (get_env_int_strict key')"
proof -
  show s: "key' \<noteq> key \<Longrightarrow> ignores key (get_env_strict key')" for key'
    by (simp add: ignores_def get_env_strict_def with_variable_def mget_mput split: option.splits)
  show "key' \<noteq> key \<Longrightarrow> ignores key (get_env_int_strict key')"
    unfolding get_env_int_strict_def
    by (rule ignores_check [OF s]) (auto intro: ignore_rules split: option.splits)
qed

lemma fault_hypervisor_ignores: "ignores ''LEADER_TIMEOUT_SECONDS'' (build_fault_hypervisor cfg)"
proof -
  have "ignores ''LEADER_TIMEOUT_SECONDS'' (case cfg of Inl e \<Rightarrow> throw e | Inr r \<Rightarrow> give r)"
    by (cases cfg) (auto intro: ignore_rules)
  then show ?thesis
    unfolding build_fault_hypervisor_def get_mom_config_from_env_def
    by (intro ignore_rules) simp_all
qed

lemma get_env_int_keeps: "fst (get_env_int_strict key s) = s"
  by (simp add: get_env_int_strict_def get_env_strict_def check_def throw_def give_def split: option.splits)

lemma reading_twice:
  "check (get_env_int_strict key) (\<lambda>a. check (get_env_int_strict key) (k a)) = check (get_env_int_strict key) (\<lambda>a. k a a)"
proof
  fix s show "check (get_env_int_strict key) (\<lambda>a. check (get_env_int_strict key) (k a)) s =
      check (get_env_int_strict key) (\<lambda>a. k a a) s"
    using get_env_int_keeps [of key s]
    by (cases "get_env_int_strict key s") (auto simp: check_def split: sum.splits)
qed

lemma leader_times_out_like_an_election:
  "returns (build_fault_hypervisor cfg) (\<lambda>c. hc_LeaderTimeoutSeconds c = hc_ElectionTimeoutSeconds c)"
  unfolding build_fault_hypervisor_def reading_twice
  by ((rule returns_check returns_give)+) simp

text \<open>The first hypervisor of \<open>Compose.yml\<close>.\<close>

definition hypervisor_session :: session where
  "hypervisor_session = \<lparr>outcomes = [],
     environ = [(''MOM_HOST'', ''rabbitmq''), (''MOM_PORT'', ''5672''), (''HYPERVISOR_ID'', ''0''), (''HYPERVISOR_COUNT'', ''3''),
       (''COORDINATION_EXCHANGE_NAME'', ''fault_hypervisor_coordination''),
       (''COORDINATION_HEARTBEAT_INTERVAL_SECONDS'', ''2''), (''LEADER_TIMEOUT_SECONDS'', ''30''),
       (''ELECTION_TIMEOUT_SECONDS'', ''6''), (''HEARTBEAT_QUEUE_NAME'', ''heartbeat_queue''),
       (''CHECK_INTERVAL_SECONDS'', ''5''), (''HEARTBEAT_TIMEOUT_SECONDS'', ''15'')],
     live = [], next_handle = 0\<rparr>"

lemma hypervisor_atoi: "atoi ''3'' = Some 3" "atoi ''5'' = Some 5" "atoi ''6'' = Some 6" "atoi ''15'' = Some 15"
  by (simp_all add: atoi_def parse_nat_def base_value_def is_digit_def digit_val_def byte_def)

lemma hypervisor_variables:
  "mget (environ hypervisor_session) ''MOM_HOST'' = Some ''rabbitmq''" "has_int hypervisor_session ''MOM_PORT'' 5672"
  "mget (environ hypervisor_session) ''HEARTBEAT_QUEUE_NAME'' = Some ''heartbeat_queue''"
  "has_int hypervisor_session ''CHECK_INTERVAL_SECONDS'' 5" "has_int hypervisor_session ''HEARTBEAT_TIMEOUT_SECONDS'' 15"
  "has_int hypervisor_session ''HYPERVISOR_ID'' 0" "has_int hypervisor_session ''HYPERVISOR_COUNT'' 3"
  "mget (environ hypervisor_session) ''COORDINATION_EXCHANGE_NAME'' = Some ''fault_hypervisor_coordination''"
  "has_int hypervisor_session ''COORDINATION_HEARTBEAT_INTERVAL_SECONDS'' 2"
  "has_int hypervisor_session ''ELECTION_TIMEOUT_SECONDS'' 6"
  by (simp_all add: hypervisor_session_def has_int_def text_numbers mute_atoi hypervisor_atoi)

lemma hypervisor_built:
  "\<exists>c. snd (build_fault_hypervisor (Inr r) hypervisor_session) = Inr c \<and> hc_ElectionTimeoutSeconds c = 6"
proof -
  have m: "get_mom_config_from_env hypervisor_session = (hypervisor_session, Inr \<lparr>Hostname = ''rabbitmq'', Port = 5672\<rparr>)"
    using hypervisor_variables by (simp add: get_mom_config_from_env_def check_steps get_steps)
  show ?thesis
    using hypervisor_variables by (simp add: build_fault_hypervisor_def check_steps m get_steps)
qed

text \<open>
  The fault hypervisor does not read \<open>LEADER_TIMEOUT_SECONDS\<close>: whatever the variable holds, the configuration (or the
  error) is the same, and the leader's timeout in it is the timeout of the elections. With the environment of
  \<open>Compose.yml\<close> a follower gives a silent leader six seconds and not thirty.
\<close>

theorem leader_timeout_is_ignored:
  assumes "snd (build_fault_hypervisor cfg s) = Inr c"
  shows "hc_LeaderTimeoutSeconds c = hc_ElectionTimeoutSeconds c \<and>
    snd (build_fault_hypervisor cfg (with_variable ''LEADER_TIMEOUT_SECONDS'' v s)) = Inr c"
proof -
  show ?thesis
    using assms leader_times_out_like_an_election [of cfg] fault_hypervisor_ignores [of cfg]
    by (cases "build_fault_hypervisor cfg s") (auto simp: returns_def ignores_def)
qed

theorem leader_timeout_is_ignored_witness:
  "\<exists>c. snd (build_fault_hypervisor (Inr ()) hypervisor_session) = Inr c \<and> hc_LeaderTimeoutSeconds c = 6 \<and>
     snd (build_fault_hypervisor (Inr ()) (with_variable ''LEADER_TIMEOUT_SECONDS'' ''x'' hypervisor_session)) = Inr c"
proof -
  obtain c where c: "snd (build_fault_hypervisor (Inr ()) hypervisor_session) = Inr c" "hc_ElectionTimeoutSeconds c = 6"
    by (rule exE [OF hypervisor_built], elim conjE)
  note t = leader_timeout_is_ignored [OF c(1), of "''x''"]
  show ?thesis by (rule exI [of _ c], intro conjI; (rule c(1) conjunct2 [OF t])?) (simp only: conjunct1 [OF t] c(2))
qed

end
