(* ===== verification/WorkerLifecycle.thy ===== *)
theory WorkerLifecycle
  imports BuiltWorkers
begin

text \<open>
  \<open>workers/worker/worker.go\<close>: how a worker runs. \<open>Run\<close> starts one goroutine per engine, one for the heartbeats and
  one that waits for a signal; an engine that fails, and the signal, call \<open>shutdown\<close>, which shuts the engines down one after
  the other and closes the heartbeat publisher. A step of the state below is a step of one goroutine, in any order. What
  ends the input of an engine (the broker, the handler, a closed connection) is not determined: a
  receiver of one input may return an error or nothing at any time, one of several inputs returns only the error of a
  handler, because nobody closes the channel it reads from (\<open>faninreceiver.go\<close>).
\<close>

section \<open>State\<close>

datatype engine_run =
    Spawned
  | Receiving
  | ShuttingDown go_error nat             \<comment> \<open>failed; in \<open>shutdown\<close>, before the engine with this number\<close>
  | Returned "go_error option"

datatype signal_run = AwaitingSignal | HandlingSignal nat | HandledSignal

datatype publisher_run = NilPublisher | Publishing bool   \<comment> \<open>whether \<open>stop\<close> is closed\<close>

record worker_run =
  fan_ins :: "bool list"
  runs :: "engine_run list"
  stopped :: "bool list"                  \<comment> \<open>\<open>wasStopped\<close>\<close>
  errChan :: "go_error list"
  signal_handler :: signal_run
  publisher :: publisher_run
  panicked :: bool
  returned :: "go_error option option"    \<comment> \<open>of \<open>Run\<close>\<close>

fun is_fan_in :: "receiver_wiring \<Rightarrow> bool" where
  "is_fan_in (FanInReceiver _ _ _ _) = True"
| "is_fan_in (SingleReceiver _ _ _) = False"

definition start_run :: "worker_wiring \<Rightarrow> worker_run" where
  "start_run w =
     \<lparr>fan_ins = map (\<lambda>e. is_fan_in (e_receiver e)) (w_engines w), runs = map (\<lambda>_. Spawned) (w_engines w),
      stopped = map e_stopped (w_engines w), errChan = [], signal_handler = AwaitingSignal,
      publisher = (if w_heartbeat w = None then NilPublisher else Publishing False), panicked = False, returned = None\<rparr>"

section \<open>Steps\<close>

text \<open>\<open>Run\<close> of an engine up to its receiver.\<close>

definition engine_starts :: "nat \<Rightarrow> worker_run \<Rightarrow> worker_run" where
  "engine_starts i s = s\<lparr>runs := (runs s)[i := if stopped s ! i then Returned None else Receiving]\<rparr>"

text \<open>\<open>Receive\<close> returns an error: it goes to the channel, and \<open>shutdown\<close> is called.\<close>

definition engine_fails :: "nat \<Rightarrow> go_error \<Rightarrow> worker_run \<Rightarrow> worker_run" where
  "engine_fails i e s = s\<lparr>errChan := errChan s @ [e], runs := (runs s)[i := ShuttingDown e 0]\<rparr>"

definition engine_ends :: "nat \<Rightarrow> worker_run \<Rightarrow> worker_run" where
  "engine_ends i s = s\<lparr>runs := (runs s)[i := Returned None]\<rparr>"

text \<open>
  \<open>shutdown\<close> by the goroutine that \<open>advance\<close> moves on: the next engine, or after the last one the publisher. Closing
  the closed channel \<open>stop\<close> panics, and so does closing a nil publisher.
\<close>

definition shutdown_step :: "nat \<Rightarrow> (worker_run \<Rightarrow> worker_run) \<Rightarrow> (worker_run \<Rightarrow> worker_run) \<Rightarrow> worker_run \<Rightarrow> worker_run" where
  "shutdown_step k advance finish s =
     (if k < length (runs s) then advance (s\<lparr>stopped := (stopped s)[k := True]\<rparr>)
      else if publisher s = Publishing False then finish (s\<lparr>publisher := Publishing True\<rparr>)
      else s\<lparr>panicked := True\<rparr>)"

definition engine_shuts_down :: "nat \<Rightarrow> go_error \<Rightarrow> nat \<Rightarrow> worker_run \<Rightarrow> worker_run" where
  "engine_shuts_down i e k =
     shutdown_step k (\<lambda>s. s\<lparr>runs := (runs s)[i := ShuttingDown e (Suc k)]\<rparr>) (\<lambda>s. s\<lparr>runs := (runs s)[i := Returned (Some e)]\<rparr>)"

definition signal_shuts_down :: "nat \<Rightarrow> worker_run \<Rightarrow> worker_run" where
  "signal_shuts_down k =
     shutdown_step k (\<lambda>s. s\<lparr>signal_handler := HandlingSignal (Suc k)\<rparr>) (\<lambda>s. s\<lparr>signal_handler := HandledSignal\<rparr>)"

text \<open>\<open>wg.Wait()\<close>, \<open>close(errChan)\<close> and \<open>return <-errChan\<close>.\<close>

definition run_returns :: "worker_run \<Rightarrow> worker_run" where
  "run_returns s = s\<lparr>returned := Some (case errChan s of [] \<Rightarrow> None | e # _ \<Rightarrow> Some e)\<rparr>"

definition has_returned :: "engine_run \<Rightarrow> bool" where
  "has_returned r = (case r of Returned _ \<Rightarrow> True | _ \<Rightarrow> False)"

inductive worker_step :: "worker_run \<Rightarrow> worker_run \<Rightarrow> bool" where
  starts: "i < length (runs s) \<Longrightarrow> runs s ! i = Spawned \<Longrightarrow> worker_step s (engine_starts i s)"
| fails: "i < length (runs s) \<Longrightarrow> runs s ! i = Receiving \<Longrightarrow> worker_step s (engine_fails i e s)"
| ends: "i < length (runs s) \<Longrightarrow> runs s ! i = Receiving \<Longrightarrow> \<not> fan_ins s ! i \<Longrightarrow> worker_step s (engine_ends i s)"
| shuts: "i < length (runs s) \<Longrightarrow> runs s ! i = ShuttingDown e k \<Longrightarrow> worker_step s (engine_shuts_down i e k s)"
| signalled: "signal_handler s = AwaitingSignal \<Longrightarrow> worker_step s (s\<lparr>signal_handler := HandlingSignal 0\<rparr>)"
| handles: "signal_handler s = HandlingSignal k \<Longrightarrow> worker_step s (signal_shuts_down k s)"
| publishes: "publisher s = NilPublisher \<Longrightarrow> worker_step s (s\<lparr>panicked := True\<rparr>)"
| waited: "list_all has_returned (runs s) \<Longrightarrow> worker_step s (run_returns s)"

inductive_cases worker_step_cases: "worker_step s s'"

text \<open>The process goes on until it panics or \<open>Run\<close> returns.\<close>

inductive worker_steps :: "worker_run \<Rightarrow> worker_run \<Rightarrow> bool" where
  refl: "worker_steps s s"
| step: "worker_steps s s' \<Longrightarrow> \<not> panicked s' \<Longrightarrow> returned s' = None \<Longrightarrow> worker_step s' s'' \<Longrightarrow> worker_steps s s''"

lemmas run_step_defs = engine_starts_def engine_fails_def engine_ends_def engine_shuts_down_def signal_shuts_down_def
  shutdown_step_def run_returns_def

section \<open>Counting the calls of shutdown\<close>

definition failed :: "engine_run \<Rightarrow> bool" where
  "failed r = (case r of ShuttingDown _ _ \<Rightarrow> True | Returned (Some _) \<Rightarrow> True | _ \<Rightarrow> False)"

definition has_shut_down :: "engine_run \<Rightarrow> bool" where
  "has_shut_down r = (case r of Returned (Some _) \<Rightarrow> True | _ \<Rightarrow> False)"

definition count_if :: "('a \<Rightarrow> bool) \<Rightarrow> 'a list \<Rightarrow> nat" where
  "count_if P xs = length (filter P xs)"

lemma count_if_update:
  "i < length xs \<Longrightarrow> count_if P (xs[i := v]) + (if P (xs ! i) then 1 else 0) = count_if P xs + (if P v then 1 else 0)"
proof (induction xs arbitrary: i)
  case (Cons x xs)
  then show ?case using Cons.IH [of "i - 1"] by (cases i) (auto simp: count_if_def)
qed simp

lemma count_if_mono: "(\<And>x. P x \<Longrightarrow> Q x) \<Longrightarrow> count_if P xs \<le> count_if Q xs"
  by (induction xs) (auto simp: count_if_def)

lemma count_if_zero: "count_if P xs = 0 \<longleftrightarrow> (\<forall>x \<in> set xs. \<not> P x)"
  by (simp add: count_if_def filter_empty_conv)

text \<open>The completed calls of \<open>shutdown\<close>, and those that were begun.\<close>

definition closings :: "worker_run \<Rightarrow> nat" where
  "closings s = count_if has_shut_down (runs s) + (if signal_handler s = HandledSignal then 1 else 0)"

definition calls :: "worker_run \<Rightarrow> nat" where
  "calls s = count_if failed (runs s) + (if signal_handler s = AwaitingSignal then 0 else 1)"

text \<open>What a call that has got to the engine \<open>k\<close> has stopped.\<close>

definition stopped_below :: "nat \<Rightarrow> worker_run \<Rightarrow> bool" where
  "stopped_below k s \<longleftrightarrow> k \<le> length (runs s) \<and> (\<forall>j < k. stopped s ! j)"

section \<open>The invariant\<close>

definition callers_stopped :: "worker_run \<Rightarrow> bool" where
  "callers_stopped s \<longleftrightarrow>
     (\<forall>i < length (runs s). \<forall>e k. runs s ! i = ShuttingDown e k \<longrightarrow> stopped_below k s) \<and>
     (\<forall>k. signal_handler s = HandlingSignal k \<longrightarrow> stopped_below k s)"

definition publisher_counts :: "worker_run \<Rightarrow> bool" where
  "publisher_counts s \<longleftrightarrow>
     (if publisher s = Publishing True then closings s = 1 \<and> stopped_below (length (runs s)) s else closings s = 0)"

definition outcome_known :: "worker_run \<Rightarrow> bool" where
  "outcome_known s \<longleftrightarrow>
     (panicked s \<longrightarrow> publisher s = NilPublisher \<or> 2 \<le> calls s) \<and>
     (\<forall>r. returned s = Some r \<longrightarrow> list_all has_returned (runs s) \<and> r = (case errChan s of [] \<Rightarrow> None | e # _ \<Rightarrow> Some e))"

definition sound_run :: "worker_run \<Rightarrow> bool" where
  "sound_run s \<longleftrightarrow> length (stopped s) = length (runs s) \<and> length (errChan s) = count_if failed (runs s) \<and>
     callers_stopped s \<and> publisher_counts s \<and> outcome_known s"

lemma run_kinds [simp]:
  "\<not> failed Spawned" "\<not> failed Receiving" "failed (ShuttingDown e k)" "\<not> failed (Returned None)" "failed (Returned (Some e))"
  "\<not> has_shut_down Spawned" "\<not> has_shut_down Receiving" "\<not> has_shut_down (ShuttingDown e k)"
  "\<not> has_shut_down (Returned None)" "has_shut_down (Returned (Some e))"
  by (simp_all add: failed_def has_shut_down_def)

lemma has_shut_down_failed: "has_shut_down r \<Longrightarrow> failed r"
  by (cases r) (auto simp: failed_def has_shut_down_def split: option.splits)

lemma stopped_below_stop:
  "stopped_below j s \<Longrightarrow> stopped_below j (s\<lparr>stopped := (stopped s)[k := True]\<rparr>)"
  by (cases "k < length (stopped s)") (auto simp: stopped_below_def nth_list_update list_update_beyond)

lemma caller_not_counted:
  assumes "i < length rs" "rs ! i = ShuttingDown e k"
  shows "count_if has_shut_down rs < count_if failed rs"
proof -
  have "count_if has_shut_down (rs[i := Spawned]) \<le> count_if failed (rs[i := Spawned])"
    by (rule count_if_mono) (rule has_shut_down_failed)
  then show ?thesis
    using count_if_update [OF assms(1), of failed Spawned] count_if_update [OF assms(1), of has_shut_down Spawned] assms(2)
    by simp
qed

lemma sound_start: "sound_run (start_run w)"
  by (auto simp: sound_run_def start_run_def callers_stopped_def publisher_counts_def outcome_known_def closings_def
    count_if_zero)

text \<open>What changes nothing but the phase of one engine that is in no call of \<open>shutdown\<close>.\<close>

lemma sound_phase:
  assumes "sound_run s" "\<not> panicked s" "returned s = None" "i < length (runs s)"
    "\<not> failed (runs s ! i)" "\<not> failed r"
  shows "sound_run (s\<lparr>runs := (runs s)[i := r]\<rparr>)"
proof -
  have "\<not> has_shut_down (runs s ! i)" "\<not> has_shut_down r" using assms(5,6) has_shut_down_failed by blast+
  then have "count_if has_shut_down ((runs s)[i := r]) = count_if has_shut_down (runs s)"
    "count_if failed ((runs s)[i := r]) = count_if failed (runs s)"
    using count_if_update [OF assms(4), of has_shut_down r] count_if_update [OF assms(4), of failed r] assms(5,6) by auto
  then show ?thesis
    using assms
    by (auto simp: sound_run_def callers_stopped_def publisher_counts_def outcome_known_def closings_def stopped_below_def
      nth_list_update split: if_splits)
qed

lemma sound_fails:
  assumes "sound_run s" "\<not> panicked s" "returned s = None" "i < length (runs s)" "runs s ! i = Receiving"
  shows "sound_run (engine_fails i e s)"
proof -
  have "count_if has_shut_down ((runs s)[i := ShuttingDown e 0]) = count_if has_shut_down (runs s)"
    "count_if failed ((runs s)[i := ShuttingDown e 0]) = Suc (count_if failed (runs s))"
    using count_if_update [OF assms(4), of has_shut_down "ShuttingDown e 0"]
      count_if_update [OF assms(4), of failed "ShuttingDown e 0"] assms(5) by auto
  then show ?thesis
    using assms
    by (auto simp: engine_fails_def sound_run_def callers_stopped_def publisher_counts_def outcome_known_def closings_def
      stopped_below_def nth_list_update split: if_splits)
qed

lemma stopped_below_Suc:
  "stopped_below k s \<Longrightarrow> k < length (runs s) \<Longrightarrow> length (stopped s) = length (runs s) \<Longrightarrow>
   stopped_below (Suc k) (s\<lparr>stopped := (stopped s)[k := True]\<rparr>)"
  by (auto simp: stopped_below_def nth_list_update less_Suc_eq)

lemma stopped_below_runs [simp]:
  "stopped_below k (s\<lparr>runs := (runs s)[i := r]\<rparr>) = stopped_below k s"
  "stopped_below k (s\<lparr>signal_handler := h\<rparr>) = stopped_below k s"
  "stopped_below k (s\<lparr>publisher := p\<rparr>) = stopped_below k s"
  by (simp_all add: stopped_below_def)

lemma sound_stops:
  assumes "sound_run s" "\<not> panicked s" "returned s = None"
  shows "sound_run (s\<lparr>stopped := (stopped s)[k := True]\<rparr>)"
  using assms
  by (auto simp: sound_run_def callers_stopped_def publisher_counts_def outcome_known_def closings_def stopped_below_stop
    split: if_splits)

lemma sound_panic:
  assumes "sound_run s" "\<not> panicked s" "returned s = None" "publisher s = NilPublisher \<or> 2 \<le> calls s"
  shows "sound_run (s\<lparr>panicked := True\<rparr>)"
  using assms
  by (auto simp: sound_run_def callers_stopped_def publisher_counts_def outcome_known_def closings_def calls_def
    stopped_below_def split: if_splits)

text \<open>A caller that is at the engine \<open>k\<close> moves on.\<close>

lemma sound_next_engine:
  assumes "sound_run s" "\<not> panicked s" "returned s = None" "i < length (runs s)" "runs s ! i = ShuttingDown e k"
    "k < length (runs s)"
  shows "sound_run (engine_shuts_down i e k s)"
proof -
  let ?s = "s\<lparr>stopped := (stopped s)[k := True]\<rparr>"
  let ?r = "ShuttingDown e (Suc k)"
  have s: "sound_run ?s" by (rule sound_stops) (rule assms)+
  have "count_if has_shut_down ((runs s)[i := ?r]) = count_if has_shut_down (runs s)"
    "count_if failed ((runs s)[i := ?r]) = count_if failed (runs s)"
    using count_if_update [OF assms(4), of has_shut_down ?r] count_if_update [OF assms(4), of failed ?r] assms(5) by auto
  moreover have "stopped_below (Suc k) ?s"
    using assms by (intro stopped_below_Suc) (auto simp: sound_run_def callers_stopped_def)
  ultimately have "sound_run (?s\<lparr>runs := (runs ?s)[i := ?r]\<rparr>)"
    using s assms(2-)
    by (auto simp: sound_run_def callers_stopped_def publisher_counts_def outcome_known_def closings_def nth_list_update
      stopped_below_def split: if_splits)
  then show ?thesis using assms(6) by (simp add: engine_shuts_down_def shutdown_step_def)
qed

lemma sound_closes:
  assumes "sound_run s" "\<not> panicked s" "returned s = None" "i < length (runs s)" "runs s ! i = ShuttingDown e k"
    "\<not> k < length (runs s)"
  shows "sound_run (engine_shuts_down i e k s)"
proof (cases "publisher s = Publishing False")
  case True
  let ?r = "Returned (Some e)"
  have "count_if has_shut_down ((runs s)[i := ?r]) = Suc (count_if has_shut_down (runs s))"
    "count_if failed ((runs s)[i := ?r]) = count_if failed (runs s)"
    using count_if_update [OF assms(4), of has_shut_down ?r] count_if_update [OF assms(4), of failed ?r] assms(5) by auto
  moreover have "stopped_below (length (runs s)) s"
    using assms by (auto simp: sound_run_def callers_stopped_def stopped_below_def)
  ultimately have "sound_run (s\<lparr>publisher := Publishing True, runs := (runs s)[i := ?r]\<rparr>)"
    using assms True
    by (auto simp: sound_run_def callers_stopped_def publisher_counts_def outcome_known_def closings_def nth_list_update
      stopped_below_def split: if_splits)
  then show ?thesis using assms(6) True by (simp add: engine_shuts_down_def shutdown_step_def)
next
  case False
  have "2 \<le> calls s" if "publisher s \<noteq> NilPublisher"
  proof -
    have "closings s = 1" using that False assms(1) by (cases "publisher s") (auto simp: sound_run_def publisher_counts_def)
    then show ?thesis
      using caller_not_counted [OF assms(4,5)] by (auto simp: closings_def calls_def split: if_splits)
  qed
  then have "sound_run (s\<lparr>panicked := True\<rparr>)" using sound_panic [OF assms(1-3)] by blast
  then show ?thesis using assms(6) False by (simp add: engine_shuts_down_def shutdown_step_def)
qed

lemma sound_signal:
  assumes "sound_run s" "\<not> panicked s" "returned s = None" "signal_handler s = HandlingSignal k"
  shows "sound_run (signal_shuts_down k s)"
proof -
  have k: "stopped_below k s" using assms by (auto simp: sound_run_def callers_stopped_def)
  consider "k < length (runs s)" | "k = length (runs s)" "publisher s = Publishing False"
    | "k = length (runs s)" "publisher s \<noteq> Publishing False"
    using k by (cases "k < length (runs s)"; cases "publisher s = Publishing False") (auto simp: stopped_below_def)
  then show ?thesis
  proof cases
    case 1
    let ?s = "s\<lparr>stopped := (stopped s)[k := True]\<rparr>"
    have "sound_run ?s" "stopped_below (Suc k) ?s"
      using sound_stops [OF assms(1-3)] stopped_below_Suc [OF k 1] assms(1) by (simp_all add: sound_run_def)
    then have "sound_run (?s\<lparr>signal_handler := HandlingSignal (Suc k)\<rparr>)"
      using assms(2-)
      by (auto simp: sound_run_def callers_stopped_def publisher_counts_def outcome_known_def closings_def
        split: if_splits)
    then show ?thesis using 1 by (simp add: signal_shuts_down_def shutdown_step_def)
  next
    case 2
    then have "sound_run (s\<lparr>publisher := Publishing True, signal_handler := HandledSignal\<rparr>)"
      using assms k
      by (auto simp: sound_run_def callers_stopped_def publisher_counts_def outcome_known_def closings_def
        stopped_below_def split: if_splits)
    then show ?thesis using 2 by (simp add: signal_shuts_down_def shutdown_step_def)
  next
    case 3
    have "2 \<le> calls s" if "publisher s \<noteq> NilPublisher"
    proof -
      have "closings s = 1" using that 3 assms(1) by (cases "publisher s") (auto simp: sound_run_def publisher_counts_def)
      then show ?thesis
        using count_if_mono [of has_shut_down failed "runs s"] has_shut_down_failed assms(4)
        by (auto simp: closings_def calls_def)
    qed
    then have "sound_run (s\<lparr>panicked := True\<rparr>)" using sound_panic [OF assms(1-3)] by blast
    then show ?thesis using 3 by (simp add: signal_shuts_down_def shutdown_step_def)
  qed
qed

lemma sound_returns:
  "sound_run s \<Longrightarrow> \<not> panicked s \<Longrightarrow> returned s = None \<Longrightarrow> list_all has_returned (runs s) \<Longrightarrow> sound_run (run_returns s)"
  by (auto simp: run_returns_def sound_run_def callers_stopped_def publisher_counts_def outcome_known_def closings_def
    stopped_below_def split: if_splits list.splits)

lemma sound_signalled:
  "sound_run s \<Longrightarrow> \<not> panicked s \<Longrightarrow> returned s = None \<Longrightarrow> signal_handler s = AwaitingSignal \<Longrightarrow>
   sound_run (s\<lparr>signal_handler := HandlingSignal 0\<rparr>)"
  by (auto simp: sound_run_def callers_stopped_def publisher_counts_def outcome_known_def closings_def
    stopped_below_def split: if_splits)

lemma sound_step:
  assumes "worker_step s s'" "sound_run s" "\<not> panicked s" "returned s = None"
  shows "sound_run s'"
  using assms
proof cases
  case (starts i)
  then show ?thesis
    using sound_phase [OF assms(2-4), of i] by (simp add: engine_starts_def)
next
  case (ends i)
  then show ?thesis
    using sound_phase [OF assms(2-4), of i "Returned None"] by (simp add: engine_ends_def)
next
  case (fails i e)
  then show ?thesis using sound_fails [OF assms(2-4), of i] by simp
next
  case (shuts i e k)
  then show ?thesis
    using sound_next_engine [OF assms(2-4), of i e k] sound_closes [OF assms(2-4), of i e k] by (cases "k < length (runs s)") simp_all
next
  case signalled
  then show ?thesis using sound_signalled [OF assms(2-4)] by simp
next
  case (handles k)
  then show ?thesis using sound_signal [OF assms(2-4)] by simp
next
  case publishes
  then show ?thesis using sound_panic [OF assms(2-4)] by simp
next
  case waited
  then show ?thesis using sound_returns [OF assms(2-4)] by simp
qed

lemma sound_steps: "worker_steps s s' \<Longrightarrow> sound_run s \<Longrightarrow> sound_run s'"
  by (induction rule: worker_steps.induct) (auto intro: sound_step)

lemma publisher_stays: "worker_steps s s' \<Longrightarrow> publisher s' = NilPublisher \<longleftrightarrow> publisher s = NilPublisher"
proof (induction rule: worker_steps.induct)
  case (step s s' s'')
  from step.hyps(4) have "publisher s'' = NilPublisher \<longleftrightarrow> publisher s' = NilPublisher"
    by cases (auto simp: run_step_defs)
  then show ?case using step.IH by simp
qed simp

lemma all_stopped: "stopped_below (length (runs s)) s \<Longrightarrow> length (stopped s) = length (runs s) \<Longrightarrow> list_all (\<lambda>b. b) (stopped s)"
  by (simp add: stopped_below_def list_all_length)

lemma returned_counts:
  "list_all has_returned rs \<Longrightarrow> count_if failed rs = count_if has_shut_down rs"
  by (induction rs) (auto simp: count_if_def has_returned_def failed_def has_shut_down_def split: engine_run.splits option.splits)

section \<open>Runs that can be computed\<close>

datatype move = Starts nat | Fails nat go_error | Ends nat | Shuts nat | Signal | Handles | Publishes | Waited

fun moved :: "move \<Rightarrow> worker_run \<Rightarrow> worker_run option" where
  "moved (Starts i) s = (if i < length (runs s) \<and> runs s ! i = Spawned then Some (engine_starts i s) else None)"
| "moved (Fails i e) s = (if i < length (runs s) \<and> runs s ! i = Receiving then Some (engine_fails i e s) else None)"
| "moved (Ends i) s =
     (if i < length (runs s) \<and> runs s ! i = Receiving \<and> \<not> fan_ins s ! i then Some (engine_ends i s) else None)"
| "moved (Shuts i) s =
     (if i < length (runs s) then (case runs s ! i of ShuttingDown e k \<Rightarrow> Some (engine_shuts_down i e k s) | _ \<Rightarrow> None) else None)"
| "moved Signal s = (if signal_handler s = AwaitingSignal then Some (s\<lparr>signal_handler := HandlingSignal 0\<rparr>) else None)"
| "moved Handles s = (case signal_handler s of HandlingSignal k \<Rightarrow> Some (signal_shuts_down k s) | _ \<Rightarrow> None)"
| "moved Publishes s = (if publisher s = NilPublisher then Some (s\<lparr>panicked := True\<rparr>) else None)"
| "moved Waited s = (if list_all has_returned (runs s) then Some (run_returns s) else None)"

fun run_moves :: "move list \<Rightarrow> worker_run \<Rightarrow> worker_run option" where
  "run_moves [] s = Some s"
| "run_moves (m # ms) s =
     (if panicked s \<or> returned s \<noteq> None then None
      else (case moved m s of None \<Rightarrow> None | Some s' \<Rightarrow> run_moves ms s'))"

lemma moved_step: "moved m s = Some s' \<Longrightarrow> worker_step s s'"
  by (cases m) (auto intro: worker_step.intros split: if_splits engine_run.splits signal_run.splits)

lemma run_moves_steps: "run_moves ms s = Some s' \<Longrightarrow> worker_steps s0 s \<Longrightarrow> worker_steps s0 s'"
proof (induction ms arbitrary: s)
  case (Cons m ms)
  then obtain s1 where "moved m s = Some s1" "run_moves ms s1 = Some s'" "\<not> panicked s" "returned s = None"
    by (auto split: if_splits option.splits)
  then show ?case using Cons.IH Cons.prems(2) moved_step worker_steps.step by blast
qed simp

lemmas moves_reach = run_moves_steps [OF _ worker_steps.refl]

section \<open>Receivers that never return\<close>

lemma fan_ins_stay: "worker_step s s' \<Longrightarrow> fan_ins s' = fan_ins s \<and> length (runs s') = length (runs s)"
  by (erule worker_step_cases) (auto simp: run_step_defs)

lemma receiving_step:
  assumes "worker_step s s'" "fan_ins s ! i" "runs s ! i = Receiving \<or> failed (runs s ! i)"
  shows "runs s' ! i = Receiving \<or> failed (runs s' ! i)"
  using assms by cases (auto simp: run_step_defs nth_list_update)

lemma fan_in_receives:
  "worker_steps s s' \<Longrightarrow> fan_ins s ! i \<Longrightarrow> runs s ! i = Receiving \<Longrightarrow>
   fan_ins s' = fan_ins s \<and> length (runs s') = length (runs s) \<and> (runs s' ! i = Receiving \<or> failed (runs s' ! i))"
proof (induction rule: worker_steps.induct)
  case (step s s' s'')
  then show ?case using fan_ins_stay [OF step.hyps(4)] receiving_step [OF step.hyps(4), of i] by simp
qed simp

lemma worker_steps_trans: "worker_steps s' s'' \<Longrightarrow> worker_steps s s' \<Longrightarrow> worker_steps s s''"
  by (induction rule: worker_steps.induct) (auto intro: worker_steps.step)

lemma aggregator_fans_in:
  "returns build_aggregate_by_intermediary_worker (\<lambda>w. \<exists>e. w_engines w = [e] \<and> is_fan_in (e_receiver e))"
  unfolding build_aggregate_by_intermediary_worker_def
  by ((rule returns_check returns_give)+) (simp add: new_worker_def stateful_engine_def)

text \<open>A worker without a publisher whose engines are stopped does nothing and returns no error, or panics.\<close>

definition idle_run :: "worker_run \<Rightarrow> bool" where
  "idle_run s \<longleftrightarrow> length (stopped s) = length (runs s) \<and> list_all (\<lambda>b. b) (stopped s) \<and> errChan s = [] \<and>
     (\<forall>i < length (runs s). runs s ! i \<in> {Spawned, Returned None}) \<and> returned s \<in> {None, Some None}"

lemma idle_step: "worker_step s s' \<Longrightarrow> idle_run s \<Longrightarrow> idle_run s'"
  by (erule worker_step_cases) (auto simp: idle_run_def run_step_defs nth_list_update list_all_length)

lemma idle_steps: "worker_steps s s' \<Longrightarrow> idle_run s \<Longrightarrow> idle_run s'"
  by (induction rule: worker_steps.induct) (auto intro: idle_step)

lemma crippled_worker_never_receives:
  assumes "worker_steps (start_run w) s" "crippled w"
  shows "(\<forall>i < length (runs s). runs s ! i \<in> {Spawned, Returned None}) \<and> returned s \<in> {None, Some None}"
proof -
  have "idle_run (start_run w)" using assms(2) by (auto simp: idle_run_def start_run_def crippled_def list_all_iff)
  from idle_steps [OF assms(1) this] show ?thesis by (simp add: idle_run_def)
qed

section \<open>Two workers of the deployment\<close>

definition period_worker :: worker_wiring where
  "period_worker = period_spec (env_of ''172.18.0.1'' period_filter_svc 0)
     (\<lambda>a. the (svc_get period_filter_svc a)) periods_yml"

definition aggregator_worker :: worker_wiring where
  "aggregator_worker = aggregator_spec (env_of ''172.18.0.1'' aggregate_by_intermediary_svc 0)
     ''origin_intermediary_aggregation'' ''destination_intermediary_aggregation'' ''suspicious_path_router_join_input'' 25"

lemma start_period_worker:
  "start_run period_worker =
     \<lparr>fan_ins = [False, False, False], runs = [Spawned, Spawned, Spawned], stopped = [False, False, False], errChan = [],
      signal_handler = AwaitingSignal, publisher = Publishing False, panicked = False, returned = None\<rparr>"
  by (simp add: start_run_def period_worker_def period_spec_def period_engine_spec_def new_worker_def stateless_engine_def)

lemma start_aggregator_worker:
  "start_run aggregator_worker =
     \<lparr>fan_ins = [True], runs = [Spawned], stopped = [False], errChan = [], signal_handler = AwaitingSignal,
      publisher = Publishing False, panicked = False, returned = None\<rparr>"
  by (simp add: start_run_def aggregator_worker_def aggregator_spec_def new_worker_def stateful_engine_def)

text \<open>The broker goes away: two of the three engines lose their connections.\<close>

definition connections_lost :: "move list" where
  "connections_lost = [Starts 0, Starts 1, Starts 2, Fails 0 ErrClosed, Fails 1 ErrClosed,
     Shuts 0, Shuts 0, Shuts 0, Shuts 0, Shuts 1, Shuts 1, Shuts 1, Shuts 1]"

lemma period_worker_panics:
  "\<exists>s. run_moves connections_lost (start_run period_worker) = Some s \<and> panicked s"
  by (simp add: connections_lost_def start_period_worker run_step_defs eval_nat_numeral)

text \<open>\<open>docker stop\<close>: the signal is handled, everything is closed.\<close>

lemma aggregator_stopped:
  "\<exists>s s'. run_moves [Starts 0] (start_run aggregator_worker) = Some s \<and> run_moves [Signal, Handles, Handles] s = Some s' \<and>
     fan_ins s = [True] \<and> runs s = [Receiving] \<and> runs s' = [Receiving] \<and> stopped s' = [True] \<and>
     publisher s' = Publishing True"
  by (simp add: start_aggregator_worker run_step_defs eval_nat_numeral)

section \<open>Properties\<close>

text \<open>
  C19. How a worker with a heartbeat publisher ends, whatever its engines and the signal do and in whatever order. When
  \<open>Run\<close> returns, all engines have returned and at most one of them failed: \<open>Run\<close> returns its error, and the other
  engines and the publisher have been shut down. When two engines fail, \<open>Run\<close> does not return. The process panics only
  if \<open>shutdown\<close> was called twice, by two engines that failed or by one and the signal: the second call closes the channel
  of the publisher again.
\<close>

theorem worker_run_outcome:
  assumes "worker_steps (start_run w) s" "w_heartbeat w \<noteq> None"
  shows "(\<forall>r. returned s = Some r \<longrightarrow> list_all has_returned (runs s) \<and> errChan s = (case r of None \<Rightarrow> [] | Some e \<Rightarrow> [e]) \<and>
      (r \<noteq> None \<longrightarrow> list_all (\<lambda>b. b) (stopped s) \<and> publisher s = Publishing True)) \<and>
    (panicked s \<longrightarrow> 2 \<le> length (errChan s) + (if signal_handler s = AwaitingSignal then 0 else 1))"
proof -
  have s: "sound_run s" by (rule sound_steps [OF assms(1) sound_start])
  have p: "publisher s \<noteq> NilPublisher" using publisher_stays [OF assms(1)] assms(2) by (simp add: start_run_def)
  have "list_all has_returned (runs s) \<and> errChan s = (case r of None \<Rightarrow> [] | Some e \<Rightarrow> [e]) \<and>
      (r \<noteq> None \<longrightarrow> list_all (\<lambda>b. b) (stopped s) \<and> publisher s = Publishing True)" if r: "returned s = Some r" for r
  proof -
    have all: "list_all has_returned (runs s)" "r = (case errChan s of [] \<Rightarrow> None | e # _ \<Rightarrow> Some e)"
      using s r by (simp_all add: sound_run_def outcome_known_def)
    have n: "length (errChan s) \<le> closings s"
      using s returned_counts [OF all(1)] by (simp add: sound_run_def closings_def)
    have c: "publisher s = Publishing True \<and> stopped_below (length (runs s)) s \<or> errChan s = []" "length (errChan s) \<le> 1"
      using n s by (auto simp: sound_run_def publisher_counts_def split: if_splits)
    then show ?thesis
      using all s all_stopped [of s] by (cases "errChan s") (auto simp: sound_run_def)
  qed
  moreover have "panicked s \<longrightarrow> 2 \<le> length (errChan s) + (if signal_handler s = AwaitingSignal then 0 else 1)"
    using s p by (simp add: sound_run_def outcome_known_def calls_def)
  ultimately show ?thesis by blast
qed

theorem worker_run_outcome_witness:
  "\<exists>s. worker_steps (start_run period_worker) s \<and> w_heartbeat period_worker \<noteq> None \<and> panicked s \<and>
     2 \<le> length (errChan s) + (if signal_handler s = AwaitingSignal then 0 else 1)"
proof -
  have w: "w_heartbeat period_worker \<noteq> None" by (simp add: period_worker_def period_spec_def new_worker_def Let_def)
  obtain s where s: "run_moves connections_lost (start_run period_worker) = Some s" "panicked s"
    using period_worker_panics by blast
  show ?thesis using worker_run_outcome [OF moves_reach [OF s(1)] w] moves_reach [OF s(1)] w s(2) by blast
qed



end
